(* ===== verification/Prelude.thy ===== *)
theory Prelude
  imports Main "HOL-Library.Word" "HOL-Library.AList"
begin

text \<open>
  Shared vocabulary of the development: the machine integer types of the Rust
  sources, the result type of fallible operations, and the generic facts about
  lists, options and little-endian bytes that the component theories share.

  Conventions.  \<open>u8\<close>, \<open>u16\<close>, \<open>u32\<close>, \<open>u64\<close> are words of that width.  Signed wire
  integers (\<open>i16\<close>, \<open>i32\<close>) are read with \<open>sint\<close> into an \<open>int\<close> of that range and
  written with \<open>word_of_int\<close>.  \<open>usize\<close> is \<open>nat\<close>; where the code checks for the
  64-bit overflow the check is written out with \<open>usize_max\<close>.  A fallible
  operation returns \<open>'e + 'a\<close>, \<open>Inl\<close> being the \<open>Err\<close> of the source.  A Rust
  \<open>String\<close> is the list of its Unicode scalar values.
\<close>

unbundle bit_operations_syntax

named_theorems result_iff \<open>inversion rules for successful results\<close>
named_theorems wire_length \<open>lengths of written byte sequences\<close>
named_theorems wire_read \<open>reading back what was written\<close>

type_synonym u8 = "8 word"
type_synonym u16 = "16 word"
type_synonym u32 = "32 word"
type_synonym u64 = "64 word"
type_synonym ustring = "nat list"

definition usize_max :: nat where
  "usize_max = 2 ^ 64 - 1"

definition checked_add_usize :: "nat \<Rightarrow> nat \<Rightarrow> nat option" where
  "checked_add_usize a b = (if a + b \<le> usize_max then Some (a + b) else None)"

definition checked_mul_usize :: "nat \<Rightarrow> nat \<Rightarrow> nat option" where
  "checked_mul_usize a b = (if a * b \<le> usize_max then Some (a * b) else None)"

text \<open>A Rust string literal of ASCII characters as scalar values.\<close>

definition ustr :: "string \<Rightarrow> ustring" where
  "ustr s = map of_char s"

section \<open>Results\<close>

definition rbind :: "('e + 'a) \<Rightarrow> ('a \<Rightarrow> 'e + 'b) \<Rightarrow> 'e + 'b" where
  "rbind m f = (case m of Inl e \<Rightarrow> Inl e | Inr x \<Rightarrow> f x)"

definition rmap_err :: "('e \<Rightarrow> 'f) \<Rightarrow> ('e + 'a) \<Rightarrow> 'f + 'a" where
  "rmap_err g m = (case m of Inl e \<Rightarrow> Inl (g e) | Inr x \<Rightarrow> Inr x)"

definition ok_or :: "'e \<Rightarrow> 'a option \<Rightarrow> 'e + 'a" where
  "ok_or e m = (case m of None \<Rightarrow> Inl e | Some x \<Rightarrow> Inr x)"

definition rguard :: "bool \<Rightarrow> 'e \<Rightarrow> 'e + unit" where
  "rguard b e = (if b then Inr () else Inl e)"

lemma rbind_simps [simp]:
  "rbind (Inl e) f = Inl e"
  "rbind (Inr x) f = f x"
  by (simp_all add: rbind_def)

lemma rmap_err_simps [simp]:
  "rmap_err g (Inl e) = Inl (g e)"
  "rmap_err g (Inr x) = Inr x"
  by (simp_all add: rmap_err_def)

lemma ok_or_simps [simp]:
  "ok_or e None = Inl e"
  "ok_or e (Some x) = Inr x"
  by (simp_all add: ok_or_def)

lemma rguard_simps [simp]:
  "rguard True e = Inr ()"
  "rguard False e = Inl e"
  by (simp_all add: rguard_def)

lemma rbind_Inr_iff [result_iff]: "rbind m f = Inr y \<longleftrightarrow> (\<exists>x. m = Inr x \<and> f x = Inr y)"
  by (cases m) simp_all

lemma rbind_Inl_iff: "rbind m f = Inl e \<longleftrightarrow> m = Inl e \<or> (\<exists>x. m = Inr x \<and> f x = Inl e)"
  by (cases m) simp_all

lemma rmap_err_Inr_iff [result_iff]: "rmap_err g m = Inr y \<longleftrightarrow> m = Inr y"
  by (cases m) simp_all

lemma ok_or_Inr_iff [result_iff]: "ok_or e m = Inr x \<longleftrightarrow> m = Some x"
  by (cases m) simp_all

lemma ok_or_Inl_iff: "ok_or e m = Inl e' \<longleftrightarrow> m = None \<and> e' = e"
  by (cases m) auto

lemma rguard_Inr_iff [result_iff]: "rguard b e = Inr u \<longleftrightarrow> b"
  by (cases b) simp_all

lemma rguard_Inl_iff: "rguard b e = Inl e' \<longleftrightarrow> \<not> b \<and> e' = e"
  by (cases b) auto

section \<open>Lists as fixed arrays\<close>

text \<open>
  \<open>position\<close> is Rust's \<open>Iterator::position\<close>: the least index whose element
  satisfies the predicate.
\<close>

fun position :: "('a \<Rightarrow> bool) \<Rightarrow> 'a list \<Rightarrow> nat option" where
  "position p [] = None"
| "position p (x # xs) = (if p x then Some 0 else map_option Suc (position p xs))"

lemma position_None_iff: "position p xs = None \<longleftrightarrow> (\<forall>x\<in>set xs. \<not> p x)"
  by (induction xs) auto

lemma position_SomeD:
  "position p xs = Some i \<Longrightarrow> i < length xs \<and> p (xs ! i) \<and> (\<forall>j<i. \<not> p (xs ! j))"
proof (induction xs arbitrary: i)
  case Nil
  then show ?case by simp
next
  case (Cons x xs)
  show ?case
  proof (cases "p x")
    case True
    with Cons.prems show ?thesis by auto
  next
    case False
    with Cons.prems obtain k where k: "position p xs = Some k" "i = Suc k" by auto
    with Cons.IH [OF k(1)] False show ?thesis
      by (auto simp: less_Suc_eq_0_disj nth_Cons')
  qed
qed

lemma position_SomeI: "i < length xs \<Longrightarrow> p (xs ! i) \<Longrightarrow> \<exists>k. position p xs = Some k \<and> k \<le> i"
proof (induction xs arbitrary: i)
  case Nil
  then show ?case by simp
next
  case (Cons x xs)
  then show ?case by (cases i) fastforce+
qed

lemma position_unique:
  assumes "i < length xs" "p (xs ! i)" "\<And>j. j < length xs \<Longrightarrow> p (xs ! j) \<Longrightarrow> j = i"
  shows "position p xs = Some i"
  using position_SomeI [of i xs p] position_SomeD [of p xs] assms by metis

text \<open>Looking an entry of a table up by a key that is distinct on it.\<close>

lemma find_injective: "distinct (map f xs) \<Longrightarrow> x \<in> set xs \<Longrightarrow> List.find (\<lambda>y. f y = f x) xs = Some x"
  by (induction xs) auto

lemma find_SomeD: "List.find P xs = Some x \<Longrightarrow> x \<in> set xs \<and> P x"
  by (auto simp: find_Some_iff)

text \<open>The values of an array of options in index order (Rust's \<open>flatten\<close>).\<close>

definition flatten :: "'a option list \<Rightarrow> 'a list" where
  "flatten xs = List.map_filter (\<lambda>x. x) xs"

lemma flatten_simps [simp]:
  "flatten [] = []"
  "flatten (None # xs) = flatten xs"
  "flatten (Some x # xs) = x # flatten xs"
  by (simp_all add: flatten_def List.map_filter_simps)

lemma flatten_append [simp]: "flatten (xs @ ys) = flatten xs @ flatten ys"
  by (induction xs) (auto simp: flatten_def List.map_filter_simps split: option.splits)

lemma set_flatten: "x \<in> set (flatten xs) \<longleftrightarrow> Some x \<in> set xs"
  by (induction xs) (auto simp: flatten_def List.map_filter_simps split: option.splits)

lemma length_flatten_le: "length (flatten xs) \<le> length xs"
  by (induction xs) (auto simp: flatten_def List.map_filter_simps split: option.splits)

lemma flatten_replicate_None [simp]: "flatten (replicate n None) = []"
  by (induction n) simp_all

lemma flatten_eq_Nil_iff: "flatten xs = [] \<longleftrightarrow> (\<forall>x\<in>set xs. x = None)"
  by (induction xs) (auto simp: flatten_def List.map_filter_simps split: option.splits)

text \<open>\<open>occupied xs\<close> is the set of indices holding a value.\<close>

definition occupied :: "'a option list \<Rightarrow> nat set" where
  "occupied xs = {i. i < length xs \<and> xs ! i \<noteq> None}"

lemma finite_occupied [simp]: "finite (occupied xs)"
  by (simp add: occupied_def)

lemma card_occupied: "card (occupied xs) = length (flatten xs)"
proof (induction xs)
  case Nil
  then show ?case by (simp add: occupied_def)
next
  case (Cons x xs)
  have split: "occupied (x # xs) = (if x = None then {} else {0}) \<union> Suc ` occupied xs"
    by (auto simp: occupied_def image_def nth_Cons' split: if_splits)
      (metis Suc_pred less_Suc_eq_le not_less_eq_eq Suc_less_eq)+
  have "card (Suc ` occupied xs) = card (occupied xs)"
    by (simp add: card_image)
  with Cons.IH split show ?case
    by (cases x) (simp_all add: card_insert_if image_iff)
qed

section \<open>Hash maps\<close>

text \<open>
  A Rust \<open>HashMap\<close> is an association list: \<open>map_of\<close> is \<open>get\<close>, \<open>AList.update\<close> is
  \<open>insert\<close>, \<open>AList.delete\<close> is \<open>remove\<close>, and the order of the list is the order in
  which the source iterates (which the language leaves open).
\<close>

abbreviation keys_distinct :: "('k \<times> 'v) list \<Rightarrow> bool" where
  "keys_distinct m \<equiv> distinct (map fst m)"

lemma map_of_update [simp]: "map_of (AList.update k v m) = (map_of m)(k \<mapsto> v)"
  by (rule update_conv')

lemma map_of_delete [simp]: "map_of (AList.delete k m) = (map_of m)(k := None)"
  by (rule delete_conv')

lemma keys_distinct_update [simp]: "keys_distinct m \<Longrightarrow> keys_distinct (AList.update k v m)"
  by (rule distinct_update)

lemma keys_distinct_delete [simp]: "keys_distinct m \<Longrightarrow> keys_distinct (AList.delete k m)"
  by (rule distinct_delete)

lemma mem_iff_map_of: "keys_distinct m \<Longrightarrow> (k, v) \<in> set m \<longleftrightarrow> map_of m k = Some v"
  by simp

lemma map_filter_mem: "y \<in> set (List.map_filter f xs) \<longleftrightarrow> (\<exists>x\<in>set xs. f x = Some y)"
  by (force simp: List.map_filter_def)

end
