(* ===== verification/Wire.thy ===== *)
theory Wire
  imports Prelude
begin

text \<open>
  The byte-level foundation of every P5136 packet codec:
  \<^item> \<open>p5136-core/src/adler32.rs\<close>: the zero-seeded Adler-32 variant that names
    packets (\<open>hash\<close>, \<open>packet_hash\<close>, \<open>unicode_hash\<close>);
  \<^item> \<open>p5136-core/src/encoded.rs\<close>: the legacy substitution of \<open>WriteEnc*\<close> scalars;
  \<^item> \<open>p5136-core/src/packet.rs\<close>: the little-endian \<open>PacketWriter\<close> (a byte list) and
    the \<open>PacketReader\<close> (bytes and an offset), with their errors;
  \<^item> the UTF-16 transcoding of Rust's standard library that both rest on.
\<close>

section \<open>Little-endian words\<close>

definition le16 :: "u16 \<Rightarrow> u8 list" where
  "le16 w = [ucast w, ucast (drop_bit 8 w)]"

definition le32 :: "u32 \<Rightarrow> u8 list" where
  "le32 w = [ucast w, ucast (drop_bit 8 w), ucast (drop_bit 16 w), ucast (drop_bit 24 w)]"

definition from_le16 :: "u8 \<Rightarrow> u8 \<Rightarrow> u16" where
  "from_le16 b0 b1 = ucast b0 OR push_bit 8 (ucast b1)"

definition from_le32 :: "u8 \<Rightarrow> u8 \<Rightarrow> u8 \<Rightarrow> u8 \<Rightarrow> u32" where
  "from_le32 b0 b1 b2 b3 =
     ucast b0 OR push_bit 8 (ucast b1) OR push_bit 16 (ucast b2) OR push_bit 24 (ucast b3)"

lemma length_le16 [simp, wire_length]: "length (le16 w) = 2"
  by (simp add: le16_def)

lemma length_le32 [simp, wire_length]: "length (le32 w) = 4"
  by (simp add: le32_def)

lemma from_le16_le16 [simp]: "from_le16 (le16 w ! 0) (le16 w ! 1) = w"
  unfolding from_le16_def le16_def
  by (rule bit_word_eqI) (auto simp: bit_simps not_less not_le)

lemma from_le32_le32 [simp]:
  "from_le32 (ucast w) (ucast (drop_bit 8 w)) (ucast (drop_bit 16 w)) (ucast (drop_bit 24 w)) = (w::u32)"
proof (rule bit_word_eqI)
  fix n :: nat
  assume n: "n < LENGTH(32)"
  consider "n < 8" | "8 \<le> n \<and> n < 16" | "16 \<le> n \<and> n < 24" | "24 \<le> n" by linarith
  then show "bit (from_le32 (ucast w) (ucast (drop_bit 8 w)) (ucast (drop_bit 16 w))
      (ucast (drop_bit 24 w))) n = bit w n"
    using n by cases (auto simp: from_le32_def bit_simps)
qed

lemma from_le16_ucast [simp]:
  "from_le16 (ucast w) (ucast (drop_bit 8 w)) = (w::u16)"
  using from_le16_le16 [of w] by (simp add: le16_def)

lemma le32_from_le32 [simp]: "le32 (from_le32 b0 b1 b2 b3) = [b0, b1, b2, b3]"
  unfolding from_le32_def le32_def
  by (intro list.inject [THEN iffD2] conjI refl bit_word_eqI)
     (auto simp: bit_simps dest: bit_imp_le_length)

lemma le16_from_le16 [simp]: "le16 (from_le16 b0 b1) = [b0, b1]"
  unfolding from_le16_def le16_def
  by (intro list.inject [THEN iffD2] conjI refl bit_word_eqI)
     (auto simp: bit_simps dest: bit_imp_le_length)

section \<open>Adler-32 packet names\<close>

definition mod_adler :: u32 where
  "mod_adler = 65521"

text \<open>One iteration of the loop of \<open>hash\<close>.\<close>

fun adler_step :: "u32 \<times> u32 \<Rightarrow> u8 \<Rightarrow> u32 \<times> u32" where
  "adler_step (a, b) byte =
     (let a' = (a + ucast byte) mod mod_adler;
          b' = (b + a') mod mod_adler
      in (a', b'))"

definition adler_pack :: "u32 \<times> u32 \<Rightarrow> u32" where
  "adler_pack ab = fst ab OR push_bit 16 (snd ab)"

definition adler_hash :: "u8 list \<Rightarrow> u32 \<Rightarrow> u32" where
  "adler_hash bytes seed =
     adler_pack (foldl adler_step (seed AND 0xffff, drop_bit 16 seed) bytes)"

text \<open>\<open>str::as_bytes\<close> of an ASCII packet name.\<close>

definition ascii_bytes :: "string \<Rightarrow> u8 list" where
  "ascii_bytes name = map of_char name"

definition packet_hash :: "string \<Rightarrow> u32" where
  "packet_hash name = adler_hash (ascii_bytes name) 0"

section \<open>UTF-16\<close>

text \<open>Rust's \<open>char\<close>: a Unicode scalar value.\<close>

definition scalar_value :: "nat \<Rightarrow> bool" where
  "scalar_value c \<longleftrightarrow> c < 0xD800 \<or> (0xE000 \<le> c \<and> c < 0x110000)"

definition encode_utf16_char :: "nat \<Rightarrow> u16 list" where
  "encode_utf16_char c =
     (if c < 0x10000 then [of_nat c]
      else [of_nat (0xD800 + (c - 0x10000) div 0x400), of_nat (0xDC00 + (c - 0x10000) mod 0x400)])"

definition encode_utf16 :: "ustring \<Rightarrow> u16 list" where
  "encode_utf16 s = concat (map encode_utf16_char s)"

text \<open>\<open>String::from_utf16\<close>: \<open>None\<close> on an unpaired surrogate.\<close>

fun from_utf16 :: "u16 list \<Rightarrow> ustring option" where
  "from_utf16 [] = Some []"
| "from_utf16 (u # us) =
     (if unat u < 0xD800 \<or> 0xE000 \<le> unat u then map_option ((#) (unat u)) (from_utf16 us)
      else if 0xDC00 \<le> unat u then None
      else (case us of
              [] \<Rightarrow> None
            | v # vs \<Rightarrow>
                if 0xDC00 \<le> unat v \<and> unat v < 0xE000
                then map_option ((#) (0x10000 + (unat u - 0xD800) * 0x400 + (unat v - 0xDC00)))
                       (from_utf16 vs)
                else None))"

definition utf16_le_bytes :: "ustring \<Rightarrow> u8 list" where
  "utf16_le_bytes s = concat (map le16 (encode_utf16 s))"

definition unicode_hash :: "ustring \<Rightarrow> u32" where
  "unicode_hash value = adler_pack (foldl adler_step (0, 0) (utf16_le_bytes value))"

section \<open>Encoded scalars\<close>

definition decode_table :: "u8 list" where
  "decode_table = [
     79, 200, 44, 182, 173, 43, 108, 229, 46, 65, 174, 137, 154, 120, 126, 207,
     91, 124, 189, 116, 251, 220, 5, 239, 42, 167, 225, 205, 215, 90, 41, 45,
     13, 4, 245, 231, 180, 133, 208, 59, 178, 20, 110, 150, 219, 99, 203, 243,
     141, 160, 81, 195, 31, 78, 228, 57, 181, 121, 76, 170, 21, 143, 240, 37,
     222, 9, 152, 138, 113, 56, 254, 27, 100, 75, 62, 52, 107, 69, 25, 196,
     123, 30, 193, 39, 19, 197, 36, 11, 128, 80, 230, 29, 32, 145, 58, 209,
     176, 50, 129, 244, 147, 102, 112, 151, 97, 70, 40, 168, 96, 83, 190, 86,
     2, 51, 177, 217, 172, 105, 118, 38, 210, 206, 201, 183, 1, 248, 74, 17,
     246, 139, 22, 164, 55, 185, 67, 237, 159, 3, 184, 212, 235, 156, 117, 162,
     142, 214, 33, 127, 48, 213, 136, 211, 26, 194, 199, 169, 161, 134, 89, 227,
     140, 87, 10, 144, 77, 247, 187, 125, 82, 241, 23, 103, 16, 95, 192, 85,
     6, 68, 149, 66, 165, 8, 253, 61, 157, 224, 0, 166, 92, 7, 179, 255,
     73, 49, 242, 236, 54, 153, 104, 202, 115, 64, 111, 28, 233, 53, 72, 232,
     171, 252, 135, 101, 18, 146, 98, 71, 221, 148, 24, 234, 198, 114, 163, 109,
     106, 249, 84, 186, 238, 94, 223, 155, 132, 175, 60, 88, 226, 35, 122, 15,
     34, 63, 204, 158, 218, 14, 130, 131, 191, 188, 93, 47, 216, 119, 250, 12]"

text \<open>The \<open>const\<close> loop of \<open>invert_decode_table\<close>.\<close>

fun invert_decode_table_step :: "u8 list \<Rightarrow> nat \<Rightarrow> u8 list" where
  "invert_decode_table_step table encoded =
     table[unat (decode_table ! encoded) := of_nat encoded]"

definition encode_table :: "u8 list" where
  "encode_table = foldl invert_decode_table_step (replicate 256 0) [0..<256]"

definition max_encoded_scalar_bytes :: nat where
  "max_encoded_scalar_bytes = 255"

datatype encoded_scalar_error = EncodedTooLong nat

definition encode_array :: "u8 list \<Rightarrow> u8 list" where
  "encode_array plain =
     map (\<lambda>(pos, value). encode_table ! ((pos + unat value) mod 255)) (enumerate 0 plain)"

definition decode_array :: "u8 list \<Rightarrow> u8 list" where
  "decode_array encoded =
     map (\<lambda>(pos, value). decode_table ! unat value - of_nat pos) (enumerate 0 encoded)"

definition encode_bytes :: "u8 list \<Rightarrow> encoded_scalar_error + u8 list" where
  "encode_bytes plain =
     (if length plain > max_encoded_scalar_bytes then Inl (EncodedTooLong (length plain))
      else Inr (encode_array plain))"

definition decode_bytes :: "u8 list \<Rightarrow> encoded_scalar_error + u8 list" where
  "decode_bytes encoded =
     (if length encoded > max_encoded_scalar_bytes then Inl (EncodedTooLong (length encoded))
      else Inr (decode_array encoded))"

definition encode_u8 :: "u8 \<Rightarrow> u8" where
  "encode_u8 value = encode_table ! (unat value mod 255)"

definition decode_u8 :: "u8 \<Rightarrow> u8" where
  "decode_u8 value = decode_table ! unat value"

definition encode_u16 :: "u16 \<Rightarrow> u8 list" where
  "encode_u16 value = encode_array (le16 value)"

definition encode_u32 :: "u32 \<Rightarrow> u8 list" where
  "encode_u32 value = encode_array (le32 value)"

lemma distinct_decode_values: "distinct ([
     79, 200, 44, 182, 173, 43, 108, 229, 46, 65, 174, 137, 154, 120, 126, 207,
     91, 124, 189, 116, 251, 220, 5, 239, 42, 167, 225, 205, 215, 90, 41, 45,
     13, 4, 245, 231, 180, 133, 208, 59, 178, 20, 110, 150, 219, 99, 203, 243,
     141, 160, 81, 195, 31, 78, 228, 57, 181, 121, 76, 170, 21, 143, 240, 37,
     222, 9, 152, 138, 113, 56, 254, 27, 100, 75, 62, 52, 107, 69, 25, 196,
     123, 30, 193, 39, 19, 197, 36, 11, 128, 80, 230, 29, 32, 145, 58, 209,
     176, 50, 129, 244, 147, 102, 112, 151, 97, 70, 40, 168, 96, 83, 190, 86,
     2, 51, 177, 217, 172, 105, 118, 38, 210, 206, 201, 183, 1, 248, 74, 17,
     246, 139, 22, 164, 55, 185, 67, 237, 159, 3, 184, 212, 235, 156, 117, 162,
     142, 214, 33, 127, 48, 213, 136, 211, 26, 194, 199, 169, 161, 134, 89, 227,
     140, 87, 10, 144, 77, 247, 187, 125, 82, 241, 23, 103, 16, 95, 192, 85,
     6, 68, 149, 66, 165, 8, 253, 61, 157, 224, 0, 166, 92, 7, 179, 255,
     73, 49, 242, 236, 54, 153, 104, 202, 115, 64, 111, 28, 233, 53, 72, 232,
     171, 252, 135, 101, 18, 146, 98, 71, 221, 148, 24, 234, 198, 114, 163, 109,
     106, 249, 84, 186, 238, 94, 223, 155, 132, 175, 60, 88, 226, 35, 122, 15,
     34, 63, 204, 158, 218, 14, 130, 131, 191, 188, 93, 47, 216, 119, 250, 12] :: nat list)"
  by simp

lemma distinct_decode_table: "distinct decode_table"
proof -
  have "map unat decode_table = [
     79, 200, 44, 182, 173, 43, 108, 229, 46, 65, 174, 137, 154, 120, 126, 207,
     91, 124, 189, 116, 251, 220, 5, 239, 42, 167, 225, 205, 215, 90, 41, 45,
     13, 4, 245, 231, 180, 133, 208, 59, 178, 20, 110, 150, 219, 99, 203, 243,
     141, 160, 81, 195, 31, 78, 228, 57, 181, 121, 76, 170, 21, 143, 240, 37,
     222, 9, 152, 138, 113, 56, 254, 27, 100, 75, 62, 52, 107, 69, 25, 196,
     123, 30, 193, 39, 19, 197, 36, 11, 128, 80, 230, 29, 32, 145, 58, 209,
     176, 50, 129, 244, 147, 102, 112, 151, 97, 70, 40, 168, 96, 83, 190, 86,
     2, 51, 177, 217, 172, 105, 118, 38, 210, 206, 201, 183, 1, 248, 74, 17,
     246, 139, 22, 164, 55, 185, 67, 237, 159, 3, 184, 212, 235, 156, 117, 162,
     142, 214, 33, 127, 48, 213, 136, 211, 26, 194, 199, 169, 161, 134, 89, 227,
     140, 87, 10, 144, 77, 247, 187, 125, 82, 241, 23, 103, 16, 95, 192, 85,
     6, 68, 149, 66, 165, 8, 253, 61, 157, 224, 0, 166, 92, 7, 179, 255,
     73, 49, 242, 236, 54, 153, 104, 202, 115, 64, 111, 28, 233, 53, 72, 232,
     171, 252, 135, 101, 18, 146, 98, 71, 221, 148, 24, 234, 198, 114, 163, 109,
     106, 249, 84, 186, 238, 94, 223, 155, 132, 175, 60, 88, 226, 35, 122, 15,
     34, 63, 204, 158, 218, 14, 130, 131, 191, 188, 93, 47, 216, 119, 250, 12]"
    by (simp add: decode_table_def)
  then have "distinct (map unat decode_table)"
    by (simp only: distinct_decode_values)
  then show ?thesis by (simp only: distinct_map)
qed

lemma length_decode_table [simp]: "length decode_table = 256"
  by (simp add: decode_table_def)

lemma decode_table_inj: "i < 256 \<Longrightarrow> j < 256 \<Longrightarrow> decode_table ! i = decode_table ! j \<Longrightarrow> i = j"
  using distinct_decode_table by (simp add: nth_eq_iff_index_eq)

lemma unat_byte_less [simp]: "unat (b :: u8) < 256"
  using unsigned_less [of b, where ?'a = nat] by simp

lemma length_invert_fold [simp]:
  "length (foldl invert_decode_table_step t ns) = length t"
  by (induction ns arbitrary: t) auto

declare invert_decode_table_step.simps [simp del]

lemma invert_step_nth:
  "i < length t \<Longrightarrow> invert_decode_table_step t e ! i =
     (if i = unat (decode_table ! e) then of_nat e else t ! i)"
  by (simp add: invert_decode_table_step.simps nth_list_update)

lemma length_encode_table [simp]: "length encode_table = 256"
  by (simp add: encode_table_def)

text \<open>The loop computes the inverse permutation: after \<open>n\<close> iterations the first \<open>n\<close> entries are inverted.\<close>

lemma invert_fold_prefix:
  "n \<le> 256 \<Longrightarrow> e < n \<Longrightarrow>
     foldl invert_decode_table_step (replicate 256 0) [0..<n] ! unat (decode_table ! e) = of_nat e"
proof (induction n)
  case 0
  then show ?case by simp
next
  case (Suc n)
  show ?case
  proof (cases "e = n")
    case True
    then show ?thesis
      by (simp add: invert_step_nth)
  next
    case False
    with Suc.prems have e: "e < n" "n < 256" by auto
    then have "decode_table ! e \<noteq> decode_table ! n"
      using decode_table_inj [of e n] by auto
    then have "unat (decode_table ! e) \<noteq> unat (decode_table ! n)"
      by (simp only: word_unat_eq_iff [symmetric] not_False_eq_True)
    with Suc.IH e show ?thesis by (simp add: invert_step_nth)
  qed
qed

lemma encode_decode_table: "e < 256 \<Longrightarrow> encode_table ! unat (decode_table ! e) = of_nat e"
  unfolding encode_table_def by (rule invert_fold_prefix) simp_all

lemma decode_table_surj: "\<exists>e<256. unat (decode_table ! e) = v" if "v < 256"
proof -
  let ?f = "\<lambda>e. unat (decode_table ! e)"
  have "inj_on ?f {..<256}"
    by (rule inj_onI) (auto dest: decode_table_inj simp flip: word_unat_eq_iff)
  then have "card (?f ` {..<256}) = 256" by (simp add: card_image)
  moreover have "?f ` {..<256} \<subseteq> {..<256}" by auto
  ultimately have "?f ` {..<256} = {..<256}" by (intro card_subset_eq) simp_all
  with that have "v \<in> ?f ` {..<256}" by simp
  then show ?thesis by auto
qed

lemma decode_encode_table: "v < 256 \<Longrightarrow> decode_table ! unat (encode_table ! v) = of_nat v"
proof -
  assume "v < 256"
  then obtain e where e: "e < 256" "unat (decode_table ! e) = v"
    using decode_table_surj by blast
  from encode_decode_table [OF e(1)] e have "encode_table ! v = of_nat e" by simp
  then have "unat (encode_table ! v) = e" using e(1) by (simp add: unat_of_nat)
  moreover have "decode_table ! e = of_nat v" using e(2) by auto
  ultimately show ?thesis by simp
qed

text \<open>What a decoded scalar byte is: the value, or one more when position and value reach 255.\<close>

lemma decode_encode_byte:
  assumes "pos < 255"
  shows "decode_table ! unat (encode_table ! ((pos + unat v) mod 255)) - of_nat pos =
    (if pos + unat v < 255 then v else v + 1)"
proof -
  have lt: "(pos + unat v) mod 255 < 256" by (rule less_trans [of _ 255]) simp_all
  show ?thesis
  proof (cases "pos + unat v < 255")
    case True
    with lt show ?thesis by (simp add: decode_encode_table)
  next
    case False
    have "pos + unat v < 510" using assms unat_byte_less [of v] by linarith
    with False have m: "(pos + unat v) mod 255 = pos + unat v - 255"
      by (simp add: mod_if)
    have "of_nat (pos + unat v - 255) = (of_nat pos + v - 255 :: u8)"
      using False by (simp add: of_nat_diff)
    with m lt False show ?thesis
      by (simp add: decode_encode_table)
  qed
qed

lemma length_encode_array [simp, wire_length]: "length (encode_array xs) = length xs"
  by (simp add: encode_array_def)

lemma length_decode_array [simp]: "length (decode_array xs) = length xs"
  by (simp add: decode_array_def)

lemma nth_decode_encode_array:
  "i < length xs \<Longrightarrow> length xs \<le> 255 \<Longrightarrow>
     decode_array (encode_array xs) ! i = (if i + unat (xs ! i) < 255 then xs ! i else xs ! i + 1)"
  using decode_encode_byte [of i "xs ! i"]
  by (simp add: decode_array_def encode_array_def nth_enumerate_eq)

lemma word_neq_plus_one: "(v :: u8) + 1 \<noteq> v"
  by simp

lemma decode_encode_array_iff:
  "length xs \<le> 255 \<Longrightarrow>
     decode_array (encode_array xs) = xs \<longleftrightarrow> (\<forall>i<length xs. i + unat (xs ! i) < 255)"
  by (auto simp: list_eq_iff_nth_eq nth_decode_encode_array split: if_splits)

section \<open>Adler-32 facts\<close>

lemma adler_step_bound:
  "fst (adler_step ab x) < mod_adler \<and> snd (adler_step ab x) < mod_adler"
  by (cases ab) (simp add: Let_def mod_adler_def word_less_nat_alt unat_mod)

lemma adler_fold_bound:
  "fst ab < mod_adler \<Longrightarrow> snd ab < mod_adler \<Longrightarrow>
     fst (foldl adler_step ab xs) < mod_adler \<and> snd (foldl adler_step ab xs) < mod_adler"
proof (induction xs arbitrary: ab)
  case Nil
  then show ?case by simp
next
  case (Cons x xs)
  from adler_step_bound [of ab x] show ?case
    by (simp only: foldl_Cons) (rule Cons.IH, simp_all)
qed

text \<open>The two halves can be read back from a packed value.\<close>

lemma adler_unpack:
  assumes "a < 0x10000" "b < 0x10000"
  shows "adler_pack (a, b) AND 0xffff = a" "drop_bit 16 (adler_pack (a, b)) = b"
proof -
  have bits: "\<not> bit x n" if "16 \<le> n" "x < 0x10000" for x :: u32 and n
  proof -
    have "unat x < 2 ^ 16" using that(2) by (simp add: word_less_nat_alt)
    with that(1) have "unat x < 2 ^ n" by (meson less_le_trans one_le_numeral power_increasing)
    then have "take_bit n (unat x) = unat x" by (simp add: take_bit_nat_eq_self)
    then have "\<not> bit (unat x) n" by (metis bit_take_bit_iff less_irrefl)
    then show ?thesis by (simp add: bit_unsigned_iff)
  qed
  then have low: "n < 16" if "bit x n" "x < 0x10000" for x :: u32 and n
    using that not_less by blast
  have mask: "(0xffff :: u32) = mask 16" by (simp add: mask_eq_exp_minus_1)
  show "adler_pack (a, b) AND 0xffff = a"
    unfolding mask using assms
    by (intro bit_word_eqI) (auto simp: adler_pack_def bit_simps not_less dest: low)
  show "drop_bit 16 (adler_pack (a, b)) = b"
    using bits assms
    by (intro bit_word_eqI) (auto simp: adler_pack_def bit_simps dest: low)
qed

lemma mod_adler_less: "x < mod_adler \<Longrightarrow> x < 0x10000"
  by (simp add: mod_adler_def word_less_nat_alt)

lemma seed_halves: "seed AND 0xffff < (0x10000 :: u32)" "drop_bit 16 seed < (0x10000 :: u32)"
proof -
  have "seed AND 0xffff \<le> (0xffff :: u32)" by (rule word_and_le1)
  then show "seed AND 0xffff < (0x10000 :: u32)" by (simp add: word_le_nat_alt word_less_nat_alt)
  have "unat seed < 2 ^ 32" using unsigned_less [of seed, where ?'a = nat] by simp
  then show "drop_bit 16 seed < (0x10000 :: u32)"
    by (simp add: word_less_nat_alt drop_bit_eq_div unat_div div_less_iff_less_mult)
qed

lemma adler_fold_small:
  "fst ab < 0x10000 \<Longrightarrow> snd ab < 0x10000 \<Longrightarrow>
     fst (foldl adler_step ab xs) < 0x10000 \<and> snd (foldl adler_step ab xs) < 0x10000"
proof (induction xs arbitrary: ab)
  case Nil
  then show ?case by simp
next
  case (Cons x xs)
  from adler_step_bound [of ab x] show ?case
    by (simp only: foldl_Cons) (rule Cons.IH, auto intro: mod_adler_less)
qed

text \<open>Hashing in two pieces is hashing the whole.\<close>

lemma adler_hash_append: "adler_hash (xs @ ys) seed = adler_hash ys (adler_hash xs seed)"
proof -
  obtain a b where ab: "foldl adler_step (seed AND 0xffff, drop_bit 16 seed) xs = (a, b)"
    by (cases "foldl adler_step (seed AND 0xffff, drop_bit 16 seed) xs")
  have "a < 0x10000 \<and> b < 0x10000"
    using adler_fold_small [of "(seed AND 0xffff, drop_bit 16 seed)" xs] ab seed_halves by simp
  with ab show ?thesis
    by (simp add: adler_hash_def adler_unpack)
qed

section \<open>UTF-16 facts\<close>

lemma unat_u16 [simp]: "n < 0x10000 \<Longrightarrow> unat (word_of_nat n :: u16) = n"
  by (simp add: unat_of_nat)

lemma from_utf16_encode_char:
  "scalar_value c \<Longrightarrow> from_utf16 (encode_utf16_char c @ us) = map_option ((#) c) (from_utf16 us)"
proof (cases "c < 0x10000")
  case True
  assume "scalar_value c"
  with True show ?thesis by (auto simp: encode_utf16_char_def scalar_value_def)
next
  case False
  assume c: "scalar_value c"
  let ?d = "c - 0x10000"
  have d: "?d div 0x400 < 0x400" using c False by (auto simp: scalar_value_def)
  have u: "unat (word_of_nat (0xD800 + ?d div 0x400) :: u16) = 0xD800 + ?d div 0x400"
    using d by (intro unat_u16) simp
  have v: "unat (word_of_nat (0xDC00 + ?d mod 0x400) :: u16) = 0xDC00 + ?d mod 0x400"
    by (intro unat_u16) (rule less_le_trans [of _ "0xDC00 + 0x400"], simp_all)
  have "0x10000 + (?d div 0x400) * 0x400 + ?d mod 0x400 = c"
    using False by (metis add.assoc div_mult_mod_eq le_add_diff_inverse not_le)
  moreover have "?d mod 0x400 < 0x400" by simp
  ultimately show ?thesis
    using False u v d by (simp add: encode_utf16_char_def del: of_nat_add)
qed

lemma from_utf16_encode: "list_all scalar_value s \<Longrightarrow> from_utf16 (encode_utf16 s) = Some s"
  by (induction s) (simp_all add: encode_utf16_def from_utf16_encode_char)

lemma encode_char_bmp: "unat u < 0xD800 \<or> 0xE000 \<le> unat u \<Longrightarrow> encode_utf16_char (unat (u :: u16)) = [u]"
  using unsigned_less [of u, where ?'a = nat] by (simp add: encode_utf16_char_def)

lemma encode_char_pair:
  fixes u v :: u16
  assumes "0xD800 \<le> unat u" "unat u < 0xDC00" "0xDC00 \<le> unat v" "unat v < 0xE000"
  shows "encode_utf16_char (0x10000 + (unat u - 0xD800) * 0x400 + (unat v - 0xDC00)) = [u, v]"
proof -
  obtain i j where "unat u = 0xD800 + i" "unat v = 0xDC00 + j"
    using assms by (metis le_iff_add)
  then have "(0x10000 + (unat u - 0xD800) * 0x400 + (unat v - 0xDC00) - 0x10000) div 0x400 = unat u - 0xD800"
    "(0x10000 + (unat u - 0xD800) * 0x400 + (unat v - 0xDC00) - 0x10000) mod 0x400 = unat v - 0xDC00"
    using assms by auto
  with assms show ?thesis
    by (simp add: encode_utf16_char_def del: of_nat_add)
qed

text \<open>Decoding is canonical: it accepts only what encoding produces.\<close>

lemma from_utf16_SomeD:
  "from_utf16 us = Some s \<Longrightarrow> list_all scalar_value s \<and> encode_utf16 s = us"
proof (induction us arbitrary: s rule: from_utf16.induct)
  case 1
  then show ?case by (simp add: encode_utf16_def)
next
  case (2 u us)
  consider (bmp) "unat u < 0xD800 \<or> 0xE000 \<le> unat u"
    | (high) "0xD800 \<le> unat u" "unat u < 0xDC00"
    | (low) "0xDC00 \<le> unat u" "unat u < 0xE000" by linarith
  then show ?case
  proof cases
    case bmp
    with "2.prems" obtain t where t: "from_utf16 us = Some t" "s = unat u # t" by auto
    from bmp have "scalar_value (unat u)"
      using unsigned_less [of u, where ?'a = nat] by (auto simp: scalar_value_def)
    with "2.IH"(1) [OF bmp t(1)] t(2) bmp show ?thesis
      by (simp add: encode_utf16_def encode_char_bmp)
  next
    case high
    with "2.prems" obtain v vs t where v: "us = v # vs" "0xDC00 \<le> unat v" "unat v < 0xE000"
        and t: "from_utf16 vs = Some t"
        and s: "s = (0x10000 + (unat u - 0xD800) * 0x400 + (unat v - 0xDC00)) # t"
      by (auto split: list.splits if_splits)
    have "\<not> (unat u < 0xD800 \<or> 0xE000 \<le> unat u)" "\<not> 0xDC00 \<le> unat u" using high by auto
    from "2.IH"(2) [OF this v(1) _ t] v
    have "list_all scalar_value t \<and> encode_utf16 t = vs" by simp
    moreover have "scalar_value (0x10000 + (unat u - 0xD800) * 0x400 + (unat v - 0xDC00))"
      using high v by (simp add: scalar_value_def)
    ultimately show ?thesis
      using encode_char_pair [OF high v(2,3)] s v(1) by (simp add: encode_utf16_def)
  next
    case low
    with "2.prems" show ?thesis by simp
  qed
qed

end
