(* ===== verification/Packet.thy ===== *)
theory Packet
  imports Wire
begin

text \<open>
  \<open>p5136-core/src/packet.rs\<close>.  A \<open>PacketWriter\<close> is the byte list it has
  accumulated; each \<open>write_*\<close> appends.  A \<open>PacketReader\<close> is a record of the whole
  input and the offset of the next byte; each \<open>read_*\<close> returns a value and the
  advanced reader, or the error of the source.  Parsers compose with \<open>pbind\<close>, the
  \<open>?\<close> operator threaded through the reader.
\<close>

datatype packet_error =
    Truncated nat nat                     \<comment> \<open>offset, needed\<close>
  | NegativeStringLength int
  | StringTooLong
  | StringLengthOverflow
  | StringLimitExceeded nat nat           \<comment> \<open>length, maximum\<close>
  | InvalidUtf16

section \<open>Writer\<close>

type_synonym packet_writer = "u8 list"

definition writer_new :: packet_writer where
  "writer_new = []"

definition write_u8 :: "u8 \<Rightarrow> packet_writer \<Rightarrow> packet_writer" where
  "write_u8 v w = w @ [v]"

definition write_u16 :: "u16 \<Rightarrow> packet_writer \<Rightarrow> packet_writer" where
  "write_u16 v w = w @ le16 v"

definition write_i16 :: "int \<Rightarrow> packet_writer \<Rightarrow> packet_writer" where
  "write_i16 v w = w @ le16 (word_of_int v)"

definition write_u32 :: "u32 \<Rightarrow> packet_writer \<Rightarrow> packet_writer" where
  "write_u32 v w = w @ le32 v"

definition write_i32 :: "int \<Rightarrow> packet_writer \<Rightarrow> packet_writer" where
  "write_i32 v w = w @ le32 (word_of_int v)"

text \<open>An \<open>f32\<close> is carried as its bit pattern.\<close>

definition write_f32 :: "u32 \<Rightarrow> packet_writer \<Rightarrow> packet_writer" where
  "write_f32 bits w = w @ le32 bits"

definition write_encoded_u8 :: "u8 \<Rightarrow> packet_writer \<Rightarrow> packet_writer" where
  "write_encoded_u8 v w = write_u8 (encode_u8 v) w"

definition write_encoded_u16 :: "u16 \<Rightarrow> packet_writer \<Rightarrow> packet_writer" where
  "write_encoded_u16 v w = w @ encode_u16 v"

definition write_encoded_u32 :: "u32 \<Rightarrow> packet_writer \<Rightarrow> packet_writer" where
  "write_encoded_u32 v w = w @ encode_u32 v"

definition write_encoded_i32 :: "int \<Rightarrow> packet_writer \<Rightarrow> packet_writer" where
  "write_encoded_i32 v w = w @ encode_u32 (word_of_int v)"

definition write_encoded_f32 :: "u32 \<Rightarrow> packet_writer \<Rightarrow> packet_writer" where
  "write_encoded_f32 bits w = w @ encode_u32 bits"

definition write_bytes :: "u8 list \<Rightarrow> packet_writer \<Rightarrow> packet_writer" where
  "write_bytes bs w = w @ bs"

definition write_utf16 :: "ustring \<Rightarrow> packet_writer \<Rightarrow> packet_error + packet_writer" where
  "write_utf16 s w =
     (let units = encode_utf16 s
      in if length units < 2 ^ 31
         then Inr (write_bytes (concat (map le16 units)) (write_i32 (int (length units)) w))
         else Inl StringTooLong)"

definition writer_named :: "string \<Rightarrow> packet_writer" where
  "writer_named name = write_u32 (packet_hash name) writer_new"

lemmas write_defs =
  writer_new_def write_u8_def write_u16_def write_i16_def write_u32_def write_i32_def
  write_f32_def write_bytes_def write_encoded_u8_def write_encoded_u16_def
  write_encoded_u32_def write_encoded_i32_def write_encoded_f32_def

lemma length_encode_u16 [simp, wire_length]: "length (encode_u16 v) = 2"
  by (simp add: encode_u16_def)

lemma length_encode_u32 [simp, wire_length]: "length (encode_u32 v) = 4"
  by (simp add: encode_u32_def)

lemma length_write [simp, wire_length]:
  "length (write_u8 a w) = length w + 1"
  "length (write_u16 b w) = length w + 2"
  "length (write_i16 i w) = length w + 2"
  "length (write_u32 c w) = length w + 4"
  "length (write_i32 i w) = length w + 4"
  "length (write_f32 c w) = length w + 4"
  "length (write_encoded_u8 a w) = length w + 1"
  "length (write_encoded_u16 b w) = length w + 2"
  "length (write_encoded_u32 c w) = length w + 4"
  "length (write_encoded_i32 i w) = length w + 4"
  "length (write_encoded_f32 c w) = length w + 4"
  "length (write_bytes bs w) = length w + length bs"
  "length (writer_named name) = 4"
  by (simp_all add: write_defs writer_named_def)

lemma write_utf16_Inr_iff [result_iff]:
  "write_utf16 s w = Inr w' \<longleftrightarrow>
     length (encode_utf16 s) < 2 ^ 31 \<and>
     w' = w @ le32 (word_of_nat (length (encode_utf16 s))) @ utf16_le_bytes s"
  by (auto simp: write_utf16_def Let_def write_defs utf16_le_bytes_def)

section \<open>Reader\<close>

record packet_reader =
  pr_bytes :: "u8 list"
  pr_offset :: nat

type_synonym ('e, 'a) parser = "packet_reader \<Rightarrow> 'e + ('a \<times> packet_reader)"

definition reader_new :: "u8 list \<Rightarrow> packet_reader" where
  "reader_new bytes = \<lparr>pr_bytes = bytes, pr_offset = 0\<rparr>"

definition reader_remaining :: "packet_reader \<Rightarrow> u8 list" where
  "reader_remaining r = drop (pr_offset r) (pr_bytes r)"

definition preturn :: "'a \<Rightarrow> ('e, 'a) parser" where
  "preturn x r = Inr (x, r)"

definition pfail :: "'e \<Rightarrow> ('e, 'a) parser" where
  "pfail e r = Inl e"

definition pbind :: "('e, 'a) parser \<Rightarrow> ('a \<Rightarrow> ('e, 'b) parser) \<Rightarrow> ('e, 'b) parser" where
  "pbind p f r = (case p r of Inl e \<Rightarrow> Inl e | Inr (x, r') \<Rightarrow> f x r')"

definition perr :: "('e \<Rightarrow> 'f) \<Rightarrow> ('e, 'a) parser \<Rightarrow> ('f, 'a) parser" where
  "perr g p r = rmap_err g (p r)"

definition reader_take :: "nat \<Rightarrow> (packet_error, u8 list) parser" where
  "reader_take n r =
     (case checked_add_usize (pr_offset r) n of
        None \<Rightarrow> Inl (Truncated (pr_offset r) n)
      | Some end_ \<Rightarrow>
          if end_ \<le> length (pr_bytes r)
          then Inr (take n (drop (pr_offset r) (pr_bytes r)), r\<lparr>pr_offset := end_\<rparr>)
          else Inl (Truncated (pr_offset r) n))"

definition read_u8 :: "(packet_error, u8) parser" where
  "read_u8 = pbind (reader_take 1) (\<lambda>bs. preturn (bs ! 0))"

definition read_u16 :: "(packet_error, u16) parser" where
  "read_u16 = pbind (reader_take 2) (\<lambda>bs. preturn (from_le16 (bs ! 0) (bs ! 1)))"

definition read_i16 :: "(packet_error, int) parser" where
  "read_i16 = pbind (reader_take 2) (\<lambda>bs. preturn (sint (from_le16 (bs ! 0) (bs ! 1))))"

definition read_u32 :: "(packet_error, u32) parser" where
  "read_u32 = pbind (reader_take 4)
     (\<lambda>bs. preturn (from_le32 (bs ! 0) (bs ! 1) (bs ! 2) (bs ! 3)))"

definition read_i32 :: "(packet_error, int) parser" where
  "read_i32 = pbind (reader_take 4)
     (\<lambda>bs. preturn (sint (from_le32 (bs ! 0) (bs ! 1) (bs ! 2) (bs ! 3))))"

definition read_f32 :: "(packet_error, u32) parser" where
  "read_f32 = pbind (reader_take 4)
     (\<lambda>bs. preturn (from_le32 (bs ! 0) (bs ! 1) (bs ! 2) (bs ! 3)))"

definition read_encoded_u8 :: "(packet_error, u8) parser" where
  "read_encoded_u8 = pbind read_u8 (\<lambda>b. preturn (decode_u8 b))"

definition decode_u16 :: "u8 list \<Rightarrow> u16" where
  "decode_u16 bs = (let d = decode_array bs in from_le16 (d ! 0) (d ! 1))"

definition decode_u32 :: "u8 list \<Rightarrow> u32" where
  "decode_u32 bs = (let d = decode_array bs in from_le32 (d ! 0) (d ! 1) (d ! 2) (d ! 3))"

definition read_encoded_u16 :: "(packet_error, u16) parser" where
  "read_encoded_u16 = pbind (reader_take 2) (\<lambda>bs. preturn (decode_u16 bs))"

definition read_encoded_u32 :: "(packet_error, u32) parser" where
  "read_encoded_u32 = pbind (reader_take 4) (\<lambda>bs. preturn (decode_u32 bs))"

definition read_encoded_i32 :: "(packet_error, int) parser" where
  "read_encoded_i32 = pbind (reader_take 4) (\<lambda>bs. preturn (sint (decode_u32 bs)))"

definition read_encoded_f32 :: "(packet_error, u32) parser" where
  "read_encoded_f32 = pbind (reader_take 4) (\<lambda>bs. preturn (decode_u32 bs))"

text \<open>\<open>chunks_exact(2)\<close> mapped through \<open>u16::from_le_bytes\<close>.\<close>

fun le16_chunks :: "u8 list \<Rightarrow> u16 list" where
  "le16_chunks (b0 # b1 # bs) = from_le16 b0 b1 # le16_chunks bs"
| "le16_chunks _ = []"

definition read_utf16_bounded :: "nat \<Rightarrow> (packet_error, ustring) parser" where
  "read_utf16_bounded maximum = pbind read_i32 (\<lambda>signed_length.
     if signed_length < 0 then pfail (NegativeStringLength signed_length)
     else let len = nat signed_length in
       if len > maximum then pfail (StringLimitExceeded len maximum)
       else (case checked_mul_usize len 2 of
               None \<Rightarrow> pfail StringLengthOverflow
             | Some byte_length \<Rightarrow>
                 pbind (reader_take byte_length) (\<lambda>bs.
                   case from_utf16 (le16_chunks bs) of
                     None \<Rightarrow> pfail InvalidUtf16
                   | Some s \<Rightarrow> preturn s)))"

definition read_utf16 :: "(packet_error, ustring) parser" where
  "read_utf16 = read_utf16_bounded usize_max"

definition read_bytes :: "nat \<Rightarrow> (packet_error, u8 list) parser" where
  "read_bytes n = reader_take n"

section \<open>The reading contract\<close>

text \<open>
  \<open>reads p bs x\<close>: wherever the unread input starts with \<open>bs\<close>, \<open>p\<close> returns \<open>x\<close>
  and consumes exactly \<open>bs\<close>.  \<open>safe_parser p\<close>: a success of \<open>p\<close> leaves the input
  unchanged and advances the offset without passing the end.
\<close>

definition wf_reader :: "packet_reader \<Rightarrow> bool" where
  "wf_reader r \<longleftrightarrow> pr_offset r \<le> length (pr_bytes r) \<and> length (pr_bytes r) \<le> usize_max"

definition reads :: "('e, 'a) parser \<Rightarrow> u8 list \<Rightarrow> 'a \<Rightarrow> bool" where
  "reads p bs x \<longleftrightarrow>
     (\<forall>r rest. wf_reader r \<and> reader_remaining r = bs @ rest \<longrightarrow>
        p r = Inr (x, r\<lparr>pr_offset := pr_offset r + length bs\<rparr>))"

definition safe_parser :: "('e, 'a) parser \<Rightarrow> bool" where
  "safe_parser p \<longleftrightarrow>
     (\<forall>r x r'. wf_reader r \<and> p r = Inr (x, r') \<longrightarrow>
        pr_bytes r' = pr_bytes r \<and> pr_offset r \<le> pr_offset r' \<and> wf_reader r')"

lemma readsD: "reads p bs x \<Longrightarrow> wf_reader r \<Longrightarrow> reader_remaining r = bs @ rest \<Longrightarrow>
    p r = Inr (x, r\<lparr>pr_offset := pr_offset r + length bs\<rparr>)"
  by (auto simp: reads_def)

lemma wf_reader_new: "length bs \<le> usize_max \<Longrightarrow> wf_reader (reader_new bs)"
  by (simp add: wf_reader_def reader_new_def)

lemma remaining_advance:
  "reader_remaining r = bs @ rest \<Longrightarrow>
     reader_remaining (r\<lparr>pr_offset := pr_offset r + length bs\<rparr>) = rest"
  by (simp add: reader_remaining_def)
    (metis add.commute append_eq_conv_conj drop_drop)

lemma wf_advance:
  assumes "wf_reader r" "reader_remaining r = bs @ rest"
  shows "wf_reader (r\<lparr>pr_offset := pr_offset r + length bs\<rparr>)"
proof -
  from assms(2) have "length bs \<le> length (reader_remaining r)" by simp
  with assms(1) show ?thesis by (auto simp: wf_reader_def reader_remaining_def)
qed

lemma reads_preturn [intro, wire_read]: "reads (preturn x) [] x"
  by (simp add: reads_def preturn_def)

lemma reads_pbind [wire_read]:
  assumes "reads p bs x" "reads (f x) cs y"
  shows "reads (pbind p f) (bs @ cs) y"
  unfolding reads_def
proof (intro allI impI)
  fix r rest
  assume r: "wf_reader r \<and> reader_remaining r = (bs @ cs) @ rest"
  let ?r' = "r\<lparr>pr_offset := pr_offset r + length bs\<rparr>"
  have rem: "reader_remaining r = bs @ (cs @ rest)" using r by simp
  from readsD [OF assms(1) _ rem] r have 1: "p r = Inr (x, ?r')" by simp
  from readsD [OF assms(2) wf_advance [OF _ rem] remaining_advance [OF rem]] r
  have 2: "f x ?r' = Inr (y, ?r'\<lparr>pr_offset := pr_offset ?r' + length cs\<rparr>)" by simp
  from 1 2 show "pbind p f r = Inr (y, r\<lparr>pr_offset := pr_offset r + length (bs @ cs)\<rparr>)"
    by (simp add: pbind_def add.assoc)
qed

lemma reads_pbind_preturn:
  "reads p bs x \<Longrightarrow> f x = y \<Longrightarrow> reads (pbind p (\<lambda>x. preturn (f x))) bs y"
  using reads_pbind [of p bs x "\<lambda>x. preturn (f x)" "[]" y] by (simp add: reads_preturn)

lemma reads_perr: "reads p bs x \<Longrightarrow> reads (perr g p) bs x"
  by (auto simp: reads_def perr_def)

lemma reads_take [wire_read]: "length bs = n \<Longrightarrow> reads (reader_take n) bs bs"
  unfolding reads_def
proof (intro allI impI)
  fix r rest
  assume n: "length bs = n" and r: "wf_reader r \<and> reader_remaining r = bs @ rest"
  from r have "length bs + length rest = length (pr_bytes r) - pr_offset r"
    by (metis length_append length_drop reader_remaining_def)
  with r have "pr_offset r + length bs \<le> length (pr_bytes r)" "length (pr_bytes r) \<le> usize_max"
    by (auto simp: wf_reader_def)
  with n r show "reader_take n r = Inr (bs, r\<lparr>pr_offset := pr_offset r + length bs\<rparr>)"
    by (simp add: reader_take_def checked_add_usize_def reader_remaining_def)
qed

lemma safe_preturn [intro]: "safe_parser (preturn x)"
  by (simp add: safe_parser_def preturn_def)

lemma safe_pfail [intro]: "safe_parser (pfail e)"
  by (simp add: safe_parser_def pfail_def)

lemma safe_pbind [intro]:
  assumes "safe_parser p" "\<And>x. safe_parser (f x)"
  shows "safe_parser (pbind p f)"
  unfolding safe_parser_def
proof (intro allI impI)
  fix r y r'
  assume a: "wf_reader r \<and> pbind p f r = Inr (y, r')"
  then obtain x r1 where 1: "p r = Inr (x, r1)" and 2: "f x r1 = Inr (y, r')"
    by (auto simp: pbind_def split: sum.splits)
  from a 1 assms(1) have "pr_bytes r1 = pr_bytes r \<and> pr_offset r \<le> pr_offset r1 \<and> wf_reader r1"
    unfolding safe_parser_def by blast
  moreover from this 2 assms(2) [of x]
  have "pr_bytes r' = pr_bytes r1 \<and> pr_offset r1 \<le> pr_offset r' \<and> wf_reader r'"
    unfolding safe_parser_def by blast
  ultimately show "pr_bytes r' = pr_bytes r \<and> pr_offset r \<le> pr_offset r' \<and> wf_reader r'"
    by auto
qed

lemma safe_perr [intro]: "safe_parser p \<Longrightarrow> safe_parser (perr g p)"
  unfolding safe_parser_def perr_def by (auto simp: result_iff)

lemma safe_take [intro]: "safe_parser (reader_take n)"
  by (auto simp: safe_parser_def reader_take_def checked_add_usize_def wf_reader_def
      split: if_splits)

lemma safe_if [intro]: "safe_parser p \<Longrightarrow> safe_parser q \<Longrightarrow> safe_parser (if b then p else q)"
  by simp

lemma safe_case_option [intro]:
  "safe_parser p \<Longrightarrow> (\<And>x. safe_parser (q x)) \<Longrightarrow> safe_parser (case m of None \<Rightarrow> p | Some x \<Rightarrow> q x)"
  by (cases m) simp_all

lemma safe_scalars [intro]:
  "safe_parser read_u8" "safe_parser read_u16" "safe_parser read_i16" "safe_parser read_u32"
  "safe_parser read_i32" "safe_parser read_f32" "safe_parser read_encoded_u8"
  "safe_parser read_encoded_u16" "safe_parser read_encoded_u32" "safe_parser read_encoded_i32"
  "safe_parser read_encoded_f32" "safe_parser (read_bytes n)"
  unfolding read_u8_def read_u16_def read_i16_def read_u32_def read_i32_def read_f32_def
    read_encoded_u8_def read_encoded_u16_def read_encoded_u32_def read_encoded_i32_def
    read_encoded_f32_def read_bytes_def
  by (intro safe_pbind safe_take safe_preturn)+

lemma safe_read_utf16 [intro]: "safe_parser (read_utf16_bounded m)"
  unfolding read_utf16_bounded_def Let_def
  by (intro safe_pbind safe_scalars safe_if safe_pfail safe_case_option safe_take safe_preturn)

section \<open>Codecs\<close>

text \<open>
  The interface between the packet layer and the protocol codecs: a byte encoding
  and the parser that undoes it on the values it is defined for.
\<close>

locale wire_codec =
  fixes put :: "'a \<Rightarrow> u8 list"
    and get :: "(packet_error, 'a) parser"
    and ok :: "'a \<Rightarrow> bool"
  assumes get_put: "ok x \<Longrightarrow> reads get (put x) x"
    and get_safe: "safe_parser get"
begin

lemma get_then: "ok x \<Longrightarrow> reads (f x) bs y \<Longrightarrow> reads (pbind get f) (put x @ bs) y"
  by (rule reads_pbind [OF get_put])

lemma get_whole_input:
  assumes "ok x" "length (put x) \<le> usize_max"
  shows "get (reader_new (put x)) = Inr (x, \<lparr>pr_bytes = put x, pr_offset = length (put x)\<rparr>)"
  using readsD [OF get_put [OF assms(1)] wf_reader_new [OF assms(2)], of "[]"]
  by (simp add: reader_new_def reader_remaining_def)

lemma put_injective: "ok x \<Longrightarrow> ok y \<Longrightarrow> length (put x) \<le> usize_max \<Longrightarrow> put x = put y \<Longrightarrow> x = y"
  by (metis get_whole_input Inr_inject prod.inject)

end

lemma sint_word_of_int_16:
  "- (2 ^ 15) \<le> i \<Longrightarrow> i < 2 ^ 15 \<Longrightarrow> sint (word_of_int i :: u16) = i"
  by (simp add: signed_of_int signed_take_bit_int_eq_self)

lemma sint_word_of_int_32:
  "- (2 ^ 31) \<le> i \<Longrightarrow> i < 2 ^ 31 \<Longrightarrow> sint (word_of_int i :: u32) = i"
  by (simp add: signed_of_int signed_take_bit_int_eq_self)

definition i16_range :: "int \<Rightarrow> bool" where
  "i16_range i \<longleftrightarrow> - (2 ^ 15) \<le> i \<and> i < 2 ^ 15"

definition i32_range :: "int \<Rightarrow> bool" where
  "i32_range i \<longleftrightarrow> - (2 ^ 31) \<le> i \<and> i < 2 ^ 31"

lemma le_nth:
  "le16 w ! 0 = ucast w" "le16 w ! Suc 0 = ucast (drop_bit 8 w)"
  "le32 v ! 0 = ucast v" "le32 v ! Suc 0 = ucast (drop_bit 8 v)"
  "le32 v ! 2 = ucast (drop_bit 16 v)" "le32 v ! 3 = ucast (drop_bit 24 v)"
  by (simp_all add: le16_def le32_def)

interpretation c_u8: wire_codec "\<lambda>v. [v]" read_u8 "\<lambda>_. True"
  by unfold_locales
    (auto simp: read_u8_def intro!: reads_pbind_preturn [OF reads_take] safe_scalars [unfolded read_u8_def])

interpretation c_u16: wire_codec le16 read_u16 "\<lambda>_. True"
  by unfold_locales
    (auto simp: read_u16_def le_nth intro!: reads_pbind_preturn [OF reads_take] safe_scalars [unfolded read_u16_def])

interpretation c_u32: wire_codec le32 read_u32 "\<lambda>_. True"
  by unfold_locales
    (auto simp: read_u32_def le_nth intro!: reads_pbind_preturn [OF reads_take] safe_scalars [unfolded read_u32_def])

interpretation c_f32: wire_codec le32 read_f32 "\<lambda>_. True"
  by unfold_locales
    (auto simp: read_f32_def le_nth intro!: reads_pbind_preturn [OF reads_take] safe_scalars [unfolded read_f32_def])

interpretation c_i16: wire_codec "\<lambda>i. le16 (word_of_int i)" read_i16 i16_range
  by unfold_locales
    (auto simp: read_i16_def le_nth i16_range_def sint_word_of_int_16
      intro!: reads_pbind_preturn [OF reads_take] safe_scalars [unfolded read_i16_def])

interpretation c_i32: wire_codec "\<lambda>i. le32 (word_of_int i)" read_i32 i32_range
  by unfold_locales
    (auto simp: read_i32_def le_nth i32_range_def sint_word_of_int_32
      intro!: reads_pbind_preturn [OF reads_take] safe_scalars [unfolded read_i32_def])

section \<open>Strings and encoded scalars\<close>

lemma le16_chunks_concat: "le16_chunks (concat (map le16 us)) = us"
  by (induction us) (simp_all add: le16_def)

lemma length_concat_le16: "length (concat (map le16 us)) = 2 * length us"
  by (induction us) simp_all

definition utf16_field :: "ustring \<Rightarrow> u8 list" where
  "utf16_field s = le32 (word_of_int (int (length (encode_utf16 s)))) @ utf16_le_bytes s"

definition utf16_ok :: "nat \<Rightarrow> ustring \<Rightarrow> bool" where
  "utf16_ok maximum s \<longleftrightarrow>
     list_all scalar_value s \<and> length (encode_utf16 s) \<le> maximum \<and> length (encode_utf16 s) < 2 ^ 31"

lemma reads_utf16:
  assumes "utf16_ok maximum s"
  shows "reads (read_utf16_bounded maximum) (utf16_field s) s"
proof -
  let ?n = "length (encode_utf16 s)"
  from assms have n: "?n \<le> maximum" "?n < 2 ^ 31" "from_utf16 (encode_utf16 s) = Some s"
    by (auto simp: utf16_ok_def from_utf16_encode)
  have i: "i32_range (int ?n)" using n(2) by (simp add: i32_range_def)
  have body: "reads (reader_take (2 * ?n)) (utf16_le_bytes s) (utf16_le_bytes s)"
    by (rule reads_take) (simp add: utf16_le_bytes_def length_concat_le16)
  have tail: "reads (pbind (reader_take (2 * ?n))
      (\<lambda>bs. case from_utf16 (le16_chunks bs) of None \<Rightarrow> pfail InvalidUtf16 | Some s \<Rightarrow> preturn s))
      (utf16_le_bytes s @ []) s"
    by (rule reads_pbind [OF body])
      (simp add: utf16_le_bytes_def le16_chunks_concat n(3) reads_preturn)
  have "checked_mul_usize ?n 2 = Some (2 * ?n)"
    using n(2) by (simp add: checked_mul_usize_def usize_max_def)
  with n tail show ?thesis
    unfolding read_utf16_bounded_def utf16_field_def
    by (intro c_i32.get_then [OF i]) simp
qed

interpretation c_utf16: wire_codec utf16_field "read_utf16_bounded maximum" "utf16_ok maximum"
  by unfold_locales (auto intro: reads_utf16)

lemma write_utf16_field: "write_utf16 s w = Inr w' \<Longrightarrow> w' = w @ utf16_field s"
  by (auto simp: result_iff utf16_field_def)

text \<open>The values an encoded scalar survives: no byte reaches 255 with its position added.\<close>

definition scalar_encodable :: "u8 list \<Rightarrow> bool" where
  "scalar_encodable bs \<longleftrightarrow> (\<forall>i<length bs. i + unat (bs ! i) < 255)"

lemma decode_encode_u32: "scalar_encodable (le32 v) \<Longrightarrow> decode_u32 (encode_u32 v) = v"
proof -
  assume "scalar_encodable (le32 v)"
  then have "decode_array (encode_array (le32 v)) = le32 v"
    by (subst decode_encode_array_iff) (simp_all add: scalar_encodable_def)
  then show ?thesis by (simp add: decode_u32_def encode_u32_def Let_def le_nth)
qed

lemma decode_encode_u16: "scalar_encodable (le16 v) \<Longrightarrow> decode_u16 (encode_u16 v) = v"
proof -
  assume "scalar_encodable (le16 v)"
  then have "decode_array (encode_array (le16 v)) = le16 v"
    by (subst decode_encode_array_iff) (simp_all add: scalar_encodable_def)
  then show ?thesis by (simp add: decode_u16_def encode_u16_def Let_def le_nth)
qed

lemma decode_encode_u8: "v \<noteq> 255 \<Longrightarrow> decode_u8 (encode_u8 v) = v"
proof -
  assume "v \<noteq> 255"
  then have "unat v \<noteq> unat (255 :: u8)" by (simp only: word_unat_eq_iff [symmetric] not_False_eq_True)
  then have "unat v \<noteq> 255" by simp
  with unat_byte_less [of v] have "unat v < 255" by linarith
  then show ?thesis using decode_encode_byte [of 0 v] by (simp add: decode_u8_def encode_u8_def)
qed

interpretation c_enc_u32: wire_codec encode_u32 read_encoded_u32 "\<lambda>v. scalar_encodable (le32 v)"
  by unfold_locales
    (auto simp: read_encoded_u32_def decode_encode_u32
      intro!: reads_pbind_preturn [OF reads_take] safe_scalars [unfolded read_encoded_u32_def])

interpretation c_enc_u16: wire_codec encode_u16 read_encoded_u16 "\<lambda>v. scalar_encodable (le16 v)"
  by unfold_locales
    (auto simp: read_encoded_u16_def decode_encode_u16
      intro!: reads_pbind_preturn [OF reads_take] safe_scalars [unfolded read_encoded_u16_def])

interpretation c_enc_u8: wire_codec "\<lambda>v. [encode_u8 v]" read_encoded_u8 "\<lambda>v. v \<noteq> 255"
proof
  show "reads read_encoded_u8 [encode_u8 x] x" if "x \<noteq> 255" for x
    unfolding read_encoded_u8_def
    by (rule reads_pbind_preturn [OF c_u8.get_put]) (simp_all add: decode_encode_u8 that)
  show "safe_parser read_encoded_u8" by (rule safe_scalars)
qed

end
