(* ===== verification/Nickname.thy ===== *)
theory Nickname
  imports Packet
begin

text \<open>
  \<open>p5136-core/src/nickname.rs\<close>: validation of nicknames, which become profile
  directory names, and the case-insensitive key of an identity.  Unicode
  normalization and case folding come from the crates \<open>unicode_normalization\<close> and
  \<open>unicode_casefold\<close>; they are the fields of \<open>unicode_tables\<close>, a parameter of every
  definition that uses them.
\<close>

record unicode_tables =
  nfc :: "ustring \<Rightarrow> ustring"
  case_fold :: "ustring \<Rightarrow> ustring"

definition maximum_nickname_length :: nat where "maximum_nickname_length = 32"

definition reserved_windows_names :: "ustring list" where
  "reserved_windows_names = map ustr
     [''CON'', ''PRN'', ''AUX'', ''NUL'', ''COM1'', ''COM2'', ''COM3'', ''COM4'', ''COM5'',
      ''COM6'', ''COM7'', ''COM8'', ''COM9'', ''LPT1'', ''LPT2'', ''LPT3'', ''LPT4'', ''LPT5'',
      ''LPT6'', ''LPT7'', ''LPT8'', ''LPT9'']"

datatype nickname_error =
    NicknameEmpty
  | NicknameLong nat
  | UnsafePathComponent
  | InvalidCharacter nat
  | ReservedWindowsName ustring

text \<open>
  The standard library's \<open>char::is_whitespace\<close> (the Unicode property White_Space),
  \<open>char::is_control\<close> (general category Cc) and \<open>eq_ignore_ascii_case\<close>.
\<close>

definition is_whitespace :: "nat \<Rightarrow> bool" where
  "is_whitespace c \<longleftrightarrow>
     9 \<le> c \<and> c \<le> 13 \<or> c \<in> {32, 133, 160, 5760, 8232, 8233, 8239, 8287, 12288} \<or>
     8192 \<le> c \<and> c \<le> 8202"

definition is_control :: "nat \<Rightarrow> bool" where
  "is_control c \<longleftrightarrow> c < 32 \<or> 127 \<le> c \<and> c < 160"

definition to_ascii_lower :: "nat \<Rightarrow> nat" where
  "to_ascii_lower c = (if 65 \<le> c \<and> c \<le> 90 then c + 32 else c)"

definition eq_ignore_ascii_case :: "ustring \<Rightarrow> ustring \<Rightarrow> bool" where
  "eq_ignore_ascii_case s t \<longleftrightarrow> map to_ascii_lower s = map to_ascii_lower t"

definition trim :: "ustring \<Rightarrow> ustring" where
  "trim s = rev (dropWhile is_whitespace (rev (dropWhile is_whitespace s)))"

definition ends_with :: "ustring \<Rightarrow> nat \<Rightarrow> bool" where
  "ends_with s c \<longleftrightarrow> s \<noteq> [] \<and> last s = c"

definition invalid_windows_punctuation :: "nat \<Rightarrow> bool" where
  "invalid_windows_punctuation c \<longleftrightarrow> c \<in> set (ustr ''<>:/|?*'') \<or> c = 34 \<or> c = 92"

fun check_characters :: "ustring \<Rightarrow> nickname_error + unit" where
  "check_characters [] = Inr ()"
| "check_characters (c # cs) =
     (if is_control c \<or> invalid_windows_punctuation c then Inl (InvalidCharacter c)
      else check_characters cs)"

definition base_name :: "ustring \<Rightarrow> ustring" where
  "base_name s = takeWhile (\<lambda>c. c \<noteq> 46) s"

definition normalize_nickname :: "unicode_tables \<Rightarrow> ustring \<Rightarrow> nickname_error + ustring" where
  "normalize_nickname u value =
     (let name = nfc u (trim value) in
      if name = [] then Inl NicknameEmpty
      else if length (encode_utf16 name) > maximum_nickname_length
        then Inl (NicknameLong maximum_nickname_length)
      else if name = ustr ''.'' \<or> name = ustr ''..'' \<or> ends_with name 46 \<or> ends_with name 32
        then Inl UnsafePathComponent
      else rbind (check_characters name) (\<lambda>_.
        if list_ex (eq_ignore_ascii_case (base_name name)) reserved_windows_names
        then Inl (ReservedWindowsName (base_name name))
        else Inr name))"

definition canonical_nickname_key :: "unicode_tables \<Rightarrow> ustring \<Rightarrow> ustring" where
  "canonical_nickname_key u s = nfc u (case_fold u (nfc u s))"

section \<open>Facts\<close>

lemma check_characters_Inr_iff [result_iff]:
  "check_characters s = Inr x \<longleftrightarrow> (\<forall>c\<in>set s. \<not> is_control c \<and> \<not> invalid_windows_punctuation c)"
  by (induction s) auto

text \<open>What acceptance guarantees to the profile store.\<close>

definition safe_path_component :: "ustring \<Rightarrow> bool" where
  "safe_path_component s \<longleftrightarrow>
     s \<noteq> [] \<and> s \<noteq> ustr ''.'' \<and> s \<noteq> ustr ''..'' \<and> last s \<noteq> 46 \<and> last s \<noteq> 32 \<and>
     47 \<notin> set s \<and> 92 \<notin> set s \<and> 58 \<notin> set s \<and> (\<forall>c\<in>set s. 32 \<le> c) \<and>
     base_name s \<notin> set reserved_windows_names"

lemma normalize_nickname_safe:
  assumes "normalize_nickname u value = Inr name"
  shows "safe_path_component name" "length (encode_utf16 name) \<le> maximum_nickname_length"
proof -
  from assms have name: "name \<noteq> []" "name \<noteq> ustr ''.''" "name \<noteq> ustr ''..''"
      "\<not> ends_with name 46" "\<not> ends_with name 32"
      "length (encode_utf16 name) \<le> maximum_nickname_length"
      "\<forall>c\<in>set name. \<not> is_control c \<and> \<not> invalid_windows_punctuation c"
      "\<not> list_ex (eq_ignore_ascii_case (base_name name)) reserved_windows_names"
    by (auto simp: normalize_nickname_def Let_def result_iff split: if_splits)
  have bad: "invalid_windows_punctuation 47" "invalid_windows_punctuation 92" "invalid_windows_punctuation 58"
    by (simp_all add: invalid_windows_punctuation_def ustr_def)
  have "base_name name \<notin> set reserved_windows_names"
    using name(8) by (auto simp: list_ex_iff eq_ignore_ascii_case_def)
  moreover have "\<forall>c\<in>set name. 32 \<le> c" using name(7) by (auto simp: is_control_def)
  ultimately show "safe_path_component name"
    using name bad by (auto simp: safe_path_component_def ends_with_def)
  show "length (encode_utf16 name) \<le> maximum_nickname_length" by (rule name(6))
qed

text \<open>
  Documented laws of the normalization form C used below: it is idempotent and does
  not move white space in or out of the ends of a string.
\<close>

definition nfc_laws :: "unicode_tables \<Rightarrow> bool" where
  "nfc_laws u \<longleftrightarrow> (\<forall>s. nfc u (nfc u s) = nfc u s) \<and> (\<forall>s. trim (nfc u s) = nfc u (trim s))"

lemma dropWhile_idem: "dropWhile P (dropWhile P xs) = dropWhile P xs"
  by (induction xs) auto

lemma dropWhile_rev_dropWhile:
  "dropWhile P (rev (dropWhile P (rev (dropWhile P xs)))) = rev (dropWhile P (rev (dropWhile P xs)))"
proof (cases "dropWhile P xs")
  case Nil
  show ?thesis by (simp only: Nil rev.simps dropWhile.simps)
next
  case (Cons y ys)
  then have y: "\<not> P y" by (metis hd_dropWhile list.discI list.sel(1))
  have "dropWhile P (rev ys @ [y]) = dropWhile P (rev ys) @ [y]"
    using y by (induction "rev ys" arbitrary: ys rule: list.induct) (auto simp: dropWhile_append)
  then show ?thesis using Cons y by simp
qed

lemma trim_idem: "trim (trim s) = trim s"
  by (simp add: trim_def dropWhile_rev_dropWhile dropWhile_idem)

lemma normalize_nickname_idem:
  assumes "nfc_laws u" "normalize_nickname u value = Inr name"
  shows "normalize_nickname u name = Inr name"
proof -
  have name: "name = nfc u (trim value)"
    using assms(2) by (auto simp: normalize_nickname_def Let_def result_iff split: if_splits)
  have "nfc u (trim name) = nfc u (trim value)"
    using assms(1) unfolding nfc_laws_def name by (metis trim_idem)
  with assms(2) show ?thesis by (simp add: normalize_nickname_def)
qed

end
