(* ===== verification/Identity.thy ===== *)
theory Identity
  imports Nickname
begin

text \<open>
  \<open>p5136-server/src/identity.rs\<close>: ownership of identities by sessions, generation
  fencing, operation leases and channel migration.

  The registry is owned by the world actor, so an operation of the registry is one
  atomic step that returns its result and the new registry.  The reference-counted
  operation gates live in the list \<open>gates\<close>; an \<open>Arc\<close> to a gate is its index and
  \<open>Arc::ptr_eq\<close> is equality of indices.  A lease may be retained or dropped by any
  task at any time: those are the steps of their own at the end of the theory.  Each
  compare-and-swap loop of a gate is one atomic update.  An \<open>expect\<close>, an \<open>assert!\<close>
  and a failing index are the error \<open>IPanic\<close>.  An \<open>Instant\<close> is a number of
  nanoseconds below the range of the platform's \<open>i64\<close> seconds.
\<close>

type_synonym session_id = u64
type_synonym instant = nat
type_synonym gate_ref = nat

definition instant_limit :: nat where "instant_limit = 2 ^ 63 * 1000000000"
definition migration_ttl :: nat where "migration_ttl = 15 * 1000000000"

definition instant_checked_add :: "instant \<Rightarrow> nat \<Rightarrow> instant option" where
  "instant_checked_add now d = (if now + d < instant_limit then Some (now + d) else None)"

definition checked_succ :: "'a::len word \<Rightarrow> 'a word option" where
  "checked_succ v = (if v = - 1 then None else Some (v + 1))"

datatype ip_addr = V4 "u8 list" | V6 "u16 list"

record channel_binding =
  cb_channel_id :: u16
  cb_game_type :: u8

record identity_binding =
  ib_nickname :: ustring
  ib_user_no :: u32
  ib_generation :: u64
  ib_owner :: session_id
  ib_source_ip :: ip_addr
  ib_channel :: "channel_binding option"

record migration_permit =
  mp_user_no :: u32
  mp_source_generation :: u64
  mp_source_session :: session_id
  mp_source_ip :: ip_addr
  mp_channel :: channel_binding
  mp_token :: u16
  mp_expires_at :: instant

record released_identity =
  ri_nickname :: ustring
  ri_user_no :: u32
  ri_generation :: u64
  ri_source_ip :: ip_addr
  ri_channel :: "channel_binding option"

datatype identity_error =
    EmptyNickname
  | InvalidNickname nickname_error
  | SessionAlreadyAuthenticated session_id ustring
  | DuplicateIdentity ustring
  | UnauthenticatedSession session_id
  | StaleSession session_id
  | UnknownUserNo u32
  | NoMigrationPermit ustring
  | MigrationExpired
  | ChannelMismatch u16 u16
  | TokenMismatch
  | SourceIpMismatch ip_addr ip_addr
  | StaleMigrationGeneration
  | StaleMigrationPreflight
  | TransferInProgress ustring
  | OperationAdmissionClosed
  | OperationGenerationRetired
  | OperationCountExhausted
  | MigrationOperationsActive
  | UdpIngressPredatesGeneration
  | IdentityOwnerUnavailable u32
  | UserNoExhausted
  | GenerationExhausted
  | SessionIndexCapacityUnavailable
  | MigrationTransferIdExhausted
  | MigrationDeadlineOverflow
  | IPanic string

section \<open>Endpoints\<close>

text \<open>\<open>Ipv6Addr::to_ipv4_mapped\<close>: \<open>::ffff:a.b.c.d\<close>.\<close>

definition to_ipv4_mapped :: "u16 list \<Rightarrow> u8 list option" where
  "to_ipv4_mapped segments = (case segments of
       [a, b, c, d, e, f, g, h] \<Rightarrow>
         if a = 0 \<and> b = 0 \<and> c = 0 \<and> d = 0 \<and> e = 0 \<and> f = 0xffff
         then Some [ucast (drop_bit 8 g), ucast g, ucast (drop_bit 8 h), ucast h]
         else None
     | _ \<Rightarrow> None)"

definition legacy_p2p_endpoint :: "ip_addr \<Rightarrow> u16 \<Rightarrow> u8 list \<times> u16" where
  "legacy_p2p_endpoint source_ip reported_port = (case source_ip of
       V4 address \<Rightarrow> (address, reported_port)
     | V6 address \<Rightarrow> (case to_ipv4_mapped address of
           None \<Rightarrow> ([0, 0, 0, 0], 0)
         | Some mapped \<Rightarrow> (mapped, reported_port)))"

section \<open>Operation gates\<close>

record operation_gate =
  og_activated_udp_epoch :: u64
  og_active_operations :: nat
  og_state :: u64

definition gate_open :: u64 where "gate_open = 0"
definition gate_retired :: u64 where "gate_retired = - 1"

definition gate_shared :: "u64 \<Rightarrow> operation_gate" where
  "gate_shared epoch =
     \<lparr>og_activated_udp_epoch = epoch, og_active_operations = 0, og_state = gate_open\<rparr>"

definition gate_increment :: "operation_gate \<Rightarrow> identity_error + operation_gate" where
  "gate_increment g = (case checked_add_usize (og_active_operations g) 1 of
       None \<Rightarrow> Inl OperationCountExhausted
     | Some n \<Rightarrow> Inr (g\<lparr>og_active_operations := n\<rparr>))"

definition gate_release :: "operation_gate \<Rightarrow> operation_gate" where
  "gate_release g =
     (if og_active_operations g \<noteq> 0
      then g\<lparr>og_active_operations := og_active_operations g - 1\<rparr> else g)"

definition gate_admission_error :: "u64 \<Rightarrow> identity_error option" where
  "gate_admission_error state =
     (if state = gate_open then None
      else if state = gate_retired then Some OperationGenerationRetired
      else Some OperationAdmissionClosed)"

definition gate_try_admit :: "operation_gate \<Rightarrow> (identity_error + unit) \<times> operation_gate" where
  "gate_try_admit g = (case gate_admission_error (og_state g) of
       Some e \<Rightarrow> (Inl e, g)
     | None \<Rightarrow> (case gate_increment g of
           Inl e \<Rightarrow> (Inl e, g)
         | Inr g' \<Rightarrow> (case gate_admission_error (og_state g') of
               Some e \<Rightarrow> (Inl e, gate_release g')
             | None \<Rightarrow> (Inr (), g'))))"

definition gate_try_retain :: "operation_gate \<Rightarrow> (identity_error + unit) \<times> operation_gate" where
  "gate_try_retain g =
     (if og_state g = gate_retired then (Inl OperationGenerationRetired, g)
      else (case gate_increment g of
           Inl e \<Rightarrow> (Inl e, g)
         | Inr g' \<Rightarrow>
             if og_state g' = gate_retired then (Inl OperationGenerationRetired, gate_release g')
             else (Inr (), g')))"

definition gate_freeze :: "u64 \<Rightarrow> operation_gate \<Rightarrow> bool \<times> operation_gate" where
  "gate_freeze transfer_id g =
     (if og_state g = gate_open then (True, g\<lparr>og_state := transfer_id\<rparr>) else (False, g))"

definition gate_reopen_exact :: "u64 \<Rightarrow> operation_gate \<Rightarrow> bool \<times> operation_gate" where
  "gate_reopen_exact transfer_id g =
     (if og_state g = transfer_id then (True, g\<lparr>og_state := gate_open\<rparr>) else (False, g))"

definition gate_is_frozen_by :: "u64 \<Rightarrow> operation_gate \<Rightarrow> bool" where
  "gate_is_frozen_by transfer_id g \<longleftrightarrow> og_state g = transfer_id"

definition gate_is_drained :: "operation_gate \<Rightarrow> bool" where
  "gate_is_drained g \<longleftrightarrow> og_active_operations g = 0"

definition gate_retire_exact :: "u64 \<Rightarrow> operation_gate \<Rightarrow> bool \<times> operation_gate" where
  "gate_retire_exact transfer_id g =
     (if \<not> gate_is_drained g then (False, g)
      else if og_state g = transfer_id then (True, g\<lparr>og_state := gate_retired\<rparr>)
      else (False, g))"

definition gate_retire_drained :: "operation_gate \<Rightarrow> bool \<times> operation_gate" where
  "gate_retire_drained g =
     (if \<not> gate_is_drained g then (False, g)
      else let g' = g\<lparr>og_state := gate_retired\<rparr> in (gate_is_drained g', g'))"

definition gate_drained_while_frozen :: "u64 \<Rightarrow> operation_gate \<Rightarrow> identity_error + bool" where
  "gate_drained_while_frozen transfer_id g =
     (if \<not> gate_is_frozen_by transfer_id g then Inl StaleMigrationPreflight
      else Inr (gate_is_drained g))"

section \<open>Registry state\<close>

record known_identity =
  ki_nickname :: ustring
  ki_user_no :: u32

record active_identity =
  ai_known :: known_identity
  ai_generation :: u64
  ai_owner :: "session_id option"
  ai_owner_ip :: ip_addr
  ai_channel :: "channel_binding option"
  ai_permit :: "migration_permit option"
  ai_transfer :: "u64 option"
  ai_gate :: gate_ref

record deferred_release =
  dr_canonical_nickname :: ustring
  dr_identity :: released_identity
  dr_gate :: gate_ref

record identity_registry =
  known_by_name :: "(ustring \<times> known_identity) list"
  name_by_user_no :: "(u32 \<times> ustring) list"
  active_by_name :: "(ustring \<times> active_identity) list"
  session_bindings :: "(session_id \<times> identity_binding) list"
  deferred_releases :: "deferred_release list"
  next_user_no :: u32
  next_generation :: u64
  next_transfer_id :: u64
  gates :: "operation_gate list"

type_synonym 'a registry_op = "identity_registry \<Rightarrow> (identity_error + 'a) \<times> identity_registry"

record operation_lease =
  ol_gate :: gate_ref
  ol_binding :: identity_binding

datatype migration_source_state = Connected session_id | Disconnected

record migration_preflight =
  pf_transfer_id :: u64
  pf_destination_session :: session_id
  pf_destination_ip :: ip_addr
  pf_user_no :: u32
  pf_channel_id :: u16
  pf_channel :: channel_binding
  pf_token :: u16
  pf_source_generation :: u64
  pf_source_state :: migration_source_state
  pf_source_session :: session_id
  pf_expires_at :: instant
  pf_nickname :: ustring
  pf_canonical_nickname :: ustring
  pf_gate :: gate_ref

record migration_completion =
  mc_binding :: identity_binding
  mc_previous_binding :: identity_binding
  mc_previous_identity :: released_identity
  mc_previous_owner :: "session_id option"

record migration_candidate =
  cand_canonical_nickname :: ustring
  cand_gate :: gate_ref
  cand_next_gate :: gate_ref
  cand_completion :: migration_completion

record identity_migration_commit =
  imc_canonical_nickname :: ustring
  imc_transfer_id :: u64
  imc_destination_session :: session_id
  imc_channel :: channel_binding
  imc_gate :: gate_ref
  imc_next_gate :: gate_ref
  imc_completion :: migration_completion

datatype disconnect_outcome =
    Unauthenticated
  | Stale identity_binding
  | Deferred identity_binding migration_permit
  | Draining released_identity
  | Released released_identity

definition registry_new :: identity_registry where
  "registry_new = \<lparr>known_by_name = [], name_by_user_no = [], active_by_name = [],
     session_bindings = [], deferred_releases = [], next_user_no = 1, next_generation = 1,
     next_transfer_id = 1, gates = []\<rparr>"

text \<open>Allocation of a gate and an update of a gate in place.\<close>

definition alloc_gate :: "u64 \<Rightarrow> identity_registry \<Rightarrow> gate_ref \<times> identity_registry" where
  "alloc_gate epoch r = (length (gates r), r\<lparr>gates := gates r @ [gate_shared epoch]\<rparr>)"

definition set_gate :: "gate_ref \<Rightarrow> operation_gate \<Rightarrow> identity_registry \<Rightarrow> identity_registry" where
  "set_gate i g r = r\<lparr>gates := (gates r)[i := g]\<rparr>"

definition set_active :: "ustring \<Rightarrow> active_identity \<Rightarrow> identity_registry \<Rightarrow> identity_registry" where
  "set_active key a r = r\<lparr>active_by_name := AList.update key a (active_by_name r)\<rparr>"

definition active_of :: "identity_registry \<Rightarrow> ustring \<Rightarrow> active_identity option" where
  "active_of r = map_of (active_by_name r)"

definition binding_of :: "identity_registry \<Rightarrow> session_id \<Rightarrow> identity_binding option" where
  "binding_of r = map_of (session_bindings r)"

definition known_of :: "identity_registry \<Rightarrow> ustring \<Rightarrow> known_identity option" where
  "known_of r = map_of (known_by_name r)"

definition name_of :: "identity_registry \<Rightarrow> u32 \<Rightarrow> ustring option" where
  "name_of r = map_of (name_by_user_no r)"

section \<open>Bindings\<close>

definition released_identity_of :: "active_identity \<Rightarrow> released_identity" where
  "released_identity_of a =
     \<lparr>ri_nickname = ki_nickname (ai_known a), ri_user_no = ki_user_no (ai_known a),
      ri_generation = ai_generation a, ri_source_ip = ai_owner_ip a, ri_channel = ai_channel a\<rparr>"

definition identity_binding_of :: "active_identity \<Rightarrow> session_id \<Rightarrow> identity_binding" where
  "identity_binding_of a owner =
     \<lparr>ib_nickname = ki_nickname (ai_known a), ib_user_no = ki_user_no (ai_known a),
      ib_generation = ai_generation a, ib_owner = owner, ib_source_ip = ai_owner_ip a,
      ib_channel = ai_channel a\<rparr>"

definition active_identity_binding :: "active_identity \<Rightarrow> identity_binding option" where
  "active_identity_binding a = (case ai_owner a of
       None \<Rightarrow> None
     | Some owner \<Rightarrow> Some (identity_binding_of a owner))"

section \<open>Allocation of numbers\<close>

definition allocate_user_no :: "u32 registry_op" where
  "allocate_user_no r =
     (let value = next_user_no r in
      case checked_succ value of
        None \<Rightarrow> (Inl UserNoExhausted, r)
      | Some n \<Rightarrow>
          let r = r\<lparr>next_user_no := n\<rparr> in
          if value = 0 then (Inl UserNoExhausted, r) else (Inr value, r))"

definition allocate_generation :: "u64 registry_op" where
  "allocate_generation r =
     (let value = next_generation r in
      case checked_succ value of
        None \<Rightarrow> (Inl GenerationExhausted, r)
      | Some n \<Rightarrow>
          let r = r\<lparr>next_generation := n\<rparr> in
          if value = 0 then (Inl GenerationExhausted, r) else (Inr value, r))"

definition allocate_transfer_id :: "u64 registry_op" where
  "allocate_transfer_id r =
     (let value = next_transfer_id r in
      case checked_succ value of
        None \<Rightarrow> (Inl MigrationTransferIdExhausted, r)
      | Some n \<Rightarrow>
          let r = r\<lparr>next_transfer_id := n\<rparr> in
          if value = 0 then (Inl MigrationTransferIdExhausted, r) else (Inr value, r))"

section \<open>Known names\<close>

definition ensure_known_user_no :: "unicode_tables \<Rightarrow> ustring \<Rightarrow> u32 registry_op" where
  "ensure_known_user_no u requested r = (case normalize_nickname u requested of
       Inl e \<Rightarrow> (Inl (InvalidNickname e), r)
     | Inr name \<Rightarrow>
         let key = canonical_nickname_key u name in
         case known_of r key of
           Some known \<Rightarrow> (Inr (ki_user_no known), r)
         | None \<Rightarrow> (case allocate_user_no r of
               (Inl e, r) \<Rightarrow> (Inl e, r)
             | (Inr n, r) \<Rightarrow>
                 (Inr n, r\<lparr>known_by_name := AList.update key \<lparr>ki_nickname = name, ki_user_no = n\<rparr> (known_by_name r),
                           name_by_user_no := AList.update n key (name_by_user_no r)\<rparr>)))"

definition known_user_no :: "unicode_tables \<Rightarrow> ustring \<Rightarrow> identity_registry \<Rightarrow> u32 option" where
  "known_user_no u name r = map_option ki_user_no (known_of r (canonical_nickname_key u name))"

definition offline_myroom_binding :: "unicode_tables \<Rightarrow> ustring \<Rightarrow> identity_binding registry_op" where
  "offline_myroom_binding u requested r = (case normalize_nickname u requested of
       Inl e \<Rightarrow> (Inl (InvalidNickname e), r)
     | Inr name \<Rightarrow>
         let key = canonical_nickname_key u name in
         case ensure_known_user_no u name r of
           (Inl e, r) \<Rightarrow> (Inl e, r)
         | (Inr n, r) \<Rightarrow> (case known_of r key of
               None \<Rightarrow> (Inl (IPanic ''known nickname mapping''), r)
             | Some known \<Rightarrow>
                 (Inr \<lparr>ib_nickname = ki_nickname known, ib_user_no = n, ib_generation = 0,
                       ib_owner = 0, ib_source_ip = V4 [0, 0, 0, 0], ib_channel = None\<rparr>, r)))"

section \<open>Claim and authorization\<close>

definition claim_at ::
  "unicode_tables \<Rightarrow> session_id \<Rightarrow> ip_addr \<Rightarrow> ustring \<Rightarrow> u64 \<Rightarrow> identity_binding registry_op" where
  "claim_at u session source_ip requested epoch r =
     (if trim requested = [] then (Inl EmptyNickname, r)
      else case normalize_nickname u requested of
        Inl e \<Rightarrow> (Inl (InvalidNickname e), r)
      | Inr name \<Rightarrow> (case binding_of r session of
          Some b \<Rightarrow> (Inl (SessionAlreadyAuthenticated session (ib_nickname b)), r)
        | None \<Rightarrow>
          let key = canonical_nickname_key u name in
          case active_of r key of
            Some active \<Rightarrow> (Inl (DuplicateIdentity (ki_nickname (ai_known active))), r)
          | None \<Rightarrow> (case List.find (\<lambda>d. dr_canonical_nickname d = key) (deferred_releases r) of
              Some deferred \<Rightarrow> (Inl (DuplicateIdentity (ri_nickname (dr_identity deferred))), r)
            | None \<Rightarrow> (case ensure_known_user_no u name r of
                (Inl e, r) \<Rightarrow> (Inl e, r)
              | (Inr n, r) \<Rightarrow> (case known_of r key of
                  None \<Rightarrow> (Inl (IPanic ''known nickname mapping''), r)
                | Some known \<Rightarrow> (case allocate_generation r of
                    (Inl e, r) \<Rightarrow> (Inl e, r)
                  | (Inr gen, r) \<Rightarrow>
                      let (gate, r) = alloc_gate epoch r;
                          b = \<lparr>ib_nickname = ki_nickname known, ib_user_no = ki_user_no known,
                               ib_generation = gen, ib_owner = session, ib_source_ip = source_ip,
                               ib_channel = None\<rparr>;
                          r = set_active key
                            \<lparr>ai_known = known, ai_generation = gen, ai_owner = Some session,
                             ai_owner_ip = source_ip, ai_channel = None, ai_permit = None,
                             ai_transfer = None, ai_gate = gate\<rparr> r
                      in (Inr b, r\<lparr>session_bindings := AList.update session b (session_bindings r)\<rparr>)))))))"

definition claim :: "unicode_tables \<Rightarrow> session_id \<Rightarrow> ip_addr \<Rightarrow> ustring \<Rightarrow> identity_binding registry_op" where
  "claim u session source_ip requested = claim_at u session source_ip requested 0"

definition authorize ::
  "unicode_tables \<Rightarrow> session_id \<Rightarrow> identity_registry \<Rightarrow> identity_error + identity_binding" where
  "authorize u session r = (case binding_of r session of
       None \<Rightarrow> Inl (UnauthenticatedSession session)
     | Some b \<Rightarrow> (case active_of r (canonical_nickname_key u (ib_nickname b)) of
           None \<Rightarrow> Inl (StaleSession session)
         | Some active \<Rightarrow>
             if ai_owner active \<noteq> Some session \<or> ai_generation active \<noteq> ib_generation b
             then Inl (StaleSession session)
             else if ai_transfer active \<noteq> None
             then Inl (TransferInProgress (ki_nickname (ai_known active)))
             else Inr b))"

text \<open>Admission through the gate at \<open>i\<close>, producing a lease.\<close>

definition admit_through :: "gate_ref \<Rightarrow> identity_binding \<Rightarrow> operation_lease registry_op" where
  "admit_through i b r = (case gate_try_admit (gates r ! i) of
       (Inl e, g) \<Rightarrow> (Inl e, set_gate i g r)
     | (Inr _, g) \<Rightarrow> (Inr \<lparr>ol_gate = i, ol_binding = b\<rparr>, set_gate i g r))"

definition admit_operation :: "unicode_tables \<Rightarrow> session_id \<Rightarrow> operation_lease registry_op" where
  "admit_operation u session r = (case authorize u session r of
       Inl e \<Rightarrow> (Inl e, r)
     | Inr b \<Rightarrow> (case active_of r (canonical_nickname_key u (ib_nickname b)) of
           None \<Rightarrow> (Inl (StaleSession session), r)
         | Some active \<Rightarrow> admit_through (ai_gate active) b r))"

definition admit_udp_operation :: "u32 \<Rightarrow> u64 \<Rightarrow> operation_lease registry_op" where
  "admit_udp_operation user arrival_epoch r = (case name_of r user of
       None \<Rightarrow> (Inl (UnknownUserNo user), r)
     | Some key \<Rightarrow> (case active_of r key of
           None \<Rightarrow> (Inl (IdentityOwnerUnavailable user), r)
         | Some active \<Rightarrow> (case active_identity_binding active of
               None \<Rightarrow> (Inl (IdentityOwnerUnavailable user), r)
             | Some b \<Rightarrow>
                 if ai_transfer active \<noteq> None
                 then (Inl (TransferInProgress (ki_nickname (ai_known active))), r)
                 else if arrival_epoch \<le> og_activated_udp_epoch (gates r ! ai_gate active)
                 then (Inl UdpIngressPredatesGeneration, r)
                 else admit_through (ai_gate active) b r)))"

text \<open>\<open>IdentityOperationLease::try_retain\<close> and its \<open>Drop\<close>.\<close>

definition lease_try_retain :: "operation_lease \<Rightarrow> operation_lease registry_op" where
  "lease_try_retain lease r = (case gate_try_retain (gates r ! ol_gate lease) of
       (Inl e, g) \<Rightarrow> (Inl e, set_gate (ol_gate lease) g r)
     | (Inr _, g) \<Rightarrow> (Inr lease, set_gate (ol_gate lease) g r))"

definition lease_drop :: "operation_lease \<Rightarrow> identity_registry \<Rightarrow> identity_registry" where
  "lease_drop lease r = set_gate (ol_gate lease) (gate_release (gates r ! ol_gate lease)) r"

section \<open>Channel migration\<close>

definition begin_migration ::
  "unicode_tables \<Rightarrow> session_id \<Rightarrow> channel_binding \<Rightarrow> u16 \<Rightarrow> instant \<Rightarrow> migration_permit registry_op" where
  "begin_migration u source_session channel token now r = (case authorize u source_session r of
       Inl e \<Rightarrow> (Inl e, r)
     | Inr source \<Rightarrow> (case instant_checked_add now migration_ttl of
           None \<Rightarrow> (Inl MigrationDeadlineOverflow, r)
         | Some expires_at \<Rightarrow>
             let permit = \<lparr>mp_user_no = ib_user_no source, mp_source_generation = ib_generation source,
                   mp_source_session = source_session, mp_source_ip = ib_source_ip source,
                   mp_channel = channel, mp_token = token, mp_expires_at = expires_at\<rparr>;
                 key = canonical_nickname_key u (ib_nickname source) in
             case active_of r key of
               None \<Rightarrow> (Inl (StaleSession source_session), r)
             | Some active \<Rightarrow> (Inr permit, set_active key (active\<lparr>ai_permit := Some permit\<rparr>) r)))"

text \<open>The borrowed result of \<open>validate_migration\<close>: the key, the identity and its permit.\<close>

definition validate_migration ::
  "session_id \<Rightarrow> ip_addr \<Rightarrow> u32 \<Rightarrow> u16 \<Rightarrow> u16 \<Rightarrow> instant \<Rightarrow> identity_registry \<Rightarrow>
     identity_error + (ustring \<times> active_identity \<times> migration_permit)" where
  "validate_migration destination ip user channel_id token now r =
     (case binding_of r destination of
        Some b \<Rightarrow> Inl (SessionAlreadyAuthenticated destination (ib_nickname b))
      | None \<Rightarrow> (case name_of r user of
          None \<Rightarrow> Inl (UnknownUserNo user)
        | Some key \<Rightarrow> (case active_of r key of
            None \<Rightarrow> (case known_of r key of
                None \<Rightarrow> Inl (IPanic ''known_by_name index'')
              | Some known \<Rightarrow> Inl (NoMigrationPermit (ki_nickname known)))
          | Some active \<Rightarrow> (case ai_permit active of
              None \<Rightarrow> Inl (NoMigrationPermit (ki_nickname (ai_known active)))
            | Some permit \<Rightarrow>
                if now \<ge> mp_expires_at permit then Inl MigrationExpired
                else if mp_user_no permit \<noteq> user then Inl (UnknownUserNo user)
                else if cb_channel_id (mp_channel permit) \<noteq> channel_id
                then Inl (ChannelMismatch (cb_channel_id (mp_channel permit)) channel_id)
                else if mp_token permit \<noteq> token then Inl TokenMismatch
                else if mp_source_ip permit \<noteq> ip then Inl (SourceIpMismatch (mp_source_ip permit) ip)
                else if mp_source_generation permit \<noteq> ai_generation active
                  \<or> (case ai_owner active of None \<Rightarrow> False | Some owner \<Rightarrow> owner \<noteq> mp_source_session permit)
                then Inl StaleMigrationGeneration
                else Inr (key, active, permit)))))"

definition source_state_from_owner :: "session_id option \<Rightarrow> migration_source_state" where
  "source_state_from_owner owner = (case owner of Some s \<Rightarrow> Connected s | None \<Rightarrow> Disconnected)"

fun permits_current :: "migration_source_state \<Rightarrow> session_id option \<Rightarrow> session_id \<Rightarrow> bool" where
  "permits_current (Connected expected) (Some current) source \<longleftrightarrow> expected = source \<and> current = expected"
| "permits_current (Connected expected) None source \<longleftrightarrow> expected = source"
| "permits_current Disconnected None source \<longleftrightarrow> True"
| "permits_current Disconnected (Some _) source \<longleftrightarrow> False"

definition preflight_migration ::
  "session_id \<Rightarrow> ip_addr \<Rightarrow> u32 \<Rightarrow> u16 \<Rightarrow> u16 \<Rightarrow> instant \<Rightarrow> migration_preflight registry_op" where
  "preflight_migration destination ip user channel_id token now r =
     (case validate_migration destination ip user channel_id token now r of
        Inl e \<Rightarrow> (Inl e, r)
      | Inr (key, validated, permit) \<Rightarrow>
          if ai_transfer validated \<noteq> None
          then (Inl (TransferInProgress (ki_nickname (ai_known validated))), r)
          else (case allocate_transfer_id r of
            (Inl e, r) \<Rightarrow> (Inl e, r)
          | (Inr transfer_id, r) \<Rightarrow>
              let preflight = \<lparr>pf_transfer_id = transfer_id, pf_destination_session = destination,
                    pf_destination_ip = ip, pf_user_no = user, pf_channel_id = channel_id,
                    pf_channel = mp_channel permit, pf_token = token,
                    pf_source_generation = mp_source_generation permit,
                    pf_source_state = source_state_from_owner (ai_owner validated),
                    pf_source_session = mp_source_session permit,
                    pf_expires_at = mp_expires_at permit,
                    pf_nickname = ki_nickname (ai_known validated),
                    pf_canonical_nickname = key, pf_gate = ai_gate validated\<rparr> in
              case active_of r key of
                None \<Rightarrow> (Inl StaleMigrationPreflight, r)
              | Some active \<Rightarrow>
                  if ai_gate active \<noteq> ai_gate validated
                    \<or> ai_generation active \<noteq> mp_source_generation permit
                  then (Inl StaleMigrationPreflight, r)
                  else (case gate_freeze transfer_id (gates r ! ai_gate validated) of
                    (False, _) \<Rightarrow> (Inl StaleMigrationPreflight, r)
                  | (True, g) \<Rightarrow>
                      (Inr preflight,
                       set_active key (active\<lparr>ai_transfer := Some transfer_id\<rparr>)
                         (set_gate (ai_gate validated) g r)))))"

definition validate_preflighted_migration ::
  "migration_preflight \<Rightarrow> instant \<Rightarrow> identity_registry \<Rightarrow> identity_error + unit" where
  "validate_preflighted_migration pf now r =
     rbind (validate_migration (pf_destination_session pf) (pf_destination_ip pf) (pf_user_no pf)
       (pf_channel_id pf) (pf_token pf) now r) (\<lambda>(key, active, permit).
     if key \<noteq> pf_canonical_nickname pf
       \<or> ki_nickname (ai_known active) \<noteq> pf_nickname pf
       \<or> \<not> permits_current (pf_source_state pf) (ai_owner active) (mp_source_session permit)
       \<or> mp_channel permit \<noteq> pf_channel pf
       \<or> mp_source_generation permit \<noteq> pf_source_generation pf
       \<or> mp_source_session permit \<noteq> pf_source_session pf
       \<or> mp_expires_at permit \<noteq> pf_expires_at pf
       \<or> ai_transfer active \<noteq> Some (pf_transfer_id pf)
       \<or> ai_gate active \<noteq> pf_gate pf
       \<or> \<not> gate_is_frozen_by (pf_transfer_id pf) (gates r ! pf_gate pf)
     then Inl StaleMigrationPreflight
     else if \<not> gate_is_drained (gates r ! pf_gate pf) then Inl MigrationOperationsActive
     else if next_generation r = 0 \<or> checked_succ (next_generation r) = None
     then Inl GenerationExhausted
     else Inr ())"

definition abort_preflighted_migration ::
  "migration_preflight \<Rightarrow> identity_registry \<Rightarrow> bool \<times> identity_registry" where
  "abort_preflighted_migration pf r = (case active_of r (pf_canonical_nickname pf) of
       None \<Rightarrow> (False, r)
     | Some active \<Rightarrow>
         let exact_permit = (case ai_permit active of
               None \<Rightarrow> False
             | Some permit \<Rightarrow>
                 mp_user_no permit = pf_user_no pf
                 \<and> mp_source_generation permit = pf_source_generation pf
                 \<and> mp_source_session permit = pf_source_session pf
                 \<and> mp_channel permit = pf_channel pf
                 \<and> mp_token permit = pf_token pf
                 \<and> mp_expires_at permit = pf_expires_at pf) in
         if ai_generation active \<noteq> pf_source_generation pf
           \<or> ki_nickname (ai_known active) \<noteq> pf_nickname pf
           \<or> ai_transfer active \<noteq> Some (pf_transfer_id pf)
           \<or> ai_gate active \<noteq> pf_gate pf
           \<or> \<not> exact_permit
         then (False, r)
         else (case gate_reopen_exact (pf_transfer_id pf) (gates r ! ai_gate active) of
             (False, _) \<Rightarrow> (False, r)
           | (True, g) \<Rightarrow>
               (True, set_active (pf_canonical_nickname pf) (active\<lparr>ai_transfer := None\<rparr>)
                  (set_gate (ai_gate active) g r))))"

text \<open>
  \<open>prepare_preflighted_migration\<close>: the closure of the source, and the abort when it
  fails.  \<open>reserved\<close> is the answer of \<open>try_reserve\<close>, i.e. of the allocator.
\<close>

definition materialize_migration ::
  "bool \<Rightarrow> migration_preflight \<Rightarrow> instant \<Rightarrow> migration_candidate registry_op" where
  "materialize_migration reserved pf now r =
     (case validate_preflighted_migration pf now r of
        Inl e \<Rightarrow> (Inl e, r)
      | Inr _ \<Rightarrow> (case validate_migration (pf_destination_session pf) (pf_destination_ip pf)
            (pf_user_no pf) (pf_channel_id pf) (pf_token pf) now r of
          Inl e \<Rightarrow> (Inl e, r)
        | Inr (key, active, permit) \<Rightarrow> (case allocate_generation r of
            (Inl e, r) \<Rightarrow> (Inl e, r)
          | (Inr gen, r) \<Rightarrow>
              if \<not> reserved then (Inl SessionIndexCapacityUnavailable, r)
              else
                let (next_gate, r) = alloc_gate 0 r in
                (Inr \<lparr>cand_canonical_nickname = key, cand_gate = ai_gate active,
                      cand_next_gate = next_gate,
                      cand_completion =
                        \<lparr>mc_binding =
                           \<lparr>ib_nickname = ki_nickname (ai_known active),
                            ib_user_no = ki_user_no (ai_known active), ib_generation = gen,
                            ib_owner = pf_destination_session pf,
                            ib_source_ip = pf_destination_ip pf,
                            ib_channel = Some (mp_channel permit)\<rparr>,
                         mc_previous_binding = identity_binding_of active (mp_source_session permit),
                         mc_previous_identity = released_identity_of active,
                         mc_previous_owner = ai_owner active\<rparr>\<rparr>, r))))"

definition prepare_preflighted_migration ::
  "bool \<Rightarrow> migration_preflight \<Rightarrow> instant \<Rightarrow> migration_candidate registry_op" where
  "prepare_preflighted_migration reserved pf now r =
     (case materialize_migration reserved pf now r of
        (Inl e, r) \<Rightarrow> (Inl e, snd (abort_preflighted_migration pf r))
      | (Inr candidate, r) \<Rightarrow> (Inr candidate, r))"

definition lock_prepared_migration ::
  "migration_preflight \<Rightarrow> migration_candidate \<Rightarrow> instant \<Rightarrow> identity_migration_commit registry_op" where
  "lock_prepared_migration pf cand now r =
     (case validate_preflighted_migration pf now r of
        Inl e \<Rightarrow> (Inl e, snd (abort_preflighted_migration pf r))
      | Inr _ \<Rightarrow>
          if cand_canonical_nickname cand \<noteq> pf_canonical_nickname pf
            \<or> ib_owner (mc_binding (cand_completion cand)) \<noteq> pf_destination_session pf
            \<or> ib_user_no (mc_binding (cand_completion cand)) \<noteq> pf_user_no pf
            \<or> ib_channel (mc_binding (cand_completion cand)) \<noteq> Some (pf_channel pf)
            \<or> ib_generation (mc_previous_binding (cand_completion cand)) \<noteq> pf_source_generation pf
            \<or> cand_gate cand \<noteq> pf_gate pf
          then (Inl StaleMigrationPreflight, snd (abort_preflighted_migration pf r))
          else (case active_of r (cand_canonical_nickname cand) of
              None \<Rightarrow> (Inl (IPanic ''validated migration identity''), r)
            | Some _ \<Rightarrow>
                (Inr \<lparr>imc_canonical_nickname = cand_canonical_nickname cand,
                      imc_transfer_id = pf_transfer_id pf,
                      imc_destination_session = pf_destination_session pf,
                      imc_channel = pf_channel pf, imc_gate = cand_gate cand,
                      imc_next_gate = cand_next_gate cand,
                      imc_completion = cand_completion cand\<rparr>, r)))"

text \<open>\<open>IdentityMigrationCommit::commit\<close>; the borrowed identity is found by its key.\<close>

definition commit_migration :: "identity_migration_commit \<Rightarrow> u64 \<Rightarrow> migration_completion registry_op" where
  "commit_migration c epoch r = (case active_of r (imc_canonical_nickname c) of
       None \<Rightarrow> (Inl (IPanic ''borrowed identity''), r)
     | Some active \<Rightarrow>
         let r = set_gate (imc_next_gate c)
               ((gates r ! imc_next_gate c)\<lparr>og_activated_udp_epoch := epoch\<rparr>) r;
             completion = imc_completion c in
         (case gate_retire_exact (imc_transfer_id c) (gates r ! imc_gate c) of
            (False, _) \<Rightarrow> (Inl (IPanic ''source must remain frozen and drained''), r)
          | (True, g) \<Rightarrow>
              let r = set_gate (imc_gate c) g r;
                  r = set_active (imc_canonical_nickname c)
                    (active\<lparr>ai_generation := ib_generation (mc_binding completion),
                            ai_owner := Some (imc_destination_session c),
                            ai_owner_ip := ib_source_ip (mc_binding completion),
                            ai_channel := Some (imc_channel c), ai_permit := None,
                            ai_transfer := None, ai_gate := imc_next_gate c\<rparr>) r
              in (Inr completion,
                  r\<lparr>session_bindings := AList.update (imc_destination_session c)
                     (mc_binding completion) (session_bindings r)\<rparr>)))"

text \<open>Dropping an uncommitted \<open>IdentityMigrationCommit\<close>.\<close>

definition drop_migration_commit :: "identity_migration_commit \<Rightarrow> identity_registry \<Rightarrow> identity_registry" where
  "drop_migration_commit c r = (case active_of r (imc_canonical_nickname c) of
       None \<Rightarrow> r
     | Some active \<Rightarrow>
         if ai_transfer active = Some (imc_transfer_id c) \<and> ai_gate active = imc_gate c
         then set_gate (imc_gate c) (snd (gate_reopen_exact (imc_transfer_id c) (gates r ! imc_gate c)))
           (set_active (imc_canonical_nickname c) (active\<lparr>ai_transfer := None\<rparr>) r)
         else r)"

definition complete_preflighted_migration_at_udp_epoch ::
  "bool \<Rightarrow> migration_preflight \<Rightarrow> instant \<Rightarrow> u64 \<Rightarrow> migration_completion registry_op" where
  "complete_preflighted_migration_at_udp_epoch reserved pf now epoch r =
     (case prepare_preflighted_migration reserved pf now r of
        (Inl e, r) \<Rightarrow> (Inl e, r)
      | (Inr candidate, r) \<Rightarrow> (case lock_prepared_migration pf candidate now r of
          (Inl e, r) \<Rightarrow> (Inl e, r)
        | (Inr guard, r) \<Rightarrow> commit_migration guard epoch r))"

definition complete_preflighted_migration ::
  "bool \<Rightarrow> migration_preflight \<Rightarrow> instant \<Rightarrow> migration_completion registry_op" where
  "complete_preflighted_migration reserved pf now =
     complete_preflighted_migration_at_udp_epoch reserved pf now 0"

definition complete_migration ::
  "bool \<Rightarrow> session_id \<Rightarrow> ip_addr \<Rightarrow> u32 \<Rightarrow> u16 \<Rightarrow> u16 \<Rightarrow> instant \<Rightarrow> migration_completion registry_op" where
  "complete_migration reserved destination ip user channel_id token now r =
     (case preflight_migration destination ip user channel_id token now r of
        (Inl e, r) \<Rightarrow> (Inl e, r)
      | (Inr pf, r) \<Rightarrow> complete_preflighted_migration reserved pf now r)"

section \<open>Release\<close>

text \<open>
  The common tail of \<open>disconnect\<close> and \<open>expire_migrations\<close>: the identity is released
  if its gate is drained, otherwise its release is deferred.
\<close>

definition release_or_defer ::
  "ustring \<Rightarrow> active_identity \<Rightarrow> identity_registry \<Rightarrow> bool \<times> identity_registry" where
  "release_or_defer key active r = (case gate_retire_drained (gates r ! ai_gate active) of
       (True, g) \<Rightarrow> (True, set_gate (ai_gate active) g r)
     | (False, g) \<Rightarrow> (False, (set_gate (ai_gate active) g r)\<lparr>deferred_releases :=
           deferred_releases r @ [\<lparr>dr_canonical_nickname = key, dr_identity = released_identity_of active,
             dr_gate = ai_gate active\<rparr>]\<rparr>))"

definition disconnect ::
  "unicode_tables \<Rightarrow> session_id \<Rightarrow> instant \<Rightarrow> identity_registry \<Rightarrow> disconnect_outcome \<times> identity_registry" where
  "disconnect u session now r = (case binding_of r session of
       None \<Rightarrow> (Unauthenticated, r)
     | Some b \<Rightarrow>
         let r = r\<lparr>session_bindings := AList.delete session (session_bindings r)\<rparr>;
             key = canonical_nickname_key u (ib_nickname b) in
         (case active_of r key of
            None \<Rightarrow> (Stale b, r)
          | Some active \<Rightarrow>
              if ai_owner active \<noteq> Some session \<or> ai_generation active \<noteq> ib_generation b
              then (Stale b, r)
              else
                let usable = (case ai_permit active of
                      None \<Rightarrow> None
                    | Some permit \<Rightarrow> if mp_expires_at permit > now then Some permit else None) in
                (case usable of
                   Some permit \<Rightarrow> (Deferred b permit, set_active key (active\<lparr>ai_owner := None\<rparr>) r)
                 | None \<Rightarrow>
                     let r = r\<lparr>active_by_name := AList.delete key (active_by_name r)\<rparr>;
                         r = (case ai_transfer active of
                             None \<Rightarrow> r
                           | Some transfer_id \<Rightarrow> set_gate (ai_gate active)
                               (snd (gate_reopen_exact transfer_id (gates r ! ai_gate active))) r) in
                     (case release_or_defer key active r of
                        (True, r) \<Rightarrow> (Released (released_identity_of active), r)
                      | (False, r) \<Rightarrow> (Draining (released_identity_of active), r)))))"

text \<open>The first loop of \<open>expire_migrations\<close>: one visit of an active identity.\<close>

definition expire_visit ::
  "instant \<Rightarrow> active_identity \<Rightarrow> operation_gate list \<Rightarrow> active_identity \<times> operation_gate list \<times> bool" where
  "expire_visit now active gs =
     (case ai_permit active of
        None \<Rightarrow> (active, gs, False)
      | Some permit \<Rightarrow>
          if now \<ge> mp_expires_at permit then
            let active = active\<lparr>ai_permit := None\<rparr> in
            let (active, gs) = (case ai_transfer active of
                  None \<Rightarrow> (active, gs)
                | Some transfer_id \<Rightarrow>
                    (case gate_reopen_exact transfer_id (gs ! ai_gate active) of
                       (True, g) \<Rightarrow> (active\<lparr>ai_transfer := None\<rparr>, gs[ai_gate active := g])
                     | (False, _) \<Rightarrow> (active, gs))) in
            (active, gs, ai_owner active = None)
          else (active, gs, False))"

fun expire_scan ::
  "instant \<Rightarrow> (ustring \<times> active_identity) list \<Rightarrow> operation_gate list \<Rightarrow>
     (ustring \<times> active_identity) list \<times> operation_gate list \<times> ustring list" where
  "expire_scan now [] gs = ([], gs, [])"
| "expire_scan now ((key, active) # rest) gs =
     (let (active, gs, release) = expire_visit now active gs;
          (rest, gs, release_keys) = expire_scan now rest gs
      in ((key, active) # rest, gs, if release then key # release_keys else release_keys))"

text \<open>The second loop: the keys collected above.\<close>

fun expire_release :: "ustring list \<Rightarrow> identity_registry \<Rightarrow> released_identity list \<times> identity_registry" where
  "expire_release [] r = ([], r)"
| "expire_release (key # release_keys) r = (case active_of r key of
       None \<Rightarrow> expire_release release_keys r
     | Some active \<Rightarrow>
         (let r = r\<lparr>active_by_name := AList.delete key (active_by_name r)\<rparr>;
              (drained, r) = release_or_defer key active r;
              (released, r) = expire_release release_keys r
          in (if drained then released_identity_of active # released else released, r)))"

definition expire_migrations :: "instant \<Rightarrow> identity_registry \<Rightarrow> released_identity list \<times> identity_registry" where
  "expire_migrations now r =
     (let (active, gs, release_keys) = expire_scan now (active_by_name r) (gates r)
      in expire_release release_keys (r\<lparr>active_by_name := active, gates := gs\<rparr>))"

fun collect_pending ::
  "deferred_release list \<Rightarrow> operation_gate list \<Rightarrow>
     released_identity list \<times> deferred_release list \<times> operation_gate list" where
  "collect_pending [] gs = ([], [], gs)"
| "collect_pending (d # pending) gs =
     (case gate_retire_drained (gs ! dr_gate d) of (drained, g) \<Rightarrow>
        let (released, kept, gs) = collect_pending pending (gs[dr_gate d := g])
        in if drained then (dr_identity d # released, kept, gs) else (released, d # kept, gs))"

definition collect_drained_releases :: "identity_registry \<Rightarrow> released_identity list \<times> identity_registry" where
  "collect_drained_releases r =
     (let (released, kept, gs) = collect_pending (deferred_releases r) (gates r)
      in (sort_key (\<lambda>i. unat (ri_user_no i)) released, r\<lparr>deferred_releases := kept, gates := gs\<rparr>))"

definition drain_active :: "identity_registry \<Rightarrow> released_identity list \<times> identity_registry" where
  "drain_active r =
     collect_drained_releases
       (r\<lparr>session_bindings := [], active_by_name := [],
          deferred_releases := deferred_releases r @
            map (\<lambda>(key, active). \<lparr>dr_canonical_nickname = key,
              dr_identity = released_identity_of active, dr_gate = ai_gate active\<rparr>) (active_by_name r)\<rparr>)"

section \<open>Queries\<close>

definition lookup_active_identity :: "unicode_tables \<Rightarrow> ustring \<Rightarrow> identity_registry \<Rightarrow> identity_binding option" where
  "lookup_active_identity u name r =
     Option.bind (active_of r (canonical_nickname_key u name)) active_identity_binding"

definition active_identity_by_user_no :: "u32 \<Rightarrow> identity_registry \<Rightarrow> identity_binding option" where
  "active_identity_by_user_no user r =
     Option.bind (name_of r user) (\<lambda>key. Option.bind (active_of r key) active_identity_binding)"

definition is_current_ownerless_binding :: "identity_binding \<Rightarrow> identity_registry \<Rightarrow> bool" where
  "is_current_ownerless_binding b r = (case name_of r (ib_user_no b) of
       None \<Rightarrow> False
     | Some key \<Rightarrow> (case active_of r key of
         None \<Rightarrow> False
       | Some active \<Rightarrow> (case ai_permit active of
           None \<Rightarrow> False
         | Some permit \<Rightarrow>
             ai_owner active = None
             \<and> identity_binding_of active (mp_source_session permit) = b
             \<and> mp_source_generation permit = ib_generation b)))"

definition active_identities :: "identity_registry \<Rightarrow> identity_binding list" where
  "active_identities r = List.map_filter (\<lambda>(key, active). active_identity_binding active) (active_by_name r)"

definition active_count :: "identity_registry \<Rightarrow> nat" where
  "active_count r = length (active_by_name r)"

definition saturating_add_usize :: "nat \<Rightarrow> nat \<Rightarrow> nat" where
  "saturating_add_usize a b = min (a + b) usize_max"

definition retained_identity_count :: "identity_registry \<Rightarrow> nat" where
  "retained_identity_count r = saturating_add_usize (length (active_by_name r)) (length (deferred_releases r))"

definition outstanding_operation_count :: "identity_registry \<Rightarrow> nat" where
  "outstanding_operation_count r =
     foldl saturating_add_usize 0
       (map (\<lambda>(key, active). og_active_operations (gates r ! ai_gate active)) (active_by_name r) @
        map (\<lambda>d. og_active_operations (gates r ! dr_gate d)) (deferred_releases r))"

definition transfer_in_progress_count :: "identity_registry \<Rightarrow> nat" where
  "transfer_in_progress_count r =
     length (filter (\<lambda>(key, active). ai_transfer active \<noteq> None) (active_by_name r))"

end
