(* ===== verification/IdentityInv.thy ===== *)
theory IdentityInv
  imports Identity
begin

text \<open>
  The invariant of the identity registry, the contract every registry operation
  satisfies (the locale \<open>registry_operation\<close>), the step relation of the registry
  together with its outstanding leases, and what follows for reachable states.
\<close>

section \<open>Counters\<close>

lemma unat_checked_succ: "checked_succ v = Some n \<Longrightarrow> unat n = Suc (unat v)"
  by (auto simp: checked_succ_def split: if_splits)
    (metis add.commute add_eq_0_iff2 unatSuc)

lemma checked_succ_SomeD:
  assumes "checked_succ v = Some n"
  shows "v < n" "x < v \<Longrightarrow> x < n" "n \<noteq> 0" "v \<noteq> - 1"
  using unat_checked_succ [OF assms] assms
  by (auto simp: word_less_nat_alt unat_eq_0 checked_succ_def)

section \<open>Invariant\<close>

definition known_inv :: "unicode_tables \<Rightarrow> identity_registry \<Rightarrow> bool" where
  "known_inv u r \<longleftrightarrow>
     (\<forall>k kn. known_of r k = Some kn \<longrightarrow>
        canonical_nickname_key u (ki_nickname kn) = k \<and> name_of r (ki_user_no kn) = Some k \<and>
        0 < ki_user_no kn \<and> ki_user_no kn < next_user_no r) \<and>
     (\<forall>n k. name_of r n = Some k \<longrightarrow> (\<exists>kn. known_of r k = Some kn \<and> ki_user_no kn = n)) \<and>
     0 < next_user_no r \<and> 0 < next_generation r \<and> 0 < next_transfer_id r"

definition permit_ok :: "active_identity \<Rightarrow> migration_permit \<Rightarrow> bool" where
  "permit_ok a p \<longleftrightarrow>
     mp_user_no p = ki_user_no (ai_known a) \<and> mp_source_generation p = ai_generation a \<and>
     mp_source_ip p = ai_owner_ip a \<and> (\<forall>s. ai_owner a = Some s \<longrightarrow> s = mp_source_session p)"

definition gate_state_of :: "u64 option \<Rightarrow> u64" where
  "gate_state_of transfer = (case transfer of None \<Rightarrow> gate_open | Some t \<Rightarrow> t)"

definition active_ok :: "identity_registry \<Rightarrow> ustring \<Rightarrow> active_identity \<Rightarrow> bool" where
  "active_ok r k a \<longleftrightarrow>
     known_of r k = Some (ai_known a) \<and>
     0 < ai_generation a \<and> ai_generation a < next_generation r \<and>
     ai_gate a < length (gates r) \<and>
     og_state (gates r ! ai_gate a) = gate_state_of (ai_transfer a) \<and>
     (\<forall>t. ai_transfer a = Some t \<longrightarrow> 0 < t \<and> t < next_transfer_id r \<and> ai_permit a \<noteq> None) \<and>
     (ai_permit a = None \<longrightarrow> ai_owner a \<noteq> None) \<and>
     (\<forall>p. ai_permit a = Some p \<longrightarrow> permit_ok a p) \<and>
     (\<forall>s. ai_owner a = Some s \<longrightarrow> binding_of r s = Some (identity_binding_of a s))"

definition active_inv :: "identity_registry \<Rightarrow> bool" where
  "active_inv r \<longleftrightarrow>
     keys_distinct (active_by_name r) \<and>
     (\<forall>k a. active_of r k = Some a \<longrightarrow> active_ok r k a) \<and>
     (\<forall>k k' a a'. active_of r k = Some a \<and> active_of r k' = Some a' \<and>
        (ai_generation a = ai_generation a' \<or> ai_gate a = ai_gate a') \<longrightarrow> k = k')"

definition binding_inv :: "unicode_tables \<Rightarrow> identity_registry \<Rightarrow> bool" where
  "binding_inv u r \<longleftrightarrow>
     (\<forall>s b. binding_of r s = Some b \<longrightarrow>
        ib_owner b = s \<and> 0 < ib_generation b \<and> ib_generation b < next_generation r \<and>
        known_of r (canonical_nickname_key u (ib_nickname b)) =
          Some \<lparr>ki_nickname = ib_nickname b, ki_user_no = ib_user_no b\<rparr>) \<and>
     (\<forall>s s' b b'. binding_of r s = Some b \<and> binding_of r s' = Some b' \<and>
        ib_generation b = ib_generation b' \<longrightarrow> s = s')"

definition deferred_inv :: "identity_registry \<Rightarrow> bool" where
  "deferred_inv r \<longleftrightarrow>
     distinct (map dr_canonical_nickname (deferred_releases r)) \<and>
     distinct (map dr_gate (deferred_releases r)) \<and>
     (\<forall>d\<in>set (deferred_releases r).
        dr_gate d < length (gates r) \<and> active_of r (dr_canonical_nickname d) = None \<and>
        known_of r (dr_canonical_nickname d) =
          Some \<lparr>ki_nickname = ri_nickname (dr_identity d), ki_user_no = ri_user_no (dr_identity d)\<rparr> \<and>
        (\<forall>k a. active_of r k = Some a \<longrightarrow> ai_gate a \<noteq> dr_gate d))"

definition gates_inv :: "identity_registry \<Rightarrow> bool" where
  "gates_inv r \<longleftrightarrow>
     (\<forall>i<length (gates r). og_state (gates r ! i) = gate_retired \<longrightarrow> og_active_operations (gates r ! i) = 0)"

definition registry_inv :: "unicode_tables \<Rightarrow> identity_registry \<Rightarrow> bool" where
  "registry_inv u r \<longleftrightarrow>
     known_inv u r \<and> active_inv r \<and> binding_inv u r \<and> deferred_inv r \<and> gates_inv r"

lemmas registry_inv_defs =
  registry_inv_def known_inv_def active_inv_def binding_inv_def deferred_inv_def gates_inv_def

text \<open>How the registry may change in one step that neither admits nor drops a lease.\<close>

definition evolves :: "identity_registry \<Rightarrow> identity_registry \<Rightarrow> bool" where
  "evolves r r' \<longleftrightarrow>
     (\<forall>k kn. known_of r k = Some kn \<longrightarrow> known_of r' k = Some kn) \<and>
     next_user_no r \<le> next_user_no r' \<and> next_generation r \<le> next_generation r' \<and>
     next_transfer_id r \<le> next_transfer_id r' \<and> length (gates r) \<le> length (gates r') \<and>
     (\<forall>i<length (gates r).
        og_active_operations (gates r' ! i) = og_active_operations (gates r ! i) \<and>
        (og_state (gates r ! i) = gate_retired \<longrightarrow> og_state (gates r' ! i) = gate_retired)) \<and>
     (\<forall>i. length (gates r) \<le> i \<and> i < length (gates r') \<longrightarrow> og_active_operations (gates r' ! i) = 0)"

lemma evolves_refl [simp]: "evolves r r"
  by (simp add: evolves_def)

lemma evolves_trans: "evolves r r1 \<Longrightarrow> evolves r1 r2 \<Longrightarrow> evolves r r2"
  unfolding evolves_def
  by (intro conjI allI impI; (elim conjE)?) (metis order_trans not_le order.strict_trans2 leI)+

section \<open>The contract of registry operations\<close>

locale registry_operation =
  fixes u :: unicode_tables and op :: "identity_registry \<Rightarrow> identity_registry"
  assumes keeps_inv: "registry_inv u r \<Longrightarrow> registry_inv u (op r)"
    and keeps_past: "registry_inv u r \<Longrightarrow> evolves r (op r)"
begin

lemma user_no_stable:
  "registry_inv u r \<Longrightarrow> known_user_no u name r = Some n \<Longrightarrow> known_user_no u name (op r) = Some n"
  using keeps_past by (fastforce simp: known_user_no_def evolves_def)

lemma operations_unchanged:
  "registry_inv u r \<Longrightarrow> i < length (gates r) \<Longrightarrow>
     og_active_operations (gates (op r) ! i) = og_active_operations (gates r ! i)"
  using keeps_past by (simp add: evolves_def)

lemma retired_stays: "registry_inv u r \<Longrightarrow> i < length (gates r) \<Longrightarrow>
    og_state (gates r ! i) = gate_retired \<Longrightarrow> og_state (gates (op r) ! i) = gate_retired"
  using keeps_past by (simp add: evolves_def)

end

text \<open>Two operations in sequence.\<close>

lemma registry_operation_comp:
  "registry_operation u f \<Longrightarrow> registry_operation u g \<Longrightarrow> registry_operation u (\<lambda>r. g (f r))"
  unfolding registry_operation_def by (meson evolves_trans)

section \<open>Elementary changes\<close>

lemmas view_defs = known_of_def name_of_def active_of_def binding_of_def
lemmas update_defs = set_gate_def set_active_def alloc_gate_def

lemma views_set_gate [simp]:
  "known_of (set_gate i g r) = known_of r" "name_of (set_gate i g r) = name_of r"
  "active_of (set_gate i g r) = active_of r" "binding_of (set_gate i g r) = binding_of r"
  "gates (set_gate i g r) = (gates r)[i := g]" "deferred_releases (set_gate i g r) = deferred_releases r"
  "next_user_no (set_gate i g r) = next_user_no r" "next_generation (set_gate i g r) = next_generation r"
  "next_transfer_id (set_gate i g r) = next_transfer_id r" "active_by_name (set_gate i g r) = active_by_name r"
  "session_bindings (set_gate i g r) = session_bindings r"
  by (simp_all add: set_gate_def view_defs)

lemma views_set_active [simp]:
  "known_of (set_active k a r) = known_of r" "name_of (set_active k a r) = name_of r"
  "active_of (set_active k a r) = (active_of r)(k \<mapsto> a)" "binding_of (set_active k a r) = binding_of r"
  "gates (set_active k a r) = gates r" "deferred_releases (set_active k a r) = deferred_releases r"
  "next_user_no (set_active k a r) = next_user_no r" "next_generation (set_active k a r) = next_generation r"
  "next_transfer_id (set_active k a r) = next_transfer_id r"
  "active_by_name (set_active k a r) = AList.update k a (active_by_name r)"
  "session_bindings (set_active k a r) = session_bindings r"
  by (simp_all add: set_active_def view_defs)

lemma views_update [simp]:
  "known_of (r\<lparr>active_by_name := x1\<rparr>) = known_of r" "name_of (r\<lparr>active_by_name := x1\<rparr>) = name_of r"
  "active_of (r\<lparr>active_by_name := []\<rparr>) = Map.empty"
  "active_of (r\<lparr>active_by_name := AList.delete k (active_by_name q)\<rparr>) = (active_of q)(k := None)"
  "binding_of (r\<lparr>active_by_name := x1\<rparr>) = binding_of r"
  "known_of (r\<lparr>session_bindings := x2\<rparr>) = known_of r" "name_of (r\<lparr>session_bindings := x2\<rparr>) = name_of r"
  "active_of (r\<lparr>session_bindings := x2\<rparr>) = active_of r" "binding_of (r\<lparr>session_bindings := []\<rparr>) = Map.empty"
  "binding_of (r\<lparr>session_bindings := AList.delete s (session_bindings q)\<rparr>) = (binding_of q)(s := None)"
  "binding_of (r\<lparr>session_bindings := AList.update s b (session_bindings q)\<rparr>) = (binding_of q)(s \<mapsto> b)"
  "known_of (r\<lparr>deferred_releases := x3\<rparr>) = known_of r" "name_of (r\<lparr>deferred_releases := x3\<rparr>) = name_of r"
  "active_of (r\<lparr>deferred_releases := x3\<rparr>) = active_of r" "binding_of (r\<lparr>deferred_releases := x3\<rparr>) = binding_of r"
  "known_of (r\<lparr>gates := x4\<rparr>) = known_of r" "name_of (r\<lparr>gates := x4\<rparr>) = name_of r"
  "active_of (r\<lparr>gates := x4\<rparr>) = active_of r" "binding_of (r\<lparr>gates := x4\<rparr>) = binding_of r"
  "known_of (r\<lparr>next_generation := x5\<rparr>) = known_of r" "name_of (r\<lparr>next_generation := x5\<rparr>) = name_of r"
  "active_of (r\<lparr>next_generation := x5\<rparr>) = active_of r" "binding_of (r\<lparr>next_generation := x5\<rparr>) = binding_of r"
  "known_of (r\<lparr>next_transfer_id := x6\<rparr>) = known_of r" "name_of (r\<lparr>next_transfer_id := x6\<rparr>) = name_of r"
  "active_of (r\<lparr>next_transfer_id := x6\<rparr>) = active_of r" "binding_of (r\<lparr>next_transfer_id := x6\<rparr>) = binding_of r"
  "known_of (r\<lparr>next_user_no := x7\<rparr>) = known_of r" "name_of (r\<lparr>next_user_no := x7\<rparr>) = name_of r"
  "active_of (r\<lparr>next_user_no := x7\<rparr>) = active_of r" "binding_of (r\<lparr>next_user_no := x7\<rparr>) = binding_of r"
  by (simp_all add: view_defs)

text \<open>The invariant does not depend on the order of the table of active identities.\<close>

lemma registry_inv_cong:
  assumes "registry_inv u r" "keys_distinct (active_by_name r')" "active_of r' = active_of r"
    "known_of r' = known_of r" "name_of r' = name_of r" "binding_of r' = binding_of r"
    "deferred_releases r' = deferred_releases r" "gates r' = gates r" "next_user_no r' = next_user_no r"
    "next_generation r' = next_generation r" "next_transfer_id r' = next_transfer_id r"
  shows "registry_inv u r'"
  using assms by (simp add: registry_inv_defs active_ok_def)

lemma inv_next_generation:
  assumes "registry_inv u r" "checked_succ (next_generation r) = Some n"
  shows "registry_inv u (r\<lparr>next_generation := n\<rparr>)"
  using assms(1) checked_succ_SomeD [OF assms(2)]
  by (simp add: registry_inv_defs active_ok_def word_gt_0)

lemma inv_next_transfer_id:
  assumes "registry_inv u r" "checked_succ (next_transfer_id r) = Some n"
  shows "registry_inv u (r\<lparr>next_transfer_id := n\<rparr>)"
  using assms(1) checked_succ_SomeD [OF assms(2)]
  by (simp add: registry_inv_defs active_ok_def word_gt_0)

lemma inv_next_user_no:
  assumes "registry_inv u r" "checked_succ (next_user_no r) = Some n"
  shows "registry_inv u (r\<lparr>next_user_no := n\<rparr>)"
  using assms(1) checked_succ_SomeD [OF assms(2)]
  by (simp add: registry_inv_defs active_ok_def word_gt_0)

lemma inv_alloc_gate:
  assumes "registry_inv u r"
  shows "registry_inv u (r\<lparr>gates := gates r @ [gate_shared epoch]\<rparr>)"
  using assms
  by (simp add: registry_inv_defs active_ok_def nth_append less_Suc_eq gate_shared_def
      gate_open_def gate_retired_def)

lemma gates_inv_set_gate:
  assumes "gates_inv r" "og_state g = gate_retired \<Longrightarrow> og_active_operations g = 0"
  shows "gates_inv (set_gate i g r)"
  unfolding gates_inv_def views_set_gate length_list_update
proof (intro allI impI)
  fix j assume j: "j < length (gates r)" "og_state ((gates r)[i := g] ! j) = gate_retired"
  with assms show "og_active_operations ((gates r)[i := g] ! j) = 0"
    by (cases "i = j") (auto simp: gates_inv_def)
qed

text \<open>A gate changed in place without a change of its state.\<close>

lemma inv_set_gate_same_state:
  assumes "registry_inv u r" "i < length (gates r)" "og_state g = og_state (gates r ! i)"
    "og_state g = gate_retired \<Longrightarrow> og_active_operations g = 0"
  shows "registry_inv u (set_gate i g r)"
  using assms by (simp add: registry_inv_defs active_ok_def nth_list_update)

text \<open>The gate of no active identity changed in place.\<close>

lemma inv_set_gate_unused:
  assumes "registry_inv u r" "\<forall>k a. active_of r k = Some a \<longrightarrow> ai_gate a \<noteq> i"
    "og_state g = gate_retired \<Longrightarrow> og_active_operations g = 0"
  shows "registry_inv u (set_gate i g r)"
proof (cases "i < length (gates r)")
  case True
  have other: "(gates r)[i := g] ! ai_gate a = gates r ! ai_gate a" if "active_of r k = Some a" for k a
    using assms(2) that by (metis nth_list_update_neq)
  have "active_inv (set_gate i g r)"
    using assms(1) other by (simp add: registry_inv_def active_inv_def active_ok_def)
  moreover have "gates_inv (set_gate i g r)"
    using assms(1,3) by (simp add: registry_inv_def gates_inv_set_gate)
  moreover have "known_inv u (set_gate i g r)" "binding_inv u (set_gate i g r)" "deferred_inv (set_gate i g r)"
    using assms(1) by (simp_all add: registry_inv_def known_inv_def binding_inv_def deferred_inv_def)
  ultimately show ?thesis by (simp add: registry_inv_def)
next
  case False
  then have "set_gate i g r = r" by (cases r) (simp add: set_gate_def list_update_beyond not_less)
  with assms(1) show ?thesis by simp
qed

text \<open>An active identity changed in place together with the state of its gate.\<close>

lemma inv_set_active:
  assumes inv: "registry_inv u r" and a: "active_of r k = Some a"
    and same: "ai_known a' = ai_known a" "ai_generation a' = ai_generation a" "ai_gate a' = ai_gate a"
    and g: "og_state g = gate_state_of (ai_transfer a')" "og_state g = gate_retired \<Longrightarrow> og_active_operations g = 0"
    and ok: "\<forall>t. ai_transfer a' = Some t \<longrightarrow> 0 < t \<and> t < next_transfer_id r \<and> ai_permit a' \<noteq> None"
      "ai_permit a' = None \<longrightarrow> ai_owner a' \<noteq> None"
      "\<forall>p. ai_permit a' = Some p \<longrightarrow> permit_ok a' p"
      "\<forall>s. ai_owner a' = Some s \<longrightarrow> binding_of r s = Some (identity_binding_of a' s)"
  shows "registry_inv u (set_active k a' (set_gate (ai_gate a) g r))"
proof -
  from inv a have aok: "active_ok r k a" by (simp add: registry_inv_defs)
  have uniq: "ai_gate b \<noteq> ai_gate a" if "active_of r k' = Some b" "k' \<noteq> k" for k' b
    using inv a that unfolding registry_inv_defs by metis
  have "active_inv (set_active k a' (set_gate (ai_gate a) g r))"
    unfolding active_inv_def
  proof (intro conjI allI impI)
    show "keys_distinct (active_by_name (set_active k a' (set_gate (ai_gate a) g r)))"
      using inv by (simp add: registry_inv_defs)
    fix k' b
    assume b: "active_of (set_active k a' (set_gate (ai_gate a) g r)) k' = Some b"
    show "active_ok (set_active k a' (set_gate (ai_gate a) g r)) k' b"
    proof (cases "k' = k")
      case True
      with b aok same g ok show ?thesis by (simp add: active_ok_def)
    next
      case False
      with b have "active_of r k' = Some b" by simp
      with inv uniq [OF this False] show ?thesis by (simp add: registry_inv_defs active_ok_def)
    qed
  next
    fix k1 k2 a1 a2
    assume "active_of (set_active k a' (set_gate (ai_gate a) g r)) k1 = Some a1 \<and>
       active_of (set_active k a' (set_gate (ai_gate a) g r)) k2 = Some a2 \<and>
       (ai_generation a1 = ai_generation a2 \<or> ai_gate a1 = ai_gate a2)"
    with inv a same show "k1 = k2"
      by (simp add: registry_inv_defs split: if_splits)
  qed
  moreover have "deferred_inv (set_active k a' (set_gate (ai_gate a) g r))"
  proof -
    have k: "dr_canonical_nickname d \<noteq> k" if "d \<in> set (deferred_releases r)" for d
      using inv a that unfolding registry_inv_def deferred_inv_def by fastforce
    have gate: "ai_gate a' \<noteq> dr_gate d" if "d \<in> set (deferred_releases r)" for d
      using inv a that same unfolding registry_inv_def deferred_inv_def by fastforce
    from inv k gate show ?thesis by (simp add: registry_inv_def deferred_inv_def)
  qed
  moreover have "gates_inv (set_active k a' (set_gate (ai_gate a) g r))"
    using inv g(2) gates_inv_set_gate [of r g "ai_gate a"] by (simp add: registry_inv_def gates_inv_def)
  moreover have "known_inv u (set_active k a' (set_gate (ai_gate a) g r))"
      "binding_inv u (set_active k a' (set_gate (ai_gate a) g r))"
    using inv by (simp_all add: registry_inv_def known_inv_def binding_inv_def)
  ultimately show ?thesis by (simp add: registry_inv_def)
qed

text \<open>A session that owns no active identity loses its binding.\<close>

lemma inv_forget_session:
  assumes "registry_inv u r" "\<forall>k a. active_of r k = Some a \<longrightarrow> ai_owner a \<noteq> Some s"
  shows "registry_inv u (r\<lparr>session_bindings := AList.delete s (session_bindings r)\<rparr>)"
proof -
  let ?r = "r\<lparr>session_bindings := AList.delete s (session_bindings r)\<rparr>"
  have b: "binding_of ?r = (binding_of r)(s := None)" by (rule views_update)
  have "active_inv ?r" using assms by (simp add: registry_inv_def active_inv_def active_ok_def b)
  moreover have "binding_inv u ?r" using assms(1) by (simp add: registry_inv_def binding_inv_def b)
  moreover have "known_inv u ?r" "deferred_inv ?r" "gates_inv ?r"
    using assms(1) by (simp_all add: registry_inv_defs)
  ultimately show ?thesis by (simp add: registry_inv_def)
qed

lemma inv_remove_active:
  assumes "registry_inv u r"
  shows "registry_inv u (r\<lparr>active_by_name := AList.delete k (active_by_name r)\<rparr>)"
proof -
  let ?r = "r\<lparr>active_by_name := AList.delete k (active_by_name r)\<rparr>"
  have a: "active_of ?r = (active_of r)(k := None)" by (rule views_update)
  have "active_inv ?r" using assms by (simp add: registry_inv_def active_inv_def active_ok_def a)
  moreover have "deferred_inv ?r" using assms by (simp add: registry_inv_def deferred_inv_def a)
  moreover have "known_inv u ?r" "binding_inv u ?r" "gates_inv ?r"
    using assms by (simp_all add: registry_inv_defs)
  ultimately show ?thesis by (simp add: registry_inv_def)
qed

text \<open>A new generation of an identity is installed.\<close>

lemma inv_install:
  assumes inv: "registry_inv u r" and known: "known_of r k = Some (ai_known a)"
    and gen: "0 < ai_generation a" "ai_generation a < next_generation r"
      "\<forall>k' b. active_of r k' = Some b \<longrightarrow> k' \<noteq> k \<longrightarrow> ai_generation b \<noteq> ai_generation a"
      "\<forall>s b. binding_of r s = Some b \<longrightarrow> ib_generation b \<noteq> ai_generation a"
    and gate: "ai_gate a < length (gates r)" "og_state (gates r ! ai_gate a) = gate_open"
      "\<forall>k' b. active_of r k' = Some b \<longrightarrow> k' \<noteq> k \<longrightarrow> ai_gate b \<noteq> ai_gate a"
      "\<forall>d\<in>set (deferred_releases r). dr_gate d \<noteq> ai_gate a \<and> dr_canonical_nickname d \<noteq> k"
    and fresh: "binding_of r s = None" "ai_owner a = Some s" "ai_permit a = None" "ai_transfer a = None"
  shows "registry_inv u ((set_active k a r)\<lparr>session_bindings :=
      AList.update s (identity_binding_of a s) (session_bindings r)\<rparr>)"
    (is "registry_inv u ?r")
proof -
  have canon: "canonical_nickname_key u (ki_nickname (ai_known a)) = k"
    using inv known by (simp add: registry_inv_defs)
  have b: "binding_of ?r = (binding_of r)(s \<mapsto> identity_binding_of a s)"
    by (simp add: set_active_def view_defs)
  have views: "known_of ?r = known_of r" "name_of ?r = name_of r"
    "active_of ?r = (active_of r)(k \<mapsto> a)" "next_user_no ?r = next_user_no r"
    "next_generation ?r = next_generation r" "next_transfer_id ?r = next_transfer_id r"
    "gates ?r = gates r" "deferred_releases ?r = deferred_releases r"
    by simp_all
  have "known_inv u ?r" using inv by (simp add: registry_inv_defs)
  moreover have "active_inv ?r"
    unfolding active_inv_def
  proof (intro conjI allI impI)
    show "keys_distinct (active_by_name ?r)" using inv by (simp add: registry_inv_defs)
    fix k' c assume c: "active_of ?r k' = Some c"
    show "active_ok ?r k' c"
    proof (cases "k' = k")
      case True
      with c have c: "c = a" by simp
      show ?thesis unfolding c True using known gen gate fresh
        by (simp add: active_ok_def b gate_state_of_def)
    next
      case False
      with c have "active_of r k' = Some c" by simp
      with inv have ok: "active_ok r k' c" by (simp add: registry_inv_defs)
      moreover from ok fresh(1) have "ai_owner c \<noteq> Some s" by (auto simp: active_ok_def)
      ultimately show ?thesis by (auto simp: active_ok_def b)
    qed
  next
    fix k1 k2 a1 a2
    assume "active_of ?r k1 = Some a1 \<and> active_of ?r k2 = Some a2 \<and>
       (ai_generation a1 = ai_generation a2 \<or> ai_gate a1 = ai_gate a2)"
    then show "k1 = k2"
      using inv gen(3) gate(3) unfolding registry_inv_def active_inv_def views
      by (cases "k1 = k"; cases "k2 = k") (fastforce, fastforce, fastforce, force)
  qed
  moreover have "binding_inv u ?r"
  proof -
    have ig: "ib_generation (identity_binding_of a s) = ai_generation a" by (simp add: identity_binding_of_def)
    then have "0 < ib_generation (identity_binding_of a s) \<and>
        ib_generation (identity_binding_of a s) < next_generation r"
      using gen by simp
    moreover have "known_of r (canonical_nickname_key u (ib_nickname (identity_binding_of a s))) =
        Some \<lparr>ki_nickname = ib_nickname (identity_binding_of a s), ki_user_no = ib_user_no (identity_binding_of a s)\<rparr>"
      using known canon by (simp add: identity_binding_of_def)
    moreover have "ib_owner (identity_binding_of a s) = s" by (simp add: identity_binding_of_def)
    ultimately have "\<forall>s' b'. binding_of ?r s' = Some b' \<longrightarrow>
        ib_owner b' = s' \<and> 0 < ib_generation b' \<and> ib_generation b' < next_generation r \<and>
        known_of r (canonical_nickname_key u (ib_nickname b')) =
          Some \<lparr>ki_nickname = ib_nickname b', ki_user_no = ib_user_no b'\<rparr>"
      using inv gen unfolding registry_inv_def binding_inv_def b by simp
    moreover have "s1 = s2" if "binding_of ?r s1 = Some b1 \<and> binding_of ?r s2 = Some b2 \<and>
        ib_generation b1 = ib_generation b2" for s1 s2 b1 b2
    proof -
      have uniq: "t1 = t2" if "binding_of r t1 = Some c1" "binding_of r t2 = Some c2"
          "ib_generation c1 = ib_generation c2" for t1 t2 c1 c2
        using inv that unfolding registry_inv_def binding_inv_def by metis
      have new: "ib_generation c \<noteq> ai_generation a" if "binding_of r t = Some c" for t c
        using gen(4) that by blast
      have old: "t = s \<and> ib_generation c = ai_generation a \<or> t \<noteq> s \<and> binding_of r t = Some c"
        if "binding_of ?r t = Some c" for t c
        using that ig unfolding b by (metis fun_upd_apply option.inject)
      show ?thesis using old [of s1 b1] old [of s2 b2] that new uniq by metis
    qed
    ultimately show ?thesis unfolding binding_inv_def views by blast
  qed
  moreover have "deferred_inv ?r" using inv gate(4) by (auto simp: registry_inv_defs)
  moreover have "gates_inv ?r" using inv by (simp add: registry_inv_defs)
  ultimately show ?thesis by (simp add: registry_inv_def)
qed

text \<open>An identity without an entry in the table of the active ones is released or deferred.\<close>

lemma release_or_defer_cases:
  "release_or_defer k a r =
     (if gate_is_drained (gates r ! ai_gate a)
      then (True, set_gate (ai_gate a) ((gates r ! ai_gate a)\<lparr>og_state := gate_retired\<rparr>) r)
      else (False, (set_gate (ai_gate a) (gates r ! ai_gate a) r)\<lparr>deferred_releases :=
           deferred_releases r @ [\<lparr>dr_canonical_nickname = k, dr_identity = released_identity_of a,
             dr_gate = ai_gate a\<rparr>]\<rparr>))"
  by (simp add: release_or_defer_def gate_retire_drained_def gate_is_drained_def Let_def)

lemma inv_release_or_defer:
  assumes inv: "registry_inv u r" and none: "active_of r k = None"
    and known: "known_of r k = Some (ai_known a)" and gate: "ai_gate a < length (gates r)"
    and unused: "\<forall>k' b. active_of r k' = Some b \<longrightarrow> ai_gate b \<noteq> ai_gate a"
      "\<forall>d\<in>set (deferred_releases r). dr_gate d \<noteq> ai_gate a \<and> dr_canonical_nickname d \<noteq> k"
    and res: "release_or_defer k a r = (b, r')"
  shows "registry_inv u r'"
proof (cases "gate_is_drained (gates r ! ai_gate a)")
  case True
  with res have "r' = set_gate (ai_gate a) ((gates r ! ai_gate a)\<lparr>og_state := gate_retired\<rparr>) r"
    by (simp add: release_or_defer_cases)
  with inv unused(1) True show ?thesis
    by (auto intro!: inv_set_gate_unused simp: gate_is_drained_def)
next
  case False
  define d where "d = \<lparr>dr_canonical_nickname = k, dr_identity = released_identity_of a, dr_gate = ai_gate a\<rparr>"
  with res False have r': "r' = r\<lparr>deferred_releases := deferred_releases r @ [d]\<rparr>"
    by (simp add: release_or_defer_cases set_gate_def)
  have "deferred_inv r'"
    using inv none known gate unused
    by (force simp: registry_inv_defs r' d_def released_identity_of_def)
  then show ?thesis
    using inv unfolding r' registry_inv_def
    by (simp add: known_inv_def active_inv_def active_ok_def binding_inv_def gates_inv_def)
qed

end
