(* ===== verification/IdentityOps.thy ===== *)
theory IdentityOps
  imports IdentityInv
begin

text \<open>
  Every operation of the identity registry satisfies the contract \<open>registry_operation\<close>;
  the functional behaviour of the operations on their success and error paths.
\<close>

section \<open>Evolution of the registry\<close>

lemma evolves_same:
  assumes "known_of r' = known_of r" "next_user_no r' = next_user_no r"
    "next_generation r' = next_generation r" "next_transfer_id r' = next_transfer_id r"
    "gates r' = gates r"
  shows "evolves r r'"
  using assms by (simp add: evolves_def)

lemma evolves_set_gate:
  assumes "i < length (gates r) \<Longrightarrow> og_active_operations g = og_active_operations (gates r ! i)"
    "i < length (gates r) \<Longrightarrow> og_state (gates r ! i) = gate_retired \<Longrightarrow> og_state g = gate_retired"
  shows "evolves r (set_gate i g r)"
  unfolding evolves_def
proof (intro conjI allI impI)
  fix j assume j: "j < length (gates r)"
  then show "og_active_operations (gates (set_gate i g r) ! j) = og_active_operations (gates r ! j)"
    using assms(1) by (cases "i = j") auto
  assume "og_state (gates r ! j) = gate_retired"
  with j show "og_state (gates (set_gate i g r) ! j) = gate_retired"
    using assms(2) by (cases "i = j") auto
qed simp_all

lemma evolves_set_active [simp]: "evolves r (set_active k a r)"
  by (rule evolves_same) simp_all

lemma evolves_bindings [simp]:
  "evolves r (r\<lparr>session_bindings := x\<rparr>)" "evolves r (r\<lparr>active_by_name := y\<rparr>)"
  "evolves r (r\<lparr>deferred_releases := z\<rparr>)"
  by (rule evolves_same, simp_all)+

lemma evolves_counters:
  "checked_succ (next_generation r) = Some n \<Longrightarrow> evolves r (r\<lparr>next_generation := n\<rparr>)"
  "checked_succ (next_transfer_id r) = Some n \<Longrightarrow> evolves r (r\<lparr>next_transfer_id := n\<rparr>)"
  "checked_succ (next_user_no r) = Some m \<Longrightarrow> evolves r (r\<lparr>next_user_no := m\<rparr>)"
  by (simp_all add: evolves_def less_imp_le [OF checked_succ_SomeD(1)])

lemma evolves_alloc_gate: "evolves r (r\<lparr>gates := gates r @ [gate_shared epoch]\<rparr>)"
  by (auto simp: evolves_def nth_append gate_shared_def less_Suc_eq)

lemma evolves_release_or_defer:
  assumes "release_or_defer k a r = (b, r')" shows "evolves r r'"
proof (cases "gate_is_drained (gates r ! ai_gate a)")
  case True
  with assms have "r' = set_gate (ai_gate a) ((gates r ! ai_gate a)\<lparr>og_state := gate_retired\<rparr>) r"
    by (simp add: release_or_defer_cases)
  then show ?thesis by (auto intro: evolves_set_gate)
next
  case False
  with assms show ?thesis by (auto simp: release_or_defer_cases set_gate_def)
qed

section \<open>Known names\<close>

lemma allocate_user_no_Inr:
  assumes "allocate_user_no r = (Inr n, r1)"
  shows "\<exists>m. checked_succ (next_user_no r) = Some m \<and> n = next_user_no r \<and> n \<noteq> 0 \<and> r1 = r\<lparr>next_user_no := m\<rparr>"
  using assms by (auto simp: allocate_user_no_def Let_def split: option.splits if_splits)

lemma allocate_user_no_Inl:
  assumes "allocate_user_no r = (Inl e, r1)" "0 < next_user_no r"
  shows "r1 = r \<and> e = UserNoExhausted \<and> next_user_no r = - 1"
  using assms by (auto simp: allocate_user_no_def Let_def checked_succ_def split: option.splits if_splits)

lemma inv_known_insert:
  assumes inv: "registry_inv u r" and new: "known_of r k = None"
    and key: "canonical_nickname_key u name = k" and m: "checked_succ (next_user_no r) = Some m"
  shows "registry_inv u (r\<lparr>next_user_no := m,
      known_by_name := AList.update k \<lparr>ki_nickname = name, ki_user_no = next_user_no r\<rparr> (known_by_name r),
      name_by_user_no := AList.update (next_user_no r) k (name_by_user_no r)\<rparr>)"
    (is "registry_inv u ?r")
    and "evolves r (r\<lparr>next_user_no := m,
      known_by_name := AList.update k \<lparr>ki_nickname = name, ki_user_no = next_user_no r\<rparr> (known_by_name r),
      name_by_user_no := AList.update (next_user_no r) k (name_by_user_no r)\<rparr>)"
proof -
  let ?kn = "\<lparr>ki_nickname = name, ki_user_no = next_user_no r\<rparr>"
  have views: "known_of ?r = (known_of r)(k \<mapsto> ?kn)" "name_of ?r = (name_of r)(next_user_no r \<mapsto> k)"
    "active_of ?r = active_of r" "binding_of ?r = binding_of r" "next_user_no ?r = m"
    by (simp_all add: view_defs)
  have lt: "next_user_no r < m" "\<And>n. n < next_user_no r \<Longrightarrow> n < m"
    using checked_succ_SomeD [OF m] by auto
  have fresh: "name_of r (next_user_no r) = None"
    using inv by (cases "name_of r (next_user_no r)") (force simp: registry_inv_def known_inv_def)+
  have keep: "known_of ?r k' = Some kn" if "known_of r k' = Some kn" for k' kn
    using that new by (auto simp: views)
  have ki: "known_inv u r" using inv by (simp add: registry_inv_def)
  have "known_inv u ?r"
    unfolding known_inv_def
  proof (intro conjI allI impI)
    fix k' kn assume "known_of ?r k' = Some kn"
    then consider "k' = k" "kn = ?kn" | "k' \<noteq> k" "known_of r k' = Some kn"
      unfolding views by (metis fun_upd_apply option.inject)
    then have "canonical_nickname_key u (ki_nickname kn) = k' \<and> name_of ?r (ki_user_no kn) = Some k' \<and>
        0 < ki_user_no kn \<and> ki_user_no kn < m"
    proof cases
      case 1
      with key lt ki show ?thesis by (simp add: views known_inv_def)
    next
      case 2
      then have "canonical_nickname_key u (ki_nickname kn) = k'" "name_of r (ki_user_no kn) = Some k'"
          "0 < ki_user_no kn" "ki_user_no kn < next_user_no r"
        using ki by (simp_all add: known_inv_def)
      with lt(2) show ?thesis by (auto simp: views)
    qed
    then show "canonical_nickname_key u (ki_nickname kn) = k'" "name_of ?r (ki_user_no kn) = Some k'"
        "0 < ki_user_no kn" "ki_user_no kn < next_user_no ?r"
      by (simp_all add: views(5))
  next
    fix n k' assume "name_of ?r n = Some k'"
    with ki fresh new show "\<exists>kn. known_of ?r k' = Some kn \<and> ki_user_no kn = n"
      unfolding views known_inv_def by (auto split: if_splits) (metis option.distinct(1))
  next
    show "0 < next_user_no ?r" "0 < next_generation ?r" "0 < next_transfer_id ?r"
      using ki checked_succ_SomeD(3) [OF m] by (simp_all add: known_inv_def views word_gt_0)
  qed
  moreover have "active_inv ?r"
    using inv keep unfolding registry_inv_def active_inv_def active_ok_def views by simp
  moreover have "binding_inv u ?r"
    using inv keep unfolding registry_inv_def binding_inv_def views by simp
  moreover have "deferred_inv ?r"
    using inv keep unfolding registry_inv_def deferred_inv_def views by simp
  moreover have "gates_inv ?r" using inv by (simp add: registry_inv_def gates_inv_def)
  ultimately show "registry_inv u ?r" by (simp add: registry_inv_def)
  show "evolves r ?r"
    using keep less_imp_le [OF lt(1)] unfolding evolves_def views by simp
qed

text \<open>What \<open>ensure_known_user_no\<close> leaves untouched.\<close>

definition same_sessions :: "identity_registry \<Rightarrow> identity_registry \<Rightarrow> bool" where
  "same_sessions r r' \<longleftrightarrow>
     active_of r' = active_of r \<and> binding_of r' = binding_of r \<and>
     deferred_releases r' = deferred_releases r \<and> gates r' = gates r \<and>
     next_generation r' = next_generation r \<and> next_transfer_id r' = next_transfer_id r"

lemma ensure_known_cases:
  assumes "0 < next_user_no r"
  obtains (invalid) e where "normalize_nickname u requested = Inl e"
      "ensure_known_user_no u requested r = (Inl (InvalidNickname e), r)"
  | (known) name kn where "normalize_nickname u requested = Inr name"
      "known_of r (canonical_nickname_key u name) = Some kn"
      "ensure_known_user_no u requested r = (Inr (ki_user_no kn), r)"
  | (full) name where "normalize_nickname u requested = Inr name"
      "known_of r (canonical_nickname_key u name) = None" "next_user_no r = - 1"
      "ensure_known_user_no u requested r = (Inl UserNoExhausted, r)"
  | (new) name m where "normalize_nickname u requested = Inr name"
      "known_of r (canonical_nickname_key u name) = None" "checked_succ (next_user_no r) = Some m"
      "ensure_known_user_no u requested r = (Inr (next_user_no r), r\<lparr>next_user_no := m,
        known_by_name := AList.update (canonical_nickname_key u name)
          \<lparr>ki_nickname = name, ki_user_no = next_user_no r\<rparr> (known_by_name r),
        name_by_user_no := AList.update (next_user_no r) (canonical_nickname_key u name) (name_by_user_no r)\<rparr>)"
proof (cases "normalize_nickname u requested")
  case (Inl e)
  then show ?thesis by (intro invalid) (simp_all add: ensure_known_user_no_def)
next
  case (Inr name)
  note name = Inr
  show ?thesis
  proof (cases "known_of r (canonical_nickname_key u name)")
    case (Some kn)
    with name show ?thesis by (intro known) (simp_all add: ensure_known_user_no_def Let_def)
  next
    case None
    note none = None
    show ?thesis
    proof (cases "checked_succ (next_user_no r)")
      case None
      then have "next_user_no r = - 1" by (simp add: checked_succ_def split: if_splits)
      with name none show ?thesis
        by (intro full) (simp_all add: ensure_known_user_no_def allocate_user_no_def Let_def checked_succ_def)
    next
      case (Some m)
      with name none assms show ?thesis
        by (intro new) (simp_all add: ensure_known_user_no_def allocate_user_no_def Let_def word_gt_0)
    qed
  qed
qed

lemma ensure_known_ok:
  assumes inv: "registry_inv u r" and res: "ensure_known_user_no u requested r = (res, r')"
  shows "registry_inv u r' \<and> evolves r r' \<and> same_sessions r r' \<and>
    (\<forall>n. res = Inr n \<longrightarrow> (\<exists>name kn. normalize_nickname u requested = Inr name \<and>
          known_of r' (canonical_nickname_key u name) = Some kn \<and> ki_user_no kn = n))"
proof -
  have "0 < next_user_no r" using inv by (simp add: registry_inv_def known_inv_def)
  then show ?thesis
  proof (cases rule: ensure_known_cases [of r u requested])
    case (new name m)
    from inv_known_insert [OF inv new(2) refl new(3)] new res show ?thesis
      by (simp add: same_sessions_def view_defs)
  qed (use inv res in \<open>auto simp: same_sessions_def\<close>)
qed

lemma ensure_known_operation: "registry_operation u (\<lambda>r. snd (ensure_known_user_no u name r))"
  by unfold_locales (metis ensure_known_ok prod.collapse)+

lemma offline_myroom_operation: "registry_operation u (\<lambda>r. snd (offline_myroom_binding u requested r))"
proof
  fix r assume inv: "registry_inv u r"
  have "snd (offline_myroom_binding u requested r) = r \<or>
      (\<exists>name. snd (offline_myroom_binding u requested r) = snd (ensure_known_user_no u name r))"
    by (auto simp: offline_myroom_binding_def Let_def split: sum.splits prod.splits option.splits)
      (metis snd_conv)+
  then show "registry_inv u (snd (offline_myroom_binding u requested r))"
      "evolves r (snd (offline_myroom_binding u requested r))"
    using inv registry_operation.keeps_inv [OF ensure_known_operation]
      registry_operation.keeps_past [OF ensure_known_operation] by auto
qed

section \<open>Claim\<close>

lemma allocate_generation_Inr:
  "allocate_generation r = (Inr gen, r1) \<Longrightarrow>
     \<exists>m. checked_succ (next_generation r) = Some m \<and> gen = next_generation r \<and> r1 = r\<lparr>next_generation := m\<rparr>"
  by (auto simp: allocate_generation_def Let_def split: option.splits if_splits)

lemma allocate_generation_ok:
  assumes "registry_inv u r" "allocate_generation r = (res, r1)"
  shows "registry_inv u r1 \<and> evolves r r1"
proof (cases "checked_succ (next_generation r)")
  case None
  with assms show ?thesis by (simp add: allocate_generation_def)
next
  case (Some m)
  with assms have "r1 = r\<lparr>next_generation := m\<rparr>"
    by (simp add: allocate_generation_def Let_def split: if_splits)
  with Some assms(1) show ?thesis by (simp add: inv_next_generation evolves_counters)
qed

text \<open>A fresh generation and gate installed for a key (the tail of \<open>claim_at\<close>).\<close>

lemma install_claimed:
  fixes ip :: ip_addr and epoch :: u64
  assumes inv: "registry_inv u r" and known: "known_of r k = Some kn"
    and fresh: "active_of r k = None" "binding_of r s = None"
      "\<forall>d\<in>set (deferred_releases r). dr_canonical_nickname d \<noteq> k"
    and m: "checked_succ (next_generation r) = Some m"
  defines "a \<equiv> \<lparr>ai_known = kn, ai_generation = next_generation r, ai_owner = Some s, ai_owner_ip = ip,
       ai_channel = None, ai_permit = None, ai_transfer = None, ai_gate = length (gates r)\<rparr>"
  defines "r1 \<equiv> r\<lparr>next_generation := m, gates := gates r @ [gate_shared epoch]\<rparr>"
  shows "registry_inv u ((set_active k a r1)\<lparr>session_bindings :=
      AList.update s (identity_binding_of a s) (session_bindings r1)\<rparr>)"
    and "evolves r ((set_active k a r1)\<lparr>session_bindings :=
      AList.update s (identity_binding_of a s) (session_bindings r1)\<rparr>)"
proof -
  have inv1: "registry_inv u r1"
    using inv_alloc_gate [OF inv_next_generation [OF inv m]] unfolding r1_def by simp
  have pos: "0 < next_generation r" using inv by (simp add: registry_inv_def known_inv_def)
  have views: "active_of r1 = active_of r" "binding_of r1 = binding_of r" "known_of r1 = known_of r"
    "next_generation r1 = m" "deferred_releases r1 = deferred_releases r"
    "gates r1 = gates r @ [gate_shared epoch]"
    by (simp_all add: r1_def)
  have old: "ai_gate b < length (gates r) \<and> ai_generation b < next_generation r"
    if "active_of r k' = Some b" for k' b
    using inv that by (simp add: registry_inv_def active_inv_def active_ok_def)
  have oldb: "ib_generation b < next_generation r" if "binding_of r s' = Some b" for s' b
    using inv that by (simp add: registry_inv_def binding_inv_def)
  have oldd: "dr_gate d < length (gates r)" if "d \<in> set (deferred_releases r)" for d
    using inv that by (simp add: registry_inv_def deferred_inv_def)
  show "registry_inv u ((set_active k a r1)\<lparr>session_bindings :=
      AList.update s (identity_binding_of a s) (session_bindings r1)\<rparr>)"
  proof (rule inv_install [OF inv1])
    show "\<forall>k' b. active_of r1 k' = Some b \<longrightarrow> k' \<noteq> k \<longrightarrow> ai_generation b \<noteq> ai_generation a"
      using old by (fastforce simp: views a_def)
    show "\<forall>s b. binding_of r1 s = Some b \<longrightarrow> ib_generation b \<noteq> ai_generation a"
      using oldb by (fastforce simp: views a_def)
    show "\<forall>k' b. active_of r1 k' = Some b \<longrightarrow> k' \<noteq> k \<longrightarrow> ai_gate b \<noteq> ai_gate a"
      using old by (fastforce simp: views a_def)
    show "\<forall>d\<in>set (deferred_releases r1). dr_gate d \<noteq> ai_gate a \<and> dr_canonical_nickname d \<noteq> k"
      using oldd fresh(3) by (fastforce simp: views a_def)
  qed (use known fresh pos checked_succ_SomeD(1) [OF m] in \<open>simp_all add: views a_def gate_shared_def\<close>)
  have "evolves r r1"
    using evolves_trans [OF evolves_counters(1) [OF m] evolves_alloc_gate, of epoch]
    by (simp add: r1_def)
  then show "evolves r ((set_active k a r1)\<lparr>session_bindings :=
      AList.update s (identity_binding_of a s) (session_bindings r1)\<rparr>)"
    by (rule evolves_trans) (rule evolves_same; simp)
qed

text \<open>The branches of \<open>claim_at\<close> that may change the registry.\<close>

lemma claim_at_cases:
  obtains (rejected) e where "claim_at u s ip requested epoch r = (Inl e, r)"
  | (unknown) name e r1 where "claim_at u s ip requested epoch r = (Inl e, r1)"
      "r1 = snd (ensure_known_user_no u name r)"
  | (numbered) name n r1 e r2 where "claim_at u s ip requested epoch r = (Inl e, r2)"
      "ensure_known_user_no u name r = (Inr n, r1)" "allocate_generation r1 = (Inl e, r2)"
  | (claimed) name n kn r1 m where
      "normalize_nickname u requested = Inr name" "binding_of r s = None"
      "active_of r (canonical_nickname_key u name) = None"
      "\<forall>d\<in>set (deferred_releases r). dr_canonical_nickname d \<noteq> canonical_nickname_key u name"
      "ensure_known_user_no u name r = (Inr n, r1)"
      "known_of r1 (canonical_nickname_key u name) = Some kn"
      "checked_succ (next_generation r1) = Some m"
      "claim_at u s ip requested epoch r =
        (let a = \<lparr>ai_known = kn, ai_generation = next_generation r1, ai_owner = Some s, ai_owner_ip = ip,
             ai_channel = None, ai_permit = None, ai_transfer = None, ai_gate = length (gates r1)\<rparr>;
           r2 = r1\<lparr>next_generation := m, gates := gates r1 @ [gate_shared epoch]\<rparr>
         in (Inr (identity_binding_of a s), (set_active (canonical_nickname_key u name) a r2)\<lparr>session_bindings :=
           AList.update s (identity_binding_of a s) (session_bindings r2)\<rparr>))"
proof (cases "normalize_nickname u requested")
  case (Inl e)
  then show ?thesis by (intro rejected [of "if trim requested = [] then EmptyNickname else InvalidNickname e"])
    (simp add: claim_at_def)
next
  case (Inr name)
  note name = Inr
  let ?k = "canonical_nickname_key u name"
  show ?thesis
  proof (cases "trim requested = [] \<or> binding_of r s \<noteq> None \<or> active_of r ?k \<noteq> None \<or>
      List.find (\<lambda>d. dr_canonical_nickname d = ?k) (deferred_releases r) \<noteq> None")
    case True
    then have "\<exists>e. claim_at u s ip requested epoch r = (Inl e, r)"
      using name by (auto simp: claim_at_def Let_def split: option.splits)
    with rejected show ?thesis by blast
  next
    case False
    then have ok: "trim requested \<noteq> []" "binding_of r s = None" "active_of r ?k = None"
      "List.find (\<lambda>d. dr_canonical_nickname d = ?k) (deferred_releases r) = None" by auto
    then have d: "\<forall>d\<in>set (deferred_releases r). dr_canonical_nickname d \<noteq> ?k"
      by (auto simp: find_None_iff)
    obtain res r1 where ek: "ensure_known_user_no u name r = (res, r1)" by fastforce
    show ?thesis
    proof (cases res)
      case (Inl e)
      with ek name ok show ?thesis by (intro unknown [of e r1 name]) (simp_all add: claim_at_def Let_def)
    next
      case (Inr n)
      note n = Inr
      show ?thesis
      proof (cases "known_of r1 ?k")
        case None
        with ek name ok n show ?thesis
          by (intro unknown [of "IPanic ''known nickname mapping''" r1 name]) (simp_all add: claim_at_def Let_def)
      next
        case (Some kn)
        note kn = Some
        obtain gres r2 where g: "allocate_generation r1 = (gres, r2)" by fastforce
        show ?thesis
        proof (cases gres)
          case (Inl e)
          with ek name ok n kn g show ?thesis
            by (intro numbered [of e r2 name n r1]) (simp_all add: claim_at_def Let_def)
        next
          case (Inr gen)
          with g allocate_generation_Inr obtain m where m: "checked_succ (next_generation r1) = Some m"
            "gen = next_generation r1" "r2 = r1\<lparr>next_generation := m\<rparr>" by blast
          have "known_of r1 ?k = Some kn" by (rule kn)
          with ek name ok n g Inr m show ?thesis
            by (intro claimed [OF name ok(2,3) d])
              (simp_all add: claim_at_def Let_def alloc_gate_def identity_binding_of_def)
        qed
      qed
    qed
  qed
qed

lemma claim_at_operation: "registry_operation u (\<lambda>r. snd (claim_at u s ip requested epoch r))"
proof
  fix r assume inv: "registry_inv u r"
  have "registry_inv u (snd (claim_at u s ip requested epoch r)) \<and>
      evolves r (snd (claim_at u s ip requested epoch r))"
  proof (cases rule: claim_at_cases [of u s ip requested epoch r])
    case (rejected e)
    with inv show ?thesis by simp
  next
    case (unknown name e r1)
    with inv ensure_known_ok [of u r name] show ?thesis by (metis prod.collapse snd_conv)
  next
    case (numbered name n r1 e r2)
    with ensure_known_ok [OF inv numbered(2)] allocate_generation_ok [of u r1 _ r2]
    show ?thesis by (metis evolves_trans snd_conv)
  next
    case (claimed name n kn r1 m)
    note ek = ensure_known_ok [OF inv claimed(5)]
    then have "same_sessions r r1" "registry_inv u r1" "evolves r r1" by auto
    with claimed install_claimed [of u r1 "canonical_nickname_key u name" kn s m ip epoch]
    show ?thesis by (simp add: same_sessions_def Let_def) (meson evolves_trans)
  qed
  then show "registry_inv u (snd (claim_at u s ip requested epoch r))"
      "evolves r (snd (claim_at u s ip requested epoch r))" by auto
qed

section \<open>Authorization and leases\<close>

lemma active_okD:
  assumes "registry_inv u r" "active_of r k = Some a"
  shows "active_ok r k a"
  using assms by (simp add: registry_inv_def active_inv_def)

lemma authorize_Inr:
  assumes inv: "registry_inv u r" and ok: "authorize u s r = Inr b"
  obtains a where "binding_of r s = Some b"
    "active_of r (canonical_nickname_key u (ib_nickname b)) = Some a"
    "ai_owner a = Some s" "ai_transfer a = None" "b = identity_binding_of a s"
proof -
  from ok obtain a where a: "binding_of r s = Some b"
      "active_of r (canonical_nickname_key u (ib_nickname b)) = Some a"
      "ai_owner a = Some s" "ai_transfer a = None"
    by (auto simp: authorize_def split: option.splits if_splits)
  with active_okD [OF inv a(2)] have "b = identity_binding_of a s"
    by (simp add: active_ok_def)
  with a that show ?thesis by blast
qed

text \<open>Conversely the owner of an identity that is not frozen is authorized.\<close>

lemma authorize_owner:
  assumes inv: "registry_inv u r" and a: "active_of r k = Some a" "ai_owner a = Some s"
  shows "authorize u s r = (if ai_transfer a = None then Inr (identity_binding_of a s)
     else Inl (TransferInProgress (ki_nickname (ai_known a))))"
proof -
  from active_okD [OF inv a(1)] have ok: "active_ok r k a" .
  with inv have "canonical_nickname_key u (ki_nickname (ai_known a)) = k"
    by (simp add: active_ok_def registry_inv_def known_inv_def)
  moreover have "binding_of r s = Some (identity_binding_of a s)" using ok a by (simp add: active_ok_def)
  ultimately show ?thesis using a by (simp add: authorize_def identity_binding_of_def)
qed

section \<open>Permits, freezing and abort\<close>

lemma set_gate_same: "set_gate i (gates r ! i) r = r"
  by (cases r) (simp add: set_gate_def)

lemma set_active_inv:
  assumes "registry_inv u r" "active_of r k = Some a"
    "ai_known a' = ai_known a" "ai_generation a' = ai_generation a" "ai_gate a' = ai_gate a"
    "ai_transfer a' = ai_transfer a"
    "\<forall>t. ai_transfer a' = Some t \<longrightarrow> ai_permit a' \<noteq> None"
    "ai_permit a' = None \<longrightarrow> ai_owner a' \<noteq> None"
    "\<forall>p. ai_permit a' = Some p \<longrightarrow> permit_ok a' p"
    "\<forall>s. ai_owner a' = Some s \<longrightarrow> binding_of r s = Some (identity_binding_of a' s)"
  shows "registry_inv u (set_active k a' r)"
proof -
  have ok: "active_ok r k a" by (rule active_okD [OF assms(1,2)])
  have same: "set_gate (ai_gate a) (gates r ! ai_gate a) r = r"
    by (cases r) (simp add: set_gate_def)
  have "registry_inv u (set_active k a' (set_gate (ai_gate a) (gates r ! ai_gate a) r))"
    using assms ok by (intro inv_set_active) (auto simp: active_ok_def registry_inv_def gates_inv_def)
  then show ?thesis by (simp only: same)
qed

lemma begin_migration_operation: "registry_operation u (\<lambda>r. snd (begin_migration u s channel token now r))"
proof
  fix r assume inv: "registry_inv u r"
  have "registry_inv u (snd (begin_migration u s channel token now r)) \<and>
      evolves r (snd (begin_migration u s channel token now r))"
  proof (cases "authorize u s r")
    case (Inl e)
    with inv show ?thesis by (simp add: begin_migration_def)
  next
    case (Inr b)
    then obtain a where a: "binding_of r s = Some b"
        "active_of r (canonical_nickname_key u (ib_nickname b)) = Some a"
        "ai_owner a = Some s" "ai_transfer a = None" "b = identity_binding_of a s"
      by (rule authorize_Inr [OF inv])
    let ?k = "canonical_nickname_key u (ib_nickname b)"
    have upd: "registry_inv u (set_active ?k (a\<lparr>ai_permit := Some p\<rparr>) r)"
      if "permit_ok (a\<lparr>ai_permit := Some p\<rparr>) p" for p
      using active_okD [OF inv a(2)] that
      by (intro set_active_inv [OF inv a(2)]) (simp_all add: active_ok_def identity_binding_of_def)
    show ?thesis
    proof (cases "instant_checked_add now migration_ttl")
      case None
      with inv Inr show ?thesis by (simp add: begin_migration_def)
    next
      case (Some t)
      define p where "p = \<lparr>mp_user_no = ib_user_no b, mp_source_generation = ib_generation b,
        mp_source_session = s, mp_source_ip = ib_source_ip b, mp_channel = channel, mp_token = token,
        mp_expires_at = t\<rparr>"
      have "permit_ok (a\<lparr>ai_permit := Some p\<rparr>) p"
        using a(3,5) by (simp add: permit_ok_def p_def identity_binding_of_def)
      moreover have "snd (begin_migration u s channel token now r) = set_active ?k (a\<lparr>ai_permit := Some p\<rparr>) r"
        using Inr Some a(2) by (simp add: begin_migration_def Let_def p_def)
      ultimately show ?thesis using upd by simp
    qed
  qed
  then show "registry_inv u (snd (begin_migration u s channel token now r))"
      "evolves r (snd (begin_migration u s channel token now r))" by auto
qed

text \<open>What a successful \<open>validate_migration\<close> has established.\<close>

lemma validate_migration_Inr:
  "validate_migration d ip user ch token now r = Inr (k, a, p) \<longleftrightarrow>
     binding_of r d = None \<and> name_of r user = Some k \<and> active_of r k = Some a \<and>
     ai_permit a = Some p \<and> now < mp_expires_at p \<and> mp_user_no p = user \<and>
     cb_channel_id (mp_channel p) = ch \<and> mp_token p = token \<and> mp_source_ip p = ip \<and>
     mp_source_generation p = ai_generation a \<and>
     (\<forall>owner. ai_owner a = Some owner \<longrightarrow> owner = mp_source_session p)"
  (is "?lhs \<longleftrightarrow> ?rhs")
proof
  assume ?rhs
  then show ?lhs by (cases "ai_owner a") (simp_all add: validate_migration_def)
next
  assume lhs: ?lhs
  then have key: "binding_of r d = None" "name_of r user = Some k"
    by (simp_all add: validate_migration_def split: option.splits if_splits)
  with lhs have a: "active_of r k = Some a" "ai_permit a = Some p"
    by (simp_all add: validate_migration_def split: option.splits if_splits)
  from lhs key a show ?rhs
    by (cases "ai_owner a") (simp_all add: validate_migration_def split: if_splits)
qed

text \<open>In a well-formed registry the permit checks that guard against stale state never fire.\<close>

lemma validate_migration_Inl:
  assumes inv: "registry_inv u r" and err: "validate_migration d ip user ch token now r = Inl e"
  shows "e \<noteq> StaleMigrationGeneration \<and> (\<forall>m. e \<noteq> IPanic m)"
proof (cases "name_of r user")
  case None
  with err show ?thesis by (auto simp: validate_migration_def split: option.splits)
next
  case (Some k)
  with inv obtain kn where kn: "known_of r k = Some kn"
    unfolding registry_inv_def known_inv_def by blast
  show ?thesis
  proof (cases "active_of r k")
    case None
    with err Some kn show ?thesis by (auto simp: validate_migration_def split: option.splits)
  next
    case (Some a)
    with active_okD [OF inv Some] err kn \<open>name_of r user = Some k\<close> show ?thesis
      by (cases "ai_permit a"; cases "ai_owner a")
        (auto simp: validate_migration_def active_ok_def permit_ok_def split: option.splits if_splits)
  qed
qed

lemma allocate_transfer_id_Inr:
  "allocate_transfer_id r = (Inr t, r1) \<Longrightarrow>
     \<exists>m. checked_succ (next_transfer_id r) = Some m \<and> t = next_transfer_id r \<and> t \<noteq> 0 \<and>
        r1 = r\<lparr>next_transfer_id := m\<rparr>"
  by (auto simp: allocate_transfer_id_def Let_def split: option.splits if_splits)

lemma allocate_transfer_id_ok:
  assumes "registry_inv u r" "allocate_transfer_id r = (res, r1)"
  shows "registry_inv u r1 \<and> evolves r r1"
proof (cases "checked_succ (next_transfer_id r)")
  case None
  with assms show ?thesis by (simp add: allocate_transfer_id_def)
next
  case (Some m)
  with assms have "r1 = r\<lparr>next_transfer_id := m\<rparr>"
    by (simp add: allocate_transfer_id_def Let_def split: if_splits)
  with Some assms(1) show ?thesis by (simp add: inv_next_transfer_id evolves_counters)
qed

lemma not_retired: "checked_succ v = Some n \<Longrightarrow> v \<noteq> gate_retired"
  by (simp add: gate_retired_def checked_succ_SomeD(4))

text \<open>A transfer ID is never the marker of a retired gate.\<close>

lemma transfer_not_retired:
  assumes "t < next_transfer_id r" shows "t \<noteq> gate_retired"
  using assms by (auto simp: gate_retired_def)

lemma active_gate_not_retired:
  assumes "registry_inv u r" "active_of r k = Some a"
  shows "og_state (gates r ! ai_gate a) \<noteq> gate_retired"
  using active_okD [OF assms] transfer_not_retired
  by (cases "ai_transfer a") (auto simp: active_ok_def gate_state_of_def gate_open_def gate_retired_def)

text \<open>The successful branch of \<open>preflight_migration\<close>.\<close>

lemma preflight_migration_Inr:
  assumes inv: "registry_inv u r" and res: "preflight_migration d ip user ch token now r = (Inr pf, r')"
  obtains k a p m where
    "validate_migration d ip user ch token now r = Inr (k, a, p)" "ai_transfer a = None"
    "checked_succ (next_transfer_id r) = Some m" "pf_transfer_id pf = next_transfer_id r"
    "pf_gate pf = ai_gate a" "pf_canonical_nickname pf = k" "pf_nickname pf = ki_nickname (ai_known a)"
    "pf_user_no pf = user" "pf_destination_session pf = d" "pf_destination_ip pf = ip"
    "pf_channel_id pf = ch" "pf_token pf = token" "pf_channel pf = mp_channel p"
    "pf_source_generation pf = ai_generation a" "pf_source_state pf = source_state_from_owner (ai_owner a)"
    "pf_source_session pf = mp_source_session p" "pf_expires_at pf = mp_expires_at p"
    "r' = set_active k (a\<lparr>ai_transfer := Some (next_transfer_id r)\<rparr>)
       (set_gate (ai_gate a) ((gates r ! ai_gate a)\<lparr>og_state := next_transfer_id r\<rparr>)
         (r\<lparr>next_transfer_id := m\<rparr>))"
proof (cases "validate_migration d ip user ch token now r")
  case (Inl e)
  with res show ?thesis by (simp add: preflight_migration_def)
next
  case (Inr v)
  obtain k a p where v: "v = (k, a, p)" by (cases v)
  have val: "validate_migration d ip user ch token now r = Inr (k, a, p)" using Inr v by simp
  have open_: "ai_transfer a = None"
    using res val by (simp add: preflight_migration_def split: if_splits)
  obtain tres r1 where t: "allocate_transfer_id r = (tres, r1)" by fastforce
  from res val open_ t obtain t' where "tres = Inr t'"
    by (cases tres) (simp_all add: preflight_migration_def)
  with t obtain m where m: "checked_succ (next_transfer_id r) = Some m" "t' = next_transfer_id r"
      "r1 = r\<lparr>next_transfer_id := m\<rparr>" using allocate_transfer_id_Inr by blast
  have a: "active_of r k = Some a" "mp_source_generation p = ai_generation a"
    using val by (simp_all add: validate_migration_Inr)
  with active_okD [OF inv a(1)] open_ have "og_state (gates r ! ai_gate a) = gate_open"
    by (simp add: active_ok_def gate_state_of_def)
  then show ?thesis
    using res val open_ t m \<open>tres = Inr t'\<close> a
    by (intro that [OF val open_ m(1)])
      (auto simp: preflight_migration_def gate_freeze_def Let_def)
qed

lemma freeze_ok:
  assumes inv: "registry_inv u r" and a: "active_of r k = Some a" "ai_permit a \<noteq> None"
    and m: "checked_succ (next_transfer_id r) = Some m"
  defines "r' \<equiv> set_active k (a\<lparr>ai_transfer := Some (next_transfer_id r)\<rparr>)
       (set_gate (ai_gate a) ((gates r ! ai_gate a)\<lparr>og_state := next_transfer_id r\<rparr>)
         (r\<lparr>next_transfer_id := m\<rparr>))"
  shows "registry_inv u r'" "evolves r r'"
proof -
  let ?r1 = "r\<lparr>next_transfer_id := m\<rparr>"
  have inv1: "registry_inv u ?r1" by (rule inv_next_transfer_id [OF inv m])
  have ok: "active_ok r k a" by (rule active_okD [OF inv a(1)])
  have pos: "0 < next_transfer_id r" using inv by (simp add: registry_inv_def known_inv_def)
  show "registry_inv u r'"
    unfolding r'_def
    using a ok pos checked_succ_SomeD [OF m] not_retired [OF m]
    by (intro inv_set_active [OF inv1])
      (auto simp: active_ok_def gate_state_of_def permit_ok_def identity_binding_of_def)
  have "evolves ?r1 r'"
    unfolding r'_def
    by (rule evolves_trans [OF evolves_set_gate evolves_set_active])
      (use active_gate_not_retired [OF inv a(1)] in auto)
  with evolves_counters(2) [OF m] show "evolves r r'" by (rule evolves_trans)
qed

lemma preflight_migration_operation:
  "registry_operation u (\<lambda>r. snd (preflight_migration d ip user ch token now r))"
proof
  fix r assume inv: "registry_inv u r"
  obtain res r' where res: "preflight_migration d ip user ch token now r = (res, r')" by fastforce
  have "registry_inv u r' \<and> evolves r r'"
  proof (cases res)
    case (Inl e)
    obtain tres r1 where t: "allocate_transfer_id r = (tres, r1)" by fastforce
    have "r' = r \<or> r' = r1"
      using res Inl t by (auto simp: preflight_migration_def Let_def split: sum.splits prod.splits option.splits if_splits bool.splits)
    with inv allocate_transfer_id_ok [OF inv t] show ?thesis by auto
  next
    case (Inr pf)
    with res have "preflight_migration d ip user ch token now r = (Inr pf, r')" by simp
    show ?thesis
    proof (cases rule: preflight_migration_Inr [OF inv \<open>preflight_migration d ip user ch token now r = (Inr pf, r')\<close>])
      case (1 k a p m)
      then show ?thesis using freeze_ok [OF inv] by (simp add: validate_migration_Inr)
    qed
  qed
  with res show "registry_inv u (snd (preflight_migration d ip user ch token now r))"
      "evolves r (snd (preflight_migration d ip user ch token now r))" by simp_all
qed

text \<open>Reopening a frozen identity.\<close>

lemma reopen_ok:
  assumes inv: "registry_inv u r" and a: "active_of r k = Some a"
  defines "r' \<equiv> set_active k (a\<lparr>ai_transfer := None\<rparr>)
       (set_gate (ai_gate a) ((gates r ! ai_gate a)\<lparr>og_state := gate_open\<rparr>) r)"
  shows "registry_inv u r'" "evolves r r'"
proof -
  have ok: "active_ok r k a" by (rule active_okD [OF inv a])
  show "registry_inv u r'"
    unfolding r'_def using a ok
    by (intro inv_set_active [OF inv])
      (auto simp: active_ok_def gate_state_of_def permit_ok_def identity_binding_of_def gate_open_def gate_retired_def)
  show "evolves r r'"
    unfolding r'_def
    by (rule evolves_trans [OF evolves_set_gate evolves_set_active])
      (use active_gate_not_retired [OF inv a] in auto)
qed

lemma abort_cases:
  assumes "abort_preflighted_migration pf r = (b, r')"
  obtains (noop) "\<not> b" "r' = r"
  | (reopened) a p where "b" "active_of r (pf_canonical_nickname pf) = Some a"
      "ai_transfer a = Some (pf_transfer_id pf)" "ai_generation a = pf_source_generation pf"
      "ai_gate a = pf_gate pf" "ai_permit a = Some p" "og_state (gates r ! ai_gate a) = pf_transfer_id pf"
      "r' = set_active (pf_canonical_nickname pf) (a\<lparr>ai_transfer := None\<rparr>)
        (set_gate (ai_gate a) ((gates r ! ai_gate a)\<lparr>og_state := gate_open\<rparr>) r)"
proof (cases "active_of r (pf_canonical_nickname pf)")
  case None
  with assms noop show ?thesis by (simp add: abort_preflighted_migration_def)
next
  case (Some a)
  note a = Some
  show ?thesis
  proof (cases "ai_permit a")
    case None
    with assms a noop show ?thesis by (simp add: abort_preflighted_migration_def)
  next
    case (Some p)
    show ?thesis
    proof (cases b)
      case True
      with assms a Some show ?thesis
        by (intro reopened [of a p])
          (simp_all add: abort_preflighted_migration_def gate_reopen_exact_def Let_def split: if_splits)
    next
      case False
      with assms a Some show ?thesis
        by (intro noop)
          (simp_all add: abort_preflighted_migration_def gate_reopen_exact_def Let_def split: if_splits)
    qed
  qed
qed

lemma abort_ok:
  assumes inv: "registry_inv u r" and res: "abort_preflighted_migration pf r = (b, r')"
  shows "registry_inv u r' \<and> evolves r r'"
  using res
proof (cases rule: abort_cases)
  case noop
  with inv show ?thesis by simp
next
  case (reopened a p)
  with reopen_ok [OF inv reopened(2)] show ?thesis by simp
qed

lemma abort_operation: "registry_operation u (\<lambda>r. snd (abort_preflighted_migration pf r))"
  by unfold_locales (metis abort_ok prod.collapse)+

section \<open>Completion\<close>

text \<open>What \<open>validate_preflighted_migration\<close> has established when it accepts a ticket.\<close>

definition preflight_ready :: "migration_preflight \<Rightarrow> instant \<Rightarrow> identity_registry \<Rightarrow> active_identity \<Rightarrow> migration_permit \<Rightarrow> bool" where
  "preflight_ready pf now r a p \<longleftrightarrow>
     validate_migration (pf_destination_session pf) (pf_destination_ip pf) (pf_user_no pf)
       (pf_channel_id pf) (pf_token pf) now r = Inr (pf_canonical_nickname pf, a, p) \<and>
     ki_nickname (ai_known a) = pf_nickname pf \<and>
     permits_current (pf_source_state pf) (ai_owner a) (mp_source_session p) \<and>
     mp_channel p = pf_channel pf \<and> mp_source_generation p = pf_source_generation pf \<and>
     mp_source_session p = pf_source_session pf \<and> mp_expires_at p = pf_expires_at pf \<and>
     ai_transfer a = Some (pf_transfer_id pf) \<and> ai_gate a = pf_gate pf \<and>
     og_state (gates r ! pf_gate pf) = pf_transfer_id pf \<and> og_active_operations (gates r ! pf_gate pf) = 0 \<and>
     next_generation r \<noteq> 0 \<and> next_generation r \<noteq> - 1"

lemma validate_preflighted_Inr:
  "validate_preflighted_migration pf now r = Inr x \<longleftrightarrow> (\<exists>a p. preflight_ready pf now r a p)"
  (is "?lhs \<longleftrightarrow> ?rhs")
proof
  assume ?rhs
  then show ?lhs
    by (auto simp: validate_preflighted_migration_def preflight_ready_def gate_is_frozen_by_def
        gate_is_drained_def checked_succ_def)
next
  assume lhs: ?lhs
  then obtain k a p where v: "validate_migration (pf_destination_session pf) (pf_destination_ip pf)
      (pf_user_no pf) (pf_channel_id pf) (pf_token pf) now r = Inr (k, a, p)"
    by (auto simp: validate_preflighted_migration_def result_iff)
  with lhs have "preflight_ready pf now r a p"
    by (simp add: validate_preflighted_migration_def preflight_ready_def gate_is_frozen_by_def
        gate_is_drained_def checked_succ_def split: if_splits)
  then show ?rhs by blast
qed

definition migration_result :: "migration_preflight \<Rightarrow> active_identity \<Rightarrow> migration_permit \<Rightarrow> u64 \<Rightarrow> migration_completion" where
  "migration_result pf a p gen =
     \<lparr>mc_binding = \<lparr>ib_nickname = ki_nickname (ai_known a), ib_user_no = ki_user_no (ai_known a),
        ib_generation = gen, ib_owner = pf_destination_session pf, ib_source_ip = pf_destination_ip pf,
        ib_channel = Some (mp_channel p)\<rparr>,
      mc_previous_binding = identity_binding_of a (mp_source_session p),
      mc_previous_identity = released_identity_of a, mc_previous_owner = ai_owner a\<rparr>"

lemma materialize_ready:
  assumes "preflight_ready pf now r a p" "checked_succ (next_generation r) = Some m"
  shows "materialize_migration reserved pf now r =
    (if \<not> reserved then (Inl SessionIndexCapacityUnavailable, r\<lparr>next_generation := m\<rparr>)
     else (Inr \<lparr>cand_canonical_nickname = pf_canonical_nickname pf, cand_gate = ai_gate a,
             cand_next_gate = length (gates r),
             cand_completion = migration_result pf a p (next_generation r)\<rparr>,
           r\<lparr>next_generation := m, gates := gates r @ [gate_shared 0]\<rparr>))"
proof -
  have "validate_preflighted_migration pf now r = Inr ()"
    using assms(1) validate_preflighted_Inr by blast
  then show ?thesis
    using assms by (simp add: materialize_migration_def preflight_ready_def allocate_generation_def
        alloc_gate_def migration_result_def Let_def)
qed

lemma materialize_ok:
  assumes inv: "registry_inv u r" and res: "materialize_migration reserved pf now r = (res, r')"
  shows "registry_inv u r' \<and> evolves r r'"
proof (cases "validate_preflighted_migration pf now r")
  case (Inl e)
  with res inv show ?thesis by (simp add: materialize_migration_def)
next
  case (Inr x)
  then obtain a p where ready: "preflight_ready pf now r a p" using validate_preflighted_Inr by blast
  then obtain m where m: "checked_succ (next_generation r) = Some m"
    by (auto simp: preflight_ready_def checked_succ_def)
  have inv1: "registry_inv u (r\<lparr>next_generation := m\<rparr>)" by (rule inv_next_generation [OF inv m])
  have ev1: "evolves r (r\<lparr>next_generation := m\<rparr>)" by (rule evolves_counters(1) [OF m])
  from materialize_ready [OF ready m, of reserved] res
  have "r' = r\<lparr>next_generation := m\<rparr> \<or>
      r' = r\<lparr>next_generation := m, gates := gates (r\<lparr>next_generation := m\<rparr>) @ [gate_shared 0]\<rparr>"
    by (auto split: if_splits)
  with inv1 ev1 inv_alloc_gate [OF inv1, of 0] evolves_trans [OF ev1 evolves_alloc_gate, of 0]
  show ?thesis by auto
qed

lemma prepare_operation: "registry_operation u (\<lambda>r. snd (prepare_preflighted_migration reserved pf now r))"
proof
  fix r assume inv: "registry_inv u r"
  obtain res r1 where m: "materialize_migration reserved pf now r = (res, r1)" by fastforce
  from materialize_ok [OF inv m] have ok: "registry_inv u r1" "evolves r r1" by auto
  have "snd (prepare_preflighted_migration reserved pf now r) \<in> {r1, snd (abort_preflighted_migration pf r1)}"
    by (cases res) (simp_all add: prepare_preflighted_migration_def m)
  moreover have "registry_inv u (snd (abort_preflighted_migration pf r1))"
      "evolves r (snd (abort_preflighted_migration pf r1))"
    using ok registry_operation.keeps_inv [OF abort_operation]
      evolves_trans [OF ok(2) registry_operation.keeps_past [OF abort_operation]] by auto
  ultimately show "registry_inv u (snd (prepare_preflighted_migration reserved pf now r))"
      "evolves r (snd (prepare_preflighted_migration reserved pf now r))" using ok by auto
qed

text \<open>The state published by \<open>commit\<close>.\<close>

definition published :: "migration_preflight \<Rightarrow> active_identity \<Rightarrow> migration_permit \<Rightarrow> u64 \<Rightarrow> identity_registry \<Rightarrow> identity_registry" where
  "published pf a p epoch r =
     (let gen = next_generation r;
          i = length (gates r);
          a' = a\<lparr>ai_generation := gen, ai_owner := Some (pf_destination_session pf),
             ai_owner_ip := pf_destination_ip pf, ai_channel := Some (pf_channel pf),
             ai_permit := None, ai_transfer := None, ai_gate := i\<rparr>
      in r\<lparr>next_generation := gen + 1,
           gates := (gates r)[ai_gate a := (gates r ! ai_gate a)\<lparr>og_state := gate_retired\<rparr>] @ [gate_shared epoch],
           active_by_name := AList.update (pf_canonical_nickname pf) a' (active_by_name r),
           session_bindings := AList.update (pf_destination_session pf)
             (identity_binding_of a' (pf_destination_session pf)) (session_bindings r)\<rparr>)"

text \<open>
  A ticket that is ready completes unless the new generation would be the last number
  or the index cannot grow; the result and the published state are exactly these.
\<close>

lemma complete_ready:
  assumes inv: "registry_inv u r" and ready: "preflight_ready pf now r a p"
    and room: "next_generation r + 1 \<noteq> - 1"
  shows "complete_preflighted_migration_at_udp_epoch True pf now epoch r =
    (Inr (migration_result pf a p (next_generation r)), published pf a p epoch r)"
proof -
  from ready have val: "validate_migration (pf_destination_session pf) (pf_destination_ip pf) (pf_user_no pf)
      (pf_channel_id pf) (pf_token pf) now r = Inr (pf_canonical_nickname pf, a, p)"
    and ng: "next_generation r \<noteq> 0" "next_generation r \<noteq> - 1"
    by (simp_all add: preflight_ready_def)
  then have a: "active_of r (pf_canonical_nickname pf) = Some a" "mp_user_no p = pf_user_no pf"
      "ai_permit a = Some p" by (simp_all add: validate_migration_Inr)
  have m: "checked_succ (next_generation r) = Some (next_generation r + 1)"
    using ng by (simp add: checked_succ_def)
  have ok: "active_ok r (pf_canonical_nickname pf) a" by (rule active_okD [OF inv a(1)])
  then have gate: "ai_gate a < length (gates r)" "ki_user_no (ai_known a) = pf_user_no pf"
      "mp_source_generation p = ai_generation a"
    using a by (simp_all add: active_ok_def permit_ok_def)
  let ?r1 = "r\<lparr>next_generation := next_generation r + 1, gates := gates r @ [gate_shared 0]\<rparr>"
  have ready1: "preflight_ready pf now ?r1 a p"
    using ready room gate(1) checked_succ_SomeD(3) [OF m]
    by (auto simp: preflight_ready_def validate_migration_Inr nth_append)
  have gstate: "og_state (gates r ! ai_gate a) = pf_transfer_id pf" "og_active_operations (gates r ! ai_gate a) = 0"
      "ai_gate a = pf_gate pf" "pf_source_generation pf = ai_generation a" "mp_channel p = pf_channel pf"
    using ready gate(3) by (simp_all add: preflight_ready_def)
  let ?c = "\<lparr>cand_canonical_nickname = pf_canonical_nickname pf, cand_gate = ai_gate a,
             cand_next_gate = length (gates r), cand_completion = migration_result pf a p (next_generation r)\<rparr>"
  have prep: "prepare_preflighted_migration True pf now r = (Inr ?c, ?r1)"
    by (simp add: prepare_preflighted_migration_def materialize_ready [OF ready m])
  have "validate_preflighted_migration pf now ?r1 = Inr ()"
    using ready1 validate_preflighted_Inr by blast
  then have lock: "lock_prepared_migration pf ?c now ?r1 =
      (Inr \<lparr>imc_canonical_nickname = pf_canonical_nickname pf, imc_transfer_id = pf_transfer_id pf,
            imc_destination_session = pf_destination_session pf, imc_channel = pf_channel pf,
            imc_gate = ai_gate a, imc_next_gate = length (gates r),
            imc_completion = migration_result pf a p (next_generation r)\<rparr>, ?r1)"
    using a gate(2) gstate
    by (simp add: lock_prepared_migration_def migration_result_def identity_binding_of_def)
  have upd: "(gates r @ [g])[length (gates r) := g'] = gates r @ [g']" for g g' by simp
  let ?guard = "\<lparr>imc_canonical_nickname = pf_canonical_nickname pf, imc_transfer_id = pf_transfer_id pf,
            imc_destination_session = pf_destination_session pf, imc_channel = pf_channel pf,
            imc_gate = ai_gate a, imc_next_gate = length (gates r),
            imc_completion = migration_result pf a p (next_generation r)\<rparr>"
  have "complete_preflighted_migration_at_udp_epoch True pf now epoch r = commit_migration ?guard epoch ?r1"
    by (simp add: complete_preflighted_migration_at_udp_epoch_def prep lock)
  also have "\<dots> = (Inr (migration_result pf a p (next_generation r)), published pf a p epoch r)"
    using a gate gstate
    by (simp add: commit_migration_def gate_retire_exact_def gate_is_drained_def nth_append
        migration_result_def published_def Let_def set_gate_def set_active_def upd list_update_append
        gate_shared_def identity_binding_of_def)
  finally show ?thesis .
qed

lemma published_ok:
  assumes inv: "registry_inv u r" and ready: "preflight_ready pf now r a p"
  shows "registry_inv u (published pf a p epoch r)" "evolves r (published pf a p epoch r)"
proof -
  let ?k = "pf_canonical_nickname pf" and ?s = "pf_destination_session pf" and ?gen = "next_generation r"
  from ready have val: "validate_migration (pf_destination_session pf) (pf_destination_ip pf) (pf_user_no pf)
      (pf_channel_id pf) (pf_token pf) now r = Inr (?k, a, p)"
    and ng: "?gen \<noteq> 0" "?gen \<noteq> - 1" and drained: "og_active_operations (gates r ! ai_gate a) = 0"
    by (auto simp: preflight_ready_def)
  then have a: "active_of r ?k = Some a" "binding_of r ?s = None" by (simp_all add: validate_migration_Inr)
  have m: "checked_succ ?gen = Some (?gen + 1)" using ng by (simp add: checked_succ_def)
  have ok: "active_ok r ?k a" by (rule active_okD [OF inv a(1)])
  then have gate: "ai_gate a < length (gates r)" by (simp add: active_ok_def)
  let ?g = "(gates r ! ai_gate a)\<lparr>og_state := gate_retired\<rparr>"
  \<comment> \<open>the old generation leaves, then the new one is installed\<close>
  define r1 where "r1 = r\<lparr>active_by_name := AList.delete ?k (active_by_name r)\<rparr>"
  define r2 where "r2 = (set_gate (ai_gate a) ?g r1)\<lparr>next_generation := ?gen + 1\<rparr>"
  define r3 where "r3 = r2\<lparr>gates := gates r2 @ [gate_shared epoch]\<rparr>"
  define a' where "a' = a\<lparr>ai_generation := ?gen, ai_owner := Some ?s, ai_owner_ip := pf_destination_ip pf,
      ai_channel := Some (pf_channel pf), ai_permit := None, ai_transfer := None, ai_gate := length (gates r)\<rparr>"
  have inv1: "registry_inv u r1" unfolding r1_def by (rule inv_remove_active [OF inv])
  have other: "\<forall>k' b. active_of r1 k' = Some b \<longrightarrow> ai_gate b \<noteq> ai_gate a"
    using inv a(1) unfolding r1_def registry_inv_def active_inv_def by (simp split: if_splits) metis
  have "registry_inv u (set_gate (ai_gate a) ?g r1)"
    by (rule inv_set_gate_unused [OF inv1 other]) (simp add: drained)
  then have inv2: "registry_inv u r2"
    unfolding r2_def using m by (intro inv_next_generation) (simp_all add: r1_def)
  have inv3: "registry_inv u r3" unfolding r3_def by (rule inv_alloc_gate [OF inv2])
  have views: "active_of r3 = (active_of r)(?k := None)" "binding_of r3 = binding_of r"
    "known_of r3 = known_of r" "next_generation r3 = ?gen + 1" "deferred_releases r3 = deferred_releases r"
    "gates r3 = (gates r)[ai_gate a := ?g] @ [gate_shared epoch]"
    by (simp_all add: r3_def r2_def r1_def)
  have oldg: "ai_gate b < length (gates r) \<and> ai_generation b < ?gen" if "active_of r k' = Some b" for k' b
    using active_okD [OF inv that] by (simp add: active_ok_def)
  have oldb: "ib_generation b < ?gen" if "binding_of r s' = Some b" for s' b
    using inv that by (simp add: registry_inv_def binding_inv_def)
  have oldd: "dr_gate d < length (gates r) \<and> dr_canonical_nickname d \<noteq> ?k" if "d \<in> set (deferred_releases r)" for d
    using inv that a(1) unfolding registry_inv_def deferred_inv_def by fastforce
  have installed: "registry_inv u ((set_active ?k a' r3)\<lparr>session_bindings :=
      AList.update ?s (identity_binding_of a' ?s) (session_bindings r3)\<rparr>)"
  proof (rule inv_install [OF inv3])
    show "\<forall>k' b. active_of r3 k' = Some b \<longrightarrow> k' \<noteq> ?k \<longrightarrow> ai_generation b \<noteq> ai_generation a'"
      using oldg by (fastforce simp: views a'_def)
    show "\<forall>s b. binding_of r3 s = Some b \<longrightarrow> ib_generation b \<noteq> ai_generation a'"
      using oldb by (fastforce simp: views a'_def)
    show "\<forall>k' b. active_of r3 k' = Some b \<longrightarrow> k' \<noteq> ?k \<longrightarrow> ai_gate b \<noteq> ai_gate a'"
      using oldg by (fastforce simp: views a'_def)
    show "\<forall>d\<in>set (deferred_releases r3). dr_gate d \<noteq> ai_gate a' \<and> dr_canonical_nickname d \<noteq> ?k"
      using oldd by (fastforce simp: views a'_def)
    show "known_of r3 ?k = Some (ai_known a')" using ok by (simp add: views a'_def active_ok_def)
    show "og_state (gates r3 ! ai_gate a') = gate_open"
      by (simp add: views a'_def gate_shared_def nth_append)
  qed (use ng a(2) checked_succ_SomeD(1) [OF m] in \<open>simp_all add: views a'_def word_gt_0\<close>)
  show "registry_inv u (published pf a p epoch r)"
  proof (rule registry_inv_cong [OF installed])
    show "keys_distinct (active_by_name (published pf a p epoch r))"
      using inv by (simp add: published_def Let_def registry_inv_def active_inv_def)
    show "active_of (published pf a p epoch r) = active_of ((set_active ?k a' r3)\<lparr>session_bindings :=
      AList.update ?s (identity_binding_of a' ?s) (session_bindings r3)\<rparr>)"
      by (simp add: views a'_def) (simp add: published_def Let_def active_of_def)
  qed (simp_all add: published_def Let_def a'_def r3_def r2_def r1_def view_defs set_active_def set_gate_def)
  show "evolves r (published pf a p epoch r)"
    using gate active_gate_not_retired [OF inv a(1)] checked_succ_SomeD(1) [OF m]
    by (auto simp: evolves_def published_def Let_def view_defs nth_append nth_list_update gate_shared_def)
qed

lemma validate_preflighted_no_panic:
  assumes inv: "registry_inv u r" and err: "validate_preflighted_migration pf now r = Inl e"
  shows "e \<noteq> IPanic msg"
proof (cases "validate_migration (pf_destination_session pf) (pf_destination_ip pf) (pf_user_no pf)
      (pf_channel_id pf) (pf_token pf) now r")
  case (Inl e')
  with err validate_migration_Inl [OF inv Inl] show ?thesis
    by (simp add: validate_preflighted_migration_def)
next
  case (Inr v)
  obtain k a p where "v = (k, a, p)" by (cases v)
  with err Inr show ?thesis
    by (auto simp: validate_preflighted_migration_def split: if_splits)
qed

lemma abort_error:
  assumes "registry_inv u r1" "evolves r r1"
  shows "registry_inv u (snd (abort_preflighted_migration pf r1)) \<and> evolves r (snd (abort_preflighted_migration pf r1))"
  using assms registry_operation.keeps_inv [OF abort_operation]
    evolves_trans [OF assms(2) registry_operation.keeps_past [OF abort_operation]] by blast

lemma complete_cases:
  assumes inv: "registry_inv u r"
    and res: "complete_preflighted_migration_at_udp_epoch reserved pf now epoch r = (res, r')"
  shows "(\<exists>e. res = Inl e \<and> (\<forall>m. e \<noteq> IPanic m) \<and> registry_inv u r' \<and> evolves r r') \<or>
    (\<exists>a p. preflight_ready pf now r a p \<and> next_generation r + 1 \<noteq> - 1 \<and>
       res = Inr (migration_result pf a p (next_generation r)) \<and> r' = published pf a p epoch r)"
proof (cases "validate_preflighted_migration pf now r")
  case (Inl e)
  then have "materialize_migration reserved pf now r = (Inl e, r)"
    by (simp add: materialize_migration_def)
  with res have "res = Inl e" "r' = snd (abort_preflighted_migration pf r)"
    by (simp_all add: complete_preflighted_migration_at_udp_epoch_def prepare_preflighted_migration_def)
  with abort_error [OF inv, of r pf] validate_preflighted_no_panic [OF inv Inl] show ?thesis by simp
next
  case (Inr x)
  then obtain a p where ready: "preflight_ready pf now r a p" using validate_preflighted_Inr by blast
  then have ng: "next_generation r \<noteq> 0" "next_generation r \<noteq> - 1" by (simp_all add: preflight_ready_def)
  then have m: "checked_succ (next_generation r) = Some (next_generation r + 1)"
    by (simp add: checked_succ_def)
  let ?r0 = "r\<lparr>next_generation := next_generation r + 1\<rparr>"
  let ?r1 = "r\<lparr>next_generation := next_generation r + 1, gates := gates r @ [gate_shared 0]\<rparr>"
  have inv0: "registry_inv u ?r0" "evolves r ?r0"
    using inv_next_generation [OF inv m] evolves_counters(1) [OF m] by auto
  have inv1: "registry_inv u ?r1" "evolves r ?r1"
    using inv_alloc_gate [OF inv0(1), of 0] evolves_trans [OF inv0(2) evolves_alloc_gate, of 0] by simp_all
  show ?thesis
  proof (cases reserved)
    case False
    then have "res = Inl SessionIndexCapacityUnavailable" "r' = snd (abort_preflighted_migration pf ?r0)"
      using res materialize_ready [OF ready m, of reserved]
      by (simp_all add: complete_preflighted_migration_at_udp_epoch_def prepare_preflighted_migration_def)
    with abort_error [OF inv0, of pf] show ?thesis by simp
  next
    case True
    let ?c = "\<lparr>cand_canonical_nickname = pf_canonical_nickname pf, cand_gate = ai_gate a,
             cand_next_gate = length (gates r), cand_completion = migration_result pf a p (next_generation r)\<rparr>"
    have prep: "prepare_preflighted_migration reserved pf now r = (Inr ?c, ?r1)"
      using materialize_ready [OF ready m, of reserved] True by (simp add: prepare_preflighted_migration_def)
    show ?thesis
    proof (cases "validate_preflighted_migration pf now ?r1")
      case (Inl e)
      then have "res = Inl e" "r' = snd (abort_preflighted_migration pf ?r1)"
        using res by (simp_all add: complete_preflighted_migration_at_udp_epoch_def prep lock_prepared_migration_def)
      with abort_error [OF inv1, of pf] validate_preflighted_no_panic [OF inv1(1) Inl] show ?thesis by simp
    next
      case (Inr y)
      then have "next_generation r + 1 \<noteq> - 1"
        by (auto simp: validate_preflighted_Inr preflight_ready_def)
      with complete_ready [OF inv ready this] res True ready show ?thesis by auto
    qed
  qed
qed

lemma complete_operation:
  "registry_operation u (\<lambda>r. snd (complete_preflighted_migration_at_udp_epoch reserved pf now epoch r))"
proof
  fix r assume inv: "registry_inv u r"
  obtain res r' where res: "complete_preflighted_migration_at_udp_epoch reserved pf now epoch r = (res, r')"
    by fastforce
  from complete_cases [OF inv res] published_ok [OF inv]
  show "registry_inv u (snd (complete_preflighted_migration_at_udp_epoch reserved pf now epoch r))"
    "evolves r (snd (complete_preflighted_migration_at_udp_epoch reserved pf now epoch r))"
    by (auto simp: res)
qed

text \<open>Preparing, locking and then dropping the guard.\<close>

definition abandon_prepared_migration ::
  "bool \<Rightarrow> migration_preflight \<Rightarrow> instant \<Rightarrow> identity_registry \<Rightarrow> identity_registry" where
  "abandon_prepared_migration reserved pf now r =
     (case prepare_preflighted_migration reserved pf now r of
        (Inl e, r) \<Rightarrow> r
      | (Inr candidate, r) \<Rightarrow> (case lock_prepared_migration pf candidate now r of
          (Inl e, r) \<Rightarrow> r
        | (Inr guard, r) \<Rightarrow> drop_migration_commit guard r))"

lemma drop_commit_ok:
  assumes inv: "registry_inv u r"
  shows "registry_inv u (drop_migration_commit c r) \<and> evolves r (drop_migration_commit c r)"
proof (cases "active_of r (imc_canonical_nickname c)")
  case None
  with inv show ?thesis by (simp add: drop_migration_commit_def)
next
  case (Some a)
  show ?thesis
  proof (cases "ai_transfer a = Some (imc_transfer_id c) \<and> ai_gate a = imc_gate c")
    case False
    with Some inv show ?thesis by (auto simp: drop_migration_commit_def)
  next
    case True
    with active_okD [OF inv Some] have "og_state (gates r ! ai_gate a) = imc_transfer_id c"
      by (simp add: active_ok_def gate_state_of_def)
    with True Some have "drop_migration_commit c r =
        set_active (imc_canonical_nickname c) (a\<lparr>ai_transfer := None\<rparr>)
          (set_gate (ai_gate a) ((gates r ! ai_gate a)\<lparr>og_state := gate_open\<rparr>) r)"
      by (simp add: drop_migration_commit_def gate_reopen_exact_def set_gate_def set_active_def)
    with reopen_ok [OF inv Some] show ?thesis by simp
  qed
qed

lemma abandon_operation: "registry_operation u (\<lambda>r. abandon_prepared_migration reserved pf now r)"
proof
  fix r assume inv: "registry_inv u r"
  obtain res r1 where p: "prepare_preflighted_migration reserved pf now r = (res, r1)" by fastforce
  then have ok1: "registry_inv u r1" "evolves r r1"
    using registry_operation.keeps_inv [OF prepare_operation inv, of reserved pf now]
      registry_operation.keeps_past [OF prepare_operation inv, of reserved pf now] by simp_all
  have "registry_inv u (abandon_prepared_migration reserved pf now r) \<and>
      evolves r (abandon_prepared_migration reserved pf now r)"
  proof (cases res)
    case (Inl e)
    with p ok1 show ?thesis by (simp add: abandon_prepared_migration_def)
  next
    case (Inr cand)
    obtain lres r2 where l: "lock_prepared_migration pf cand now r1 = (lres, r2)" by fastforce
    then have "r2 = r1 \<or> r2 = snd (abort_preflighted_migration pf r1)"
      by (auto simp: lock_prepared_migration_def split: sum.splits if_splits option.splits)
    then have ok2: "registry_inv u r2" "evolves r r2" using ok1 abort_error [OF ok1, of pf] by auto
    show ?thesis
      using p Inr l ok2 drop_commit_ok [OF ok2(1)] evolves_trans [OF ok2(2)]
      by (cases lres) (auto simp: abandon_prepared_migration_def)
  qed
  then show "registry_inv u (abandon_prepared_migration reserved pf now r)"
    "evolves r (abandon_prepared_migration reserved pf now r)" by auto
qed

section \<open>Disconnection, expiry and release\<close>

text \<open>
  An identity that is taken out of the table of active ones and then released or
  deferred.  \<open>r1\<close> is the registry without it, its gate possibly reopened before.
\<close>

lemma remove_and_release:
  assumes inv: "registry_inv u r" and a: "active_of r k = Some a"
    and res: "release_or_defer k a ((set_gate (ai_gate a) g r)\<lparr>active_by_name := AList.delete k (active_by_name r)\<rparr>) = (b, r')"
    and g: "og_active_operations g = og_active_operations (gates r ! ai_gate a)" "og_state g \<noteq> gate_retired"
  shows "registry_inv u r'" "evolves r r'"
proof -
  let ?r1 = "r\<lparr>active_by_name := AList.delete k (active_by_name r)\<rparr>"
  let ?r2 = "(set_gate (ai_gate a) g r)\<lparr>active_by_name := AList.delete k (active_by_name r)\<rparr>"
  have ok: "active_ok r k a" by (rule active_okD [OF inv a])
  have inv1: "registry_inv u ?r1" by (rule inv_remove_active [OF inv])
  have other: "\<forall>k' b. active_of ?r1 k' = Some b \<longrightarrow> ai_gate b \<noteq> ai_gate a"
    using inv a unfolding registry_inv_def active_inv_def by (simp split: if_splits) metis
  have eq: "?r2 = set_gate (ai_gate a) g ?r1" by (simp add: set_gate_def)
  have inv2: "registry_inv u ?r2"
    unfolding eq by (rule inv_set_gate_unused [OF inv1 other]) (simp add: g)
  have d: "\<forall>d\<in>set (deferred_releases ?r2). dr_gate d \<noteq> ai_gate a \<and> dr_canonical_nickname d \<noteq> k"
    using inv a unfolding registry_inv_def deferred_inv_def by fastforce
  show "registry_inv u r'"
    by (rule inv_release_or_defer [OF inv2 _ _ _ _ d res])
      (use ok other in \<open>simp_all add: active_ok_def eq\<close>)
  have "evolves r (set_gate (ai_gate a) g r)"
    using active_gate_not_retired [OF inv a] g(1) by (intro evolves_set_gate) auto
  then have "evolves r ?r2" by (rule evolves_trans) (rule evolves_same; simp)
  then show "evolves r r'" by (rule evolves_trans) (rule evolves_release_or_defer [OF res])
qed

lemma disconnect_cases:
  assumes inv: "registry_inv u r"
  obtains (unauthenticated) "binding_of r s = None" "disconnect u s now r = (Unauthenticated, r)"
  | (stale) b where "binding_of r s = Some b"
      "\<forall>k a. active_of r k = Some a \<longrightarrow> ai_owner a \<noteq> Some s"
      "disconnect u s now r = (Stale b, r\<lparr>session_bindings := AList.delete s (session_bindings r)\<rparr>)"
  | (deferred) k a p where "active_of r k = Some a" "ai_owner a = Some s" "ai_permit a = Some p"
      "now < mp_expires_at p" "binding_of r s = Some (identity_binding_of a s)"
      "disconnect u s now r = (Deferred (identity_binding_of a s) p,
         set_active k (a\<lparr>ai_owner := None\<rparr>) (r\<lparr>session_bindings := AList.delete s (session_bindings r)\<rparr>))"
  | (gone) k a g b r' where "active_of r k = Some a" "ai_owner a = Some s"
      "\<forall>p. ai_permit a = Some p \<longrightarrow> mp_expires_at p \<le> now"
      "g = (gates r ! ai_gate a)\<lparr>og_state := gate_open\<rparr>"
      "release_or_defer k a ((set_gate (ai_gate a) g
         (r\<lparr>session_bindings := AList.delete s (session_bindings r)\<rparr>))\<lparr>active_by_name := AList.delete k (active_by_name r)\<rparr>)
         = (b, r')"
      "disconnect u s now r = (if b then Released (released_identity_of a) else Draining (released_identity_of a), r')"
proof (cases "binding_of r s")
  case None
  then show ?thesis by (intro unauthenticated) (simp_all add: disconnect_def)
next
  case (Some b)
  let ?k = "canonical_nickname_key u (ib_nickname b)"
  let ?r1 = "r\<lparr>session_bindings := AList.delete s (session_bindings r)\<rparr>"
  have key: "k = ?k \<and> ai_generation a = ib_generation b" if "active_of r k = Some a" "ai_owner a = Some s" for k a
  proof -
    from active_okD [OF inv that(1)] that(2) Some have "b = identity_binding_of a s" "known_of r k = Some (ai_known a)"
      by (auto simp: active_ok_def)
    with inv show ?thesis by (simp add: registry_inv_def known_inv_def identity_binding_of_def)
  qed
  show ?thesis
  proof (cases "\<exists>a. active_of r ?k = Some a \<and> ai_owner a = Some s \<and> ai_generation a = ib_generation b")
    case False
    have no: "\<forall>k a. active_of r k = Some a \<longrightarrow> ai_owner a \<noteq> Some s" using False key by blast
    then have "disconnect u s now r = (Stale b, ?r1)"
      using Some by (auto simp: disconnect_def Let_def split: option.splits)
    with Some no show ?thesis by (rule stale)
  next
    case True
    then obtain a where a: "active_of r ?k = Some a" "ai_owner a = Some s" "ai_generation a = ib_generation b" by blast
    from active_okD [OF inv a(1)] have ok: "active_ok r ?k a" .
    then have b: "b = identity_binding_of a s" using a(2) Some by (simp add: active_ok_def)
    show ?thesis
    proof (cases "\<exists>p. ai_permit a = Some p \<and> now < mp_expires_at p")
      case True
      then obtain p where p: "ai_permit a = Some p" "now < mp_expires_at p" by blast
      then show ?thesis using a b Some
        by (intro deferred [of ?k a p]) (simp_all add: disconnect_def Let_def)
    next
      case False
      let ?g = "(gates r ! ai_gate a)\<lparr>og_state := gate_open\<rparr>"
      let ?r2 = "(set_gate (ai_gate a) ?g ?r1)\<lparr>active_by_name := AList.delete ?k (active_by_name r)\<rparr>"
      obtain c r' where rel: "release_or_defer ?k a ?r2 = (c, r')" by fastforce
      have same: "(case ai_transfer a of None \<Rightarrow> ?r1\<lparr>active_by_name := AList.delete ?k (active_by_name r)\<rparr>
          | Some t \<Rightarrow> set_gate (ai_gate a) (snd (gate_reopen_exact t (gates r ! ai_gate a)))
              (?r1\<lparr>active_by_name := AList.delete ?k (active_by_name r)\<rparr>)) = ?r2"
      proof (cases "ai_transfer a")
        case None
        with ok have "og_state (gates r ! ai_gate a) = gate_open" by (simp add: active_ok_def gate_state_of_def)
        then have "?g = gates ?r1 ! ai_gate a" by (cases "gates r ! ai_gate a") simp
        then have "set_gate (ai_gate a) ?g ?r1 = ?r1" by (metis set_gate_same)
        with None show ?thesis by simp
      next
        case (Some t)
        with ok have "og_state (gates r ! ai_gate a) = t" by (simp add: active_ok_def gate_state_of_def)
        with Some show ?thesis by (simp add: gate_reopen_exact_def set_gate_def)
      qed
      have usable: "(case ai_permit a of None \<Rightarrow> None
          | Some permit \<Rightarrow> if mp_expires_at permit > now then Some permit else None) = None"
        using False by (auto split: option.splits)
      have "disconnect u s now r = (if c then Released (released_identity_of a) else Draining (released_identity_of a), r')"
        using Some a usable same rel by (simp add: disconnect_def Let_def cong: option.case_cong)
      with a False rel show ?thesis by (intro gone [of ?k a ?g c r']) auto
    qed
  qed
qed

lemma release_or_defer_update:
  "release_or_defer k a (r\<lparr>session_bindings := x\<rparr>) =
     (case release_or_defer k a r of (b, r') \<Rightarrow> (b, r'\<lparr>session_bindings := x\<rparr>))"
  "release_or_defer k a (r\<lparr>active_by_name := y\<rparr>) =
     (case release_or_defer k a r of (b, r') \<Rightarrow> (b, r'\<lparr>active_by_name := y\<rparr>))"
  by (simp_all add: release_or_defer_cases set_gate_def)

lemma release_or_defer_keeps:
  assumes "release_or_defer k a r = (b, r')"
  shows "active_by_name r' = active_by_name r" "session_bindings r' = session_bindings r"
    "active_of r' = active_of r" "binding_of r' = binding_of r"
  using assms by (auto simp: release_or_defer_cases split: if_splits)

lemma owner_unique:
  assumes "registry_inv u r" "active_of r k = Some a" "active_of r k' = Some a'"
    "ai_owner a = Some s" "ai_owner a' = Some s"
  shows "k = k'"
proof -
  have "identity_binding_of a s = identity_binding_of a' s"
    using active_okD [OF assms(1,2)] active_okD [OF assms(1,3)] assms(4,5) by (simp add: active_ok_def)
  then have "ai_generation a = ai_generation a'" by (simp add: identity_binding_of_def)
  with assms show ?thesis unfolding registry_inv_def active_inv_def by metis
qed

lemma disconnect_ok:
  assumes inv: "registry_inv u r"
  shows "registry_inv u (snd (disconnect u s now r)) \<and> evolves r (snd (disconnect u s now r))"
  using inv
proof (cases rule: disconnect_cases [of u r s now])
  case unauthenticated
  with inv show ?thesis by simp
next
  case (stale b)
  with inv_forget_session [OF inv] show ?thesis by simp
next
  case (deferred k a p)
  let ?r1 = "set_active k (a\<lparr>ai_owner := None\<rparr>) r"
  have ok: "active_ok r k a" by (rule active_okD [OF inv deferred(1)])
  have inv1: "registry_inv u ?r1"
    using ok deferred by (intro set_active_inv [OF inv deferred(1)]) (auto simp: active_ok_def permit_ok_def)
  have "\<forall>k' b. active_of ?r1 k' = Some b \<longrightarrow> ai_owner b \<noteq> Some s"
    using owner_unique [OF inv deferred(1) _ deferred(2)] by auto
  from inv_forget_session [OF inv1 this]
  moreover have "set_active k (a\<lparr>ai_owner := None\<rparr>) (r\<lparr>session_bindings := AList.delete s (session_bindings r)\<rparr>)
      = ?r1\<lparr>session_bindings := AList.delete s (session_bindings ?r1)\<rparr>"
    by (cases r) (simp add: set_active_def)
  ultimately have "registry_inv u (snd (disconnect u s now r))" by (simp add: deferred(6))
  moreover have "evolves r (snd (disconnect u s now r))"
    by (rule evolves_same) (simp_all add: deferred(6))
  ultimately show ?thesis by simp
next
  case (gone k a g b r')
  obtain c r0 where r0: "release_or_defer k a
      ((set_gate (ai_gate a) g r)\<lparr>active_by_name := AList.delete k (active_by_name r)\<rparr>) = (c, r0)" by fastforce
  have r': "r' = r0\<lparr>session_bindings := AList.delete s (session_bindings r0)\<rparr>"
  proof -
    have "(set_gate (ai_gate a) g (r\<lparr>session_bindings := AList.delete s (session_bindings r)\<rparr>))
          \<lparr>active_by_name := AList.delete k (active_by_name r)\<rparr> =
        ((set_gate (ai_gate a) g r)\<lparr>active_by_name := AList.delete k (active_by_name r)\<rparr>)
          \<lparr>session_bindings := AList.delete s (session_bindings r)\<rparr>"
      by (cases r) (simp add: set_gate_def)
    with gone(5) have "r' = r0\<lparr>session_bindings := AList.delete s (session_bindings r)\<rparr>"
      by (auto simp only: release_or_defer_update(1) r0 case_prod_conv prod.inject)
    then show ?thesis using release_or_defer_keeps(2) [OF r0] by simp
  qed
  note rel = remove_and_release [OF inv gone(1) r0]
  have "registry_inv u r0" "evolves r r0"
    using rel gone(4) by (simp_all add: gate_open_def gate_retired_def)
  moreover have "\<forall>k' b. active_of r0 k' = Some b \<longrightarrow> ai_owner b \<noteq> Some s"
    using owner_unique [OF inv gone(1) _ gone(2)] release_or_defer_keeps(3) [OF r0]
    by (auto split: if_splits)
  ultimately have "registry_inv u r'" "evolves r r'"
    unfolding r' by (auto intro: inv_forget_session evolves_trans)
  then show ?thesis by (simp add: gone(6))
qed

lemma disconnect_operation: "registry_operation u (\<lambda>r. snd (disconnect u s now r))"
  by unfold_locales (simp_all add: disconnect_ok)

text \<open>All gates replaced at once.\<close>

lemma inv_set_gates:
  assumes inv: "registry_inv u r" and len: "length gs = length (gates r)"
    and state: "\<And>k a. active_of r k = Some a \<Longrightarrow> og_state (gs ! ai_gate a) = og_state (gates r ! ai_gate a)"
    and retired: "\<And>i. i < length gs \<Longrightarrow> og_state (gs ! i) = gate_retired \<Longrightarrow> og_active_operations (gs ! i) = 0"
  shows "registry_inv u (r\<lparr>gates := gs\<rparr>)"
proof -
  have "active_inv (r\<lparr>gates := gs\<rparr>)"
    using inv state unfolding registry_inv_def active_inv_def active_ok_def views_update by (simp add: len)
  moreover have "deferred_inv (r\<lparr>gates := gs\<rparr>)"
    using inv by (simp add: registry_inv_def deferred_inv_def len)
  moreover have "gates_inv (r\<lparr>gates := gs\<rparr>)" using retired by (simp add: gates_inv_def)
  ultimately show ?thesis using inv by (simp add: registry_inv_def known_inv_def binding_inv_def)
qed

lemma inv_filter_deferred:
  assumes "registry_inv u r"
  shows "registry_inv u (r\<lparr>deferred_releases := filter P (deferred_releases r)\<rparr>)"
  using assms by (simp add: registry_inv_defs active_ok_def distinct_map_filter)

lemma retire_drained_eq:
  "gate_retire_drained g = (gate_is_drained g, if gate_is_drained g then g\<lparr>og_state := gate_retired\<rparr> else g)"
  by (simp add: gate_retire_drained_def gate_is_drained_def Let_def)

lemma collect_pending_spec:
  assumes "collect_pending pending gs = (released, kept, gs')"
    "\<forall>d\<in>set pending. dr_gate d < length gs"
  shows "length gs' = length gs \<and>
    (\<forall>i<length gs. og_active_operations (gs' ! i) = og_active_operations (gs ! i) \<and>
       (og_state (gs' ! i) = og_state (gs ! i) \<or>
        og_state (gs' ! i) = gate_retired \<and> og_active_operations (gs ! i) = 0 \<and> i \<in> dr_gate ` set pending)) \<and>
    kept = filter (\<lambda>d. og_active_operations (gs ! dr_gate d) \<noteq> 0) pending \<and>
    released = map dr_identity (filter (\<lambda>d. og_active_operations (gs ! dr_gate d) = 0) pending)"
  using assms
proof (induction pending arbitrary: gs released kept gs')
  case Nil
  then show ?case by simp
next
  case (Cons d pending)
  define g where "g = (if gate_is_drained (gs ! dr_gate d) then (gs ! dr_gate d)\<lparr>og_state := gate_retired\<rparr> else gs ! dr_gate d)"
  obtain rel kp gs1 where rec: "collect_pending pending (gs[dr_gate d := g]) = (rel, kp, gs1)"
    by (metis prod_cases3)
  have d: "dr_gate d < length gs" using Cons.prems(2) by simp
  have ops: "og_active_operations (gs[dr_gate d := g] ! i) = og_active_operations (gs ! i)" if "i < length gs" for i
    using that d by (cases "i = dr_gate d") (simp_all add: g_def)
  have st: "og_state (gs[dr_gate d := g] ! i) = og_state (gs ! i) \<or>
      og_state (gs[dr_gate d := g] ! i) = gate_retired \<and> og_active_operations (gs ! i) = 0 \<and> i = dr_gate d"
    if "i < length gs" for i
    using that d by (cases "i = dr_gate d") (simp_all add: g_def gate_is_drained_def)
  have filters: "filter (\<lambda>d'. og_active_operations (gs[dr_gate d := g] ! dr_gate d') \<noteq> 0) pending =
      filter (\<lambda>d. og_active_operations (gs ! dr_gate d) \<noteq> 0) pending"
    "filter (\<lambda>d'. og_active_operations (gs[dr_gate d := g] ! dr_gate d') = 0) pending =
      filter (\<lambda>d. og_active_operations (gs ! dr_gate d) = 0) pending"
    using Cons.prems(2) ops by (auto intro: filter_cong)
  have IH: "length gs1 = length gs \<and>
    (\<forall>i<length gs. og_active_operations (gs1 ! i) = og_active_operations (gs ! i) \<and>
       (og_state (gs1 ! i) = og_state (gs[dr_gate d := g] ! i) \<or>
        og_state (gs1 ! i) = gate_retired \<and> og_active_operations (gs ! i) = 0 \<and> i \<in> dr_gate ` set pending)) \<and>
    kp = filter (\<lambda>d. og_active_operations (gs ! dr_gate d) \<noteq> 0) pending \<and>
    rel = map dr_identity (filter (\<lambda>d. og_active_operations (gs ! dr_gate d) = 0) pending)"
    using Cons.IH [OF rec] Cons.prems(2) ops unfolding filters by simp
  have res: "released = (if gate_is_drained (gs ! dr_gate d) then dr_identity d # rel else rel)"
    "kept = (if gate_is_drained (gs ! dr_gate d) then kp else d # kp)" "gs' = gs1"
    using Cons.prems(1) rec by (auto simp: retire_drained_eq g_def Let_def split: if_splits)
  show ?case
  proof -
    have "og_state (gs1 ! i) = og_state (gs ! i) \<or>
        og_state (gs1 ! i) = gate_retired \<and> og_active_operations (gs ! i) = 0 \<and> i \<in> dr_gate ` set (d # pending)"
      if "i < length gs" for i
      using IH st [OF that] that by auto
    with IH show ?thesis unfolding res by (simp add: gate_is_drained_def)
  qed
qed

lemma collect_ok:
  assumes inv: "registry_inv u r"
  shows "registry_inv u (snd (collect_drained_releases r)) \<and> evolves r (snd (collect_drained_releases r))"
proof -
  obtain rel kept gs where c: "collect_pending (deferred_releases r) (gates r) = (rel, kept, gs)"
    by (metis prod_cases3)
  have dg: "\<forall>d\<in>set (deferred_releases r). dr_gate d < length (gates r)"
    using inv by (simp add: registry_inv_def deferred_inv_def)
  note spec = collect_pending_spec [OF c dg]
  have "registry_inv u (r\<lparr>gates := gs\<rparr>)"
  proof (rule inv_set_gates [OF inv])
    show "og_state (gs ! ai_gate a) = og_state (gates r ! ai_gate a)" if "active_of r k = Some a" for k a
    proof -
      have "ai_gate a < length (gates r)" using active_okD [OF inv that] by (simp add: active_ok_def)
      moreover have "ai_gate a \<notin> dr_gate ` set (deferred_releases r)"
        using inv that unfolding registry_inv_def deferred_inv_def by fastforce
      ultimately show ?thesis using spec by blast
    qed
    show "og_active_operations (gs ! i) = 0" if "i < length gs" "og_state (gs ! i) = gate_retired" for i
    proof -
      have "og_state (gates r ! i) = gate_retired \<Longrightarrow> og_active_operations (gates r ! i) = 0"
        using inv that spec by (simp add: registry_inv_def gates_inv_def)
      with spec that show ?thesis by metis
    qed
  qed (use spec in simp)
  from inv_filter_deferred [OF this] spec
  have "registry_inv u (r\<lparr>gates := gs, deferred_releases := kept\<rparr>)" by simp
  also have "r\<lparr>gates := gs, deferred_releases := kept\<rparr> = r\<lparr>deferred_releases := kept, gates := gs\<rparr>" by simp
  finally have "registry_inv u (r\<lparr>deferred_releases := kept, gates := gs\<rparr>)" .
  moreover have "evolves r (r\<lparr>deferred_releases := kept, gates := gs\<rparr>)"
    using spec by (auto simp: evolves_def)
  ultimately show ?thesis by (simp add: collect_drained_releases_def c)
qed

lemma collect_operation: "registry_operation u (\<lambda>r. snd (collect_drained_releases r))"
  by unfold_locales (simp_all add: collect_ok)

lemma active_gates_distinct:
  assumes inv: "registry_inv u r"
  shows "distinct (map (\<lambda>x. ai_gate (snd x)) (active_by_name r))"
proof -
  have kd: "keys_distinct (active_by_name r)" using inv by (simp add: registry_inv_def active_inv_def)
  have mem: "(k, a) \<in> set (active_by_name r) \<longleftrightarrow> active_of r k = Some a" for k a
    using kd by (simp add: active_of_def)
  have "inj_on (\<lambda>x. ai_gate (snd x)) (set (active_by_name r))"
  proof (rule inj_onI)
    fix x y assume xy: "x \<in> set (active_by_name r)" "y \<in> set (active_by_name r)" "ai_gate (snd x) = ai_gate (snd y)"
    then have "active_of r (fst x) = Some (snd x)" "active_of r (fst y) = Some (snd y)"
      using xy mem [of "fst x" "snd x"] mem [of "fst y" "snd y"] by simp_all
    with inv xy(3) have "fst x = fst y" unfolding registry_inv_def active_inv_def by metis
    with \<open>active_of r (fst x) = Some (snd x)\<close> \<open>active_of r (fst y) = Some (snd y)\<close> show "x = y"
      by (metis option.inject prod_eqI)
  qed
  then show ?thesis unfolding distinct_map using kd by (simp add: distinct_map)
qed

lemma drain_active_ok:
  assumes inv: "registry_inv u r"
  shows "registry_inv u (snd (drain_active r)) \<and> evolves r (snd (drain_active r))"
proof -
  define new where "new = map (\<lambda>(key, active). \<lparr>dr_canonical_nickname = key,
              dr_identity = released_identity_of active, dr_gate = ai_gate active\<rparr>) (active_by_name r)"
  let ?r1 = "r\<lparr>session_bindings := [], active_by_name := [], deferred_releases := deferred_releases r @ new\<rparr>"
  have kd: "keys_distinct (active_by_name r)" using inv by (simp add: registry_inv_def active_inv_def)
  have mem: "(k, a) \<in> set (active_by_name r) \<longleftrightarrow> active_of r k = Some a" for k a
    using kd by (simp add: active_of_def)
  have newD: "\<exists>k a. active_of r k = Some a \<and> d = \<lparr>dr_canonical_nickname = k,
      dr_identity = released_identity_of a, dr_gate = ai_gate a\<rparr>" if "d \<in> set new" for d
    using that mem by (auto simp: new_def)
  have names: "map dr_canonical_nickname new = map fst (active_by_name r)"
    by (simp add: new_def comp_def case_prod_unfold)
  have gates: "map dr_gate new = map (\<lambda>x. ai_gate (snd x)) (active_by_name r)"
    by (simp add: new_def comp_def case_prod_unfold)
  have dg: "distinct (map dr_gate new)" unfolding gates by (rule active_gates_distinct [OF inv])
  have sep: "dr_canonical_nickname d \<noteq> dr_canonical_nickname e \<and> dr_gate d \<noteq> dr_gate e"
    if old: "d \<in> set (deferred_releases r)" and fresh: "e \<in> set new" for d e
  proof -
    obtain k a where e: "active_of r k = Some a"
        "e = \<lparr>dr_canonical_nickname = k, dr_identity = released_identity_of a, dr_gate = ai_gate a\<rparr>"
      using newD [OF fresh] by blast
    have "active_of r (dr_canonical_nickname d) = None" "ai_gate a \<noteq> dr_gate d"
      using inv old e(1) unfolding registry_inv_def deferred_inv_def by blast+
    with e show ?thesis by auto
  qed
  have dn: "distinct (map dr_canonical_nickname new)" unfolding names by (rule kd)
  have "deferred_inv ?r1"
    unfolding deferred_inv_def
  proof (intro conjI ballI allI impI)
    show "distinct (map dr_canonical_nickname (deferred_releases ?r1))"
      using inv dn sep unfolding registry_inv_def deferred_inv_def by auto
    show "distinct (map dr_gate (deferred_releases ?r1))"
      using inv dg sep unfolding registry_inv_def deferred_inv_def by auto
  next
    fix d assume "d \<in> set (deferred_releases ?r1)"
    then have "dr_gate d < length (gates r) \<and> known_of r (dr_canonical_nickname d) =
          Some \<lparr>ki_nickname = ri_nickname (dr_identity d), ki_user_no = ri_user_no (dr_identity d)\<rparr>"
    proof (cases "d \<in> set new")
      case True
      from newD [OF this] obtain k a where "active_of r k = Some a"
        "d = \<lparr>dr_canonical_nickname = k, dr_identity = released_identity_of a, dr_gate = ai_gate a\<rparr>" by blast
      with active_okD [OF inv, of k a] show ?thesis by (simp add: active_ok_def released_identity_of_def)
    next
      case False
      with \<open>d \<in> set (deferred_releases ?r1)\<close> inv show ?thesis
        by (simp add: registry_inv_def deferred_inv_def)
    qed
    then show "dr_gate d < length (gates ?r1)" "known_of ?r1 (dr_canonical_nickname d) =
          Some \<lparr>ki_nickname = ri_nickname (dr_identity d), ki_user_no = ri_user_no (dr_identity d)\<rparr>"
      by simp_all
    show "active_of ?r1 (dr_canonical_nickname d) = None" by simp
  qed simp
  then have "registry_inv u ?r1"
    using inv by (simp add: registry_inv_def known_inv_def active_inv_def binding_inv_def gates_inv_def)
  moreover have "evolves r ?r1" by (rule evolves_same) simp_all
  moreover have "drain_active r = collect_drained_releases ?r1" by (simp add: drain_active_def new_def)
  ultimately show ?thesis using collect_ok [of u ?r1] evolves_trans [of r ?r1] by auto
qed

lemma drain_active_operation: "registry_operation u (\<lambda>r. snd (drain_active r))"
  by unfold_locales (simp_all add: drain_active_ok)

text \<open>
  The first loop of \<open>expire_migrations\<close> over identities whose gates are distinct and in
  the state their transfer says.
\<close>

definition expired :: "instant \<Rightarrow> active_identity \<Rightarrow> bool" where
  "expired now a \<longleftrightarrow> (case ai_permit a of None \<Rightarrow> False | Some p \<Rightarrow> mp_expires_at p \<le> now)"

definition after_expiry :: "instant \<Rightarrow> active_identity \<Rightarrow> active_identity" where
  "after_expiry now a = (if expired now a then a\<lparr>ai_permit := None, ai_transfer := None\<rparr> else a)"

lemma after_expiry_simps [simp]:
  "ai_known (after_expiry now a) = ai_known a" "ai_generation (after_expiry now a) = ai_generation a"
  "ai_gate (after_expiry now a) = ai_gate a" "ai_owner (after_expiry now a) = ai_owner a"
  "identity_binding_of (after_expiry now a) s = identity_binding_of a s"
  by (simp_all add: after_expiry_def identity_binding_of_def)

lemma expire_visit_eq:
  assumes "og_state (gs ! ai_gate a) = gate_state_of (ai_transfer a)"
  shows "expire_visit now a gs =
    (after_expiry now a,
     if expired now a then gs[ai_gate a := (gs ! ai_gate a)\<lparr>og_state := gate_open\<rparr>] else gs,
     expired now a \<and> ai_owner a = None)"
proof (cases "ai_transfer a")
  case None
  with assms have "(gs ! ai_gate a)\<lparr>og_state := gate_open\<rparr> = gs ! ai_gate a"
    by (cases "gs ! ai_gate a") (simp add: gate_state_of_def)
  with None show ?thesis
    by (cases a) (auto simp: expire_visit_def expired_def after_expiry_def split: option.splits)
next
  case (Some t)
  with assms show ?thesis
    by (auto simp: expire_visit_def expired_def after_expiry_def gate_reopen_exact_def gate_state_of_def
        Let_def split: option.splits)
qed

lemma expire_scan_spec:
  assumes "distinct (map (\<lambda>x. ai_gate (snd x)) xs)"
    and "\<forall>(k, a)\<in>set xs. ai_gate a < length gs \<and> og_state (gs ! ai_gate a) = gate_state_of (ai_transfer a)"
    and "expire_scan now xs gs = (ys, gs', ks)"
  shows "ys = map (\<lambda>(k, a). (k, after_expiry now a)) xs \<and>
    ks = map fst (filter (\<lambda>(k, a). expired now a \<and> ai_owner a = None) xs) \<and>
    length gs' = length gs \<and>
    (\<forall>i<length gs. og_active_operations (gs' ! i) = og_active_operations (gs ! i)) \<and>
    (\<forall>i<length gs. i \<notin> (\<lambda>x. ai_gate (snd x)) ` set xs \<longrightarrow> gs' ! i = gs ! i) \<and>
    (\<forall>(k, a)\<in>set xs. og_state (gs' ! ai_gate a) =
       (if expired now a then gate_open else og_state (gs ! ai_gate a)))"
  using assms
proof (induction xs arbitrary: gs ys gs' ks)
  case Nil
  then show ?case by simp
next
  case (Cons x xs)
  obtain k a where x: "x = (k, a)" by (cases x)
  define gs1 where "gs1 = (if expired now a then gs[ai_gate a := (gs ! ai_gate a)\<lparr>og_state := gate_open\<rparr>] else gs)"
  have a: "ai_gate a < length gs" "og_state (gs ! ai_gate a) = gate_state_of (ai_transfer a)"
    using Cons.prems(2) x by auto
  obtain ys1 gs2 ks1 where rec: "expire_scan now xs gs1 = (ys1, gs2, ks1)" by (metis prod_cases3)
  have other: "gs1 ! ai_gate b = gs ! ai_gate b" if "(k', b) \<in> set xs" for k' b
  proof -
    have "ai_gate a \<notin> (\<lambda>x. ai_gate (snd x)) ` set xs" using Cons.prems(1) x by simp
    with that have "ai_gate b \<noteq> ai_gate a" by (metis image_eqI snd_conv)
    then show ?thesis by (simp add: gs1_def)
  qed
  have ops: "og_active_operations (gs1 ! i) = og_active_operations (gs ! i)" if "i < length gs" for i
    using that a(1) by (cases "i = ai_gate a") (simp_all add: gs1_def)
  have len: "length gs1 = length gs" by (simp add: gs1_def)
  have "\<forall>(k, a)\<in>set xs. ai_gate a < length gs1 \<and> og_state (gs1 ! ai_gate a) = gate_state_of (ai_transfer a)"
    using Cons.prems(2) other len by auto
  from Cons.IH [OF _ this rec] Cons.prems(1)
  have IH: "ys1 = map (\<lambda>(k, a). (k, after_expiry now a)) xs"
    "ks1 = map fst (filter (\<lambda>(k, a). expired now a \<and> ai_owner a = None) xs)" "length gs2 = length gs1"
    "\<forall>i<length gs1. og_active_operations (gs2 ! i) = og_active_operations (gs1 ! i)"
    "\<forall>i<length gs1. i \<notin> (\<lambda>x. ai_gate (snd x)) ` set xs \<longrightarrow> gs2 ! i = gs1 ! i"
    "\<forall>(k, a)\<in>set xs. og_state (gs2 ! ai_gate a) = (if expired now a then gate_open else og_state (gs1 ! ai_gate a))"
    by auto
  have res: "ys = (k, after_expiry now a) # ys1" "gs' = gs2"
      "ks = (if expired now a \<and> ai_owner a = None then k # ks1 else ks1)"
    using Cons.prems(3) rec by (auto simp: x expire_visit_eq [OF a(2)] gs1_def)
  have "ai_gate a \<notin> (\<lambda>x. ai_gate (snd x)) ` set xs" using Cons.prems(1) x by simp
  then have mine: "gs2 ! ai_gate a = gs1 ! ai_gate a" using IH(5) a(1) len by simp
  have rest: "gs2 ! i = gs ! i" if "i < length gs" "i \<noteq> ai_gate a" "i \<notin> (\<lambda>x. ai_gate (snd x)) ` set xs" for i
    using IH(5) that len by (simp add: gs1_def)
  have states: "\<forall>(k', b)\<in>set xs. og_state (gs2 ! ai_gate b) = (if expired now b then gate_open else og_state (gs ! ai_gate b))"
    using IH(6) other by fastforce
  show ?case
    unfolding res x using IH(1-4) ops len mine rest states a
    by (auto simp: gs1_def)
qed

section \<open>The release loop\<close>

text \<open>
  \<open>expire_release\<close> works on the table after the first loop.  Its effect on everything
  but that table is the fold below, run on the registry without the keys.
\<close>

fun release_each :: "(ustring \<times> active_identity) list \<Rightarrow> identity_registry \<Rightarrow> identity_registry" where
  "release_each [] r = r"
| "release_each ((k, a) # xs) r = release_each xs (snd (release_or_defer k a r))"

lemma release_each_update:
  "release_each xs (r\<lparr>active_by_name := y\<rparr>) = (release_each xs r)\<lparr>active_by_name := y\<rparr>"
proof (induction xs arbitrary: r)
  case Nil
  then show ?case by simp
next
  case (Cons x xs)
  obtain k a where x: "x = (k, a)" by (cases x)
  obtain b r' where rel: "release_or_defer k a r = (b, r')" by fastforce
  show ?case using Cons.IH [of r'] by (simp add: x release_or_defer_update(2) rel)
qed

lemma expire_release_eq:
  assumes "distinct (map fst xs)" "\<forall>(k, a)\<in>set xs. map_of m k = Some a"
  shows "snd (expire_release (map fst xs) (r\<lparr>active_by_name := m\<rparr>)) =
    release_each xs (r\<lparr>active_by_name := fold AList.delete (map fst xs) m\<rparr>)"
  using assms
proof (induction xs arbitrary: r m)
  case Nil
  then show ?case by simp
next
  case (Cons x xs)
  obtain k a where x: "x = (k, a)" by (cases x)
  have ka: "active_of (r\<lparr>active_by_name := m\<rparr>) k = Some a" using Cons.prems(2) x by (simp add: active_of_def)
  obtain b r' where rel: "release_or_defer k a r = (b, r')" by fastforce
  have "\<forall>(k', a')\<in>set xs. map_of (AList.delete k m) k' = Some a'"
    using Cons.prems x by (force simp: image_iff)
  from Cons.IH [OF _ this, of r'] Cons.prems(1)
  have IH: "snd (expire_release (map fst xs) (r'\<lparr>active_by_name := AList.delete k m\<rparr>)) =
    release_each xs (r'\<lparr>active_by_name := fold AList.delete (map fst xs) (AList.delete k m)\<rparr>)" by simp
  show ?case
    using IH by (auto simp: x ka release_or_defer_update(2) rel split: prod.splits)
qed

lemma release_each_ok:
  assumes "registry_inv u r" "distinct (map fst xs)" "distinct (map (\<lambda>x. ai_gate (snd x)) xs)"
    and "\<forall>(k, a)\<in>set xs. active_of r k = None \<and> known_of r k = Some (ai_known a) \<and>
      ai_gate a < length (gates r) \<and> (\<forall>k' b. active_of r k' = Some b \<longrightarrow> ai_gate b \<noteq> ai_gate a) \<and>
      (\<forall>d\<in>set (deferred_releases r). dr_gate d \<noteq> ai_gate a \<and> dr_canonical_nickname d \<noteq> k)"
  shows "registry_inv u (release_each xs r) \<and> evolves r (release_each xs r)"
  using assms
proof (induction xs arbitrary: r)
  case Nil
  then show ?case by simp
next
  case (Cons x xs)
  obtain k a where x: "x = (k, a)" by (cases x)
  obtain b r' where rel: "release_or_defer k a r = (b, r')" by fastforce
  have pre: "active_of r k = None" "known_of r k = Some (ai_known a)" "ai_gate a < length (gates r)"
      "\<forall>k' b. active_of r k' = Some b \<longrightarrow> ai_gate b \<noteq> ai_gate a"
      "\<forall>d\<in>set (deferred_releases r). dr_gate d \<noteq> ai_gate a \<and> dr_canonical_nickname d \<noteq> k"
    using Cons.prems(4) x by auto
  have inv': "registry_inv u r'" by (rule inv_release_or_defer [OF Cons.prems(1) pre rel])
  have ev: "evolves r r'" by (rule evolves_release_or_defer [OF rel])
  have keep: "active_of r' = active_of r" "known_of r' = known_of r" "length (gates r') = length (gates r)"
      "set (deferred_releases r') \<subseteq> insert \<lparr>dr_canonical_nickname = k, dr_identity = released_identity_of a,
             dr_gate = ai_gate a\<rparr> (set (deferred_releases r))"
    using rel by (auto simp: release_or_defer_cases split: if_splits)
  have "\<forall>(k', a')\<in>set xs. active_of r' k' = None \<and> known_of r' k' = Some (ai_known a') \<and>
      ai_gate a' < length (gates r') \<and> (\<forall>k'' b. active_of r' k'' = Some b \<longrightarrow> ai_gate b \<noteq> ai_gate a') \<and>
      (\<forall>d\<in>set (deferred_releases r'). dr_gate d \<noteq> ai_gate a' \<and> dr_canonical_nickname d \<noteq> k')"
  proof (intro ballI, clarify)
    fix k' a' assume mem: "(k', a') \<in> set xs"
    have "k' \<noteq> k" "ai_gate a' \<noteq> ai_gate a"
      using Cons.prems(2,3) mem unfolding x by (auto simp: image_iff)
    moreover have "active_of r k' = None \<and> known_of r k' = Some (ai_known a') \<and>
      ai_gate a' < length (gates r) \<and> (\<forall>k'' b. active_of r k'' = Some b \<longrightarrow> ai_gate b \<noteq> ai_gate a') \<and>
      (\<forall>d\<in>set (deferred_releases r). dr_gate d \<noteq> ai_gate a' \<and> dr_canonical_nickname d \<noteq> k')"
      using Cons.prems(4) mem by auto
    ultimately show "active_of r' k' = None \<and> known_of r' k' = Some (ai_known a') \<and>
      ai_gate a' < length (gates r') \<and> (\<forall>k'' b. active_of r' k'' = Some b \<longrightarrow> ai_gate b \<noteq> ai_gate a') \<and>
      (\<forall>d\<in>set (deferred_releases r'). dr_gate d \<noteq> ai_gate a' \<and> dr_canonical_nickname d \<noteq> k')"
      using keep by (auto dest: subsetD)
  qed
  from Cons.IH [OF inv' _ _ this] Cons.prems(2,3) ev x rel show ?case
    by (auto intro: evolves_trans)
qed

lemma map_of_fold_delete: "map_of (fold AList.delete ks m) k = (if k \<in> set ks then None else map_of m k)"
  by (induction ks arbitrary: m) auto

lemma keys_distinct_fold_delete: "keys_distinct m \<Longrightarrow> keys_distinct (fold AList.delete ks m)"
  by (induction ks arbitrary: m) auto

lemma expire_ok:
  assumes inv: "registry_inv u r"
  shows "registry_inv u (snd (expire_migrations now r)) \<and> evolves r (snd (expire_migrations now r))"
proof -
  let ?xs = "active_by_name r" and ?gate = "\<lambda>x. ai_gate (snd x)"
  have kd: "keys_distinct ?xs" using inv by (simp add: registry_inv_def active_inv_def)
  have mem: "(k, a) \<in> set ?xs \<longleftrightarrow> active_of r k = Some a" for k a
    using kd by (simp add: active_of_def)
  have dg: "distinct (map ?gate ?xs)" by (rule active_gates_distinct [OF inv])
  have st: "\<forall>(k, a)\<in>set ?xs. ai_gate a < length (gates r) \<and> og_state (gates r ! ai_gate a) = gate_state_of (ai_transfer a)"
    using mem active_okD [OF inv] by (auto simp: active_ok_def)
  obtain ys gs ks where scan: "expire_scan now ?xs (gates r) = (ys, gs, ks)" by (metis prod_cases3)
  define gone where "gone = filter (\<lambda>(k, a). expired now a \<and> ai_owner a = None) ?xs"
  define leaving where "leaving = map (\<lambda>(k, a). (k, after_expiry now a)) gone"
  note spec = expire_scan_spec [OF dg st scan]
  have ks: "ks = map fst leaving" using spec by (simp add: leaving_def gone_def comp_def case_prod_unfold)
  have dl: "distinct (map fst leaving)" "distinct (map ?gate leaving)"
    using kd dg by (simp_all add: leaving_def gone_def comp_def case_prod_unfold distinct_map_filter)
  define m where "m = fold AList.delete ks ys"
  define r0 where "r0 = r\<lparr>active_by_name := m, gates := gs\<rparr>"
  have ys: "map_of ys k = map_option (after_expiry now) (active_of r k)" for k
    using spec by (simp add: active_of_def map_of_map)
  have kdy: "keys_distinct ys" using kd spec by (simp add: comp_def case_prod_unfold)
  have inks: "k \<in> set ks \<longleftrightarrow> (\<exists>a. active_of r k = Some a \<and> expired now a \<and> ai_owner a = None)" for k
    using mem by (force simp: ks leaving_def gone_def)
  have act0: "active_of r0 k = (if k \<in> set ks then None else map_option (after_expiry now) (active_of r k))" for k
    by (simp add: r0_def active_of_def m_def map_of_fold_delete ys [unfolded active_of_def])
  have act0D: "\<exists>a. active_of r k = Some a \<and> b = after_expiry now a \<and> \<not> (expired now a \<and> ai_owner a = None)"
    if "active_of r0 k = Some b" for k b
    using that inks [of k] by (auto simp: act0 split: if_splits)
  have views: "known_of r0 = known_of r" "name_of r0 = name_of r" "binding_of r0 = binding_of r"
    "next_user_no r0 = next_user_no r" "next_generation r0 = next_generation r"
    "next_transfer_id r0 = next_transfer_id r" "deferred_releases r0 = deferred_releases r" "gates r0 = gs"
    by (simp_all add: r0_def view_defs)
  have len: "length gs = length (gates r)" using spec by simp
  have state: "og_state (gs ! ai_gate a) = gate_state_of (ai_transfer (after_expiry now a))"
    if "active_of r k = Some a" for k a
  proof -
    from that mem have kin: "(k, a) \<in> set ?xs" by blast
    then have "og_state (gs ! ai_gate a) = (if expired now a then gate_open else og_state (gates r ! ai_gate a))"
      using spec by blast
    moreover have "og_state (gates r ! ai_gate a) = gate_state_of (ai_transfer a)" using st kin by blast
    ultimately show ?thesis by (simp add: after_expiry_def gate_state_of_def)
  qed
  have "active_inv r0"
    unfolding active_inv_def
  proof (intro conjI allI impI)
    show "keys_distinct (active_by_name r0)"
      using keys_distinct_fold_delete [OF kdy] by (simp add: r0_def m_def)
    fix k b assume "active_of r0 k = Some b"
    with act0D obtain a where a: "active_of r k = Some a" "b = after_expiry now a"
      "\<not> (expired now a \<and> ai_owner a = None)" by blast
    with active_okD [OF inv a(1)] state [OF a(1)] len show "active_ok r0 k b"
      by (auto simp: active_ok_def views after_expiry_def permit_ok_def identity_binding_of_def)
  next
    fix k k' b b'
    assume "active_of r0 k = Some b \<and> active_of r0 k' = Some b' \<and> (ai_generation b = ai_generation b' \<or> ai_gate b = ai_gate b')"
    then obtain a a' where "active_of r k = Some a" "active_of r k' = Some a'"
        "ai_generation a = ai_generation a' \<or> ai_gate a = ai_gate a'"
      using act0D by (metis after_expiry_simps(2,3))
    with inv show "k = k'" unfolding registry_inv_def active_inv_def by blast
  qed
  moreover have "deferred_inv r0"
  proof -
    have "active_of r0 k = None" if "active_of r k = None" for k using that by (simp add: act0)
    moreover have "ai_gate b \<noteq> dr_gate d" if "active_of r0 k = Some b" "d \<in> set (deferred_releases r)" for k b d
      using act0D [OF that(1)] that(2) inv unfolding registry_inv_def deferred_inv_def by auto
    ultimately show ?thesis using inv by (simp add: registry_inv_def deferred_inv_def views len)
  qed
  moreover have "gates_inv r0"
    unfolding gates_inv_def views
  proof (intro allI impI)
    fix i assume i: "i < length gs" "og_state (gs ! i) = gate_retired"
    have "og_state (gates r ! i) = gate_retired"
    proof (cases "i \<in> ?gate ` set ?xs")
      case True
      then obtain k a where "(k, a) \<in> set ?xs" "i = ai_gate a" by auto
      with spec i(2) show ?thesis by (force simp: gate_open_def gate_retired_def split: if_splits)
    next
      case False
      with spec i len show ?thesis by simp
    qed
    with inv i len spec show "og_active_operations (gs ! i) = 0"
      by (simp add: registry_inv_def gates_inv_def)
  qed
  ultimately have inv0: "registry_inv u r0"
    using inv by (simp add: registry_inv_def known_inv_def binding_inv_def views)
  have ev0: "evolves r r0"
    unfolding evolves_def views
  proof (intro conjI allI impI)
    fix i assume i: "i < length (gates r)"
    with spec show "og_active_operations (gs ! i) = og_active_operations (gates r ! i)" by simp
    assume "og_state (gates r ! i) = gate_retired"
    moreover from this have "i \<notin> ?gate ` set ?xs"
      using active_gate_not_retired [OF inv] mem by force
    ultimately show "og_state (gs ! i) = gate_retired" using spec i by simp
  qed (simp_all add: len)
  have pre: "\<forall>(k, a)\<in>set leaving. active_of r0 k = None \<and> known_of r0 k = Some (ai_known a) \<and>
      ai_gate a < length (gates r0) \<and> (\<forall>k' b. active_of r0 k' = Some b \<longrightarrow> ai_gate b \<noteq> ai_gate a) \<and>
      (\<forall>d\<in>set (deferred_releases r0). dr_gate d \<noteq> ai_gate a \<and> dr_canonical_nickname d \<noteq> k)"
  proof (intro ballI, clarify)
    fix k b assume "(k, b) \<in> set leaving"
    then obtain a where a: "active_of r k = Some a" "b = after_expiry now a" "expired now a" "ai_owner a = None"
      using mem by (auto simp: leaving_def gone_def)
    then have out: "active_of r0 k = None" using inks act0 by auto
    moreover have "ai_gate c \<noteq> ai_gate a" if c: "active_of r0 k' = Some c" for k' c
    proof
      assume eq: "ai_gate c = ai_gate a"
      obtain c0 where c0: "active_of r k' = Some c0" "c = after_expiry now c0" using act0D [OF c] by blast
      with eq a(1) inv have "k' = k" unfolding registry_inv_def active_inv_def by (metis after_expiry_simps(3))
      with c out show False by simp
    qed
    moreover have "dr_gate d \<noteq> ai_gate a \<and> dr_canonical_nickname d \<noteq> k" if "d \<in> set (deferred_releases r)" for d
      using inv a(1) that unfolding registry_inv_def deferred_inv_def by fastforce
    ultimately show "active_of r0 k = None \<and> known_of r0 k = Some (ai_known b) \<and>
      ai_gate b < length (gates r0) \<and> (\<forall>k' c. active_of r0 k' = Some c \<longrightarrow> ai_gate c \<noteq> ai_gate b) \<and>
      (\<forall>d\<in>set (deferred_releases r0). dr_gate d \<noteq> ai_gate b \<and> dr_canonical_nickname d \<noteq> k)"
      using active_okD [OF inv a(1)] a(2) by (simp add: active_ok_def views len)
  qed
  have "map_of ys k = Some b" if "(k, b) \<in> set leaving" for k b
    using that mem by (auto simp: ys leaving_def gone_def)
  then have "snd (expire_release (map fst leaving) ((r\<lparr>gates := gs\<rparr>)\<lparr>active_by_name := ys\<rparr>)) =
      release_each leaving ((r\<lparr>gates := gs\<rparr>)\<lparr>active_by_name := fold AList.delete (map fst leaving) ys\<rparr>)"
    by (intro expire_release_eq dl(1)) auto
  moreover have "(r\<lparr>gates := gs, active_by_name := y\<rparr>) = (r\<lparr>active_by_name := y, gates := gs\<rparr>)" for y by simp
  ultimately have "snd (expire_migrations now r) = release_each leaving r0"
    by (simp only: expire_migrations_def scan r0_def m_def ks case_prod_conv Let_def)
  with release_each_ok [OF inv0 dl pre] evolves_trans [OF ev0] show ?thesis by simp
qed

lemma expire_operation: "registry_operation u (\<lambda>r. snd (expire_migrations now r))"
  by unfold_locales (simp_all add: expire_ok)

end
