(* ===== verification/IdentitySteps.thy ===== *)
theory IdentitySteps
  imports IdentityOps
begin

text \<open>
  The identity registry together with the operation leases that are outstanding.  A
  step is one registry operation of the world actor, or the admission, retention or
  drop of a lease by any task.  The theory proves the invariant of all reachable
  states and the safety properties of sessions, generations and migrations.
\<close>

section \<open>The operations as interpretations of the contract\<close>

interpretation claim_op: registry_operation u "\<lambda>r. snd (claim_at u s ip requested epoch r)" for u s ip requested epoch
  by (rule claim_at_operation)

interpretation ensure_known_op: registry_operation u "\<lambda>r. snd (ensure_known_user_no u name r)" for u name
  by (rule ensure_known_operation)

interpretation offline_op: registry_operation u "\<lambda>r. snd (offline_myroom_binding u name r)" for u name
  by (rule offline_myroom_operation)

interpretation begin_op: registry_operation u "\<lambda>r. snd (begin_migration u s channel token now r)" for u s channel token now
  by (rule begin_migration_operation)

interpretation preflight_op: registry_operation u "\<lambda>r. snd (preflight_migration d ip user ch token now r)" for u d ip user ch token now
  by (rule preflight_migration_operation)

interpretation abort_op: registry_operation u "\<lambda>r. snd (abort_preflighted_migration pf r)" for u pf
  by (rule abort_operation)

interpretation prepare_op: registry_operation u "\<lambda>r. snd (prepare_preflighted_migration reserved pf now r)" for u reserved pf now
  by (rule prepare_operation)

interpretation complete_op: registry_operation u "\<lambda>r. snd (complete_preflighted_migration_at_udp_epoch reserved pf now epoch r)" for u reserved pf now epoch
  by (rule complete_operation)

interpretation abandon_op: registry_operation u "\<lambda>r. abandon_prepared_migration reserved pf now r" for u reserved pf now
  by (rule abandon_operation)

interpretation disconnect_op: registry_operation u "\<lambda>r. snd (disconnect u s now r)" for u s now
  by (rule disconnect_operation)

interpretation expire_op: registry_operation u "\<lambda>r. snd (expire_migrations now r)" for u now
  by (rule expire_operation)

interpretation collect_op: registry_operation u "\<lambda>r. snd (collect_drained_releases r)" for u
  by (rule collect_operation)

interpretation drain_op: registry_operation u "\<lambda>r. snd (drain_active r)" for u
  by (rule drain_active_operation)

section \<open>Steps\<close>

datatype identity_event =
    EClaim session_id ip_addr ustring u64
  | EKnown ustring
  | EOffline ustring
  | EBegin session_id channel_binding u16 instant
  | EPreflight session_id ip_addr u32 u16 u16 instant
  | EAbort migration_preflight
  | EComplete bool migration_preflight instant u64
  | EAbandon bool migration_preflight instant
  | EDisconnect session_id instant
  | EExpire instant
  | ECollect
  | EDrain

fun registry_event :: "unicode_tables \<Rightarrow> identity_event \<Rightarrow> identity_registry \<Rightarrow> identity_registry" where
  "registry_event u (EClaim s ip name epoch) r = snd (claim_at u s ip name epoch r)"
| "registry_event u (EKnown name) r = snd (ensure_known_user_no u name r)"
| "registry_event u (EOffline name) r = snd (offline_myroom_binding u name r)"
| "registry_event u (EBegin s channel token now) r = snd (begin_migration u s channel token now r)"
| "registry_event u (EPreflight d ip user ch token now) r = snd (preflight_migration d ip user ch token now r)"
| "registry_event u (EAbort pf) r = snd (abort_preflighted_migration pf r)"
| "registry_event u (EComplete reserved pf now epoch) r =
     snd (complete_preflighted_migration_at_udp_epoch reserved pf now epoch r)"
| "registry_event u (EAbandon reserved pf now) r = abandon_prepared_migration reserved pf now r"
| "registry_event u (EDisconnect s now) r = snd (disconnect u s now r)"
| "registry_event u (EExpire now) r = snd (expire_migrations now r)"
| "registry_event u ECollect r = snd (collect_drained_releases r)"
| "registry_event u EDrain r = snd (drain_active r)"

lemma registry_event_operation: "registry_operation u (registry_event u ev)"
proof -
  have "registry_event u ev = (\<lambda>r. registry_event u ev r)" by simp
  then show ?thesis
    by (cases ev)
      (simp_all add: claim_at_operation ensure_known_operation offline_myroom_operation
        begin_migration_operation preflight_migration_operation abort_operation complete_operation
        abandon_operation disconnect_operation expire_operation collect_operation drain_active_operation)
qed

interpretation event_op: registry_operation u "registry_event u ev" for u ev
  by (rule registry_event_operation)

record identity_system =
  sys_registry :: identity_registry
  sys_leases :: "operation_lease list"

inductive identity_step :: "unicode_tables \<Rightarrow> identity_system \<Rightarrow> identity_system \<Rightarrow> bool" for u where
  event: "identity_step u \<lparr>sys_registry = r, sys_leases = ls\<rparr>
            \<lparr>sys_registry = registry_event u ev r, sys_leases = ls\<rparr>"
| admit: "admit_operation u s r = (Inr lease, r') \<Longrightarrow>
          identity_step u \<lparr>sys_registry = r, sys_leases = ls\<rparr> \<lparr>sys_registry = r', sys_leases = lease # ls\<rparr>"
| admit_udp: "admit_udp_operation user epoch r = (Inr lease, r') \<Longrightarrow>
          identity_step u \<lparr>sys_registry = r, sys_leases = ls\<rparr> \<lparr>sys_registry = r', sys_leases = lease # ls\<rparr>"
| retain: "lease \<in> set ls \<Longrightarrow> lease_try_retain lease r = (Inr child, r') \<Longrightarrow>
          identity_step u \<lparr>sys_registry = r, sys_leases = ls\<rparr> \<lparr>sys_registry = r', sys_leases = child # ls\<rparr>"
| drop: "lease \<in> set ls \<Longrightarrow>
          identity_step u \<lparr>sys_registry = r, sys_leases = ls\<rparr>
            \<lparr>sys_registry = lease_drop lease r, sys_leases = remove1 lease ls\<rparr>"

inductive_cases identity_stepE: "identity_step u x y"

inductive identity_reachable :: "unicode_tables \<Rightarrow> identity_system \<Rightarrow> bool" for u where
  start: "identity_reachable u \<lparr>sys_registry = registry_new, sys_leases = []\<rparr>"
| step: "identity_reachable u x \<Longrightarrow> identity_step u x y \<Longrightarrow> identity_reachable u y"

section \<open>Leases\<close>

definition leases_on :: "operation_lease list \<Rightarrow> gate_ref \<Rightarrow> nat" where
  "leases_on ls i = length (filter (\<lambda>l. ol_gate l = i) ls)"

text \<open>Each gate counts exactly the leases that refer to it.\<close>

definition lease_inv :: "identity_system \<Rightarrow> bool" where
  "lease_inv x \<longleftrightarrow>
     (\<forall>l\<in>set (sys_leases x). ol_gate l < length (gates (sys_registry x))) \<and>
     (\<forall>i<length (gates (sys_registry x)).
        og_active_operations (gates (sys_registry x) ! i) = leases_on (sys_leases x) i)"

definition system_inv :: "unicode_tables \<Rightarrow> identity_system \<Rightarrow> bool" where
  "system_inv u x \<longleftrightarrow> registry_inv u (sys_registry x) \<and> lease_inv x"

lemma leases_on_simps [simp]:
  "leases_on [] i = 0"
  "leases_on (l # ls) i = (if ol_gate l = i then Suc (leases_on ls i) else leases_on ls i)"
  by (simp_all add: leases_on_def)

lemma leases_on_remove1:
  "l \<in> set ls \<Longrightarrow> leases_on ls i = (if ol_gate l = i then Suc (leases_on (remove1 l ls) i) else leases_on (remove1 l ls) i)"
  by (induction ls) auto

lemma leases_on_0_iff: "leases_on ls i = 0 \<longleftrightarrow> (\<forall>l\<in>set ls. ol_gate l \<noteq> i)"
  by (induction ls) auto

lemma gate_try_admit_Inr:
  "gate_try_admit g = (Inr x, g') \<Longrightarrow>
     og_state g = gate_open \<and> g' = g\<lparr>og_active_operations := og_active_operations g + 1\<rparr>"
  by (auto simp: gate_try_admit_def gate_admission_error_def gate_increment_def checked_add_usize_def
      split: if_splits)

lemma gate_try_retain_Inr:
  "gate_try_retain g = (Inr x, g') \<Longrightarrow>
     og_state g \<noteq> gate_retired \<and> g' = g\<lparr>og_active_operations := og_active_operations g + 1\<rparr>"
  by (auto simp: gate_try_retain_def gate_increment_def checked_add_usize_def split: if_splits)

text \<open>One more lease on the gate \<open>i\<close>.\<close>

lemma add_lease:
  assumes inv: "system_inv u \<lparr>sys_registry = r, sys_leases = ls\<rparr>" and i: "i < length (gates r)"
    and live: "og_state (gates r ! i) \<noteq> gate_retired" and lease: "ol_gate lease = i"
  shows "system_inv u \<lparr>sys_registry =
      set_gate i ((gates r ! i)\<lparr>og_active_operations := og_active_operations (gates r ! i) + 1\<rparr>) r,
      sys_leases = lease # ls\<rparr>"
proof -
  have "registry_inv u (set_gate i ((gates r ! i)\<lparr>og_active_operations := og_active_operations (gates r ! i) + 1\<rparr>) r)"
    using inv i live by (intro inv_set_gate_same_state) (auto simp: system_inv_def)
  then show ?thesis
    using inv i lease by (auto simp: system_inv_def lease_inv_def nth_list_update)
qed

lemma admit_through_Inr:
  "admit_through i b r = (Inr lease, r') \<Longrightarrow>
     og_state (gates r ! i) = gate_open \<and> lease = \<lparr>ol_gate = i, ol_binding = b\<rparr> \<and>
     r' = set_gate i ((gates r ! i)\<lparr>og_active_operations := og_active_operations (gates r ! i) + 1\<rparr>) r"
  by (auto simp: admit_through_def split: prod.splits sum.splits dest!: gate_try_admit_Inr)

lemma admit_operation_Inr:
  assumes inv: "registry_inv u r" and ok: "admit_operation u s r = (Inr lease, r')"
  obtains k a where "active_of r k = Some a" "ai_owner a = Some s" "ai_transfer a = None"
    "admit_through (ai_gate a) (identity_binding_of a s) r = (Inr lease, r')"
    "authorize u s r = Inr (identity_binding_of a s)"
proof -
  from ok obtain b where b: "authorize u s r = Inr b"
    by (auto simp: admit_operation_def split: sum.splits)
  then obtain a where a: "active_of r (canonical_nickname_key u (ib_nickname b)) = Some a"
      "ai_owner a = Some s" "ai_transfer a = None" "b = identity_binding_of a s"
    by (rule authorize_Inr [OF inv])
  with ok b show ?thesis by (intro that [OF a(1-3)]) (simp_all add: admit_operation_def)
qed

lemma admit_udp_operation_Inr:
  assumes "admit_udp_operation user epoch r = (Inr lease, r')"
  obtains k a s where "name_of r user = Some k" "active_of r k = Some a" "ai_owner a = Some s"
    "ai_transfer a = None" "og_activated_udp_epoch (gates r ! ai_gate a) < epoch"
    "admit_through (ai_gate a) (identity_binding_of a s) r = (Inr lease, r')"
proof -
  obtain k where k: "name_of r user = Some k" using assms by (cases "name_of r user") (simp_all add: admit_udp_operation_def)
  with assms obtain a where a: "active_of r k = Some a"
    by (cases "active_of r k") (simp_all add: admit_udp_operation_def)
  with assms k obtain s where s: "ai_owner a = Some s"
    by (cases "ai_owner a") (simp_all add: admit_udp_operation_def active_identity_binding_def)
  have "ai_transfer a = None" "og_activated_udp_epoch (gates r ! ai_gate a) < epoch"
    "admit_through (ai_gate a) (identity_binding_of a s) r = (Inr lease, r')"
    using assms k a s by (simp_all add: admit_udp_operation_def active_identity_binding_def split: if_splits)
  with k a s show ?thesis by (rule that)
qed

lemma system_step:
  assumes "identity_step u x y" "system_inv u x"
  shows "system_inv u y"
  using assms
proof cases
  case (event r ls ev)
  have r: "registry_inv u r" "lease_inv x" using assms(2) event(1) by (simp_all add: system_inv_def)
  from event_op.keeps_past [OF r(1), of ev] have ev: "evolves r (registry_event u ev r)" .
  have "leases_on ls i = 0" if "length (gates r) \<le> i" for i
    using r(2) event(1) that by (fastforce simp: lease_inv_def leases_on_0_iff)
  note zero = this
  let ?r = "registry_event u ev r"
  have le: "length (gates r) \<le> length (gates ?r)" using ev by (simp add: evolves_def)
  have ops: "og_active_operations (gates ?r ! i) = leases_on ls i" if "i < length (gates ?r)" for i
  proof (cases "i < length (gates r)")
    case True
    with ev r(2) event(1) show ?thesis by (simp add: evolves_def lease_inv_def)
  next
    case False
    with ev zero [of i] that show ?thesis by (simp add: evolves_def)
  qed
  have "ol_gate l < length (gates ?r)" if "l \<in> set ls" for l
    using r(2) event(1) that le by (fastforce simp: lease_inv_def)
  with ops event event_op.keeps_inv [OF r(1), of ev] show ?thesis
    by (simp add: system_inv_def lease_inv_def)
next
  case (admit s r lease r' ls)
  have inv: "registry_inv u r" using assms(2) admit(1) by (simp add: system_inv_def)
  obtain k a where a: "active_of r k = Some a"
      "admit_through (ai_gate a) (identity_binding_of a s) r = (Inr lease, r')"
    using admit_operation_Inr [OF inv admit(3)] by metis
  have "ai_gate a < length (gates r)" using active_okD [OF inv a(1)] by (simp add: active_ok_def)
  with add_lease [of u r ls "ai_gate a" lease] admit_through_Inr [OF a(2)] assms(2) admit
    active_gate_not_retired [OF inv a(1)]
  show ?thesis by simp
next
  case (admit_udp user epoch r lease r' ls)
  have inv: "registry_inv u r" using assms(2) admit_udp(1) by (simp add: system_inv_def)
  obtain k a s where a: "active_of r k = Some a"
      "admit_through (ai_gate a) (identity_binding_of a s) r = (Inr lease, r')"
    using admit_udp_operation_Inr [OF admit_udp(3)] by metis
  have "ai_gate a < length (gates r)" using active_okD [OF inv a(1)] by (simp add: active_ok_def)
  with add_lease [of u r ls "ai_gate a" lease] admit_through_Inr [OF a(2)] assms(2) admit_udp
    active_gate_not_retired [OF inv a(1)]
  show ?thesis by simp
next
  case (retain lease ls r child r')
  then have "ol_gate lease < length (gates r)" using assms(2) by (simp add: system_inv_def lease_inv_def)
  moreover from retain(4) have "og_state (gates r ! ol_gate lease) \<noteq> gate_retired" "child = lease"
     "r' = set_gate (ol_gate lease)
       ((gates r ! ol_gate lease)\<lparr>og_active_operations := og_active_operations (gates r ! ol_gate lease) + 1\<rparr>) r"
    by (auto simp: lease_try_retain_def split: prod.splits sum.splits dest!: gate_try_retain_Inr)
  ultimately show ?thesis using add_lease [of u r ls "ol_gate lease" lease] assms(2) retain by simp
next
  case (drop lease ls r)
  let ?i = "ol_gate lease"
  have i: "?i < length (gates r)" using assms(2) drop by (simp add: system_inv_def lease_inv_def)
  have n: "og_active_operations (gates r ! ?i) = leases_on ls ?i"
    using assms(2) drop i by (simp add: system_inv_def lease_inv_def)
  have pos: "leases_on ls ?i \<noteq> 0" using drop(3) by (auto simp: leases_on_0_iff)
  have rem: "leases_on (remove1 lease ls) j = (if j = ?i then leases_on ls j - 1 else leases_on ls j)" for j
    using leases_on_remove1 [OF drop(3), of j] by (auto split: if_splits)
  have "registry_inv u (lease_drop lease r)"
    unfolding lease_drop_def using assms(2) drop i
    by (intro inv_set_gate_same_state)
      (auto simp: system_inv_def gate_release_def registry_inv_def gates_inv_def)
  moreover have "lease_inv y"
    using assms(2) drop i n pos rem
    by (auto simp: system_inv_def lease_inv_def lease_drop_def gate_release_def nth_list_update
        dest: notin_set_remove1)
  ultimately show ?thesis using drop by (simp add: system_inv_def)
qed

lemma registry_new_inv: "registry_inv u registry_new"
  by (simp add: registry_inv_defs registry_new_def view_defs)

lemma identity_reachable_inv: "identity_reachable u x \<Longrightarrow> system_inv u x"
proof (induction rule: identity_reachable.induct)
  case start
  show ?case by (simp add: system_inv_def lease_inv_def registry_new_inv) (simp add: registry_new_def)
next
  case (step x y)
  show ?case by (rule system_step [OF step.hyps(2) step.IH])
qed

section \<open>Sessions and generations\<close>

lemma reachable_registry: "identity_reachable u x \<Longrightarrow> registry_inv u (sys_registry x)"
  using identity_reachable_inv by (simp add: system_inv_def)

lemma known_key_unique:
  assumes "registry_inv u r" "known_of r k = Some kn" "known_of r k' = Some kn'" "ki_user_no kn = ki_user_no kn'"
  shows "k = k'"
  using assms by (metis known_inv_def option.inject registry_inv_def)

lemma authorized_unique:
  assumes inv: "registry_inv u r" and ok: "authorize u s1 r = Inr b1" "authorize u s2 r = Inr b2"
    and same: "ib_user_no b1 = ib_user_no b2"
  shows "s1 = s2 \<and> b1 = b2"
proof -
  obtain a1 where 1: "active_of r (canonical_nickname_key u (ib_nickname b1)) = Some a1"
      "ai_owner a1 = Some s1" "b1 = identity_binding_of a1 s1"
    by (rule authorize_Inr [OF inv ok(1)])
  obtain a2 where 2: "active_of r (canonical_nickname_key u (ib_nickname b2)) = Some a2"
      "ai_owner a2 = Some s2" "b2 = identity_binding_of a2 s2"
    by (rule authorize_Inr [OF inv ok(2)])
  have "ki_user_no (ai_known a1) = ki_user_no (ai_known a2)"
    using same 1(3) 2(3) by (simp add: identity_binding_of_def)
  moreover have "known_of r (canonical_nickname_key u (ib_nickname b1)) = Some (ai_known a1)"
      "known_of r (canonical_nickname_key u (ib_nickname b2)) = Some (ai_known a2)"
    using active_okD [OF inv 1(1)] active_okD [OF inv 2(1)] by (simp_all add: active_ok_def)
  ultimately have "canonical_nickname_key u (ib_nickname b1) = canonical_nickname_key u (ib_nickname b2)"
    by (metis known_key_unique [OF inv])
  with 1 2 have "a1 = a2" by simp
  with 1 2 show ?thesis by simp
qed

text \<open>After completion the destination owns a generation newer than every session known before.\<close>

lemma complete_fences:
  assumes inv: "registry_inv u r"
    and res: "complete_preflighted_migration_at_udp_epoch reserved pf now epoch r = (Inr c, r')"
  shows "authorize u (pf_destination_session pf) r' = Inr (mc_binding c)"
    and "\<And>s b. binding_of r s = Some b \<Longrightarrow> ib_generation b < ib_generation (mc_binding c)"
    and "\<And>s b. binding_of r s = Some b \<Longrightarrow> ib_user_no b = ib_user_no (mc_binding c) \<Longrightarrow>
           authorize u s r' = Inl (StaleSession s)"
proof -
  from complete_cases [OF inv res] obtain a p where ready: "preflight_ready pf now r a p"
    and c: "c = migration_result pf a p (next_generation r)" and r': "r' = published pf a p epoch r" by auto
  let ?k = "pf_canonical_nickname pf" and ?d = "pf_destination_session pf"
  from ready have a: "active_of r ?k = Some a" "binding_of r ?d = None" "mp_channel p = pf_channel pf"
    by (simp_all add: preflight_ready_def validate_migration_Inr)
  have inv': "registry_inv u r'" using published_ok(1) [OF inv ready] by (simp add: r')
  define a' where "a' = a\<lparr>ai_generation := next_generation r, ai_owner := Some ?d, ai_owner_ip := pf_destination_ip pf,
      ai_channel := Some (pf_channel pf), ai_permit := None, ai_transfer := None, ai_gate := length (gates r)\<rparr>"
  have act: "active_of r' = (active_of r)(?k \<mapsto> a')"
    by (simp add: r' published_def Let_def a'_def active_of_def)
  have bind: "binding_of r' = (binding_of r)(?d \<mapsto> identity_binding_of a' ?d)"
    by (simp add: r' published_def Let_def a'_def binding_of_def)
  have mc: "mc_binding c = identity_binding_of a' ?d"
    using a(3) by (simp add: c migration_result_def identity_binding_of_def a'_def)
  show "authorize u ?d r' = Inr (mc_binding c)"
    using authorize_owner [OF inv', of ?k a' ?d] by (simp add: act mc) (simp add: a'_def)
  show "ib_generation b < ib_generation (mc_binding c)" if "binding_of r s = Some b" for s b
    using inv that by (simp add: mc identity_binding_of_def a'_def registry_inv_def binding_inv_def)
  show "authorize u s r' = Inl (StaleSession s)"
    if b: "binding_of r s = Some b" and user: "ib_user_no b = ib_user_no (mc_binding c)" for s b
  proof -
    have "s \<noteq> ?d" using b a(2) by auto
    have "known_of r (canonical_nickname_key u (ib_nickname b)) =
        Some \<lparr>ki_nickname = ib_nickname b, ki_user_no = ib_user_no b\<rparr>"
      using inv b by (simp add: registry_inv_def binding_inv_def)
    moreover have "known_of r ?k = Some (ai_known a)" using active_okD [OF inv a(1)] by (simp add: active_ok_def)
    moreover have "ki_user_no (ai_known a) = ib_user_no b" using user by (simp add: mc identity_binding_of_def a'_def)
    ultimately have "canonical_nickname_key u (ib_nickname b) = ?k"
      by (metis known_key_unique [OF inv] known_identity.select_convs(2))
    with b \<open>s \<noteq> ?d\<close> show ?thesis
      by (simp add: authorize_def bind act) (simp add: a'_def)
  qed
qed

text \<open>A frozen identity admits nothing; its transfer is the ticket's.\<close>

lemma preflight_freezes:
  assumes inv: "registry_inv u r" and res: "preflight_migration d ip user ch token now r = (Inr pf, r')"
  obtains k a p where "active_of r' k = Some a" "ai_transfer a = Some (pf_transfer_id pf)"
    "ai_permit a = Some p" "name_of r' user = Some k" "ai_gate a = pf_gate pf" "pf_canonical_nickname pf = k"
    "\<And>s b. authorize u s r = Inr b \<Longrightarrow> ib_user_no b = user \<Longrightarrow> ai_owner a = Some s"
proof (cases rule: preflight_migration_Inr [OF inv res])
  case (1 k a p m)
  let ?a = "a\<lparr>ai_transfer := Some (next_transfer_id r)\<rparr>"
  from 1(1) have a: "active_of r k = Some a" "ai_permit a = Some p" "name_of r user = Some k"
    by (simp_all add: validate_migration_Inr)
  have owner: "ai_owner ?a = Some s" if auth: "authorize u s r = Inr b" and user: "ib_user_no b = user" for s b
  proof -
    obtain a2 where 2: "active_of r (canonical_nickname_key u (ib_nickname b)) = Some a2"
      "ai_owner a2 = Some s" "b = identity_binding_of a2 s" by (rule authorize_Inr [OF inv auth])
    have "known_of r (canonical_nickname_key u (ib_nickname b)) = Some (ai_known a2)"
      using active_okD [OF inv 2(1)] by (simp add: active_ok_def)
    then have "name_of r (ki_user_no (ai_known a2)) = Some (canonical_nickname_key u (ib_nickname b))"
      using inv by (simp add: registry_inv_def known_inv_def)
    moreover have "ki_user_no (ai_known a2) = user" using 2(3) user by (simp add: identity_binding_of_def)
    ultimately have "canonical_nickname_key u (ib_nickname b) = k" using a(3) by simp
    with 2 a show ?thesis by simp
  qed
  show ?thesis
    by (rule that [of k ?a p]) (use 1 a owner in simp_all)
qed

lemma frozen_admission:
  assumes inv: "registry_inv u r" and a: "active_of r k = Some a" "ai_transfer a = Some t"
  shows "ai_owner a = Some s \<Longrightarrow> admit_operation u s r = (Inl (TransferInProgress (ki_nickname (ai_known a))), r)"
    and "name_of r user = Some k \<Longrightarrow> \<exists>e. admit_udp_operation user epoch r = (Inl e, r)"
proof -
  show "admit_operation u s r = (Inl (TransferInProgress (ki_nickname (ai_known a))), r)" if "ai_owner a = Some s"
    using authorize_owner [OF inv a(1) that] a(2) by (simp add: admit_operation_def)
  show "\<exists>e. admit_udp_operation user epoch r = (Inl e, r)" if "name_of r user = Some k"
    using a that by (cases "ai_owner a") (simp_all add: admit_udp_operation_def active_identity_binding_def)
qed

text \<open>Aborting a ticket that was just issued restores the registry.\<close>

lemma abort_undoes_preflight:
  assumes inv: "registry_inv u r" and res: "preflight_migration d ip user ch token now r = (Inr pf, r')"
  shows "fst (abort_preflighted_migration pf r')"
    and "active_of (snd (abort_preflighted_migration pf r')) = active_of r"
    and "gates (snd (abort_preflighted_migration pf r')) = gates r"
    and "session_bindings (snd (abort_preflighted_migration pf r')) = session_bindings r"
proof -
  from res have "fst (abort_preflighted_migration pf r') \<and>
      active_of (snd (abort_preflighted_migration pf r')) = active_of r \<and>
      gates (snd (abort_preflighted_migration pf r')) = gates r \<and>
      session_bindings (snd (abort_preflighted_migration pf r')) = session_bindings r"
  proof (cases rule: preflight_migration_Inr [OF inv res])
    case (1 k a p m)
    then have a: "active_of r k = Some a" "ai_permit a = Some p" "mp_source_generation p = ai_generation a"
        "mp_user_no p = user" "mp_token p = token"
      by (simp_all add: validate_migration_Inr)
    have ok: "active_ok r k a" by (rule active_okD [OF inv a(1)])
    then have g: "ai_gate a < length (gates r)" "og_state (gates r ! ai_gate a) = gate_open"
      using 1(2) by (simp_all add: active_ok_def gate_state_of_def)
    have restored: "(gates r ! ai_gate a)\<lparr>og_state := gate_open\<rparr> = gates r ! ai_gate a"
      using g(2) by (cases "gates r ! ai_gate a") simp
    have "a\<lparr>ai_transfer := None\<rparr> = a" using 1(2) by (cases a) simp
    then show ?thesis
      using 1 a g by (simp add: abort_preflighted_migration_def gate_reopen_exact_def Let_def restored fun_upd_idem)
  qed
  then show "fst (abort_preflighted_migration pf r')"
    and "active_of (snd (abort_preflighted_migration pf r')) = active_of r"
    and "gates (snd (abort_preflighted_migration pf r')) = gates r"
    and "session_bindings (snd (abort_preflighted_migration pf r')) = session_bindings r" by auto
qed

text \<open>A ticket completes as soon as the last lease of its generation is gone.\<close>

lemma preflight_completes:
  assumes inv: "registry_inv u r" and res: "preflight_migration d ip user ch token now r = (Inr pf, r')"
    and drained: "og_active_operations (gates r' ! pf_gate pf) = 0" and time: "now' < pf_expires_at pf"
    and room: "next_generation r \<noteq> - 1" "next_generation r \<noteq> - 2"
  shows "\<exists>c r''. complete_preflighted_migration_at_udp_epoch True pf now' epoch r' = (Inr c, r'')"
proof (cases rule: preflight_migration_Inr [OF inv res])
  case (1 k a p m)
  then have a: "active_of r k = Some a" "ai_permit a = Some p" "binding_of r d = None" "name_of r user = Some k"
      "mp_user_no p = user" "cb_channel_id (mp_channel p) = ch" "mp_token p = token" "mp_source_ip p = ip"
      "mp_source_generation p = ai_generation a" "\<forall>owner. ai_owner a = Some owner \<longrightarrow> owner = mp_source_session p"
    by (simp_all add: validate_migration_Inr)
  have inv': "registry_inv u r'" using preflight_op.keeps_inv [OF inv, of d ip user ch token now] res by simp
  have g: "ai_gate a < length (gates r)" using active_okD [OF inv a(1)] by (simp add: active_ok_def)
  have pos: "next_generation r \<noteq> 0" using inv by (simp add: registry_inv_def known_inv_def word_gt_0)
  have room': "next_generation r \<noteq> - 1" "next_generation r + 1 \<noteq> - 1"
    using room by (auto simp: eq_neg_iff_add_eq_0 add.commute add.left_commute)
  have ng: "next_generation r' = next_generation r" using 1 by simp
  have "preflight_ready pf now' r' (a\<lparr>ai_transfer := Some (next_transfer_id r)\<rparr>) p"
    using 1 a g drained time pos room'
    by (cases "ai_owner a")
      (simp_all add: preflight_ready_def validate_migration_Inr source_state_from_owner_def)
  from complete_ready [OF inv' this, of epoch] room' ng show ?thesis by auto
qed

text \<open>The identity a disconnect releases has no lease left.\<close>

lemma released_drained:
  assumes inv: "system_inv u x" and res: "disconnect u s now (sys_registry x) = (Released i, r')"
  obtains k a where "active_of (sys_registry x) k = Some a" "ai_owner a = Some s" "i = released_identity_of a"
    "leases_on (sys_leases x) (ai_gate a) = 0" "og_state (gates r' ! ai_gate a) = gate_retired"
proof -
  have ri: "registry_inv u (sys_registry x)" using inv by (simp add: system_inv_def)
  show ?thesis
    using ri
  proof (cases rule: disconnect_cases [of u "sys_registry x" s now])
    case (gone k a g b r0)
    have gate: "ai_gate a < length (gates (sys_registry x))"
      using active_okD [OF ri gone(1)] by (simp add: active_ok_def)
    from gone res have b: "b" "i = released_identity_of a" "r0 = r'" by (auto split: if_splits)
    with gone(4,5) gate have "og_active_operations (gates (sys_registry x) ! ai_gate a) = 0"
        "og_state (gates r' ! ai_gate a) = gate_retired"
      by (auto simp: release_or_defer_cases gate_is_drained_def split: if_splits)
    with gone b gate inv show ?thesis
      by (intro that) (auto simp: system_inv_def lease_inv_def)
  qed (use res in auto)
qed

text \<open>Shutdown revokes every session and keeps exactly the generations with leases.\<close>

lemma drain_active_revokes:
  assumes inv: "system_inv u x" and res: "drain_active (sys_registry x) = (released, r')"
  shows "authorize u s r' = Inl (UnauthenticatedSession s)" and "active_by_name r' = []"
    and "d \<in> set (deferred_releases r') \<Longrightarrow> leases_on (sys_leases x) (dr_gate d) \<noteq> 0"
proof -
  let ?r = "sys_registry x"
  have ri: "registry_inv u ?r" using inv by (simp add: system_inv_def)
  define new where "new = map (\<lambda>(key, active). \<lparr>dr_canonical_nickname = key,
              dr_identity = released_identity_of active, dr_gate = ai_gate active\<rparr>) (active_by_name ?r)"
  obtain rel kept gs where c: "collect_pending (deferred_releases ?r @ new) (gates ?r) = (rel, kept, gs)"
    by (metis prod_cases3)
  have r': "r' = ?r\<lparr>session_bindings := [], active_by_name := [], deferred_releases := kept, gates := gs\<rparr>"
    using res c by (simp add: drain_active_def collect_drained_releases_def new_def [symmetric])
  show "authorize u s r' = Inl (UnauthenticatedSession s)" by (simp add: r' authorize_def)
  show "active_by_name r' = []" by (simp add: r')
  show "leases_on (sys_leases x) (dr_gate d) \<noteq> 0" if "d \<in> set (deferred_releases r')"
  proof -
    have gates: "\<forall>d\<in>set (deferred_releases ?r @ new). dr_gate d < length (gates ?r)"
    proof
      fix e assume "e \<in> set (deferred_releases ?r @ new)"
      then consider "e \<in> set (deferred_releases ?r)" | k a where "(k, a) \<in> set (active_by_name ?r)" "dr_gate e = ai_gate a"
        by (auto simp: new_def)
      then show "dr_gate e < length (gates ?r)"
      proof cases
        case 1
        with ri show ?thesis by (simp add: registry_inv_def deferred_inv_def)
      next
        case (2 k a)
        with ri have "active_of ?r k = Some a" by (simp add: registry_inv_def active_inv_def active_of_def)
        with active_okD [OF ri this] 2 show ?thesis by (simp add: active_ok_def)
      qed
    qed
    from collect_pending_spec [OF c gates]
    have "kept = filter (\<lambda>d. og_active_operations (gates ?r ! dr_gate d) \<noteq> 0) (deferred_releases ?r @ new)" by blast
    with that gates inv show ?thesis
      by (auto simp: r' system_inv_def lease_inv_def)
  qed
qed

end
