(* ===== verification/IdentityProps.thy ===== *)
theory IdentityProps
  imports IdentitySteps
begin

text \<open>
  The properties of the identity registry, each for every reachable state, with
  concrete instances.  The instances use the identity function for normalization and
  case folding, a session 7 that claims the name Ab, receives a migration permit at
  time 1000, and a session 8 that redeems it.
\<close>

section \<open>A concrete run\<close>

definition demo_tables :: unicode_tables where
  "demo_tables = \<lparr>nfc = (\<lambda>s. s), case_fold = (\<lambda>s. s)\<rparr>"

definition demo_ip :: ip_addr where "demo_ip = V4 [127, 0, 0, 1]"
definition demo_channel :: channel_binding where "demo_channel = \<lparr>cb_channel_id = 3, cb_game_type = 1\<rparr>"

definition demo_claimed :: identity_registry where
  "demo_claimed = registry_event demo_tables (EClaim 7 demo_ip [65, 98] 5) registry_new"

definition demo_permitted :: identity_registry where
  "demo_permitted = registry_event demo_tables (EBegin 7 demo_channel 99 1000) demo_claimed"

definition demo_ticket :: migration_preflight where
  "demo_ticket = \<lparr>pf_transfer_id = 1, pf_destination_session = 8, pf_destination_ip = demo_ip,
     pf_user_no = 1, pf_channel_id = 3, pf_channel = demo_channel, pf_token = 99,
     pf_source_generation = 1, pf_source_state = Connected 7, pf_source_session = 7,
     pf_expires_at = 15000001000, pf_nickname = [65, 98], pf_canonical_nickname = [65, 98], pf_gate = 0\<rparr>"

definition demo_frozen :: identity_registry where
  "demo_frozen = registry_event demo_tables (EPreflight 8 demo_ip 1 3 99 2000) demo_permitted"

lemma demo_names:
  "normalize_nickname demo_tables [65, 98] = Inr [65, 98]"
  "canonical_nickname_key demo_tables s = s" "trim [65, 98] = [65, 98]"
  by (simp_all add: normalize_nickname_def canonical_nickname_key_def demo_tables_def trim_def is_whitespace_def
      Let_def encode_utf16_def encode_utf16_char_def maximum_nickname_length_def ustr_def ends_with_def
      is_control_def invalid_windows_punctuation_def base_name_def reserved_windows_names_def
      eq_ignore_ascii_case_def to_ascii_lower_def)

definition demo_binding :: identity_binding where
  "demo_binding = \<lparr>ib_nickname = [65, 98], ib_user_no = 1, ib_generation = 1, ib_owner = 7,
     ib_source_ip = demo_ip, ib_channel = None\<rparr>"

definition demo_permit :: migration_permit where
  "demo_permit = \<lparr>mp_user_no = 1, mp_source_generation = 1, mp_source_session = 7, mp_source_ip = demo_ip,
     mp_channel = demo_channel, mp_token = 99, mp_expires_at = 15000001000\<rparr>"

text \<open>The registries of the run, written out.\<close>

definition demo_registry :: "migration_permit option \<Rightarrow> u64 option \<Rightarrow> u64 \<Rightarrow> operation_gate \<Rightarrow> identity_registry" where
  "demo_registry permit transfer next_transfer g =
     \<lparr>known_by_name = [([65, 98], \<lparr>ki_nickname = [65, 98], ki_user_no = 1\<rparr>)],
      name_by_user_no = [(1, [65, 98])],
      active_by_name = [([65, 98], \<lparr>ai_known = \<lparr>ki_nickname = [65, 98], ki_user_no = 1\<rparr>,
        ai_generation = 1, ai_owner = Some 7, ai_owner_ip = demo_ip, ai_channel = None,
        ai_permit = permit, ai_transfer = transfer, ai_gate = 0\<rparr>)],
      session_bindings = [(7, demo_binding)], deferred_releases = [], next_user_no = 2,
      next_generation = 2, next_transfer_id = next_transfer, gates = [g]\<rparr>"

lemma demo_claimed_eq: "demo_claimed = demo_registry None None 1 (gate_shared 5)"
  by (simp add: demo_claimed_def claim_at_def demo_names registry_new_def view_defs ensure_known_user_no_def
      allocate_user_no_def allocate_generation_def checked_succ_def Let_def alloc_gate_def set_active_def
      demo_registry_def demo_binding_def)

lemma demo_permitted_eq: "demo_permitted = demo_registry (Some demo_permit) None 1 (gate_shared 5)"
  by (simp add: demo_permitted_def demo_claimed_eq demo_registry_def begin_migration_def authorize_def view_defs
      demo_names instant_checked_add_def migration_ttl_def instant_limit_def Let_def set_active_def
      demo_binding_def demo_permit_def)

lemma demo_preflight:
  "preflight_migration 8 demo_ip 1 3 99 2000 demo_permitted =
     (Inr demo_ticket, demo_registry (Some demo_permit) (Some 1) 2 ((gate_shared 5)\<lparr>og_state := 1\<rparr>))"
  by (simp add: demo_permitted_eq demo_registry_def preflight_migration_def validate_migration_def view_defs
      demo_permit_def demo_channel_def allocate_transfer_id_def checked_succ_def Let_def gate_freeze_def
      gate_shared_def gate_open_def demo_ticket_def source_state_from_owner_def set_active_def set_gate_def)

lemma demo_frozen_eq:
  "demo_frozen = demo_registry (Some demo_permit) (Some 1) 2 ((gate_shared 5)\<lparr>og_state := 1\<rparr>)"
  by (simp add: demo_frozen_def demo_preflight)

lemma demo_reachable:
  "identity_reachable demo_tables \<lparr>sys_registry = demo_claimed, sys_leases = []\<rparr>"
  "identity_reachable demo_tables \<lparr>sys_registry = demo_permitted, sys_leases = []\<rparr>"
  "identity_reachable demo_tables \<lparr>sys_registry = demo_frozen, sys_leases = []\<rparr>"
proof -
  show 1: "identity_reachable demo_tables \<lparr>sys_registry = demo_claimed, sys_leases = []\<rparr>"
    unfolding demo_claimed_def
    by (rule identity_reachable.step [OF identity_reachable.start identity_step.event])
  show 2: "identity_reachable demo_tables \<lparr>sys_registry = demo_permitted, sys_leases = []\<rparr>"
    unfolding demo_permitted_def by (rule identity_reachable.step [OF 1 identity_step.event])
  show "identity_reachable demo_tables \<lparr>sys_registry = demo_frozen, sys_leases = []\<rparr>"
    unfolding demo_frozen_def by (rule identity_reachable.step [OF 2 identity_step.event])
qed

lemma demo_authorize: "authorize demo_tables 7 demo_claimed = Inr demo_binding"
  "authorize demo_tables 7 demo_permitted = Inr demo_binding"
  by (simp_all add: demo_claimed_eq demo_permitted_eq demo_registry_def authorize_def view_defs demo_names
      demo_binding_def)

lemma demo_complete:
  "\<exists>r'. complete_preflighted_migration_at_udp_epoch True demo_ticket 3000 6 demo_frozen =
     (Inr \<lparr>mc_binding = demo_binding\<lparr>ib_generation := 2, ib_owner := 8, ib_channel := Some demo_channel\<rparr>,
           mc_previous_binding = demo_binding,
           mc_previous_identity = \<lparr>ri_nickname = [65, 98], ri_user_no = 1, ri_generation = 1,
             ri_source_ip = demo_ip, ri_channel = None\<rparr>,
           mc_previous_owner = Some 7\<rparr>, r')"
proof -
  let ?a = "\<lparr>ai_known = \<lparr>ki_nickname = [65, 98], ki_user_no = 1\<rparr>,
        ai_generation = 1, ai_owner = Some 7, ai_owner_ip = demo_ip, ai_channel = None,
        ai_permit = Some demo_permit, ai_transfer = Some 1, ai_gate = 0\<rparr>"
  have ready: "preflight_ready demo_ticket 3000 demo_frozen ?a demo_permit"
    by (simp add: preflight_ready_def validate_migration_Inr demo_frozen_eq demo_registry_def view_defs
        demo_ticket_def demo_permit_def demo_channel_def gate_shared_def)
  have inv: "registry_inv demo_tables demo_frozen" using reachable_registry [OF demo_reachable(3)] by simp
  from complete_ready [OF inv ready, of 6] show ?thesis
    by (simp add: demo_frozen_eq demo_registry_def migration_result_def demo_ticket_def demo_binding_def
        demo_permit_def identity_binding_of_def released_identity_of_def)
qed

section \<open>Properties\<close>

text \<open>C15: every state the registry and its leases can reach satisfies the invariant:
  names and user numbers correspond one to one, every active identity owns its session
  binding, a frozen identity holds a permit and its gate carries exactly its transfer
  ID, generations and gates are never shared, deferred releases are disjoint from
  active identities, a retired gate has no operation, and every gate counts exactly
  the outstanding leases on it.\<close>

theorem reachable_states_consistent:
  assumes "identity_reachable u x"
  shows "system_inv u x"
  by (rule identity_reachable_inv [OF assms])

lemma reachable_states_consistent_witness:
  "system_inv demo_tables \<lparr>sys_registry = demo_frozen, sys_leases = []\<rparr>"
  by (rule reachable_states_consistent [OF demo_reachable(3)])

text \<open>C16: at any time at most one session is authorized for a user number, and it is
  authorized with one binding.\<close>

theorem single_owner:
  assumes "identity_reachable u x"
    and "authorize u s1 (sys_registry x) = Inr b1" "authorize u s2 (sys_registry x) = Inr b2"
    and "ib_user_no b1 = ib_user_no b2"
  shows "s1 = s2 \<and> b1 = b2"
  by (rule authorized_unique [OF reachable_registry [OF assms(1)] assms(2-4)])

lemma single_owner_witness:
  "authorize demo_tables 7 demo_claimed = Inr demo_binding \<and> demo_binding = demo_binding"
  using single_owner [OF demo_reachable(1), of 7 demo_binding 7 demo_binding] by (simp add: demo_authorize)

text \<open>C17: a completed migration authorizes the destination with a generation newer than
  that of every session known before, and every other session of the user is stale from
  then on.\<close>

theorem migration_fences_old_sessions:
  assumes "identity_reachable u x"
    and "complete_preflighted_migration_at_udp_epoch reserved pf now epoch (sys_registry x) = (Inr c, r')"
  shows "authorize u (pf_destination_session pf) r' = Inr (mc_binding c) \<and>
    (\<forall>s b. binding_of (sys_registry x) s = Some b \<longrightarrow>
       ib_generation b < ib_generation (mc_binding c) \<and>
       (ib_user_no b = ib_user_no (mc_binding c) \<longrightarrow> authorize u s r' = Inl (StaleSession s)))"
  using complete_fences [OF reachable_registry [OF assms(1)] assms(2)] by blast

lemma migration_fences_old_sessions_witness:
  "\<exists>c r'. complete_preflighted_migration_at_udp_epoch True demo_ticket 3000 6 demo_frozen = (Inr c, r') \<and>
     authorize demo_tables 8 r' = Inr (mc_binding c)"
proof -
  obtain c r' where c: "complete_preflighted_migration_at_udp_epoch True demo_ticket 3000 6 demo_frozen = (Inr c, r')"
    using demo_complete by blast
  with migration_fences_old_sessions [OF demo_reachable(3), of True demo_ticket 3000 6 c r']
  show ?thesis by (auto simp: demo_ticket_def)
qed



text \<open>C19: while an identity is frozen for a channel transfer its owner is refused with
  \<open>TransferInProgress\<close> and no UDP datagram of the user is admitted, so the leases on its
  gate can only be retained children or drain.\<close>

theorem frozen_identity_admits_nothing:
  assumes "identity_reachable u x"
    and "preflight_migration d ip user ch token now (sys_registry x) = (Inr pf, r')"
  shows "(\<forall>s b. authorize u s (sys_registry x) = Inr b \<and> ib_user_no b = user \<longrightarrow>
            (\<exists>name. admit_operation u s r' = (Inl (TransferInProgress name), r'))) \<and>
         (\<forall>epoch. \<exists>e. admit_udp_operation user epoch r' = (Inl e, r'))"
proof -
  note inv = reachable_registry [OF assms(1)]
  have inv': "registry_inv u r'" using preflight_op.keeps_inv [OF inv, of d ip user ch token now] assms(2) by simp
  obtain k a where a: "active_of r' k = Some a" "ai_transfer a = Some (pf_transfer_id pf)" "name_of r' user = Some k"
      "\<And>s b. authorize u s (sys_registry x) = Inr b \<Longrightarrow> ib_user_no b = user \<Longrightarrow> ai_owner a = Some s"
    by (rule preflight_freezes [OF inv assms(2)]) blast
  show ?thesis using frozen_admission [OF inv' a(1,2)] a(3,4) by blast
qed

lemma frozen_identity_admits_nothing_witness:
  "\<exists>name. admit_operation demo_tables 7 demo_frozen = (Inl (TransferInProgress name), demo_frozen)"
  using frozen_identity_admits_nothing [OF demo_reachable(2), of 8 demo_ip 1 3 99 2000 demo_ticket demo_frozen]
    demo_preflight demo_authorize(2)
  by (auto simp: demo_frozen_eq demo_binding_def)



text \<open>C21: aborting a ticket that was just issued always takes effect and restores the active
  identities, the gates and the session index as they were before the preflight.\<close>

theorem abort_restores:
  assumes "identity_reachable u x"
    and "preflight_migration d ip user ch token now (sys_registry x) = (Inr pf, r')"
  shows "\<exists>r''. abort_preflighted_migration pf r' = (True, r'') \<and>
    active_of r'' = active_of (sys_registry x) \<and> gates r'' = gates (sys_registry x) \<and>
    session_bindings r'' = session_bindings (sys_registry x)"
  using abort_undoes_preflight [OF reachable_registry [OF assms(1)] assms(2)]
  by (metis prod.collapse)

lemma abort_restores_witness:
  "\<exists>r''. abort_preflighted_migration demo_ticket demo_frozen = (True, r'') \<and> gates r'' = gates demo_permitted"
  using abort_restores [OF demo_reachable(2), of 8 demo_ip 1 3 99 2000 demo_ticket demo_frozen] demo_preflight
  by (auto simp: demo_frozen_eq)

text \<open>A ticket never thaws an identity that is frozen for another transfer: aborting it
  there changes nothing.\<close>

theorem stale_abort_is_noop:
  assumes "\<And>a. active_of r (pf_canonical_nickname pf) = Some a \<Longrightarrow>
      ai_transfer a \<noteq> Some (pf_transfer_id pf) \<or> ai_generation a \<noteq> pf_source_generation pf"
  shows "abort_preflighted_migration pf r = (False, r)"
  using assms by (auto simp: abort_preflighted_migration_def Let_def split: option.splits)

lemma stale_abort_is_noop_witness:
  "abort_preflighted_migration (demo_ticket\<lparr>pf_transfer_id := 9\<rparr>) demo_frozen =
     (False, demo_frozen)"
  by (rule stale_abort_is_noop) (auto simp: demo_frozen_eq demo_registry_def view_defs demo_ticket_def split: if_splits)

text \<open>The user number of a nickname never changes once it is known.\<close>

theorem user_numbers_are_stable:
  assumes "identity_reachable u x" and "known_user_no u name (sys_registry x) = Some n"
  shows "known_user_no u name (registry_event u ev (sys_registry x)) = Some n"
  by (rule event_op.user_no_stable [OF reachable_registry [OF assms(1)] assms(2)])

lemma user_numbers_are_stable_witness:
  "known_user_no demo_tables [65, 98] (registry_event demo_tables EDrain demo_claimed) = Some 1"
  using user_numbers_are_stable [OF demo_reachable(1), of "[65, 98]" 1 EDrain]
  by (simp add: demo_claimed_eq demo_registry_def known_user_no_def view_defs demo_names)

text \<open>C22: a disconnect reports an identity as released only when no operation lease is left
  on its generation, and the gate of that generation is retired.\<close>

theorem released_identity_has_no_lease:
  assumes "identity_reachable u x" and "disconnect u s now (sys_registry x) = (Released i, r')"
  shows "\<exists>k a. active_of (sys_registry x) k = Some a \<and> ai_owner a = Some s \<and> i = released_identity_of a \<and>
    (\<forall>l\<in>set (sys_leases x). ol_gate l \<noteq> ai_gate a) \<and> og_state (gates r' ! ai_gate a) = gate_retired"
proof -
  obtain k a where "active_of (sys_registry x) k = Some a" "ai_owner a = Some s" "i = released_identity_of a"
    "leases_on (sys_leases x) (ai_gate a) = 0" "og_state (gates r' ! ai_gate a) = gate_retired"
    by (rule released_drained [OF identity_reachable_inv [OF assms(1)] assms(2)])
  then show ?thesis by (auto simp: leases_on_0_iff)
qed

lemma released_identity_has_no_lease_witness:
  "\<exists>i r'. disconnect demo_tables 7 50 demo_claimed = (Released i, r') \<and> ri_user_no i = 1"
proof -
  have d: "\<exists>r'. disconnect demo_tables 7 50 demo_claimed =
      (Released \<lparr>ri_nickname = [65, 98], ri_user_no = 1, ri_generation = 1, ri_source_ip = demo_ip, ri_channel = None\<rparr>, r')"
    by (simp add: demo_claimed_eq demo_registry_def disconnect_def view_defs demo_names demo_binding_def Let_def
        release_or_defer_def retire_drained_eq gate_is_drained_def gate_shared_def set_gate_def released_identity_of_def)
  then obtain i r' where i: "disconnect demo_tables 7 50 demo_claimed = (Released i, r')" "ri_user_no i = 1" by fastforce
  from released_identity_has_no_lease [OF demo_reachable(1), of 7 50 i r'] i show ?thesis by auto
qed



text \<open>C27: a datagram is admitted only for the connected, unfrozen owner of the user number and
  only when it arrived after the generation was activated.\<close>

theorem udp_admission_is_current:
  assumes "identity_reachable u x" and "admit_udp_operation user epoch (sys_registry x) = (Inr lease, r')"
  shows "\<exists>k a s. active_of (sys_registry x) k = Some a \<and> ai_owner a = Some s \<and> ki_user_no (ai_known a) = user \<and>
    ai_transfer a = None \<and> ol_binding lease = identity_binding_of a s \<and> ol_gate lease = ai_gate a \<and>
    og_activated_udp_epoch (gates (sys_registry x) ! ai_gate a) < epoch"
proof -
  note inv = reachable_registry [OF assms(1)]
  obtain k a s where a: "name_of (sys_registry x) user = Some k" "active_of (sys_registry x) k = Some a"
    "ai_owner a = Some s" "ai_transfer a = None" "og_activated_udp_epoch (gates (sys_registry x) ! ai_gate a) < epoch"
    "admit_through (ai_gate a) (identity_binding_of a s) (sys_registry x) = (Inr lease, r')"
    by (rule admit_udp_operation_Inr [OF assms(2)])
  obtain kn where "known_of (sys_registry x) k = Some kn" "ki_user_no kn = user"
    using inv a(1) unfolding registry_inv_def known_inv_def by blast
  with active_okD [OF inv a(2)] have "ki_user_no (ai_known a) = user" by (simp add: active_ok_def)
  with a admit_through_Inr [OF a(6)] show ?thesis by auto
qed

lemma udp_admission_is_current_witness:
  "\<exists>lease r'. admit_udp_operation 1 6 demo_claimed = (Inr lease, r') \<and> ol_gate lease = 0"
proof -
  have "\<exists>r'. admit_udp_operation 1 6 demo_claimed = (Inr \<lparr>ol_gate = 0, ol_binding = demo_binding\<rparr>, r')"
    by (simp add: demo_claimed_eq demo_registry_def admit_udp_operation_def view_defs active_identity_binding_def
        gate_shared_def admit_through_def gate_try_admit_def gate_admission_error_def gate_increment_def
        checked_add_usize_def usize_max_def identity_binding_of_def demo_binding_def)
  then obtain lease r' where l: "admit_udp_operation 1 6 demo_claimed = (Inr lease, r')" "ol_gate lease = 0"
    by fastforce
  from udp_admission_is_current [OF demo_reachable(1), of 1 6 lease r'] l show ?thesis by auto
qed

end
