(* ===== verification/Frame.thy ===== *)
theory Frame
  imports Packet
begin

text \<open>
  The transport layer of the login connection and of the UDP sockets:
  \<^item> \<open>p5136-core/src/crypto.rs\<close>: the keyed XOR transform and its plaintext checksum;
  \<^item> \<open>p5136-core/src/frame.rs\<close>: bounded plain and encrypted TCP frames and the IV chain;
  \<^item> \<open>p5136-core/src/datagram.rs\<close>: the self-describing UDP envelope and routed payload;
  \<^item> \<open>p5136-core/src/handshake.rs\<close>, \<open>p5136-core/src/ports.rs\<close>: the first message and
    the port topology.
\<close>

section \<open>Payload transform\<close>

definition key_xors :: "u32 list" where
  "key_xors = [347277256, 2361332396, 604215233, 4089260480]"

definition derived_keys :: "u32 \<Rightarrow> u32 list" where
  "derived_keys key = map (\<lambda>mask. key XOR mask) key_xors"

definition read_word :: "u8 list \<Rightarrow> nat \<Rightarrow> u32" where
  "read_word block offset =
     from_le32 (block ! offset) (block ! (offset + 1)) (block ! (offset + 2)) (block ! (offset + 3))"

text \<open>\<open>copy_from_slice\<close> into four bytes of the block.\<close>

definition write_word :: "u8 list \<Rightarrow> nat \<Rightarrow> u32 \<Rightarrow> u8 list" where
  "write_word block offset v = take offset block @ le32 v @ drop (offset + 4) block"

definition key_stream :: "u32 list \<Rightarrow> u8 list" where
  "key_stream keys = concat (map le32 keys)"

text \<open>The inner loop over the four words of a 16-byte block, accumulating the checksum.\<close>

definition encrypt_word_step :: "u8 list \<times> u32 \<Rightarrow> nat \<times> u32 \<Rightarrow> u8 list \<times> u32" where
  "encrypt_word_step = (\<lambda>(block, checksum) (word_index, key_word).
     let offset = word_index * 4; plaintext = read_word block offset
     in (write_word block offset (plaintext XOR key_word), checksum XOR plaintext))"

definition decrypt_word_step :: "u8 list \<times> u32 \<Rightarrow> nat \<times> u32 \<Rightarrow> u8 list \<times> u32" where
  "decrypt_word_step = (\<lambda>(block, checksum) (word_index, key_word).
     let offset = word_index * 4; plaintext = read_word block offset XOR key_word
     in (write_word block offset plaintext, checksum XOR plaintext))"

definition encrypt_block :: "u32 list \<Rightarrow> u8 list \<Rightarrow> u32 \<Rightarrow> u8 list \<times> u32" where
  "encrypt_block keys block checksum = foldl encrypt_word_step (block, checksum) (enumerate 0 keys)"

definition decrypt_block :: "u32 list \<Rightarrow> u8 list \<Rightarrow> u32 \<Rightarrow> u8 list \<times> u32" where
  "decrypt_block keys block checksum = foldl decrypt_word_step (block, checksum) (enumerate 0 keys)"

text \<open>The tail of fewer than 16 bytes: \<open>u32::from(byte) << index\<close> into the checksum.\<close>

fun encrypt_tail :: "u8 list \<Rightarrow> nat \<Rightarrow> u8 list \<Rightarrow> u32 \<Rightarrow> u8 list \<times> u32" where
  "encrypt_tail stream index [] checksum = ([], checksum)"
| "encrypt_tail stream index (byte # bytes) checksum =
     (let (rest, checksum') =
        encrypt_tail stream (Suc index) bytes (checksum XOR push_bit index (ucast byte))
      in ((byte XOR stream ! index) # rest, checksum'))"

fun decrypt_tail :: "u8 list \<Rightarrow> nat \<Rightarrow> u8 list \<Rightarrow> u32 \<Rightarrow> u8 list \<times> u32" where
  "decrypt_tail stream index [] checksum = ([], checksum)"
| "decrypt_tail stream index (byte # bytes) checksum =
     (let plain = byte XOR stream ! index;
          (rest, checksum') =
            decrypt_tail stream (Suc index) bytes (checksum XOR push_bit index (ucast plain))
      in (plain # rest, checksum'))"

text \<open>The outer loop over \<open>chunks_exact_mut(16)\<close>, then the tail.\<close>

function encrypt_from :: "u32 list \<Rightarrow> u8 list \<Rightarrow> u32 \<Rightarrow> u8 list \<times> u32" where
  "encrypt_from keys data checksum =
     (if length data < 16 then encrypt_tail (key_stream keys) 0 data checksum
      else let (block, checksum') = encrypt_block keys (take 16 data) checksum;
               (rest, checksum'') = encrypt_from keys (drop 16 data) checksum'
           in (block @ rest, checksum''))"
  by pat_completeness auto
termination
  by (relation "measure (\<lambda>(keys, data, checksum). length data)") auto

function decrypt_from :: "u32 list \<Rightarrow> u8 list \<Rightarrow> u32 \<Rightarrow> u8 list \<times> u32" where
  "decrypt_from keys data checksum =
     (if length data < 16 then decrypt_tail (key_stream keys) 0 data checksum
      else let (block, checksum') = decrypt_block keys (take 16 data) checksum;
               (rest, checksum'') = decrypt_from keys (drop 16 data) checksum'
           in (block @ rest, checksum''))"
  by pat_completeness auto
termination
  by (relation "measure (\<lambda>(keys, data, checksum). length data)") auto

declare encrypt_from.simps [simp del] decrypt_from.simps [simp del]

definition encrypt_in_place :: "u8 list \<Rightarrow> u32 \<Rightarrow> u8 list \<times> u32" where
  "encrypt_in_place data key = encrypt_from (derived_keys key) data 0"

definition decrypt_in_place :: "u8 list \<Rightarrow> u32 \<Rightarrow> u8 list \<times> u32" where
  "decrypt_in_place data key = decrypt_from (derived_keys key) data 0"

lemma decrypt_encrypt_tail:
  "encrypt_tail stream i xs c = (ys, c') \<Longrightarrow> decrypt_tail stream i ys c = (xs, c') \<and> length ys = length xs"
proof (induction xs arbitrary: i c ys c')
  case Nil
  then show ?case by simp
next
  case (Cons x xs)
  then obtain zs where z: "encrypt_tail stream (Suc i) xs (c XOR push_bit i (ucast x)) = (zs, c')"
      "ys = (x XOR stream ! i) # zs"
    by (auto split: prod.splits)
  have "(x XOR stream ! i) XOR stream ! i = x" by (simp add: xor.assoc)
  with Cons.IH [OF z(1)] z(2) show ?case by (simp add: Let_def)
qed

lemma list16_cases:
  assumes "length xs = 16"
  obtains a0 a1 a2 a3 a4 a5 a6 a7 a8 a9 a10 a11 a12 a13 a14 a15
    where "xs = [a0, a1, a2, a3, a4, a5, a6, a7, a8, a9, a10, a11, a12, a13, a14, a15]"
  using assms by (auto simp: numeral_eq_Suc length_Suc_conv)

lemma length_derived_keys [simp]: "length (derived_keys k) = 4"
  by (simp add: derived_keys_def key_xors_def)

lemma list4_cases:
  assumes "length xs = 4"
  obtains a0 a1 a2 a3 where "xs = [a0, a1, a2, a3]"
  using assms by (auto simp: numeral_eq_Suc length_Suc_conv)

lemma from_le32_bytes [simp]:
  "(ucast (from_le32 b0 b1 b2 b3) :: u8) = b0"
  "(ucast (drop_bit 8 (from_le32 b0 b1 b2 b3)) :: u8) = b1"
  "(ucast (drop_bit 16 (from_le32 b0 b1 b2 b3)) :: u8) = b2"
  "(ucast (drop_bit 24 (from_le32 b0 b1 b2 b3)) :: u8) = b3"
  using le32_from_le32 [of b0 b1 b2 b3] by (simp_all add: le32_def)

lemma xor_cancel [simp]: "(p XOR k) XOR k = (p :: 'a::len word)"
  by (simp add: xor.assoc)

lemma decrypt_encrypt_block:
  assumes "length keys = 4" "length b = 16" "encrypt_block keys b c = (b', c')"
  shows "length b' = 16 \<and> decrypt_block keys b' c = (b, c')"
proof -
  obtain k0 k1 k2 k3 where k: "keys = [k0, k1, k2, k3]" by (rule list4_cases [OF assms(1)])
  obtain a0 a1 a2 a3 a4 a5 a6 a7 a8 a9 a10 a11 a12 a13 a14 a15
    where b: "b = [a0, a1, a2, a3, a4, a5, a6, a7, a8, a9, a10, a11, a12, a13, a14, a15]"
    by (rule list16_cases [OF assms(2)])
  from assms(3) show ?thesis
    by (auto simp: k b encrypt_block_def decrypt_block_def encrypt_word_step_def
        decrypt_word_step_def read_word_def write_word_def le32_def Let_def simp del: drop_bit_xor)
qed

lemma decrypt_encrypt_from:
  "length keys = 4 \<Longrightarrow> encrypt_from keys xs c = (ys, c') \<Longrightarrow>
     length ys = length xs \<and> decrypt_from keys ys c = (xs, c')"
proof (induction keys xs c arbitrary: ys c' rule: encrypt_from.induct)
  case (1 keys xs c)
  show ?case
  proof (cases "length xs < 16")
    case True
    with "1.prems" have "encrypt_tail (key_stream keys) 0 xs c = (ys, c')"
      by (simp add: encrypt_from.simps [of keys xs c])
    from decrypt_encrypt_tail [OF this] True show ?thesis
      by (simp add: decrypt_from.simps [of keys ys c])
  next
    case False
    obtain b1 c1 where b: "encrypt_block keys (take 16 xs) c = (b1, c1)" by fastforce
    obtain r1 c2 where r: "encrypt_from keys (drop 16 xs) c1 = (r1, c2)" by fastforce
    from "1.prems" False b r have ys: "ys = b1 @ r1" "c' = c2"
      by (auto simp: encrypt_from.simps [of keys xs c])
    from False have "length (take 16 xs) = 16" by simp
    note block = decrypt_encrypt_block [OF "1.prems"(1) this b]
    from "1.IH" [OF False b [symmetric] refl "1.prems"(1) r]
    have rest: "length r1 = length (drop 16 xs)" "decrypt_from keys r1 c1 = (drop 16 xs, c2)" by auto
    with block ys False show ?thesis
      by (simp add: decrypt_from.simps [of keys "b1 @ r1" c])
  qed
qed

theorem decrypt_encrypt_in_place:
  "encrypt_in_place xs key = (ys, c) \<Longrightarrow>
     length ys = length xs \<and> decrypt_in_place ys key = (xs, c)"
  unfolding encrypt_in_place_def decrypt_in_place_def
  by (rule decrypt_encrypt_from) simp_all

section \<open>TCP frames\<close>

definition header_xor :: u32 where "header_xor = 4164199944"
definition checksum_xor :: u32 where "checksum_xor = 3388492432"
definition iv_increment :: u32 where "iv_increment = 21446425"
definition default_max_payload :: nat where "default_max_payload = 1048576"

datatype frame_error =
    PayloadTooLarge nat nat
  | PayloadLengthOverflow
  | FrameTruncated nat nat
  | InvalidEncryptedLength u32
  | LengthMismatch nat nat
  | ChecksumMismatch

definition advance_iv :: "u32 \<Rightarrow> u32" where
  "advance_iv iv = (let next_iv = iv + iv_increment in if next_iv = 0 then 1 else next_iv)"

definition validate_payload_length :: "nat \<Rightarrow> nat \<Rightarrow> frame_error + unit" where
  "validate_payload_length len maximum =
     (if len > maximum then Inl (PayloadTooLarge len maximum) else Inr ())"

definition u32_try_from :: "nat \<Rightarrow> u32 option" where
  "u32_try_from n = (if n < 2 ^ 32 then Some (of_nat n) else None)"

definition checked_add_u32 :: "u32 \<Rightarrow> u32 \<Rightarrow> u32 option" where
  "checked_add_u32 a b = (if unat a + unat b < 2 ^ 32 then Some (a + b) else None)"

definition encode_plain :: "u8 list \<Rightarrow> nat \<Rightarrow> frame_error + u8 list" where
  "encode_plain payload maximum =
     rbind (validate_payload_length (length payload) maximum) (\<lambda>_.
     rbind (ok_or PayloadLengthOverflow (u32_try_from (length payload))) (\<lambda>len.
     Inr (le32 len @ payload)))"

definition read_u32_at :: "u8 list \<Rightarrow> nat \<Rightarrow> u32" where
  "read_u32_at bytes offset =
     from_le32 (bytes ! offset) (bytes ! (offset + 1)) (bytes ! (offset + 2)) (bytes ! (offset + 3))"

definition decode_plain :: "u8 list \<Rightarrow> nat \<Rightarrow> frame_error + u8 list" where
  "decode_plain frame maximum =
     (if length frame < 4 then Inl (FrameTruncated 4 (length frame))
      else let payload_length = unat (read_u32_at frame 0) in
        rbind (validate_payload_length payload_length maximum) (\<lambda>_.
        rbind (ok_or PayloadLengthOverflow (checked_add_usize payload_length 4)) (\<lambda>expected.
        if length frame \<noteq> expected then Inl (LengthMismatch expected (length frame))
        else Inr (drop 4 frame))))"

definition encrypted_body_length :: "u32 \<Rightarrow> u32 \<Rightarrow> nat \<Rightarrow> frame_error + nat" where
  "encrypted_body_length encoded_header iv maximum =
     (let declared = (iv XOR encoded_header) XOR header_xor in
      if declared < 4 then Inl (InvalidEncryptedLength declared)
      else rbind (validate_payload_length (unat (declared - 4)) maximum) (\<lambda>_. Inr (unat declared)))"

text \<open>The \<open>&mut u32\<close> IV is an argument and part of the successful result; an error leaves it as it was.\<close>

definition encode_encrypted :: "u8 list \<Rightarrow> u32 \<Rightarrow> nat \<Rightarrow> frame_error + (u8 list \<times> u32)" where
  "encode_encrypted payload iv maximum =
     rbind (validate_payload_length (length payload) maximum) (\<lambda>_.
     rbind (ok_or PayloadLengthOverflow (u32_try_from (length payload))) (\<lambda>payload_length.
     rbind (ok_or PayloadLengthOverflow (checked_add_u32 payload_length 4)) (\<lambda>declared.
     let encoded_header = (iv XOR declared) XOR header_xor;
         (encrypted, checksum) = encrypt_in_place payload iv;
         encoded_checksum = (iv XOR checksum) XOR checksum_xor
     in Inr (le32 encoded_header @ encrypted @ le32 encoded_checksum, advance_iv iv))))"

definition decode_encrypted :: "u8 list \<Rightarrow> u32 \<Rightarrow> nat \<Rightarrow> frame_error + (u8 list \<times> u32)" where
  "decode_encrypted frame iv maximum =
     (if length frame < 4 then Inl (FrameTruncated 4 (length frame))
      else rbind (encrypted_body_length (read_u32_at frame 0) iv maximum) (\<lambda>body_length.
        rbind (ok_or PayloadLengthOverflow (checked_add_usize body_length 4)) (\<lambda>expected.
        if length frame \<noteq> expected then Inl (LengthMismatch expected (length frame))
        else
          let payload_end = length frame - 4;
              (payload, actual_checksum) =
                decrypt_in_place (take (payload_end - 4) (drop 4 frame)) iv;
              expected_checksum = (iv XOR read_u32_at frame payload_end) XOR checksum_xor
          in if actual_checksum \<noteq> expected_checksum then Inl ChecksumMismatch
             else Inr (payload, advance_iv iv))))"

lemma read_u32_at_0 [simp]: "read_u32_at (le32 w @ xs) 0 = w"
  by (simp add: read_u32_at_def le32_def)

lemma read_u32_at_append: "n = length xs \<Longrightarrow> read_u32_at (xs @ ys) n = read_u32_at ys 0"
  by (simp add: read_u32_at_def nth_append numeral_2_eq_2)

lemma validate_payload_length_Inr [result_iff]:
  "validate_payload_length n m = Inr u \<longleftrightarrow> n \<le> m"
  by (simp add: validate_payload_length_def)

lemma xor_roundtrip: "(iv XOR ((iv XOR d) XOR k)) XOR k = (d :: u32)"
  by (simp add: ac_simps)

lemma encode_encrypted_InrD:
  assumes "encode_encrypted payload iv maximum = Inr (frame, iv')"
  obtains enc ck where "encrypt_in_place payload iv = (enc, ck)" "length payload \<le> maximum"
    "length payload + 4 < 2 ^ 32" "iv' = advance_iv iv"
    "frame = le32 ((iv XOR word_of_nat (length payload + 4)) XOR header_xor) @ enc @
       le32 ((iv XOR ck) XOR checksum_xor)"
proof -
  obtain enc ck where e: "encrypt_in_place payload iv = (enc, ck)" by fastforce
  from assms e have b: "length payload \<le> maximum" "length payload < 2 ^ 32"
    "checked_add_u32 (word_of_nat (length payload)) 4 \<noteq> None"
    by (auto simp: encode_encrypted_def result_iff u32_try_from_def split: if_splits)
  then have b3: "length payload + 4 < 2 ^ 32"
    by (auto simp: checked_add_u32_def unat_of_nat split: if_splits)
  with assms e b(2) have "iv' = advance_iv iv"
    "frame = le32 ((iv XOR word_of_nat (length payload + 4)) XOR header_xor) @ enc @
       le32 ((iv XOR ck) XOR checksum_xor)"
    by (auto simp: encode_encrypted_def result_iff u32_try_from_def checked_add_u32_def
        Let_def add.commute split: if_splits)
  with e b(1) b3 show ?thesis by (rule that)
qed

theorem decode_encode_encrypted:
  assumes enc: "encode_encrypted payload iv maximum = Inr (frame, iv')"
  shows "decode_encrypted frame iv maximum = Inr (payload, iv') \<and> length frame = length payload + 8"
proof -
  from enc obtain e ck where e: "encrypt_in_place payload iv = (e, ck)" "length payload \<le> maximum"
    "length payload + 4 < 2 ^ 32" "iv' = advance_iv iv"
    and frame: "frame = le32 ((iv XOR word_of_nat (length payload + 4)) XOR header_xor) @ e @
       le32 ((iv XOR ck) XOR checksum_xor)"
    by (rule encode_encrypted_InrD)
  from decrypt_encrypt_in_place [OF e(1)] have d: "length e = length payload"
    "decrypt_in_place e iv = (payload, ck)" by auto
  have u: "unat (word_of_nat (length payload + 4) :: u32) = length payload + 4"
    using e(3) by (simp add: unat_of_nat del: of_nat_add)
  have u4: "unat ((word_of_nat (length payload + 4) :: u32) - 4) = length payload"
    using e(3) by (simp add: unat_of_nat)
  have "encrypted_body_length (read_u32_at frame 0) iv maximum = Inr (length payload + 4)"
    using u u4 e(2)
    by (simp add: frame encrypted_body_length_def xor_roundtrip Let_def result_iff rbind_def
        validate_payload_length_def word_less_nat_alt del: of_nat_add)
  moreover have "checked_add_usize (length payload + 4) 4 = Some (length payload + 8)"
    using e(3) by (simp add: checked_add_usize_def usize_max_def)
  moreover have len: "length frame = length payload + 8" by (simp add: frame d(1))
  moreover have "read_u32_at frame (length payload + 4) = (iv XOR ck) XOR checksum_xor"
  proof -
    have "read_u32_at ((le32 ((iv XOR word_of_nat (length payload + 4)) XOR header_xor) @ e) @
       (le32 ((iv XOR ck) XOR checksum_xor) @ [])) (length payload + 4) = (iv XOR ck) XOR checksum_xor"
      by (subst read_u32_at_append) (simp_all only: read_u32_at_0 length_append length_le32 d(1) add.commute)
    then show ?thesis by (simp add: frame)
  qed
  moreover have "take (length payload) (drop 4 frame) = e"
    by (simp add: frame d(1) [symmetric])
  ultimately show ?thesis
    using d(2) e(4) by (simp add: decode_encrypted_def xor_roundtrip Let_def add.commute)
qed

theorem decode_encode_plain:
  assumes "encode_plain payload maximum = Inr frame"
  shows "decode_plain frame maximum = Inr payload"
proof -
  from assms have p: "length payload \<le> maximum" "length payload < 2 ^ 32"
    "frame = le32 (word_of_nat (length payload)) @ payload"
    by (auto simp: encode_plain_def result_iff u32_try_from_def split: if_splits)
  have "unat (word_of_nat (length payload) :: u32) = length payload"
    using p(2) by (simp add: unat_of_nat)
  with p show ?thesis
    by (simp add: decode_plain_def Let_def validate_payload_length_def checked_add_usize_def usize_max_def)
qed

text \<open>The IV never becomes zero once a frame has been processed.\<close>

lemma advance_iv_nonzero: "advance_iv iv \<noteq> 0"
  by (simp add: advance_iv_def Let_def)

text \<open>A rejected length is bounded by the header alone.\<close>

lemma encrypted_body_length_bound:
  assumes "encrypted_body_length header iv maximum = Inr n"
  shows "4 \<le> n \<and> n \<le> maximum + 4"
proof -
  let ?d = "(iv XOR header) XOR header_xor"
  from assms have d: "\<not> ?d < 4" "unat (?d - 4) \<le> maximum" "n = unat ?d"
    by (auto simp: encrypted_body_length_def Let_def result_iff split: if_splits)
  then have "4 \<le> unat ?d" by (simp add: word_less_nat_alt)
  moreover from d(1) have "unat (?d - 4) = unat ?d - 4"
    by (subst unat_sub) (simp_all add: word_le_nat_alt word_less_nat_alt)
  ultimately show ?thesis using d by simp
qed

section \<open>UDP envelope\<close>

definition datagram_overhead :: nat where "datagram_overhead = 8"
definition routed_header_length :: nat where "routed_header_length = 12"
definition datagram_checksum_xor :: u32 where "datagram_checksum_xor = 1329075907"
definition default_max_datagram_payload :: nat where "default_max_datagram_payload = 65499"

datatype datagram_error =
    DgPayloadTooLarge nat nat
  | DgTruncated nat nat
  | DgChecksumMismatch
  | RoutedHeaderTruncated nat

record routed_payload =
  rp_account_id :: u32
  rp_route_hash :: u32
  rp_packet_name :: u32
  rp_body :: "u8 list"

definition dg_validate_payload_length :: "nat \<Rightarrow> nat \<Rightarrow> datagram_error + unit" where
  "dg_validate_payload_length len maximum =
     (if len > maximum then Inl (DgPayloadTooLarge len maximum) else Inr ())"

definition encode_datagram :: "u8 list \<Rightarrow> u32 \<Rightarrow> nat \<Rightarrow> datagram_error + u8 list" where
  "encode_datagram payload iv maximum =
     rbind (dg_validate_payload_length (length payload) maximum) (\<lambda>_.
     let (encrypted, checksum) = encrypt_in_place payload iv;
         encoded_checksum = (iv XOR checksum) XOR datagram_checksum_xor
     in Inr (le32 iv @ encrypted @ le32 encoded_checksum))"

definition decode_datagram :: "u8 list \<Rightarrow> nat \<Rightarrow> datagram_error + (u32 \<times> u8 list)" where
  "decode_datagram wire maximum =
     (if length wire < datagram_overhead then Inl (DgTruncated datagram_overhead (length wire))
      else rbind (dg_validate_payload_length (length wire - datagram_overhead) maximum) (\<lambda>_.
        let iv = read_u32_at wire 0;
            checksum_offset = length wire - 4;
            encoded_checksum = read_u32_at wire checksum_offset;
            (payload, actual_checksum) =
              decrypt_in_place (take (checksum_offset - 4) (drop 4 wire)) iv;
            expected_checksum = (iv XOR encoded_checksum) XOR datagram_checksum_xor
        in if actual_checksum \<noteq> expected_checksum then Inl DgChecksumMismatch
           else Inr (iv, payload)))"

definition parse_routed_payload :: "u8 list \<Rightarrow> datagram_error + routed_payload" where
  "parse_routed_payload payload =
     (if length payload < routed_header_length then Inl (RoutedHeaderTruncated (length payload))
      else Inr \<lparr>rp_account_id = read_u32_at payload 0, rp_route_hash = read_u32_at payload 4,
                 rp_packet_name = read_u32_at payload 8, rp_body = drop routed_header_length payload\<rparr>)"

theorem decode_encode_datagram:
  assumes "encode_datagram payload iv maximum = Inr wire"
  shows "decode_datagram wire maximum = Inr (iv, payload) \<and>
    length wire = length payload + datagram_overhead"
proof -
  obtain e ck where e: "encrypt_in_place payload iv = (e, ck)" by fastforce
  from decrypt_encrypt_in_place [OF e] have d: "length e = length payload"
    "decrypt_in_place e iv = (payload, ck)" by auto
  from assms e have m: "length payload \<le> maximum"
    and wire: "wire = le32 iv @ e @ le32 ((iv XOR ck) XOR datagram_checksum_xor)"
    by (auto simp: encode_datagram_def result_iff dg_validate_payload_length_def Let_def
        split: if_splits)
  have len: "length wire = length payload + 8" by (simp add: wire d(1))
  have "read_u32_at ((le32 iv @ e) @ (le32 ((iv XOR ck) XOR datagram_checksum_xor) @ []))
      (length payload + 4) = (iv XOR ck) XOR datagram_checksum_xor"
    by (subst read_u32_at_append) (simp_all only: read_u32_at_0 length_append length_le32 d(1) add.commute)
  then have ck: "read_u32_at wire (4 + length payload) = (iv XOR ck) XOR datagram_checksum_xor"
    by (simp add: wire add.commute)
  have "take (length payload) (drop 4 wire) = e" by (simp add: wire d(1) [symmetric])
  moreover have "read_u32_at wire 0 = iv" by (simp add: wire)
  ultimately show ?thesis
    using len ck d(2) m
    by (simp add: decode_datagram_def datagram_overhead_def dg_validate_payload_length_def
        Let_def xor_roundtrip add.commute)
qed

section \<open>Handshake\<close>

definition client_version :: u16 where "client_version = 5136"
definition locale_id :: u16 where "locale_id = 1002"
definition client_location :: u8 where "client_location = 118"
definition first_key :: u32 where "first_key = 2919676295"
definition second_key :: u32 where "second_key = 263300380"

definition first_key_text :: ustring where
  "first_key_text = ustr ''QyvKvO60jogWDupzJ7gm0kRQdooFjWRjSjlq0gu/x2k=''"

definition second_key_text :: ustring where
  "second_key_text = ustr ''GXQstj1A95XiHvjrOGuPkzdyL+7qxETl/cPlUZk2KA4=''"

definition patch_url :: ustring where
  "patch_url = ustr ''http://kart.dn.nexoncdn.co.kr/patch''"

definition compatibility_block :: "u8 list" where
  "compatibility_block =
     [0, 0, 0, 0, 0, 0, 0, 0, 0x0f, 0, 0, 0, 0, 0, 0, 0,
      0, 0x2e, 0x31, 0x2e, 0x31, 0x37, 0x2e, 0x36, 0, 0, 0, 0, 0, 0, 0]"

definition initial_iv :: u32 where
  "initial_iv = first_key XOR second_key"

definition first_message_payload :: "packet_error + u8 list" where
  "first_message_payload =
     (let packet = write_u16 client_version (write_u16 1 (write_u16 locale_id
                     (writer_named ''PcFirstMessage''))) in
      rbind (write_utf16 patch_url packet) (\<lambda>packet.
      let packet = write_u8 client_location (write_u32 second_key (write_u32 first_key packet)) in
      rbind (write_utf16 first_key_text packet) (\<lambda>packet.
      let packet = write_bytes compatibility_block packet in
      write_utf16 second_key_text packet)))"

lemma initial_iv_value: "initial_iv = 0xa1b71c9b"
  by (simp add: initial_iv_def first_key_def second_key_def)

lemma encode_utf16_ascii: "\<forall>c\<in>set s. c < 0x10000 \<Longrightarrow> length (encode_utf16 s) = length s"
  by (induction s) (auto simp: encode_utf16_def encode_utf16_char_def)

lemma length_utf16_le_bytes: "length (utf16_le_bytes s) = 2 * length (encode_utf16 s)"
  by (simp add: utf16_le_bytes_def length_concat_le16)

lemma ustr_small: "c \<in> set (ustr s) \<Longrightarrow> c < 0x10000"
proof -
  assume "c \<in> set (ustr s)"
  then obtain x where "c = of_char x" by (auto simp: ustr_def)
  then have "c < 256" by (simp add: nat_of_char_less_256)
  then show ?thesis by simp
qed

lemma write_utf16_ustr:
  "length s < 2 ^ 31 \<Longrightarrow>
     \<exists>w'. write_utf16 (ustr s) w = Inr w' \<and> length w' = length w + 4 + 2 * length s"
  using encode_utf16_ascii [of "ustr s"] ustr_small [of _ s]
  by (auto simp: result_iff length_utf16_le_bytes) (simp_all add: ustr_def)

theorem first_message_length: "\<exists>p. first_message_payload = Inr p \<and> length p = 308"
proof -
  define p0 where "p0 = write_u16 client_version (write_u16 1 (write_u16 locale_id
    (writer_named ''PcFirstMessage'')))"
  obtain p1 where p1: "write_utf16 patch_url p0 = Inr p1" "length p1 = length p0 + 4 + 2 * 35"
    unfolding patch_url_def
    using write_utf16_ustr [of "''http://kart.dn.nexoncdn.co.kr/patch''" p0] by auto
  define p2 where "p2 = write_u8 client_location (write_u32 second_key (write_u32 first_key p1))"
  obtain p3 where p3: "write_utf16 first_key_text p2 = Inr p3" "length p3 = length p2 + 4 + 2 * 44"
    unfolding first_key_text_def
    using write_utf16_ustr [of "''QyvKvO60jogWDupzJ7gm0kRQdooFjWRjSjlq0gu/x2k=''" p2] by auto
  obtain p4 where p4: "write_utf16 second_key_text (write_bytes compatibility_block p3) = Inr p4"
    "length p4 = length (write_bytes compatibility_block p3) + 4 + 2 * 44"
    unfolding second_key_text_def
    using write_utf16_ustr [of "''GXQstj1A95XiHvjrOGuPkzdyL+7qxETl/cPlUZk2KA4=''"
        "write_bytes compatibility_block p3"] by auto
  have "first_message_payload = Inr p4"
    using p1(1) p3(1) p4(1) by (simp add: first_message_payload_def p0_def p2_def Let_def)
  moreover have "length p4 = 308"
    by (simp add: p4(2) p3(2) p1(2) p0_def p2_def compatibility_block_def)
  ultimately show ?thesis by blast
qed

section \<open>Ports\<close>

definition default_configured_port :: u16 where
  "default_configured_port = 39311"

record port_overflow =
  po_configured_port :: u16
  po_required_offset :: u16

record port_topology =
  configured_port :: u16

definition checked_add_u16 :: "u16 \<Rightarrow> u16 \<Rightarrow> u16 option" where
  "checked_add_u16 a b = (if unat a + unat b < 2 ^ 16 then Some (a + b) else None)"

definition port_topology_new :: "u16 \<Rightarrow> port_overflow + port_topology" where
  "port_topology_new port =
     rbind (ok_or \<lparr>po_configured_port = port, po_required_offset = 3\<rparr> (checked_add_u16 port 3))
       (\<lambda>_. Inr \<lparr>configured_port = port\<rparr>)"

definition login_tcp :: "port_topology \<Rightarrow> u16" where
  "login_tcp t = configured_port t + 1"

definition game_udp :: "port_topology \<Rightarrow> u16" where
  "game_udp t = configured_port t"

definition p2p_udp :: "port_topology \<Rightarrow> u16" where
  "p2p_udp t = configured_port t + 1"

definition messenger_tcp :: "port_topology \<Rightarrow> u16" where
  "messenger_tcp t = configured_port t + 2"

definition xun_sidecar_tcp :: "port_topology \<Rightarrow> u16" where
  "xun_sidecar_tcp t = configured_port t + 3"

theorem port_topology_offsets:
  "port_topology_new port = Inr t \<Longrightarrow>
     unat (game_udp t) = unat port \<and> unat (login_tcp t) = unat port + 1 \<and>
     unat (p2p_udp t) = unat port + 1 \<and> unat (messenger_tcp t) = unat port + 2 \<and>
     unat (xun_sidecar_tcp t) = unat port + 3 \<and> unat port + 3 < 65536"
  by (auto simp: port_topology_new_def result_iff checked_add_u16_def login_tcp_def game_udp_def
      p2p_udp_def messenger_tcp_def xun_sidecar_tcp_def unat_word_ariths split: if_splits)

end
