(* ===== verification/RoomProtocol.thy ===== *)
theory RoomProtocol
  imports Packet
begin

text \<open>
  \<open>p5136-core/src/room_protocol.rs\<close>: the data carried by the room list, room
  creation, join and first-state packets, the parsers of the client's requests and
  the serializers of the server's replies.  \<open>i32\<close> fields are \<open>int\<close>, an
  \<open>Ipv4Addr\<close> is the list of its four octets.
\<close>

definition max_room_list_page :: int where "max_room_list_page = 100000"
definition max_room_list_entries :: nat where "max_room_list_entries = 10"
definition max_room_name_units :: nat where "max_room_name_units = 128"
definition max_room_password_units :: nat where "max_room_password_units = 64"
definition max_rider_nickname_units :: nat where "max_rider_nickname_units = 32"
definition max_rider_card_units :: nat where "max_rider_card_units = 128"
definition max_club_name_units :: nat where "max_club_name_units = 64"
definition max_room_ai_count :: int where "max_room_ai_count = 8"
definition room_data_length :: nat where "room_data_length = 32"
definition room_connection_context_length :: nat where "room_connection_context_length = 28"
definition room_slot_count :: nat where "room_slot_count = 8"
definition room_observer_count :: nat where "room_observer_count = 8"
definition rider_item_snapshot_wire_length :: nat where "rider_item_snapshot_wire_length = 65"

lemmas room_limit_defs =
  max_room_list_page_def max_room_list_entries_def max_room_name_units_def
  max_room_password_units_def max_rider_nickname_units_def max_rider_card_units_def
  max_club_name_units_def max_room_ai_count_def room_data_length_def
  room_connection_context_length_def

section \<open>Request kinds\<close>

datatype room_protocol_request = RoomList | CreateRoom | JoinRoom | LeaveRoom | FirstRoomState

definition room_protocol_requests :: "room_protocol_request list" where
  "room_protocol_requests = [RoomList, CreateRoom, JoinRoom, LeaveRoom, FirstRoomState]"

fun room_request_name :: "room_protocol_request \<Rightarrow> string" where
  "room_request_name RoomList = ''ChGetRoomListRequestPacket''"
| "room_request_name CreateRoom = ''ChCreateRoomRequestPacket''"
| "room_request_name JoinRoom = ''ChJoinRoomRequestPacket''"
| "room_request_name LeaveRoom = ''ChLeaveRoomRequestPacket''"
| "room_request_name FirstRoomState = ''GrFirstRequestPacket''"

fun room_reply_names :: "room_protocol_request \<Rightarrow> string list" where
  "room_reply_names RoomList = [''ChGetRoomListReplyPacket'']"
| "room_reply_names CreateRoom = [''ChCreateRoomReplyPacket'']"
| "room_reply_names JoinRoom = [''ChJoinRoomReplyPacket'']"
| "room_reply_names LeaveRoom = [''ChLeaveRoomReplyPacket'']"
| "room_reply_names FirstRoomState = [''GrSessionDataPacket'', ''GrSlotDataPacket'']"

definition classify_room_protocol_request :: "u32 \<Rightarrow> room_protocol_request option" where
  "classify_room_protocol_request h =
     List.find (\<lambda>request. packet_hash (room_request_name request) = h) room_protocol_requests"

section \<open>Data\<close>

record ch_get_room_list_request =
  page :: int
  room_list_type :: u8
  room_list_mode :: u8

record room_list_entry =
  rle_room_id :: int
  rle_room_name :: ustring
  rle_track :: u32
  rle_locked :: bool
  rle_game_type :: u8
  rle_speed_type :: u8
  rle_started :: bool
  rle_available_slots :: u8
  rle_player_count :: u8

record ch_create_room_request =
  ccr_room_name :: ustring
  ccr_password :: ustring
  ccr_game_type :: u8
  ccr_reserved_after_game_type :: int
  ccr_ai_count :: int
  ccr_room_data_header :: u32
  ccr_room_data :: "u8 list"
  ccr_connection_context :: "u8 list"
  ccr_reserved_before_ai_switch :: u8
  ccr_ai_switch :: int
  ccr_reserved_after_ai_switch_1 :: u8
  ccr_reserved_after_ai_switch_2 :: u8
  ccr_reserved_tail :: int
  ccr_reserved_last :: u8

datatype create_room_outcome = Rejected | Created

record ch_join_room_request =
  cjr_room_id :: u16
  cjr_password :: ustring
  cjr_reserved :: u8
  cjr_connection_context :: "u8 list"

datatype join_room_status = Success | Unavailable | Full | WrongPassword

fun join_room_status_code :: "join_room_status \<Rightarrow> u8" where
  "join_room_status_code Success = 0"
| "join_room_status_code Unavailable = 1"
| "join_room_status_code Full = 2"
| "join_room_status_code WrongPassword = 3"

record ch_leave_room_request =
  clr_reserved :: u8

record room_session_data =
  rsd_room_name :: ustring
  rsd_password :: ustring
  rsd_game_type :: u8
  rsd_speed_type :: u8

record room_player =
  player_type :: int
  user_no :: u32
  p2p_address :: "u8 list"
  p2p_port :: u16
  nickname :: ustring
  emblem_1 :: u16
  emblem_2 :: u16
  emblem_3 :: u16
  rider_item_snapshot :: "u8 list"
  card :: ustring
  rp :: u32
  team :: u8
  ranking :: int
  rider_school_level :: u8
  club_name :: ustring
  club_mark_logo :: int

record room_ai =
  ai_character :: int
  ai_rider :: int
  ai_kart :: int
  ai_balloon :: int
  ai_head_band :: int
  ai_goggle :: int
  ai_team :: u8

datatype room_member = MPlayer room_player | MAi room_ai | MClosed int | MEmpty

record room_observer =
  ob_player_type :: int
  ob_user_no :: u32
  ob_p2p_address :: "u8 list"
  ob_p2p_port :: u16
  ob_nickname :: ustring

datatype room_observer_slot = OPlayer room_observer | OEmpty

record room_slot_data =
  rs_track :: u32
  rs_room_data_header :: u32
  rs_room_data :: "u8 list"
  rs_room_master :: int
  rs_closed_slot_ids :: "u8 list"
  rs_members_by_id :: "room_member list"
  rs_observers :: "room_observer_slot list"
  rs_slot_positions :: "int list"

definition room_slot_data_empty :: "u32 \<Rightarrow> u32 \<Rightarrow> u8 list \<Rightarrow> int \<Rightarrow> room_slot_data" where
  "room_slot_data_empty track header data master =
     \<lparr>rs_track = track, rs_room_data_header = header, rs_room_data = data, rs_room_master = master,
      rs_closed_slot_ids = [], rs_members_by_id = replicate room_slot_count MEmpty,
      rs_observers = replicate room_observer_count OEmpty,
      rs_slot_positions = replicate room_slot_count (- 1)\<rparr>"

datatype room_protocol_error =
    RPacket packet_error
  | RUnexpectedPacketHash string u32 u32    \<comment> \<open>name, expected, actual\<close>
  | RTrailingBytes string nat
  | RInvalidPage int int
  | RInvalidAiCount int int
  | RLimitExceeded string nat nat           \<comment> \<open>field, actual, maximum\<close>
  | RInvalidClosedSlot u8
  | RDuplicateClosedSlot u8
  | RInvalidSlotPosition nat int
  | RCountOverflow string

section \<open>Parsers\<close>

abbreviation rlift :: "(packet_error, 'a) parser \<Rightarrow> (room_protocol_error, 'a) parser" where
  "rlift \<equiv> perr RPacket"

definition room_expect_hash :: "string \<Rightarrow> (room_protocol_error, unit) parser" where
  "room_expect_hash name = pbind (rlift read_u32) (\<lambda>actual.
     let expected = packet_hash name
     in if actual = expected then preturn () else pfail (RUnexpectedPacketHash name expected actual))"

definition room_ensure_exhausted :: "string \<Rightarrow> (room_protocol_error, unit) parser" where
  "room_ensure_exhausted name r =
     (let count = length (reader_remaining r)
      in if count = 0 then preturn () r else pfail (RTrailingBytes name count) r)"

definition validate_page :: "int \<Rightarrow> room_protocol_error + unit" where
  "validate_page p =
     (if 0 \<le> p \<and> p \<le> max_room_list_page then Inr () else Inl (RInvalidPage p max_room_list_page))"

text \<open>A check of already parsed data inside a parser.\<close>

definition pcheck :: "('e + 'a) \<Rightarrow> ('e, 'a) parser" where
  "pcheck m r = rbind m (\<lambda>x. Inr (x, r))"

text \<open>Running a parser on a whole packet.\<close>

definition run_parser :: "('e, 'a) parser \<Rightarrow> u8 list \<Rightarrow> 'e + 'a" where
  "run_parser p packet = rbind (p (reader_new packet)) (\<lambda>(x, r). Inr x)"

definition room_list_request_parser :: "(room_protocol_error, ch_get_room_list_request) parser" where
  "room_list_request_parser =
     pbind (room_expect_hash ''ChGetRoomListRequestPacket'') (\<lambda>_.
     pbind (rlift read_i32) (\<lambda>p.
     pbind (pcheck (validate_page p)) (\<lambda>_.
     pbind (rlift read_u8) (\<lambda>list_type.
     pbind (rlift read_u8) (\<lambda>list_mode.
     pbind (room_ensure_exhausted ''ChGetRoomListRequestPacket'') (\<lambda>_.
     preturn \<lparr>page = p, room_list_type = list_type, room_list_mode = list_mode\<rparr>))))))"

definition parse_ch_get_room_list_request :: "u8 list \<Rightarrow> room_protocol_error + ch_get_room_list_request" where
  "parse_ch_get_room_list_request = run_parser room_list_request_parser"

definition create_room_request_parser :: "(room_protocol_error, ch_create_room_request) parser" where
  "create_room_request_parser =
     pbind (room_expect_hash ''ChCreateRoomRequestPacket'') (\<lambda>_.
     pbind (rlift (read_utf16_bounded max_room_name_units)) (\<lambda>name.
     pbind (rlift (read_utf16_bounded max_room_password_units)) (\<lambda>pass.
     pbind (rlift read_encoded_u8) (\<lambda>game_type.
     pbind (rlift read_i32) (\<lambda>reserved_after_game_type.
     pbind (rlift read_i32) (\<lambda>ai_count.
     if \<not> (0 \<le> ai_count \<and> ai_count \<le> max_room_ai_count)
     then pfail (RInvalidAiCount ai_count max_room_ai_count)
     else
     pbind (rlift read_u32) (\<lambda>header.
     pbind (rlift (read_bytes room_data_length)) (\<lambda>data.
     pbind (rlift (read_bytes room_connection_context_length)) (\<lambda>ctx.
     pbind (rlift read_u8) (\<lambda>before_switch.
     pbind (rlift read_i32) (\<lambda>ai_switch.
     pbind (rlift read_u8) (\<lambda>after_1.
     pbind (rlift read_u8) (\<lambda>after_2.
     pbind (rlift read_i32) (\<lambda>tail.
     pbind (rlift read_u8) (\<lambda>tail_last.
     pbind (room_ensure_exhausted ''ChCreateRoomRequestPacket'') (\<lambda>_.
     preturn \<lparr>ccr_room_name = name, ccr_password = pass, ccr_game_type = game_type,
       ccr_reserved_after_game_type = reserved_after_game_type, ccr_ai_count = ai_count,
       ccr_room_data_header = header, ccr_room_data = data, ccr_connection_context = ctx,
       ccr_reserved_before_ai_switch = before_switch, ccr_ai_switch = ai_switch,
       ccr_reserved_after_ai_switch_1 = after_1, ccr_reserved_after_ai_switch_2 = after_2,
       ccr_reserved_tail = tail, ccr_reserved_last = tail_last\<rparr>))))))))))))))))"

definition parse_ch_create_room_request :: "u8 list \<Rightarrow> room_protocol_error + ch_create_room_request" where
  "parse_ch_create_room_request = run_parser create_room_request_parser"

definition join_room_request_parser :: "(room_protocol_error, ch_join_room_request) parser" where
  "join_room_request_parser =
     pbind (room_expect_hash ''ChJoinRoomRequestPacket'') (\<lambda>_.
     pbind (rlift read_u16) (\<lambda>room_id.
     pbind (rlift (read_utf16_bounded max_room_password_units)) (\<lambda>pass.
     pbind (rlift read_u8) (\<lambda>reserved.
     pbind (rlift (read_bytes room_connection_context_length)) (\<lambda>ctx.
     pbind (room_ensure_exhausted ''ChJoinRoomRequestPacket'') (\<lambda>_.
     preturn \<lparr>cjr_room_id = room_id, cjr_password = pass, cjr_reserved = reserved,
       cjr_connection_context = ctx\<rparr>))))))"

definition parse_ch_join_room_request :: "u8 list \<Rightarrow> room_protocol_error + ch_join_room_request" where
  "parse_ch_join_room_request = run_parser join_room_request_parser"

definition leave_room_request_parser :: "(room_protocol_error, ch_leave_room_request) parser" where
  "leave_room_request_parser =
     pbind (room_expect_hash ''ChLeaveRoomRequestPacket'') (\<lambda>_.
     pbind (rlift read_u8) (\<lambda>reserved.
     pbind (room_ensure_exhausted ''ChLeaveRoomRequestPacket'') (\<lambda>_.
     preturn \<lparr>clr_reserved = reserved\<rparr>)))"

definition parse_ch_leave_room_request :: "u8 list \<Rightarrow> room_protocol_error + ch_leave_room_request" where
  "parse_ch_leave_room_request = run_parser leave_room_request_parser"

definition parse_gr_first_request :: "u8 list \<Rightarrow> room_protocol_error + unit" where
  "parse_gr_first_request = run_parser
     (pbind (room_expect_hash ''GrFirstRequestPacket'') (\<lambda>_.
      room_ensure_exhausted ''GrFirstRequestPacket''))"

section \<open>Serializers\<close>

definition enforce_limit :: "string \<Rightarrow> nat \<Rightarrow> nat \<Rightarrow> room_protocol_error + unit" where
  "enforce_limit field actual maximum =
     (if actual > maximum then Inl (RLimitExceeded field actual maximum) else Inr ())"

definition validate_utf16 :: "string \<Rightarrow> ustring \<Rightarrow> nat \<Rightarrow> room_protocol_error + unit" where
  "validate_utf16 field s maximum = enforce_limit field (length (encode_utf16 s)) maximum"

definition count_i32 :: "string \<Rightarrow> nat \<Rightarrow> room_protocol_error + int" where
  "count_i32 field n = (if n < 2 ^ 31 then Inr (int n) else Inl (RCountOverflow field))"

definition room_slot_hint :: "u8 \<Rightarrow> u8" where
  "room_slot_hint game_type = (if game_type \<in> {3, 4} then 2 else 8)"

abbreviation bool_u8 :: "bool \<Rightarrow> u8" where
  "bool_u8 b \<equiv> (if b then 1 else 0)"

abbreviation rwrite_utf16 :: "ustring \<Rightarrow> packet_writer \<Rightarrow> room_protocol_error + packet_writer" where
  "rwrite_utf16 s w \<equiv> rmap_err RPacket (write_utf16 s w)"

text \<open>\<open>for x in xs { check(x)?; }\<close> stops at the first error.\<close>

fun check_all :: "('a \<Rightarrow> 'e + unit) \<Rightarrow> 'a list \<Rightarrow> 'e + unit" where
  "check_all f [] = Inr ()"
| "check_all f (x # xs) = rbind (f x) (\<lambda>_. check_all f xs)"

text \<open>\<open>for x in xs { write(&mut packet, x)?; }\<close>.\<close>

fun write_all :: "('a \<Rightarrow> packet_writer \<Rightarrow> 'e + packet_writer) \<Rightarrow> 'a list \<Rightarrow> packet_writer \<Rightarrow> 'e + packet_writer" where
  "write_all f [] w = Inr w"
| "write_all f (x # xs) w = rbind (f x w) (write_all f xs)"

definition validate_room_list_entry :: "room_list_entry \<Rightarrow> room_protocol_error + unit" where
  "validate_room_list_entry room =
     rbind (validate_utf16 ''room name'' (rle_room_name room) max_room_name_units) (\<lambda>_.
     rbind (enforce_limit ''available room slot'' (unat (rle_available_slots room)) room_slot_count) (\<lambda>_.
     enforce_limit ''room player'' (unat (rle_player_count room)) room_slot_count))"

definition write_room_list_entry :: "room_list_entry \<Rightarrow> packet_writer \<Rightarrow> room_protocol_error + packet_writer" where
  "write_room_list_entry room packet =
     rbind (rwrite_utf16 (rle_room_name room) (write_i16 (rle_room_id room) packet)) (\<lambda>packet.
     Inr (write_bytes [0, 0]
       (write_u8 (rle_player_count room)
       (write_u8 (rle_available_slots room)
       (write_u8 (bool_u8 (rle_started room))
       (write_u8 (rle_speed_type room)
       (write_u8 (rle_game_type room)
       (write_u8 (bool_u8 (rle_locked room))
       (write_u32 (rle_track room) packet)))))))))"

definition serialize_ch_get_room_list_reply :: "int \<Rightarrow> room_list_entry list \<Rightarrow> room_protocol_error + u8 list" where
  "serialize_ch_get_room_list_reply p rooms =
     rbind (validate_page p) (\<lambda>_.
     rbind (enforce_limit ''room-list entry'' (length rooms) max_room_list_entries) (\<lambda>_.
     rbind (check_all validate_room_list_entry rooms) (\<lambda>_.
     rbind (count_i32 ''room-list entry'' (length rooms)) (\<lambda>count.
     write_all write_room_list_entry rooms
       (write_i32 count (write_i32 p (writer_named ''ChGetRoomListReplyPacket'')))))))"

definition serialize_ch_create_room_reply :: "create_room_outcome \<Rightarrow> u8 \<Rightarrow> u8 list" where
  "serialize_ch_create_room_reply outcome game_type =
     (let created = (outcome = Created)
      in write_encoded_u8 game_type
        (write_u8 (if created then room_slot_hint game_type else 0)
        (write_u8 (bool_u8 created)
        (write_u8 (bool_u8 created) (writer_named ''ChCreateRoomReplyPacket'')))))"

definition serialize_ch_join_room_reply :: "join_room_status \<Rightarrow> u8 \<Rightarrow> u8 list" where
  "serialize_ch_join_room_reply status game_type =
     (let success = (status = Success)
      in write_u8 0
        (write_encoded_u8 game_type
        (write_u8 (if success then room_slot_hint game_type else 0)
        (write_u8 (bool_u8 success)
        (write_u8 (join_room_status_code status) (writer_named ''ChJoinRoomReplyPacket''))))))"

definition serialize_ch_leave_room_reply :: "bool \<Rightarrow> u8 list" where
  "serialize_ch_leave_room_reply left = write_u8 (bool_u8 left) (writer_named ''ChLeaveRoomReplyPacket'')"

definition serialize_gr_session_data :: "room_session_data \<Rightarrow> room_protocol_error + u8 list" where
  "serialize_gr_session_data session =
     rbind (validate_utf16 ''room name'' (rsd_room_name session) max_room_name_units) (\<lambda>_.
     rbind (validate_utf16 ''room password'' (rsd_password session) max_room_password_units) (\<lambda>_.
     rbind (rwrite_utf16 (rsd_room_name session) (writer_named ''GrSessionDataPacket'')) (\<lambda>packet.
     rbind (rwrite_utf16 (rsd_password session) packet) (\<lambda>packet.
     Inr (write_bytes (replicate 6 0) (write_i32 0 (write_u8 0 (write_i32 0
       (write_u8 (rsd_speed_type session) (write_u8 (rsd_game_type session) packet))))))))))"

definition validate_room_player :: "room_player \<Rightarrow> room_protocol_error + unit" where
  "validate_room_player p =
     rbind (validate_utf16 ''rider nickname'' (nickname p) max_rider_nickname_units) (\<lambda>_.
     rbind (validate_utf16 ''rider card'' (card p) max_rider_card_units) (\<lambda>_.
     if club_mark_logo p \<noteq> 0
     then validate_utf16 ''club name'' (club_name p) max_club_name_units else Inr ()))"

text \<open>The \<open>seen\<close> array loop over the closed slot ids.\<close>

fun validate_closed_slots :: "bool list \<Rightarrow> u8 list \<Rightarrow> room_protocol_error + unit" where
  "validate_closed_slots seen [] = Inr ()"
| "validate_closed_slots seen (slot # slots) =
     (let index = unat slot in
      if index \<ge> room_slot_count then Inl (RInvalidClosedSlot slot)
      else if seen ! index then Inl (RDuplicateClosedSlot slot)
      else validate_closed_slots (seen[index := True]) slots)"

definition validate_member :: "room_member \<Rightarrow> room_protocol_error + unit" where
  "validate_member m = (case m of MPlayer p \<Rightarrow> validate_room_player p | _ \<Rightarrow> Inr ())"

definition validate_observer_slot :: "room_observer_slot \<Rightarrow> room_protocol_error + unit" where
  "validate_observer_slot ob = (case ob of
       OPlayer p \<Rightarrow> validate_utf16 ''observer nickname'' (ob_nickname p) max_rider_nickname_units
     | OEmpty \<Rightarrow> Inr ())"

definition validate_slot_position :: "nat \<times> int \<Rightarrow> room_protocol_error + unit" where
  "validate_slot_position ip = (case ip of (index, pos) \<Rightarrow>
     if - 1 \<le> pos \<and> pos \<le> 7 then Inr () else Inl (RInvalidSlotPosition index pos))"

definition validate_slot_data :: "room_slot_data \<Rightarrow> room_protocol_error + unit" where
  "validate_slot_data slots =
     rbind (enforce_limit ''closed room slot'' (length (rs_closed_slot_ids slots)) room_slot_count) (\<lambda>_.
     rbind (validate_closed_slots (replicate room_slot_count False) (rs_closed_slot_ids slots)) (\<lambda>_.
     rbind (check_all validate_member (rs_members_by_id slots)) (\<lambda>_.
     rbind (check_all validate_observer_slot (rs_observers slots)) (\<lambda>_.
     check_all validate_slot_position (enumerate 0 (rs_slot_positions slots))))))"

definition write_endpoint :: "u8 list \<Rightarrow> u16 \<Rightarrow> packet_writer \<Rightarrow> packet_writer" where
  "write_endpoint address port w = write_u16 port (write_bytes address w)"

definition ipv4_unspecified :: "u8 list" where
  "ipv4_unspecified = [0, 0, 0, 0]"

definition write_room_player :: "room_player \<Rightarrow> packet_writer \<Rightarrow> room_protocol_error + packet_writer" where
  "write_room_player p packet =
     (let packet = write_endpoint ipv4_unspecified 0
        (write_endpoint (p2p_address p) (p2p_port p)
        (write_u32 (user_no p) (write_i32 (player_type p) packet))) in
     rbind (rwrite_utf16 (nickname p) packet) (\<lambda>packet.
     let packet = write_bytes (rider_item_snapshot p)
        (write_u16 (emblem_3 p) (write_u16 (emblem_2 p) (write_u16 (emblem_1 p) packet))) in
     rbind (rwrite_utf16 (card p) packet) (\<lambda>packet.
     let packet = write_u8 (rider_school_level p)
        (write_bytes [0xff, 0, 0, 0]
        (write_i32 5 (write_i32 2000 (write_i32 0 (write_i32 1499 (write_i32 1500
        (write_bytes (replicate 30 0)
        (write_i32 (ranking p) (write_u8 (team p) (write_u32 (rp p) packet)))))))))) in
     rbind (if club_mark_logo p = 0
            then rbind (rwrite_utf16 [] packet) (\<lambda>packet. Inr (write_i32 0 packet))
            else rbind (rwrite_utf16 (club_name p) packet)
                   (\<lambda>packet. Inr (write_i32 (club_mark_logo p) packet))) (\<lambda>packet.
     Inr (write_bytes (replicate 17 0) packet)))))"

definition write_room_ai_body :: "room_ai \<Rightarrow> packet_writer \<Rightarrow> packet_writer" where
  "write_room_ai_body ai packet =
     write_u8 (ai_team ai)
       (write_i16 (ai_goggle ai) (write_i16 (ai_head_band ai) (write_i16 (ai_balloon ai)
       (write_i16 (ai_kart ai) (write_i16 (ai_rider ai) (write_i16 (ai_character ai) packet))))))"

definition write_room_ai :: "room_ai \<Rightarrow> packet_writer \<Rightarrow> packet_writer" where
  "write_room_ai ai packet = write_room_ai_body ai (write_i32 7 packet)"

definition write_room_observer :: "room_observer \<Rightarrow> packet_writer \<Rightarrow> room_protocol_error + packet_writer" where
  "write_room_observer ob packet =
     rwrite_utf16 (ob_nickname ob)
       (write_endpoint ipv4_unspecified 0
       (write_endpoint (ob_p2p_address ob) (ob_p2p_port ob)
       (write_u32 (ob_user_no ob) (write_i32 (ob_player_type ob) packet))))"

definition write_member :: "room_member \<Rightarrow> packet_writer \<Rightarrow> room_protocol_error + packet_writer" where
  "write_member m packet = (case m of
       MPlayer p \<Rightarrow> write_room_player p packet
     | MAi ai \<Rightarrow> Inr (write_room_ai ai packet)
     | MClosed t \<Rightarrow> Inr (write_i32 t packet)
     | MEmpty \<Rightarrow> Inr (write_i32 0 packet))"

definition write_observer_slot :: "room_observer_slot \<Rightarrow> packet_writer \<Rightarrow> room_protocol_error + packet_writer" where
  "write_observer_slot ob packet = (case ob of
       OPlayer p \<Rightarrow> write_room_observer p packet
     | OEmpty \<Rightarrow> Inr (write_i32 0 packet))"

definition write_slot_positions :: "int list \<Rightarrow> packet_writer \<Rightarrow> packet_writer" where
  "write_slot_positions positions packet = foldl (\<lambda>w p. write_i32 p w) packet positions"

definition serialize_gr_slot_data :: "room_slot_data \<Rightarrow> room_protocol_error + u8 list" where
  "serialize_gr_slot_data slots =
     rbind (validate_slot_data slots) (\<lambda>_.
     let packet = write_bytes (replicate 11 0)
        (write_i32 (rs_room_master slots) (write_bytes (rs_room_data slots)
        (write_u32 (rs_room_data_header slots) (write_u32 (rs_track slots)
        (writer_named ''GrSlotDataPacket''))))) in
     rbind (count_i32 ''closed room slot'' (length (rs_closed_slot_ids slots))) (\<lambda>count.
     let packet = write_bytes (replicate 16 0)
        (write_bytes (rs_closed_slot_ids slots) (write_i32 count packet)) in
     rbind (write_all write_member (rs_members_by_id slots) packet) (\<lambda>packet.
     rbind (write_all write_observer_slot (rs_observers slots) packet) (\<lambda>packet.
     Inr (write_slot_positions (rs_slot_positions slots) packet)))))"

definition serialize_initial_room_state ::
  "room_session_data \<Rightarrow> room_slot_data \<Rightarrow> room_protocol_error + (u8 list \<times> u8 list)" where
  "serialize_initial_room_state session slots =
     rbind (serialize_gr_session_data session) (\<lambda>session_data.
     rbind (serialize_gr_slot_data slots) (\<lambda>slot_data.
     Inr (session_data, slot_data)))"

section \<open>Validation and totality of the serializers\<close>

lemma check_all_Inr_iff [result_iff]: "check_all f xs = Inr u \<longleftrightarrow> (\<forall>x\<in>set xs. f x = Inr ())"
  by (induction xs) (auto simp: result_iff)

lemma enforce_limit_Inr_iff [result_iff]: "enforce_limit field n m = Inr u \<longleftrightarrow> n \<le> m"
  by (simp add: enforce_limit_def)

lemma validate_utf16_Inr_iff [result_iff]:
  "validate_utf16 field s m = Inr u \<longleftrightarrow> length (encode_utf16 s) \<le> m"
  by (simp add: validate_utf16_def result_iff)

lemma validate_page_Inr_iff [result_iff]:
  "validate_page p = Inr u \<longleftrightarrow> 0 \<le> p \<and> p \<le> max_room_list_page"
  by (simp add: validate_page_def)

lemma count_i32_Inr_iff [result_iff]: "count_i32 field n = Inr i \<longleftrightarrow> n < 2 ^ 31 \<and> i = int n"
  by (auto simp: count_i32_def)

lemma unat_eq_iff_u8: "unat (a :: u8) = unat b \<longleftrightarrow> a = b"
  by (simp only: word_unat_eq_iff)

lemma validate_closed_slots_Inr_iff:
  "length seen = room_slot_count \<Longrightarrow>
     validate_closed_slots seen slots = Inr u \<longleftrightarrow>
       distinct slots \<and> (\<forall>x\<in>set slots. unat x < room_slot_count \<and> \<not> seen ! unat x)"
proof (induction slots arbitrary: seen)
  case Nil
  then show ?case by simp
next
  case (Cons x xs)
  show ?case
  proof (cases "unat x < room_slot_count \<and> \<not> seen ! unat x")
    case True
    then have step: "validate_closed_slots seen (x # xs) =
        validate_closed_slots (seen[unat x := True]) xs"
      by (simp add: Let_def)
    have upd: "\<not> seen[unat x := True] ! unat y \<longleftrightarrow> y \<noteq> x \<and> \<not> seen ! unat y"
      if "unat y < room_slot_count" for y
      using that Cons.prems unat_eq_iff_u8 [of x y] by (auto simp: nth_list_update)
    show ?thesis
      unfolding step
      using Cons.IH [of "seen[unat x := True]"] Cons.prems upd True by auto
  next
    case False
    then show ?thesis by (auto simp: Let_def)
  qed
qed

text \<open>What a slot snapshot must satisfy to be sent.\<close>

definition player_strings_ok :: "room_player \<Rightarrow> bool" where
  "player_strings_ok p \<longleftrightarrow>
     length (encode_utf16 (nickname p)) \<le> max_rider_nickname_units \<and>
     length (encode_utf16 (card p)) \<le> max_rider_card_units \<and>
     (club_mark_logo p \<noteq> 0 \<longrightarrow> length (encode_utf16 (club_name p)) \<le> max_club_name_units)"

lemma validate_room_player_Inr_iff [result_iff]:
  "validate_room_player p = Inr u \<longleftrightarrow> player_strings_ok p"
  by (auto simp: validate_room_player_def result_iff player_strings_ok_def)

lemma validate_slot_data_Inr_iff:
  "validate_slot_data s = Inr u \<longleftrightarrow>
     length (rs_closed_slot_ids s) \<le> room_slot_count \<and>
     distinct (rs_closed_slot_ids s) \<and> (\<forall>x\<in>set (rs_closed_slot_ids s). unat x < room_slot_count) \<and>
     (\<forall>p. MPlayer p \<in> set (rs_members_by_id s) \<longrightarrow> player_strings_ok p) \<and>
     (\<forall>p. OPlayer p \<in> set (rs_observers s) \<longrightarrow>
        length (encode_utf16 (ob_nickname p)) \<le> max_rider_nickname_units) \<and>
     (\<forall>pos\<in>set (rs_slot_positions s). - 1 \<le> pos \<and> pos \<le> 7)"
proof -
  have m: "(\<forall>x\<in>set ms. validate_member x = Inr ()) \<longleftrightarrow>
      (\<forall>p. MPlayer p \<in> set ms \<longrightarrow> player_strings_ok p)" for ms
  proof -
    have "validate_member x = Inr () \<longleftrightarrow> (\<forall>p. x = MPlayer p \<longrightarrow> player_strings_ok p)" for x
      by (cases x) (simp_all add: validate_member_def result_iff)
    then show ?thesis by metis
  qed
  have o: "(\<forall>x\<in>set os. validate_observer_slot x = Inr ()) \<longleftrightarrow>
      (\<forall>p. OPlayer p \<in> set os \<longrightarrow> length (encode_utf16 (ob_nickname p)) \<le> max_rider_nickname_units)" for os
  proof -
    have "validate_observer_slot x = Inr () \<longleftrightarrow>
        (\<forall>p. x = OPlayer p \<longrightarrow> length (encode_utf16 (ob_nickname p)) \<le> max_rider_nickname_units)" for x
      by (cases x) (simp_all add: validate_observer_slot_def result_iff)
    then show ?thesis by metis
  qed
  have p: "(\<forall>x\<in>set (enumerate 0 ps). validate_slot_position x = Inr ()) \<longleftrightarrow>
      (\<forall>pos\<in>set ps. - 1 \<le> pos \<and> pos \<le> 7)" for ps
  proof -
    have pos: "validate_slot_position (i, q) = Inr () \<longleftrightarrow> - 1 \<le> q \<and> q \<le> 7" for i q
      by (simp add: validate_slot_position_def)
    have "(\<forall>x\<in>set (enumerate 0 ps). validate_slot_position x = Inr ()) \<longleftrightarrow>
        (\<forall>q\<in>snd ` set (enumerate 0 ps). - 1 \<le> q \<and> q \<le> 7)"
      by (force simp: pos)
    also have "snd ` set (enumerate 0 ps) = set ps"
      by (metis list.set_map map_snd_enumerate)
    finally show ?thesis .
  qed
  show ?thesis
    by (simp add: validate_slot_data_def result_iff validate_closed_slots_Inr_iff m o p) (auto simp: room_slot_count_def)
qed

lemma write_utf16_total: "length (encode_utf16 s) \<le> n \<Longrightarrow> n < 2 ^ 31 \<Longrightarrow> \<exists>w'. rwrite_utf16 s w = Inr w'"
  by (auto simp: result_iff)

lemma write_all_total: "(\<And>x w. x \<in> set xs \<Longrightarrow> \<exists>w'. f x w = Inr w') \<Longrightarrow> \<exists>w'. write_all f xs w = Inr w'"
proof (induction xs arbitrary: w)
  case Nil
  then show ?case by simp
next
  case (Cons x xs)
  from Cons.prems [of x w] obtain w1 where "f x w = Inr w1" by auto
  moreover obtain w2 where "write_all f xs w1 = Inr w2" using Cons by (meson list.set_intros(2))
  ultimately show ?case by simp
qed

lemma write_room_player_total: "player_strings_ok p \<Longrightarrow> \<exists>w'. write_room_player p w = Inr w'"
proof -
  assume ok: "player_strings_ok p"
  have small: "length (encode_utf16 (nickname p)) < 2147483648" "length (encode_utf16 (card p)) < 2147483648"
    "club_mark_logo p \<noteq> 0 \<longrightarrow> length (encode_utf16 (club_name p)) < 2147483648"
    using ok by (auto simp: player_strings_ok_def room_limit_defs)
  have "encode_utf16 [] = []" by (simp add: encode_utf16_def)
  with small show ?thesis
    by (simp add: write_room_player_def write_utf16_def Let_def)
qed

text \<open>Validation is the only way a slot snapshot can fail to be written.\<close>

lemma serialize_gr_slot_data_total:
  assumes "validate_slot_data s = Inr ()"
  shows "\<exists>p. serialize_gr_slot_data s = Inr p"
proof -
  from assms have v: "length (rs_closed_slot_ids s) \<le> room_slot_count"
    "\<And>p. MPlayer p \<in> set (rs_members_by_id s) \<Longrightarrow> player_strings_ok p"
    "\<And>p. OPlayer p \<in> set (rs_observers s) \<Longrightarrow> length (encode_utf16 (ob_nickname p)) \<le> max_rider_nickname_units"
    by (auto simp: validate_slot_data_Inr_iff)
  have m: "\<exists>w'. write_member x w = Inr w'" if "x \<in> set (rs_members_by_id s)" for x w
  proof (cases x)
    case (MPlayer p)
    then show ?thesis using that v(2) [of p] by (auto simp: write_member_def write_room_player_total)
  qed (simp_all add: write_member_def)
  have ob: "\<exists>w'. write_observer_slot x w = Inr w'" if "x \<in> set (rs_observers s)" for x w
  proof (cases x)
    case (OPlayer p)
    then show ?thesis
      using that v(3) [of p] by (auto simp: write_observer_slot_def write_room_observer_def room_limit_defs result_iff)
  qed (simp add: write_observer_slot_def)
  have "\<exists>p. write_all write_member (rs_members_by_id s) w = Inr p" for w
    by (rule write_all_total) (rule m)
  then obtain wm where wm: "\<And>w. write_all write_member (rs_members_by_id s) w = Inr (wm w)" by metis
  have "\<exists>p. write_all write_observer_slot (rs_observers s) w = Inr p" for w
    by (rule write_all_total) (rule ob)
  then obtain wo where wo: "\<And>w. write_all write_observer_slot (rs_observers s) w = Inr (wo w)" by metis
  have "length (rs_closed_slot_ids s) < 2 ^ 31" using v(1) by (simp add: room_slot_count_def)
  with assms wm wo show ?thesis
    by (simp add: serialize_gr_slot_data_def count_i32_def Let_def)
qed

lemma serialize_gr_slot_data_Inr_iff:
  "(\<exists>p. serialize_gr_slot_data s = Inr p) \<longleftrightarrow> validate_slot_data s = Inr ()"
  using serialize_gr_slot_data_total [of s] by (auto simp: serialize_gr_slot_data_def result_iff)

section \<open>Parser facts\<close>

lemma room_hashes_distinct:
  "distinct (map (\<lambda>r. packet_hash (room_request_name r)) room_protocol_requests)"
  by code_simp

lemma classify_room_request: "classify_room_protocol_request (packet_hash (room_request_name r)) = Some r"
  unfolding classify_room_protocol_request_def
  by (rule find_injective [OF room_hashes_distinct]) (cases r; simp add: room_protocol_requests_def)

lemma run_parser_reads:
  assumes "reads p bs x" "length bs \<le> usize_max"
  shows "run_parser p bs = Inr x"
proof -
  have "reader_remaining (reader_new bs) = bs @ []"
    by (simp add: reader_remaining_def reader_new_def)
  from readsD [OF assms(1) wf_reader_new [OF assms(2)] this] show ?thesis
    by (simp add: run_parser_def)
qed

lemma reads_expect_hash: "reads (room_expect_hash name) (le32 (packet_hash name)) ()"
proof -
  have "reads (room_expect_hash name) (le32 (packet_hash name) @ []) ()"
    unfolding room_expect_hash_def Let_def
    by (rule reads_pbind [OF reads_perr [OF c_u32.get_put]]) auto
  then show ?thesis by simp
qed

text \<open>A whole packet: \<open>ensure_exhausted\<close> accepts exactly the end of the input.\<close>

definition reads_all :: "('e, 'a) parser \<Rightarrow> u8 list \<Rightarrow> 'a \<Rightarrow> bool" where
  "reads_all p bs x \<longleftrightarrow>
     (\<forall>r. wf_reader r \<and> reader_remaining r = bs \<longrightarrow> (\<exists>r'. p r = Inr (x, r')))"

lemma run_parser_reads_all: "reads_all p bs x \<Longrightarrow> length bs \<le> usize_max \<Longrightarrow> run_parser p bs = Inr x"
  using wf_reader_new [of bs]
  by (fastforce simp: reads_all_def run_parser_def reader_remaining_def reader_new_def)

lemma reads_all_pbind:
  assumes "reads p bs x" "reads_all (f x) cs y"
  shows "reads_all (pbind p f) (bs @ cs) y"
  unfolding reads_all_def
proof (intro allI impI)
  fix r
  assume r: "wf_reader r \<and> reader_remaining r = bs @ cs"
  from readsD [OF assms(1), of r cs] r
  have 1: "p r = Inr (x, r\<lparr>pr_offset := pr_offset r + length bs\<rparr>)" by simp
  from r assms(2) wf_advance [of r bs cs] remaining_advance [of r bs cs]
  show "\<exists>r'. pbind p f r = Inr (y, r')"
    by (simp add: pbind_def 1 reads_all_def)
qed

lemma reads_all_exhausted: "f () = preturn y \<Longrightarrow> reads_all (pbind (room_ensure_exhausted name) f) [] y"
  by (simp add: reads_all_def pbind_def room_ensure_exhausted_def preturn_def)

lemma reads_pcheck: "m = Inr x \<Longrightarrow> reads (pcheck m) [] x"
  by (simp add: reads_def pcheck_def)

lemma pbind_Inr_iff: "pbind p f r = Inr (y, r') \<longleftrightarrow> (\<exists>x r1. p r = Inr (x, r1) \<and> f x r1 = Inr (y, r'))"
  by (auto simp: pbind_def split: sum.splits)

text \<open>The wire form of the requests the stock client sends.\<close>

definition create_room_request_bytes :: "ch_create_room_request \<Rightarrow> u8 list" where
  "create_room_request_bytes q =
     le32 (packet_hash ''ChCreateRoomRequestPacket'') @ utf16_field (ccr_room_name q) @
     utf16_field (ccr_password q) @ [encode_u8 (ccr_game_type q)] @
     le32 (word_of_int (ccr_reserved_after_game_type q)) @ le32 (word_of_int (ccr_ai_count q)) @
     le32 (ccr_room_data_header q) @ ccr_room_data q @ ccr_connection_context q @
     [ccr_reserved_before_ai_switch q] @ le32 (word_of_int (ccr_ai_switch q)) @
     [ccr_reserved_after_ai_switch_1 q] @ [ccr_reserved_after_ai_switch_2 q] @
     le32 (word_of_int (ccr_reserved_tail q)) @ [ccr_reserved_last q]"

definition create_room_request_wf :: "ch_create_room_request \<Rightarrow> bool" where
  "create_room_request_wf q \<longleftrightarrow>
     utf16_ok max_room_name_units (ccr_room_name q) \<and> utf16_ok max_room_password_units (ccr_password q) \<and>
     ccr_game_type q \<noteq> 255 \<and> i32_range (ccr_reserved_after_game_type q) \<and>
     0 \<le> ccr_ai_count q \<and> ccr_ai_count q \<le> max_room_ai_count \<and>
     length (ccr_room_data q) = room_data_length \<and>
     length (ccr_connection_context q) = room_connection_context_length \<and>
     i32_range (ccr_ai_switch q) \<and> i32_range (ccr_reserved_tail q)"

lemmas reads_room_field =
  reads_perr [OF c_u8.get_put [OF TrueI]] reads_perr [OF c_u16.get_put [OF TrueI]]
  reads_perr [OF c_u32.get_put [OF TrueI]] reads_perr [OF c_i32.get_put]
  reads_perr [OF c_utf16.get_put] reads_perr [OF c_enc_u8.get_put]

lemma reads_read_bytes: "length bs = n \<Longrightarrow> reads (perr g (read_bytes n)) bs bs"
  unfolding read_bytes_def by (intro reads_perr reads_take)

lemma create_room_request_reads:
  assumes "create_room_request_wf q"
  shows "reads_all create_room_request_parser (create_room_request_bytes q) q"
proof -
  have ai: "i32_range (ccr_ai_count q)"
    using assms by (auto simp: create_room_request_wf_def i32_range_def max_room_ai_count_def)
  show ?thesis
    unfolding create_room_request_bytes_def create_room_request_parser_def
    using assms ai
    by (auto simp: create_room_request_wf_def
        intro!: reads_all_pbind [OF reads_expect_hash] reads_all_pbind [OF reads_room_field(5)]
          reads_all_pbind [OF reads_room_field(6)] reads_all_pbind [OF reads_room_field(4)]
          reads_all_pbind [OF reads_room_field(3)] reads_all_pbind [OF reads_read_bytes]
          reads_all_pbind [OF reads_room_field(1), where cs = "[]", simplified]
          reads_all_pbind [OF reads_room_field(1)] reads_all_exhausted
        simp del: append.simps)
      (cases q, simp)
qed

end
