(* ===== verification/LobbyProtocol.thy ===== *)
theory LobbyProtocol
  imports RoomProtocol
begin

text \<open>
  \<open>p5136-core/src/lobby_protocol.rs\<close>: the ready-stage packets of a room, i.e. slot
  state, team, master, track, basic AI, closed slots, chat, room info and kick.  One
  parser per request and one serializer per reply, with the checks of the source in
  the source's order.
\<close>

definition room_observer_id_end :: int where "room_observer_id_end = 15"
definition max_room_chat_units :: nat where "max_room_chat_units = 256"

datatype lobby_request =
    SetSlotState | ChangeTeam | ChangeMaster | StartRoom | ChangeTrack | BasicAi | CloseSlot
  | RiderTalk | MacroChat | ChangeRoomInfo | Kick

datatype player_slot_state = NotReady | Ready | Observer | Preparing
datatype room_team = Red | Blue
datatype close_slot_operation = OpenSlots | CloseSlots
datatype start_room_status = StartSuccess | StartNotAllReady

datatype lobby_protocol_error =
    LPacket packet_error
  | LUnexpectedPacketHash string u32 u32
  | LTrailingBytes string nat
  | LInvalidPlayerSlotState int
  | LInvalidTeam u8
  | LInvalidPlayerId int
  | LInvalidSnapshotSlotState nat int
  | LInvalidSlotPosition nat int
  | LInvalidCloseSlotOperation u8
  | LInvalidRoomSlotId u8
  | LDuplicateRoomSlotId u8
  | LBasicAiCountLimit nat nat
  | LChatTooLong nat nat
  | LNicknameTooLong nat nat

fun slot_state_code :: "player_slot_state \<Rightarrow> int" where
  "slot_state_code NotReady = 2"
| "slot_state_code Ready = 3"
| "slot_state_code Observer = 4"
| "slot_state_code Preparing = 5"

definition slot_state_from_wire :: "int \<Rightarrow> lobby_protocol_error + player_slot_state" where
  "slot_state_from_wire value =
     (if value = 2 then Inr NotReady
      else if value = 3 then Inr Ready
      else if value = 4 then Inr Observer
      else if value = 5 then Inr Preparing
      else Inl (LInvalidPlayerSlotState value))"

fun team_code :: "room_team \<Rightarrow> u8" where
  "team_code Red = 1"
| "team_code Blue = 2"

definition team_from_wire :: "u8 \<Rightarrow> lobby_protocol_error + room_team" where
  "team_from_wire value =
     (if value = 1 then Inr Red else if value = 2 then Inr Blue else Inl (LInvalidTeam value))"

definition close_slot_from_wire :: "u8 \<Rightarrow> lobby_protocol_error + close_slot_operation" where
  "close_slot_from_wire value =
     (if value = 0 then Inr OpenSlots else if value = 1 then Inr CloseSlots
      else Inl (LInvalidCloseSlotOperation value))"

definition is_close :: "close_slot_operation \<Rightarrow> bool" where
  "is_close op = (case op of CloseSlots \<Rightarrow> True | OpenSlots \<Rightarrow> False)"

fun start_room_status_code :: "start_room_status \<Rightarrow> int" where
  "start_room_status_code StartSuccess = 0"
| "start_room_status_code StartNotAllReady = 2"

record change_track_request =
  ctr_track :: u32
  ctr_room_data_header :: u32
  ctr_room_data :: "u8 list"

record basic_ai_request =
  bar_player_id :: u32
  bar_option :: u8

record close_slot_request =
  csr_first_member_id :: u32
  csr_operation :: close_slot_operation
  csr_first_slot_id :: u32
  csr_second_member_id :: u32
  csr_second_slot_id :: u32

record rider_talk_request =
  rtr_message :: ustring
  rtr_reserved :: u32

record macro_chat_request =
  mcr_chat_type :: int
  mcr_message_id :: u8
  mcr_client_message :: ustring

record change_room_info_request =
  crr_room_name :: ustring
  crr_password :: ustring
  crr_limit_time :: int
  crr_r_key_allowed :: u8

section \<open>Classification\<close>

fun lobby_request_name :: "lobby_request \<Rightarrow> string" where
  "lobby_request_name SetSlotState = ''GrRequestSetSlotStatePacket''"
| "lobby_request_name ChangeTeam = ''GrChangeTeamPacket''"
| "lobby_request_name ChangeMaster = ''PqRoomMasterChangePacket''"
| "lobby_request_name StartRoom = ''GrRequestStartPacket''"
| "lobby_request_name ChangeTrack = ''GrChangeTrackPacket''"
| "lobby_request_name BasicAi = ''GrRequestBasicAiPacket''"
| "lobby_request_name CloseSlot = ''GrRequestClosePacket''"
| "lobby_request_name RiderTalk = ''GrRiderTalkPacket''"
| "lobby_request_name MacroChat = ''PqSendMacroChat''"
| "lobby_request_name ChangeRoomInfo = ''PqChangeRoomInfoPacket''"
| "lobby_request_name Kick = ''GrRequestKickPacket''"

definition lobby_requests :: "lobby_request list" where
  "lobby_requests =
     [SetSlotState, ChangeTeam, ChangeMaster, StartRoom, ChangeTrack, BasicAi, CloseSlot,
      RiderTalk, MacroChat, ChangeRoomInfo, Kick]"

definition classify_lobby_request :: "u32 \<Rightarrow> lobby_request option" where
  "classify_lobby_request h =
     List.find (\<lambda>request. packet_hash (lobby_request_name request) = h) lobby_requests"

section \<open>Parsers\<close>

abbreviation llift :: "(packet_error, 'a) parser \<Rightarrow> (lobby_protocol_error, 'a) parser" where
  "llift \<equiv> perr LPacket"

definition lobby_expect_hash :: "string \<Rightarrow> (lobby_protocol_error, unit) parser" where
  "lobby_expect_hash name = pbind (llift read_u32) (\<lambda>actual.
     let expected = packet_hash name
     in if actual = expected then preturn () else pfail (LUnexpectedPacketHash name expected actual))"

definition lobby_ensure_exhausted :: "string \<Rightarrow> (lobby_protocol_error, unit) parser" where
  "lobby_ensure_exhausted name r =
     (if reader_remaining r = [] then preturn () r
      else pfail (LTrailingBytes name (length (reader_remaining r))) r)"

definition parse_set_slot_state_request :: "u8 list \<Rightarrow> lobby_protocol_error + player_slot_state" where
  "parse_set_slot_state_request = run_parser
     (pbind (lobby_expect_hash ''GrRequestSetSlotStatePacket'') (\<lambda>_.
      pbind (llift read_i32) (\<lambda>value.
      pbind (pcheck (slot_state_from_wire value)) (\<lambda>state.
      pbind (lobby_ensure_exhausted ''GrRequestSetSlotStatePacket'') (\<lambda>_.
      preturn state)))))"

definition parse_change_team_request :: "u8 list \<Rightarrow> lobby_protocol_error + room_team" where
  "parse_change_team_request = run_parser
     (pbind (lobby_expect_hash ''GrChangeTeamPacket'') (\<lambda>_.
      pbind (llift read_u8) (\<lambda>value.
      pbind (pcheck (team_from_wire value)) (\<lambda>t.
      pbind (lobby_ensure_exhausted ''GrChangeTeamPacket'') (\<lambda>_.
      preturn t)))))"

definition parse_change_master_request :: "u8 list \<Rightarrow> lobby_protocol_error + ustring" where
  "parse_change_master_request = run_parser
     (pbind (lobby_expect_hash ''PqRoomMasterChangePacket'') (\<lambda>_.
      pbind (llift (read_utf16_bounded max_rider_nickname_units)) (\<lambda>target.
      pbind (lobby_ensure_exhausted ''PqRoomMasterChangePacket'') (\<lambda>_.
      preturn target))))"

definition parse_start_room_request :: "u8 list \<Rightarrow> lobby_protocol_error + int" where
  "parse_start_room_request = run_parser
     (pbind (lobby_expect_hash ''GrRequestStartPacket'') (\<lambda>_.
      pbind (llift read_i32) (\<lambda>reserved.
      pbind (lobby_ensure_exhausted ''GrRequestStartPacket'') (\<lambda>_.
      preturn reserved))))"

definition parse_change_track_request :: "u8 list \<Rightarrow> lobby_protocol_error + change_track_request" where
  "parse_change_track_request = run_parser
     (pbind (lobby_expect_hash ''GrChangeTrackPacket'') (\<lambda>_.
      pbind (llift read_u32) (\<lambda>track.
      pbind (llift read_u32) (\<lambda>header.
      pbind (llift (read_bytes room_data_length)) (\<lambda>data.
      pbind (lobby_ensure_exhausted ''GrChangeTrackPacket'') (\<lambda>_.
      preturn \<lparr>ctr_track = track, ctr_room_data_header = header, ctr_room_data = data\<rparr>))))))"

definition parse_basic_ai_request :: "u8 list \<Rightarrow> lobby_protocol_error + basic_ai_request" where
  "parse_basic_ai_request = run_parser
     (pbind (lobby_expect_hash ''GrRequestBasicAiPacket'') (\<lambda>_.
      pbind (llift read_u32) (\<lambda>player.
      pbind (llift read_u8) (\<lambda>opt.
      pbind (lobby_ensure_exhausted ''GrRequestBasicAiPacket'') (\<lambda>_.
      preturn \<lparr>bar_player_id = player, bar_option = opt\<rparr>)))))"

definition parse_close_slot_request :: "u8 list \<Rightarrow> lobby_protocol_error + close_slot_request" where
  "parse_close_slot_request = run_parser
     (pbind (lobby_expect_hash ''GrRequestClosePacket'') (\<lambda>_.
      pbind (llift read_u32) (\<lambda>first_member.
      pbind (llift read_u8) (\<lambda>value.
      pbind (pcheck (close_slot_from_wire value)) (\<lambda>op.
      pbind (llift read_u32) (\<lambda>first_slot.
      pbind (llift read_u32) (\<lambda>second_member.
      pbind (llift read_u32) (\<lambda>second_slot.
      pbind (lobby_ensure_exhausted ''GrRequestClosePacket'') (\<lambda>_.
      preturn \<lparr>csr_first_member_id = first_member, csr_operation = op,
        csr_first_slot_id = first_slot, csr_second_member_id = second_member,
        csr_second_slot_id = second_slot\<rparr>)))))))))"

definition parse_rider_talk_request :: "u8 list \<Rightarrow> lobby_protocol_error + rider_talk_request" where
  "parse_rider_talk_request = run_parser
     (pbind (lobby_expect_hash ''GrRiderTalkPacket'') (\<lambda>_.
      pbind (llift (read_utf16_bounded max_room_chat_units)) (\<lambda>message.
      pbind (llift read_u32) (\<lambda>reserved.
      pbind (lobby_ensure_exhausted ''GrRiderTalkPacket'') (\<lambda>_.
      preturn \<lparr>rtr_message = message, rtr_reserved = reserved\<rparr>)))))"

definition parse_macro_chat_request :: "u8 list \<Rightarrow> lobby_protocol_error + macro_chat_request" where
  "parse_macro_chat_request = run_parser
     (pbind (lobby_expect_hash ''PqSendMacroChat'') (\<lambda>_.
      pbind (llift read_i32) (\<lambda>chat_type.
      pbind (llift read_u8) (\<lambda>message_id.
      pbind (llift (read_utf16_bounded max_room_chat_units)) (\<lambda>message.
      pbind (lobby_ensure_exhausted ''PqSendMacroChat'') (\<lambda>_.
      preturn \<lparr>mcr_chat_type = chat_type, mcr_message_id = message_id,
        mcr_client_message = message\<rparr>))))))"

definition parse_change_room_info_request ::
  "u8 list \<Rightarrow> lobby_protocol_error + change_room_info_request" where
  "parse_change_room_info_request = run_parser
     (pbind (lobby_expect_hash ''PqChangeRoomInfoPacket'') (\<lambda>_.
      pbind (llift (read_utf16_bounded max_room_name_units)) (\<lambda>name.
      pbind (llift (read_utf16_bounded max_room_password_units)) (\<lambda>pass.
      pbind (llift read_i32) (\<lambda>limit.
      pbind (llift read_u8) (\<lambda>r_key.
      pbind (lobby_ensure_exhausted ''PqChangeRoomInfoPacket'') (\<lambda>_.
      preturn \<lparr>crr_room_name = name, crr_password = pass, crr_limit_time = limit,
        crr_r_key_allowed = r_key\<rparr>)))))))"

definition parse_kick_request :: "u8 list \<Rightarrow> lobby_protocol_error + int" where
  "parse_kick_request = run_parser
     (pbind (lobby_expect_hash ''GrRequestKickPacket'') (\<lambda>_.
      pbind (llift read_i32) (\<lambda>target.
      pbind (lobby_ensure_exhausted ''GrRequestKickPacket'') (\<lambda>_.
      preturn target))))"

section \<open>Serializers\<close>

abbreviation lwrite_utf16 :: "ustring \<Rightarrow> packet_writer \<Rightarrow> lobby_protocol_error + packet_writer" where
  "lwrite_utf16 s w \<equiv> rmap_err LPacket (write_utf16 s w)"

definition validate_player_id :: "int \<Rightarrow> lobby_protocol_error + unit" where
  "validate_player_id player =
     (if 0 \<le> player \<and> player \<le> room_observer_id_end then Inr () else Inl (LInvalidPlayerId player))"

definition validate_racer_player_id :: "int \<Rightarrow> lobby_protocol_error + unit" where
  "validate_racer_player_id player =
     (if 0 \<le> player \<and> player < int room_slot_count then Inr () else Inl (LInvalidPlayerId player))"

fun validate_closed_slot_ids_from :: "bool list \<Rightarrow> u8 list \<Rightarrow> lobby_protocol_error + unit" where
  "validate_closed_slot_ids_from seen [] = Inr ()"
| "validate_closed_slot_ids_from seen (slot # slots) =
     (let index = unat slot in
      if index \<ge> room_slot_count then Inl (LInvalidRoomSlotId slot)
      else if seen ! index then Inl (LDuplicateRoomSlotId slot)
      else validate_closed_slot_ids_from (seen[index := True]) slots)"

definition validate_closed_slot_ids :: "u8 list \<Rightarrow> lobby_protocol_error + unit" where
  "validate_closed_slot_ids = validate_closed_slot_ids_from (replicate room_slot_count False)"

definition validate_chat :: "ustring \<Rightarrow> lobby_protocol_error + unit" where
  "validate_chat message =
     (let actual = length (encode_utf16 message)
      in if actual \<le> max_room_chat_units then Inr () else Inl (LChatTooLong actual max_room_chat_units))"

definition lobby_validate_slot_position :: "nat \<times> int \<Rightarrow> lobby_protocol_error + unit" where
  "lobby_validate_slot_position ip = (case ip of (index, pos) \<Rightarrow>
     if - 1 \<le> pos \<and> pos \<le> 7 then Inr () else Inl (LInvalidSlotPosition index pos))"

definition validate_slot_positions :: "int list \<Rightarrow> lobby_protocol_error + unit" where
  "validate_slot_positions positions = check_all lobby_validate_slot_position (enumerate 0 positions)"

definition validate_snapshot_slot_state :: "nat \<times> int \<Rightarrow> lobby_protocol_error + unit" where
  "validate_snapshot_slot_state ip = (case ip of (player, state) \<Rightarrow>
     if state \<in> {0, 1, 2, 3, 4, 5, 7} then Inr () else Inl (LInvalidSnapshotSlotState player state))"

definition serialize_slot_state :: "int list \<Rightarrow> lobby_protocol_error + u8 list" where
  "serialize_slot_state states =
     rbind (check_all validate_snapshot_slot_state (enumerate 0 states)) (\<lambda>_.
     Inr (write_bytes (replicate 32 0) (write_slot_positions states (writer_named ''GrSlotStatePacket''))))"

definition serialize_set_slot_state_reply ::
  "u32 \<Rightarrow> bool \<Rightarrow> int \<Rightarrow> player_slot_state \<Rightarrow> lobby_protocol_error + u8 list" where
  "serialize_set_slot_state_reply user accepted player state =
     rbind (validate_player_id player) (\<lambda>_.
     Inr (write_i32 (slot_state_code state) (write_i32 player (write_u8 (bool_u8 accepted)
       (write_u32 user (writer_named ''GrReplySetSlotStatePacket''))))))"

definition serialize_change_team_reply ::
  "int \<Rightarrow> room_team \<Rightarrow> int list \<Rightarrow> lobby_protocol_error + u8 list" where
  "serialize_change_team_reply player t positions =
     rbind (validate_player_id player) (\<lambda>_.
     rbind (validate_slot_positions positions) (\<lambda>_.
     Inr (write_slot_positions positions
       (write_u8 (team_code t) (write_i32 player (writer_named ''GrChangeTeamPacketReply''))))))"

definition write_basic_ai_update :: "int \<times> room_ai \<Rightarrow> packet_writer \<Rightarrow> lobby_protocol_error + packet_writer" where
  "write_basic_ai_update upd packet = (case upd of (player, ai) \<Rightarrow>
     rbind (validate_racer_player_id player) (\<lambda>_.
     Inr (write_room_ai_body ai (write_i32 player packet))))"

definition serialize_basic_ai_added ::
  "(int \<times> room_ai) list \<Rightarrow> int list \<Rightarrow> lobby_protocol_error + u8 list" where
  "serialize_basic_ai_added ais positions =
     (if ais = [] \<or> length ais > 2 then Inl (LBasicAiCountLimit (length ais) 2)
      else
        rbind (validate_slot_positions positions) (\<lambda>_.
        rbind (write_all write_basic_ai_update ais
          (write_u8 (word_of_nat (length ais)) (write_i32 0 (writer_named ''GrSlotDataBasicAi'')))) (\<lambda>packet.
        Inr (write_slot_positions positions packet))))"

definition serialize_basic_ai_removed :: "int \<Rightarrow> int list \<Rightarrow> lobby_protocol_error + u8 list" where
  "serialize_basic_ai_removed player positions =
     rbind (validate_racer_player_id player) (\<lambda>_.
     rbind (validate_slot_positions positions) (\<lambda>_.
     Inr (write_slot_positions positions (write_bytes (replicate 13 0) (write_i32 player
       (write_u8 1 (write_i32 1 (writer_named ''GrSlotDataBasicAi''))))))))"

definition serialize_basic_ai_reply :: "bool \<Rightarrow> u8 list" where
  "serialize_basic_ai_reply changed = write_u8 (bool_u8 changed) (writer_named ''GrReplyBasicAiPacket'')"

definition serialize_close_slot_reply ::
  "u32 \<Rightarrow> bool \<Rightarrow> u32 \<Rightarrow> u32 \<Rightarrow> close_slot_operation \<Rightarrow> u8 list \<Rightarrow> lobby_protocol_error + u8 list" where
  "serialize_close_slot_reply user accepted first_member second_member op closed =
     rbind (validate_closed_slot_ids closed) (\<lambda>_.
     Inr (write_bytes closed
       (write_i32 (int (length closed))
       (write_i32 (if is_close op \<and> accepted then 1 else 0)
       (write_u32 second_member (write_u32 first_member
       (write_u8 (bool_u8 accepted) (write_u32 user (writer_named ''GrReplyClosePacket'')))))))))"

definition serialize_rider_echo :: "int \<Rightarrow> ustring \<Rightarrow> lobby_protocol_error + u8 list" where
  "serialize_rider_echo player message =
     rbind (validate_player_id player) (\<lambda>_.
     rbind (validate_chat message) (\<lambda>_.
     lwrite_utf16 message (write_i32 player (writer_named ''GrRiderEchoPacket''))))"

definition serialize_macro_chat_relay ::
  "u32 \<Rightarrow> int \<Rightarrow> u8 \<Rightarrow> ustring \<Rightarrow> lobby_protocol_error + u8 list" where
  "serialize_macro_chat_relay user chat_type message_id message =
     rbind (validate_chat message) (\<lambda>_.
     lwrite_utf16 message (write_u8 message_id (write_i32 chat_type
       (write_u32 user (writer_named ''PcSendMacroChat'')))))"

definition serialize_change_room_info_reply ::
  "change_room_info_request \<Rightarrow> lobby_protocol_error + u8 list" where
  "serialize_change_room_info_reply request =
     (let name_units = length (encode_utf16 (crr_room_name request)) in
      if name_units > max_room_name_units
      then Inl (LPacket (StringLimitExceeded name_units max_room_name_units))
      else let password_units = length (encode_utf16 (crr_password request)) in
      if password_units > max_room_password_units
      then Inl (LPacket (StringLimitExceeded password_units max_room_password_units))
      else
        rbind (lwrite_utf16 (crr_room_name request)
          (write_u8 1 (writer_named ''PrChangeRoomInfoPacket''))) (\<lambda>packet.
        rbind (lwrite_utf16 (crr_password request) packet) (\<lambda>packet.
        Inr (write_u8 (crr_r_key_allowed request) (write_i32 (crr_limit_time request) packet)))))"

definition serialize_kick_broadcast :: "ustring \<Rightarrow> lobby_protocol_error + u8 list" where
  "serialize_kick_broadcast name =
     (let units = length (encode_utf16 name) in
      if units > max_rider_nickname_units
      then Inl (LNicknameTooLong units max_rider_nickname_units)
      else lwrite_utf16 name (writer_named ''GrKickBroadcastPacket''))"

definition serialize_kick_reply :: "u8 list" where
  "serialize_kick_reply = write_u8 0 (writer_named ''GrReplyKickPacket'')"

definition serialize_start_room_reply :: "start_room_status \<Rightarrow> u8 list" where
  "serialize_start_room_reply status =
     write_i32 (start_room_status_code status) (writer_named ''GrReplyStartPacket'')"

section \<open>Facts\<close>

lemma lobby_hashes_distinct: "distinct (map (\<lambda>r. packet_hash (lobby_request_name r)) lobby_requests)"
  by code_simp

lemma classify_lobby: "classify_lobby_request (packet_hash (lobby_request_name r)) = Some r"
  unfolding classify_lobby_request_def
  by (rule find_injective [OF lobby_hashes_distinct]) (cases r; simp add: lobby_requests_def)

lemma classify_lobby_SomeD:
  "classify_lobby_request h = Some r \<Longrightarrow> packet_hash (lobby_request_name r) = h"
  unfolding classify_lobby_request_def by (drule find_SomeD) simp

lemma reads_lobby_expect_hash: "reads (lobby_expect_hash name) (le32 (packet_hash name)) ()"
proof -
  have "reads (lobby_expect_hash name) (le32 (packet_hash name) @ []) ()"
    unfolding lobby_expect_hash_def Let_def
    by (rule reads_pbind [OF reads_perr [OF c_u32.get_put]]) auto
  then show ?thesis by simp
qed

lemma wire_codes:
  "slot_state_from_wire (slot_state_code s) = Inr s"
  "team_from_wire (team_code t) = Inr t"
  by (cases s; simp add: slot_state_from_wire_def) (cases t; simp add: team_from_wire_def)

lemma slot_state_from_wire_iff: "slot_state_from_wire v = Inr s \<longleftrightarrow> v = slot_state_code s"
  by (cases s) (auto simp: slot_state_from_wire_def)

lemma team_from_wire_iff: "team_from_wire v = Inr t \<longleftrightarrow> v = team_code t"
  by (cases t) (auto simp: team_from_wire_def)

text \<open>A string that was read within a limit is within that limit when written again.\<close>

lemma read_i32_less: "read_i32 r = Inr (n, r') \<Longrightarrow> n < 2 ^ 31"
  using sint_lt [where 'a = 32]
  by (auto simp: read_i32_def pbind_Inr_iff preturn_def)

lemma length_le16_chunks: "length (le16_chunks bs) = length bs div 2"
  by (induction bs rule: le16_chunks.induct) simp_all

lemma reader_take_length: "reader_take n r = Inr (bs, r') \<Longrightarrow> length bs = n"
  by (auto simp: reader_take_def checked_add_usize_def split: if_splits)

lemma read_utf16_bounded_units:
  assumes "read_utf16_bounded maximum r = Inr (s, r')"
  shows "length (encode_utf16 s) \<le> maximum \<and> length (encode_utf16 s) < 2 ^ 31"
proof -
  obtain n r1 where n: "read_i32 r = Inr (n, r1)" "\<not> n < 0" "\<not> nat n > maximum"
    and "\<exists>bs. length bs = 2 * nat n \<and> from_utf16 (le16_chunks bs) = Some s"
    using assms unfolding read_utf16_bounded_def pbind_Inr_iff Let_def checked_mul_usize_def
    by (force simp: pfail_def preturn_def pbind_Inr_iff dest: reader_take_length
        split: if_splits option.splits)
  then have "length (encode_utf16 s) = nat n"
    by (auto dest!: from_utf16_SomeD simp: length_le16_chunks)
  with n read_i32_less [OF n(1)] show ?thesis by (simp add: nat_less_iff)
qed

text \<open>What the room relays to its members was bounded when it was received.\<close>

lemma parse_rider_talk_echo:
  assumes "parse_rider_talk_request packet = Inr q" "0 \<le> pid" "pid \<le> 15"
  shows "\<exists>bs. serialize_rider_echo pid (rtr_message q) = Inr bs"
proof -
  have "length (encode_utf16 (rtr_message q)) \<le> max_room_chat_units"
    using assms(1) by (auto simp: parse_rider_talk_request_def run_parser_def pbind_Inr_iff
        preturn_def perr_def result_iff dest!: read_utf16_bounded_units)
  then show ?thesis
    using assms(2,3) by (simp add: serialize_rider_echo_def validate_player_id_def
        room_observer_id_end_def validate_chat_def write_utf16_def max_room_chat_units_def Let_def)
qed

lemma parse_change_room_info_reply:
  assumes "parse_change_room_info_request packet = Inr q"
  shows "\<exists>bs. serialize_change_room_info_reply q = Inr bs"
proof -
  have "length (encode_utf16 (crr_room_name q)) \<le> max_room_name_units \<and>
      length (encode_utf16 (crr_password q)) \<le> max_room_password_units"
    using assms by (auto simp: parse_change_room_info_request_def run_parser_def pbind_Inr_iff
        preturn_def perr_def result_iff dest!: read_utf16_bounded_units)
  then show ?thesis
    by (simp add: serialize_change_room_info_reply_def write_utf16_def room_limit_defs Let_def)
qed

end
