(* ===== verification/CodecProps.thy ===== *)
theory CodecProps
  imports Frame LobbyProtocol Nickname
begin

text \<open>
  The properties of the wire layer: the encrypted frame stream, the UDP envelope, the
  encoded scalars and strings, the room and lobby packets and the nickname rules.
\<close>

section \<open>Frame streams\<close>

text \<open>
  The bodies of a run of frames on one connection, the initialization vector of each
  being the one the frame before left, as both directions of a session do.
\<close>

fun encode_stream :: "u8 list list \<Rightarrow> u32 \<Rightarrow> nat \<Rightarrow> frame_error + (u8 list list \<times> u32)" where
  "encode_stream [] iv maximum = Inr ([], iv)"
| "encode_stream (p # ps) iv maximum =
     rbind (encode_encrypted p iv maximum) (\<lambda>(frame, iv').
     rbind (encode_stream ps iv' maximum) (\<lambda>(frames, iv''). Inr (frame # frames, iv'')))"

fun decode_stream :: "u8 list list \<Rightarrow> u32 \<Rightarrow> nat \<Rightarrow> frame_error + (u8 list list \<times> u32)" where
  "decode_stream [] iv maximum = Inr ([], iv)"
| "decode_stream (f # fs) iv maximum =
     rbind (decode_encrypted f iv maximum) (\<lambda>(payload, iv').
     rbind (decode_stream fs iv' maximum) (\<lambda>(payloads, iv''). Inr (payload # payloads, iv'')))"

lemma decode_encode_stream:
  "encode_stream ps iv maximum = Inr (frames, iv') \<Longrightarrow> decode_stream frames iv maximum = Inr (ps, iv')"
proof (induction ps arbitrary: iv frames)
  case Nil
  then show ?case by simp
next
  case (Cons p ps)
  from Cons.prems obtain frame iv1 fs where
    f: "encode_encrypted p iv maximum = Inr (frame, iv1)" and
    fs: "encode_stream ps iv1 maximum = Inr (fs, iv')" and eq: "frames = frame # fs"
    by (auto simp: result_iff)
  from decode_encode_encrypted [OF f] Cons.IH [OF fs] show ?case by (simp add: eq)
qed

lemma encode_encrypted_total:
  assumes "length p \<le> maximum" "length p + 4 < 2 ^ 32"
  shows "\<exists>frame iv'. encode_encrypted p iv maximum = Inr (frame, iv')"
proof -
  have "unat (word_of_nat (length p) :: u32) = length p"
    using assms(2) by (simp add: unat_of_nat take_bit_nat_eq_self)
  with assms show ?thesis
    by (auto simp: encode_encrypted_def validate_payload_length_def u32_try_from_def
        checked_add_u32_def Let_def split: prod.splits)
qed

section \<open>Properties\<close>

text \<open>C28: a receiver that starts from the sender's initialization vector decodes any run of
  encrypted frames back to the payloads and ends with the sender's vector: frame lengths,
  checksums, the keyed transform and the vector chain of both sides agree.\<close>

theorem frame_stream_round_trip:
  assumes "encode_stream payloads iv maximum = Inr (frames, iv')"
  shows "decode_stream frames iv maximum = Inr (payloads, iv')"
  by (rule decode_encode_stream [OF assms])

lemma frame_stream_round_trip_witness:
  "\<exists>frames iv'. encode_stream [[1, 2, 3], [4]] 1 100 = Inr (frames, iv') \<and>
     decode_stream frames 1 100 = Inr ([[1, 2, 3], [4]], iv')"
proof -
  obtain f1 iv1 where f1: "encode_encrypted [1, 2, 3] 1 100 = Inr (f1, iv1)"
    using encode_encrypted_total [of "[1, 2, 3]" 100 1] by auto
  obtain f2 iv2 where f2: "encode_encrypted [4] iv1 100 = Inr (f2, iv2)"
    using encode_encrypted_total [of "[4]" 100 iv1] by auto
  have e: "encode_stream [[1, 2, 3], [4]] 1 100 = Inr ([f1, f2], iv2)" by (simp add: f1 f2)
  with frame_stream_round_trip [OF e] show ?thesis by blast
qed

text \<open>C29: the UDP envelope carries its initialization vector and payload unchanged and adds
  exactly the eight bytes of overhead.\<close>

theorem datagram_round_trip:
  assumes "encode_datagram payload iv maximum = Inr wire"
  shows "decode_datagram wire maximum = Inr (iv, payload) \<and> length wire = length payload + datagram_overhead"
  by (rule decode_encode_datagram [OF assms])

lemma datagram_round_trip_witness:
  "\<exists>wire. encode_datagram [7, 8] 5 100 = Inr wire \<and> decode_datagram wire 100 = Inr (5, [7, 8])"
proof -
  have "\<exists>wire. encode_datagram [7, 8] 5 100 = Inr wire"
    by (auto simp: encode_datagram_def dg_validate_payload_length_def Let_def split: prod.splits)
  then show ?thesis using datagram_round_trip by blast
qed

text \<open>C30: the table cipher of encoded scalars is lossless exactly on the values none of whose
  bytes reaches 255 when its position is added; every other byte comes back one too large.\<close>

theorem encoded_scalar_lossless_iff:
  assumes "length plain \<le> 255"
  shows "decode_array (encode_array plain) = plain \<longleftrightarrow> (\<forall>i<length plain. i + unat (plain ! i) < 255)"
  by (rule decode_encode_array_iff [OF assms])

lemma encoded_scalar_lossless_iff_witness:
  "decode_array (encode_array [1, 254 :: u8]) \<noteq> [1, 254] \<and> decode_array (encode_array [1, 253 :: u8]) = [1, 253]"
  using encoded_scalar_lossless_iff [of "[1, 254]"] encoded_scalar_lossless_iff [of "[1, 253]"]
  by (simp add: less_Suc_eq_0_disj nth_Cons')

text \<open>A string of Unicode scalar values written with \<open>write_utf16\<close> within a limit is read
  back by \<open>read_utf16_bounded\<close> with that limit, whatever follows in the packet, and
  nothing more of the packet is consumed.\<close>

theorem utf16_round_trip:
  assumes "utf16_ok maximum s" and "wf_reader r" and "write_utf16 s [] = Inr w"
    and "reader_remaining r = w @ rest"
  shows "read_utf16_bounded maximum r = Inr (s, r\<lparr>pr_offset := pr_offset r + length w\<rparr>)"
proof -
  have "w = utf16_field s" using write_utf16_field [OF assms(3)] by simp
  with readsD [OF reads_utf16 [OF assms(1)] assms(2)] assms(4) show ?thesis by simp
qed

lemma utf16_round_trip_witness:
  "\<exists>w. write_utf16 [65] [] = Inr w \<and>
     read_utf16_bounded 4 (reader_new (w @ [9])) = Inr ([65], \<lparr>pr_bytes = w @ [9], pr_offset = length w\<rparr>)"
proof -
  have units: "encode_utf16 [65] = [65]" by (simp add: encode_utf16_def encode_utf16_char_def)
  then obtain w where w: "write_utf16 [65] [] = Inr w" by (simp add: write_utf16_def Let_def)
  have "w = utf16_field [65]" using write_utf16_field [OF w] by simp
  then have len: "length w = 6" by (simp add: utf16_field_def utf16_le_bytes_def units)
  have "utf16_ok 4 [65]" by (simp add: utf16_ok_def units scalar_value_def)
  moreover have "wf_reader (reader_new (w @ [9]))"
    by (rule wf_reader_new) (simp add: len usize_max_def)
  moreover have "reader_remaining (reader_new (w @ [9])) = w @ [9]"
    by (simp add: reader_remaining_def reader_new_def)
  ultimately have "read_utf16_bounded 4 (reader_new (w @ [9])) =
      Inr ([65], (reader_new (w @ [9]))\<lparr>pr_offset := pr_offset (reader_new (w @ [9])) + length w\<rparr>)"
    using w by (intro utf16_round_trip)
  with w show ?thesis by (simp add: reader_new_def)
qed

text \<open>C31: the room-creation request the client sends is parsed to exactly the fields it was
  built from.\<close>

theorem create_room_request_round_trip:
  assumes "create_room_request_wf q" and "length (create_room_request_bytes q) \<le> usize_max"
  shows "parse_ch_create_room_request (create_room_request_bytes q) = Inr q"
  unfolding parse_ch_create_room_request_def
  by (rule run_parser_reads_all [OF create_room_request_reads [OF assms(1)] assms(2)])

definition demo_create_request :: ch_create_room_request where
  "demo_create_request = \<lparr>ccr_room_name = [65], ccr_password = [], ccr_game_type = 3,
     ccr_reserved_after_game_type = 0, ccr_ai_count = 0, ccr_room_data_header = 1,
     ccr_room_data = replicate 32 0, ccr_connection_context = replicate 28 0,
     ccr_reserved_before_ai_switch = 0, ccr_ai_switch = 0, ccr_reserved_after_ai_switch_1 = 0,
     ccr_reserved_after_ai_switch_2 = 0, ccr_reserved_tail = 0, ccr_reserved_last = 0\<rparr>"

lemma create_room_request_round_trip_witness:
  "parse_ch_create_room_request (create_room_request_bytes demo_create_request) = Inr demo_create_request"
proof (rule create_room_request_round_trip)
  have units: "encode_utf16 [65] = [65]" "encode_utf16 [] = []"
    by (simp_all add: encode_utf16_def encode_utf16_char_def)
  show "create_room_request_wf demo_create_request"
    by (simp add: create_room_request_wf_def demo_create_request_def utf16_ok_def units scalar_value_def
        room_limit_defs i32_range_def)
  show "length (create_room_request_bytes demo_create_request) \<le> usize_max"
    by (simp add: create_room_request_bytes_def demo_create_request_def utf16_field_def utf16_le_bytes_def
        units usize_max_def)
qed

text \<open>A room snapshot is written exactly when it passes the validation: distinct closed
  slots inside the room, names within their limits and slot positions in -1 to 7.\<close>

theorem slot_data_written_iff_valid:
  "(\<exists>packet. serialize_gr_slot_data s = Inr packet) \<longleftrightarrow>
     length (rs_closed_slot_ids s) \<le> room_slot_count \<and>
     distinct (rs_closed_slot_ids s) \<and> list_all (\<lambda>x. unat x < room_slot_count) (rs_closed_slot_ids s) \<and>
     list_all (\<lambda>m. case m of MPlayer p \<Rightarrow> player_strings_ok p | _ \<Rightarrow> True) (rs_members_by_id s) \<and>
     list_all (\<lambda>m. case m of OPlayer p \<Rightarrow> length (encode_utf16 (ob_nickname p)) \<le> max_rider_nickname_units
                 | OEmpty \<Rightarrow> True) (rs_observers s) \<and>
     list_all (\<lambda>pos. - 1 \<le> pos \<and> pos \<le> 7) (rs_slot_positions s)"
proof -
  have m: "list_all (\<lambda>m. case m of MPlayer p \<Rightarrow> player_strings_ok p | _ \<Rightarrow> True) ms \<longleftrightarrow>
      (\<forall>p. MPlayer p \<in> set ms \<longrightarrow> player_strings_ok p)" for ms
    by (induction ms) (auto split: room_member.splits)
  have ob: "list_all (\<lambda>m. case m of OPlayer p \<Rightarrow> length (encode_utf16 (ob_nickname p)) \<le> max_rider_nickname_units
                 | OEmpty \<Rightarrow> True) os \<longleftrightarrow>
      (\<forall>p. OPlayer p \<in> set os \<longrightarrow> length (encode_utf16 (ob_nickname p)) \<le> max_rider_nickname_units)" for os
    by (induction os) (auto split: room_observer_slot.splits)
  show ?thesis
    unfolding serialize_gr_slot_data_Inr_iff validate_slot_data_Inr_iff m ob by (simp add: list_all_iff)
qed

text \<open>The hash of each lobby request's packet name is classified as that request, and no
  other hash is classified as a request: the eleven names collide neither with each
  other nor with the classifier's order.\<close>

theorem lobby_classification_exact:
  "classify_lobby_request h = Some r \<longleftrightarrow> h = packet_hash (lobby_request_name r)"
  using classify_lobby classify_lobby_SomeD by metis

text \<open>A chat message and a room rename that the parsers accept can always be relayed: the
  reply serializers cannot reject what the request parsers let through.\<close>

theorem accepted_chat_is_relayable:
  assumes "parse_rider_talk_request packet = Inr q" and "0 \<le> player" and "player \<le> room_observer_id_end"
  shows "\<exists>reply. serialize_rider_echo player (rtr_message q) = Inr reply"
  by (rule parse_rider_talk_echo) (use assms in \<open>simp_all add: room_observer_id_end_def\<close>)

lemma accepted_chat_is_relayable_witness:
  "\<exists>q reply. parse_rider_talk_request
      (le32 (packet_hash ''GrRiderTalkPacket'') @ le32 0 @ le32 7) = Inr q \<and>
     serialize_rider_echo 3 (rtr_message q) = Inr reply"
proof -
  have field: "utf16_field [] = le32 0" by (simp add: utf16_field_def encode_utf16_def utf16_le_bytes_def)
  have ok: "utf16_ok max_room_chat_units []" by (simp add: utf16_ok_def encode_utf16_def)
  note h = reads_lobby_expect_hash [of "''GrRiderTalkPacket''"]
  have e: "reads_all (pbind (lobby_ensure_exhausted name) (\<lambda>_. preturn y)) [] y" for name and y :: rider_talk_request
    by (simp add: reads_all_def pbind_def lobby_ensure_exhausted_def preturn_def)
  have "reads_all (pbind (lobby_expect_hash ''GrRiderTalkPacket'') (\<lambda>_.
      pbind (llift (read_utf16_bounded max_room_chat_units)) (\<lambda>message.
      pbind (llift read_u32) (\<lambda>reserved.
      pbind (lobby_ensure_exhausted ''GrRiderTalkPacket'') (\<lambda>_.
      preturn \<lparr>rtr_message = message, rtr_reserved = reserved\<rparr>)))))
      (le32 (packet_hash ''GrRiderTalkPacket'') @ utf16_field [] @ le32 7 @ [])
      \<lparr>rtr_message = [], rtr_reserved = 7\<rparr>"
    by (rule reads_all_pbind [OF h reads_all_pbind [OF reads_perr [OF c_utf16.get_put [OF ok]]
          reads_all_pbind [OF reads_perr [OF c_u32.get_put [OF TrueI]] e]]])
  then have q: "parse_rider_talk_request (le32 (packet_hash ''GrRiderTalkPacket'') @ le32 0 @ le32 7) =
      Inr \<lparr>rtr_message = [], rtr_reserved = 7\<rparr>"
    unfolding parse_rider_talk_request_def by (intro run_parser_reads_all) (simp_all add: field usize_max_def)
  from accepted_chat_is_relayable [OF q, of 3] q show ?thesis by (auto simp: room_observer_id_end_def)
qed



text \<open>A port topology exists exactly when the configured port leaves room for the three
  ports above it, and then the services sit at their fixed offsets without wrap-around.\<close>

theorem port_topology_total:
  "(case port_topology_new port of
      Inl e \<Rightarrow> 65536 \<le> unat port + 3
    | Inr t \<Rightarrow> unat (game_udp t) = unat port \<and> unat (login_tcp t) = unat port + 1 \<and>
        unat (p2p_udp t) = unat port + 1 \<and> unat (messenger_tcp t) = unat port + 2 \<and>
        unat (xun_sidecar_tcp t) = unat port + 3)"
  by (cases "unat port + 3 < 65536")
    (auto simp: port_topology_new_def checked_add_u16_def login_tcp_def game_udp_def
      p2p_udp_def messenger_tcp_def xun_sidecar_tcp_def unat_word_ariths)

end
