(* ===== verification/RaceObjects.thy ===== *)
theory RaceObjects
  imports Transition
begin

text \<open>
  \<open>p5136-server/src/race_object_registry.rs\<close>: the authority over item objects of
  a race.  An operation is planned against the registry without changing it;
  the resulting mutation carries the revision it was planned against and is
  committed only after every outbound queue slot has been reserved.

  The lemmas show what the registry promises the world actor: the bound of
  1,024 objects, that class and owner of an object never change, that a removed
  object comes back only by a respawn, and that repeating a committed lifecycle
  operation is suppressed.
\<close>

section \<open>Data\<close>

definition max_race_objects :: nat where "max_race_objects = 1024"

datatype item_lifecycle_meaning =
    MUnknown | MInitialize | MPlace | MLaunch | MActivate | MImpact | MResolve | MRetarget
  | MRemove | MRebindSource | MRespawn | MUpdateRuntimeFlag | MNoClientAction

datatype item_semantic_evidence =
  Unresolved | StaticConsumer | ProducerAndConsumer | RetainedTraceCorrelated

record race_object_actor =
  act_user_no :: u32
  act_generation :: u64
  act_player_id :: u8

record race_object_class =
  operation_hash :: u32
  base_hash :: u32

datatype race_object_phase = PInitialized | PActive | PHit | PRemoved

datatype race_object_lifecycle_event =
    EInstalled | EActivated | EHit | ERemoved | EStateUpdated u32 | ERuntimeFlagUpdated u8

datatype race_object_duplicate_kind =
    DInstall | DActivation | DHit | DRemoval | DTerminalState | DRuntimeFlagUpdate

record race_object_operation =
  op_race_epoch :: u64
  op_class :: race_object_class
  op_class_name :: string
  op_object_id :: u32
  op_state :: u32
  op_meaning :: item_lifecycle_meaning
  op_evidence :: item_semantic_evidence
  op_transition_token :: "u32 option"
  op_source_object_id :: "u32 option"
  op_target_object_id :: "u32 option"
  op_variant :: "u8 option"
  op_reporter :: race_object_actor
  op_owner_claim :: "race_object_actor option"

record race_object_key =
  key_race_epoch :: u64
  key_object_id :: u32

record race_object_record =
  rec_class :: race_object_class
  rec_class_name :: string
  rec_owner :: race_object_actor
  rec_last_reporter :: race_object_actor
  rec_phase :: race_object_phase
  rec_last_state :: u32
  rec_last_meaning :: item_lifecycle_meaning
  rec_last_transition_token :: "u32 option"
  rec_last_source_object_id :: "u32 option"
  rec_last_target_object_id :: "u32 option"
  rec_runtime_flag :: "u8 option"

record race_object_mutation =
  mut_expected_revision :: u64
  mut_key :: race_object_key
  mut_next :: race_object_record
  mut_events :: "race_object_lifecycle_event option list"

datatype race_object_admission =
    PublishTracked race_object_mutation
  | PublishUntracked
  | SuppressDuplicate u32 string race_object_phase u32 race_object_duplicate_kind
      \<comment> \<open>object_id, class_name, phase, state, kind\<close>

datatype race_object_registry_error =
    ObjCapacity u64 u32 nat
  | ObjClassMismatch u64 u32 race_object_class race_object_class  \<comment> \<open>expected, actual hashes\<close>
  | ObjOwnerMismatch u64 u32 u8 u64 u8 u64   \<comment> \<open>expected player and generation, actual player and generation\<close>
  | ObjStalePlan u64 u64                     \<comment> \<open>planned, current\<close>

record race_object_registry =
  registry_revision :: u64
  registry_objects :: "(race_object_key \<times> race_object_record) list"

definition race_object_registry_default :: race_object_registry where
  "race_object_registry_default = \<lparr>registry_revision = 0, registry_objects = []\<rparr>"

definition mutation_events :: "race_object_mutation \<Rightarrow> race_object_lifecycle_event list" where
  "mutation_events m = flatten (mut_events m)"

section \<open>Checks\<close>

definition ensure_capacity :: "race_object_registry \<Rightarrow> race_object_key \<Rightarrow> race_object_registry_error + unit" where
  "ensure_capacity r key =
     (if length (registry_objects r) \<ge> max_race_objects
      then Inl (ObjCapacity (key_race_epoch key) (key_object_id key) max_race_objects)
      else Inr ())"

definition validate_existing ::
  "race_object_key \<Rightarrow> race_object_record \<Rightarrow> race_object_operation \<Rightarrow> race_object_registry_error + unit" where
  "validate_existing key current op =
     (if rec_class current \<noteq> op_class op
      then Inl (ObjClassMismatch (key_race_epoch key) (key_object_id key) (rec_class current) (op_class op))
      else case op_owner_claim op of
        None \<Rightarrow> Inr ()
      | Some owner \<Rightarrow>
          if owner \<noteq> rec_owner current
          then Inl (ObjOwnerMismatch (key_race_epoch key) (key_object_id key)
                      (act_player_id (rec_owner current)) (act_generation (rec_owner current))
                      (act_player_id owner) (act_generation owner))
          else Inr ())"

definition claimed_owner :: "race_object_operation \<Rightarrow> race_object_actor" where
  "claimed_owner op = (case op_owner_claim op of None \<Rightarrow> op_reporter op | Some owner \<Rightarrow> owner)"

definition next_record ::
  "race_object_registry \<Rightarrow> race_object_key \<Rightarrow> race_object_record option \<Rightarrow> race_object_operation \<Rightarrow>
   race_object_phase \<Rightarrow> race_object_registry_error + race_object_record" where
  "next_record r key current op phase =
     (case current of
        Some c \<Rightarrow> Inr (c\<lparr>rec_last_reporter := op_reporter op, rec_phase := phase,
                     rec_last_state := op_state op, rec_last_meaning := op_meaning op,
                     rec_last_transition_token := op_transition_token op,
                     rec_last_source_object_id := op_source_object_id op,
                     rec_last_target_object_id := op_target_object_id op\<rparr>)
      | None \<Rightarrow> rbind (ensure_capacity r key) (\<lambda>_. Inr
          \<lparr>rec_class = op_class op, rec_class_name = op_class_name op, rec_owner = claimed_owner op,
           rec_last_reporter = op_reporter op, rec_phase = phase, rec_last_state = op_state op,
           rec_last_meaning = op_meaning op, rec_last_transition_token = op_transition_token op,
           rec_last_source_object_id = op_source_object_id op,
           rec_last_target_object_id = op_target_object_id op, rec_runtime_flag = None\<rparr>))"

section \<open>Planning\<close>

definition suppress :: "race_object_key \<Rightarrow> race_object_record \<Rightarrow> race_object_operation \<Rightarrow>
    race_object_duplicate_kind \<Rightarrow> race_object_admission" where
  "suppress key current op kind =
     SuppressDuplicate (key_object_id key) (rec_class_name current) (rec_phase current) (op_state op) kind"

definition tracked :: "race_object_registry \<Rightarrow> race_object_key \<Rightarrow> race_object_record \<Rightarrow>
    race_object_lifecycle_event option list \<Rightarrow> race_object_admission" where
  "tracked r key next_rec events =
     PublishTracked \<lparr>mut_expected_revision = registry_revision r, mut_key = key, mut_next = next_rec,
                     mut_events = events\<rparr>"

definition plan_install ::
  "race_object_registry \<Rightarrow> race_object_key \<Rightarrow> race_object_record option \<Rightarrow> race_object_operation \<Rightarrow>
   race_object_registry_error + race_object_admission" where
  "plan_install r key current op =
     (case current of
        Some c \<Rightarrow>
          if rec_phase c = PInitialized \<and> rec_last_meaning c = MInitialize
             \<and> op_meaning op \<in> {MPlace, MLaunch, MActivate}
          then rbind (next_record r key (Some c) op PActive) (\<lambda>next_rec.
                 Inr (tracked r key next_rec [Some EActivated, None]))
          else Inr (suppress key c op DInstall)
      | None \<Rightarrow> rbind (ensure_capacity r key) (\<lambda>_.
          let (phase, events) = (if op_meaning op = MInitialize then (PInitialized, [Some EInstalled, None])
                                 else (PActive, [Some EInstalled, Some EActivated]))
          in Inr (tracked r key
               \<lparr>rec_class = op_class op, rec_class_name = op_class_name op, rec_owner = claimed_owner op,
                rec_last_reporter = op_reporter op, rec_phase = phase, rec_last_state = op_state op,
                rec_last_meaning = op_meaning op, rec_last_transition_token = op_transition_token op,
                rec_last_source_object_id = op_source_object_id op,
                rec_last_target_object_id = op_target_object_id op, rec_runtime_flag = None\<rparr> events)))"

definition plan_respawn ::
  "race_object_registry \<Rightarrow> race_object_key \<Rightarrow> race_object_record option \<Rightarrow> race_object_operation \<Rightarrow>
   race_object_registry_error + race_object_admission" where
  "plan_respawn r key current op =
     (case current of
        None \<Rightarrow> Inr PublishUntracked
      | Some c \<Rightarrow>
          if rec_phase c = PActive \<and> rec_last_meaning c = MRespawn \<and> rec_last_state c = op_state op
             \<and> rec_last_transition_token c = op_transition_token op
             \<and> rec_last_source_object_id c = op_source_object_id op
             \<and> rec_last_target_object_id c = op_target_object_id op
          then Inr (suppress key c op DActivation)
          else rbind (next_record r key (Some c) op PActive) (\<lambda>next_rec.
                 Inr (tracked r key next_rec [Some EActivated, None])))"

definition plan_hit ::
  "race_object_registry \<Rightarrow> race_object_key \<Rightarrow> race_object_record option \<Rightarrow> race_object_operation \<Rightarrow>
   race_object_registry_error + race_object_admission" where
  "plan_hit r key current op =
     (case current of
        Some c \<Rightarrow>
          if rec_phase c = PRemoved
             \<or> (rec_phase c = PHit \<and> rec_last_state c = op_state op
                \<and> rec_last_transition_token c = op_transition_token op
                \<and> rec_last_target_object_id c = op_target_object_id op)
          then Inr (suppress key c op DHit)
          else rbind (next_record r key current op PHit) (\<lambda>next_rec.
                 Inr (tracked r key next_rec [Some EHit, None]))
      | None \<Rightarrow> rbind (next_record r key None op PHit) (\<lambda>next_rec.
                 Inr (tracked r key next_rec [Some EHit, None])))"

definition plan_removal ::
  "race_object_registry \<Rightarrow> race_object_key \<Rightarrow> race_object_record option \<Rightarrow> race_object_operation \<Rightarrow>
   race_object_registry_error + race_object_admission" where
  "plan_removal r key current op =
     (case current of
        Some c \<Rightarrow>
          if rec_phase c = PRemoved then Inr (suppress key c op DRemoval)
          else rbind (next_record r key current op PRemoved) (\<lambda>next_rec.
                 Inr (tracked r key next_rec [Some ERemoved, None]))
      | None \<Rightarrow>
          if op_evidence op = StaticConsumer then Inr PublishUntracked
          else rbind (next_record r key None op PRemoved) (\<lambda>next_rec.
                 Inr (tracked r key next_rec [Some ERemoved, None])))"

definition plan_state_update ::
  "race_object_registry \<Rightarrow> race_object_key \<Rightarrow> race_object_record option \<Rightarrow> race_object_operation \<Rightarrow>
   race_object_admission" where
  "plan_state_update r key current op =
     (case current of
        None \<Rightarrow> PublishUntracked
      | Some c \<Rightarrow> tracked r key
          (c\<lparr>rec_last_reporter := op_reporter op, rec_last_state := op_state op,
             rec_last_meaning := op_meaning op, rec_last_transition_token := op_transition_token op,
             rec_last_source_object_id := op_source_object_id op,
             rec_last_target_object_id := op_target_object_id op\<rparr>)
          [Some (EStateUpdated (op_state op)), None])"

definition plan_runtime_flag_update ::
  "race_object_registry \<Rightarrow> race_object_key \<Rightarrow> race_object_record option \<Rightarrow> race_object_operation \<Rightarrow>
   race_object_admission" where
  "plan_runtime_flag_update r key current op =
     (case current of
        None \<Rightarrow> PublishUntracked
      | Some c \<Rightarrow> (case op_variant op of
          None \<Rightarrow> PublishUntracked
        | Some flag \<Rightarrow>
            if rec_runtime_flag c = Some flag then suppress key c op DRuntimeFlagUpdate
            else tracked r key (c\<lparr>rec_last_reporter := op_reporter op, rec_runtime_flag := Some flag\<rparr>)
                   [Some (ERuntimeFlagUpdated flag), None]))"

fun plan_meaning ::
  "item_lifecycle_meaning \<Rightarrow> race_object_registry \<Rightarrow> race_object_key \<Rightarrow> race_object_record option \<Rightarrow>
   race_object_operation \<Rightarrow> race_object_registry_error + race_object_admission" where
  "plan_meaning MInitialize r key c op = plan_install r key c op"
| "plan_meaning MPlace r key c op = plan_install r key c op"
| "plan_meaning MLaunch r key c op = plan_install r key c op"
| "plan_meaning MActivate r key c op = plan_install r key c op"
| "plan_meaning MImpact r key c op = plan_hit r key c op"
| "plan_meaning MRemove r key c op = plan_removal r key c op"
| "plan_meaning MRespawn r key c op = plan_respawn r key c op"
| "plan_meaning MUpdateRuntimeFlag r key c op = Inr (plan_runtime_flag_update r key c op)"
| "plan_meaning MUnknown r key c op = Inr PublishUntracked"
| "plan_meaning MResolve r key c op = Inr (plan_state_update r key c op)"
| "plan_meaning MRetarget r key c op = Inr (plan_state_update r key c op)"
| "plan_meaning MRebindSource r key c op = Inr (plan_state_update r key c op)"
| "plan_meaning MNoClientAction r key c op = Inr (plan_state_update r key c op)"

definition operation_key :: "race_object_operation \<Rightarrow> race_object_key" where
  "operation_key op = \<lparr>key_race_epoch = op_race_epoch op, key_object_id = op_object_id op\<rparr>"

definition plan_object ::
  "race_object_registry \<Rightarrow> race_object_operation \<Rightarrow> race_object_registry_error + race_object_admission" where
  "plan_object r op =
     (let key = operation_key op; current = map_of (registry_objects r) key in
      if op_meaning op \<in> {MUnknown, MNoClientAction} then
        (case current of
           Some c \<Rightarrow> if rec_class c = op_class op \<and> rec_phase c = PRemoved
                     then Inr (suppress key c op DTerminalState) else Inr PublishUntracked
         | None \<Rightarrow> Inr PublishUntracked)
      else
        rbind (case current of None \<Rightarrow> Inr () | Some c \<Rightarrow> validate_existing key c op) (\<lambda>_.
          case current of
            Some c \<Rightarrow>
              if rec_phase c = PRemoved \<and> op_meaning op \<notin> {MRemove, MRespawn}
              then Inr (suppress key c op DTerminalState)
              else plan_meaning (op_meaning op) r key current op
          | None \<Rightarrow> plan_meaning (op_meaning op) r key current op))"

definition commit_object ::
  "race_object_registry \<Rightarrow> race_object_mutation \<Rightarrow> race_object_registry_error + race_object_registry" where
  "commit_object r m =
     (if mut_expected_revision m \<noteq> registry_revision r
      then Inl (ObjStalePlan (mut_expected_revision m) (registry_revision r))
      else Inr (r\<lparr>registry_objects := AList.update (mut_key m) (mut_next m) (registry_objects r),
                  registry_revision := registry_revision r + 1\<rparr>))"

section \<open>Plans\<close>

lemmas plan_defs = plan_install_def plan_respawn_def plan_hit_def plan_removal_def
  plan_state_update_def plan_runtime_flag_update_def

text \<open>
  A tracked mutation is for the operation's key, at the current revision, and
  its record either continues the stored one or is new within the bound.
\<close>

definition continues :: "race_object_record \<Rightarrow> race_object_record \<Rightarrow> bool" where
  "continues c c' \<longleftrightarrow> rec_class c' = rec_class c \<and> rec_class_name c' = rec_class_name c
     \<and> rec_owner c' = rec_owner c"

lemma continues_refl [simp]: "continues c c"
  by (simp add: continues_def)

lemma continues_trans: "continues a b \<Longrightarrow> continues b c \<Longrightarrow> continues a c"
  by (simp add: continues_def)

lemma plan_meaning_trackedD:
  assumes "plan_meaning mn r key cur op = Inr (PublishTracked m)" "mn = op_meaning op"
  shows "mut_expected_revision m = registry_revision r \<and> mut_key m = key
    \<and> (case cur of
         Some c \<Rightarrow> continues c (mut_next m)
           \<and> (rec_phase (mut_next m) = rec_phase c \<or> mn \<in> {MPlace, MLaunch, MActivate, MImpact, MRemove, MRespawn})
       | None \<Rightarrow> length (registry_objects r) < max_race_objects)"
  using assms
  by (cases mn) (auto simp: plan_defs next_record_def ensure_capacity_def tracked_def suppress_def
      continues_def Let_def split: option.splits if_splits prod.splits)

lemma plan_objectE:
  assumes "plan_object r op = Inr (PublishTracked m)"
  obtains "map_of (registry_objects r) (operation_key op) = None"
      "plan_meaning (op_meaning op) r (operation_key op) None op = Inr (PublishTracked m)"
  | c where "map_of (registry_objects r) (operation_key op) = Some c"
      "validate_existing (operation_key op) c op = Inr ()"
      "rec_phase c = PRemoved \<longrightarrow> op_meaning op \<in> {MRemove, MRespawn}"
      "plan_meaning (op_meaning op) r (operation_key op) (Some c) op = Inr (PublishTracked m)"
  using assms by (auto simp: plan_object_def Let_def result_iff suppress_def split: option.splits if_splits)

lemma plan_object_trackedD:
  assumes "plan_object r op = Inr (PublishTracked m)"
  shows "mut_expected_revision m = registry_revision r" "mut_key m = operation_key op"
    and "map_of (registry_objects r) (operation_key op) = Some c \<Longrightarrow> continues c (mut_next m)"
    and "map_of (registry_objects r) (operation_key op) = None \<Longrightarrow> length (registry_objects r) < max_race_objects"
  using assms
  by (auto elim!: plan_objectE dest!: plan_meaning_trackedD)

lemma plan_object_removed:
  assumes "plan_object r op = Inr (PublishTracked m)"
    and "map_of (registry_objects r) (operation_key op) = Some c" "rec_phase c = PRemoved"
    and "rec_phase (mut_next m) \<noteq> PRemoved"
  shows "op_meaning op = MRespawn"
  using assms(1)
proof (cases rule: plan_objectE)
  case 1
  with assms show ?thesis by simp
next
  case (2 c)
  with assms show ?thesis by (auto simp: plan_removal_def suppress_def split: if_splits)
qed

section \<open>Runs of the registry\<close>

text \<open>One step: an operation is planned and its mutation committed, as the world actor does in one turn.\<close>

inductive object_step :: "race_object_operation \<Rightarrow> race_object_registry \<Rightarrow> race_object_registry \<Rightarrow> bool" where
  object_step: "plan_object r op = Inr (PublishTracked m) \<Longrightarrow> commit_object r m = Inr r' \<Longrightarrow> object_step op r r'"

inductive_simps object_step_iff: "object_step op r r'"
inductive_cases object_stepE: "object_step op r r'"

definition some_object_step :: "race_object_registry \<Rightarrow> race_object_registry \<Rightarrow> bool" where
  "some_object_step r r' \<longleftrightarrow> (\<exists>op. object_step op r r')"

definition objects_inv :: "race_object_registry \<Rightarrow> bool" where
  "objects_inv r \<longleftrightarrow> keys_distinct (registry_objects r) \<and> length (registry_objects r) \<le> max_race_objects"

text \<open>Objects are never forgotten and keep their class and owner.\<close>

definition objects_continue :: "race_object_registry \<Rightarrow> race_object_registry \<Rightarrow> bool" where
  "objects_continue r r' \<longleftrightarrow> (\<forall>key c. map_of (registry_objects r) key = Some c \<longrightarrow>
     (\<exists>c'. map_of (registry_objects r') key = Some c' \<and> continues c c'))"

lemma object_step_objects:
  assumes "object_step op r r'"
  obtains m where "plan_object r op = Inr (PublishTracked m)"
    "registry_objects r' = AList.update (operation_key op) (mut_next m) (registry_objects r)"
    "registry_revision r' = registry_revision r + 1"
  using assms
  by (elim object_stepE) (auto simp: commit_object_def dest: plan_object_trackedD split: if_splits)

lemma length_update_le:
  "length (AList.update k v m) = (if map_of m k = None then Suc (length m) else length m)"
  by (induction m) auto

lemma object_step_inv: "objects_inv r \<Longrightarrow> object_step op r r' \<Longrightarrow> objects_inv r'"
  by (elim object_step_objects)
    (auto simp: objects_inv_def length_update_le split: if_splits dest: plan_object_trackedD(4))

lemma object_step_continues: "object_step op r r' \<Longrightarrow> objects_continue r r'"
  by (elim object_step_objects)
    (auto simp: objects_continue_def dest: plan_object_trackedD(3) split: if_splits)

interpretation object_run: step_monotone
  "\<lambda>r. r = race_object_registry_default" some_object_step objects_inv objects_continue
proof unfold_locales
  show "objects_inv s" if "s = race_object_registry_default" for s
    using that by (simp add: objects_inv_def race_object_registry_default_def)
  show "objects_inv t" if "objects_inv s" "some_object_step s t" for s t
    using that object_step_inv by (auto simp: some_object_step_def)
  show "objects_continue s s" for s
    by (simp add: objects_continue_def)
  show "objects_continue s u" if "objects_continue s t" "objects_continue t u" for s t u
    using that continues_trans unfolding objects_continue_def by metis
  show "objects_continue s t" if "objects_inv s" "some_object_step s t" for s t
    using that object_step_continues by (auto simp: some_object_step_def)
qed

section \<open>Repeated operations\<close>

definition repeats :: "race_object_operation \<Rightarrow> race_object_key \<Rightarrow> race_object_registry \<Rightarrow> race_object_record \<Rightarrow> bool" where
  "repeats op key r c \<longleftrightarrow> validate_existing key c op = Inr ()
     \<and> (\<exists>kind. plan_meaning (op_meaning op) r key (Some c) op = Inr (suppress key c op kind))"

definition admissible :: "race_object_operation \<Rightarrow> race_object_key \<Rightarrow> race_object_record option \<Rightarrow> bool" where
  "admissible op key cur \<longleftrightarrow> (case cur of None \<Rightarrow> True | Some c \<Rightarrow> validate_existing key c op = Inr ())"

lemma validate_existing_iff:
  "validate_existing key c op = Inr u \<longleftrightarrow> rec_class c = op_class op
     \<and> (op_owner_claim op = None \<or> op_owner_claim op = Some (rec_owner c))"
  by (cases "op_owner_claim op") (auto simp: validate_existing_def)

lemma validate_existing_cong:
  "rec_class c' = rec_class c \<Longrightarrow> rec_owner c' = rec_owner c \<Longrightarrow>
   validate_existing key c op = Inr () \<Longrightarrow> validate_existing key c' op = Inr ()"
  by (simp add: validate_existing_iff)

lemma validate_existing_new:
  "rec_class c = op_class op \<Longrightarrow> rec_owner c = claimed_owner op \<Longrightarrow> validate_existing key c op = Inr ()"
  by (cases "op_owner_claim op") (simp_all add: validate_existing_iff claimed_owner_def)

lemma next_record_ready:
  assumes "next_record r key cur op phase = Inr c" "admissible op key cur"
  shows "validate_existing key c op = Inr ()" "rec_phase c = phase" "rec_last_state c = op_state op"
    "rec_last_meaning c = op_meaning op" "rec_last_transition_token c = op_transition_token op"
    "rec_last_source_object_id c = op_source_object_id op" "rec_last_target_object_id c = op_target_object_id op"
proof -
  show "validate_existing key c op = Inr ()"
  proof (cases cur)
    case None
    with assms(1) show ?thesis
      by (intro validate_existing_new) (auto simp: next_record_def result_iff)
  next
    case (Some old)
    with assms show ?thesis
      by (intro validate_existing_cong [of c old]) (auto simp: next_record_def admissible_def)
  qed
qed (use assms(1) in \<open>auto simp: next_record_def result_iff split: option.splits\<close>)

lemma install_repeats:
  assumes "plan_install r key cur op = Inr (PublishTracked m)" "admissible op key cur"
    and "op_meaning op \<in> {MInitialize, MPlace, MLaunch, MActivate}"
  shows "repeats op key r' (mut_next m)"
proof (cases cur)
  case None
  with assms show ?thesis
    by (auto simp: plan_install_def repeats_def tracked_def result_iff intro!: validate_existing_new
        split: if_splits)
next
  case (Some c)
  with assms obtain n where "next_record r key cur op PActive = Inr n" "m = \<lparr>mut_expected_revision = registry_revision r, mut_key = key, mut_next = n, mut_events = [Some EActivated, None]\<rparr>"
    by (auto simp: plan_install_def tracked_def suppress_def result_iff split: if_splits)
  with next_record_ready [OF this(1) assms(2)] assms(3) show ?thesis
    by (auto simp: repeats_def plan_install_def)
qed

lemma hit_repeats:
  assumes "plan_hit r key cur op = Inr (PublishTracked m)" "admissible op key cur" "op_meaning op = MImpact"
  shows "repeats op key r' (mut_next m)"
proof -
  from assms(1) obtain n where "next_record r key cur op PHit = Inr n" "mut_next m = n"
    by (auto simp: plan_hit_def tracked_def suppress_def result_iff split: if_splits option.splits)
  with next_record_ready [OF this(1) assms(2)] assms(3) show ?thesis
    by (auto simp: repeats_def plan_hit_def)
qed

lemma removal_repeats:
  assumes "plan_removal r key cur op = Inr (PublishTracked m)" "admissible op key cur" "op_meaning op = MRemove"
  shows "repeats op key r' (mut_next m)"
proof -
  from assms(1) obtain n where "next_record r key cur op PRemoved = Inr n" "mut_next m = n"
    by (auto simp: plan_removal_def tracked_def suppress_def result_iff split: if_splits option.splits)
  with next_record_ready [OF this(1) assms(2)] assms(3) show ?thesis
    by (auto simp: repeats_def plan_removal_def)
qed

lemma respawn_repeats:
  assumes "plan_respawn r key cur op = Inr (PublishTracked m)" "admissible op key cur" "op_meaning op = MRespawn"
  shows "repeats op key r' (mut_next m)"
proof -
  from assms(1) obtain n where "next_record r key cur op PActive = Inr n" "mut_next m = n"
    by (auto simp: plan_respawn_def tracked_def suppress_def result_iff split: if_splits option.splits)
  with next_record_ready [OF this(1) assms(2)] assms(3) show ?thesis
    by (auto simp: repeats_def plan_respawn_def)
qed

lemma flag_repeats:
  assumes "plan_runtime_flag_update r key cur op = PublishTracked m" "admissible op key cur"
    and "op_meaning op = MUpdateRuntimeFlag"
  shows "repeats op key r' (mut_next m)"
proof (cases cur)
  case None
  with assms(1) show ?thesis by (simp add: plan_runtime_flag_update_def)
next
  case (Some c)
  with assms(1) obtain flag where flag: "op_variant op = Some flag" "rec_runtime_flag c \<noteq> Some flag"
    by (cases "op_variant op") (simp_all add: plan_runtime_flag_update_def suppress_def split: if_splits)
  have "PublishTracked m = tracked r key (c\<lparr>rec_last_reporter := op_reporter op, rec_runtime_flag := Some flag\<rparr>)
      [Some (ERuntimeFlagUpdated flag), None]"
    using assms(1) unfolding Some flag(1) plan_runtime_flag_update_def option.case
    by (simp only: flag(2) if_False)
  then have m: "mut_next m = c\<lparr>rec_last_reporter := op_reporter op, rec_runtime_flag := Some flag\<rparr>"
    by (simp add: tracked_def)
  have "validate_existing key (mut_next m) op = Inr ()"
    using assms(2) Some m by (simp add: admissible_def validate_existing_iff)
  then show ?thesis
    using flag m assms(3) by (auto simp: repeats_def plan_runtime_flag_update_def)
qed

lemma meaning_repeats:
  assumes "plan_meaning (op_meaning op) r key cur op = Inr (PublishTracked m)" "admissible op key cur"
    and "op_meaning op \<notin> {MResolve, MRetarget, MRebindSource, MNoClientAction}"
  shows "repeats op key r' (mut_next m)"
proof (cases "op_meaning op \<in> {MInitialize, MPlace, MLaunch, MActivate}")
  case True
  with assms(1) have "plan_install r key cur op = Inr (PublishTracked m)" by auto
  then show ?thesis using assms(2) True by (rule install_repeats)
next
  case False
  then consider "op_meaning op = MImpact" | "op_meaning op = MRemove" | "op_meaning op = MRespawn"
    | "op_meaning op = MUpdateRuntimeFlag" | "op_meaning op = MUnknown"
    using assms(3) by (cases "op_meaning op") simp_all
  then show ?thesis
  proof cases
    case 1 with assms show ?thesis using hit_repeats by simp
  next
    case 2 with assms show ?thesis using removal_repeats by simp
  next
    case 3 with assms show ?thesis using respawn_repeats by simp
  next
    case 4 with assms show ?thesis using flag_repeats by simp
  next
    case 5 with assms(1) show ?thesis by simp
  qed
qed

lemma step_repeated:
  assumes "object_step op r r'"
    and "op_meaning op \<notin> {MResolve, MRetarget, MRebindSource}"
  shows "\<exists>c kind. map_of (registry_objects r') (operation_key op) = Some c
    \<and> plan_object r' op = Inr (suppress (operation_key op) c op kind)"
proof -
  from assms(1) obtain m where m: "plan_object r op = Inr (PublishTracked m)"
    "registry_objects r' = AList.update (operation_key op) (mut_next m) (registry_objects r)"
    by (rule object_step_objects)
  have mn: "op_meaning op \<notin> {MUnknown, MNoClientAction}"
    using m(1) by (auto simp: plan_object_def Let_def suppress_def split: option.splits if_splits)
  from m(1) have "repeats op (operation_key op) r' (mut_next m)"
  proof (cases rule: plan_objectE)
    case 1
    with meaning_repeats [OF 1(2)] assms(2) mn show ?thesis by (simp add: admissible_def)
  next
    case (2 c)
    with meaning_repeats [OF 2(4)] assms(2) mn show ?thesis by (simp add: admissible_def)
  qed
  then show ?thesis
    using mn m(2) by (auto simp: plan_object_def repeats_def Let_def)
qed

section \<open>A short run\<close>

text \<open>A banana is placed by player 2, hit by player 5 and removed.\<close>

definition banana_op :: "item_lifecycle_meaning \<Rightarrow> u8 \<Rightarrow> race_object_operation" where
  "banana_op mn player =
     \<lparr>op_race_epoch = 1, op_class = \<lparr>operation_hash = 17, base_hash = 3\<rparr>, op_class_name = ''GopBanana'',
      op_object_id = 40, op_state = 1, op_meaning = mn, op_evidence = ProducerAndConsumer,
      op_transition_token = None, op_source_object_id = None, op_target_object_id = None,
      op_variant = None,
      op_reporter = \<lparr>act_user_no = ucast player, act_generation = 1, act_player_id = player\<rparr>,
      op_owner_claim = None\<rparr>"

definition banana_record :: "item_lifecycle_meaning \<Rightarrow> u8 \<Rightarrow> race_object_phase \<Rightarrow> race_object_record" where
  "banana_record mn player phase =
     \<lparr>rec_class = \<lparr>operation_hash = 17, base_hash = 3\<rparr>, rec_class_name = ''GopBanana'',
      rec_owner = \<lparr>act_user_no = 2, act_generation = 1, act_player_id = 2\<rparr>,
      rec_last_reporter = \<lparr>act_user_no = ucast player, act_generation = 1, act_player_id = player\<rparr>,
      rec_phase = phase, rec_last_state = 1, rec_last_meaning = mn, rec_last_transition_token = None,
      rec_last_source_object_id = None, rec_last_target_object_id = None, rec_runtime_flag = None\<rparr>"

definition banana_registry :: "u64 \<Rightarrow> item_lifecycle_meaning \<Rightarrow> u8 \<Rightarrow> race_object_phase \<Rightarrow> race_object_registry" where
  "banana_registry revision mn player phase =
     \<lparr>registry_revision = revision,
      registry_objects = [(\<lparr>key_race_epoch = 1, key_object_id = 40\<rparr>, banana_record mn player phase)]\<rparr>"

lemmas banana_defs = banana_op_def banana_record_def banana_registry_def race_object_registry_default_def
  plan_object_def plan_defs next_record_def ensure_capacity_def max_race_objects_def validate_existing_def
  operation_key_def tracked_def claimed_owner_def commit_object_def Let_def

lemma banana_placed: "object_step (banana_op MPlace 2) race_object_registry_default (banana_registry 1 MPlace 2 PActive)"
  by (simp add: object_step_iff banana_defs)

lemma banana_removed: "object_step (banana_op MRemove 5) (banana_registry 1 MPlace 2 PActive) (banana_registry 2 MRemove 5 PRemoved)"
  by (simp add: object_step_iff banana_defs)

lemma banana_respawned: "object_step (banana_op MRespawn 5) (banana_registry 2 MRemove 5 PRemoved) (banana_registry 3 MRespawn 5 PActive)"
  by (simp add: object_step_iff banana_defs)

section \<open>Properties\<close>

text \<open>C33: In every registry a race can reach, at most 1,024 objects are tracked under distinct keys,
and an object once tracked stays tracked with the same class, class name and owner in every later registry.\<close>

theorem race_objects_bounded_and_owned:
  assumes "some_object_step\<^sup>*\<^sup>* race_object_registry_default r" "some_object_step\<^sup>*\<^sup>* r r'"
    and "map_of (registry_objects r) key = Some c"
  shows "length (registry_objects r') \<le> 1024 \<and> keys_distinct (registry_objects r')
    \<and> (\<exists>c'. map_of (registry_objects r') key = Some c' \<and> rec_class c' = rec_class c
          \<and> rec_class_name c' = rec_class_name c \<and> rec_owner c' = rec_owner c)"
proof -
  have "objects_inv r"
    using object_run.reachable_inv [OF refl assms(1)] .
  with assms(2) have "objects_inv r'" "objects_continue r r'"
    using object_run.steps_inv object_run.steps_rel by blast+
  then show ?thesis
    using assms(3) by (auto simp: objects_inv_def objects_continue_def continues_def max_race_objects_def)
qed

theorem race_objects_bounded_and_owned_witness:
  "\<exists>c. map_of (registry_objects (banana_registry 2 MRemove 5 PRemoved)) \<lparr>key_race_epoch = 1, key_object_id = 40\<rparr> = Some c
     \<and> act_player_id (rec_owner c) = 2"
proof -
  have "some_object_step\<^sup>*\<^sup>* race_object_registry_default (banana_registry 1 MPlace 2 PActive)"
    and "some_object_step\<^sup>*\<^sup>* (banana_registry 1 MPlace 2 PActive) (banana_registry 2 MRemove 5 PRemoved)"
    using banana_placed banana_removed by (auto simp: some_object_step_def intro!: r_into_rtranclp)
  from race_objects_bounded_and_owned [OF this,
      of "\<lparr>key_race_epoch = 1, key_object_id = 40\<rparr>" "banana_record MPlace 2 PActive"]
  show ?thesis by (auto simp: banana_registry_def banana_record_def)
qed

text \<open>C34: An object that was removed leaves the removed phase only by a respawn of that object.\<close>

theorem removed_object_returns_only_by_respawn:
  assumes "object_step op r r'"
    and "map_of (registry_objects r) key = Some c" "rec_phase c = PRemoved"
    and "map_of (registry_objects r') key = Some c'" "rec_phase c' \<noteq> PRemoved"
  shows "op_meaning op = MRespawn \<and> operation_key op = key"
proof -
  from assms(1) obtain m where m: "plan_object r op = Inr (PublishTracked m)"
    "registry_objects r' = AList.update (operation_key op) (mut_next m) (registry_objects r)"
    by (rule object_step_objects)
  show ?thesis
  proof (cases "operation_key op = key")
    case True
    with assms m have "rec_phase (mut_next m) \<noteq> PRemoved" by simp
    with plan_object_removed [OF m(1)] assms(2,3) True show ?thesis by simp
  next
    case False
    with assms m show ?thesis by simp
  qed
qed

theorem removed_object_returns_only_by_respawn_witness:
  "op_meaning (banana_op MRespawn 5) = MRespawn \<and> operation_key (banana_op MRespawn 5) = \<lparr>key_race_epoch = 1, key_object_id = 40\<rparr>"
  using removed_object_returns_only_by_respawn [OF banana_respawned,
      of "\<lparr>key_race_epoch = 1, key_object_id = 40\<rparr>" "banana_record MRemove 5 PRemoved"
      "banana_record MRespawn 5 PActive"]
  by (simp add: banana_registry_def banana_record_def)

text \<open>After an operation was planned and committed, the same operation is suppressed as a duplicate
when it is planned again; only the state updates without lifecycle meaning are published each time.\<close>

theorem repeated_operation_is_suppressed:
  assumes "object_step op r r'" "op_meaning op \<notin> {MResolve, MRetarget, MRebindSource}"
  shows "\<exists>name phase kind. plan_object r' op
    = Inr (SuppressDuplicate (op_object_id op) name phase (op_state op) kind)"
  using step_repeated [OF assms] by (auto simp: suppress_def operation_key_def)

theorem repeated_operation_is_suppressed_witness:
  "\<exists>name phase kind. plan_object (banana_registry 1 MPlace 2 PActive) (banana_op MPlace 2)
    = Inr (SuppressDuplicate 40 name phase 1 kind)"
  using repeated_operation_is_suppressed [OF banana_placed] by (simp add: banana_op_def)

text \<open>A planned mutation commits against the registry it was planned on, and a second plan made on
the same registry is then refused as stale.\<close>

theorem plans_commit_at_most_once:
  assumes "plan_object r op = Inr (PublishTracked m)" "plan_object r op' = Inr (PublishTracked m')"
  shows "\<exists>r'. commit_object r m = Inr r'
    \<and> commit_object r' m' = Inl (ObjStalePlan (registry_revision r) (registry_revision r'))"
  using plan_object_trackedD(1) [OF assms(1)] plan_object_trackedD(1) [OF assms(2)]
  by (simp add: commit_object_def)

theorem plans_commit_at_most_once_witness:
  "\<exists>m. plan_object race_object_registry_default (banana_op MPlace 2) = Inr (PublishTracked m)
     \<and> (\<exists>r'. commit_object race_object_registry_default m = Inr r'
          \<and> commit_object r' m = Inl (ObjStalePlan 0 (registry_revision r')))"
proof -
  from banana_placed obtain m where m: "plan_object race_object_registry_default (banana_op MPlace 2) = Inr (PublishTracked m)"
    by (auto simp: object_step_iff)
  with plans_commit_at_most_once [OF m m] show ?thesis
    by (auto simp: race_object_registry_default_def)
qed

end
