(* ===== verification/RoomData.thy ===== *)
theory RoomData
  imports Identity RoomProtocol LobbyProtocol RaceObjects
begin

text \<open>
  The state the world actor keeps for one protocol room
  (\<open>p5136-server/src/world.rs\<close>): settings, members, AI racers, closed slots,
  observers, physical slot positions, and the race that is frozen from them with
  its progress, settlement and loading handshake.
\<close>

section \<open>Identifiers\<close>

text \<open>\<open>RoomId\<close> and \<open>UserNo\<close> wrap a \<open>u32\<close>; a race epoch is a nonzero \<open>u64\<close>.\<close>

type_synonym room_id = u32
type_synonym kart_physics_block = "u8 list"   \<comment> \<open>235 bytes\<close>

record race_fence =
  rf_room_id :: room_id
  rf_race_epoch :: u64

datatype room_phase = PhLobby | PhLoading | PhRunning | PhSettling

section \<open>Members\<close>

definition modern_speed_type_count :: nat where "modern_speed_type_count = 9"

record room_kart_physics_variants =
  kv_default :: kart_physics_block
  kv_by_speed_type :: "kart_physics_block list"
  kv_by_game_type_and_speed :: "kart_physics_block list list option"

record room_participant =
  rp_player :: room_player
  rp_observer :: bool
  rp_observer_master :: bool
  rp_kart_physics :: kart_physics_block
  rp_kart_physics_variants :: "room_kart_physics_variants option"
  rp_floater_codes :: "int list"

record protocol_room_member =
  prm_user_no :: u32
  prm_player :: room_player
  prm_kart_physics :: kart_physics_block
  prm_kart_physics_variants :: "room_kart_physics_variants option"
  prm_floater_codes :: "int list"

record room_settings =
  set_channel :: channel_binding
  set_room_name :: ustring
  set_password :: ustring
  set_game_type :: u8
  set_speed_type :: u8
  set_track :: u32
  set_room_data_header :: u32
  set_room_data :: "u8 list"

record room_snapshot =
  snap_id :: room_id
  snap_slots :: "ustring option list"

section \<open>The frozen race\<close>

record time_reward =
  tr_earned_rp :: u32
  tr_earned_lucci :: u32

record applied_time_reward =
  atr_current_rp :: u32
  atr_earned_rp :: u32
  atr_earned_lucci :: u32
  atr_current_lucci :: u32

datatype frozen_result_economy = EcoPending | EcoApplied applied_time_reward

fun economy_applied :: "frozen_result_economy \<Rightarrow> applied_time_reward option" where
  "economy_applied EcoPending = None"
| "economy_applied (EcoApplied reward) = Some reward"

record frozen_human_result_snapshot =
  fh_kart_id :: u16
  fh_floater_codes :: "int list"
  fh_character_id :: u16
  fh_club_mark_logo :: int
  fh_economy :: frozen_result_economy

record frozen_race_participant =
  fp_identity :: identity_binding
  fp_nickname :: ustring
  fp_player_id :: int
  fp_observer :: bool
  fp_team :: u8
  fp_result :: "frozen_human_result_snapshot option"

record frozen_ai_race_participant =
  fa_player_id :: int
  fa_team :: u8
  fa_kart_id :: int

record frozen_race_roster =
  fr_fence :: race_fence
  fr_concrete_track :: u32
  fr_participants :: "frozen_race_participant list"
  fr_ais :: "frozen_ai_race_participant list"

definition active_racer_count :: "frozen_race_roster \<Rightarrow> nat" where
  "active_racer_count frozen =
     length (filter (\<lambda>p. \<not> fp_observer p) (fr_participants frozen)) + length (fr_ais frozen)"

section \<open>Race progress\<close>

datatype result_team = RedTeam | BlueTeam

record ranked_race_result =
  rr_finish_time :: u32
  rr_rank :: int
  rr_team :: "result_team option"
  rr_team_points :: int

record settlement_ranking =
  sr_winning_team :: "result_team option"
  sr_by_player_id :: "(int \<times> ranked_race_result) list"

datatype reward_persistence_status =
    RpQueued instant nat                \<comment> \<open>due_at, failure_count\<close>
  | RpInFlight u64 nat instant          \<comment> \<open>attempt_id, failure_count, lease_deadline\<close>
  | RpDurable applied_time_reward

fun in_flight_attempt_id :: "reward_persistence_status \<Rightarrow> u64 option" where
  "in_flight_attempt_id (RpInFlight attempt_id _ _) = Some attempt_id"
| "in_flight_attempt_id _ = None"

record reward_persistence_entry =
  re_user_no :: u32
  re_nickname :: ustring
  re_canonical_nickname :: ustring
  re_player_id :: int
  re_proposed_reward :: time_reward
  re_status :: reward_persistence_status

datatype reward_terminal_reason =
    InvalidRanking | RewardSampling | RewardPersistence | RewardReceiptMismatch
  | RewardParticipantMissing | RewardRetryDeadlineOverflow | RewardAttemptIdExhausted
  | RewardAttemptLeaseDeadlineOverflow | ResultSerialization | OutboundReservation

record settlement_dead_letter_state =
  dl_ranking :: "settlement_ranking option"
  dl_rewards :: "reward_persistence_entry list"
  dl_packets :: "u8 list list option"
  dl_failed_user_no :: "u32 option"
  dl_failed_nickname :: "ustring option"
  dl_reason :: reward_terminal_reason

datatype settlement_finalization =
    AwaitingDeadline
  | FinPersisting settlement_ranking "reward_persistence_entry list"
  | FinReady settlement_ranking "reward_persistence_entry list" "u8 list list"
  | FinFailed settlement_dead_letter_state

fun retain_as_dead_letter ::
  "reward_terminal_reason \<Rightarrow> u32 option \<Rightarrow> ustring option \<Rightarrow> settlement_finalization \<Rightarrow> settlement_finalization" where
  "retain_as_dead_letter reason failed_user failed_nick (FinFailed failed) = FinFailed failed"
| "retain_as_dead_letter reason failed_user failed_nick (FinPersisting ranks rewards) =
     FinFailed \<lparr>dl_ranking = Some ranks, dl_rewards = rewards, dl_packets = None,
                dl_failed_user_no = failed_user, dl_failed_nickname = failed_nick, dl_reason = reason\<rparr>"
| "retain_as_dead_letter reason failed_user failed_nick (FinReady ranks rewards packets) =
     FinFailed \<lparr>dl_ranking = Some ranks, dl_rewards = rewards, dl_packets = Some packets,
                dl_failed_user_no = failed_user, dl_failed_nickname = failed_nick, dl_reason = reason\<rparr>"
| "retain_as_dead_letter reason failed_user failed_nick AwaitingDeadline =
     FinFailed \<lparr>dl_ranking = None, dl_rewards = [], dl_packets = None,
                dl_failed_user_no = failed_user, dl_failed_nickname = failed_nick, dl_reason = reason\<rparr>"

record settlement_state =
  ss_end_tick :: u32
  ss_deadline :: instant
  ss_finalization :: settlement_finalization

record pending_race_time =
  prt_player_id :: int
  prt_race_time :: u32
  prt_packet :: "u8 list"

record pending_begin_settlement =
  pbs_end_tick :: u32
  pbs_excluded_user :: "u32 option"
  pbs_packet :: "u8 list"

record pending_race_fanout =
  prf_race_time :: "pending_race_time option"
  prf_begin_settlement :: "pending_begin_settlement option"

datatype item_pickup_kind = PickupType1 | PickupType2

record item_pickup_replay_state =
  ip_last_operation_tick :: u32
  ip_objects_seen_at_tick :: "(item_pickup_kind \<times> u32) set"
  ip_tokens :: nat                     \<comment> \<open>a \<open>u8\<close> bounded by the bucket capacity\<close>
  ip_last_refill_at :: instant

record race_progress =
  pg_finish_times :: "(int \<times> u32) list"
  pg_settlement :: "settlement_state option"
  pg_pending_fanouts :: "pending_race_fanout list"
  pg_team_gauge_bits :: "u32 list"
  pg_item_pickups :: "(int \<times> item_pickup_replay_state) list"
  pg_race_objects :: race_object_registry

definition race_progress_default :: race_progress where
  "race_progress_default =
     \<lparr>pg_finish_times = [], pg_settlement = None, pg_pending_fanouts = [], pg_team_gauge_bits = [0, 0],
      pg_item_pickups = [], pg_race_objects = race_object_registry_default\<rparr>"

datatype race_team = RaceRed | RaceBlue

definition team_index :: "race_team \<Rightarrow> nat" where
  "team_index t = (case t of RaceRed \<Rightarrow> 0 | RaceBlue \<Rightarrow> 1)"

definition result_team_of :: "race_team \<Rightarrow> result_team" where
  "result_team_of t = (case t of RaceRed \<Rightarrow> RedTeam | RaceBlue \<Rightarrow> BlueTeam)"

definition set_team_gauge :: "race_team \<Rightarrow> u32 \<Rightarrow> race_progress \<Rightarrow> race_progress" where
  "set_team_gauge t gauge progress =
     progress\<lparr>pg_team_gauge_bits := (pg_team_gauge_bits progress)[team_index t := gauge]\<rparr>"

definition team_gauge :: "race_team \<Rightarrow> race_progress \<Rightarrow> u32" where
  "team_gauge t progress = pg_team_gauge_bits progress ! team_index t"

record frozen_participant_stamp =
  fs_user_no :: u32
  fs_generation :: u64

definition stamp_of :: "identity_binding \<Rightarrow> frozen_participant_stamp" where
  "stamp_of identity = \<lparr>fs_user_no = ib_user_no identity, fs_generation = ib_generation identity\<rparr>"

datatype loading_handshake =
    Dormant
  | Awaiting "frozen_participant_stamp set" "frozen_participant_stamp set" instant  \<comment> \<open>expected, ready, deadline\<close>
  | StartScheduled instant

record protocol_room_state =
  room_id_of :: room_id
  settings :: room_settings
  phase :: room_phase
  race_fence_of :: "race_fence option"
  frozen_race :: "frozen_race_roster option"
  race_progress_of :: race_progress
  loading_handshake_of :: loading_handshake
  room_master :: int
  members_by_id :: "protocol_room_member option list"
  ais_by_id :: "room_ai option list"
  closed_slots_by_id :: "u8 option list"
  observers :: "protocol_room_member option list"
  slot_positions :: "u8 option list"
  random_track_pool :: "(u8 \<times> u32) option"
  random_tracks_used :: "u32 list"
  last_random_track :: "u32 option"

end
