(* ===== verification/RoomState.thy ===== *)
theory RoomState
  imports RoomData "HOL-Library.Product_Lexorder"
begin

text \<open>
  \<open>ProtocolRoomState\<close> of \<open>p5136-server/src/world.rs\<close>, one definition per
  method.  Arrays of options are lists of fixed length; a method that mutates
  the room returns it.  \<open>i32::try_from\<close> of an index below 16 cannot fail, so
  player IDs are written with \<open>int\<close>.
\<close>

section \<open>Tracks and speed types\<close>

definition random_track_selectors :: "u32 list" where
  "random_track_selectors = [0, 1, 3, 4, 5, 6, 7, 8, 23, 30, 33, 40]"

definition is_random_track_selector :: "u32 \<Rightarrow> bool" where
  "is_random_track_selector track \<longleftrightarrow> track \<in> set random_track_selectors"

definition expected_room_game_type :: "u8 \<Rightarrow> u8 option" where
  "expected_room_game_type g =
     (if g \<in> {67, 23, 14} then Some 1
      else if g \<in> {65, 8} then Some 2
      else if g \<in> {68, 24, 13} then Some 3
      else if g \<in> {66, 7} then Some 4
      else None)"

definition channel_default_speed_type :: "u8 \<Rightarrow> u8" where
  "channel_default_speed_type g = (if g = 23 \<or> g = 24 then 4 else 7)"

text \<open>UTF-8, in which the room title is scanned (\<open>str::as_bytes\<close>).\<close>

definition utf8_scalar :: "nat \<Rightarrow> u8 list" where
  "utf8_scalar c = map of_nat
     (if c < 0x80 then [c]
      else if c < 0x800 then [0xC0 + c div 64, 0x80 + c mod 64]
      else if c < 0x10000 then [0xE0 + c div 4096, 0x80 + c div 64 mod 64, 0x80 + c mod 64]
      else [0xF0 + c div 262144, 0x80 + c div 4096 mod 64, 0x80 + c div 64 mod 64, 0x80 + c mod 64])"

definition utf8_bytes :: "ustring \<Rightarrow> u8 list" where
  "utf8_bytes s = concat (map utf8_scalar s)"

definition is_ascii_alphanumeric :: "u8 \<Rightarrow> bool" where
  "is_ascii_alphanumeric b \<longleftrightarrow> (48 \<le> b \<and> b \<le> 57) \<or> (65 \<le> b \<and> b \<le> 90) \<or> (97 \<le> b \<and> b \<le> 122)"

definition speed_types :: "u8 list" where "speed_types = [3, 0, 1, 2, 4, 5, 6, 7, 8]"

definition speed_marker_at :: "u8 list \<Rightarrow> nat \<Rightarrow> bool" where
  "speed_marker_at bytes i \<longleftrightarrow>
     (bytes ! i = 83 \<or> bytes ! i = 115) \<and> 48 \<le> bytes ! (i + 1) \<and> bytes ! (i + 1) \<le> 56
     \<and> \<not> (i \<noteq> 0 \<and> is_ascii_alphanumeric (bytes ! (i - 1)))
     \<and> \<not> (i + 2 < length bytes \<and> is_ascii_alphanumeric (bytes ! (i + 2)))"

definition csharp_room_title_speed_type :: "ustring \<Rightarrow> u8 option" where
  "csharp_room_title_speed_type room_name =
     (let bytes = utf8_bytes room_name in
      map_option (\<lambda>i. speed_types ! unat (bytes ! (i + 1) - 48))
        (List.find (speed_marker_at bytes) [0..<length bytes - 1]))"

section \<open>Kart physics of a member\<close>

definition nth_opt :: "'a list \<Rightarrow> nat \<Rightarrow> 'a option" where
  "nth_opt xs i = (if i < length xs then Some (xs ! i) else None)"

definition variants_new :: "kart_physics_block \<Rightarrow> kart_physics_block list \<Rightarrow> room_kart_physics_variants" where
  "variants_new dflt by_speed =
     \<lparr>kv_default = dflt, kv_by_speed_type = by_speed, kv_by_game_type_and_speed = None\<rparr>"

definition variants_new_with_game_types ::
  "kart_physics_block \<Rightarrow> kart_physics_block list list \<Rightarrow> room_kart_physics_variants" where
  "variants_new_with_game_types dflt matrix =
     \<lparr>kv_default = dflt, kv_by_speed_type = matrix ! 0, kv_by_game_type_and_speed = Some matrix\<rparr>"

definition for_room_title :: "room_kart_physics_variants \<Rightarrow> ustring \<Rightarrow> kart_physics_block" where
  "for_room_title v room_name =
     (case csharp_room_title_speed_type room_name of
        None \<Rightarrow> kv_default v
      | Some speed_type \<Rightarrow> kv_by_speed_type v ! unat speed_type)"

definition for_room :: "room_kart_physics_variants \<Rightarrow> ustring \<Rightarrow> u8 \<Rightarrow> u8 \<Rightarrow> kart_physics_block" where
  "for_room v room_name game_type fallback =
     (case kv_by_game_type_and_speed v of
        None \<Rightarrow>
          (let speed = (case csharp_room_title_speed_type room_name of
                 Some s \<Rightarrow> Some s
               | None \<Rightarrow> if fallback \<noteq> 7 then Some fallback else None) in
           case Option.bind speed (\<lambda>s. nth_opt (kv_by_speed_type v) (unat s)) of
             None \<Rightarrow> kv_default v
           | Some block \<Rightarrow> block)
      | Some matrix \<Rightarrow>
          if game_type = 0 \<or> 4 \<le> unat (game_type - 1) then for_room_title v room_name
          else
            (let speed_type = (case csharp_room_title_speed_type room_name of Some s \<Rightarrow> s | None \<Rightarrow> fallback) in
             case nth_opt (matrix ! unat (game_type - 1)) (unat speed_type) of
               None \<Rightarrow> for_room_title v room_name
             | Some block \<Rightarrow> block))"

definition kart_physics_for_room :: "protocol_room_member \<Rightarrow> room_settings \<Rightarrow> kart_physics_block" where
  "kart_physics_for_room member s =
     (case prm_kart_physics_variants member of
        None \<Rightarrow> prm_kart_physics member
      | Some v \<Rightarrow> for_room v (set_room_name s) (set_game_type s) (set_speed_type s))"

section \<open>Queries\<close>

definition room_new :: "room_id \<Rightarrow> room_settings \<Rightarrow> protocol_room_state" where
  "room_new rid st =
     \<lparr>room_id_of = rid, settings = st, phase = PhLobby, race_fence_of = None, frozen_race = None,
      race_progress_of = race_progress_default, loading_handshake_of = Dormant, room_master = 0,
      members_by_id = replicate room_slot_count None, ais_by_id = replicate room_slot_count None,
      closed_slots_by_id = replicate room_slot_count None,
      observers = replicate room_observer_count None,
      slot_positions = replicate room_slot_count None,
      random_track_pool = None, random_tracks_used = [], last_random_track = None\<rparr>"

definition team_mode :: "protocol_room_state \<Rightarrow> bool" where
  "team_mode room \<longleftrightarrow> set_game_type (settings room) \<in> {3, 4}"

definition holds_user :: "u32 \<Rightarrow> protocol_room_member option \<Rightarrow> bool" where
  "holds_user u m \<longleftrightarrow> (case m of None \<Rightarrow> False | Some member \<Rightarrow> prm_user_no member = u)"

definition member_id :: "u32 \<Rightarrow> protocol_room_state \<Rightarrow> nat option" where
  "member_id u room = position (holds_user u) (members_by_id room)"

definition observer_id :: "u32 \<Rightarrow> protocol_room_state \<Rightarrow> nat option" where
  "observer_id u room = position (holds_user u) (observers room)"

definition room_members :: "protocol_room_state \<Rightarrow> protocol_room_member list" where
  "room_members room = flatten (members_by_id room @ observers room)"

definition user_nos :: "protocol_room_state \<Rightarrow> u32 list" where
  "user_nos room = map prm_user_no (room_members room)"

definition member_by_user_no :: "u32 \<Rightarrow> protocol_room_state \<Rightarrow> protocol_room_member option" where
  "member_by_user_no u room = List.find (\<lambda>m. prm_user_no m = u) (room_members room)"

definition room_is_empty :: "protocol_room_state \<Rightarrow> bool" where
  "room_is_empty room \<longleftrightarrow> (\<forall>m\<in>set (members_by_id room). m = None) \<and> (\<forall>m\<in>set (observers room). m = None)"

definition vacant_member_id :: "protocol_room_state \<Rightarrow> nat option" where
  "vacant_member_id room = List.find (\<lambda>i. members_by_id room ! i = None \<and> ais_by_id room ! i = None
      \<and> closed_slots_by_id room ! i = None) [0..<room_slot_count]"

definition equipment_player_id :: "u32 \<Rightarrow> protocol_room_state \<Rightarrow> int option" where
  "equipment_player_id u room =
     (case member_id u room of
        Some i \<Rightarrow> Some (int i)
      | None \<Rightarrow> map_option (\<lambda>i. int (room_slot_count + i)) (observer_id u room))"

definition member_by_player_id :: "int \<Rightarrow> protocol_room_state \<Rightarrow> protocol_room_member option" where
  "member_by_player_id player_id room =
     (if player_id < 0 then None
      else if nat player_id < room_slot_count then members_by_id room ! nat player_id
      else Option.bind (nth_opt (observers room) (nat player_id - room_slot_count)) (\<lambda>m. m))"

definition slot_states :: "protocol_room_state \<Rightarrow> int list" where
  "slot_states room = map (\<lambda>i. case members_by_id room ! i of
        Some member \<Rightarrow> player_type (prm_player member)
      | None \<Rightarrow> if ais_by_id room ! i \<noteq> None then 7
                else if closed_slots_by_id room ! i \<noteq> None then 1 else 0) [0..<room_slot_count]"

definition wire_slot_positions :: "protocol_room_state \<Rightarrow> int list" where
  "wire_slot_positions room =
     map (\<lambda>p. case p of None \<Rightarrow> - 1 | Some m \<Rightarrow> uint m) (slot_positions room)"

definition ai_count :: "protocol_room_state \<Rightarrow> nat" where
  "ai_count room = length (flatten (ais_by_id room))"

definition closed_slot_ids :: "protocol_room_state \<Rightarrow> u8 list" where
  "closed_slot_ids room = flatten (closed_slots_by_id room)"

section \<open>Joining\<close>

definition blue_slots :: "nat list" where "blue_slots = [0..<room_slot_count div 2]"
definition red_slots :: "nat list" where "red_slots = [room_slot_count div 2..<room_slot_count]"

definition team_count :: "u8 \<Rightarrow> protocol_room_state \<Rightarrow> nat" where
  "team_count t room =
     length (filter (\<lambda>m. team (prm_player m) = t) (flatten (members_by_id room)))
     + length (filter (\<lambda>ai. ai_team ai = t) (flatten (ais_by_id room)))"

definition free_slot :: "protocol_room_state \<Rightarrow> nat list \<Rightarrow> nat option" where
  "free_slot room slots = List.find (\<lambda>s. slot_positions room ! s = None) slots"

definition admission_slot_and_team :: "protocol_room_state \<Rightarrow> (nat \<times> u8) option" where
  "admission_slot_and_team room =
     (if \<not> team_mode room then
        map_option (\<lambda>s. (s, 0)) (position (\<lambda>p. p = None) (slot_positions room))
      else
        (let blue = map_option (\<lambda>s. (s, 2)) (free_slot room blue_slots);
             red = map_option (\<lambda>s. (s, 1)) (free_slot room red_slots)
         in if team_count 2 room \<le> team_count 1 room
            then (case blue of Some x \<Rightarrow> Some x | None \<Rightarrow> red)
            else (case red of Some x \<Rightarrow> Some x | None \<Rightarrow> blue)))"

definition member_of :: "u32 \<Rightarrow> room_player \<Rightarrow> room_participant \<Rightarrow> protocol_room_member" where
  "member_of u player participant =
     \<lparr>prm_user_no = u, prm_player = player, prm_kart_physics = rp_kart_physics participant,
      prm_kart_physics_variants = rp_kart_physics_variants participant,
      prm_floater_codes = rp_floater_codes participant\<rparr>"

definition add_observer :: "u32 \<Rightarrow> room_participant \<Rightarrow> protocol_room_state \<Rightarrow> bool \<times> protocol_room_state" where
  "add_observer u participant room =
     (case position (\<lambda>m. m = None) (observers room) of
        None \<Rightarrow> (False, room)
      | Some i \<Rightarrow>
          (let player = (rp_player participant)\<lparr>player_type := 4, team := 0\<rparr>;
               room' = room\<lparr>observers := (observers room)[i := Some (member_of u player participant)]\<rparr>
           in (True, if rp_observer_master participant
                     then room'\<lparr>room_master := int (room_slot_count + i)\<rparr> else room')))"

definition add_racer :: "u32 \<Rightarrow> room_participant \<Rightarrow> protocol_room_state \<Rightarrow> bool \<times> protocol_room_state" where
  "add_racer u participant room =
     (case vacant_member_id room of
        None \<Rightarrow> (False, room)
      | Some mid \<Rightarrow> (case admission_slot_and_team room of
          None \<Rightarrow> (False, room)
        | Some (slot_id, t) \<Rightarrow>
            (let player = (rp_player participant)\<lparr>player_type := 2, team := t,
                    ranking := int (length (flatten (members_by_id room)))\<rparr>;
                 room' = room\<lparr>members_by_id := (members_by_id room)[mid := Some (member_of u player participant)],
                    slot_positions := (slot_positions room)[slot_id := Some (of_nat mid)]\<rparr>
             in (True, if member_by_player_id (room_master room') room' = None
                       then room'\<lparr>room_master := int mid\<rparr> else room'))))"

definition add_participant :: "u32 \<Rightarrow> room_participant \<Rightarrow> protocol_room_state \<Rightarrow> bool \<times> protocol_room_state" where
  "add_participant u participant room =
     (if rp_observer participant then add_observer u participant room else add_racer u participant room)"

section \<open>Leaving\<close>

definition set_player :: "(room_player \<Rightarrow> room_player) \<Rightarrow> protocol_room_member \<Rightarrow> protocol_room_member" where
  "set_player f member = member\<lparr>prm_player := f (prm_player member)\<rparr>"

definition update_slot :: "('a \<Rightarrow> 'a) \<Rightarrow> nat \<Rightarrow> 'a option list \<Rightarrow> 'a option list" where
  "update_slot f i xs = xs[i := map_option f (xs ! i)]"

definition assign_next_room_master :: "protocol_room_state \<Rightarrow> protocol_room_state" where
  "assign_next_room_master room =
     (case position (\<lambda>m. m \<noteq> None) (members_by_id room) of
        Some i \<Rightarrow> room\<lparr>room_master := int i,
          members_by_id := update_slot (set_player (player_type_update (\<lambda>_. slot_state_code NotReady))) i (members_by_id room)\<rparr>
      | None \<Rightarrow> (case position (\<lambda>m. m \<noteq> None) (observers room) of
          Some i \<Rightarrow> room\<lparr>room_master := int (room_slot_count + i),
            observers := update_slot (set_player (player_type_update (\<lambda>_. slot_state_code Observer))) i (observers room)\<rparr>
        | None \<Rightarrow> room\<lparr>room_master := - 1\<rparr>))"

text \<open>The occupied member IDs with a key, in index order.\<close>

definition keyed_members :: "(nat \<Rightarrow> protocol_room_member \<Rightarrow> 'k option) \<Rightarrow> protocol_room_member option list \<Rightarrow> ('k \<times> nat) list" where
  "keyed_members key ms = List.map_filter (\<lambda>i. case ms ! i of
      None \<Rightarrow> None
    | Some member \<Rightarrow> map_option (\<lambda>k. (k, i)) (key i member)) [0..<length ms]"

text \<open>Numbers the listed member IDs 0, 1, ... in \<open>ranking\<close>.\<close>

fun number_rankings :: "nat \<Rightarrow> nat list \<Rightarrow> protocol_room_member option list \<Rightarrow> protocol_room_member option list" where
  "number_rankings k [] ms = ms"
| "number_rankings k (i # ids) ms =
     number_rankings (Suc k) ids (update_slot (set_player (ranking_update (\<lambda>_. int k))) i ms)"

definition compact_rankings :: "protocol_room_state \<Rightarrow> protocol_room_state" where
  "compact_rankings room = room\<lparr>members_by_id :=
     number_rankings 0
       (map snd (sort (keyed_members (\<lambda>_ m. Some (ranking (prm_player m))) (members_by_id room))))
       (members_by_id room)\<rparr>"

definition remove_user :: "u32 \<Rightarrow> protocol_room_state \<Rightarrow> bool \<times> protocol_room_state" where
  "remove_user u room =
     (case observer_id u room of
        Some i \<Rightarrow>
          (let room' = room\<lparr>observers := (observers room)[i := None]\<rparr>
           in (True, if room_master room = int (room_slot_count + i) then assign_next_room_master room' else room'))
      | None \<Rightarrow> (case member_id u room of
          None \<Rightarrow> (False, room)
        | Some mid \<Rightarrow>
            (let room1 = room\<lparr>members_by_id := (members_by_id room)[mid := None]\<rparr>;
                 room2 = (case position (\<lambda>p. p = Some (of_nat mid)) (slot_positions room1) of
                            None \<Rightarrow> room1
                          | Some slot_id \<Rightarrow> room1\<lparr>slot_positions := (slot_positions room1)[slot_id := None]\<rparr>);
                 room3 = (if room_master room = int mid then assign_next_room_master room2 else room2)
             in (True, compact_rankings room3))))"

section \<open>After a race\<close>

definition apply_next_grid_ranking :: "settlement_ranking \<Rightarrow> protocol_room_state \<Rightarrow> protocol_room_state" where
  "apply_next_grid_ranking rk room = room\<lparr>members_by_id :=
     number_rankings 0
       (map snd (sort (keyed_members (\<lambda>i _. map_option rr_rank (map_of (sr_by_player_id rk) (int i)))
          (members_by_id room))))
       (members_by_id room)\<rparr>"

definition master_candidate :: "settlement_ranking \<Rightarrow> nat \<Rightarrow> (int \<times> u32) option" where
  "master_candidate rk i =
     (case map_of (sr_by_player_id rk) (int i) of
        None \<Rightarrow> None
      | Some ranked \<Rightarrow>
          if (\<exists>w\<in>set_option (sr_winning_team rk). rr_team ranked \<noteq> Some w) then None
          else Some (rr_rank ranked, rr_finish_time ranked))"

definition apply_next_lobby_master :: "settlement_ranking \<Rightarrow> protocol_room_state \<Rightarrow> int option \<times> protocol_room_state" where
  "apply_next_lobby_master rk room =
     (if room_master room \<ge> int room_slot_count \<and> member_by_player_id (room_master room) room \<noteq> None
      then (Some (room_master room), room)
      else (case sort (keyed_members (\<lambda>i _. master_candidate rk i) (members_by_id room)) of
              [] \<Rightarrow> (None, room)
            | (_, i) # _ \<Rightarrow> (Some (int i), room\<lparr>room_master := int i\<rparr>)))"

section \<open>AI racers and closed slots\<close>

datatype room_panic = AiWithoutSlot

text \<open>The last case is the \<open>expect\<close> of the source.\<close>

definition remove_ai :: "u32 \<Rightarrow> protocol_room_state \<Rightarrow> room_panic + (int option \<times> protocol_room_state)" where
  "remove_ai player_id room =
     (case Option.bind (nth_opt (ais_by_id room) (unat player_id)) (\<lambda>ai. ai) of
        None \<Rightarrow> Inr (None, room)
      | Some _ \<Rightarrow>
          (let room' = room\<lparr>ais_by_id := (ais_by_id room)[unat player_id := None]\<rparr> in
           case position (\<lambda>p. p = Some (ucast player_id)) (slot_positions room') of
             None \<Rightarrow> Inl AiWithoutSlot
           | Some slot_id \<Rightarrow> Inr (Some (uint player_id), room'\<lparr>slot_positions := (slot_positions room')[slot_id := None]\<rparr>)))"

definition team_slots :: "u8 \<Rightarrow> nat list" where
  "team_slots t = (if t = 2 then blue_slots else if t = 1 then red_slots else [0..<room_slot_count])"

fun add_ais :: "(u8 \<times> room_ai) list \<Rightarrow> protocol_room_state \<Rightarrow> (int \<times> room_ai) list option \<times> protocol_room_state" where
  "add_ais [] room = (Some [], room)"
| "add_ais ((t, ai) # rest) room =
     (case vacant_member_id room of
        None \<Rightarrow> (None, room)
      | Some mid \<Rightarrow> (case free_slot room (team_slots t) of
          None \<Rightarrow> (None, room)
        | Some slot_id \<Rightarrow>
            (let ai' = ai\<lparr>ai_team := t\<rparr>;
                 (added, room') = add_ais rest (room\<lparr>ais_by_id := (ais_by_id room)[mid := Some ai'],
                    slot_positions := (slot_positions room)[slot_id := Some (of_nat mid)]\<rparr>)
             in (map_option (\<lambda>xs. (int mid, ai') # xs) added, room'))))"

definition add_basic_ais :: "room_ai \<times> room_ai \<Rightarrow> protocol_room_state \<Rightarrow> (int \<times> room_ai) list option \<times> protocol_room_state" where
  "add_basic_ais candidates room =
     add_ais (zip (if team_mode room then [2, 1] else [0]) [fst candidates, snd candidates]) room"

definition close_slot_pairs :: "close_slot_request \<Rightarrow> protocol_room_state \<Rightarrow> (nat \<times> nat) list" where
  "close_slot_pairs request room =
     (let first_pair = (unat (csr_first_member_id request), unat (csr_first_slot_id request));
          second_pair = (unat (csr_second_member_id request), unat (csr_second_slot_id request))
      in if team_mode room then [first_pair, second_pair] else [first_pair])"

definition pair_closable :: "protocol_room_state \<Rightarrow> nat \<times> nat \<Rightarrow> bool" where
  "pair_closable room = (\<lambda>(mid, slot_id). members_by_id room ! mid = None \<and> ais_by_id room ! mid = None
     \<and> closed_slots_by_id room ! mid = None \<and> slot_positions room ! slot_id = None)"

definition pair_openable :: "protocol_room_state \<Rightarrow> nat \<times> nat \<Rightarrow> bool" where
  "pair_openable room = (\<lambda>(mid, slot_id). closed_slots_by_id room ! mid = Some (of_nat slot_id)
     \<and> slot_positions room ! slot_id = Some (of_nat mid))"

definition apply_pair :: "bool \<Rightarrow> nat \<times> nat \<Rightarrow> protocol_room_state \<Rightarrow> protocol_room_state" where
  "apply_pair close = (\<lambda>(mid, slot_id) room.
     room\<lparr>closed_slots_by_id := (closed_slots_by_id room)[mid := if close then Some (of_nat slot_id) else None],
          slot_positions := (slot_positions room)[slot_id := if close then Some (of_nat mid) else None]\<rparr>)"

definition set_close_slots :: "close_slot_request \<Rightarrow> protocol_room_state \<Rightarrow> bool \<times> protocol_room_state" where
  "set_close_slots request room =
     (let pairs = close_slot_pairs request room; close = is_close (csr_operation request) in
      if (\<exists>(mid, slot_id)\<in>set pairs. mid \<ge> room_slot_count \<or> slot_id \<ge> room_slot_count) then (False, room)
      else if length pairs = 2 \<and> (fst (pairs ! 0) = fst (pairs ! 1) \<or> snd (pairs ! 0) = snd (pairs ! 1))
      then (False, room)
      else if \<not> (\<forall>p\<in>set pairs. if close then pair_closable room p else pair_openable room p) then (False, room)
      else (True, fold (apply_pair close) pairs room))"

section \<open>Concrete track selection\<close>

text \<open>
  \<open>draw n\<close> is the index the process random source returns for the range
  \<open>0..n\<close>; the history starts anew when the selector or the catalog game type
  changes.
\<close>

definition candidate_tracks :: "u32 list \<Rightarrow> u32 list" where
  "candidate_tracks tracks = remdups_adj (sort (filter (\<lambda>t. \<not> is_random_track_selector t) tracks))"

definition usable_history :: "u32 list \<Rightarrow> u32 list \<Rightarrow> u32 list" where
  "usable_history candidates used =
     (let kept = filter (\<lambda>t. t \<in> set candidates) used
      in if length kept \<ge> length candidates then [] else kept)"

definition available_tracks :: "u32 list \<Rightarrow> u32 list \<Rightarrow> u32 option \<Rightarrow> u32 list" where
  "available_tracks candidates used last_track =
     (let fresh = filter (\<lambda>t. t \<notin> set used) candidates;
          narrowed = (case last_track of
             Some l \<Rightarrow> if length fresh > 1 then filter (\<lambda>t. t \<noteq> l) fresh else fresh
           | None \<Rightarrow> fresh)
      in if narrowed = [] then candidates else narrowed)"

text \<open>\<open>None\<close> is \<open>Err(MissingTrackCandidates)\<close>.\<close>

definition select_concrete_track ::
  "(nat \<Rightarrow> nat) \<Rightarrow> u32 list \<Rightarrow> protocol_room_state \<Rightarrow> (u32 \<times> protocol_room_state) option" where
  "select_concrete_track draw tracks room =
     (if \<not> is_random_track_selector (set_track (settings room)) then
        Some (set_track (settings room),
              room\<lparr>random_track_pool := None, random_tracks_used := [], last_random_track := None\<rparr>)
      else
        (let candidates = candidate_tracks tracks in
         if candidates = [] then None
         else
           (let pool = (if set_game_type (settings room) \<in> {2, 4} then 1 else 0, set_track (settings room));
                same = (random_track_pool room = Some pool);
                used = usable_history candidates (if same then random_tracks_used room else []);
                available = available_tracks candidates used (if same then last_random_track room else None);
                selected = available ! draw (length available)
            in Some (selected, room\<lparr>random_track_pool := Some pool, random_tracks_used := used @ [selected],
                               last_random_track := Some selected\<rparr>))))"

section \<open>Presentation updates\<close>

text \<open>Rewrites the first member or observer with the user number (\<open>iter_mut().chain().flatten().find()\<close>).\<close>

definition update_user :: "u32 \<Rightarrow> (room_player \<Rightarrow> room_player) \<Rightarrow> protocol_room_state \<Rightarrow> bool \<times> protocol_room_state" where
  "update_user u f room =
     (case member_id u room of
        Some i \<Rightarrow> (True, room\<lparr>members_by_id := update_slot (set_player f) i (members_by_id room)\<rparr>)
      | None \<Rightarrow> (case observer_id u room of
          Some i \<Rightarrow> (True, room\<lparr>observers := update_slot (set_player f) i (observers room)\<rparr>)
        | None \<Rightarrow> (False, room)))"

definition u16_from_le :: "u8 list \<Rightarrow> nat \<Rightarrow> u16" where
  "u16_from_le bytes i = ucast (bytes ! i) + 256 * ucast (bytes ! (i + 1))"

definition update_frozen_result :: "u32 \<Rightarrow> (frozen_human_result_snapshot \<Rightarrow> frozen_human_result_snapshot) \<Rightarrow>
    frozen_race_participant list \<Rightarrow> frozen_race_participant list" where
  "update_frozen_result u f ps =
     (case position (\<lambda>p. ib_user_no (fp_identity p) = u) ps of
        None \<Rightarrow> ps
      | Some i \<Rightarrow> ps[i := (ps ! i)\<lparr>fp_result := map_option f (fp_result (ps ! i))\<rparr>])"

definition set_equipment_snapshot :: "u32 \<Rightarrow> u8 list \<Rightarrow> protocol_room_state \<Rightarrow> bool \<times> protocol_room_state" where
  "set_equipment_snapshot u snapshot room =
     (let (updated, room') = update_user u (rider_item_snapshot_update (\<lambda>_. snapshot)) room in
      if \<not> updated then (False, room)
      else (True, room'\<lparr>frozen_race := map_option (\<lambda>frozen. frozen\<lparr>fr_participants :=
              update_frozen_result u (\<lambda>r. r\<lparr>fh_character_id := u16_from_le snapshot 0,
                 fh_kart_id := u16_from_le snapshot 4\<rparr>) (fr_participants frozen)\<rparr>) (frozen_race room')\<rparr>))"

definition set_main_emblems :: "u32 \<Rightarrow> u16 list \<Rightarrow> protocol_room_state \<Rightarrow> bool \<times> protocol_room_state" where
  "set_main_emblems u emblems =
     update_user u (\<lambda>p. p\<lparr>emblem_1 := emblems ! 0, emblem_2 := emblems ! 1, emblem_3 := emblems ! 2\<rparr>)"

definition set_p2p_endpoint :: "u32 \<Rightarrow> u8 list \<Rightarrow> u16 \<Rightarrow> protocol_room_state \<Rightarrow> bool \<times> protocol_room_state" where
  "set_p2p_endpoint u address port = update_user u (\<lambda>p. p\<lparr>p2p_address := address, p2p_port := port\<rparr>)"

section \<open>Wire views\<close>

definition room_list_entry_of :: "protocol_room_state \<Rightarrow> room_list_entry" where
  "room_list_entry_of room =
     \<lparr>rle_room_id = sint (ucast (room_id_of room) :: u16),
      rle_room_name = set_room_name (settings room),
      rle_track = set_track (settings room),
      rle_locked = (set_password (settings room) \<noteq> []),
      rle_game_type = set_game_type (settings room),
      rle_speed_type = set_speed_type (settings room),
      rle_started = (phase room \<noteq> PhLobby),
      rle_available_slots = of_nat room_slot_count,
      rle_player_count = of_nat (length (flatten (members_by_id room)))\<rparr>"

definition session_data :: "protocol_room_state \<Rightarrow> room_session_data" where
  "session_data room =
     \<lparr>rsd_room_name = set_room_name (settings room), rsd_password = set_password (settings room),
      rsd_game_type = set_game_type (settings room), rsd_speed_type = set_speed_type (settings room)\<rparr>"

definition wire_member :: "protocol_room_state \<Rightarrow> nat \<Rightarrow> room_member" where
  "wire_member room i =
     (case members_by_id room ! i of
        Some member \<Rightarrow> MPlayer (prm_player member)
      | None \<Rightarrow> (case ais_by_id room ! i of
          Some ai \<Rightarrow> MAi ai
        | None \<Rightarrow> if closed_slots_by_id room ! i \<noteq> None then MClosed 1 else MEmpty))"

definition wire_observer :: "protocol_room_member option \<Rightarrow> room_observer_slot" where
  "wire_observer m =
     (case m of
        None \<Rightarrow> OEmpty
      | Some member \<Rightarrow> OPlayer \<lparr>ob_player_type = 4, ob_user_no = prm_user_no member,
          ob_p2p_address = p2p_address (prm_player member), ob_p2p_port = p2p_port (prm_player member),
          ob_nickname = nickname (prm_player member)\<rparr>)"

definition slot_data :: "protocol_room_state \<Rightarrow> room_slot_data" where
  "slot_data room =
     (room_slot_data_empty (set_track (settings room)) (set_room_data_header (settings room))
        (set_room_data (settings room)) (room_master room))
     \<lparr>rs_closed_slot_ids := closed_slot_ids room,
      rs_members_by_id := map (wire_member room) [0..<room_slot_count],
      rs_observers := map wire_observer (observers room),
      rs_slot_positions := wire_slot_positions room\<rparr>"

definition room_snapshot_of :: "protocol_room_state \<Rightarrow> room_snapshot" where
  "room_snapshot_of room =
     \<lparr>snap_id = room_id_of room,
      snap_slots = map (\<lambda>p. case p of None \<Rightarrow> None
        | Some mid \<Rightarrow> map_option (\<lambda>m. nickname (prm_player m)) (members_by_id room ! unat mid)) (slot_positions room)\<rparr>"

end
