(* ===== verification/Slots.thy ===== *)
theory Slots
  imports Prelude "HOL-Library.Multiset"
begin

text \<open>
  Arrays of options as slot tables.  \<open>placed ps U\<close> says that the array \<open>ps\<close> of
  physical positions holds every index of \<open>U\<close> in exactly one position and
  nothing else; the lemmas give its behaviour under the only updates the code
  makes, putting an index into a free position and clearing a position.
\<close>

named_theorems slot_simps \<open>occupied indices and contents of updated arrays\<close>

lemma occupied_Some [slot_simps]: "i < length xs \<Longrightarrow> occupied (xs[i := Some x]) = insert i (occupied xs)"
  by (auto simp: occupied_def nth_list_update split: if_splits)

lemma occupied_None [slot_simps]: "occupied (xs[i := None]) = occupied xs - {i}"
  by (cases "i < length xs") (auto simp: occupied_def nth_list_update split: if_splits)

lemma occupied_map_option [slot_simps]: "occupied (xs[i := map_option f (xs ! i)]) = occupied xs"
  by (cases "i < length xs") (auto simp: occupied_def nth_list_update split: if_splits)

lemma occupied_replicate [simp]: "occupied (replicate n None) = {}"
  by (auto simp: occupied_def)

lemma occupied_less: "i \<in> occupied xs \<Longrightarrow> i < length xs"
  by (simp add: occupied_def)

lemma occupied_iff: "i \<in> occupied xs \<longleftrightarrow> i < length xs \<and> (\<exists>x. xs ! i = Some x)"
  by (auto simp: occupied_def)

lemma flatten_empty_iff: "flatten xs = [] \<longleftrightarrow> occupied xs = {}"
  by (auto simp: flatten_eq_Nil_iff occupied_def all_set_conv_all_nth)

lemma all_None_iff: "(\<forall>m\<in>set xs. m = None) \<longleftrightarrow> occupied xs = {}"
  by (auto simp: occupied_def all_set_conv_all_nth)

lemma mset_flatten_Some:
  "i < length xs \<Longrightarrow> xs ! i = None \<Longrightarrow> mset (flatten (xs[i := Some x])) = add_mset x (mset (flatten xs))"
proof (induction xs arbitrary: i)
  case Nil
  then show ?case by simp
next
  case (Cons y ys)
  then show ?case by (cases i; cases y) auto
qed

lemma mset_flatten_None:
  "i < length xs \<Longrightarrow> xs ! i = Some x \<Longrightarrow> mset (flatten xs) = add_mset x (mset (flatten (xs[i := None])))"
proof (induction xs arbitrary: i)
  case Nil
  then show ?case by simp
next
  case (Cons y ys)
  then show ?case by (cases i; cases y) auto
qed

lemma map_flatten_update:
  "(\<And>x. xs ! i = Some x \<Longrightarrow> g (f x) = g x) \<Longrightarrow>
     map g (flatten (xs[i := map_option f (xs ! i)])) = map g (flatten xs)"
proof (induction xs arbitrary: i)
  case Nil
  then show ?case by simp
next
  case (Cons y ys)
  then show ?case by (cases i; cases y) auto
qed

lemma flatten_update_same: "xs ! i = None \<Longrightarrow> flatten (xs[i := None]) = flatten xs"
  by (metis list_update_id)

section \<open>Positions\<close>

definition slot_owner :: "u8 option list \<Rightarrow> nat \<Rightarrow> nat" where
  "slot_owner ps s = unat (the (ps ! s))"

definition placed :: "u8 option list \<Rightarrow> nat set \<Rightarrow> bool" where
  "placed ps U \<longleftrightarrow> bij_betw (slot_owner ps) (occupied ps) U"

lemma placed_card: "placed ps U \<Longrightarrow> card (occupied ps) = card U"
  by (auto simp: placed_def dest: bij_betw_same_card)

lemma placed_owner: "placed ps U \<Longrightarrow> s < length ps \<Longrightarrow> ps ! s = Some m \<Longrightarrow> unat m \<in> U"
  by (force simp: placed_def bij_betw_def occupied_def slot_owner_def)

lemma placed_inj: "placed ps U \<Longrightarrow> s < length ps \<Longrightarrow> s' < length ps \<Longrightarrow> ps ! s = Some m \<Longrightarrow> ps ! s' = Some m \<Longrightarrow> s = s'"
  by (auto simp: placed_def bij_betw_def inj_on_def occupied_def slot_owner_def)

lemma placed_slot:
  assumes "placed ps U" "i \<in> U" "i < 256"
  obtains s where "s < length ps" "ps ! s = Some (of_nat i)"
proof -
  from assms(1,2) obtain s where s: "s \<in> occupied ps" "slot_owner ps s = i"
    by (auto simp: placed_def bij_betw_def)
  then obtain m where m: "s < length ps" "ps ! s = Some m" "unat m = i"
    by (auto simp: occupied_iff slot_owner_def)
  have "m = of_nat i" unfolding m(3) [symmetric] by simp
  then show ?thesis using that [OF m(1)] m(2) by simp
qed

lemma placed_empty: "placed (replicate n None) {}"
  by (simp add: placed_def bij_betw_def)

lemma unat_of_nat_small: "i < 256 \<Longrightarrow> unat (of_nat i :: u8) = i"
  by (simp add: unat_of_nat)

lemma of_nat_u8_eq_iff: "i < 256 \<Longrightarrow> j < 256 \<Longrightarrow> (of_nat i :: u8) = of_nat j \<longleftrightarrow> i = j"
  by (metis unat_of_nat_small)

lemma placed_insert:
  assumes "placed ps U" "s < length ps" "ps ! s = None" "i \<notin> U" "i < 256"
  shows "placed (ps[s := Some (of_nat i)]) (insert i U)"
proof -
  let ?ps = "ps[s := Some (of_nat i)]"
  have s: "s \<notin> occupied ps" using assms by (auto simp: occupied_def)
  have "slot_owner ?ps a = slot_owner ps a" if "a \<in> occupied ps" for a
    using that s by (cases "a = s") (simp_all add: slot_owner_def)
  then have "bij_betw (slot_owner ?ps) (occupied ps) U"
    using assms(1) unfolding placed_def by (metis (no_types, lifting) bij_betw_cong)
  moreover have "slot_owner ?ps s = i"
    using assms by (simp add: slot_owner_def unat_of_nat_small)
  ultimately have "bij_betw (slot_owner ?ps) (insert s (occupied ps)) (insert i U)"
    using notIn_Un_bij_betw [of s "occupied ps" "slot_owner ?ps" U] s assms(4) by simp
  then show ?thesis
    using assms(2) by (simp add: placed_def occupied_Some)
qed

lemma placed_remove:
  assumes "placed ps U" "s < length ps" "ps ! s = Some m"
  shows "placed (ps[s := None]) (U - {unat m})"
proof -
  let ?ps = "ps[s := None]"
  have "s \<in> occupied ps" and m: "slot_owner ps s = unat m" using assms by (auto simp: occupied_iff slot_owner_def)
  then have "bij_betw (slot_owner ps) (occupied ps - {s}) (U - {unat m})"
    using assms(1) unfolding placed_def by (intro bij_betw_DiffI) (auto simp: bij_betw_def image_iff intro!: bexI [of _ s])
  then have "bij_betw (slot_owner ?ps) (occupied ps - {s}) (U - {unat m})"
    by (rule iffD1 [OF bij_betw_cong, rotated]) (auto simp: slot_owner_def)
  then show ?thesis
    by (simp add: placed_def occupied_None)
qed

lemma position_eq_Some_placed:
  assumes "placed ps U" "s < length ps" "ps ! s = Some m"
  shows "position (\<lambda>p. p = Some m) ps = Some s"
  using assms placed_inj [OF assms(1)] by (intro position_unique) auto

section \<open>Numbering\<close>

text \<open>\<open>numbered f A\<close>: \<open>f\<close> numbers the elements of \<open>A\<close> with 0, 1, ..., |A| - 1.\<close>

definition numbered :: "(nat \<Rightarrow> int) \<Rightarrow> nat set \<Rightarrow> bool" where
  "numbered f A \<longleftrightarrow> bij_betw f A (int ` {..<card A})"

lemma numbered_empty [simp]: "numbered f {}"
  by (simp add: numbered_def bij_betw_def)

lemma numbered_cong: "(\<And>i. i \<in> A \<Longrightarrow> f i = g i) \<Longrightarrow> numbered f A \<longleftrightarrow> numbered g A"
  unfolding numbered_def by (rule bij_betw_cong)

lemma numbered_insert:
  assumes "numbered f A" "finite A" "i \<notin> A" "g i = int (card A)" "\<And>j. j \<in> A \<Longrightarrow> g j = f j"
  shows "numbered g (insert i A)"
proof -
  have "bij_betw g A (int ` {..<card A})"
    using assms(1) assms(5) unfolding numbered_def by (metis (no_types, lifting) bij_betw_cong)
  moreover have "int (card A) \<notin> int ` {..<card A}" by auto
  ultimately have "bij_betw g (insert i A) (insert (int (card A)) (int ` {..<card A}))"
    using notIn_Un_bij_betw [of i A g "int ` {..<card A}"] assms(3,4) by auto
  then show ?thesis
    using assms(2,3) by (simp add: numbered_def lessThan_Suc)
qed

lemma numbered_list:
  assumes "distinct ids" "\<And>k. k < length ids \<Longrightarrow> f (ids ! k) = int k"
  shows "numbered f (set ids)"
proof -
  have "inj_on f (set ids)"
    using assms by (auto simp: inj_on_def in_set_conv_nth)
  moreover have "f ` set ids = int ` {..<length ids}"
    using assms(2) by (force simp: in_set_conv_nth image_iff)
  ultimately show ?thesis
    using assms(1) by (simp add: numbered_def bij_betw_def distinct_card)
qed

end
