(* ===== verification/RoomInv.thy ===== *)
theory RoomInv
  imports RoomState Slots Transition
begin

text \<open>
  The invariant of one protocol room and its preservation by every method of
  \<open>ProtocolRoomState\<close>.  It is the one the source asserts in debug builds
  (\<open>debug_assert_invariants\<close>), strengthened by what the expectations of the code
  rely on: each occupied member ID stands in exactly one physical slot and no
  slot holds anything else, users occur once, racers sit on their team's half,
  rankings number the racers, the master exists, and every string fits its
  packet field.
\<close>

section \<open>Layout\<close>

definition taken :: "protocol_room_state \<Rightarrow> nat set" where
  "taken room = occupied (members_by_id room) \<union> occupied (ais_by_id room) \<union> occupied (closed_slots_by_id room)"

definition room_arrays :: "protocol_room_state \<Rightarrow> bool" where
  "room_arrays room \<longleftrightarrow> length (members_by_id room) = 8 \<and> length (ais_by_id room) = 8
     \<and> length (closed_slots_by_id room) = 8 \<and> length (slot_positions room) = 8 \<and> length (observers room) = 8"

definition room_exclusive :: "protocol_room_state \<Rightarrow> bool" where
  "room_exclusive room \<longleftrightarrow> occupied (members_by_id room) \<inter> occupied (ais_by_id room) = {}
     \<and> occupied (members_by_id room) \<inter> occupied (closed_slots_by_id room) = {}
     \<and> occupied (ais_by_id room) \<inter> occupied (closed_slots_by_id room) = {}"

definition closed_linked :: "protocol_room_state \<Rightarrow> bool" where
  "closed_linked room \<longleftrightarrow> (\<forall>i<8. \<forall>c. closed_slots_by_id room ! i = Some c \<longrightarrow>
     unat c < 8 \<and> slot_positions room ! unat c = Some (of_nat i))"

definition room_layout :: "protocol_room_state \<Rightarrow> bool" where
  "room_layout room \<longleftrightarrow> room_arrays room \<and> room_exclusive room
     \<and> placed (slot_positions room) (taken room) \<and> closed_linked room"

section \<open>Users, teams, rankings, master, strings\<close>

definition room_users :: "protocol_room_state \<Rightarrow> bool" where
  "room_users room \<longleftrightarrow> distinct (user_nos room)
     \<and> (\<forall>m\<in>set (room_members room). user_no (prm_player m) = prm_user_no m)"

definition slot_team :: "protocol_room_state \<Rightarrow> nat \<Rightarrow> u8" where
  "slot_team room s = (if team_mode room then if s < 4 then 2 else 1 else 0)"

definition room_teams :: "protocol_room_state \<Rightarrow> bool" where
  "room_teams room \<longleftrightarrow> (\<forall>s<8. \<forall>i<8. slot_positions room ! s = Some (of_nat i) \<longrightarrow>
       (\<forall>m. members_by_id room ! i = Some m \<longrightarrow> team (prm_player m) = slot_team room s)
     \<and> (\<forall>a. ais_by_id room ! i = Some a \<longrightarrow> ai_team a = slot_team room s))"

definition room_states :: "protocol_room_state \<Rightarrow> bool" where
  "room_states room \<longleftrightarrow> (\<forall>m. Some m \<in> set (members_by_id room) \<longrightarrow> player_type (prm_player m) \<in> {2, 3})
     \<and> (\<forall>m. Some m \<in> set (observers room) \<longrightarrow> player_type (prm_player m) = 4 \<and> team (prm_player m) = 0)"

definition rank_at :: "protocol_room_member option list \<Rightarrow> nat \<Rightarrow> int" where
  "rank_at ms i = ranking (prm_player (the (ms ! i)))"

definition room_ranked :: "protocol_room_state \<Rightarrow> bool" where
  "room_ranked room \<longleftrightarrow> numbered (rank_at (members_by_id room)) (occupied (members_by_id room))"

definition room_mastered :: "protocol_room_state \<Rightarrow> bool" where
  "room_mastered room \<longleftrightarrow> room_is_empty room \<or> member_by_player_id (room_master room) room \<noteq> None
     \<or> (occupied (members_by_id room) = {} \<and> room_master room = 0)"

definition member_strings :: "protocol_room_member \<Rightarrow> bool" where
  "member_strings m \<longleftrightarrow> player_strings_ok (prm_player m)"

definition room_strings :: "protocol_room_state \<Rightarrow> bool" where
  "room_strings room \<longleftrightarrow> (\<forall>m. Some m \<in> set (members_by_id room) \<longrightarrow> member_strings m)
     \<and> (\<forall>m. Some m \<in> set (observers room) \<longrightarrow> length (encode_utf16 (nickname (prm_player m))) \<le> max_rider_nickname_units)"

text \<open>What holds between the steps of one method, and the invariant of a room at rest.\<close>

definition room_core :: "protocol_room_state \<Rightarrow> bool" where
  "room_core room \<longleftrightarrow> room_layout room \<and> room_users room \<and> room_teams room \<and> room_states room \<and> room_strings room"

definition room_inv :: "protocol_room_state \<Rightarrow> bool" where
  "room_inv room \<longleftrightarrow> room_core room \<and> room_ranked room \<and> room_mastered room"

lemma room_coreD:
  assumes "room_core room"
  shows "room_layout room" "room_users room" "room_teams room" "room_states room" "room_strings room"
  using assms by (simp_all add: room_core_def)

lemma room_invD:
  assumes "room_inv room"
  shows "room_core room" "room_ranked room" "room_mastered room"
  using assms by (simp_all add: room_inv_def)

lemma room_layoutI:
  "room_arrays room \<Longrightarrow> room_exclusive room \<Longrightarrow> placed (slot_positions room) (taken room) \<Longrightarrow> closed_linked room
     \<Longrightarrow> room_layout room"
  by (simp add: room_layout_def)

lemma room_layoutD:
  assumes "room_layout room"
  shows "length (members_by_id room) = 8" "length (ais_by_id room) = 8"
    "length (closed_slots_by_id room) = 8" "length (slot_positions room) = 8" "length (observers room) = 8"
    "room_exclusive room" "placed (slot_positions room) (taken room)" "closed_linked room"
  using assms by (simp_all add: room_layout_def room_arrays_def)

section \<open>Slots and member IDs\<close>

lemma taken_less: "room_layout room \<Longrightarrow> i \<in> taken room \<Longrightarrow> i < 8"
  by (auto simp: taken_def room_layout_def room_arrays_def dest: occupied_less)

lemma vacant_Some:
  assumes "vacant_member_id room = Some i"
  shows "i < 8 \<and> members_by_id room ! i = None \<and> ais_by_id room ! i = None \<and> closed_slots_by_id room ! i = None
    \<and> i \<notin> taken room"
  using find_SomeD [OF assms [unfolded vacant_member_id_def]]
  by (auto simp: taken_def occupied_def room_slot_count_def)

lemma vacant_None:
  assumes "room_layout room" "vacant_member_id room = None"
  shows "taken room = {..<8}"
proof -
  have "i \<in> taken room" if "i < 8" for i
    using assms(2) that room_layoutD(1-3) [OF assms(1)]
    by (auto simp: vacant_member_id_def find_None_iff taken_def occupied_def room_slot_count_def)
  then show ?thesis using taken_less [OF assms(1)] by auto
qed

lemma free_slot_Some: "free_slot room slots = Some s \<Longrightarrow> s \<in> set slots \<and> slot_positions room ! s = None"
  using find_SomeD [of "\<lambda>s. slot_positions room ! s = None" slots s] by (simp add: free_slot_def)

lemma free_slot_None: "free_slot room slots = None \<longleftrightarrow> (\<forall>s\<in>set slots. slot_positions room ! s \<noteq> None)"
  by (auto simp: free_slot_def find_None_iff)

text \<open>A member ID is vacant exactly when a physical slot is free.\<close>

lemma all_taken_iff_no_slot:
  assumes "room_layout room"
  shows "taken room = {..<8} \<longleftrightarrow> occupied (slot_positions room) = {..<8}"
proof -
  have sub: "taken room \<subseteq> {..<8}" "occupied (slot_positions room) \<subseteq> {..<8}"
    using taken_less [OF assms] room_layoutD(4) [OF assms] by (auto dest: occupied_less)
  have "Finite_Set.card (occupied (slot_positions room)) = Finite_Set.card (taken room)"
    using placed_card room_layoutD(7) [OF assms] by blast
  then show ?thesis
    using sub by (metis card_subset_eq finite_lessThan)
qed

lemma set_team_slots: "set blue_slots = {..<4}" "set red_slots = {4..<8}"
  by (auto simp: blue_slots_def red_slots_def room_slot_count_def)

lemma admission_Some:
  assumes "room_layout room" "admission_slot_and_team room = Some (s, t)"
  shows "s < 8 \<and> slot_positions room ! s = None \<and> t = slot_team room s"
proof (cases "team_mode room")
  case True
  then show ?thesis
    using assms(2) free_slot_Some [of room blue_slots] free_slot_Some [of room red_slots]
    by (auto simp: admission_slot_and_team_def Let_def set_team_slots slot_team_def
        split: if_splits option.splits)
next
  case False
  then show ?thesis
    using assms(2) room_layoutD(4) [OF assms(1)] position_SomeD [of "\<lambda>p. p = None" "slot_positions room" s]
    by (auto simp: admission_slot_and_team_def slot_team_def)
qed

lemma admission_None:
  assumes "room_layout room"
  shows "admission_slot_and_team room = None \<longleftrightarrow> occupied (slot_positions room) = {..<8}"
proof -
  have len: "length (slot_positions room) = 8" using room_layoutD(4) [OF assms] .
  have full: "occupied (slot_positions room) = {..<8} \<longleftrightarrow> (\<forall>s<8. slot_positions room ! s \<noteq> None)"
    using len by (auto simp: occupied_def)
  show ?thesis
  proof (cases "team_mode room")
    case True
    then have "admission_slot_and_team room = None \<longleftrightarrow>
        free_slot room blue_slots = None \<and> free_slot room red_slots = None"
      by (auto simp: admission_slot_and_team_def Let_def split: option.splits)
    also have "\<dots> \<longleftrightarrow> (\<forall>s<8. slot_positions room ! s \<noteq> None)"
      by (auto simp: free_slot_None set_team_slots)
    finally show ?thesis using full by simp
  next
    case False
    then show ?thesis
      using full len by (simp add: admission_slot_and_team_def position_None_iff all_set_conv_all_nth)
  qed
qed

lemma vacant_iff_admission:
  assumes "room_layout room"
  shows "vacant_member_id room = None \<longleftrightarrow> admission_slot_and_team room = None"
proof
  assume "vacant_member_id room = None"
  then show "admission_slot_and_team room = None"
    using vacant_None [OF assms] all_taken_iff_no_slot [OF assms] admission_None [OF assms] by blast
next
  assume "admission_slot_and_team room = None"
  then have "taken room = {..<8}"
    using all_taken_iff_no_slot [OF assms] admission_None [OF assms] by blast
  then show "vacant_member_id room = None"
    using vacant_Some [of room] by (cases "vacant_member_id room") auto
qed

section \<open>Members and player IDs\<close>

lemma member_by_player_id_int:
  "i < 8 \<Longrightarrow> member_by_player_id (int i) room = members_by_id room ! i"
  by (simp add: member_by_player_id_def room_slot_count_def)

lemma member_by_player_id_observer:
  "length (observers room) = 8 \<Longrightarrow> i < 8 \<Longrightarrow> member_by_player_id (8 + int i) room = observers room ! i"
  by (simp add: member_by_player_id_def room_slot_count_def nth_opt_def nat_add_distrib)

lemma member_by_player_id_cases:
  assumes "member_by_player_id p room = Some m" "length (observers room) = 8"
  obtains i where "i < 8" "p = int i" "members_by_id room ! i = Some m"
  | i where "i < 8" "p = 8 + int i" "observers room ! i = Some m"
proof (cases "p < 8")
  case True
  with assms(1) have "0 \<le> p" "members_by_id room ! nat p = Some m"
    by (auto simp: member_by_player_id_def room_slot_count_def split: if_splits)
  with True show ?thesis by (intro that(1) [of "nat p"]) auto
next
  case False
  with assms have "nat p - 8 < 8" "observers room ! (nat p - 8) = Some m"
    by (auto simp: member_by_player_id_def room_slot_count_def nth_opt_def split: if_splits)
  with False show ?thesis by (intro that(2) [of "nat p - 8"]) auto
qed

lemma room_is_empty_iff:
  "room_is_empty room \<longleftrightarrow> occupied (members_by_id room) = {} \<and> occupied (observers room) = {}"
  by (simp add: room_is_empty_def all_None_iff)

lemma user_nos_conv:
  "user_nos room = map prm_user_no (flatten (members_by_id room)) @ map prm_user_no (flatten (observers room))"
  by (simp add: user_nos_def room_members_def)

lemma room_members_set:
  "m \<in> set (room_members room) \<longleftrightarrow> Some m \<in> set (members_by_id room) \<or> Some m \<in> set (observers room)"
  by (simp add: room_members_def set_flatten)

lemma member_id_Some:
  assumes "member_id u room = Some i"
  shows "i < length (members_by_id room) \<and> (\<exists>m. members_by_id room ! i = Some m \<and> prm_user_no m = u)"
  using position_SomeD [OF assms [unfolded member_id_def]] by (auto simp: holds_user_def split: option.splits)

lemma observer_id_Some:
  assumes "observer_id u room = Some i"
  shows "i < length (observers room) \<and> (\<exists>m. observers room ! i = Some m \<and> prm_user_no m = u)"
  using position_SomeD [OF assms [unfolded observer_id_def]] by (auto simp: holds_user_def split: option.splits)

lemma position_holds_None:
  "position (holds_user u) xs = None \<longleftrightarrow> u \<notin> prm_user_no ` set (flatten xs)"
  by (auto simp: position_None_iff holds_user_def set_flatten image_iff split: option.splits)

lemma user_absent_iff:
  "member_id u room = None \<and> observer_id u room = None \<longleftrightarrow> u \<notin> set (user_nos room)"
  by (auto simp: member_id_def observer_id_def position_holds_None user_nos_conv)

section \<open>Steps that leave the seats alone\<close>

definition same_seats :: "protocol_room_state \<Rightarrow> protocol_room_state \<Rightarrow> bool" where
  "same_seats room room' \<longleftrightarrow> members_by_id room' = members_by_id room \<and> ais_by_id room' = ais_by_id room
     \<and> closed_slots_by_id room' = closed_slots_by_id room \<and> observers room' = observers room
     \<and> slot_positions room' = slot_positions room
     \<and> set_game_type (settings room') = set_game_type (settings room)"

lemmas room_core_defs = room_core_def room_layout_def room_arrays_def room_exclusive_def closed_linked_def
  taken_def room_users_def room_teams_def slot_team_def team_mode_def room_states_def room_strings_def

lemma same_seats_core: "same_seats room room' \<Longrightarrow> room_core room \<Longrightarrow> room_core room'"
  unfolding same_seats_def room_core_defs user_nos_def room_members_def by simp

lemma same_seats_inv:
  "same_seats room room' \<Longrightarrow> room_master room' = room_master room \<Longrightarrow> room_inv room \<Longrightarrow> room_inv room'"
  using same_seats_core [of room room']
  by (auto simp: room_inv_def room_ranked_def room_mastered_def same_seats_def room_is_empty_def
      member_by_player_id_def)

section \<open>Rewriting members in place\<close>

text \<open>\<open>seat_keeps K m m'\<close>: the member stays the same user on the same team, with a state of \<open>K\<close>.\<close>

definition seat_keeps :: "int set \<Rightarrow> protocol_room_member \<Rightarrow> protocol_room_member \<Rightarrow> bool" where
  "seat_keeps K m m' \<longleftrightarrow> prm_user_no m' = prm_user_no m \<and> user_no (prm_player m') = user_no (prm_player m)
     \<and> team (prm_player m') = team (prm_player m)
     \<and> (player_type (prm_player m) \<in> K \<longrightarrow> player_type (prm_player m') \<in> K)
     \<and> (player_strings_ok (prm_player m) \<longrightarrow> player_strings_ok (prm_player m'))
     \<and> nickname (prm_player m') = nickname (prm_player m)"

abbreviation rewritten :: "int set \<Rightarrow> protocol_room_member option list \<Rightarrow> protocol_room_member option list \<Rightarrow> bool" where
  "rewritten K \<equiv> list_all2 (rel_option (seat_keeps K))"

lemma seat_keeps_refl [simp]: "seat_keeps K m m"
  by (simp add: seat_keeps_def)

lemma rewritten_refl [simp]: "rewritten K ms ms"
  by (simp add: list_all2_refl option.rel_refl)

lemma seat_keeps_trans: "seat_keeps K a b \<Longrightarrow> seat_keeps K b c \<Longrightarrow> seat_keeps K a c"
  by (simp add: seat_keeps_def)

lemma rewritten_trans: "rewritten K as bs \<Longrightarrow> rewritten K bs cs \<Longrightarrow> rewritten K as cs"
proof (rule list_all2_trans)
  show "rel_option (seat_keeps K) a c" if "rel_option (seat_keeps K) a b" "rel_option (seat_keeps K) b c" for a b c
    using that by (cases a; cases b; cases c) (auto intro: seat_keeps_trans)
qed

lemma rewritten_update:
  "(\<And>m. ms ! i = Some m \<Longrightarrow> seat_keeps K m (f m)) \<Longrightarrow> rewritten K ms (update_slot f i ms)"
proof (rule list_all2_all_nthI)
  show "length ms = length (update_slot f i ms)" by (simp add: update_slot_def)
next
  fix j assume prems: "\<And>m. ms ! i = Some m \<Longrightarrow> seat_keeps K m (f m)" "j < length ms"
  show "rel_option (seat_keeps K) (ms ! j) (update_slot f i ms ! j)"
  proof (cases "j = i")
    case True
    with prems show ?thesis by (cases "ms ! i") (simp_all add: update_slot_def)
  next
    case False
    then show ?thesis by (simp add: update_slot_def option.rel_refl)
  qed
qed

lemma rewritten_length: "rewritten K ms ms' \<Longrightarrow> length ms' = length ms"
  by (simp add: list_all2_lengthD)

lemma rewritten_nth:
  assumes "rewritten K ms ms'"
  shows "i < length ms \<Longrightarrow> ms' ! i = Some m' \<Longrightarrow> \<exists>m. ms ! i = Some m \<and> seat_keeps K m m'"
    and "i < length ms \<Longrightarrow> ms ! i = Some m \<Longrightarrow> \<exists>m'. ms' ! i = Some m' \<and> seat_keeps K m m'"
    and "i < length ms \<Longrightarrow> ms' ! i = None \<longleftrightarrow> ms ! i = None"
  using assms list_all2_nthD [OF assms, of i] by (auto simp: rel_option_iff split: option.splits)

lemma rewritten_set:
  assumes "rewritten K ms ms'" "Some m' \<in> set ms'"
  shows "\<exists>m. Some m \<in> set ms \<and> seat_keeps K m m'"
  using assms rewritten_nth(1) [OF assms(1)] rewritten_length [OF assms(1)]
  by (metis in_set_conv_nth)

lemma rewritten_occupied: "rewritten K ms ms' \<Longrightarrow> occupied ms' = occupied ms"
  using rewritten_nth(3) rewritten_length by (fastforce simp: occupied_def)

lemma rewritten_map:
  "rewritten K ms ms' \<Longrightarrow> (\<And>m m'. seat_keeps K m m' \<Longrightarrow> g m' = g m) \<Longrightarrow> map g (flatten ms') = map g (flatten ms)"
proof (induction rule: list_all2_induct)
  case Nil
  then show ?case by simp
next
  case (Cons x xs y ys)
  then show ?case by (cases x; cases y) auto
qed

lemma rewritten_core:
  assumes "room_core room" "rewritten {2, 3} (members_by_id room) ms" "rewritten {4} (observers room) obs"
  shows "room_core (room\<lparr>members_by_id := ms, observers := obs\<rparr>)" (is "room_core ?room")
proof -
  note core = room_coreD [OF assms(1)]
  note occ = rewritten_occupied [OF assms(2)] rewritten_occupied [OF assms(3)]
  note len = rewritten_length [OF assms(2)] rewritten_length [OF assms(3)]
  have racer: "\<exists>m. Some m \<in> set (members_by_id room) \<and> seat_keeps {2, 3} m m'" if "Some m' \<in> set ms" for m'
    using rewritten_set [OF assms(2) that] .
  have watcher: "\<exists>m. Some m \<in> set (observers room) \<and> seat_keeps {4} m m'" if "Some m' \<in> set obs" for m'
    using rewritten_set [OF assms(3) that] .
  have "room_layout ?room"
    using core(1) by (simp add: room_layout_def room_arrays_def room_exclusive_def taken_def closed_linked_def occ len)
  moreover have "room_users ?room"
  proof -
    have "user_nos ?room = user_nos room"
      using rewritten_map [OF assms(2), of prm_user_no] rewritten_map [OF assms(3), of prm_user_no]
      by (simp add: user_nos_conv seat_keeps_def)
    moreover have "user_no (prm_player m') = prm_user_no m'" if "m' \<in> set (room_members ?room)" for m'
    proof -
      from that have "Some m' \<in> set ms \<or> Some m' \<in> set obs" by (simp add: room_members_set)
      with rewritten_set [OF assms(2), of m'] rewritten_set [OF assms(3), of m']
      obtain m K where "m \<in> set (room_members room)" "seat_keeps K m m'"
        by (auto simp: room_members_set)
      with core(2) show ?thesis by (auto simp: room_users_def seat_keeps_def)
    qed
    ultimately show ?thesis using core(2) by (simp add: room_users_def)
  qed
  moreover have "room_teams ?room"
    unfolding room_teams_def
  proof (intro allI impI conjI)
    fix s i assume *: "s < (8::nat)" "i < (8::nat)" "slot_positions ?room ! s = Some (of_nat i)"
    show "team (prm_player m') = slot_team ?room s" if "members_by_id ?room ! i = Some m'" for m'
    proof -
      from that obtain m where "members_by_id room ! i = Some m" "seat_keeps {2, 3} m m'"
        using rewritten_nth(1) [OF assms(2), of i m'] * room_layoutD(1) [OF core(1)] by auto
      with * core(3) show ?thesis
        by (auto simp: room_teams_def seat_keeps_def slot_team_def team_mode_def)
    qed
    show "ai_team a = slot_team ?room s" if "ais_by_id ?room ! i = Some a" for a
      using that * core(3) by (auto simp: room_teams_def slot_team_def team_mode_def)
  qed
  moreover have "room_states ?room"
    unfolding room_states_def
  proof (intro conjI allI impI)
    show "player_type (prm_player m') \<in> {2, 3}" if "Some m' \<in> set (members_by_id ?room)" for m'
      using racer [of m'] that core(4) unfolding room_states_def seat_keeps_def by simp metis
    show "player_type (prm_player m') = 4" "team (prm_player m') = 0" if "Some m' \<in> set (observers ?room)" for m'
      using watcher [of m'] that core(4) unfolding room_states_def seat_keeps_def by auto
  qed
  moreover have "room_strings ?room"
    unfolding room_strings_def
  proof (intro conjI allI impI)
    show "member_strings m'" if "Some m' \<in> set (members_by_id ?room)" for m'
      using racer [of m'] that core(5) unfolding room_strings_def seat_keeps_def member_strings_def by auto
    show "length (encode_utf16 (nickname (prm_player m'))) \<le> max_rider_nickname_units"
      if "Some m' \<in> set (observers ?room)" for m'
      using watcher [of m'] that core(5) unfolding room_strings_def seat_keeps_def by auto
  qed
  ultimately show ?thesis by (simp add: room_core_def)
qed

lemma rewritten_mastered:
  assumes "room_mastered room" "room_arrays room"
    and "rewritten {2, 3} (members_by_id room) ms" "rewritten {4} (observers room) obs"
  shows "room_mastered (room\<lparr>members_by_id := ms, observers := obs\<rparr>)"
proof -
  have "member_by_player_id p (room\<lparr>members_by_id := ms, observers := obs\<rparr>) = None \<longleftrightarrow> member_by_player_id p room = None" for p
    using rewritten_nth(3) [OF assms(3)] rewritten_nth(3) [OF assms(4)] assms(2)
      rewritten_length [OF assms(3)] rewritten_length [OF assms(4)]
    by (auto simp: member_by_player_id_def nth_opt_def room_arrays_def room_slot_count_def)
  then show ?thesis
    using assms(1) rewritten_occupied [OF assms(3)] rewritten_occupied [OF assms(4)]
    by (auto simp: room_mastered_def room_is_empty_iff)
qed

end
