(* ===== verification/RoomOps.thy ===== *)
theory RoomOps
  imports RoomInv
begin

text \<open>
  Every method of \<open>ProtocolRoomState\<close> keeps the invariant of a room.  Seating and
  clearing a member ID together with its slot is proved once for the layout and
  used for racers, AI racers and closed slots.
\<close>

section \<open>Seating and clearing\<close>

lemma layout_place:
  assumes "room_layout room" "i < 8" "i \<notin> taken room" "s < 8" "slot_positions room ! s = None"
    and "room_arrays room'" "room_exclusive room'" "taken room' = insert i (taken room)"
    and "slot_positions room' = (slot_positions room)[s := Some (of_nat i)]"
    and "\<And>j c. j < 8 \<Longrightarrow> closed_slots_by_id room' ! j = Some c \<Longrightarrow>
           closed_slots_by_id room ! j = Some c \<or> (j = i \<and> c = of_nat s)"
  shows "room_layout room'"
proof (rule room_layoutI)
  note layout = room_layoutD [OF assms(1)]
  show "placed (slot_positions room') (taken room')"
    using placed_insert [OF layout(7), of s i] assms(2-5) layout(4) by (simp add: assms(8,9))
  show "closed_linked room'"
    unfolding closed_linked_def
  proof (intro allI impI)
    fix j c assume j: "j < (8::nat)" "closed_slots_by_id room' ! j = Some c"
    consider "closed_slots_by_id room ! j = Some c" | "j = i" "c = of_nat s" using assms(10) [OF j] by blast
    then show "unat c < 8 \<and> slot_positions room' ! unat c = Some (of_nat j)"
    proof cases
      case 1
      with layout(8) j(1) have "unat c < 8" "slot_positions room ! unat c = Some (of_nat j)"
        by (auto simp: closed_linked_def)
      moreover from this(2) assms(5) have "unat c \<noteq> s" by auto
      ultimately show ?thesis by (simp add: assms(9))
    next
      case 2
      with assms(4) layout(4) show ?thesis by (simp add: assms(9) unat_of_nat_small)
    qed
  qed
qed (use assms in simp_all)

lemma layout_clear:
  assumes "room_layout room" "i < 8" "s < 8" "slot_positions room ! s = Some (of_nat i)"
    and "room_arrays room'" "room_exclusive room'" "taken room' = taken room - {i}"
    and "slot_positions room' = (slot_positions room)[s := None]"
    and "\<And>j c. j < 8 \<Longrightarrow> closed_slots_by_id room' ! j = Some c \<Longrightarrow> closed_slots_by_id room ! j = Some c \<and> j \<noteq> i"
  shows "room_layout room'"
proof (rule room_layoutI)
  note layout = room_layoutD [OF assms(1)]
  show "placed (slot_positions room') (taken room')"
    using placed_remove [OF layout(7) _ assms(4)] assms(2,3) layout(4)
    by (simp add: assms(7,8) unat_of_nat_small)
  show "closed_linked room'"
    unfolding closed_linked_def
  proof (intro allI impI)
    fix j c assume j: "j < (8::nat)" "closed_slots_by_id room' ! j = Some c"
    with assms(9) have "closed_slots_by_id room ! j = Some c" "j \<noteq> i" by auto
    with layout(8) j(1) have c: "unat c < 8" "slot_positions room ! unat c = Some (of_nat j)"
      by (auto simp: closed_linked_def)
    with assms(2,4) j(1) \<open>j \<noteq> i\<close> have "unat c \<noteq> s" by (auto simp: of_nat_u8_eq_iff)
    with c show "unat c < 8 \<and> slot_positions room' ! unat c = Some (of_nat j)"
      by (simp add: assms(8))
  qed
qed (use assms in simp_all)

text \<open>What a slot holds after the update, for the team condition.\<close>

lemma slot_after_place:
  assumes "room_layout room" "i < 8" "i \<notin> taken room" "s < 8" "slot_positions room ! s = None"
    and "s' < 8" "i' < 8" "(slot_positions room)[s := Some (of_nat i)] ! s' = Some (of_nat i')"
  shows "(s' = s \<and> i' = i) \<or> (s' \<noteq> s \<and> i' \<noteq> i \<and> slot_positions room ! s' = Some (of_nat i'))"
proof (cases "s' = s")
  case True
  with assms room_layoutD(4) [OF assms(1)] show ?thesis by (auto simp: of_nat_u8_eq_iff)
next
  case False
  with assms(8) have "slot_positions room ! s' = Some (of_nat i')" by simp
  moreover from this have "i' \<in> taken room"
    using placed_owner [OF room_layoutD(7) [OF assms(1)]] room_layoutD(4) [OF assms(1)] assms(6,7)
    by (force simp: unat_of_nat_small)
  ultimately show ?thesis using False assms(3) by auto
qed

lemma not_takenD:
  assumes "room_layout room" "i < 8" "i \<notin> taken room"
  shows "members_by_id room ! i = None" "ais_by_id room ! i = None" "closed_slots_by_id room ! i = None"
    "i \<notin> occupied (members_by_id room)" "i \<notin> occupied (ais_by_id room)" "i \<notin> occupied (closed_slots_by_id room)"
  using assms room_layoutD [OF assms(1)] by (auto simp: taken_def occupied_def)

lemma distinct_user_nos_add:
  assumes "distinct (user_nos room)" "prm_user_no m \<notin> set (user_nos room)"
    and "mset (user_nos room') = add_mset (prm_user_no m) (mset (user_nos room))"
  shows "distinct (user_nos room')"
proof -
  have "mset (user_nos room') = mset (prm_user_no m # user_nos room)" using assms(3) by simp
  then show ?thesis using mset_eq_imp_distinct_iff assms(1,2) by (metis distinct.simps(2))
qed

lemma mset_user_nos_racer:
  assumes "i < length (members_by_id room)" "members_by_id room ! i = None"
    and "members_by_id room' = (members_by_id room)[i := Some m]" "observers room' = observers room"
  shows "mset (user_nos room') = add_mset (prm_user_no m) (mset (user_nos room))"
  using assms mset_flatten_Some [OF assms(1,2)] by (simp add: user_nos_conv)

lemma mset_user_nos_observer:
  assumes "i < length (observers room)" "observers room ! i = None"
    and "observers room' = (observers room)[i := Some m]" "members_by_id room' = members_by_id room"
  shows "mset (user_nos room') = add_mset (prm_user_no m) (mset (user_nos room))"
  using assms mset_flatten_Some [OF assms(1,2)] by (simp add: user_nos_conv)

lemma Some_in_set_update: "Some m \<in> set (xs[i := Some x]) \<Longrightarrow> m = x \<or> Some m \<in> set xs"
  using set_update_subset_insert [of xs i "Some x"] by auto

lemma Some_in_set_clear: "Some m \<in> set (xs[i := None]) \<Longrightarrow> Some m \<in> set xs"
  using set_update_subset_insert [of xs i None] by auto

lemma place_racer_core:
  assumes core: "room_core room" and ids: "i < 8" "i \<notin> taken room" "s < 8" "slot_positions room ! s = None"
    and new: "prm_user_no m \<notin> set (user_nos room)" "user_no (prm_player m) = prm_user_no m"
    and seat: "team (prm_player m) = slot_team room s" "player_type (prm_player m) \<in> {2, 3}" "member_strings m"
  shows "room_core (room\<lparr>members_by_id := (members_by_id room)[i := Some m],
           slot_positions := (slot_positions room)[s := Some (of_nat i)]\<rparr>)" (is "room_core ?room")
proof -
  note c = room_coreD [OF core]
  note free = not_takenD [OF c(1) ids(1,2)]
  note layout = room_layoutD [OF c(1)]
  have "room_layout ?room"
  proof (rule layout_place [OF c(1) ids])
    show "taken ?room = insert i (taken room)"
      using layout(1) ids(1) by (simp add: taken_def slot_simps)
    show "room_exclusive ?room"
      using layout(1,6) ids(1) free by (simp add: room_exclusive_def slot_simps)
  qed (use layout in \<open>simp_all add: room_arrays_def\<close>)
  moreover have "room_users ?room"
    using c(2) new distinct_user_nos_add [of room m ?room] mset_user_nos_racer [of i room ?room m] layout(1) ids(1) free(1)
    by (auto simp: room_users_def room_members_set dest!: Some_in_set_update)
  moreover have "room_teams ?room"
    unfolding room_teams_def
  proof (intro allI impI)
    fix s' i' assume *: "s' < (8::nat)" "i' < (8::nat)" "slot_positions ?room ! s' = Some (of_nat i')"
    have "slot_team ?room s' = slot_team room s'" by (simp add: slot_team_def team_mode_def)
    then show "(\<forall>m. members_by_id ?room ! i' = Some m \<longrightarrow> team (prm_player m) = slot_team ?room s')
        \<and> (\<forall>a. ais_by_id ?room ! i' = Some a \<longrightarrow> ai_team a = slot_team ?room s')"
      using slot_after_place [OF c(1) ids, of s' i'] * c(3) free(2) seat(1) layout(1)
      by (auto simp: room_teams_def)
  qed
  moreover have "room_states ?room"
    using c(4) seat(2) unfolding room_states_def by (auto dest!: Some_in_set_update)
  moreover have "room_strings ?room"
    using c(5) seat(3) unfolding room_strings_def by (auto dest!: Some_in_set_update)
  ultimately show ?thesis by (simp add: room_core_def)
qed

lemma place_observer_core:
  assumes core: "room_core room" and id: "i < 8" "observers room ! i = None"
    and new: "prm_user_no m \<notin> set (user_nos room)" "user_no (prm_player m) = prm_user_no m"
    and seat: "team (prm_player m) = 0" "player_type (prm_player m) = 4"
      "length (encode_utf16 (nickname (prm_player m))) \<le> max_rider_nickname_units"
  shows "room_core (room\<lparr>observers := (observers room)[i := Some m]\<rparr>)" (is "room_core ?room")
proof -
  note c = room_coreD [OF core]
  note layout = room_layoutD [OF c(1)]
  have "room_layout ?room"
    using c(1) by (simp add: room_layout_def room_arrays_def room_exclusive_def taken_def closed_linked_def)
  moreover have "room_users ?room"
    using c(2) new distinct_user_nos_add [of room m ?room] mset_user_nos_observer [of i room ?room m] layout(5) id
    by (auto simp: room_users_def room_members_set dest!: Some_in_set_update)
  moreover have "room_teams ?room"
    using c(3) by (simp add: room_teams_def slot_team_def team_mode_def)
  moreover have "room_states ?room"
    using c(4) seat unfolding room_states_def by (auto dest!: Some_in_set_update)
  moreover have "room_strings ?room"
    using c(5) seat(3) unfolding room_strings_def by (auto dest!: Some_in_set_update)
  ultimately show ?thesis by (simp add: room_core_def)
qed

lemma place_ai_core:
  assumes core: "room_core room" and ids: "i < 8" "i \<notin> taken room" "s < 8" "slot_positions room ! s = None"
    and seat: "ai_team a = slot_team room s"
  shows "room_core (room\<lparr>ais_by_id := (ais_by_id room)[i := Some a],
           slot_positions := (slot_positions room)[s := Some (of_nat i)]\<rparr>)" (is "room_core ?room")
proof -
  note c = room_coreD [OF core]
  note free = not_takenD [OF c(1) ids(1,2)]
  note layout = room_layoutD [OF c(1)]
  have "room_layout ?room"
  proof (rule layout_place [OF c(1) ids])
    show "taken ?room = insert i (taken room)"
      using layout(2) ids(1) by (auto simp: taken_def slot_simps)
    show "room_exclusive ?room"
      using layout(2,6) ids(1) free by (simp add: room_exclusive_def slot_simps)
  qed (use layout in \<open>simp_all add: room_arrays_def\<close>)
  moreover have "room_teams ?room"
    unfolding room_teams_def
  proof (intro allI impI)
    fix s' i' assume *: "s' < (8::nat)" "i' < (8::nat)" "slot_positions ?room ! s' = Some (of_nat i')"
    have "slot_team ?room s' = slot_team room s'" by (simp add: slot_team_def team_mode_def)
    then show "(\<forall>m. members_by_id ?room ! i' = Some m \<longrightarrow> team (prm_player m) = slot_team ?room s')
        \<and> (\<forall>a. ais_by_id ?room ! i' = Some a \<longrightarrow> ai_team a = slot_team ?room s')"
      using slot_after_place [OF c(1) ids, of s' i'] * c(3) free(1) seat(1) layout(2)
      by (auto simp: room_teams_def)
  qed
  ultimately show ?thesis
    using c by (simp add: room_core_def room_users_def room_states_def room_strings_def user_nos_def room_members_def)
qed

lemma close_slot_core:
  assumes core: "room_core room" and ids: "i < 8" "i \<notin> taken room" "s < 8" "slot_positions room ! s = None"
  shows "room_core (room\<lparr>closed_slots_by_id := (closed_slots_by_id room)[i := Some (of_nat s)],
           slot_positions := (slot_positions room)[s := Some (of_nat i)]\<rparr>)" (is "room_core ?room")
proof -
  note c = room_coreD [OF core]
  note free = not_takenD [OF c(1) ids(1,2)]
  note layout = room_layoutD [OF c(1)]
  have "room_layout ?room"
  proof (rule layout_place [OF c(1) ids])
    show "taken ?room = insert i (taken room)"
      using layout(3) ids(1) by (auto simp: taken_def slot_simps)
    show "room_exclusive ?room"
      using layout(3,6) ids(1) free by (simp add: room_exclusive_def slot_simps)
    show "closed_slots_by_id room ! j = Some k \<or> j = i \<and> k = of_nat s"
      if "j < 8" "closed_slots_by_id ?room ! j = Some k" for j k
      using that layout(3) by (cases "j = i") auto
  qed (use layout in \<open>simp_all add: room_arrays_def\<close>)
  moreover have "room_teams ?room"
    unfolding room_teams_def
  proof (intro allI impI)
    fix s' i' assume *: "s' < (8::nat)" "i' < (8::nat)" "slot_positions ?room ! s' = Some (of_nat i')"
    have "slot_team ?room s' = slot_team room s'" by (simp add: slot_team_def team_mode_def)
    then show "(\<forall>m. members_by_id ?room ! i' = Some m \<longrightarrow> team (prm_player m) = slot_team ?room s')
        \<and> (\<forall>a. ais_by_id ?room ! i' = Some a \<longrightarrow> ai_team a = slot_team ?room s')"
      using slot_after_place [OF c(1) ids, of s' i'] * c(3) free(1,2)
      by (auto simp: room_teams_def)
  qed
  ultimately show ?thesis
    using c by (simp add: room_core_def room_users_def room_states_def room_strings_def user_nos_def room_members_def)
qed

section \<open>Clearing\<close>

lemma cleared_nth: "j < length xs \<Longrightarrow> xs[i := None] ! j = Some x \<Longrightarrow> j \<noteq> i \<and> xs ! j = Some x"
  by (cases "j = i") auto

lemma teams_shrink:
  assumes "room_teams room" "set_game_type (settings room') = set_game_type (settings room)"
    and "\<And>s m. s < 8 \<Longrightarrow> slot_positions room' ! s = Some m \<Longrightarrow> slot_positions room ! s = Some m"
    and "\<And>i m. i < 8 \<Longrightarrow> members_by_id room' ! i = Some m \<Longrightarrow> members_by_id room ! i = Some m"
    and "\<And>i a. i < 8 \<Longrightarrow> ais_by_id room' ! i = Some a \<Longrightarrow> ais_by_id room ! i = Some a"
  shows "room_teams room'"
  unfolding room_teams_def
proof (intro allI impI)
  fix s i assume *: "s < (8::nat)" "i < (8::nat)" "slot_positions room' ! s = Some (of_nat i)"
  have "slot_team room' s = slot_team room s" using assms(2) by (simp add: slot_team_def team_mode_def)
  moreover have "slot_positions room ! s = Some (of_nat i)" using assms(3) * by blast
  ultimately show "(\<forall>m. members_by_id room' ! i = Some m \<longrightarrow> team (prm_player m) = slot_team room' s)
      \<and> (\<forall>a. ais_by_id room' ! i = Some a \<longrightarrow> ai_team a = slot_team room' s)"
    using assms(1,4,5) * unfolding room_teams_def by metis
qed

lemma mset_user_nos_clear_racer:
  assumes "i < length (members_by_id room)" "members_by_id room ! i = Some m"
    and "members_by_id room' = (members_by_id room)[i := None]" "observers room' = observers room"
  shows "mset (user_nos room) = add_mset (prm_user_no m) (mset (user_nos room'))"
  using assms mset_flatten_None [OF assms(1,2)] by (simp add: user_nos_conv)

lemma mset_user_nos_clear_observer:
  assumes "i < length (observers room)" "observers room ! i = Some m"
    and "observers room' = (observers room)[i := None]" "members_by_id room' = members_by_id room"
  shows "mset (user_nos room) = add_mset (prm_user_no m) (mset (user_nos room'))"
  using assms mset_flatten_None [OF assms(1,2)] by (simp add: user_nos_conv)

lemma distinct_user_nos_clear:
  assumes "distinct (user_nos room)" "mset (user_nos room) = add_mset u (mset (user_nos room'))"
  shows "distinct (user_nos room')" "u \<notin> set (user_nos room')" "set (user_nos room') = set (user_nos room) - {u}"
proof -
  have "mset (user_nos room) = mset (u # user_nos room')" using assms(2) by simp
  then have *: "distinct (u # user_nos room')" "set (user_nos room) = set (u # user_nos room')"
    using mset_eq_imp_distinct_iff assms(1) mset_eq_setD by (metis, metis)
  then show "distinct (user_nos room')" "u \<notin> set (user_nos room')" by auto
  then show "set (user_nos room') = set (user_nos room) - {u}" using * by auto
qed

lemma clear_racer_core:
  assumes core: "room_core room" and ids: "i < 8" "s < 8" "slot_positions room ! s = Some (of_nat i)"
    and m: "members_by_id room ! i = Some m"
  shows "room_core (room\<lparr>members_by_id := (members_by_id room)[i := None],
           slot_positions := (slot_positions room)[s := None]\<rparr>)" (is "room_core ?room")
proof -
  note c = room_coreD [OF core]
  note layout = room_layoutD [OF c(1)]
  have occ: "i \<in> occupied (members_by_id room)" using m layout(1) ids(1) by (simp add: occupied_def)
  then have free: "i \<notin> occupied (ais_by_id room)" "i \<notin> occupied (closed_slots_by_id room)"
    using layout(6) by (auto simp: room_exclusive_def)
  have "room_layout ?room"
  proof (rule layout_clear [OF c(1) ids])
    show "taken ?room = taken room - {i}"
      using free by (auto simp: taken_def slot_simps)
    show "room_exclusive ?room"
      using layout(6) by (auto simp: room_exclusive_def slot_simps)
    show "closed_slots_by_id room ! j = Some k \<and> j \<noteq> i" if "j < 8" "closed_slots_by_id ?room ! j = Some k" for j k
      using that free(2) layout(3) by (auto simp: occupied_def)
  qed (use layout in \<open>simp_all add: room_arrays_def\<close>)
  moreover have "room_users ?room"
    using c(2) distinct_user_nos_clear(1) [of room "prm_user_no m" ?room]
      mset_user_nos_clear_racer [of i room m ?room] layout(1) ids(1) m
    by (auto simp: room_users_def room_members_set dest!: Some_in_set_clear)
  moreover have "room_teams ?room"
    by (rule teams_shrink [OF c(3)]) (use layout(1,4) in \<open>auto dest!: cleared_nth [rotated]\<close>)
  moreover have "room_states ?room"
    using c(4) unfolding room_states_def by (auto dest!: Some_in_set_clear)
  moreover have "room_strings ?room"
    using c(5) unfolding room_strings_def by (auto dest!: Some_in_set_clear)
  ultimately show ?thesis by (simp add: room_core_def)
qed

lemma clear_observer_core:
  assumes core: "room_core room" and i: "i < 8" "observers room ! i = Some m"
  shows "room_core (room\<lparr>observers := (observers room)[i := None]\<rparr>)" (is "room_core ?room")
proof -
  note c = room_coreD [OF core]
  note layout = room_layoutD [OF c(1)]
  have "room_layout ?room"
    using c(1) by (simp add: room_layout_def room_arrays_def room_exclusive_def taken_def closed_linked_def)
  moreover have "room_users ?room"
    using c(2) distinct_user_nos_clear(1) [of room "prm_user_no m" ?room]
      mset_user_nos_clear_observer [of i room m ?room] layout(5) i
    by (auto simp: room_users_def room_members_set dest!: Some_in_set_clear)
  moreover have "room_teams ?room"
    using c(3) by (simp add: room_teams_def slot_team_def team_mode_def)
  moreover have "room_states ?room"
    using c(4) unfolding room_states_def by (auto dest!: Some_in_set_clear)
  moreover have "room_strings ?room"
    using c(5) unfolding room_strings_def by (auto dest!: Some_in_set_clear)
  ultimately show ?thesis by (simp add: room_core_def)
qed

lemma clear_ai_core:
  assumes core: "room_core room" and ids: "i < 8" "s < 8" "slot_positions room ! s = Some (of_nat i)"
    and a: "ais_by_id room ! i = Some a"
  shows "room_core (room\<lparr>ais_by_id := (ais_by_id room)[i := None],
           slot_positions := (slot_positions room)[s := None]\<rparr>)" (is "room_core ?room")
proof -
  note c = room_coreD [OF core]
  note layout = room_layoutD [OF c(1)]
  have "i \<in> occupied (ais_by_id room)" using a layout(2) ids(1) by (simp add: occupied_def)
  then have free: "i \<notin> occupied (members_by_id room)" "i \<notin> occupied (closed_slots_by_id room)"
    using layout(6) by (auto simp: room_exclusive_def)
  have "room_layout ?room"
  proof (rule layout_clear [OF c(1) ids])
    show "taken ?room = taken room - {i}"
      using free by (auto simp: taken_def slot_simps)
    show "room_exclusive ?room"
      using layout(6) by (auto simp: room_exclusive_def slot_simps)
    show "closed_slots_by_id room ! j = Some k \<and> j \<noteq> i" if "j < 8" "closed_slots_by_id ?room ! j = Some k" for j k
      using that free(2) layout(3) by (auto simp: occupied_def)
  qed (use layout in \<open>simp_all add: room_arrays_def\<close>)
  moreover have "room_teams ?room"
    by (rule teams_shrink [OF c(3)]) (use layout(2,4) in \<open>auto dest!: cleared_nth [rotated]\<close>)
  ultimately show ?thesis
    using c by (simp add: room_core_def room_users_def room_states_def room_strings_def user_nos_def room_members_def)
qed

lemma open_slot_core:
  assumes core: "room_core room" and ids: "i < 8" "s < 8" "slot_positions room ! s = Some (of_nat i)"
    and a: "closed_slots_by_id room ! i = Some k"
  shows "room_core (room\<lparr>closed_slots_by_id := (closed_slots_by_id room)[i := None],
           slot_positions := (slot_positions room)[s := None]\<rparr>)" (is "room_core ?room")
proof -
  note c = room_coreD [OF core]
  note layout = room_layoutD [OF c(1)]
  have "i \<in> occupied (closed_slots_by_id room)" using a layout(3) ids(1) by (simp add: occupied_def)
  then have free: "i \<notin> occupied (members_by_id room)" "i \<notin> occupied (ais_by_id room)"
    using layout(6) by (auto simp: room_exclusive_def)
  have "room_layout ?room"
  proof (rule layout_clear [OF c(1) ids])
    show "taken ?room = taken room - {i}"
      using free by (auto simp: taken_def slot_simps)
    show "room_exclusive ?room"
      using layout(6) by (auto simp: room_exclusive_def slot_simps)
    show "closed_slots_by_id room ! j = Some k' \<and> j \<noteq> i" if "j < 8" "closed_slots_by_id ?room ! j = Some k'" for j k'
      using cleared_nth [of j "closed_slots_by_id room" i k'] that layout(3) by simp
  qed (use layout in \<open>simp_all add: room_arrays_def\<close>)
  moreover have "room_teams ?room"
    by (rule teams_shrink [OF c(3)]) (use layout(4) in \<open>auto dest!: cleared_nth [rotated]\<close>)
  ultimately show ?thesis
    using c by (simp add: room_core_def room_users_def room_states_def room_strings_def user_nos_def room_members_def)
qed

section \<open>Rankings\<close>

lemma set_player_simps [simp]:
  "prm_user_no (set_player f m) = prm_user_no m" "prm_player (set_player f m) = f (prm_player m)"
  "prm_kart_physics (set_player f m) = prm_kart_physics m"
  "prm_kart_physics_variants (set_player f m) = prm_kart_physics_variants m"
  "prm_floater_codes (set_player f m) = prm_floater_codes m"
  by (simp_all add: set_player_def)

lemma map_snd_keyed_members:
  "map snd (keyed_members key ms) = filter (\<lambda>i. \<exists>m. ms ! i = Some m \<and> key i m \<noteq> None) [0..<length ms]"
proof -
  have "map snd (List.map_filter (\<lambda>i. case ms ! i of None \<Rightarrow> None | Some m \<Rightarrow> map_option (\<lambda>k. (k, i)) (key i m)) is)
    = filter (\<lambda>i. \<exists>m. ms ! i = Some m \<and> key i m \<noteq> None) is" for "is"
    by (induction "is") (auto simp: List.map_filter_simps split: option.splits)
  then show ?thesis by (simp add: keyed_members_def)
qed

lemma sorted_members_ids:
  fixes key :: "nat \<Rightarrow> protocol_room_member \<Rightarrow> 'k::linorder option"
  shows "distinct (map snd (sort (keyed_members key ms)))"
    and "set (map snd (sort (keyed_members key ms))) = {i\<in>occupied ms. \<exists>m. ms ! i = Some m \<and> key i m \<noteq> None}"
proof -
  have "mset (map snd (sort (keyed_members key ms))) = mset (map snd (keyed_members key ms))"
    unfolding mset_map by simp
  then have *: "distinct (map snd (sort (keyed_members key ms))) \<longleftrightarrow> distinct (map snd (keyed_members key ms))"
    "set (map snd (sort (keyed_members key ms))) = set (map snd (keyed_members key ms))"
    by (rule mset_eq_imp_distinct_iff, rule mset_eq_setD)
  show "distinct (map snd (sort (keyed_members key ms)))"
    unfolding *(1) by (simp add: map_snd_keyed_members)
  show "set (map snd (sort (keyed_members key ms))) = {i\<in>occupied ms. \<exists>m. ms ! i = Some m \<and> key i m \<noteq> None}"
    unfolding *(2) by (auto simp: map_snd_keyed_members occupied_def)
qed

lemma number_rankings_length [simp]: "length (number_rankings k ids ms) = length ms"
  by (induction k ids ms rule: number_rankings.induct) (simp_all add: update_slot_def)

lemma number_rankings_other: "i \<notin> set ids \<Longrightarrow> number_rankings k ids ms ! i = ms ! i"
  by (induction k ids ms rule: number_rankings.induct) (auto simp: update_slot_def)

lemma number_rankings_nth:
  "distinct ids \<Longrightarrow> \<forall>i\<in>set ids. i < length ms \<Longrightarrow> j < length ids \<Longrightarrow>
     number_rankings k ids ms ! (ids ! j) = map_option (set_player (ranking_update (\<lambda>_. int (k + j)))) (ms ! (ids ! j))"
proof (induction k ids ms arbitrary: j rule: number_rankings.induct)
  case (1 k ms)
  then show ?case by simp
next
  case (2 k i ids ms)
  show ?case
  proof (cases j)
    case 0
    with 2 show ?thesis by (simp add: number_rankings_other update_slot_def)
  next
    case (Suc j')
    with 2 show ?thesis by (simp add: update_slot_def nth_eq_iff_index_eq) (metis nth_mem nth_list_update_neq)
  qed
qed

lemma number_rankings_rewritten: "rewritten K ms (number_rankings k ids ms)"
proof (induction k ids ms rule: number_rankings.induct)
  case (1 k ms)
  then show ?case by simp
next
  case (2 k i ids ms)
  have "rewritten K ms (update_slot (set_player (ranking_update (\<lambda>_. int k))) i ms)"
    by (rule rewritten_update) (simp add: seat_keeps_def player_strings_ok_def)
  with 2 show ?case by (auto intro: rewritten_trans)
qed

lemma number_rankings_numbered:
  assumes "distinct ids" "set ids = occupied ms"
  shows "numbered (rank_at (number_rankings 0 ids ms)) (occupied (number_rankings 0 ids ms))"
proof -
  have bound: "\<forall>i\<in>set ids. i < length ms" using assms(2) by (auto dest: occupied_less)
  have "rank_at (number_rankings 0 ids ms) (ids ! k) = int k" if k: "k < length ids" for k
  proof -
    have "ids ! k \<in> occupied ms" using assms(2) k nth_mem by blast
    then obtain m where "ms ! (ids ! k) = Some m" by (auto simp: occupied_def)
    with number_rankings_nth [OF assms(1) bound k, of 0] show ?thesis by (simp add: rank_at_def)
  qed
  then have "numbered (rank_at (number_rankings 0 ids ms)) (set ids)"
    using assms(1) by (intro numbered_list) simp_all
  moreover have "occupied (number_rankings 0 ids ms) = set ids"
    using rewritten_occupied [OF number_rankings_rewritten] assms(2) by simp
  ultimately show ?thesis by simp
qed

text \<open>Renumbering keeps the seats; with a key for every member it numbers all of them.\<close>

definition renumbered :: "(nat \<Rightarrow> protocol_room_member \<Rightarrow> 'k::linorder option) \<Rightarrow> protocol_room_state \<Rightarrow> protocol_room_state" where
  "renumbered key room = room\<lparr>members_by_id :=
     number_rankings 0 (map snd (sort (keyed_members key (members_by_id room)))) (members_by_id room)\<rparr>"

lemma compact_rankings_eq: "compact_rankings room = renumbered (\<lambda>_ m. Some (ranking (prm_player m))) room"
  by (simp add: compact_rankings_def renumbered_def)

lemma apply_next_grid_ranking_eq:
  "apply_next_grid_ranking rk room = renumbered (\<lambda>i _. map_option rr_rank (map_of (sr_by_player_id rk) (int i))) room"
  by (simp add: apply_next_grid_ranking_def renumbered_def)

lemma members_only_core:
  "room_core room \<Longrightarrow> rewritten {2, 3} (members_by_id room) ms \<Longrightarrow> room_core (room\<lparr>members_by_id := ms\<rparr>)"
  using rewritten_core [of room ms "observers room"] by simp

lemma members_only_mastered:
  "room_mastered room \<Longrightarrow> room_arrays room \<Longrightarrow> rewritten {2, 3} (members_by_id room) ms \<Longrightarrow>
     room_mastered (room\<lparr>members_by_id := ms\<rparr>)"
  using rewritten_mastered [of room ms "observers room"] by simp

lemma observers_only_core:
  "room_core room \<Longrightarrow> rewritten {4} (observers room) obs \<Longrightarrow> room_core (room\<lparr>observers := obs\<rparr>)"
  using rewritten_core [of room "members_by_id room" obs] by simp

lemma observers_only_mastered:
  "room_mastered room \<Longrightarrow> room_arrays room \<Longrightarrow> rewritten {4} (observers room) obs \<Longrightarrow>
     room_mastered (room\<lparr>observers := obs\<rparr>)"
  using rewritten_mastered [of room "members_by_id room" obs] by simp

lemma renumbered_core: "room_core room \<Longrightarrow> room_core (renumbered key room)"
  unfolding renumbered_def by (simp add: members_only_core number_rankings_rewritten)

lemma renumbered_mastered: "room_mastered room \<Longrightarrow> room_arrays room \<Longrightarrow> room_mastered (renumbered key room)"
  unfolding renumbered_def by (rule members_only_mastered) (auto intro: number_rankings_rewritten)

lemma renumbered_ranked:
  fixes key :: "nat \<Rightarrow> protocol_room_member \<Rightarrow> 'k::linorder option"
  assumes "\<And>i m. members_by_id room ! i = Some m \<Longrightarrow> i < length (members_by_id room) \<Longrightarrow> key i m \<noteq> None"
  shows "room_ranked (renumbered key room)"
proof -
  let ?ids = "map snd (sort (keyed_members key (members_by_id room)))"
  have "set ?ids = occupied (members_by_id room)"
    unfolding sorted_members_ids(2) using assms by (fastforce simp: occupied_def)
  with sorted_members_ids(1) [of key "members_by_id room"] show ?thesis
    by (simp add: renumbered_def room_ranked_def number_rankings_numbered)
qed

lemma renumbered_users: "user_nos (renumbered key room) = user_nos room"
  by (simp add: user_nos_conv renumbered_def)
    (rule rewritten_map [where K = "{}"], rule number_rankings_rewritten, simp add: seat_keeps_def)

section \<open>New rooms and admission\<close>

lemma room_new_fields [simp]:
  "members_by_id (room_new rid st) = replicate 8 None" "ais_by_id (room_new rid st) = replicate 8 None"
  "closed_slots_by_id (room_new rid st) = replicate 8 None" "observers (room_new rid st) = replicate 8 None"
  "slot_positions (room_new rid st) = replicate 8 None" "room_master (room_new rid st) = 0"
  "room_id_of (room_new rid st) = rid" "settings (room_new rid st) = st" "phase (room_new rid st) = PhLobby"
  "race_fence_of (room_new rid st) = None" "frozen_race (room_new rid st) = None"
  by (simp_all add: room_new_def room_slot_count_def room_observer_count_def)

lemma room_new_core: "room_core (room_new rid st)"
proof -
  have "room_layout (room_new rid st)"
    using placed_empty [of 8] by (simp add: room_layout_def room_arrays_def room_exclusive_def taken_def closed_linked_def)
  then show ?thesis
    by (simp add: room_core_def room_users_def room_teams_def room_states_def room_strings_def user_nos_conv
        room_members_def)
qed

lemma room_new_empty: "room_is_empty (room_new rid st)"
  by (simp add: room_is_empty_iff)

lemma room_new_inv: "room_inv (room_new rid st)"
  using room_new_core room_new_empty by (simp add: room_inv_def room_ranked_def room_mastered_def)

lemma user_nos_new [simp]: "user_nos (room_new rid st) = []"
  by (simp add: user_nos_conv)

text \<open>What the caller guarantees about a participant before it is seated.\<close>

definition participant_ok :: "u32 \<Rightarrow> room_participant \<Rightarrow> bool" where
  "participant_ok u p \<longleftrightarrow> user_no (rp_player p) = u \<and>
     (if rp_observer p then length (encode_utf16 (nickname (rp_player p))) \<le> max_rider_nickname_units
      else player_strings_ok (rp_player p))"

lemma master_core: "room_core room \<Longrightarrow> room_core (room\<lparr>room_master := p\<rparr>)"
  by (erule same_seats_core [rotated]) (simp add: same_seats_def)

lemma member_by_player_id_master [simp]:
  "member_by_player_id p (room\<lparr>room_master := q\<rparr>) = member_by_player_id p room"
  by (simp add: member_by_player_id_def)

lemma member_by_player_id_positions [simp]:
  "member_by_player_id p (room\<lparr>slot_positions := ps\<rparr>) = member_by_player_id p room"
  by (simp add: member_by_player_id_def)

lemma member_by_player_id_mono:
  assumes "member_by_player_id p room \<noteq> None" "length (members_by_id room) = 8" "length (observers room) = 8"
    and "i < 8"
  shows "member_by_player_id p (room\<lparr>members_by_id := (members_by_id room)[i := Some m], slot_positions := ps\<rparr>) \<noteq> None"
    and "member_by_player_id p (room\<lparr>observers := (observers room)[i := Some m]\<rparr>) \<noteq> None"
  using assms
  by (auto simp: member_by_player_id_def nth_opt_def nth_list_update room_slot_count_def split: if_splits)

lemma add_observer_inv:
  assumes inv: "room_inv room" and u: "u \<notin> set (user_nos room)"
    and live: "room_is_empty room \<Longrightarrow> room_master room = 0"
    and p: "participant_ok u p" "rp_observer p" and add: "add_observer u p room = (True, room')"
  shows "room_inv room'"
proof -
  note core = room_invD(1) [OF inv]
  note layout = room_layoutD [OF room_coreD(1) [OF core]]
  obtain i where i: "position (\<lambda>m. m = None) (observers room) = Some i"
    using add by (auto simp: add_observer_def split: option.splits)
  then have pos: "i < 8" "observers room ! i = None"
    using position_SomeD [OF i] layout(5) by auto
  let ?m = "member_of u ((rp_player p)\<lparr>player_type := 4, team := 0\<rparr>) p"
  let ?seated = "room\<lparr>observers := (observers room)[i := Some ?m]\<rparr>"
  have room': "room' = (if rp_observer_master p then ?seated\<lparr>room_master := 8 + int i\<rparr> else ?seated)"
    using add i by (simp add: add_observer_def Let_def room_slot_count_def split: if_splits)
  have seated: "room_core ?seated"
    by (rule place_observer_core [OF core pos]) (use u p in \<open>simp_all add: member_of_def participant_ok_def\<close>)
  then have "room_core room'" by (simp add: room' master_core)
  moreover have "room_ranked room'"
    using room_invD(2) [OF inv] by (simp add: room' room_ranked_def)
  moreover have "room_mastered room'"
  proof (cases "rp_observer_master p")
    case True
    have "observers ?seated ! i = Some ?m" using pos layout(5) by simp
    with pos layout(5) have "member_by_player_id (8 + int i) ?seated = Some ?m"
      by (subst member_by_player_id_observer) simp_all
    then show ?thesis using True by (simp add: room' room_mastered_def)
  next
    case False
    have "member_by_player_id (room_master room) room \<noteq> None
        \<or> (occupied (members_by_id room) = {} \<and> room_master room = 0)"
      using room_invD(3) [OF inv] live by (auto simp: room_mastered_def room_is_empty_iff)
    then show ?thesis
      using False member_by_player_id_mono(2) [of "room_master room" room i ?m] layout(1,5) pos(1)
      by (auto simp: room' room_mastered_def)
  qed
  ultimately show ?thesis by (simp add: room_inv_def)
qed

abbreviation racer_seat :: "u32 \<Rightarrow> room_participant \<Rightarrow> protocol_room_state \<Rightarrow> u8 \<Rightarrow> protocol_room_member" where
  "racer_seat u p room t \<equiv> member_of u ((rp_player p)\<lparr>player_type := 2, team := t,
      ranking := int (length (flatten (members_by_id room)))\<rparr>) p"

lemma add_racer_cases:
  assumes "add_racer u p room = (True, room')"
  obtains i s t seated where "vacant_member_id room = Some i" "admission_slot_and_team room = Some (s, t)"
    "seated = room\<lparr>members_by_id := (members_by_id room)[i := Some (racer_seat u p room t)],
      slot_positions := (slot_positions room)[s := Some (of_nat i)]\<rparr>"
    "room' = (if member_by_player_id (room_master room) seated = None then seated\<lparr>room_master := int i\<rparr> else seated)"
proof -
  obtain i s t where it: "vacant_member_id room = Some i" "admission_slot_and_team room = Some (s, t)"
    using assms by (auto simp: add_racer_def split: option.splits)
  let ?seated = "room\<lparr>members_by_id := (members_by_id room)[i := Some (racer_seat u p room t)],
      slot_positions := (slot_positions room)[s := Some (of_nat i)]\<rparr>"
  have "room' = (if member_by_player_id (room_master room) ?seated = None then ?seated\<lparr>room_master := int i\<rparr> else ?seated)"
    using assms it by (simp add: add_racer_def Let_def split: if_splits)
  then show ?thesis by (rule that [OF it refl])
qed

lemma add_racer_inv:
  assumes inv: "room_inv room" and u: "u \<notin> set (user_nos room)"
    and p: "participant_ok u p" "\<not> rp_observer p" and add: "add_racer u p room = (True, room')"
  shows "room_inv room'"
proof -
  note core = room_invD(1) [OF inv]
  note layout = room_layoutD [OF room_coreD(1) [OF core]]
  from add obtain i s t seated where it: "vacant_member_id room = Some i" "admission_slot_and_team room = Some (s, t)"
    and seated_def: "seated = room\<lparr>members_by_id := (members_by_id room)[i := Some (racer_seat u p room t)],
      slot_positions := (slot_positions room)[s := Some (of_nat i)]\<rparr>"
    and room': "room' = (if member_by_player_id (room_master room) seated = None then seated\<lparr>room_master := int i\<rparr> else seated)"
    by (rule add_racer_cases)
  have ids: "i < 8" "i \<notin> taken room" "s < 8" "slot_positions room ! s = None" and t: "t = slot_team room s"
    using vacant_Some [OF it(1)] admission_Some [OF room_coreD(1) [OF core] it(2)] by auto
  let ?m = "racer_seat u p room t"
  have "room_core seated"
    unfolding seated_def
    by (rule place_racer_core [OF core ids])
      (use u p t in \<open>simp_all add: member_of_def participant_ok_def member_strings_def player_strings_ok_def\<close>)
  then have "room_core room'" by (simp add: room' master_core)
  moreover have "room_ranked room'"
  proof -
    have free: "i \<notin> occupied (members_by_id room)" using ids(2) by (simp add: taken_def)
    have "numbered (rank_at (members_by_id seated)) (insert i (occupied (members_by_id room)))"
    proof (rule numbered_insert [OF _ _ free])
      show "numbered (rank_at (members_by_id room)) (occupied (members_by_id room))"
        using room_invD(2) [OF inv] by (simp add: room_ranked_def)
      show "rank_at (members_by_id seated) i = int (Finite_Set.card (occupied (members_by_id room)))"
        using ids(1) layout(1) by (simp add: rank_at_def member_of_def card_occupied seated_def)
      show "rank_at (members_by_id seated) j = rank_at (members_by_id room) j" if "j \<in> occupied (members_by_id room)" for j
        using that free by (cases "j = i") (simp_all add: rank_at_def seated_def)
    qed simp
    then show ?thesis
      using ids(1) layout(1) by (simp add: room' room_ranked_def occupied_Some seated_def)
  qed
  moreover have "room_mastered room'"
  proof -
    have "member_by_player_id (int i) seated = Some ?m"
      using ids(1) layout(1) by (simp add: member_by_player_id_int seated_def)
    moreover have "room_master seated = room_master room" by (simp add: seated_def)
    ultimately show ?thesis by (auto simp: room' room_mastered_def)
  qed
  ultimately show ?thesis by (simp add: room_inv_def)
qed

lemma add_participant_inv:
  assumes "room_inv room" "u \<notin> set (user_nos room)" "room_is_empty room \<Longrightarrow> room_master room = 0"
    and "participant_ok u p" "add_participant u p room = (True, room')"
  shows "room_inv room'"
proof (cases "rp_observer p")
  case True
  with assms show ?thesis using add_observer_inv [of room u p room'] by (simp add: add_participant_def)
next
  case False
  with assms show ?thesis using add_racer_inv [of room u p room'] by (simp add: add_participant_def)
qed

text \<open>Who is in the room afterwards, and when admission is refused.\<close>

lemma member_of_user [simp]: "prm_user_no (member_of u pl p) = u"
  by (simp add: member_of_def)

lemma add_observer_seats:
  assumes "add_observer u p room = (True, room')"
  shows "\<exists>i pl. position (\<lambda>m. m = None) (observers room) = Some i
    \<and> observers room' = (observers room)[i := Some (member_of u pl p)] \<and> members_by_id room' = members_by_id room"
  using assms by (auto simp: add_observer_def Let_def split: option.splits if_splits)

lemma add_racer_seats:
  assumes "add_racer u p room = (True, room')"
  shows "\<exists>i pl. vacant_member_id room = Some i
    \<and> members_by_id room' = (members_by_id room)[i := Some (member_of u pl p)] \<and> observers room' = observers room"
  using assms by (rule add_racer_cases) auto

lemma add_participant_users:
  assumes inv: "room_core room" and add: "add_participant u p room = (True, room')"
  shows "mset (user_nos room') = add_mset u (mset (user_nos room))"
proof (cases "rp_observer p")
  case True
  with add obtain i pl where i: "position (\<lambda>m. m = None) (observers room) = Some i"
    "observers room' = (observers room)[i := Some (member_of u pl p)]" "members_by_id room' = members_by_id room"
    using add_observer_seats [of u p room room'] by (auto simp: add_participant_def)
  then show ?thesis
    using mset_user_nos_observer [of i room room' "member_of u pl p"] position_SomeD [OF i(1)] by simp
next
  case False
  with add obtain i pl where i: "vacant_member_id room = Some i"
    "members_by_id room' = (members_by_id room)[i := Some (member_of u pl p)]" "observers room' = observers room"
    using add_racer_seats [of u p room room'] by (auto simp: add_participant_def)
  then show ?thesis
    using mset_user_nos_racer [of i room room' "member_of u pl p"] vacant_Some [OF i(1)]
      room_layoutD(1) [OF room_coreD(1) [OF inv]] by simp
qed

lemma add_participant_refused:
  assumes "room_core room"
  shows "fst (add_participant u p room) = False \<longleftrightarrow>
    (if rp_observer p then (\<forall>i<8. observers room ! i \<noteq> None)
     else occupied (members_by_id room) \<union> occupied (ais_by_id room) \<union> occupied (closed_slots_by_id room) = {..<8})"
proof (cases "rp_observer p")
  case True
  have "fst (add_participant u p room) = False \<longleftrightarrow> position (\<lambda>m. m = None) (observers room) = None"
    using True by (simp add: add_participant_def add_observer_def Let_def split: option.splits)
  then show ?thesis
    using True room_layoutD(5) [OF room_coreD(1) [OF assms]]
    by (simp add: position_None_iff all_set_conv_all_nth)
next
  case False
  note layout = room_coreD(1) [OF assms]
  have "fst (add_participant u p room) = False \<longleftrightarrow> vacant_member_id room = None"
    using False vacant_iff_admission [OF layout]
    by (auto simp: add_participant_def add_racer_def Let_def split: option.splits prod.splits)
  moreover have "vacant_member_id room = None \<longleftrightarrow> taken room = {..<8}"
    using vacant_None [OF layout] vacant_Some [of room] by (cases "vacant_member_id room") auto
  ultimately show ?thesis using False by (simp add: taken_def)
qed

lemma add_participant_False: "add_participant u p room = (False, room') \<Longrightarrow> room' = room"
  by (auto simp: add_participant_def add_observer_def add_racer_def Let_def split: option.splits if_splits prod.splits)

end
