(* ===== verification/RoomChanges.thy ===== *)
theory RoomChanges
  imports RoomOps
begin

text \<open>
  Leaving, AI racers, closed slots, results of a race and presentation updates
  keep the invariant of a room; a room that satisfies it can always be sent.
\<close>

section \<open>The next master\<close>

lemma holds_user_iff: "holds_user u m \<longleftrightarrow> (\<exists>member. m = Some member \<and> prm_user_no member = u)"
  by (cases m) (auto simp: holds_user_def)

lemma position_Some_occupied:
  "position (\<lambda>m. m \<noteq> None) xs = Some i \<Longrightarrow> i < length xs \<and> (\<exists>x. xs ! i = Some x)"
  by (auto dest: position_SomeD)

lemma position_occupied_None: "position (\<lambda>m. m \<noteq> None) xs = None \<longleftrightarrow> occupied xs = {}"
  by (auto simp: position_None_iff all_set_conv_all_nth occupied_def)

lemma racer_state_rewritten:
  "k \<in> {2, 3} \<Longrightarrow> rewritten {2, 3} ms (update_slot (set_player (player_type_update (\<lambda>_. k))) i ms)"
  by (rule rewritten_update) (auto simp: seat_keeps_def player_strings_ok_def)

lemma observer_state_rewritten:
  "rewritten {4} ms (update_slot (set_player (player_type_update (\<lambda>_. 4))) i ms)"
  by (rule rewritten_update) (auto simp: seat_keeps_def player_strings_ok_def)

lemma rank_at_update_slot:
  "(\<And>p. ranking (f p) = ranking p) \<Longrightarrow> i < length ms \<Longrightarrow> ms ! i \<noteq> None \<Longrightarrow> rank_at (update_slot (set_player f) i ms) = rank_at ms"
  by (rule ext) (auto simp: rank_at_def update_slot_def nth_list_update)

lemma update_slot_occupied [simp]: "occupied (update_slot f i ms) = occupied ms"
  by (simp add: update_slot_def occupied_map_option)

lemma update_slot_length [simp]: "length (update_slot f i ms) = length ms"
  by (simp add: update_slot_def)

lemma update_slot_None_iff [simp]: "update_slot f i ms ! j = None \<longleftrightarrow> ms ! j = None"
  by (cases "i < length ms"; cases "j = i") (auto simp: update_slot_def list_update_beyond)

lemma assign_next_core: "room_core room \<Longrightarrow> room_core (assign_next_room_master room)"
proof -
  assume core: "room_core room"
  consider (racer) i where "position (\<lambda>m. m \<noteq> None) (members_by_id room) = Some i"
    | (watcher) i where "position (\<lambda>m. m \<noteq> None) (members_by_id room) = None"
        "position (\<lambda>m. m \<noteq> None) (observers room) = Some i"
    | (none) "position (\<lambda>m. m \<noteq> None) (members_by_id room) = None"
        "position (\<lambda>m. m \<noteq> None) (observers room) = None"
    by (cases "position (\<lambda>m. m \<noteq> None) (members_by_id room)";
        cases "position (\<lambda>m. m \<noteq> None) (observers room)") auto
  then show ?thesis
  proof cases
    case racer
    have "room_core (room\<lparr>room_master := int i\<rparr>)" using core by (rule master_core)
    from members_only_core [OF this, of "update_slot (set_player (player_type_update (\<lambda>_. 2))) i (members_by_id room)"]
    show ?thesis using racer racer_state_rewritten [of 2] by (simp add: assign_next_room_master_def)
  next
    case watcher
    have "room_core (room\<lparr>room_master := 8 + int i\<rparr>)" using core by (rule master_core)
    from observers_only_core [OF this, of "update_slot (set_player (player_type_update (\<lambda>_. 4))) i (observers room)"]
    show ?thesis using watcher observer_state_rewritten by (simp add: assign_next_room_master_def room_slot_count_def)
  next
    case none
    with core show ?thesis by (simp add: assign_next_room_master_def master_core)
  qed
qed

lemma assign_next_mastered:
  assumes "room_arrays room"
  shows "room_mastered (assign_next_room_master room)"
proof (cases "position (\<lambda>m. m \<noteq> None) (members_by_id room)")
  case (Some i)
  with position_Some_occupied [OF Some] assms show ?thesis
    by (auto simp: assign_next_room_master_def room_mastered_def room_arrays_def member_by_player_id_def room_slot_count_def)
next
  case None
  show ?thesis
  proof (cases "position (\<lambda>m. m \<noteq> None) (observers room)")
    case (Some i)
    with position_Some_occupied [OF Some] assms None show ?thesis
      by (auto simp: assign_next_room_master_def room_mastered_def room_arrays_def member_by_player_id_def
          room_slot_count_def nth_opt_def nat_add_distrib)
  next
    case no_watcher: None
    with None have "room_is_empty room" by (simp only: room_is_empty_iff position_occupied_None)
    with None no_watcher show ?thesis
      by (simp add: assign_next_room_master_def room_mastered_def room_is_empty_iff)
  qed
qed

lemma assign_next_users [simp]: "user_nos (assign_next_room_master room) = user_nos room"
proof -
  have "map prm_user_no (flatten (update_slot (set_player f) i ms)) = map prm_user_no (flatten ms)" for f i ms
    unfolding update_slot_def by (rule map_flatten_update) simp
  then show ?thesis by (simp add: assign_next_room_master_def user_nos_conv split: option.splits)
qed

lemma assign_next_fields [simp]:
  "occupied (members_by_id (assign_next_room_master room)) = occupied (members_by_id room)"
  "occupied (observers (assign_next_room_master room)) = occupied (observers room)"
  "ais_by_id (assign_next_room_master room) = ais_by_id room"
  "closed_slots_by_id (assign_next_room_master room) = closed_slots_by_id room"
  "slot_positions (assign_next_room_master room) = slot_positions room"
  "settings (assign_next_room_master room) = settings room"
  "phase (assign_next_room_master room) = phase room"
  "frozen_race (assign_next_room_master room) = frozen_race room"
  "race_fence_of (assign_next_room_master room) = race_fence_of room"
  "room_id_of (assign_next_room_master room) = room_id_of room"
  by (simp_all add: assign_next_room_master_def split: option.splits)

lemma assign_next_ranked: "room_ranked room \<Longrightarrow> room_ranked (assign_next_room_master room)"
  by (auto simp: assign_next_room_master_def room_ranked_def rank_at_update_slot position_Some_occupied
      split: option.splits dest!: position_Some_occupied)

lemma core_arrays: "room_core room \<Longrightarrow> room_arrays room"
  by (simp add: room_core_def room_layout_def)

lemma assign_next_inv: "room_core room \<Longrightarrow> room_ranked room \<Longrightarrow> room_inv (assign_next_room_master room)"
  by (simp add: room_inv_def assign_next_core assign_next_ranked assign_next_mastered core_arrays)

section \<open>Leaving\<close>

lemma clear_keeps_master:
  assumes "room_mastered room" "room_arrays room" "i < 8"
  shows "room_master room \<noteq> int i \<Longrightarrow>
      room_mastered (room\<lparr>members_by_id := (members_by_id room)[i := None], slot_positions := ps\<rparr>)"
    and "room_master room \<noteq> 8 + int i \<Longrightarrow> room_mastered (room\<lparr>observers := (observers room)[i := None]\<rparr>)"
  using assms
  by (auto simp: room_mastered_def room_arrays_def member_by_player_id_def nth_opt_def nth_list_update
      room_slot_count_def room_is_empty_iff slot_simps split: if_splits)

lemma compact_core: "room_core room \<Longrightarrow> room_core (compact_rankings room)"
  by (simp add: compact_rankings_eq renumbered_core)

lemma compact_inv: "room_core room \<Longrightarrow> room_mastered room \<Longrightarrow> room_inv (compact_rankings room)"
  using room_coreD(1) [of room]
  by (simp add: room_inv_def compact_core compact_rankings_eq renumbered_core renumbered_mastered renumbered_ranked
      room_layout_def)

text \<open>The two branches of a removal.\<close>

lemma remove_user_cases:
  assumes core: "room_core room" and remove: "remove_user u room = (True, room')"
  obtains (observer) i m where "i < 8" "observers room ! i = Some m" "prm_user_no m = u"
      "room' = (let cleared = room\<lparr>observers := (observers room)[i := None]\<rparr>
         in if room_master room = 8 + int i then assign_next_room_master cleared else cleared)"
  | (racer) i s m where "i < 8" "s < 8" "members_by_id room ! i = Some m" "prm_user_no m = u"
      "slot_positions room ! s = Some (of_nat i)"
      "room' = compact_rankings (let cleared = room\<lparr>members_by_id := (members_by_id room)[i := None],
           slot_positions := (slot_positions room)[s := None]\<rparr>
         in if room_master room = int i then assign_next_room_master cleared else cleared)"
proof (cases "observer_id u room")
  note layout = room_layoutD [OF room_coreD(1) [OF core]]
  case (Some i)
  with observer_id_Some [OF Some] layout(5) obtain m where "i < 8" "observers room ! i = Some m" "prm_user_no m = u"
    by auto
  moreover from Some remove have "room' = (let cleared = room\<lparr>observers := (observers room)[i := None]\<rparr>
         in if room_master room = 8 + int i then assign_next_room_master cleared else cleared)"
    by (simp add: remove_user_def Let_def room_slot_count_def)
  ultimately show ?thesis by (rule observer)
next
  note layout = room_layoutD [OF room_coreD(1) [OF core]]
  case None
  with remove obtain i where i: "member_id u room = Some i"
    by (auto simp: remove_user_def split: option.splits)
  with member_id_Some [OF i] layout(1) obtain m where m: "i < 8" "members_by_id room ! i = Some m" "prm_user_no m = u"
    by auto
  then have "i \<in> taken room" using layout(1) by (simp add: taken_def occupied_def)
  then obtain s where s: "s < 8" "slot_positions room ! s = Some (of_nat i)"
    using placed_slot [OF layout(7), of i] m(1) layout(4) by auto
  then have "position (\<lambda>p. p = Some (of_nat i)) (slot_positions room) = Some s"
    using position_eq_Some_placed [OF layout(7)] layout(4) by simp
  with None i remove have "room' = compact_rankings (let cleared = room\<lparr>members_by_id := (members_by_id room)[i := None],
           slot_positions := (slot_positions room)[s := None]\<rparr>
         in if room_master room = int i then assign_next_room_master cleared else cleared)"
    by (simp add: remove_user_def Let_def cong: if_cong)
  with m s show ?thesis by (intro racer)
qed

lemma remove_user_inv:
  assumes inv: "room_inv room" and remove: "remove_user u room = (True, room')"
  shows "room_inv room'"
  using room_invD(1) [OF inv] remove
proof (cases rule: remove_user_cases)
  note core = room_invD(1) [OF inv]
  note arrays = room_coreD(1) [OF core, unfolded room_layout_def, THEN conjunct1]
  case (observer i m)
  let ?cleared = "room\<lparr>observers := (observers room)[i := None]\<rparr>"
  have cleared: "room_core ?cleared" using clear_observer_core [OF core observer(1,2)] .
  have ranked: "room_ranked ?cleared" using room_invD(2) [OF inv] by (simp add: room_ranked_def)
  show ?thesis
  proof (cases "room_master room = 8 + int i")
    case True
    with observer cleared ranked show ?thesis
      by (simp add: assign_next_inv)
  next
    case False
    with observer cleared ranked clear_keeps_master(2) [OF room_invD(3) [OF inv] arrays observer(1)] show ?thesis
      by (simp add: room_inv_def)
  qed
next
  note core = room_invD(1) [OF inv]
  note arrays = room_coreD(1) [OF core, unfolded room_layout_def, THEN conjunct1]
  case (racer i s m)
  let ?cleared = "room\<lparr>members_by_id := (members_by_id room)[i := None], slot_positions := (slot_positions room)[s := None]\<rparr>"
  have cleared: "room_core ?cleared"
    using clear_racer_core [OF core racer(1,2,5,3)] .
  show ?thesis
  proof (cases "room_master room = int i")
    case True
    have "room_core (assign_next_room_master ?cleared)" "room_mastered (assign_next_room_master ?cleared)"
      using cleared by (simp_all add: assign_next_core assign_next_mastered core_arrays)
    with True racer(6) show ?thesis by (simp add: compact_inv)
  next
    case False
    with racer(6) cleared clear_keeps_master(1) [OF room_invD(3) [OF inv] arrays racer(1)] show ?thesis
      by (simp add: compact_inv)
  qed
qed

lemma remove_user_users:
  assumes core: "room_core room" and remove: "remove_user u room = (True, room')"
  shows "mset (user_nos room) = add_mset u (mset (user_nos room'))"
  using core remove
proof (cases rule: remove_user_cases)
  note layout = room_layoutD [OF room_coreD(1) [OF core]]
  case (observer i m)
  let ?cleared = "room\<lparr>observers := (observers room)[i := None]\<rparr>"
  have "user_nos room' = user_nos ?cleared" using observer(4) by (simp add: Let_def)
  then show ?thesis
    using mset_user_nos_clear_observer [of i room m ?cleared] observer layout(5) by simp
next
  note layout = room_layoutD [OF room_coreD(1) [OF core]]
  case (racer i s m)
  let ?cleared = "room\<lparr>members_by_id := (members_by_id room)[i := None], slot_positions := (slot_positions room)[s := None]\<rparr>"
  have "user_nos room' = user_nos ?cleared"
    unfolding racer(6) compact_rankings_eq renumbered_users by (simp add: Let_def)
  then show ?thesis
    using mset_user_nos_clear_racer [of i room m ?cleared] racer layout(1) by simp
qed

lemma remove_user_True_iff: "fst (remove_user u room) \<longleftrightarrow> u \<in> set (user_nos room)"
  using user_absent_iff [of u room] by (auto simp: remove_user_def Let_def split: option.splits)

lemma remove_user_False: "remove_user u room = (False, room') \<Longrightarrow> room' = room"
  by (auto simp: remove_user_def Let_def split: option.splits)

lemma remove_user_frame:
  assumes "remove_user u room = (b, room')"
  shows "settings room' = settings room" "phase room' = phase room" "frozen_race room' = frozen_race room"
    "race_fence_of room' = race_fence_of room" "room_id_of room' = room_id_of room"
    "ais_by_id room' = ais_by_id room" "closed_slots_by_id room' = closed_slots_by_id room"
  using assms
  by (auto simp: remove_user_def Let_def compact_rankings_def split: option.splits if_splits)

section \<open>After a race\<close>

lemma grid_ranking_inv:
  assumes "room_inv room"
    and "\<And>i. i \<in> occupied (members_by_id room) \<Longrightarrow> map_of (sr_by_player_id rk) (int i) \<noteq> None"
  shows "room_inv (apply_next_grid_ranking rk room)"
proof -
  note core = room_invD(1) [OF assms(1)]
  have "room_ranked (apply_next_grid_ranking rk room)"
    unfolding apply_next_grid_ranking_eq
    by (rule renumbered_ranked) (use assms(2) in \<open>auto simp: occupied_def\<close>)
  with core room_invD(3) [OF assms(1)] show ?thesis
    by (simp add: room_inv_def apply_next_grid_ranking_eq renumbered_core renumbered_mastered core_arrays)
qed

lemma keyed_members_mem:
  "(k, i) \<in> set (keyed_members key ms) \<Longrightarrow> i < length ms \<and> (\<exists>m. ms ! i = Some m \<and> key i m = Some k)"
proof -
  have "(k, i) \<in> set (List.map_filter (\<lambda>i. case ms ! i of None \<Rightarrow> None | Some m \<Rightarrow> map_option (\<lambda>k. (k, i)) (key i m)) is)
      \<Longrightarrow> i \<in> set is \<and> (\<exists>m. ms ! i = Some m \<and> key i m = Some k)" for "is"
    by (induction "is") (auto simp: List.map_filter_simps split: option.splits)
  from this [of "[0..<length ms]"] show "(k, i) \<in> set (keyed_members key ms) \<Longrightarrow> ?thesis"
    by (simp add: keyed_members_def)
qed

lemma keyed_members_memI:
  "i < length ms \<Longrightarrow> ms ! i = Some m \<Longrightarrow> key i m = Some k \<Longrightarrow> (k, i) \<in> set (keyed_members key ms)"
proof -
  have "i \<in> set is \<Longrightarrow> ms ! i = Some m \<Longrightarrow> key i m = Some k \<Longrightarrow>
      (k, i) \<in> set (List.map_filter (\<lambda>i. case ms ! i of None \<Rightarrow> None | Some m \<Rightarrow> map_option (\<lambda>k. (k, i)) (key i m)) is)" for "is"
    by (induction "is") (auto simp: List.map_filter_simps split: option.splits)
  then show "i < length ms \<Longrightarrow> ms ! i = Some m \<Longrightarrow> key i m = Some k \<Longrightarrow> ?thesis" by (simp add: keyed_members_def)
qed

lemma lobby_master_cases:
  obtains (kept) "apply_next_lobby_master rk room = (Some (room_master room), room)"
      "8 \<le> room_master room" "member_by_player_id (room_master room) room \<noteq> None"
  | (none) "apply_next_lobby_master rk room = (None, room)"
  | (chosen) k i m where "apply_next_lobby_master rk room = (Some (int i), room\<lparr>room_master := int i\<rparr>)"
      "i < length (members_by_id room)" "members_by_id room ! i = Some m" "master_candidate rk i = Some k"
      "\<And>k' j. (k', j) \<in> set (keyed_members (\<lambda>i _. master_candidate rk i) (members_by_id room)) \<Longrightarrow> (k, i) \<le> (k', j)"
proof (cases "8 \<le> room_master room \<and> member_by_player_id (room_master room) room \<noteq> None")
  case True
  then show ?thesis by (intro kept) (simp_all add: apply_next_lobby_master_def room_slot_count_def)
next
  case False
  let ?ks = "keyed_members (\<lambda>i _. master_candidate rk i) (members_by_id room)"
  show ?thesis
  proof (cases "sort ?ks")
    case Nil
    with False show ?thesis by (intro none) (simp add: apply_next_lobby_master_def room_slot_count_def)
  next
    case (Cons x xs)
    obtain k i where x: "x = (k, i)" by (cases x)
    have mem: "(k, i) \<in> set ?ks" using Cons x by (metis list.set_intros(1) set_sort)
    have least: "(k, i) \<le> (k', j)" if "(k', j) \<in> set ?ks" for k' j
    proof -
      have "(k', j) \<in> set (x # xs)" using that Cons by (metis set_sort)
      moreover have "sorted (x # xs)" using Cons by (metis sorted_sort)
      ultimately show ?thesis using x by auto
    qed
    show ?thesis
    proof (rule chosen)
      show "apply_next_lobby_master rk room = (Some (int i), room\<lparr>room_master := int i\<rparr>)"
        using False Cons x by (auto simp: apply_next_lobby_master_def room_slot_count_def)
      show "i < length (members_by_id room)" "master_candidate rk i = Some k"
        and "members_by_id room ! i = Some (the (members_by_id room ! i))"
        using keyed_members_mem [OF mem] by auto
    qed (rule least)
  qed
qed

lemma lobby_master_inv:
  assumes "room_inv room"
  shows "room_inv (snd (apply_next_lobby_master rk room))"
proof (cases rule: lobby_master_cases [of rk room])
  case (chosen k i m)
  note layout = room_layoutD [OF room_coreD(1) [OF room_invD(1) [OF assms]]]
  have "room_ranked (room\<lparr>room_master := int i\<rparr>)"
    using room_invD(2) [OF assms] by (simp add: room_ranked_def)
  moreover have "room_mastered (room\<lparr>room_master := int i\<rparr>)"
    using chosen layout(1) by (simp add: room_mastered_def member_by_player_id_int)
  ultimately show ?thesis
    using chosen(1) master_core [OF room_invD(1) [OF assms]] by (simp add: room_inv_def)
qed (use assms in simp_all)

section \<open>AI racers\<close>

lemma mastered_frame:
  assumes "room_mastered room" "members_by_id room' = members_by_id room" "observers room' = observers room"
    "room_master room' = room_master room"
  shows "room_mastered room'"
proof -
  have "member_by_player_id p room' = member_by_player_id p room" for p
    using assms(2,3) by (simp add: member_by_player_id_def)
  with assms show ?thesis by (simp add: room_mastered_def room_is_empty_iff)
qed

lemma ranked_frame: "room_ranked room \<Longrightarrow> members_by_id room' = members_by_id room \<Longrightarrow> room_ranked room'"
  by (simp add: room_ranked_def)

lemma remove_ai_cases:
  assumes "room_core room"
  obtains (absent) "remove_ai pid room = Inr (None, room)" "\<not> (unat pid < 8 \<and> ais_by_id room ! unat pid \<noteq> None)"
  | (present) s a where "unat pid < 8" "ais_by_id room ! unat pid = Some a" "s < 8"
      "slot_positions room ! s = Some (of_nat (unat pid))"
      "remove_ai pid room = Inr (Some (int (unat pid)), room\<lparr>ais_by_id := (ais_by_id room)[unat pid := None],
         slot_positions := (slot_positions room)[s := None]\<rparr>)"
proof (cases "unat pid < 8 \<and> ais_by_id room ! unat pid \<noteq> None")
  note layout = room_layoutD [OF room_coreD(1) [OF assms]]
  case False
  then show ?thesis
    using layout(2) by (intro absent) (auto simp: remove_ai_def nth_opt_def)
next
  note layout = room_layoutD [OF room_coreD(1) [OF assms]]
  case True
  then obtain a where a: "unat pid < 8" "ais_by_id room ! unat pid = Some a" by auto
  then have "unat pid \<in> taken room" using layout(2) by (simp add: taken_def occupied_def)
  then obtain s where s: "s < 8" "slot_positions room ! s = Some (of_nat (unat pid))"
    using placed_slot [OF layout(7), of "unat pid"] a(1) layout(4) by auto
  have "position (\<lambda>p. p = Some (ucast pid)) (slot_positions room) = Some s"
    using position_eq_Some_placed [OF layout(7)] s layout(4) by simp
  then show ?thesis
    by (intro present [OF a s]) (use a layout(2) in \<open>simp add: remove_ai_def nth_opt_def\<close>)
qed

lemma remove_ai_inv:
  assumes "room_inv room" "remove_ai pid room = Inr (r, room')"
  shows "room_inv room' \<and> user_nos room' = user_nos room"
  using room_invD(1) [OF assms(1)]
proof (cases rule: remove_ai_cases [where pid = pid])
  case absent
  with assms show ?thesis by simp
next
  case (present s a)
  then have room': "room' = room\<lparr>ais_by_id := (ais_by_id room)[unat pid := None],
      slot_positions := (slot_positions room)[s := None]\<rparr>"
    using assms(2) by simp
  have "room_core room'"
    unfolding room' by (rule clear_ai_core [OF room_invD(1) [OF assms(1)] present(1,3,4,2)])
  then show ?thesis
    using room_invD [OF assms(1)] ranked_frame [of room room'] mastered_frame [of room room']
    by (simp add: room_inv_def room' user_nos_conv)
qed

definition ai_teams_fit :: "protocol_room_state \<Rightarrow> (u8 \<times> room_ai) list \<Rightarrow> bool" where
  "ai_teams_fit room xs \<longleftrightarrow> (\<forall>(t, ai)\<in>set xs. if team_mode room then t \<in> {1, 2} else t = 0)"

lemma team_slots_fit:
  assumes "if team_mode room then t \<in> {1, 2} else t = 0" "s \<in> set (team_slots t)"
  shows "s < 8 \<and> slot_team room s = t"
  using assms set_team_slots by (auto simp: team_slots_def slot_team_def room_slot_count_def split: if_splits)

lemma add_ais_inv:
  "room_inv room \<Longrightarrow> ai_teams_fit room xs \<Longrightarrow> add_ais xs room = (added, room') \<Longrightarrow>
     room_inv room' \<and> user_nos room' = user_nos room \<and> settings room' = settings room"
proof (induction xs room arbitrary: added room' rule: add_ais.induct)
  case (1 room)
  then show ?case by simp
next
  case (2 t ai rest room)
  note core = room_invD(1) [OF "2.prems"(1)]
  show ?case
  proof (cases "vacant_member_id room")
    case None
    with "2.prems" show ?thesis by simp
  next
    case (Some mid)
    show ?thesis
    proof (cases "free_slot room (team_slots t)")
      case None
      with Some "2.prems" show ?thesis by simp
    next
      case slot: (Some s)
      let ?room = "room\<lparr>ais_by_id := (ais_by_id room)[mid := Some (ai\<lparr>ai_team := t\<rparr>)],
          slot_positions := (slot_positions room)[s := Some (of_nat mid)]\<rparr>"
      have fit: "s < 8" "slot_team room s = t" "slot_positions room ! s = None"
        using free_slot_Some [OF slot] team_slots_fit [of room t s] "2.prems"(2) by (auto simp: ai_teams_fit_def)
      have "room_core ?room"
        by (rule place_ai_core [OF core]) (use vacant_Some [OF Some] fit in auto)
      then have inv: "room_inv ?room"
        using room_invD [OF "2.prems"(1)] ranked_frame [of room ?room] mastered_frame [of room ?room]
        by (simp add: room_inv_def)
      obtain added' where rest: "add_ais rest ?room = (added', room')"
        using "2.prems"(3) Some slot by (auto simp: Let_def split: prod.splits)
      have teams: "ai_teams_fit ?room rest" using "2.prems"(2) by (simp add: ai_teams_fit_def team_mode_def)
      have "room_inv room' \<and> user_nos room' = user_nos ?room \<and> settings room' = settings ?room"
        using "2.IH" [OF Some slot refl inv teams rest] .
      then show ?thesis by (simp add: user_nos_conv)
    qed
  qed
qed

lemma add_basic_ais_inv:
  assumes "room_inv room" "add_basic_ais candidates room = (added, room')"
  shows "room_inv room' \<and> user_nos room' = user_nos room"
proof -
  have "ai_teams_fit room (zip (if team_mode room then [2, 1] else [0]) [fst candidates, snd candidates])"
    by (simp add: ai_teams_fit_def)
  with assms add_ais_inv [of room] show ?thesis by (simp add: add_basic_ais_def)
qed

section \<open>Closed slots\<close>

lemma close_pair_inv:
  assumes "room_inv room" "i < 8" "s < 8" "pair_closable room (i, s)"
  shows "room_inv (apply_pair True (i, s) room)"
proof -
  note core = room_invD(1) [OF assms(1)]
  have "i \<notin> taken room" "slot_positions room ! s = None"
    using assms(4) by (auto simp: pair_closable_def taken_def occupied_def)
  then have "room_core (apply_pair True (i, s) room)"
    using close_slot_core [OF core assms(2) _ assms(3)] by (simp add: apply_pair_def)
  then show ?thesis
    using room_invD [OF assms(1)] ranked_frame [of room "apply_pair True (i, s) room"]
      mastered_frame [of room "apply_pair True (i, s) room"]
    by (simp add: room_inv_def apply_pair_def)
qed

lemma open_pair_inv:
  assumes "room_inv room" "i < 8" "s < 8" "pair_openable room (i, s)"
  shows "room_inv (apply_pair False (i, s) room)"
proof -
  note core = room_invD(1) [OF assms(1)]
  have "room_core (apply_pair False (i, s) room)"
    using open_slot_core [OF core assms(2,3)] assms(4) by (simp add: apply_pair_def pair_openable_def)
  then show ?thesis
    using room_invD [OF assms(1)] ranked_frame [of room "apply_pair False (i, s) room"]
      mastered_frame [of room "apply_pair False (i, s) room"]
    by (simp add: room_inv_def apply_pair_def)
qed

lemma apply_pair_other:
  assumes "i \<noteq> j" "s \<noteq> t"
  shows "pair_closable (apply_pair c (i, s) room) (j, t) = pair_closable room (j, t)"
    and "pair_openable (apply_pair c (i, s) room) (j, t) = pair_openable room (j, t)"
  using assms by (simp_all add: apply_pair_def pair_closable_def pair_openable_def)

lemma apply_pair_users [simp]: "user_nos (apply_pair c p room) = user_nos room"
  by (cases p) (simp add: apply_pair_def user_nos_conv)

lemma apply_pairs_inv:
  assumes "room_inv room" "\<forall>(i, s)\<in>set pairs. i < 8 \<and> s < 8"
    and "distinct (map fst pairs)" "distinct (map snd pairs)"
    and "\<forall>p\<in>set pairs. if close then pair_closable room p else pair_openable room p"
  shows "room_inv (fold (apply_pair close) pairs room) \<and> user_nos (fold (apply_pair close) pairs room) = user_nos room"
  using assms
proof (induction pairs arbitrary: room)
  case Nil
  then show ?case by simp
next
  case (Cons p pairs)
  obtain i s where p: "p = (i, s)" by (cases p)
  have "room_inv (apply_pair close (i, s) room)"
    using Cons.prems close_pair_inv [of room i s] open_pair_inv [of room i s] by (cases close) (auto simp: p)
  moreover have "\<forall>q\<in>set pairs. if close then pair_closable (apply_pair close (i, s) room) q
      else pair_openable (apply_pair close (i, s) room) q"
  proof
    fix q assume q: "q \<in> set pairs"
    obtain j t where jt: "q = (j, t)" by (cases q)
    with q Cons.prems(3,4) p have "i \<noteq> j" "s \<noteq> t" by (force simp: image_iff)+
    with Cons.prems(5) q show "if close then pair_closable (apply_pair close (i, s) room) q
        else pair_openable (apply_pair close (i, s) room) q"
      by (simp add: jt apply_pair_other)
  qed
  ultimately show ?case
    using Cons.IH [of "apply_pair close (i, s) room"] Cons.prems by (simp add: p)
qed

lemma close_slot_pairs_distinct:
  assumes "\<not> (length (close_slot_pairs rq room) = 2
      \<and> (fst (close_slot_pairs rq room ! 0) = fst (close_slot_pairs rq room ! 1)
         \<or> snd (close_slot_pairs rq room ! 0) = snd (close_slot_pairs rq room ! 1)))"
  shows "distinct (map fst (close_slot_pairs rq room))" "distinct (map snd (close_slot_pairs rq room))"
  using assms by (auto simp: close_slot_pairs_def Let_def split: if_splits)

lemma set_close_slots_inv:
  assumes "room_inv room" "set_close_slots rq room = (accepted, room')"
  shows "room_inv room' \<and> user_nos room' = user_nos room"
proof (cases accepted)
  case False
  with assms show ?thesis by (auto simp: set_close_slots_def Let_def split: if_splits)
next
  case True
  let ?pairs = "close_slot_pairs rq room" and ?close = "is_close (csr_operation rq)"
  from True assms(2) have bounds: "\<not> (\<exists>(i, s)\<in>set ?pairs. i \<ge> room_slot_count \<or> s \<ge> room_slot_count)"
    and dist: "\<not> (length ?pairs = 2 \<and> (fst (?pairs ! 0) = fst (?pairs ! 1) \<or> snd (?pairs ! 0) = snd (?pairs ! 1)))"
    and ok: "\<forall>p\<in>set ?pairs. if ?close then pair_closable room p else pair_openable room p"
    and room': "room' = fold (apply_pair ?close) ?pairs room"
    unfolding set_close_slots_def Let_def by (simp_all split: if_splits)
  have "\<forall>(i, s)\<in>set ?pairs. i < 8 \<and> s < 8"
    using bounds by (fastforce simp: room_slot_count_def)
  from apply_pairs_inv [OF assms(1) this close_slot_pairs_distinct [OF dist] ok] show ?thesis
    by (simp add: room')
qed

section \<open>Presentation updates\<close>

lemma update_user_inv:
  assumes inv: "room_inv room" and upd: "update_user u f room = (b, room')"
    and keeps: "\<And>p. user_no (f p) = user_no p" "\<And>p. team (f p) = team p" "\<And>p. player_type (f p) = player_type p"
      "\<And>p. nickname (f p) = nickname p" "\<And>p. ranking (f p) = ranking p"
      "\<And>p. player_strings_ok p \<Longrightarrow> player_strings_ok (f p)"
  shows "room_inv room' \<and> user_nos room' = user_nos room"
proof -
  note core = room_invD(1) [OF inv]
  note layout = room_layoutD [OF room_coreD(1) [OF core]]
  have rw: "rewritten K ms (update_slot (set_player f) i ms)" for K ms i
    by (rule rewritten_update) (simp add: seat_keeps_def keeps)
  have users: "map prm_user_no (flatten (update_slot (set_player f) i ms)) = map prm_user_no (flatten ms)" for i ms
    unfolding update_slot_def by (rule map_flatten_update) simp
  consider (racer) i where "member_id u room = Some i"
    | (watcher) i where "member_id u room = None" "observer_id u room = Some i"
    | (none) "member_id u room = None" "observer_id u room = None"
    by (cases "member_id u room"; cases "observer_id u room") auto
  then show ?thesis
  proof cases
    case racer
    then have room': "room' = room\<lparr>members_by_id := update_slot (set_player f) i (members_by_id room)\<rparr>"
      using upd by (simp add: update_user_def)
    have "members_by_id room ! i \<noteq> None" "i < length (members_by_id room)" using member_id_Some [OF racer] by auto
    then have "room_ranked room'"
      using room_invD(2) [OF inv] by (simp add: room' room_ranked_def rank_at_update_slot keeps)
    then show ?thesis
      using members_only_core [OF core rw] members_only_mastered [OF room_invD(3) [OF inv] core_arrays [OF core] rw]
      by (simp add: room_inv_def room' user_nos_conv users)
  next
    case watcher
    then have room': "room' = room\<lparr>observers := update_slot (set_player f) i (observers room)\<rparr>"
      using upd by (simp add: update_user_def)
    show ?thesis
      using room_invD(2) [OF inv] observers_only_core [OF core rw]
        observers_only_mastered [OF room_invD(3) [OF inv] core_arrays [OF core] rw]
      by (simp add: room_inv_def room' user_nos_conv users room_ranked_def)
  next
    case none
    with upd inv show ?thesis by (simp add: update_user_def)
  qed
qed

lemma update_user_True_iff: "fst (update_user u f room) \<longleftrightarrow> u \<in> set (user_nos room)"
  using user_absent_iff [of u room] by (auto simp: update_user_def split: option.splits)

lemma set_p2p_endpoint_inv:
  "room_inv room \<Longrightarrow> set_p2p_endpoint u address port room = (b, room') \<Longrightarrow> room_inv room' \<and> user_nos room' = user_nos room"
  unfolding set_p2p_endpoint_def by (erule update_user_inv, assumption) (simp_all add: player_strings_ok_def)

lemma set_main_emblems_inv:
  "room_inv room \<Longrightarrow> set_main_emblems u emblems room = (b, room') \<Longrightarrow> room_inv room' \<and> user_nos room' = user_nos room"
  unfolding set_main_emblems_def by (erule update_user_inv, assumption) (simp_all add: player_strings_ok_def)

lemma set_equipment_snapshot_inv:
  assumes "room_inv room" "set_equipment_snapshot u snapshot room = (b, room')"
  shows "room_inv room' \<and> user_nos room' = user_nos room"
proof (cases "update_user u (rider_item_snapshot_update (\<lambda>_. snapshot)) room")
  case (Pair updated room1)
  have inv1: "room_inv room1 \<and> user_nos room1 = user_nos room"
    by (rule update_user_inv [OF assms(1) Pair]) (simp_all add: player_strings_ok_def)
  show ?thesis
  proof (cases updated)
    case True
    then have "same_seats room1 room'" "room_master room' = room_master room1" "user_nos room' = user_nos room1"
      using assms(2) Pair by (auto simp: set_equipment_snapshot_def same_seats_def user_nos_conv)
    with inv1 same_seats_inv [of room1 room'] show ?thesis by simp
  next
    case False
    with assms Pair show ?thesis by (simp add: set_equipment_snapshot_def)
  qed
qed

section \<open>Every room can be sent\<close>

lemma wire_member_cases: "MPlayer p = wire_member room i \<Longrightarrow> \<exists>m. members_by_id room ! i = Some m \<and> prm_player m = p"
  by (auto simp: wire_member_def split: option.splits if_splits)

lemma distinct_flatten:
  "(\<And>i j x. i < length xs \<Longrightarrow> j < length xs \<Longrightarrow> xs ! i = Some x \<Longrightarrow> xs ! j = Some x \<Longrightarrow> i = j) \<Longrightarrow> distinct (flatten xs)"
proof (induction xs)
  case Nil
  then show ?case by simp
next
  case (Cons y ys)
  have "distinct (flatten ys)"
  proof (rule Cons.IH)
    fix i j x assume "i < length ys" "j < length ys" "ys ! i = Some x" "ys ! j = Some x"
    with Cons.prems [of "Suc i" "Suc j" x] show "i = j" by simp
  qed
  moreover have "x \<notin> set (flatten ys)" if "y = Some x" for x
  proof
    assume "x \<in> set (flatten ys)"
    then have "Some x \<in> set ys" by (simp add: set_flatten)
    then obtain j where "j < length ys" "ys ! j = Some x" by (auto simp: in_set_conv_nth)
    with Cons.prems [of 0 "Suc j" x] that show False by simp
  qed
  ultimately show ?case by (cases y) simp_all
qed

lemma closed_slot_ids_ok:
  assumes "room_core room"
  shows "distinct (closed_slot_ids room)" "\<forall>c\<in>set (closed_slot_ids room). unat c < 8"
    "length (closed_slot_ids room) \<le> 8"
proof -
  note layout = room_layoutD [OF room_coreD(1) [OF assms]]
  show "distinct (closed_slot_ids room)"
    unfolding closed_slot_ids_def
  proof (rule distinct_flatten)
    fix i j c assume *: "i < length (closed_slots_by_id room)" "j < length (closed_slots_by_id room)"
      "closed_slots_by_id room ! i = Some c" "closed_slots_by_id room ! j = Some c"
    have linked: "slot_positions room ! unat c = Some (of_nat k)"
      if "k < length (closed_slots_by_id room)" "closed_slots_by_id room ! k = Some c" for k
      using that layout(8) unfolding closed_linked_def layout(3) by blast
    from linked [OF *(1,3)] linked [OF *(2,4)] have "(of_nat i :: u8) = of_nat j" by (metis option.inject)
    then show "i = j" using * layout(3) by (simp add: of_nat_u8_eq_iff)
  qed
  show "\<forall>c\<in>set (closed_slot_ids room). unat c < 8"
  proof
    fix c assume "c \<in> set (closed_slot_ids room)"
    then have "Some c \<in> set (closed_slots_by_id room)" by (simp add: closed_slot_ids_def set_flatten)
    then obtain i where "i < length (closed_slots_by_id room)" "closed_slots_by_id room ! i = Some c"
      by (auto simp: in_set_conv_nth)
    then show "unat c < 8" using layout(8) unfolding closed_linked_def layout(3) by blast
  qed
  show "length (closed_slot_ids room) \<le> 8"
    using length_flatten_le [of "closed_slots_by_id room"] layout(3) by (simp add: closed_slot_ids_def)
qed

lemma wire_positions_ok:
  assumes "room_core room" "p \<in> set (wire_slot_positions room)"
  shows "- 1 \<le> p \<and> p \<le> 7"
proof -
  note layout = room_layoutD [OF room_coreD(1) [OF assms(1)]]
  from assms(2) obtain x where x: "x \<in> set (slot_positions room)" "p = (case x of None \<Rightarrow> - 1 | Some m \<Rightarrow> uint m)"
    by (auto simp: wire_slot_positions_def)
  from x(1) obtain s where "s < length (slot_positions room)" "slot_positions room ! s = x"
    unfolding in_set_conv_nth by blast
  with x(2) layout(4) have s: "s < 8" "p = (case slot_positions room ! s of None \<Rightarrow> - 1 | Some m \<Rightarrow> uint m)"
    by simp_all
  show ?thesis
  proof (cases "slot_positions room ! s")
    case (Some m)
    with placed_owner [OF layout(7) _ Some] s(1) layout(4) taken_less [OF room_coreD(1) [OF assms(1)]]
    have "unat m < 8" by simp
    then have "m < 8" by (simp add: word_less_nat_alt)
    then have "uint m < 8" by (simp add: word_less_def)
    moreover have "0 \<le> uint m" by simp
    moreover have "p = uint m" using s(2) Some by simp
    ultimately show ?thesis by linarith
  qed (use s in simp)
qed

lemma slot_data_sendable:
  assumes "room_core room"
  shows "\<exists>bytes. serialize_gr_slot_data (slot_data room) = Inr bytes"
proof (rule serialize_gr_slot_data_total)
  note core = room_coreD [OF assms]
  note layout = room_layoutD [OF core(1)]
  have "player_strings_ok p" if "MPlayer p \<in> set (map (wire_member room) [0..<room_slot_count])" for p
  proof -
    from that obtain i where "i < 8" "MPlayer p = wire_member room i" by (auto simp: room_slot_count_def)
    with wire_member_cases obtain m where "members_by_id room ! i = Some m" "prm_player m = p" by blast
    with \<open>i < 8\<close> layout(1) have "Some m \<in> set (members_by_id room)" by (metis nth_mem)
    with core(5) \<open>prm_player m = p\<close> show ?thesis by (auto simp: room_strings_def member_strings_def)
  qed
  moreover have "length (encode_utf16 (ob_nickname p)) \<le> max_rider_nickname_units"
    if "OPlayer p \<in> set (map wire_observer (observers room))" for p
    using that core(5) by (auto simp: wire_observer_def room_strings_def split: option.splits)
  ultimately show "validate_slot_data (slot_data room) = Inr ()"
    using closed_slot_ids_ok [OF assms] wire_positions_ok [OF assms]
    by (auto simp: validate_slot_data_Inr_iff slot_data_def room_slot_data_empty_def room_slot_count_def)
qed

end
