(* ===== verification/WireGate.thy ===== *)
theory WireGate
  imports Transition
begin

text \<open>
  \<open>p5136-server/src/operation_gate.rs\<close>: the process-wide gate that admits login
  requests and outbound batches, and that the graceful shutdown closes and drains.
  The mutex-protected state is the record below; a method is one critical section.
  A waiting future is modelled by what it returns when it is polled: \<open>None\<close> while it
  stays pending.  \<open>usize\<close> counters are bounded by \<open>usize_max\<close>.
\<close>

record wire_gate =
  wg_accepting_requests :: bool
  wg_accepting_outbound :: bool
  wg_active_requests :: nat
  wg_active_outbound :: nat
  wg_force_bypassed :: bool

datatype wire_kind = WireRequest | WireOutbound

definition wire_gate_new :: wire_gate where
  "wire_gate_new = \<lparr>wg_accepting_requests = True, wg_accepting_outbound = True,
     wg_active_requests = 0, wg_active_outbound = 0, wg_force_bypassed = False\<rparr>"

fun wire_accepting :: "wire_kind \<Rightarrow> wire_gate \<Rightarrow> bool" where
  "wire_accepting WireRequest g = wg_accepting_requests g"
| "wire_accepting WireOutbound g = wg_accepting_outbound g"

fun wire_active :: "wire_kind \<Rightarrow> wire_gate \<Rightarrow> nat" where
  "wire_active WireRequest g = wg_active_requests g"
| "wire_active WireOutbound g = wg_active_outbound g"

fun wire_seal :: "wire_kind \<Rightarrow> wire_gate \<Rightarrow> wire_gate" where
  "wire_seal WireRequest g = g\<lparr>wg_accepting_requests := False\<rparr>"
| "wire_seal WireOutbound g = g\<lparr>wg_accepting_outbound := False\<rparr>"

fun set_active_count :: "wire_kind \<Rightarrow> nat \<Rightarrow> wire_gate \<Rightarrow> wire_gate" where
  "set_active_count WireRequest n g = g\<lparr>wg_active_requests := n\<rparr>"
| "set_active_count WireOutbound n g = g\<lparr>wg_active_outbound := n\<rparr>"

text \<open>\<open>try_begin\<close>: \<open>True\<close> when a guard of the kind is handed out.\<close>

definition try_begin :: "wire_kind \<Rightarrow> wire_gate \<Rightarrow> bool \<times> wire_gate" where
  "try_begin k g =
     (if \<not> wire_accepting k g then (False, g)
      else (case checked_add_usize (wire_active k g) 1 of
              None \<Rightarrow> (False, wire_seal k g)
            | Some next \<Rightarrow> (True, set_active_count k next g)))"

definition close_admission :: "wire_kind \<Rightarrow> wire_gate \<Rightarrow> nat \<times> wire_gate" where
  "close_admission k g = (wire_active k g, wire_seal k g)"

definition force_bypass :: "wire_gate \<Rightarrow> (nat \<times> nat) \<times> wire_gate" where
  "force_bypass g = ((wg_active_requests g, wg_active_outbound g),
     g\<lparr>wg_accepting_requests := False, wg_accepting_outbound := False, wg_force_bypassed := True\<rparr>)"

text \<open>One poll of \<open>wait_for_request_drain_or_bypass\<close> or its outbound twin.\<close>

definition drain_poll :: "wire_kind \<Rightarrow> wire_gate \<Rightarrow> bool option" where
  "drain_poll k g =
     (if wg_force_bypassed g then Some False else if wire_active k g = 0 then Some True else None)"

text \<open>\<open>Drop\<close> of a guard; a second retirement of one guard would hit the \<open>checked_sub\<close>.\<close>

definition guard_drop :: "wire_kind \<Rightarrow> wire_gate \<Rightarrow> wire_gate" where
  "guard_drop k g = (if wire_active k g = 0 then g else set_active_count k (wire_active k g - 1) g)"

lemma wire_gate_ops [simp]:
  "wire_active k (set_active_count k n g) = n" "wire_accepting k' (set_active_count k n g) = wire_accepting k' g"
  "wire_active k' (wire_seal k g) = wire_active k' g" "wg_force_bypassed (wire_seal k g) = wg_force_bypassed g"
  "wg_force_bypassed (set_active_count k n g) = wg_force_bypassed g"
  by (cases k; cases k'; simp)+

lemma active_other [simp]: "k \<noteq> k' \<Longrightarrow> wire_active k' (set_active_count k n g) = wire_active k' g"
  by (cases k; cases k'; simp)

lemma accepting_seal [simp]: "wire_accepting k' (wire_seal k g) \<longleftrightarrow> wire_accepting k' g \<and> k' \<noteq> k"
  by (cases k; cases k'; simp)

section \<open>Runs\<close>

text \<open>
  A run of the process keeps the gate together with the guards that are alive;
  a task holds a guard from its admission until it drops it.
\<close>

record gate_run =
  gr_gate :: wire_gate
  gr_guards :: "wire_kind \<Rightarrow> nat"

definition gate_start :: gate_run where
  "gate_start = \<lparr>gr_gate = wire_gate_new, gr_guards = (\<lambda>_. 0)\<rparr>"

inductive gate_step :: "gate_run \<Rightarrow> gate_run \<Rightarrow> bool" where
  admit: "try_begin k (gr_gate r) = (b, g) \<Longrightarrow>
     gate_step r \<lparr>gr_gate = g, gr_guards = (if b then (gr_guards r)(k := gr_guards r k + 1) else gr_guards r)\<rparr>"
| retire: "0 < gr_guards r k \<Longrightarrow>
     gate_step r \<lparr>gr_gate = guard_drop k (gr_gate r), gr_guards = (gr_guards r)(k := gr_guards r k - 1)\<rparr>"
| close: "gate_step r (r\<lparr>gr_gate := snd (close_admission k (gr_gate r))\<rparr>)"
| force: "gate_step r (r\<lparr>gr_gate := snd (force_bypass (gr_gate r))\<rparr>)"

definition gate_inv :: "gate_run \<Rightarrow> bool" where
  "gate_inv r \<longleftrightarrow> (\<forall>k. wire_active k (gr_gate r) = gr_guards r k \<and> gr_guards r k \<le> usize_max)
     \<and> (wg_force_bypassed (gr_gate r) \<longrightarrow> (\<forall>k. \<not> wire_accepting k (gr_gate r)))"

text \<open>What never changes back: a closed phase stays closed and then only loses guards.\<close>

definition gate_later :: "gate_run \<Rightarrow> gate_run \<Rightarrow> bool" where
  "gate_later r s \<longleftrightarrow> (\<forall>k. \<not> wire_accepting k (gr_gate r) \<longrightarrow>
       \<not> wire_accepting k (gr_gate s) \<and> gr_guards s k \<le> gr_guards r k)
     \<and> (wg_force_bypassed (gr_gate r) \<longrightarrow> wg_force_bypassed (gr_gate s))"

lemma gate_force_simps [simp]:
  "wire_active k (snd (force_bypass g)) = wire_active k g" "wire_accepting k (snd (force_bypass g)) = False"
  "wg_force_bypassed (snd (force_bypass g))"
  by (cases k; simp add: force_bypass_def)+

lemma try_begin_cases:
  assumes "try_begin k g = (b, g')"
  obtains (admitted) "b" "wire_accepting k g" "wire_active k g < usize_max" "g' = set_active_count k (wire_active k g + 1) g"
  | (closed) "\<not> b" "\<not> wire_accepting k g" "g' = g"
  | (exhausted) "\<not> b" "wire_accepting k g" "g' = wire_seal k g"
  using assms
  by (auto simp: try_begin_def checked_add_usize_def split: if_splits)

lemma gate_step_inv: "gate_inv r \<Longrightarrow> gate_step r s \<Longrightarrow> gate_inv s"
proof (erule gate_step.cases)
  fix k r' b g
  assume inv: "gate_inv r" and r: "r = r'" and start: "try_begin k (gr_gate r') = (b, g)"
    and s: "s = \<lparr>gr_gate = g, gr_guards = (if b then (gr_guards r')(k := gr_guards r' k + 1) else gr_guards r')\<rparr>"
  from start show "gate_inv s"
  proof (cases rule: try_begin_cases)
    case admitted
    have "wire_active k' g = (if k' = k then wire_active k (gr_gate r) + 1 else wire_active k' (gr_gate r))" for k'
      using admitted r by (cases "k' = k") simp_all
    then show ?thesis using inv admitted r s by (auto simp: gate_inv_def)
  next
    case closed
    then show ?thesis using inv r s by (simp add: gate_inv_def)
  next
    case exhausted
    then show ?thesis using inv r s by (auto simp: gate_inv_def)
  qed
next
  fix r' k
  assume inv: "gate_inv r" and r: "r = r'" and some: "0 < gr_guards r' k"
    and s: "s = \<lparr>gr_gate = guard_drop k (gr_gate r'), gr_guards = (gr_guards r')(k := gr_guards r' k - 1)\<rparr>"
  have "wire_active k' (guard_drop k (gr_gate r)) = (if k' = k then wire_active k (gr_gate r) - 1 else wire_active k' (gr_gate r))" for k'
    using inv some r by (cases "k' = k") (simp_all add: guard_drop_def gate_inv_def)
  moreover have "wire_accepting k' (guard_drop k (gr_gate r)) = wire_accepting k' (gr_gate r)" for k'
    by (simp add: guard_drop_def)
  moreover have "wg_force_bypassed (guard_drop k (gr_gate r)) = wg_force_bypassed (gr_gate r)"
    by (simp add: guard_drop_def)
  ultimately show "gate_inv s" using inv r s by (auto simp: gate_inv_def intro: order_trans [OF diff_le_self])
qed (auto simp: gate_inv_def close_admission_def)

lemma gate_step_later: "gate_inv r \<Longrightarrow> gate_step r s \<Longrightarrow> gate_later r s"
proof (erule gate_step.cases)
  fix k r' b g
  assume r: "r = r'" and start: "try_begin k (gr_gate r') = (b, g)"
    and s: "s = \<lparr>gr_gate = g, gr_guards = (if b then (gr_guards r')(k := gr_guards r' k + 1) else gr_guards r')\<rparr>"
  from start show "gate_later r s"
    by (cases rule: try_begin_cases) (use r s in \<open>auto simp: gate_later_def\<close>)
qed (auto simp: gate_later_def close_admission_def guard_drop_def)

interpretation gate_run: step_monotone "\<lambda>r. r = gate_start" gate_step gate_inv gate_later
proof unfold_locales
  show "gate_inv r" if "r = gate_start" for r
    using that by (simp add: gate_inv_def gate_start_def wire_gate_new_def) (metis wire_active.elims wire_gate.select_convs(3,4) zero_le)
  show "gate_inv t" if "gate_inv s" "gate_step s t" for s t
    using that by (rule gate_step_inv)
  show "gate_later s s" for s by (simp add: gate_later_def)
  show "gate_later s u" if "gate_later s t" "gate_later t u" for s t u
    using that by (auto simp: gate_later_def intro: order_trans)
  show "gate_later s t" if "gate_inv s" "gate_step s t" for s t
    using that by (rule gate_step_later)
qed

section \<open>Properties\<close>

text \<open>C35: A shutdown that waits for a phase is told that it drained only when no guard of
  the phase is alive; and once the phase was closed, none appears afterwards, so the drained
  phase stays drained.  The counters are exactly the live guards and never wrap.\<close>

theorem closed_phase_drains:
  assumes "gate_step\<^sup>*\<^sup>* gate_start r" and "\<not> wire_accepting k (gr_gate r)" and "gate_step\<^sup>*\<^sup>* r s"
  shows "wire_active k (gr_gate s) = gr_guards s k \<and> gr_guards s k \<le> gr_guards r k \<and> gr_guards s k \<le> usize_max
    \<and> \<not> fst (try_begin k (gr_gate s))
    \<and> (drain_poll k (gr_gate s) = Some True \<longleftrightarrow> gr_guards s k = 0 \<and> \<not> wg_force_bypassed (gr_gate s))"
proof -
  have inv: "gate_inv r" using gate_run.reachable_inv assms(1) by simp
  then have inv_s: "gate_inv s" using gate_run.steps_inv assms(3) by blast
  have "\<not> wire_accepting k (gr_gate s) \<and> gr_guards s k \<le> gr_guards r k"
    using gate_run.steps_rel [OF assms(3) inv] assms(2) by (simp add: gate_later_def)
  with inv_s show ?thesis by (simp add: gate_inv_def drain_poll_def try_begin_def)
qed

text \<open>A request is admitted, the phase is closed, the request retires, and the wait returns.\<close>

abbreviation run_of :: "bool \<Rightarrow> nat \<Rightarrow> gate_run" where
  "run_of b n \<equiv> \<lparr>gr_gate = wire_gate_new\<lparr>wg_accepting_requests := b, wg_active_requests := n\<rparr>,
     gr_guards = (\<lambda>_. 0)(WireRequest := n)\<rparr>"

lemma demo_admit: "gate_step gate_start (run_of True 1)"
  using gate_step.admit [of WireRequest gate_start True "wire_gate_new\<lparr>wg_active_requests := 1\<rparr>"]
  by (simp add: gate_start_def try_begin_def wire_gate_new_def checked_add_usize_def usize_max_def)

lemma demo_close: "gate_step (run_of True 1) (run_of False 1)"
  using gate_step.close [of "run_of True 1" WireRequest]
  by (simp add: close_admission_def wire_gate_new_def)

lemma demo_retire: "gate_step (run_of False 1) (run_of False 0)"
  using gate_step.retire [of "run_of False 1" WireRequest]
  by (simp add: guard_drop_def wire_gate_new_def)

theorem closed_phase_drains_witness:
  "drain_poll WireRequest (gr_gate (run_of False 0)) = Some True
     \<and> drain_poll WireRequest (gr_gate (run_of False 1)) = None"
proof -
  have "gate_step\<^sup>*\<^sup>* gate_start (run_of False 1)"
    using demo_admit demo_close by (meson rtranclp.rtrancl_into_rtrancl rtranclp.rtrancl_refl)
  moreover have "gate_step\<^sup>*\<^sup>* (run_of False 1) (run_of False 0)" using demo_retire by blast
  ultimately show ?thesis
    using closed_phase_drains [of "run_of False 1" WireRequest "run_of False 0"]
    by (simp add: drain_poll_def wire_gate_new_def)
qed

end
