(* ===== verification/RaceStart.thy ===== *)
theory RaceStart
  imports RoomProtocol
begin

text \<open>
  \<open>p5136-core/src/race_start_protocol.rs\<close>: the personalised command that starts a
  race, with the tables the server resolves for it (\<open>BasicAiModeParameters\<close> of
  \<open>p5136-server/src/config.rs\<close> and \<open>ResolvedRandomTracks\<close> of \<open>random_track.rs\<close>).
\<close>

definition p5136_kart_physics_block_length :: nat where "p5136_kart_physics_block_length = 235"
definition ai_race_spec_value_count :: nat where "ai_race_spec_value_count = 6"
definition max_gr_command_start_ai_count :: nat where "max_gr_command_start_ai_count = room_slot_count"
definition ai_race_spec_wire_length :: nat where "ai_race_spec_wire_length = ai_race_spec_value_count * 4"

definition mission_info_tail :: "u8 list" where
  "mission_info_tail = replicate 10 0 @ replicate 4 0xff @ replicate 9 0"

definition fixed_wire_length :: nat where
  "fixed_wire_length = 4 + 4 + p5136_kart_physics_block_length + 4 + 4 + 4 + 4 + 4 + length mission_info_tail"

datatype race_start_protocol_error =
    RsRoom room_protocol_error
  | RsInvalidKartPhysicsBlockLength nat nat
  | RsTooManyAi nat nat
  | RsAiCountMismatch nat nat
  | RsNonFiniteAiSpecValue nat u32
  | RsAiSpecValueOutOfBounds nat u32 u32
  | RsPayloadLengthOverflow
  | RsPayloadTooLarge nat nat

text \<open>\<open>P5136KartPhysicsBlock::try_from\<close>.\<close>

definition kart_physics_block_from :: "u8 list \<Rightarrow> race_start_protocol_error + u8 list" where
  "kart_physics_block_from bytes =
     (if length bytes \<noteq> p5136_kart_physics_block_length
      then Inl (RsInvalidKartPhysicsBlockLength (length bytes) p5136_kart_physics_block_length)
      else Inr bytes)"

text \<open>
  \<open>AiRaceSpec::new\<close> on IEEE-754 single bit patterns.  A float is finite when its
  exponent is not all ones; among finite floats \<open>0.0 <= v <= m\<close>, for a positive
  maximum \<open>m\<close>, holds of the negative zero and of the patterns up to that of \<open>m\<close>.
\<close>

definition f32_is_finite :: "u32 \<Rightarrow> bool" where
  "f32_is_finite bits \<longleftrightarrow> bits AND 0x7F800000 \<noteq> 0x7F800000"

definition f32_from_zero_to :: "u32 \<Rightarrow> u32 \<Rightarrow> bool" where
  "f32_from_zero_to maximum bits \<longleftrightarrow> bits = 0x80000000 \<or> bits \<le> maximum"

text \<open>10.0, 10 000.0, 10 000.0, 10.0, 10 000.0 and 10 000.0.\<close>

definition ai_race_spec_max_values :: "u32 list" where
  "ai_race_spec_max_values = [0x41200000, 0x461C4000, 0x461C4000, 0x41200000, 0x461C4000, 0x461C4000]"

fun check_ai_values :: "nat \<Rightarrow> (u32 \<times> u32) list \<Rightarrow> race_start_protocol_error + unit" where
  "check_ai_values field [] = Inr ()"
| "check_ai_values field ((value, maximum) # rest) =
     (if \<not> f32_is_finite value then Inl (RsNonFiniteAiSpecValue field value)
      else if \<not> f32_from_zero_to maximum value then Inl (RsAiSpecValueOutOfBounds field value maximum)
      else check_ai_values (Suc field) rest)"

definition ai_race_spec_new :: "u32 list \<Rightarrow> race_start_protocol_error + u32 list" where
  "ai_race_spec_new values =
     rbind (check_ai_values 0 (zip values ai_race_spec_max_values)) (\<lambda>_. Inr values)"

section \<open>Server tables\<close>

record basic_ai_mode_parameters =
  bam_speed :: "u32 list"
  bam_item :: "u32 list"

definition race_spec_for_game_type :: "basic_ai_mode_parameters \<Rightarrow> u8 \<Rightarrow> u32 list" where
  "race_spec_for_game_type p game_type = (if game_type \<in> {2, 4} then bam_item p else bam_speed p)"

record resolved_random_track_pool =
  rtp_hashes :: "u32 list"
  rtp_basic_ai_hashes :: "u32 list"

type_synonym resolved_random_tracks = "((u8 \<times> u32) \<times> resolved_random_track_pool) list"

definition pool_candidates :: "resolved_random_tracks \<Rightarrow> u8 \<Rightarrow> u32 \<Rightarrow> bool \<Rightarrow> u32 list" where
  "pool_candidates pools game_type selector basic_ai_only =
     (case map_of pools (if game_type \<in> {2, 4} then 1 else 0, selector) of
        None \<Rightarrow> []
      | Some pool \<Rightarrow> if basic_ai_only \<and> rtp_basic_ai_hashes pool \<noteq> [] then rtp_basic_ai_hashes pool
                     else rtp_hashes pool)"

section \<open>The command\<close>

record gr_command_start =
  gcs_session_data :: room_session_data
  gcs_slot_data :: room_slot_data
  gcs_kart_physics :: "u8 list"
  gcs_ai_specs :: "u32 list list"
  gcs_concrete_track :: u32

definition is_ai_member :: "room_member \<Rightarrow> bool" where
  "is_ai_member m = (case m of MAi _ \<Rightarrow> True | _ \<Rightarrow> False)"

text \<open>The stock client starts only when the master is shown as ready.\<close>

definition race_start_slot_data :: "room_slot_data \<Rightarrow> room_slot_data" where
  "race_start_slot_data slots =
     (if 0 \<le> rs_room_master slots \<and> nat (rs_room_master slots) < length (rs_members_by_id slots)
      then (case rs_members_by_id slots ! nat (rs_room_master slots) of
              MPlayer p \<Rightarrow> if player_type p = 2
                then slots\<lparr>rs_members_by_id := (rs_members_by_id slots)[nat (rs_room_master slots) := MPlayer (p\<lparr>player_type := 3\<rparr>)]\<rparr>
                else slots
            | _ \<Rightarrow> slots)
      else slots)"

definition start_payload_length :: "nat \<Rightarrow> nat \<Rightarrow> nat \<Rightarrow> nat option" where
  "start_payload_length session_length slot_length ai_length =
     Option.bind (checked_add_usize fixed_wire_length session_length) (\<lambda>n.
     Option.bind (checked_add_usize n slot_length) (\<lambda>n. checked_add_usize n ai_length))"

definition write_ai_specs :: "u32 list list \<Rightarrow> packet_writer \<Rightarrow> packet_writer" where
  "write_ai_specs specs packet = foldl (\<lambda>w v. write_encoded_f32 v w) packet (concat specs)"

definition write_gr_command_start :: "gr_command_start \<Rightarrow> u8 list \<Rightarrow> u8 list \<Rightarrow> u8 list" where
  "write_gr_command_start command session_packet slot_packet =
     write_bytes mission_info_tail
     (write_u32 0x1A54046E
     (write_i32 0
     (write_i32 10000
     (write_u32 (gcs_concrete_track command)
     (write_ai_specs (gcs_ai_specs command)
     (write_i32 (int (length (gcs_ai_specs command)))
     (write_bytes (gcs_kart_physics command)
     (write_i32 0
     (write_bytes slot_packet
     (write_bytes session_packet (writer_named ''GrCommandStartPacket'')))))))))))"

definition serialize_gr_command_start_bounded ::
  "gr_command_start \<Rightarrow> nat \<Rightarrow> race_start_protocol_error + u8 list" where
  "serialize_gr_command_start_bounded command maximum =
     (let spec_count = length (gcs_ai_specs command);
          slot_count = length (filter is_ai_member (rs_members_by_id (gcs_slot_data command))) in
      if spec_count > max_gr_command_start_ai_count
      then Inl (RsTooManyAi spec_count max_gr_command_start_ai_count)
      else if slot_count \<noteq> spec_count then Inl (RsAiCountMismatch slot_count spec_count)
      else
        rbind (rmap_err RsRoom (serialize_gr_session_data (gcs_session_data command))) (\<lambda>session_packet.
        rbind (rmap_err RsRoom (serialize_gr_slot_data (race_start_slot_data (gcs_slot_data command)))) (\<lambda>slot_packet.
        rbind (ok_or RsPayloadLengthOverflow (checked_mul_usize spec_count ai_race_spec_wire_length)) (\<lambda>ai_length.
        rbind (ok_or RsPayloadLengthOverflow
                (start_payload_length (length session_packet) (length slot_packet) ai_length)) (\<lambda>payload_length.
        if payload_length > maximum then Inl (RsPayloadTooLarge payload_length maximum)
        else Inr (write_gr_command_start command session_packet slot_packet))))))"

section \<open>Facts\<close>

lemma f32_examples:
  "f32_is_finite 0x3F800000" "\<not> f32_is_finite 0x7F800000" "\<not> f32_is_finite 0xFFC00000"
  "f32_from_zero_to 0x41200000 0x80000000" "\<not> f32_from_zero_to 0x41200000 0x80000001"
  by (simp_all add: f32_is_finite_def f32_from_zero_to_def)

lemma length_write_ai_specs:
  assumes "\<forall>s\<in>set specs. length s = ai_race_spec_value_count"
  shows "length (write_ai_specs specs w) = length w + length specs * ai_race_spec_wire_length"
proof -
  have "length (foldl (\<lambda>w v. write_encoded_f32 v w) w vs) = length w + 4 * length vs" for vs w
    by (induction vs arbitrary: w) simp_all
  moreover have "length (concat specs) = length specs * ai_race_spec_value_count"
    using assms by (induction specs) simp_all
  ultimately show ?thesis by (simp add: write_ai_specs_def ai_race_spec_wire_length_def)
qed

lemma length_write_gr_command_start:
  assumes "\<forall>s\<in>set (gcs_ai_specs command). length s = ai_race_spec_value_count"
    and "length (gcs_kart_physics command) = p5136_kart_physics_block_length"
  shows "length (write_gr_command_start command session_packet slot_packet)
    = fixed_wire_length + length session_packet + length slot_packet + length (gcs_ai_specs command) * ai_race_spec_wire_length"
  using assms(2) by (simp add: write_gr_command_start_def length_write_ai_specs [OF assms(1)] fixed_wire_length_def)

text \<open>C36: Every start command that is sent is exactly as long as the length that was checked
  against the frame ceiling (the \<open>debug_assert_eq\<close> of the source), so it stays within the ceiling,
  and it announces as many AI specifications as it carries and as the slot snapshot has AI racers.\<close>

theorem start_command_within_ceiling:
  assumes "serialize_gr_command_start_bounded command maximum = Inr bytes"
    and "\<forall>s\<in>set (gcs_ai_specs command). length s = ai_race_spec_value_count"
    and "length (gcs_kart_physics command) = p5136_kart_physics_block_length"
  shows "length bytes \<le> maximum
    \<and> length (gcs_ai_specs command) = length (filter is_ai_member (rs_members_by_id (gcs_slot_data command)))
    \<and> (\<exists>session slots. serialize_gr_session_data (gcs_session_data command) = Inr session
         \<and> serialize_gr_slot_data (race_start_slot_data (gcs_slot_data command)) = Inr slots
         \<and> length bytes = 286 + length session + length slots + 24 * length (gcs_ai_specs command)
         \<and> take (4 + length session + length slots) bytes = le32 (packet_hash ''GrCommandStartPacket'') @ session @ slots)"
proof -
  from assms(1) obtain session slots n where parts:
    "serialize_gr_session_data (gcs_session_data command) = Inr session"
    "serialize_gr_slot_data (race_start_slot_data (gcs_slot_data command)) = Inr slots"
    "start_payload_length (length session) (length slots) (length (gcs_ai_specs command) * ai_race_spec_wire_length) = Some n"
    "n \<le> maximum" "bytes = write_gr_command_start command session slots"
    "length (filter is_ai_member (rs_members_by_id (gcs_slot_data command))) = length (gcs_ai_specs command)"
    by (auto simp: serialize_gr_command_start_bounded_def Let_def result_iff checked_mul_usize_def split: if_splits)
  have len: "length bytes = fixed_wire_length + length session + length slots + length (gcs_ai_specs command) * ai_race_spec_wire_length"
    using parts(5) length_write_gr_command_start [OF assms(2,3)] by simp
  have "n = length bytes"
    using parts(3) len by (auto simp: start_payload_length_def checked_add_usize_def bind_eq_Some_conv split: if_splits)
  have fixed: "fixed_wire_length = 286" "ai_race_spec_wire_length = 24"
    by (simp_all add: fixed_wire_length_def p5136_kart_physics_block_length_def mission_info_tail_def
        ai_race_spec_wire_length_def ai_race_spec_value_count_def)
  have "\<exists>rest. write_ai_specs specs w = w @ rest" for specs w
  proof -
    have "\<exists>rest. foldl (\<lambda>w v. write_encoded_f32 v w) w vs = w @ rest" for vs and w :: packet_writer
      by (induction vs arbitrary: w) (auto simp: write_encoded_f32_def, metis append_assoc)
    then show ?thesis by (simp add: write_ai_specs_def)
  qed
  then obtain rest where shape: "bytes = le32 (packet_hash ''GrCommandStartPacket'') @ session @ slots @ rest"
    unfolding parts(5) write_gr_command_start_def write_defs writer_named_def by simp (metis append_assoc)
  have "take (4 + length session + length slots) bytes = le32 (packet_hash ''GrCommandStartPacket'') @ session @ slots"
    unfolding shape by simp
  moreover have "length bytes = 286 + length session + length slots + 24 * length (gcs_ai_specs command)"
    using len fixed by simp
  moreover have "length bytes \<le> maximum" using parts(4) \<open>n = length bytes\<close> by simp
  ultimately show ?thesis using parts(1,2,6) by auto
qed

definition demo_start :: gr_command_start where
  "demo_start = \<lparr>gcs_session_data = \<lparr>rsd_room_name = [65], rsd_password = [], rsd_game_type = 3, rsd_speed_type = 7\<rparr>,
     gcs_slot_data = room_slot_data_empty 0x01020304 0x11121314 (replicate 32 0xA5) 0,
     gcs_kart_physics = replicate 235 7, gcs_ai_specs = [], gcs_concrete_track = 0x89ABCDEF\<rparr>"

lemma demo_session_sent: "\<exists>bs. serialize_gr_session_data (gcs_session_data demo_start) = Inr bs \<and> length bs = 31"
  by (simp add: demo_start_def serialize_gr_session_data_def validate_utf16_def enforce_limit_def write_utf16_def
      encode_utf16_def encode_utf16_char_def room_limit_defs)

lemma write_all_blank:
  assumes "\<And>w. \<exists>w'. f x w = Inr w' \<and> length w' = length w + 4"
  shows "\<exists>w'. write_all f (replicate n x) w = Inr w' \<and> length w' = length w + 4 * n"
proof (induction n arbitrary: w)
  case (Suc n)
  obtain w1 where "f x w = Inr w1" "length w1 = length w + 4" using assms by blast
  with Suc [of w1] show ?case by auto
qed simp

lemma length_write_slot_positions: "length (write_slot_positions ps w) = length w + 4 * length ps"
  by (induction ps arbitrary: w) (simp_all add: write_slot_positions_def)

lemma blank_slots_sent:
  assumes "length data = 32"
  shows "\<exists>bs. serialize_gr_slot_data (room_slot_data_empty track header data master) = Inr bs \<and> length bs = 175"
proof -
  let ?slots = "room_slot_data_empty track header data master"
  have valid: "validate_slot_data ?slots = Inr ()"
    by (auto simp: validate_slot_data_Inr_iff room_slot_data_empty_def)
  define w where "w = write_bytes (replicate 16 0) (write_bytes (rs_closed_slot_ids ?slots) (write_i32 0
    (write_bytes (replicate 11 0) (write_i32 (rs_room_master ?slots) (write_bytes (rs_room_data ?slots)
        (write_u32 (rs_room_data_header ?slots) (write_u32 (rs_track ?slots)
        (writer_named ''GrSlotDataPacket''))))))))"
  obtain w1 where w1: "write_all write_member (rs_members_by_id ?slots) w = Inr w1" "length w1 = length w + 32"
    using write_all_blank [of write_member MEmpty 8 w]
    by (auto simp: room_slot_data_empty_def room_slot_count_def write_member_def)
  obtain w2 where w2: "write_all write_observer_slot (rs_observers ?slots) w1 = Inr w2" "length w2 = length w1 + 32"
    using write_all_blank [of write_observer_slot OEmpty 8 w1]
    by (auto simp: room_slot_data_empty_def room_observer_count_def write_observer_slot_def)
  have "count_i32 ''closed room slot'' (length (rs_closed_slot_ids ?slots)) = Inr 0"
    by (simp add: count_i32_def room_slot_data_empty_def)
  with valid w1(1) w2(1) have "serialize_gr_slot_data ?slots = Inr (write_slot_positions (rs_slot_positions ?slots) w2)"
    by (simp add: serialize_gr_slot_data_def w_def)
  moreover have "length w = 79"
    using assms by (simp add: w_def room_slot_data_empty_def)
  ultimately show ?thesis
    using w1(2) w2(2) by (simp add: length_write_slot_positions room_slot_data_empty_def room_slot_count_def)
qed

lemma demo_slots_sent:
  "\<exists>bs. serialize_gr_slot_data (race_start_slot_data (gcs_slot_data demo_start)) = Inr bs \<and> length bs = 175"
  using blank_slots_sent [of "replicate 32 0xA5"]
  by (simp add: demo_start_def race_start_slot_data_def room_slot_data_empty_def room_slot_count_def)

lemma demo_no_ai: "gcs_ai_specs demo_start = []" "filter is_ai_member (rs_members_by_id (gcs_slot_data demo_start)) = []"
  by (simp_all add: demo_start_def room_slot_data_empty_def is_ai_member_def)

theorem start_command_within_ceiling_witness:
  "\<exists>bytes. serialize_gr_command_start_bounded demo_start 1000 = Inr bytes \<and> length bytes \<le> 1000"
proof -
  obtain session slots where "serialize_gr_session_data (gcs_session_data demo_start) = Inr session" "length session = 31"
    "serialize_gr_slot_data (race_start_slot_data (gcs_slot_data demo_start)) = Inr slots" "length slots = 175"
    using demo_session_sent demo_slots_sent by blast
  then have "serialize_gr_command_start_bounded demo_start 1000 = Inr (write_gr_command_start demo_start session slots)"
    using demo_no_ai
    by (simp add: serialize_gr_command_start_bounded_def start_payload_length_def checked_add_usize_def
        checked_mul_usize_def usize_max_def fixed_wire_length_def p5136_kart_physics_block_length_def mission_info_tail_def)
  with start_command_within_ceiling [of demo_start 1000 "write_gr_command_start demo_start session slots"] show ?thesis
    by (simp add: demo_start_def p5136_kart_physics_block_length_def)
qed

end
