(* ===== verification/RaceProtocol.thy ===== *)
theory RaceProtocol
  imports RoomData
begin

text \<open>
  The race packets: \<open>p5136-core/src/race_protocol.rs\<close> (start clock, finish reports,
  team booster gauge, recorder statistics, settlement stage) and
  \<open>p5136-core/src/race_result_protocol.rs\<close> (the settlement record with its checks).
  Floats are their IEEE bits; the comparisons the code makes on them are written on
  the bits.
\<close>

section \<open>Constants and data\<close>

definition max_game_control_trailing_bytes :: nat where "max_game_control_trailing_bytes = 512"
definition canonical_game_control_body_length :: nat where "canonical_game_control_body_length = 81"
definition game_control_finish_trailing_length :: nat where "game_control_finish_trailing_length = 393"
definition finish_session_auth_words :: nat where "finish_session_auth_words = 7"
definition finish_result_subobject_length :: nat where "finish_result_subobject_length = 54"
definition finish_kart_spec_length :: nat where "finish_kart_spec_length = 235"
definition finish_shared_object_length :: nat where "finish_shared_object_length = 22"
definition finish_participant_slot_count :: nat where "finish_participant_slot_count = 8"

lemmas finish_lengths = max_game_control_trailing_bytes_def game_control_finish_trailing_length_def
  finish_session_auth_words_def finish_result_subobject_length_def finish_kart_spec_length_def
  finish_shared_object_length_def finish_participant_slot_count_def

datatype race_request =
    GameControl | AiGoalIn | TeamBoosterGauge | GameSlot | StartCollectRecord
  | ReportUserCollectedRecord | ReportGameCollectedRecord

datatype race_protocol_error =
    RcPacket packet_error
  | RcUnexpectedPacketHash string u32 u32
  | RcTrailingBytes string nat
  | RcGameControlTailTooLarge nat nat
  | RcInvalidSharedObjectLength u32 nat
  | RcInvalidPlayerId int
  | RcInvalidTeam u8
  | RcInvalidBoosterContribution
  | RcInvalidBoosterGauge

record game_control_request =
  gc_state :: int
  gc_optional_pair :: "(int \<times> int) option"
  gc_value0 :: u32
  gc_trailing :: "u8 list"

record game_control_finish_snapshot =
  gf_value1 :: u32
  gf_value2 :: u32
  gf_session_auth :: "u32 list"
  gf_result_subobject :: "u8 list"
  gf_kart_spec_snapshot :: "u8 list"
  gf_shared_object :: "u8 list"
  gf_participant_slots :: "u32 list"
  gf_result_global_metric :: u32
  gf_local_kart_or_player_result :: u32
  gf_terminal_client_state :: u8

record ai_goal_in_request =
  ag_player_id :: int
  ag_race_time :: u32

record team_booster_gauge_request =
  tb_team :: race_team
  tb_contribution :: u32               \<comment> \<open>the bits of an \<open>f32\<close>\<close>

record user_collected_record_report =
  uc_elapsed_ms :: u32
  uc_recorder_metric_1 :: u32
  uc_recorder_metric_2 :: u32
  uc_recorder_metric_3 :: u32
  uc_recorder_metric_4 :: u32

datatype server_game_control = RaceStartControl | BeginSettlementControl | FinalStageControl

fun server_game_control_code :: "server_game_control \<Rightarrow> int" where
  "server_game_control_code RaceStartControl = 1"
| "server_game_control_code BeginSettlementControl = 3"
| "server_game_control_code FinalStageControl = 4"

fun race_team_code :: "race_team \<Rightarrow> u8" where
  "race_team_code RaceRed = 1"
| "race_team_code RaceBlue = 2"

definition race_team_of_wire :: "u8 \<Rightarrow> race_protocol_error + race_team" where
  "race_team_of_wire value =
     (if value = 1 then Inr RaceRed else if value = 2 then Inr RaceBlue else Inl (RcInvalidTeam value))"

section \<open>Floats as bits\<close>

definition f32_is_finite :: "u32 \<Rightarrow> bool" where
  "f32_is_finite bits \<longleftrightarrow> unat bits mod 2 ^ 31 < 0x7F800000"

definition f32_is_negative :: "u32 \<Rightarrow> bool" where
  "f32_is_negative bits \<longleftrightarrow> 0x80000000 < unat bits"

definition f32_in_unit :: "u32 \<Rightarrow> bool" where
  "f32_in_unit bits \<longleftrightarrow> bits = 0x80000000 \<or> unat bits \<le> 0x3F800000"

section \<open>Classification\<close>

fun race_request_name :: "race_request \<Rightarrow> string" where
  "race_request_name GameControl = ''GameControlPacket''"
| "race_request_name AiGoalIn = ''GameAiGoalinPacket''"
| "race_request_name TeamBoosterGauge = ''GameTeamBoosterRequestAddGaugePacket''"
| "race_request_name GameSlot = ''GameSlotPacket''"
| "race_request_name StartCollectRecord = ''PqStartCollectRecord''"
| "race_request_name ReportUserCollectedRecord = ''PcReportUserCollectedRecord''"
| "race_request_name ReportGameCollectedRecord = ''PqReportGameCollectedRecord''"

definition race_requests :: "race_request list" where
  "race_requests = [GameControl, AiGoalIn, TeamBoosterGauge, GameSlot, StartCollectRecord,
     ReportUserCollectedRecord, ReportGameCollectedRecord]"

definition classify_race_request :: "u32 \<Rightarrow> race_request option" where
  "classify_race_request h = List.find (\<lambda>request. packet_hash (race_request_name request) = h) race_requests"

section \<open>Parsers\<close>

abbreviation rclift :: "(packet_error, 'a) parser \<Rightarrow> (race_protocol_error, 'a) parser" where
  "rclift \<equiv> perr RcPacket"

definition race_expect_hash :: "string \<Rightarrow> (race_protocol_error, unit) parser" where
  "race_expect_hash name = pbind (rclift read_u32) (\<lambda>actual.
     let expected = packet_hash name
     in if actual = expected then preturn () else pfail (RcUnexpectedPacketHash name expected actual))"

definition race_ensure_exhausted :: "string \<Rightarrow> (race_protocol_error, unit) parser" where
  "race_ensure_exhausted name r =
     (if reader_remaining r = [] then preturn () r
      else pfail (RcTrailingBytes name (length (reader_remaining r))) r)"

definition race_validate_player_id :: "int \<Rightarrow> race_protocol_error + unit" where
  "race_validate_player_id player =
     (if 0 \<le> player \<and> player \<le> 15 then Inr () else Inl (RcInvalidPlayerId player))"

definition parse_start_collect_record_request :: "u8 list \<Rightarrow> race_protocol_error + unit" where
  "parse_start_collect_record_request = run_parser
     (pbind (race_expect_hash ''PqStartCollectRecord'') (\<lambda>_.
      race_ensure_exhausted ''PqStartCollectRecord''))"

definition parse_report_game_collected_record_request :: "u8 list \<Rightarrow> race_protocol_error + unit" where
  "parse_report_game_collected_record_request = run_parser
     (pbind (race_expect_hash ''PqReportGameCollectedRecord'') (\<lambda>_.
      race_ensure_exhausted ''PqReportGameCollectedRecord''))"

definition parse_user_collected_record_report ::
  "u8 list \<Rightarrow> race_protocol_error + user_collected_record_report" where
  "parse_user_collected_record_report = run_parser
     (pbind (race_expect_hash ''PcReportUserCollectedRecord'') (\<lambda>_.
      pbind (rclift read_u32) (\<lambda>elapsed.
      pbind (rclift read_u32) (\<lambda>m1.
      pbind (rclift read_u32) (\<lambda>m2.
      pbind (rclift read_u32) (\<lambda>m3.
      pbind (rclift read_u32) (\<lambda>m4.
      pbind (race_ensure_exhausted ''PcReportUserCollectedRecord'') (\<lambda>_.
      preturn \<lparr>uc_elapsed_ms = elapsed, uc_recorder_metric_1 = m1, uc_recorder_metric_2 = m2,
        uc_recorder_metric_3 = m3, uc_recorder_metric_4 = m4\<rparr>))))))))"

definition read_optional_pair :: "(packet_error, (int \<times> int) option) parser" where
  "read_optional_pair = pbind read_u8 (\<lambda>present.
     if present = 0 then preturn None
     else pbind read_i32 (\<lambda>a. pbind read_i32 (\<lambda>b. preturn (Some (a, b)))))"

definition game_control_tail ::
  "int \<Rightarrow> (int \<times> int) option \<Rightarrow> u32 \<Rightarrow> (race_protocol_error, game_control_request) parser" where
  "game_control_tail state pair value0 r =
     (let trailing = reader_remaining r in
      if max_game_control_trailing_bytes < length trailing
      then pfail (RcGameControlTailTooLarge (length trailing) max_game_control_trailing_bytes) r
      else preturn \<lparr>gc_state = state, gc_optional_pair = pair, gc_value0 = value0, gc_trailing = trailing\<rparr> r)"

definition parse_game_control_request :: "u8 list \<Rightarrow> race_protocol_error + game_control_request" where
  "parse_game_control_request = run_parser
     (pbind (race_expect_hash ''GameControlPacket'') (\<lambda>_.
      pbind (rclift read_i32) (\<lambda>state.
      pbind (rclift read_optional_pair) (\<lambda>pair.
      pbind (rclift read_u32) (\<lambda>value0.
      game_control_tail state pair value0)))))"

fun read_u32s :: "nat \<Rightarrow> (packet_error, u32 list) parser" where
  "read_u32s 0 = preturn []"
| "read_u32s (Suc n) = pbind read_u32 (\<lambda>w. pbind (read_u32s n) (\<lambda>ws. preturn (w # ws)))"

definition finish_snapshot_body :: "u32 \<Rightarrow> u32 \<Rightarrow> (race_protocol_error, game_control_finish_snapshot option) parser" where
  "finish_snapshot_body value1 value2 =
     pbind (rclift (read_u32s finish_session_auth_words)) (\<lambda>auth.
     pbind (rclift (read_bytes finish_result_subobject_length)) (\<lambda>subobject.
     pbind (rclift (read_bytes finish_kart_spec_length)) (\<lambda>kart.
     pbind (rclift read_u32) (\<lambda>shared_length.
     if shared_length \<noteq> word_of_nat finish_shared_object_length
     then pfail (RcInvalidSharedObjectLength shared_length finish_shared_object_length)
     else
       pbind (rclift (read_bytes finish_shared_object_length)) (\<lambda>shared.
       pbind (rclift (read_u32s finish_participant_slot_count)) (\<lambda>slots.
       pbind (rclift read_u32) (\<lambda>metric.
       pbind (rclift read_u32) (\<lambda>local_result.
       pbind (rclift read_u8) (\<lambda>terminal.
       pbind (race_ensure_exhausted ''GameControlPacket'') (\<lambda>_.
       preturn (Some \<lparr>gf_value1 = value1, gf_value2 = value2, gf_session_auth = auth,
         gf_result_subobject = subobject, gf_kart_spec_snapshot = kart, gf_shared_object = shared,
         gf_participant_slots = slots, gf_result_global_metric = metric,
         gf_local_kart_or_player_result = local_result, gf_terminal_client_state = terminal\<rparr>)))))))))))"

definition parse_game_control_finish_snapshot ::
  "game_control_request \<Rightarrow> race_protocol_error + game_control_finish_snapshot option" where
  "parse_game_control_finish_snapshot q =
     (if gc_state q \<noteq> 2 \<or> gc_optional_pair q \<noteq> None
         \<or> length (gc_trailing q) \<noteq> game_control_finish_trailing_length
      then Inr None
      else run_parser
        (pbind (rclift read_u32) (\<lambda>value1.
         pbind (rclift read_u32) (\<lambda>value2.
         pbind (rclift read_u8) (\<lambda>present.
         if present = 0 then preturn None else finish_snapshot_body value1 value2)))) (gc_trailing q))"

definition parse_ai_goal_in_request :: "u8 list \<Rightarrow> race_protocol_error + ai_goal_in_request" where
  "parse_ai_goal_in_request = run_parser
     (pbind (race_expect_hash ''GameAiGoalinPacket'') (\<lambda>_.
      pbind (rclift read_i32) (\<lambda>player.
      pbind (rclift read_u32) (\<lambda>race_time.
      pbind (pcheck (race_validate_player_id player)) (\<lambda>_.
      pbind (race_ensure_exhausted ''GameAiGoalinPacket'') (\<lambda>_.
      preturn \<lparr>ag_player_id = player, ag_race_time = race_time\<rparr>))))))"

definition parse_team_booster_request :: "u8 list \<Rightarrow> race_protocol_error + team_booster_gauge_request" where
  "parse_team_booster_request = run_parser
     (pbind (race_expect_hash ''GameTeamBoosterRequestAddGaugePacket'') (\<lambda>_.
      pbind (rclift read_u8) (\<lambda>value.
      pbind (pcheck (race_team_of_wire value)) (\<lambda>t.
      pbind (rclift read_f32) (\<lambda>contribution.
      pbind (race_ensure_exhausted ''GameTeamBoosterRequestAddGaugePacket'') (\<lambda>_.
      if \<not> f32_is_finite contribution \<or> f32_is_negative contribution
      then pfail RcInvalidBoosterContribution
      else preturn \<lparr>tb_team = t, tb_contribution = contribution\<rparr>))))))"

section \<open>Serializers\<close>

definition serialize_start_collect_record_reply :: "bool \<Rightarrow> u8 list" where
  "serialize_start_collect_record_reply flag = write_u8 (bool_u8 flag) (writer_named ''PrStartCollectRecord'')"

definition serialize_game_control :: "server_game_control \<Rightarrow> u32 \<Rightarrow> u8 list" where
  "serialize_game_control control value0 =
     write_encoded_u8 0 (write_i32 0 (write_i32 0 (write_bytes (replicate 10 0) (write_bytes (replicate 40 0)
       (write_i32 0 (write_u8 0 (write_i32 0 (write_i32 0 (write_u32 value0 (write_u8 0
       (write_i32 (server_game_control_code control) (writer_named ''GameControlPacket''))))))))))))"

definition serialize_ai_master_notice :: "u8 list" where
  "serialize_ai_master_notice = write_i32 0 (writer_named ''GameAiMasterSlotNoticePacket'')"

definition serialize_race_time :: "int \<Rightarrow> u32 \<Rightarrow> race_protocol_error + u8 list" where
  "serialize_race_time player race_time =
     rbind (race_validate_player_id player) (\<lambda>_.
     Inr (write_u32 race_time (write_i32 player (writer_named ''GameRaceTimePacket''))))"

definition serialize_team_booster_gauge :: "race_team \<Rightarrow> u32 \<Rightarrow> race_protocol_error + u8 list" where
  "serialize_team_booster_gauge t gauge =
     (if \<not> f32_is_finite gauge \<or> \<not> f32_in_unit gauge then Inl RcInvalidBoosterGauge
      else Inr (write_f32 gauge (write_u8 (race_team_code t) (writer_named ''GameTeamBoosterSetGaugePacket''))))"

definition serialize_game_next_stage :: "u8 \<Rightarrow> u8 list" where
  "serialize_game_next_stage game_type =
     write_i32 0 (write_i32 0 (write_u8 game_type (writer_named ''GameNextStagePacket'')))"

text \<open>
  \<open>serialize_direct_item_award\<close> of \<open>game_slot_protocol.rs\<close>: the pickup response that puts
  an item directly into one player's held-item slots.
\<close>

definition gop_cube_hash :: u32 where "gop_cube_hash = 0x0A4F02A5"
definition go_item_cube_hash :: u32 where "go_item_cube_hash = 0x143403C4"
definition pickup_blob_length :: u32 where "pickup_blob_length = 24"
definition synthetic_cube_id :: u32 where "synthetic_cube_id = 0xF00000FF"

definition serialize_direct_item_award :: "u8 \<Rightarrow> int \<Rightarrow> u32 \<Rightarrow> u8 list" where
  "serialize_direct_item_award player item tick =
     (let head = write_u32 synthetic_cube_id (write_u8 0 (write_u8 1 (write_u32 (- 1)
            (write_i32 (uint player) (writer_named ''GameSlotPacket'')))));
          timed = write_i16 item (write_bytes (replicate 12 0) (write_u32 (tick + 1500) (write_u32 tick head)));
          blob = write_u32 go_item_cube_hash (write_u32 gop_cube_hash (write_u32 pickup_blob_length
            (write_u32 0x0000FFFF (write_u8 1 timed))))
      in write_u32 tick (write_u32 (ucast player) (write_u32 1 (write_u32 synthetic_cube_id blob))))"

section \<open>The settlement record\<close>

definition human_result_record_length :: nat where "human_result_record_length = 212"
definition ai_result_record_length :: nat where "ai_result_record_length = 22"
definition empty_game_result_length :: nat where "empty_game_result_length = 52"
definition max_race_result_participants :: nat where "max_race_result_participants = 8"

fun result_team_code :: "result_team \<Rightarrow> u8" where
  "result_team_code RedTeam = 1"
| "result_team_code BlueTeam = 2"

definition team_byte :: "result_team option \<Rightarrow> u8" where
  "team_byte t = (case t of None \<Rightarrow> 0 | Some side \<Rightarrow> result_team_code side)"

record human_race_result =
  hr_player_id :: int
  hr_finish_time :: u32
  hr_kart_id :: u16
  hr_rank :: int
  hr_current_rp :: u32
  hr_earned_rp :: u32
  hr_earned_lucci :: u32
  hr_current_lucci :: u32
  hr_team :: "result_team option"
  hr_team_points :: int
  hr_character_id :: u16
  hr_club_mark_logo :: int

record ai_race_result =
  ar_player_id :: int
  ar_finish_time :: u32
  ar_kart_id :: int
  ar_rank :: int
  ar_team :: "result_team option"
  ar_team_points :: int

record game_result =
  gr_winning_team :: "result_team option"
  gr_humans :: "human_race_result list"
  gr_ais :: "ai_race_result list"

datatype race_result_error =
    TooManyParticipants nat nat
  | InvalidResultPlayerId int
  | InvalidRank int
  | RankOutsideParticipantCount int nat
  | DuplicateRank int
  | DuplicatePlayerId int
  | InconsistentTeamMode
  | InvalidTeamPoints int int
  | WinningTeamNotPresent
  | SoloResultHasTeamPoints int int

text \<open>The four fields of every entry that are validated: player, rank, team, points.\<close>

type_synonym result_entry = "int \<times> int \<times> result_team option \<times> int"

definition result_entries :: "game_result \<Rightarrow> result_entry list" where
  "result_entries result =
     map (\<lambda>e. (hr_player_id e, hr_rank e, hr_team e, hr_team_points e)) (gr_humans result)
     @ map (\<lambda>e. (ar_player_id e, ar_rank e, ar_team e, ar_team_points e)) (gr_ais result)"

fun validate_result_entries ::
  "result_team option \<Rightarrow> nat \<Rightarrow> int set \<Rightarrow> int set \<Rightarrow> bool \<Rightarrow> result_entry list \<Rightarrow> race_result_error + bool" where
  "validate_result_entries winner count player_ids ranks present [] = Inr present"
| "validate_result_entries winner count player_ids ranks present ((player, rank, t, points) # rest) =
     (if \<not> (0 \<le> player \<and> player \<le> 7) then Inl (InvalidResultPlayerId player)
      else if \<not> (0 \<le> rank \<and> rank \<le> 7) then Inl (InvalidRank rank)
      else if int count \<le> rank then Inl (RankOutsideParticipantCount rank count)
      else if rank \<in> ranks then Inl (DuplicateRank rank)
      else if player \<in> player_ids then Inl (DuplicatePlayerId player)
      else if (t \<noteq> None) \<noteq> (winner \<noteq> None) then Inl InconsistentTeamMode
      else if winner = None \<and> points \<noteq> 0 then Inl (SoloResultHasTeamPoints player points)
      else if winner \<noteq> None \<and> \<not> (0 \<le> points \<and> points \<le> 10) then Inl (InvalidTeamPoints player points)
      else validate_result_entries winner count (insert player player_ids) (insert rank ranks)
             (present \<or> t = winner) rest)"

definition validate_result :: "game_result \<Rightarrow> race_result_error + unit" where
  "validate_result result =
     (let count = min (length (gr_humans result) + length (gr_ais result)) usize_max in
      if max_race_result_participants < count then Inl (TooManyParticipants count max_race_result_participants)
      else rbind (validate_result_entries (gr_winning_team result) count {} {} False (result_entries result)) (\<lambda>present.
           if gr_winning_team result \<noteq> None \<and> \<not> present then Inl WinningTeamNotPresent else Inr ()))"

definition write_human_result :: "human_race_result \<Rightarrow> packet_writer \<Rightarrow> packet_writer" where
  "write_human_result r packet =
     (let ranked = write_u8 0 (write_i16 (if hr_team r \<noteq> None then 2 else 0) (write_i32 (hr_rank r)
            (write_u16 (hr_kart_id r) (write_u8 0 (write_u32 (hr_finish_time r) (write_i32 (hr_player_id r) packet))))));
          economy = write_u32 (hr_current_lucci r) (write_u32 (hr_earned_lucci r) (write_u32 (hr_earned_rp r)
            (write_u32 (hr_current_rp r) ranked)));
          teamed = write_i32 (if hr_team r \<noteq> None then hr_team_points r else 0)
            (write_u8 (team_byte (hr_team r)) (write_bytes (replicate 29 0) economy));
          character = write_u16 (hr_character_id r) (write_u8 0 (write_i32 1 (write_bytes (replicate 12 0) teamed)))
      in write_bytes (replicate 34 0) (write_i32 (hr_club_mark_logo r) (write_bytes (replicate 37 0)
           (write_u8 (- 1) (write_bytes (replicate 49 0) character)))))"

definition write_ai_result :: "ai_race_result \<Rightarrow> packet_writer \<Rightarrow> packet_writer" where
  "write_ai_result r packet =
     write_i32 (if ar_team r \<noteq> None then ar_team_points r else 0) (write_u8 (team_byte (ar_team r))
       (write_i16 0 (write_i32 (ar_rank r) (write_i16 (ar_kart_id r) (write_u8 0
       (write_u32 (ar_finish_time r) (write_i32 (ar_player_id r) packet)))))))"

definition serialize_game_result :: "game_result \<Rightarrow> race_result_error + u8 list" where
  "serialize_game_result result =
     rbind (validate_result result) (\<lambda>_.
       let head = write_i32 (int (length (gr_humans result))) (write_u8 (team_byte (gr_winning_team result))
             (writer_named ''GameResultPacket''));
           humans = fold write_human_result (gr_humans result) head;
           ais = fold write_ai_result (gr_ais result) (write_i32 (int (length (gr_ais result))) humans)
       in Inr (write_u8 0 (write_u32 (- 1) (write_bytes (replicate 34 0) ais))))"

section \<open>Which results are written\<close>

definition result_entry_ok :: "result_team option \<Rightarrow> nat \<Rightarrow> result_entry \<Rightarrow> bool" where
  "result_entry_ok winner count = (\<lambda>(player, rank, t, points).
     0 \<le> player \<and> player \<le> 7 \<and> 0 \<le> rank \<and> rank \<le> 7 \<and> rank < int count \<and> (t \<noteq> None \<longleftrightarrow> winner \<noteq> None)
     \<and> (if winner = None then points = 0 else 0 \<le> points \<and> points \<le> 10))"

lemma validate_result_entries_Inr:
  "validate_result_entries winner count ids ranks present es = Inr p \<longleftrightarrow>
     p = (present \<or> (\<exists>e\<in>set es. fst (snd (snd e)) = winner)) \<and> (\<forall>e\<in>set es. result_entry_ok winner count e)
     \<and> distinct (map fst es) \<and> ids \<inter> fst ` set es = {}
     \<and> distinct (map (\<lambda>e. fst (snd e)) es) \<and> ranks \<inter> (\<lambda>e. fst (snd e)) ` set es = {}"
proof (induction es arbitrary: ids ranks present)
  case (Cons e es)
  obtain player rank t points where e: "e = (player, rank, t, points)" by (cases e)
  show ?case
  proof (cases "result_entry_ok winner count e \<and> rank \<notin> ranks \<and> player \<notin> ids")
    case True
    then have "validate_result_entries winner count ids ranks present (e # es) =
        validate_result_entries winner count (insert player ids) (insert rank ranks) (present \<or> t = winner) es"
      by (auto simp: e result_entry_ok_def split: if_splits)
    with True show ?thesis by (simp only: Cons.IH) (auto simp: e)
  next
    case False
    then have "validate_result_entries winner count ids ranks present (e # es) \<noteq> Inr p"
      by (auto simp: e result_entry_ok_def split: if_splits)
    with False show ?thesis by (auto simp: e)
  qed
qed auto

lemma serialize_game_result_Inr_iff:
  "(\<exists>packet. serialize_game_result result = Inr packet) \<longleftrightarrow>
     length (gr_humans result) + length (gr_ais result) \<le> 8
     \<and> (\<forall>e\<in>set (result_entries result). result_entry_ok (gr_winning_team result) (length (result_entries result)) e)
     \<and> distinct (map fst (result_entries result)) \<and> distinct (map (\<lambda>e. fst (snd e)) (result_entries result))
     \<and> (gr_winning_team result \<noteq> None \<longrightarrow> (\<exists>e\<in>set (result_entries result). fst (snd (snd e)) = gr_winning_team result))"
proof -
  let ?n = "length (gr_humans result) + length (gr_ais result)"
  have count: "length (result_entries result) = ?n" by (simp add: result_entries_def)
  have "(\<exists>packet. serialize_game_result result = Inr packet) \<longleftrightarrow> validate_result result = Inr ()"
    by (cases "validate_result result") (simp_all add: serialize_game_result_def Let_def)
  also have "\<dots> \<longleftrightarrow> ?n \<le> 8 \<and> (\<exists>p. validate_result_entries (gr_winning_team result) ?n {} {} False (result_entries result) = Inr p
      \<and> (gr_winning_team result \<noteq> None \<longrightarrow> p))"
  proof (cases "?n \<le> 8")
    case True
    then have n: "min ?n usize_max = ?n" by (simp add: usize_max_def)
    have small: "\<not> max_race_result_participants < ?n" using True by (simp add: max_race_result_participants_def)
    show ?thesis
      unfolding validate_result_def Let_def n using True small
      by (cases "validate_result_entries (gr_winning_team result) ?n {} {} False (result_entries result)")
        (simp_all del: length_greater_0_conv)
  next
    case False
    then have "max_race_result_participants < min ?n usize_max"
      by (simp add: usize_max_def max_race_result_participants_def)
    then have "validate_result result \<noteq> Inr ()" unfolding validate_result_def Let_def by simp
    with False show ?thesis by simp
  qed
  finally show ?thesis unfolding validate_result_entries_Inr count by auto
qed

lemma result_writer_lengths:
  "length (write_human_result r w) = length w + human_result_record_length"
  "length (write_ai_result a w) = length w + ai_result_record_length"
  by (simp_all add: write_human_result_def write_ai_result_def Let_def wire_length
      human_result_record_length_def ai_result_record_length_def)

lemma human_fold_length:
  "length (fold write_human_result hs w) = length w + length hs * human_result_record_length"
  by (induction hs arbitrary: w) (simp_all add: result_writer_lengths)

lemma ai_fold_length:
  "length (fold write_ai_result as w) = length w + length as * ai_result_record_length"
  by (induction as arbitrary: w) (simp_all add: result_writer_lengths)

lemma serialize_game_result_length:
  assumes "serialize_game_result result = Inr packet"
  shows "length packet = empty_game_result_length + length (gr_humans result) * human_result_record_length
     + length (gr_ais result) * ai_result_record_length"
proof -
  have "length (writer_named name) = 4" for name by (simp add: writer_named_def wire_length writer_new_def)
  with assms show ?thesis
    by (auto simp: serialize_game_result_def result_iff Let_def human_fold_length ai_fold_length wire_length
        empty_game_result_length_def)
qed

end
