(* ===== verification/ItemProbability.thy ===== *)
theory ItemProbability
  imports RoomState Nickname
begin

text \<open>
  The server-side choice of race items: the weighted tables, their validation and the
  selection by a roll (\<open>p5136-server/src/item_probability.rs\<close>), the Floater option pool
  (\<open>p5136-core/src/floater_physics.rs\<close>), the transforms and XUN profiles of the catalog
  (\<open>p5136-profile/src/catalog.rs\<close>) and \<open>ItemProbabilityService\<close>
  (\<open>p5136-server/src/world.rs\<close>) that joins them.

  The random source is a parameter: \<open>rolls k total\<close> is the \<open>k\<close>-th number drawn, in
  \<open>0..total\<close>.  An \<open>i16\<close> item ID is an \<open>int\<close>, a \<open>u64\<close> weight total a \<open>nat\<close> whose
  overflow is written out.
\<close>

section \<open>Rank bands\<close>

datatype rank_band = BandLive | BandTop | BandHigh | BandMiddle | BandLow | BandCombined
datatype rank_policy = TrustClientReported | CombinedFallback

definition live_rank_bands :: "rank_band list list" where
  "live_rank_bands =
     [[BandTop],
      [BandTop, BandMiddle],
      [BandTop, BandMiddle, BandLow],
      [BandTop, BandMiddle, BandMiddle, BandLow],
      [BandTop, BandHigh, BandMiddle, BandMiddle, BandLow],
      [BandTop, BandHigh, BandMiddle, BandMiddle, BandLow, BandLow],
      [BandTop, BandHigh, BandHigh, BandMiddle, BandMiddle, BandLow, BandLow],
      [BandTop, BandHigh, BandHigh, BandMiddle, BandMiddle, BandMiddle, BandLow, BandLow]]"

definition resolve_rank_band :: "rank_band \<Rightarrow> int \<Rightarrow> nat \<Rightarrow> rank_policy \<Rightarrow> rank_band" where
  "resolve_rank_band configured client_rank racer_count policy =
     (if configured \<noteq> BandLive then configured
      else if policy = CombinedFallback then BandCombined
      else if client_rank < 0 \<or> racer_count = 0 then BandCombined
      else (case nth_opt live_rank_bands (racer_count - 1) of
              None \<Rightarrow> BandCombined
            | Some bands \<Rightarrow> (case nth_opt bands (nat client_rank) of None \<Rightarrow> BandCombined | Some band \<Rightarrow> band)))"

section \<open>Tables\<close>

record item_probability_entry =
  ie_item_id :: int
  ie_name :: ustring
  ie_top_weight :: u32
  ie_high_weight :: u32
  ie_middle_weight :: u32
  ie_low_weight :: u32

record item_probability_configuration =
  ic_rank_band :: rank_band
  ic_individual :: "item_probability_entry list"
  ic_team :: "item_probability_entry list"

definition max_entries_per_table :: nat where "max_entries_per_table = 512"
definition max_item_name_bytes :: nat where "max_item_name_bytes = 256"
definition max_weight :: u32 where "max_weight = 1000000"

datatype item_probability_error =
    EmptyTable string
  | TooManyEntries string nat nat
  | InvalidItemId string nat int
  | DuplicateItemId string int
  | InvalidItemName string nat
  | WeightTooLarge string nat string u32 u32
  | ZeroActiveWeight string rank_band
  | WeightTotalOverflow
  | RollOutOfRange nat nat
  | SelectionInvariant

definition all_weights :: "item_probability_entry \<Rightarrow> u32 list" where
  "all_weights e = [ie_top_weight e, ie_high_weight e, ie_middle_weight e, ie_low_weight e]"

definition entry_weight :: "rank_band \<Rightarrow> item_probability_entry \<Rightarrow> nat" where
  "entry_weight band e =
     (case band of
        BandTop \<Rightarrow> unat (ie_top_weight e)
      | BandHigh \<Rightarrow> unat (ie_high_weight e)
      | BandMiddle \<Rightarrow> unat (ie_middle_weight e)
      | BandLow \<Rightarrow> unat (ie_low_weight e)
      | _ \<Rightarrow> unat (ie_top_weight e) + unat (ie_high_weight e) + unat (ie_middle_weight e) + unat (ie_low_weight e))"

definition equal_entry :: "int \<times> string \<Rightarrow> item_probability_entry" where
  "equal_entry entry = (case entry of (item, name) \<Rightarrow>
     \<lparr>ie_item_id = item, ie_name = ustr name, ie_top_weight = 1, ie_high_weight = 1,
      ie_middle_weight = 1, ie_low_weight = 1\<rparr>)"

definition safe_fallback :: item_probability_configuration where
  "safe_fallback =
     (let individual = map equal_entry
        [(2, ''devil''), (3, ''ufo''), (4, ''waterFly''), (5, ''magnet''), (6, ''booster''),
         (7, ''rocket''), (8, ''banana''), (9, ''waterBomb''), (10, ''shield''), (11, ''angel''),
         (12, ''emp''), (13, ''timeBomb''), (33, ''guideRocket''), (111, ''thunderbolt'')] in
      \<lparr>ic_rank_band = BandLive, ic_individual = individual,
       ic_team = individual @ map equal_entry
         [(109, ''scanning''), (110, ''slotLock''), (113, ''barricade''), (114, ''cloud2'')]\<rparr>)"

definition table_of :: "bool \<Rightarrow> item_probability_configuration \<Rightarrow> item_probability_entry list" where
  "table_of for_team config = (if for_team then ic_team config else ic_individual config)"

section \<open>Validation\<close>

fun validate_weights :: "string \<Rightarrow> nat \<Rightarrow> (string \<times> u32) list \<Rightarrow> item_probability_error + unit" where
  "validate_weights table index [] = Inr ()"
| "validate_weights table index ((field, weight) # rest) =
     (if max_weight < weight then Inl (WeightTooLarge table index field weight max_weight)
      else validate_weights table index rest)"

definition valid_item_name :: "ustring \<Rightarrow> bool" where
  "valid_item_name name \<longleftrightarrow> name \<noteq> [] \<and> length name \<le> 64 \<and> length (utf8_bytes name) \<le> max_item_name_bytes
     \<and> \<not> list_ex is_control name"

fun validate_entries :: "string \<Rightarrow> nat \<Rightarrow> int set \<Rightarrow> item_probability_entry list \<Rightarrow> item_probability_error + unit" where
  "validate_entries table index ids [] = Inr ()"
| "validate_entries table index ids (e # rest) =
     (if ie_item_id e \<le> 0 then Inl (InvalidItemId table index (ie_item_id e))
      else if ie_item_id e \<in> ids then Inl (DuplicateItemId table (ie_item_id e))
      else if \<not> valid_item_name (ie_name e) then Inl (InvalidItemName table index)
      else rbind (validate_weights table index
             [(''top'', ie_top_weight e), (''high'', ie_high_weight e), (''middle'', ie_middle_weight e),
              (''low'', ie_low_weight e)]) (\<lambda>_.
           validate_entries table (Suc index) (insert (ie_item_id e) ids) rest))"

fun validate_bands :: "string \<Rightarrow> item_probability_entry list \<Rightarrow> rank_band list \<Rightarrow> item_probability_error + unit" where
  "validate_bands table entries [] = Inr ()"
| "validate_bands table entries (band # rest) =
     (if list_all (\<lambda>e. entry_weight band e = 0) entries then Inl (ZeroActiveWeight table band)
      else validate_bands table entries rest)"

definition validate_table ::
  "string \<Rightarrow> item_probability_entry list \<Rightarrow> rank_band \<Rightarrow> item_probability_error + unit" where
  "validate_table table entries configured =
     (if entries = [] then Inl (EmptyTable table)
      else if max_entries_per_table < length entries
      then Inl (TooManyEntries table (length entries) max_entries_per_table)
      else rbind (validate_entries table 0 {} entries) (\<lambda>_.
           validate_bands table entries
             (if configured = BandLive then [BandTop, BandHigh, BandMiddle, BandLow] else [configured])))"

definition validate_configuration :: "item_probability_configuration \<Rightarrow> item_probability_error + unit" where
  "validate_configuration config =
     rbind (validate_table ''individual'' (ic_individual config) (ic_rank_band config)) (\<lambda>_.
     validate_table ''team'' (ic_team config) (ic_rank_band config))"

section \<open>Selection\<close>

fun weight_total :: "rank_band \<Rightarrow> nat \<Rightarrow> item_probability_entry list \<Rightarrow> item_probability_error + nat" where
  "weight_total band tot [] = Inr tot"
| "weight_total band tot (e # rest) =
     (if tot + entry_weight band e < 2 ^ 64 then weight_total band (tot + entry_weight band e) rest
      else Inl WeightTotalOverflow)"

definition roll_total ::
  "bool \<Rightarrow> int \<Rightarrow> nat \<Rightarrow> rank_policy \<Rightarrow> item_probability_configuration \<Rightarrow> item_probability_error + (rank_band \<times> nat)" where
  "roll_total for_team live_rank racer_count policy config =
     (let band = resolve_rank_band (ic_rank_band config) live_rank racer_count policy in
      rbind (weight_total band 0 (table_of for_team config)) (\<lambda>tot.
      if tot = 0 then Inl (ZeroActiveWeight (if for_team then ''team'' else ''individual'') band)
      else Inr (band, tot)))"

fun pick :: "rank_band \<Rightarrow> nat \<Rightarrow> item_probability_entry list \<Rightarrow> item_probability_error + int" where
  "pick band cursor [] = Inl SelectionInvariant"
| "pick band cursor (e # rest) =
     (if cursor < entry_weight band e then Inr (ie_item_id e)
      else pick band (cursor - entry_weight band e) rest)"

definition select_with_roll ::
  "bool \<Rightarrow> int \<Rightarrow> nat \<Rightarrow> nat \<Rightarrow> rank_policy \<Rightarrow> item_probability_configuration \<Rightarrow>
     item_probability_error + (int \<times> rank_band)" where
  "select_with_roll for_team live_rank racer_count roll policy config =
     rbind (roll_total for_team live_rank racer_count policy config) (\<lambda>(band, tot).
     if tot \<le> roll then Inl (RollOutOfRange roll tot)
     else rbind (pick band roll (table_of for_team config)) (\<lambda>item. Inr (item, band)))"

section \<open>The catalog\<close>

record item_transform_rule =
  it_target_item_id :: int
  it_probability :: u8
  it_mode :: ustring

record catalog_inventory =
  cat_item_transforms :: "((u16 \<times> int) \<times> item_transform_rule list) list"
  cat_kart_names :: "(u16 \<times> ustring) list"
  cat_exceed_types :: "(ustring \<times> u8) list"      \<comment> \<open>of the XUN profiles, by normalized name\<close>

definition normalize_spec_name :: "ustring \<Rightarrow> ustring" where
  "normalize_spec_name = map to_ascii_lower"

definition kart_exceed_type :: "u16 \<Rightarrow> catalog_inventory \<Rightarrow> u8 option" where
  "kart_exceed_type kart catalog =
     Option.bind (map_of (cat_kart_names catalog) kart)
       (\<lambda>name. map_of (cat_exceed_types catalog) (normalize_spec_name name))"

definition is_item_profile :: "u8 \<Rightarrow> bool" where "is_item_profile exceed \<longleftrightarrow> exceed = 1"

definition item_transform :: "u16 \<Rightarrow> int \<Rightarrow> ustring \<Rightarrow> catalog_inventory \<Rightarrow> item_transform_rule option" where
  "item_transform kart source mode catalog =
     Option.bind (map_of (cat_item_transforms catalog) (kart, source)) (\<lambda>candidates.
       case List.find (\<lambda>rule. mode \<noteq> [] \<and> eq_ignore_ascii_case (it_mode rule) mode) candidates of
         Some rule \<Rightarrow> Some rule
       | None \<Rightarrow> List.find (\<lambda>rule. it_mode rule = []) candidates)"

section \<open>Floater options\<close>

datatype item_floater_effect =
    WaterBombDefense | WaterFlyDefense | LucciOnItemCube | DevilDefense | ShieldToSuperShield
  | BossRocketDamage | UfoSignalToShield | MagnetUseGrantsBooster | BananaHitGrantsBooster
  | WaterBombToInfectedBomb | RocketToGoldRocket | WaterBombToIceBomb | BananaDefense | BoosterToSiren
  | BananaToWaterMine | QuickEscapeFromWater | DoubleRocketFire | BoosterToSuperShield
  | BattleWaterFlyDefense | BattleWaterBombDefense

record item_floater_ability =
  fl_code :: int
  fl_effect :: item_floater_effect
  fl_display_level :: "nat option"
  fl_probability :: nat

definition floater_options :: "(int \<times> item_floater_effect \<times> nat option \<times> nat) list" where
  "floater_options =
     [(10103, WaterBombDefense, Some 3, 20), (10203, WaterFlyDefense, Some 3, 20),
      (10303, LucciOnItemCube, Some 3, 40), (10401, DevilDefense, None, 100),
      (10503, ShieldToSuperShield, Some 3, 15), (10603, BossRocketDamage, Some 3, 40),
      (10703, UfoSignalToShield, Some 3, 50), (10803, MagnetUseGrantsBooster, Some 3, 30),
      (10901, BananaHitGrantsBooster, None, 100), (11001, WaterBombToInfectedBomb, None, 100),
      (11103, RocketToGoldRocket, Some 3, 40), (11201, WaterBombToIceBomb, None, 100),
      (11301, BananaDefense, None, 100), (11403, BoosterToSiren, Some 3, 25),
      (11501, BananaToWaterMine, None, 100), (11601, QuickEscapeFromWater, None, 100),
      (11701, DoubleRocketFire, None, 100), (11803, BoosterToSuperShield, Some 3, 30),
      (11903, BattleWaterFlyDefense, Some 3, 75), (12003, BattleWaterBombDefense, Some 3, 75)]"

definition item_floater_ability_of :: "int \<Rightarrow> item_floater_ability option" where
  "item_floater_ability_of code =
     map_option (\<lambda>(effect, level, probability).
       \<lparr>fl_code = code, fl_effect = effect, fl_display_level = level, fl_probability = probability\<rparr>)
       (map_of floater_options code)"

record item_floater_pickup_rule =
  fl_rule_code :: int
  fl_target_item_id :: int
  fl_rule_probability :: nat

definition floater_target :: "item_floater_effect \<Rightarrow> int \<Rightarrow> int option" where
  "floater_target effect source =
     (if effect = RocketToGoldRocket \<and> source = 7 then Some 32
      else if effect = BoosterToSuperShield \<and> source \<in> {6, 31} \<or> effect = ShieldToSuperShield \<and> source = 10
      then Some 18
      else if effect = BoosterToSiren \<and> source \<in> {6, 31} then Some 24
      else if effect = BananaToWaterMine \<and> source \<in> {8, 85} then Some 37
      else if effect = WaterBombToInfectedBomb \<and> source = 9 then Some 27
      else if effect = WaterBombToInfectedBomb \<and> source = 13 then Some 28
      else if effect = WaterBombToInfectedBomb \<and> source = 19 then Some 29
      else if effect = WaterBombToIceBomb \<and> source = 9 then Some 34
      else if effect = WaterBombToIceBomb \<and> source = 13 then Some 35
      else None)"

fun floater_pickup_rule_for :: "int list \<Rightarrow> int \<Rightarrow> item_floater_pickup_rule option" where
  "floater_pickup_rule_for [] source = None"
| "floater_pickup_rule_for (code # codes) source =
     (case Option.bind (item_floater_ability_of code) (\<lambda>ability.
             map_option (\<lambda>target. \<lparr>fl_rule_code = code, fl_target_item_id = target, fl_rule_probability = fl_probability ability\<rparr>)
               (floater_target (fl_effect ability) source)) of
        Some rule \<Rightarrow> Some rule
      | None \<Rightarrow> floater_pickup_rule_for codes source)"

section \<open>The service\<close>

type_synonym item_rolls = "nat \<Rightarrow> nat \<Rightarrow> nat"

record item_probability_service =
  ips_configuration :: item_probability_configuration
  ips_rank_policy :: rank_policy
  ips_catalog :: "catalog_inventory option"

definition item_service_default :: item_probability_service where
  "item_service_default =
     \<lparr>ips_configuration = safe_fallback, ips_rank_policy = TrustClientReported, ips_catalog = None\<rparr>"

record item_award_selection =
  as_rank_band :: rank_band
  as_base_item_id :: int
  as_item_id :: int
  as_transform_probability :: "nat option"
  as_transform_applied :: bool
  as_floater_code :: "int option"
  as_floater_probability :: "nat option"
  as_floater_applied :: bool
  as_special_booster_probability :: "nat option"
  as_special_booster_applied :: bool

record kart_spec_start_item_selection =
  ks_rank_band :: rank_band
  ks_base_item_id :: int
  ks_item_id :: int
  ks_transform_probability :: "nat option"
  ks_transform_applied :: bool

text \<open>A percentage that is certain draws nothing; any other draws one number below 100.\<close>

definition draw_percent :: "item_rolls \<Rightarrow> nat \<Rightarrow> nat \<Rightarrow> bool \<times> nat" where
  "draw_percent rolls k probability =
     (if 100 \<le> probability then (True, k) else (rolls k 100 < probability, Suc k))"

text \<open>A rule (target, probability) that may replace an item: the new item, whether it applied, the draws.\<close>

definition try_replace :: "item_rolls \<Rightarrow> nat \<Rightarrow> (int \<times> nat) option \<Rightarrow> int \<Rightarrow> int \<times> bool \<times> nat" where
  "try_replace rolls k rule item =
     (case rule of
        None \<Rightarrow> (item, False, k)
      | Some (target, probability) \<Rightarrow>
          (case draw_percent rolls k probability of
             (applied, k') \<Rightarrow> (if applied then target else item, applied, k')))"

definition catalog_rule :: "catalog_inventory option \<Rightarrow> u16 \<Rightarrow> int \<Rightarrow> string \<Rightarrow> (int \<times> nat) option" where
  "catalog_rule catalog kart base mode =
     Option.bind catalog (\<lambda>c. map_option (\<lambda>rule. (it_target_item_id rule, unat (it_probability rule)))
       (item_transform kart base (ustr mode) c))"

definition draw_base ::
  "item_rolls \<Rightarrow> bool \<Rightarrow> int \<Rightarrow> nat \<Rightarrow> nat \<Rightarrow> item_probability_service \<Rightarrow> item_probability_error + (rank_band \<times> int \<times> nat)" where
  "draw_base rolls for_team client_rank racer_count k service =
     rbind (roll_total for_team client_rank racer_count (ips_rank_policy service) (ips_configuration service)) (\<lambda>(band, tot).
     rbind (select_with_roll for_team client_rank racer_count (rolls k tot) (ips_rank_policy service)
              (ips_configuration service)) (\<lambda>(base, selected_band).
     Inr (band, base, Suc k)))"

definition select_award ::
  "item_rolls \<Rightarrow> bool \<Rightarrow> int \<Rightarrow> nat \<Rightarrow> u16 \<Rightarrow> int list \<Rightarrow> nat \<Rightarrow> item_probability_service \<Rightarrow>
     item_probability_error + (item_award_selection \<times> nat)" where
  "select_award rolls for_team client_rank racer_count kart floater_codes k service =
     rbind (draw_base rolls for_team client_rank racer_count k service) (\<lambda>(band, base, k0).
       let rule = catalog_rule (ips_catalog service) kart base ''no_flag'';
           (item1, transformed, k1) = try_replace rolls k0 rule base;
           floater = (if transformed then None else floater_pickup_rule_for floater_codes base);
           (item2, floated, k2) =
             try_replace rolls k1 (map_option (\<lambda>r. (fl_target_item_id r, fl_rule_probability r)) floater) item1;
           special = (if transformed \<or> floated then None else catalog_rule (ips_catalog service) kart base ''animal_booster'');
           (item3, boosted, k3) = try_replace rolls k2 special item2
       in Inr (\<lparr>as_rank_band = band, as_base_item_id = base, as_item_id = item3,
            as_transform_probability = map_option snd rule, as_transform_applied = transformed,
            as_floater_code = map_option fl_rule_code floater,
            as_floater_probability = map_option fl_rule_probability floater, as_floater_applied = floated,
            as_special_booster_probability = map_option snd special, as_special_booster_applied = boosted\<rparr>, k3))"

definition select_kart_spec_start_item ::
  "item_rolls \<Rightarrow> u16 \<Rightarrow> nat \<Rightarrow> item_probability_service \<Rightarrow>
     item_probability_error + (kart_spec_start_item_selection \<times> nat)" where
  "select_kart_spec_start_item rolls kart k service =
     rbind (draw_base rolls False (- 1) 0 k service) (\<lambda>(band, base, k0).
       let rule = catalog_rule (ips_catalog service) kart base ''no_flag'';
           (item, transformed, k1) = try_replace rolls k0 rule base
       in Inr (\<lparr>ks_rank_band = band, ks_base_item_id = base, ks_item_id = item,
            ks_transform_probability = map_option snd rule, ks_transform_applied = transformed\<rparr>, k1))"

section \<open>Validated tables always give an item\<close>

lemma weight_total_Inr:
  "tot + sum_list (map (entry_weight band) es) < 2 ^ 64 \<Longrightarrow>
     weight_total band tot es = Inr (tot + sum_list (map (entry_weight band) es))"
proof (induction es arbitrary: tot)
  case (Cons e es)
  then have "(tot + entry_weight band e) + sum_list (map (entry_weight band) es) < 2 ^ 64" by (simp only: sum_list.Cons list.map ac_simps)
  from Cons.IH [OF this] Cons.prems show ?case by (simp only: weight_total.simps sum_list.Cons list.map ac_simps) auto
qed simp

lemma weight_bound:
  assumes "\<forall>e\<in>set es. \<forall>w\<in>set (all_weights e). w \<le> max_weight" "e \<in> set es"
  shows "entry_weight band e \<le> 4000000"
proof -
  have "unat w \<le> 1000000" if "w \<in> set (all_weights e)" for w
  proof -
    have "w \<le> max_weight" using assms that by blast
    then have "unat w \<le> unat max_weight" by (simp add: word_le_nat_alt)
    then show ?thesis by (simp add: max_weight_def)
  qed
  then have "unat (ie_top_weight e) \<le> 1000000" "unat (ie_high_weight e) \<le> 1000000"
    "unat (ie_middle_weight e) \<le> 1000000" "unat (ie_low_weight e) \<le> 1000000"
    by (simp_all add: all_weights_def)
  then show ?thesis unfolding entry_weight_def by (cases band; simp only: rank_band.case; linarith)
qed

lemma validate_weights_Inr: "validate_weights table i ws = Inr () \<longleftrightarrow> (\<forall>(f, w)\<in>set ws. w \<le> max_weight)"
  by (induction ws) (auto simp: not_less split: if_splits)

lemma validate_entries_Inr:
  "validate_entries table i ids es = Inr () \<longleftrightarrow>
     distinct (map ie_item_id es) \<and> ids \<inter> ie_item_id ` set es = {}
     \<and> (\<forall>e\<in>set es. 0 < ie_item_id e \<and> valid_item_name (ie_name e) \<and> (\<forall>w\<in>set (all_weights e). w \<le> max_weight))"
  by (induction es arbitrary: i ids) (auto simp: result_iff validate_weights_Inr all_weights_def split: if_splits)

lemma validate_bands_Inr:
  "validate_bands table es bs = Inr () \<longleftrightarrow> (\<forall>b\<in>set bs. \<exists>e\<in>set es. entry_weight b e \<noteq> 0)"
  by (induction bs) (auto simp: list_all_iff split: if_splits)

lemma sum_list_bound: "(\<And>x. x \<in> set xs \<Longrightarrow> f x \<le> b) \<Longrightarrow> sum_list (map f xs) \<le> length xs * b" for f :: "'a \<Rightarrow> nat"
  by (induction xs) (auto intro: add_mono)

lemma live_band_weighted:
  assumes "\<forall>b\<in>{BandTop, BandHigh, BandMiddle, BandLow}. \<exists>e\<in>set es. entry_weight b e \<noteq> 0"
  shows "\<exists>e\<in>set es. entry_weight band e \<noteq> 0"
  using assms by (cases band) (fastforce simp: entry_weight_def)+

lemma validated_table:
  assumes "validate_table table es configured = Inr ()"
  shows "distinct (map ie_item_id es)"
    and "weight_total (resolve_rank_band configured rank n policy) 0 es =
           Inr (sum_list (map (entry_weight (resolve_rank_band configured rank n policy)) es))"
    and "0 < sum_list (map (entry_weight (resolve_rank_band configured rank n policy)) es)"
proof -
  let ?band = "resolve_rank_band configured rank n policy"
  have ok: "length es \<le> 512" "validate_entries table 0 {} es = Inr ()"
    "validate_bands table es (if configured = BandLive then [BandTop, BandHigh, BandMiddle, BandLow] else [configured]) = Inr ()"
    using assms by (auto simp: validate_table_def result_iff max_entries_per_table_def split: if_splits)
  note entries = ok(2) [unfolded validate_entries_Inr]
  then show "distinct (map ie_item_id es)" by blast
  have "sum_list (map (entry_weight ?band) es) \<le> length es * 4000000"
    by (rule sum_list_bound) (use entries weight_bound in blast)
  also have "\<dots> < 2 ^ 64" using ok(1) by simp
  finally show "weight_total ?band 0 es = Inr (sum_list (map (entry_weight ?band) es))"
    by (simp add: weight_total_Inr)
  have bands: "\<forall>b\<in>set (if configured = BandLive then [BandTop, BandHigh, BandMiddle, BandLow] else [configured]).
      \<exists>e\<in>set es. entry_weight b e \<noteq> 0"
    using ok(3) unfolding validate_bands_Inr .
  have "\<exists>e\<in>set es. entry_weight ?band e \<noteq> 0"
  proof (cases "configured = BandLive")
    case True
    with bands show ?thesis by (intro live_band_weighted) simp
  next
    case False
    with bands show ?thesis by (simp add: resolve_rank_band_def)
  qed
  then obtain e where "e \<in> set es" "0 < entry_weight ?band e" by blast
  then show "0 < sum_list (map (entry_weight ?band) es)"
    using member_le_sum_list [of "entry_weight ?band e" "map (entry_weight ?band) es"] by simp
qed

lemma pick_in_range:
  "r < sum_list (map (entry_weight band) es) \<Longrightarrow>
     \<exists>e\<in>set es. pick band r es = Inr (ie_item_id e) \<and> 0 < entry_weight band e"
proof (induction es arbitrary: r)
  case (Cons e es)
  then show ?case by (cases "r < entry_weight band e") (auto simp: not_less)
qed simp

text \<open>Of the rolls below the total, exactly as many pick an item as its weight says.\<close>

lemma pick_frequency:
  assumes "distinct (map ie_item_id es)" "e \<in> set es"
  shows "Finite_Set.card {r. r < sum_list (map (entry_weight band) es) \<and> pick band r es = Inr (ie_item_id e)} = entry_weight band e"
  using assms
proof (induction es)
  case (Cons a es)
  let ?w = "entry_weight band a" and ?rest = "sum_list (map (entry_weight band) es)"
  let ?hits = "\<lambda>x. {r. r < ?rest \<and> pick band r es = Inr x}"
  have split: "{r. r < sum_list (map (entry_weight band) (a # es)) \<and> pick band r (a # es) = Inr x} =
      (if ie_item_id a = x then {..<?w} else {}) \<union> (\<lambda>r. r + ?w) ` ?hits x" for x
  proof (intro equalityI subsetI)
    fix r
    assume r: "r \<in> {r. r < sum_list (map (entry_weight band) (a # es)) \<and> pick band r (a # es) = Inr x}"
    show "r \<in> (if ie_item_id a = x then {..<?w} else {}) \<union> (\<lambda>r. r + ?w) ` ?hits x"
    proof (cases "r < ?w")
      case False
      then have "r = (r - ?w) + ?w" "r - ?w \<in> ?hits x" using r by auto
      then show ?thesis by blast
    qed (use r in auto)
  qed (auto split: if_splits)
  have shifted: "Finite_Set.card ((\<lambda>r. r + ?w) ` S) = Finite_Set.card S" for S :: "nat set"
    by (simp add: card_image inj_on_def)
  show ?case
  proof (cases "e = a")
    case True
    have "pick band r es \<noteq> Inr (ie_item_id a)" if "r < ?rest" for r
      using pick_in_range [OF that] Cons.prems(1) by auto
    then have "?hits (ie_item_id a) = {}" by blast
    then show ?thesis unfolding split True by (simp del: Collect_empty_eq)
  next
    case False
    then have "e \<in> set es" and "ie_item_id a \<noteq> ie_item_id e" using Cons.prems by auto
    then show ?thesis unfolding split using Cons by (simp add: shifted)
  qed
qed simp

lemma drawn_base:
  assumes "validate_configuration (ips_configuration service) = Inr ()" "\<And>k n. 0 < n \<Longrightarrow> rolls k n < n"
  shows "\<exists>band base e. draw_base rolls for_team rank n k service = Inr (band, base, Suc k)
     \<and> band = resolve_rank_band (ic_rank_band (ips_configuration service)) rank n (ips_rank_policy service)
     \<and> e \<in> set (table_of for_team (ips_configuration service)) \<and> ie_item_id e = base \<and> 0 < entry_weight band e"
proof -
  let ?config = "ips_configuration service" and ?policy = "ips_rank_policy service"
  let ?es = "table_of for_team ?config" and ?band = "resolve_rank_band (ic_rank_band ?config) rank n ?policy"
  obtain table where "validate_table table ?es (ic_rank_band ?config) = Inr ()"
    using assms(1) by (cases for_team) (auto simp: validate_configuration_def table_of_def result_iff)
  from validated_table(3,2) [OF this, of rank n ?policy]
  have pos: "0 < sum_list (map (entry_weight ?band) ?es)" and
    w: "weight_total ?band 0 ?es = Inr (sum_list (map (entry_weight ?band) ?es))" .
  then have tot: "roll_total for_team rank n ?policy ?config = Inr (?band, sum_list (map (entry_weight ?band) ?es))"
    by (simp add: roll_total_def Let_def del: sum_list_eq_0_iff)
  from assms(2) [OF pos] have roll: "rolls k (sum_list (map (entry_weight ?band) ?es)) < sum_list (map (entry_weight ?band) ?es)" .
  obtain e where e: "e \<in> set ?es" "0 < entry_weight ?band e"
      "pick ?band (rolls k (sum_list (map (entry_weight ?band) ?es))) ?es = Inr (ie_item_id e)"
    using pick_in_range [OF roll] by blast
  with tot roll show ?thesis by (auto simp: draw_base_def select_with_roll_def)
qed

end
