(* ===== verification/World.thy ===== *)
theory World
  imports RoomState WireGate RaceStart RaceProtocol ItemProbability
begin

text \<open>
  The part of \<open>World\<close> (\<open>p5136-server/src/world.rs\<close>) that owns the rooms: its
  fields, the sessions' outbound queues, reservation before publication, and the
  lookups the commands share.

  The world is one actor, so every command is an atomic step.  A command first
  computes its replies on a copy of the room, then reserves a place in the queue
  of every recipient, and only then stores the copy and publishes.  The queues
  are Tokio channels: \<open>permits s\<close> is the number of free places of session \<open>s\<close>
  at the start of the step (0 when the channel is closed).  What a step publishes
  is part of its result.  A failing \<open>expect\<close> is the error \<open>LePanic\<close>.
\<close>

section \<open>Errors and outcomes\<close>

datatype room_error = RoomNotFound u32 | RoomFull u32 | AlreadyJoined ustring | NotJoined ustring

datatype lobby_error =
    WorldQuiescing
  | NotInRoom
  | NotLobby room_phase
  | HumanRacerRequired
  | ObserverStateServerOwned
  | PreparingStateServerOwned
  | NotRoomMaster
  | InvalidMasterTarget ustring
  | InvalidKickTarget int
  | TeamModeRequired
  | TeamFull room_team
  | NoRacers
  | AiParticipantsUnsupported
  | RacerNotReady u32
  | RaceEpochExhausted
  | MissingTrackCandidates
  | InactiveRosterMember u32
  | RewardLaneOccupied u32 u32 u64
  | OutboundUnavailable session_id
  | LeProtocol lobby_protocol_error
  | LeRoomProtocol room_protocol_error
  | LeRaceStart race_start_protocol_error
  | LeIdentity identity_error
  | LePanic string

datatype lobby_command_outcome =
    SlotStateChanged room_id int player_slot_state
  | TeamChanged room_id int room_team u8
  | MasterChanged room_id int int
  | Started room_id u64 u32 nat nat          \<comment> \<open>room, epoch, track, racers, observers\<close>
  | TrackChanged room_id u32
  | BasicAiChanged room_id bool nat
  | ClosedSlotsChanged room_id bool nat
  | MessageRelayed room_id nat
  | RoomInfoChanged room_id
  | PlayerKicked room_id int ustring

record start_room_plan =
  srp_random_track_candidates :: "u32 list"
  srp_random_tracks :: "resolved_random_tracks option"
  srp_ai_specs :: "u32 list list"
  srp_basic_ai_parameters :: basic_ai_mode_parameters
  srp_maximum_payload_length :: nat

datatype lobby_command_payload =
    CmdSetSlotState player_slot_state
  | CmdChangeTeam room_team
  | CmdChangeMaster ustring
  | CmdStartRoom start_room_plan
  | CmdChangeTrack change_track_request
  | CmdBasicAi basic_ai_request "room_ai \<times> room_ai"
  | CmdCloseSlot close_slot_request
  | CmdRiderTalk rider_talk_request
  | CmdMacroChat macro_chat_request ustring
  | CmdChangeRoomInfo change_room_info_request
  | CmdKick int

section \<open>State\<close>

text \<open>A batch is the ordered list of packets that takes one place in a queue.\<close>

type_synonym outbound_batch = "u8 list list"
type_synonym outbound_delivery = "session_id \<times> outbound_batch"
type_synonym permits = "session_id \<Rightarrow> nat"

record session_state =
  ss_peer :: "ip_addr \<times> u16"
  ss_outbound :: bool          \<comment> \<open>the session has an outbound channel\<close>
  ss_tracked :: bool           \<comment> \<open>its batches are tracked by the process-wide wire gate\<close>

record world =
  w_sessions :: "(session_id \<times> session_state) list"
  w_identities :: identity_registry
  w_rooms :: "(room_id \<times> room_snapshot) list"
  w_room_by_identity :: "(ustring \<times> room_id) list"
  w_protocol_rooms :: "(room_id \<times> protocol_room_state) list"
  w_protocol_room_by_user :: "(u32 \<times> room_id) list"
  w_observed_p2p_ports :: "(u32 \<times> (identity_binding \<times> u16)) list"
  w_free_protocol_room_ids :: "u16 set"
  w_next_session_id :: session_id
  w_next_room_id :: u32
  w_next_race_epoch :: "u64 option"
  w_reward_lanes :: "(u32 \<times> race_fence) list"
  w_next_reward_attempt_id :: "u64 option"
  w_item_probability :: item_probability_service
  w_random_tracks :: "resolved_random_tracks option"
  w_quiescing :: bool
  w_admitted_identity :: "identity_binding option"
  w_wire_gate :: wire_gate     \<comment> \<open>shared with the runtime behind an \<open>Arc\<close>\<close>

definition world_default :: world where
  "world_default =
     \<lparr>w_sessions = [], w_identities = registry_new, w_rooms = [], w_room_by_identity = [],
      w_protocol_rooms = [], w_protocol_room_by_user = [], w_observed_p2p_ports = [],
      w_free_protocol_room_ids = {}, w_next_session_id = 1, w_next_room_id = 1,
      w_next_race_epoch = Some 1, w_reward_lanes = [],
      w_next_reward_attempt_id = Some 1, w_item_probability = item_service_default, w_random_tracks = None, w_quiescing = False,
      w_admitted_identity = None, w_wire_gate = wire_gate_new\<rparr>"

abbreviation room_at :: "world \<Rightarrow> room_id \<Rightarrow> protocol_room_state option" where
  "room_at w \<equiv> map_of (w_protocol_rooms w)"

abbreviation room_of :: "world \<Rightarrow> u32 \<Rightarrow> room_id option" where
  "room_of w \<equiv> map_of (w_protocol_room_by_user w)"

abbreviation lane_of :: "world \<Rightarrow> u32 \<Rightarrow> race_fence option" where
  "lane_of w \<equiv> map_of (w_reward_lanes w)"

definition insert_room :: "room_id \<Rightarrow> protocol_room_state \<Rightarrow> world \<Rightarrow> world" where
  "insert_room rid room w = w\<lparr>w_protocol_rooms := AList.update rid room (w_protocol_rooms w)\<rparr>"

text \<open>The room is dropped and its ID may be handed out again.\<close>

definition drop_room :: "room_id \<Rightarrow> world \<Rightarrow> world" where
  "drop_room rid w = w\<lparr>w_protocol_rooms := AList.delete rid (w_protocol_rooms w),
     w_free_protocol_room_ids := insert (ucast rid) (w_free_protocol_room_ids w)\<rparr>"

definition drop_membership :: "u32 \<Rightarrow> world \<Rightarrow> world" where
  "drop_membership u w = w\<lparr>w_protocol_room_by_user := AList.delete u (w_protocol_room_by_user w)\<rparr>"

definition release_reward_lanes :: "race_fence \<Rightarrow> world \<Rightarrow> world" where
  "release_reward_lanes fence w =
     w\<lparr>w_reward_lanes := filter (\<lambda>(u, owned). owned \<noteq> fence) (w_reward_lanes w)\<rparr>"

definition active_identity :: "world \<Rightarrow> u32 \<Rightarrow> identity_binding option" where
  "active_identity w u = active_identity_by_user_no u (w_identities w)"

text \<open>
  An operation admitted before a migration froze its identity runs under the
  binding of its lease; any other is authorized now.
\<close>

definition authorize_session_operation ::
  "unicode_tables \<Rightarrow> session_id \<Rightarrow> world \<Rightarrow> identity_error + identity_binding" where
  "authorize_session_operation u session w =
     (case w_admitted_identity w of
        Some binding \<Rightarrow> if ib_owner binding = session then Inr binding
                        else authorize u session (w_identities w)
      | None \<Rightarrow> authorize u session (w_identities w))"

definition register_session :: "ip_addr \<times> u16 \<Rightarrow> bool \<Rightarrow> bool \<Rightarrow> world \<Rightarrow> (session_id \<times> world) option" where
  "register_session peer outbound with_gate w =
     (if w_quiescing w then None
      else (let next = w_next_session_id w + 1 in
        Some (w_next_session_id w,
              w\<lparr>w_next_session_id := (if next = 0 then 1 else next),
                w_sessions := AList.update (w_next_session_id w)
                  \<lparr>ss_peer = peer, ss_outbound = outbound, ss_tracked = with_gate\<rparr> (w_sessions w)\<rparr>)))"

section \<open>Reservation and publication\<close>

text \<open>
  Walks the deliveries, taking a permit of each recipient's queue and a guard of
  the wire gate for a tracked session.  Returns the gate, the guards taken and the
  session that could not be served, if any.
\<close>

fun reserve_each :: "(session_id \<times> session_state) list \<Rightarrow> permits \<Rightarrow> wire_gate \<Rightarrow> nat \<Rightarrow>
    outbound_delivery list \<Rightarrow> wire_gate \<times> nat \<times> session_id option" where
  "reserve_each sessions permits gate guards [] = (gate, guards, None)"
| "reserve_each sessions permits gate guards ((session, batch) # rest) =
     (case map_of sessions session of
        None \<Rightarrow> (gate, guards, Some session)
      | Some state \<Rightarrow>
          if \<not> ss_outbound state \<or> permits session = 0 then (gate, guards, Some session)
          else
            (let permits' = permits(session := permits session - 1) in
             if \<not> ss_tracked state then reserve_each sessions permits' gate guards rest
             else (case try_begin WireOutbound gate of
                     (False, gate') \<Rightarrow> (gate', guards, Some session)
                   | (True, gate') \<Rightarrow> reserve_each sessions permits' gate' (Suc guards) rest)))"

text \<open>A failed reservation drops every permit and guard taken before it.\<close>

definition reserve_outbound ::
  "permits \<Rightarrow> outbound_delivery list \<Rightarrow> world \<Rightarrow> world \<times> (lobby_error + outbound_delivery list)" where
  "reserve_outbound permits deliveries w =
     (case reserve_each (w_sessions w) permits (w_wire_gate w) 0 deliveries of
        (gate, guards, None) \<Rightarrow> (w\<lparr>w_wire_gate := gate\<rparr>, Inr deliveries)
      | (gate, guards, Some session) \<Rightarrow>
          (w\<lparr>w_wire_gate := (guard_drop WireOutbound ^^ guards) gate\<rparr>, Inl (OutboundUnavailable session)))"

text \<open>
  The shape every command has: the plan is computed from the present state and
  either fails or gives the deliveries, the state to commit and the outcome.
\<close>

type_synonym 'o turn = "world \<times> (lobby_error + ('o \<times> outbound_delivery list))"
type_synonym 'o plan = "lobby_error + (outbound_delivery list \<times> (world \<Rightarrow> world) \<times> 'o)"

definition run_plan :: "permits \<Rightarrow> 'o plan \<Rightarrow> world \<Rightarrow> 'o turn" where
  "run_plan permits plan w =
     (case plan of
        Inl e \<Rightarrow> (w, Inl e)
      | Inr (deliveries, commit, outcome) \<Rightarrow>
          (case reserve_outbound permits deliveries w of
             (w', Inl e) \<Rightarrow> (w', Inl e)
           | (w', Inr reserved) \<Rightarrow> (commit w', Inr (outcome, reserved))))"

section \<open>Recipients\<close>

fun rtraverse :: "('a \<Rightarrow> 'e + 'b) \<Rightarrow> 'a list \<Rightarrow> 'e + 'b list" where
  "rtraverse f [] = Inr []"
| "rtraverse f (x # xs) = rbind (f x) (\<lambda>y. rbind (rtraverse f xs) (\<lambda>ys. Inr (y # ys)))"

definition active_room_sessions ::
  "world \<Rightarrow> protocol_room_state \<Rightarrow> lobby_error + (u32 \<times> session_id) list" where
  "active_room_sessions w room = rtraverse (\<lambda>u.
     case active_identity w u of
       None \<Rightarrow> Inl (InactiveRosterMember u)
     | Some identity \<Rightarrow> Inr (u, ib_owner identity)) (user_nos room)"

definition same_batch_for_room ::
  "world \<Rightarrow> protocol_room_state \<Rightarrow> outbound_batch \<Rightarrow> lobby_error + outbound_delivery list" where
  "same_batch_for_room w room batch =
     rbind (active_room_sessions w room) (\<lambda>sessions. Inr (map (\<lambda>(u, s). (s, batch)) sessions))"

definition requester_then_room_snapshot ::
  "world \<Rightarrow> protocol_room_state \<Rightarrow> u32 \<Rightarrow> u8 list \<Rightarrow> u8 list \<Rightarrow> lobby_error + outbound_delivery list" where
  "requester_then_room_snapshot w room requester requester_packet room_snapshot =
     rbind (active_room_sessions w room) (\<lambda>sessions. Inr (map (\<lambda>(u, s).
       (s, if u = requester then [requester_packet, room_snapshot] else [room_snapshot])) sessions))"

definition deliveries_for_users :: "world \<Rightarrow> u32 list \<Rightarrow> outbound_batch \<Rightarrow> outbound_delivery list" where
  "deliveries_for_users w users batch =
     List.map_filter (\<lambda>u. map_option (\<lambda>identity. (ib_owner identity, batch)) (active_identity w u)) users"

section \<open>Guards of the commands\<close>

definition protocol_room_id :: "world \<Rightarrow> identity_binding \<Rightarrow> lobby_error + room_id" where
  "protocol_room_id w identity = ok_or NotInRoom (room_of w (ib_user_no identity))"

text \<open>\<open>expect("protocol membership always references an existing room")\<close>.\<close>

definition existing_room :: "world \<Rightarrow> room_id \<Rightarrow> lobby_error + protocol_room_state" where
  "existing_room w rid = ok_or (LePanic ''membership without room'') (room_at w rid)"

definition require_lobby :: "protocol_room_state \<Rightarrow> lobby_error + unit" where
  "require_lobby room = rguard (phase room = PhLobby) (NotLobby (phase room))"

definition require_lobby_master :: "protocol_room_state \<Rightarrow> u32 \<Rightarrow> lobby_error + int" where
  "require_lobby_master room u =
     rbind (require_lobby room) (\<lambda>_.
     rbind (ok_or HumanRacerRequired (equipment_player_id u room)) (\<lambda>player.
     if room_master room \<noteq> player then Inl NotRoomMaster else Inr player))"

text \<open>The room of the requester, and the room of a requester that must be its lobby master.\<close>

definition own_room :: "world \<Rightarrow> identity_binding \<Rightarrow> lobby_error + (room_id \<times> protocol_room_state)" where
  "own_room w identity =
     rbind (protocol_room_id w identity) (\<lambda>rid. rbind (existing_room w rid) (\<lambda>room. Inr (rid, room)))"

abbreviation lift_lobby :: "(lobby_protocol_error + 'a) \<Rightarrow> lobby_error + 'a" where
  "lift_lobby \<equiv> rmap_err LeProtocol"

abbreviation lift_room :: "(room_protocol_error + 'a) \<Rightarrow> lobby_error + 'a" where
  "lift_room \<equiv> rmap_err LeRoomProtocol"

end
