(* ===== verification/RoomDirectory.thy ===== *)
theory RoomDirectory
  imports World
begin

text \<open>
  Room identifiers and the directory of plain rooms of the world actor: the two
  allocators, and \<open>create_room\<close>, \<open>join_room\<close>, \<open>leave_room\<close> and \<open>room_snapshot\<close>.
  Plain rooms and protocol rooms share one space of IDs; a protocol room ID is a
  nonzero \<open>u16\<close>.
\<close>

definition room_taken :: "world \<Rightarrow> room_id \<Rightarrow> bool" where
  "room_taken w rid \<longleftrightarrow> map_of (w_rooms w) rid \<noteq> None \<or> room_at w rid \<noteq> None"

section \<open>Protocol room IDs\<close>

text \<open>The loop over the recycled IDs: the least one that is not in use; the tried ones are removed.\<close>

function recycled_id :: "(room_id \<Rightarrow> bool) \<Rightarrow> u16 set \<Rightarrow> u16 option \<times> u16 set" where
  "recycled_id used free =
     (if free = {} then (None, {})
      else (let candidate = Min free in
            if used (ucast candidate) then recycled_id used (free - {candidate})
            else (Some candidate, free - {candidate})))"
  by pat_completeness auto

termination
  by (relation "measure (\<lambda>(used, free). Finite_Set.card free)")
    (simp_all add: card_Diff1_less del: card_Diff_singleton card_Diff_insert)

declare recycled_id.simps [simp del]

text \<open>The scan of the \<open>u16\<close> range from the next candidate, \<open>0\<close> excluded, one lap at most.\<close>

fun scan_ids :: "(room_id \<Rightarrow> bool) \<Rightarrow> nat \<Rightarrow> u16 \<Rightarrow> u16 option" where
  "scan_ids used 0 candidate = None"
| "scan_ids used (Suc laps) candidate =
     (if used (ucast candidate) then scan_ids used laps (max (candidate + 1) 1) else Some candidate)"

definition first_candidate :: "u32 \<Rightarrow> u16" where
  "first_candidate next_room_id =
     (if next_room_id \<le> 0xFFFF \<and> next_room_id \<noteq> 0 then ucast next_room_id else 1)"

definition allocate_protocol_room_id :: "world \<Rightarrow> room_id option \<times> world" where
  "allocate_protocol_room_id w =
     (case recycled_id (room_taken w) (w_free_protocol_room_ids w) of
        (Some candidate, free) \<Rightarrow> (Some (ucast candidate), w\<lparr>w_free_protocol_room_ids := free\<rparr>)
      | (None, free) \<Rightarrow>
          (let w' = w\<lparr>w_free_protocol_room_ids := free\<rparr> in
           case scan_ids (room_taken w) 65535 (first_candidate (w_next_room_id w)) of
             None \<Rightarrow> (None, w')
           | Some candidate \<Rightarrow> (Some (ucast candidate),
               w'\<lparr>w_next_room_id := (if candidate = 0xFFFF then 1 else ucast candidate + 1)\<rparr>)))"

section \<open>Plain rooms\<close>

text \<open>The loop has no bound of its own: with every ID in use it would not return.\<close>

partial_function (option) free_room_id :: "(room_id \<Rightarrow> bool) \<Rightarrow> u32 \<Rightarrow> u32 option" where
  "free_room_id used candidate =
     (if used candidate then free_room_id used (max (candidate + 1) 1) else Some candidate)"

declare free_room_id.simps [code]

definition create_room :: "world \<Rightarrow> (room_id \<times> world) option" where
  "create_room w = map_option (\<lambda>rid.
     (rid, w\<lparr>w_next_room_id := max (rid + 1) 1,
             w_free_protocol_room_ids :=
               (if rid \<le> 0xFFFF then w_free_protocol_room_ids w - {ucast rid} else w_free_protocol_room_ids w),
             w_rooms := AList.update rid \<lparr>snap_id = rid, snap_slots = replicate 8 None\<rparr> (w_rooms w)\<rparr>))
     (free_room_id (room_taken w) (w_next_room_id w))"

definition room_snapshot_at :: "room_id \<Rightarrow> world \<Rightarrow> room_error + room_snapshot" where
  "room_snapshot_at rid w =
     (case map_of (w_rooms w) rid of
        Some snapshot \<Rightarrow> Inr snapshot
      | None \<Rightarrow> ok_or (RoomNotFound rid) (map_option room_snapshot_of (room_at w rid)))"

definition join_room :: "room_id \<Rightarrow> ustring \<Rightarrow> world \<Rightarrow> room_error + (u8 \<times> world)" where
  "join_room rid identity w =
     (if map_of (w_room_by_identity w) identity \<noteq> None then Inl (AlreadyJoined identity)
      else
        rbind (ok_or (RoomNotFound rid) (map_of (w_rooms w) rid)) (\<lambda>snapshot.
        rbind (ok_or (RoomFull rid) (position (\<lambda>s. s = None) (snap_slots snapshot))) (\<lambda>index.
        Inr (of_nat index,
             w\<lparr>w_rooms := AList.update rid (snapshot\<lparr>snap_slots := (snap_slots snapshot)[index := Some identity]\<rparr>) (w_rooms w),
               w_room_by_identity := AList.update identity rid (w_room_by_identity w)\<rparr>))))"

text \<open>The identity leaves the index even when the room turns out to be inconsistent, as in the source.\<close>

definition leave_room :: "ustring \<Rightarrow> world \<Rightarrow> (room_error + unit) \<times> world" where
  "leave_room identity w =
     (case map_of (w_room_by_identity w) identity of
        None \<Rightarrow> (Inl (NotJoined identity), w)
      | Some rid \<Rightarrow>
          (let w' = w\<lparr>w_room_by_identity := AList.delete identity (w_room_by_identity w)\<rparr> in
           case map_of (w_rooms w) rid of
             None \<Rightarrow> (Inl (RoomNotFound rid), w')
           | Some snapshot \<Rightarrow> (case position (\<lambda>s. s = Some identity) (snap_slots snapshot) of
               None \<Rightarrow> (Inl (NotJoined identity), w')
             | Some index \<Rightarrow> (Inr (), w'\<lparr>w_rooms :=
                 AList.update rid (snapshot\<lparr>snap_slots := (snap_slots snapshot)[index := None]\<rparr>) (w_rooms w)\<rparr>))))"

section \<open>The allocators return a fresh ID\<close>

lemma recycled_id_result:
  "recycled_id used free = (r, free') \<Longrightarrow> free' \<subseteq> free
     \<and> (case r of None \<Rightarrow> free' = {} \<and> (\<forall>c\<in>free. used (ucast c))
        | Some c \<Rightarrow> c \<in> free \<and> c \<notin> free' \<and> \<not> used (ucast c) \<and> (\<forall>d\<in>free. d < c \<longrightarrow> used (ucast d)))"
proof (induction used free arbitrary: r free' rule: recycled_id.induct)
  case (1 used free)
  show ?case
  proof (cases "free = {}")
    case True
    have "recycled_id used {} = (None, {})" by (subst recycled_id.simps) simp
    with True "1.prems" show ?thesis by auto
  next
    case False
    have min: "Min free \<in> free" "\<And>d. d \<in> free \<Longrightarrow> Min free \<le> d" using False by simp_all
    show ?thesis
    proof (cases "used (ucast (Min free))")
      case True
      have "recycled_id used (free - {Min free}) = (r, free')"
        using "1.prems" False True by (simp add: recycled_id.simps [of used free] Let_def)
      from "1.IH" [OF False refl True this] min True show ?thesis
        by (cases r) (auto dest: order.strict_trans2)
    next
      case unused: False
      have "r = Some (Min free)" "free' = free - {Min free}"
        using "1.prems" False unused by (simp_all add: recycled_id.simps [of used free] Let_def)
      with min unused show ?thesis by (simp add: leD)
    qed
  qed
qed

lemma succ_u16: "max (c + 1) 1 = (if c = 0xFFFF then 1 else c + 1)" for c :: u16
proof (cases "c = 0xFFFF")
  case False
  have "c + 1 \<noteq> 0"
  proof
    assume "c + 1 = 0"
    then have "c = - 1" by (simp add: eq_neg_iff_add_eq_0)
    with False show False by simp
  qed
  then have "1 \<le> c + 1" by (simp add: word_le_nat_alt Suc_le_eq unat_gt_0)
  then show ?thesis using False by (simp add: max_def)
qed simp

text \<open>A scan visits \<open>1\<close> to \<open>n\<close> in a circle.\<close>

definition lap :: "nat \<Rightarrow> nat \<Rightarrow> nat \<Rightarrow> nat" where
  "lap n c k = (c - 1 + k) mod n + 1"

lemma scan_ids_Some: "scan_ids used laps c = Some r \<Longrightarrow> \<not> used (ucast r) \<and> (c \<noteq> 0 \<longrightarrow> r \<noteq> 0)"
proof (induction laps arbitrary: c)
  case (Suc laps)
  have "max (c + 1) 1 \<noteq> 0" by (metis linorder_not_le max.cobounded2 word_gt_0 word_neq_0_conv zero_neq_one word_le_0_iff)
  with Suc show ?case by (cases "used (ucast c)") (auto split: if_splits)
qed simp

lemma lap_step: "1 \<le> c \<Longrightarrow> c \<le> n \<Longrightarrow> lap n (if c = n then 1 else c + 1) k = lap n c (Suc k)"
  by (auto simp: lap_def)

lemma lap_0: "1 \<le> c \<Longrightarrow> c \<le> n \<Longrightarrow> lap n c 0 = c"
  by (simp add: lap_def)

lemma lap_reaches:
  assumes "1 \<le> c" "c \<le> n" "1 \<le> d" "d \<le> n"
  obtains k where "k < n" "lap n c k = d"
proof (cases "c \<le> d")
  case True
  then show ?thesis using assms by (intro that [of "d - c"]) (simp_all add: lap_def)
next
  case False
  have "c - 1 + (d + n - c) = (d - 1) + n" using assms False by simp
  then have "(c - 1 + (d + n - c)) mod n = d - 1" using assms by (simp only: mod_add_self2) simp
  then show ?thesis using assms False by (intro that [of "d + n - c"]) (simp_all add: lap_def)
qed

lemma u16_bounds: "unat c \<le> 65535" "c \<noteq> 0 \<Longrightarrow> 1 \<le> unat c" for c :: u16
  using unsigned_less [of c, where ?'a = nat] by (simp_all add: Suc_le_eq unat_gt_0)

lemma unat_succ_u16: "c \<noteq> 0 \<Longrightarrow> unat (max (c + 1) 1) = (if unat c = 65535 then 1 else unat c + 1)" for c :: u16
proof (cases "c = 0xFFFF")
  case False
  have "unat c \<noteq> 65535"
  proof
    assume "unat c = 65535"
    then have "unat c = unat (0xFFFF :: u16)" by simp
    with False show False by (simp only: word_unat_eq_iff)
  qed
  moreover have "unat (c + 1) = unat c + 1"
    using u16_bounds(1) [of c] calculation by (simp add: unat_word_ariths)
  ultimately show ?thesis using False succ_u16 [of c] by simp
qed simp

lemma scan_ids_None:
  "scan_ids used laps c = None \<Longrightarrow> c \<noteq> 0 \<Longrightarrow> k < laps \<Longrightarrow> used (ucast (of_nat (lap 65535 (unat c) k) :: u16))"
proof (induction laps arbitrary: c k)
  case (Suc laps)
  have c: "used (ucast c)" "scan_ids used laps (max (c + 1) 1) = None"
    using Suc.prems(1) by (auto split: if_splits)
  show ?case
  proof (cases k)
    case 0
    have "lap 65535 (unat c) 0 = unat c" using u16_bounds [of c] Suc.prems(2) by (simp add: lap_0)
    with 0 c(1) show ?thesis by simp
  next
    case (Suc j)
    have "max (c + 1) 1 \<noteq> 0" using unat_succ_u16 [OF Suc.prems(2)] by (auto split: if_splits)
    then have "used (ucast (of_nat (lap 65535 (unat (max (c + 1) 1)) j) :: u16))"
      using Suc.IH [OF c(2)] Suc.prems(3) \<open>k = Suc j\<close> by simp
    then show ?thesis
      using lap_step [of "unat c" 65535 j] u16_bounds [of c] Suc.prems(2) \<open>k = Suc j\<close> unat_succ_u16 [OF Suc.prems(2)] by simp
  qed
qed simp

lemma scan_ids_complete:
  assumes "scan_ids used 65535 c = None" "c \<noteq> 0" "d \<noteq> 0"
  shows "used (ucast (d :: u16))"
proof -
  obtain k where "k < 65535" "lap 65535 (unat c) k = unat d"
    using lap_reaches [OF u16_bounds(2) [OF assms(2)] u16_bounds(1) u16_bounds(2) [OF assms(3)] u16_bounds(1)] by blast
  with scan_ids_None [OF assms(1,2), of k] show ?thesis by simp
qed

lemma first_candidate_nonzero: "first_candidate n \<noteq> 0"
proof -
  have "(ucast n :: u16) \<noteq> 0" if "n \<le> 0xFFFF" "n \<noteq> 0"
  proof
    assume "(ucast n :: u16) = 0"
    then have "unat (ucast n :: u16) = 0" by simp
    then have "unat n mod 65536 = 0" by (simp add: unsigned_ucast_eq unsigned_take_bit_eq take_bit_eq_mod)
    moreover have "unat n \<le> 65535" using that(1) by (simp add: word_le_nat_alt)
    ultimately show False using that(2) by (simp add: unat_eq_zero)
  qed
  then show ?thesis by (simp add: first_candidate_def)
qed

lemma ucast_u16_u32 [simp]:
  "(ucast (ucast (c :: u16) :: u32) :: u16) = c" "(ucast c :: u32) \<le> 0xFFFF" "(ucast c :: u32) = 0 \<longleftrightarrow> c = 0"
proof -
  have len: "unat (ucast c :: u32) = unat c"
    using u16_bounds(1) [of c] by (simp add: unsigned_ucast_eq unsigned_take_bit_eq take_bit_nat_eq_self)
  then show "(ucast c :: u32) \<le> 0xFFFF" using u16_bounds(1) [of c] by (simp add: word_le_nat_alt)
  show "(ucast c :: u32) = 0 \<longleftrightarrow> c = 0" using len by (metis unat_eq_zero)
  show "(ucast (ucast c :: u32) :: u16) = c"
    using u16_bounds(1) [of c] len by (intro word_unat_eq_iff [THEN iffD2])
      (simp add: unsigned_ucast_eq [where ?'a = nat] unsigned_take_bit_eq take_bit_nat_eq_self)
qed

lemma allocate_Some:
  assumes "allocate_protocol_room_id w = (Some rid, w')" "0 \<notin> w_free_protocol_room_ids w"
  shows "rid \<noteq> 0 \<and> rid \<le> 0xFFFF \<and> \<not> room_taken w rid \<and> ucast rid \<notin> w_free_protocol_room_ids w'
    \<and> w_free_protocol_room_ids w' \<subseteq> w_free_protocol_room_ids w
    \<and> (\<exists>free next. w' = w\<lparr>w_free_protocol_room_ids := free, w_next_room_id := next\<rparr>)"
proof -
  obtain r free where r: "recycled_id (room_taken w) (w_free_protocol_room_ids w) = (r, free)"
    by (cases "recycled_id (room_taken w) (w_free_protocol_room_ids w)")
  show ?thesis
  proof (cases r)
    case (Some c)
    with assms(1) r have "rid = ucast c" "w' = w\<lparr>w_free_protocol_room_ids := free\<rparr>"
      by (simp_all add: allocate_protocol_room_id_def)
    moreover have "\<exists>free' next. w\<lparr>w_free_protocol_room_ids := free\<rparr>
        = w\<lparr>w_free_protocol_room_ids := free', w_next_room_id := next\<rparr>"
      by (intro exI [of _ free] exI [of _ "w_next_room_id w"]) simp
    ultimately show ?thesis
      using recycled_id_result [OF r] Some assms(2) by (cases "c = 0") auto
  next
    case None
    with assms(1) r obtain c fresh where c: "scan_ids (room_taken w) 65535 (first_candidate (w_next_room_id w)) = Some c"
      "rid = ucast c" "w' = w\<lparr>w_free_protocol_room_ids := free, w_next_room_id := fresh\<rparr>"
      by (auto simp: allocate_protocol_room_id_def Let_def split: option.splits)
    then show ?thesis
      using recycled_id_result [OF r] None scan_ids_Some [OF c(1)] first_candidate_nonzero [of "w_next_room_id w"] by auto
  qed
qed

lemma allocate_None:
  assumes "allocate_protocol_room_id w = (None, w')"
  shows "(\<forall>c::u16. c \<noteq> 0 \<longrightarrow> room_taken w (ucast c)) \<and> w' = w\<lparr>w_free_protocol_room_ids := {}\<rparr>"
proof -
  obtain r free where r: "recycled_id (room_taken w) (w_free_protocol_room_ids w) = (r, free)"
    by (cases "recycled_id (room_taken w) (w_free_protocol_room_ids w)")
  with assms have "r = None" and w': "w' = w\<lparr>w_free_protocol_room_ids := free\<rparr>"
    and none: "scan_ids (room_taken w) 65535 (first_candidate (w_next_room_id w)) = None"
    by (auto simp: allocate_protocol_room_id_def Let_def split: option.splits)
  moreover have "free = {}" using recycled_id_result [OF r] \<open>r = None\<close> by simp
  ultimately show ?thesis
    using scan_ids_complete [OF none first_candidate_nonzero] by simp
qed

text \<open>\<open>create_room\<close> returns whenever some ID is unused: the scan reaches it within one lap of the \<open>u32\<close> range.\<close>

lemma unat_succ_u32: "c \<noteq> 0 \<Longrightarrow> unat (max (c + 1) 1) = (if unat c = 4294967295 then 1 else unat c + 1)" for c :: u32
proof (cases "c = 0xFFFFFFFF")
  case False
  have bound: "unat c \<le> 4294967295" using unsigned_less [of c, where ?'a = nat] by simp
  have "unat c \<noteq> 4294967295"
  proof
    assume "unat c = 4294967295"
    then have "unat c = unat (0xFFFFFFFF :: u32)" by simp
    with False show False by (simp only: word_unat_eq_iff)
  qed
  with bound have "unat (c + 1) = unat c + 1" by (simp add: unat_word_ariths)
  then have "1 \<le> c + 1" by (simp add: word_le_nat_alt)
  then show ?thesis using \<open>unat (c + 1) = unat c + 1\<close> \<open>unat c \<noteq> 4294967295\<close> by (simp add: max_def)
qed simp

lemma free_room_id_within:
  "lap 4294967295 (unat start) k = unat c \<Longrightarrow> start \<noteq> 0 \<Longrightarrow> \<not> used c \<Longrightarrow>
     \<exists>r. free_room_id used start = Some r \<and> \<not> used r \<and> r \<noteq> 0"
proof (induction k arbitrary: start)
  have bound: "1 \<le> unat s \<and> unat s \<le> 4294967295" if "s \<noteq> 0" for s :: u32
    using that unsigned_less [of s, where ?'a = nat] by (simp add: Suc_le_eq unat_gt_0)
  {
    case 0
    then have "start = c" using lap_0 bound by (simp add: word_unat_eq_iff)
    with 0 show ?case by (subst free_room_id.simps) simp
  next
    case (Suc k)
    show ?case
    proof (cases "used start")
      case True
      have "max (start + 1) 1 \<noteq> 0" using unat_succ_u32 [OF Suc.prems(2)] by (auto split: if_splits)
      moreover have "lap 4294967295 (unat (max (start + 1) 1)) k = unat c"
        using lap_step [of "unat start" 4294967295 k] bound [OF Suc.prems(2)] Suc.prems(1)
          unat_succ_u32 [OF Suc.prems(2)] by simp
      ultimately obtain r where "free_room_id used (max (start + 1) 1) = Some r" "\<not> used r" "r \<noteq> 0"
        using Suc.IH Suc.prems(3) by blast
      with True show ?thesis by (subst free_room_id.simps) simp
    qed (use Suc.prems in \<open>subst free_room_id.simps, simp\<close>)
  }
qed

lemma free_room_id_returns:
  assumes "\<not> used c" "c \<noteq> 0" "start \<noteq> 0"
  shows "\<exists>r. free_room_id used start = Some r \<and> \<not> used r \<and> r \<noteq> 0"
proof -
  have bound: "1 \<le> unat s \<and> unat s \<le> 4294967295" if "s \<noteq> 0" for s :: u32
    using that unsigned_less [of s, where ?'a = nat] by (simp add: Suc_le_eq unat_gt_0)
  obtain k where "lap 4294967295 (unat start) k = unat c"
    using lap_reaches bound [OF assms(2)] bound [OF assms(3)] by metis
  then show ?thesis using free_room_id_within assms by blast
qed

lemma free_room_id_result: "free_room_id used start = Some r \<Longrightarrow> \<not> used r \<and> (start \<noteq> 0 \<longrightarrow> r \<noteq> 0)"
proof -
  have body: "\<not> us t \<and> (s \<noteq> 0 \<longrightarrow> t \<noteq> 0)"
    if IH: "\<And>us s t. f us s = Some t \<Longrightarrow> \<not> us t \<and> (s \<noteq> 0 \<longrightarrow> t \<noteq> 0)"
      and "(if us s then f us (max (s + 1) 1) else Some s) = Some t" for us s t and f :: "(u32 \<Rightarrow> bool) \<Rightarrow> u32 \<Rightarrow> u32 option"
  proof (cases "us s")
    case True
    with that(2) have "f us (max (s + 1) 1) = Some t" by simp
    from IH [OF this] show ?thesis using unat_succ_u32 [of s] by (cases "s = 0") (auto split: if_splits)
  qed (use that(2) in auto)
  show "free_room_id used start = Some r \<Longrightarrow> ?thesis"
    by (rule free_room_id.raw_induct [where P = "\<lambda>us s t. \<not> us t \<and> (s \<noteq> 0 \<longrightarrow> t \<noteq> 0)"]) (use body in blast)
qed

end
