(* ===== verification/LobbyCommands.thy ===== *)
theory LobbyCommands
  imports World
begin

text \<open>
  The ready-stage commands of the world actor: one plan per method, giving its
  deliveries, its commit and its outcome, and the method itself, which runs the
  plan.  The guards, their order and the order of the serializations are those of
  the source.
\<close>

section \<open>Members\<close>

definition plan_set_slot_state ::
  "identity_binding \<Rightarrow> player_slot_state \<Rightarrow> world \<Rightarrow> lobby_command_outcome plan" where
  "plan_set_slot_state identity state w =
     rbind (own_room w identity) (\<lambda>(rid, room).
     rbind (require_lobby room) (\<lambda>_.
     if observer_id (ib_user_no identity) room \<noteq> None then Inl HumanRacerRequired
     else
     rbind (case state of NotReady \<Rightarrow> Inr () | Ready \<Rightarrow> Inr ()
            | Observer \<Rightarrow> Inl ObserverStateServerOwned
            | Preparing \<Rightarrow> Inl PreparingStateServerOwned) (\<lambda>_.
     rbind (ok_or HumanRacerRequired (member_id (ib_user_no identity) room)) (\<lambda>mid.
     let next = room\<lparr>members_by_id :=
           update_slot (set_player (player_type_update (\<lambda>_. slot_state_code state))) mid (members_by_id room)\<rparr> in
     rbind (lift_lobby (serialize_slot_state (slot_states next))) (\<lambda>state_packet.
     rbind (lift_lobby (serialize_set_slot_state_reply (ib_user_no identity) True (int mid) state)) (\<lambda>reply_packet.
     rbind (lift_room (serialize_gr_slot_data (slot_data next))) (\<lambda>slot_packet.
     rbind (same_batch_for_room w next [state_packet, reply_packet, slot_packet]) (\<lambda>deliveries.
     Inr (deliveries, insert_room rid next, SlotStateChanged rid (int mid) state)))))))))"

definition set_slot_state ::
  "permits \<Rightarrow> identity_binding \<Rightarrow> player_slot_state \<Rightarrow> world \<Rightarrow> lobby_command_outcome turn" where
  "set_slot_state permits identity state w = run_plan permits (plan_set_slot_state identity state w) w"

definition team_half :: "room_team \<Rightarrow> nat list" where
  "team_half t = (case t of Blue \<Rightarrow> blue_slots | Red \<Rightarrow> red_slots)"

text \<open>Moves the member to the other half: the slot it leaves, the slot it takes, its team and its state.\<close>

definition move_to_team :: "nat \<Rightarrow> room_team \<Rightarrow> nat \<Rightarrow> nat \<Rightarrow> protocol_room_state \<Rightarrow> protocol_room_state" where
  "move_to_team mid t current_slot target_slot room =
     room\<lparr>slot_positions := ((slot_positions room)[current_slot := None])[target_slot := Some (of_nat mid)],
          members_by_id := update_slot (set_player (\<lambda>p. p\<lparr>team := team_code t, player_type := slot_state_code NotReady\<rparr>))
            mid (members_by_id room)\<rparr>"

definition plan_change_team ::
  "identity_binding \<Rightarrow> room_team \<Rightarrow> world \<Rightarrow> lobby_command_outcome plan" where
  "plan_change_team identity t w =
     rbind (own_room w identity) (\<lambda>(rid, room).
     rbind (require_lobby room) (\<lambda>_.
     rbind (rguard (set_game_type (settings room) \<in> {3, 4}) TeamModeRequired) (\<lambda>_.
     rbind (ok_or HumanRacerRequired (member_id (ib_user_no identity) room)) (\<lambda>mid.
     rbind (ok_or (LePanic ''racer without slot'') (position (\<lambda>p. p = Some (of_nat mid)) (slot_positions room))) (\<lambda>current_slot.
     rbind (ok_or (LePanic ''vacant member'') (members_by_id room ! mid)) (\<lambda>member.
     rbind (if team (prm_player member) = team_code t then Inr (current_slot, room)
            else rbind (ok_or (TeamFull t) (free_slot room (team_half t))) (\<lambda>target_slot.
              Inr (target_slot, move_to_team mid t current_slot target_slot room))) (\<lambda>(target_slot, next).
     rbind (lift_lobby (serialize_change_team_reply (int mid) t (wire_slot_positions next))) (\<lambda>team_packet.
     rbind (lift_room (serialize_gr_slot_data (slot_data next))) (\<lambda>slot_packet.
     rbind (requester_then_room_snapshot w next (ib_user_no identity) team_packet slot_packet) (\<lambda>deliveries.
     Inr (deliveries, insert_room rid next, TeamChanged rid (int mid) t (of_nat target_slot))))))))))))"

definition change_team ::
  "permits \<Rightarrow> identity_binding \<Rightarrow> room_team \<Rightarrow> world \<Rightarrow> lobby_command_outcome turn" where
  "change_team permits identity t w = run_plan permits (plan_change_team identity t w) w"

definition not_ready :: "nat \<Rightarrow> protocol_room_state \<Rightarrow> protocol_room_state" where
  "not_ready mid room = room\<lparr>members_by_id :=
     update_slot (set_player (player_type_update (\<lambda>_. slot_state_code NotReady))) mid (members_by_id room)\<rparr>"

definition named :: "unicode_tables \<Rightarrow> ustring \<Rightarrow> protocol_room_member option \<Rightarrow> bool" where
  "named u key m = (case m of None \<Rightarrow> False
     | Some member \<Rightarrow> canonical_nickname_key u (nickname (prm_player member)) = key)"

definition plan_change_master ::
  "unicode_tables \<Rightarrow> identity_binding \<Rightarrow> ustring \<Rightarrow> world \<Rightarrow> lobby_command_outcome plan" where
  "plan_change_master u identity target_nickname w =
     rbind (own_room w identity) (\<lambda>(rid, room).
     rbind (require_lobby room) (\<lambda>_.
     rbind (ok_or HumanRacerRequired (member_id (ib_user_no identity) room)) (\<lambda>requester.
     if room_master room \<noteq> int requester then Inl NotRoomMaster
     else
     rbind (ok_or (InvalidMasterTarget target_nickname)
       (position (named u (canonical_nickname_key u target_nickname)) (members_by_id room))) (\<lambda>target.
     let next = (not_ready target (not_ready requester room))\<lparr>room_master := int target\<rparr> in
     rbind (lift_room (serialize_gr_slot_data (slot_data next))) (\<lambda>slot_packet.
     rbind (same_batch_for_room w next [slot_packet]) (\<lambda>deliveries.
     Inr (deliveries, insert_room rid next, MasterChanged rid (room_master room) (int target))))))))"

definition change_master ::
  "unicode_tables \<Rightarrow> permits \<Rightarrow> identity_binding \<Rightarrow> ustring \<Rightarrow> world \<Rightarrow> lobby_command_outcome turn" where
  "change_master u permits identity target_nickname w =
     run_plan permits (plan_change_master u identity target_nickname w) w"

section \<open>Commands of the room master\<close>

definition master_room :: "world \<Rightarrow> identity_binding \<Rightarrow> lobby_error + (room_id \<times> protocol_room_state)" where
  "master_room w identity =
     rbind (own_room w identity) (\<lambda>(rid, room).
     rbind (require_lobby_master room (ib_user_no identity)) (\<lambda>_. Inr (rid, room)))"

definition plan_change_track ::
  "identity_binding \<Rightarrow> change_track_request \<Rightarrow> world \<Rightarrow> lobby_command_outcome plan" where
  "plan_change_track identity request w =
     rbind (master_room w identity) (\<lambda>(rid, room).
     let next = room\<lparr>settings := (settings room)\<lparr>set_track := ctr_track request,
           set_room_data_header := ctr_room_data_header request, set_room_data := ctr_room_data request\<rparr>\<rparr> in
     rbind (lift_room (serialize_gr_slot_data (slot_data next))) (\<lambda>slot_packet.
     rbind (same_batch_for_room w next [slot_packet]) (\<lambda>deliveries.
     Inr (deliveries, insert_room rid next, TrackChanged rid (ctr_track request)))))"

definition change_track ::
  "permits \<Rightarrow> identity_binding \<Rightarrow> change_track_request \<Rightarrow> world \<Rightarrow> lobby_command_outcome turn" where
  "change_track permits identity request w = run_plan permits (plan_change_track identity request w) w"

text \<open>Removes the AI racer in the named seat, or else adds basic AIs: the packet of the change, if any.\<close>

definition basic_ai_delta ::
  "basic_ai_request \<Rightarrow> room_ai \<times> room_ai \<Rightarrow> protocol_room_state \<Rightarrow> lobby_error + (u8 list option \<times> protocol_room_state)" where
  "basic_ai_delta request candidates room =
     (case remove_ai (bar_player_id request) room of
        Inl _ \<Rightarrow> Inl (LePanic ''AI racer without slot'')
      | Inr (Some player, next) \<Rightarrow>
          rbind (lift_lobby (serialize_basic_ai_removed player (wire_slot_positions next))) (\<lambda>packet.
          Inr (Some packet, next))
      | Inr (None, next) \<Rightarrow>
          (case add_basic_ais candidates next of
             (Some added, attempted) \<Rightarrow>
               rbind (lift_lobby (serialize_basic_ai_added added (wire_slot_positions attempted))) (\<lambda>packet.
               Inr (Some packet, attempted))
           | (None, _) \<Rightarrow> Inr (None, next)))"

definition plan_change_basic_ai ::
  "identity_binding \<Rightarrow> basic_ai_request \<Rightarrow> room_ai \<times> room_ai \<Rightarrow> world \<Rightarrow> lobby_command_outcome plan" where
  "plan_change_basic_ai identity request candidates w =
     rbind (master_room w identity) (\<lambda>(rid, room).
     rbind (basic_ai_delta request candidates room) (\<lambda>(delta, next).
     let changed = (delta \<noteq> None) in
     rbind (same_batch_for_room w next
       ((case delta of None \<Rightarrow> [] | Some packet \<Rightarrow> [packet]) @ [serialize_basic_ai_reply changed])) (\<lambda>deliveries.
     Inr (deliveries, if changed then insert_room rid next else id, BasicAiChanged rid changed (ai_count next)))))"

definition change_basic_ai ::
  "permits \<Rightarrow> identity_binding \<Rightarrow> basic_ai_request \<Rightarrow> room_ai \<times> room_ai \<Rightarrow> world \<Rightarrow> lobby_command_outcome turn" where
  "change_basic_ai permits identity request candidates w =
     run_plan permits (plan_change_basic_ai identity request candidates w) w"

definition plan_change_closed_slots ::
  "identity_binding \<Rightarrow> close_slot_request \<Rightarrow> world \<Rightarrow> lobby_command_outcome plan" where
  "plan_change_closed_slots identity request w =
     rbind (master_room w identity) (\<lambda>(rid, room).
     let (accepted, attempted) = set_close_slots request room;
         next = (if accepted then attempted else room);
         second_member = (if set_game_type (settings room) \<in> {3, 4} then csr_second_member_id request
                          else csr_first_member_id request);
         closed = closed_slot_ids next in
     rbind (lift_lobby (serialize_close_slot_reply (ib_user_no identity) accepted
       (csr_first_member_id request) second_member (csr_operation request) closed)) (\<lambda>reply.
     rbind (same_batch_for_room w next [reply]) (\<lambda>deliveries.
     Inr (deliveries, if accepted then insert_room rid next else id,
          ClosedSlotsChanged rid accepted (length closed)))))"

definition change_closed_slots ::
  "permits \<Rightarrow> identity_binding \<Rightarrow> close_slot_request \<Rightarrow> world \<Rightarrow> lobby_command_outcome turn" where
  "change_closed_slots permits identity request w = run_plan permits (plan_change_closed_slots identity request w) w"

definition plan_change_room_info ::
  "identity_binding \<Rightarrow> change_room_info_request \<Rightarrow> world \<Rightarrow> lobby_command_outcome plan" where
  "plan_change_room_info identity request w =
     rbind (master_room w identity) (\<lambda>(rid, room).
     let next = room\<lparr>settings := (settings room)\<lparr>set_room_name := crr_room_name request,
           set_password := crr_password request\<rparr>\<rparr> in
     rbind (lift_lobby (serialize_change_room_info_reply request)) (\<lambda>reply.
     rbind (same_batch_for_room w next [reply]) (\<lambda>deliveries.
     Inr (deliveries, insert_room rid next, RoomInfoChanged rid))))"

definition change_room_info ::
  "permits \<Rightarrow> identity_binding \<Rightarrow> change_room_info_request \<Rightarrow> world \<Rightarrow> lobby_command_outcome turn" where
  "change_room_info permits identity request w = run_plan permits (plan_change_room_info identity request w) w"

text \<open>The room without the kicked member is dropped when nobody is left in it.\<close>

definition commit_kick :: "room_id \<Rightarrow> u32 \<Rightarrow> protocol_room_state \<Rightarrow> world \<Rightarrow> world" where
  "commit_kick rid target next w =
     (if room_is_empty next then drop_room rid (drop_membership target w)
      else insert_room rid next (drop_membership target w))"

definition plan_kick_player :: "identity_binding \<Rightarrow> int \<Rightarrow> world \<Rightarrow> lobby_command_outcome plan" where
  "plan_kick_player identity target_player_id w =
     rbind (master_room w identity) (\<lambda>(rid, room).
     rbind (rguard (0 \<le> target_player_id \<and> nat target_player_id < room_slot_count)
       (InvalidKickTarget target_player_id)) (\<lambda>_.
     rbind (ok_or (InvalidKickTarget target_player_id) (members_by_id room ! nat target_player_id)) (\<lambda>target.
     rbind (ok_or (InactiveRosterMember (prm_user_no target)) (active_identity w (prm_user_no target))) (\<lambda>target_identity.
     let next = snd (remove_user (prm_user_no target) room);
         leave = serialize_ch_leave_room_reply True;
         reply = serialize_kick_reply in
     rbind (lift_lobby (serialize_kick_broadcast (nickname (prm_player target)))) (\<lambda>broadcast.
     rbind (lift_room (serialize_gr_slot_data (slot_data next))) (\<lambda>slot_packet.
     rbind (active_room_sessions w next) (\<lambda>sessions.
     Inr (map (\<lambda>(u, s). (s, if u = ib_user_no identity then [broadcast, reply, slot_packet]
                              else [broadcast, slot_packet])) sessions
            @ [(ib_owner target_identity, if prm_user_no target = ib_user_no identity then [leave, reply] else [leave])],
          commit_kick rid (prm_user_no target) next,
          PlayerKicked rid target_player_id (nickname (prm_player target))))))))))"

definition kick_player :: "permits \<Rightarrow> identity_binding \<Rightarrow> int \<Rightarrow> world \<Rightarrow> lobby_command_outcome turn" where
  "kick_player permits identity target_player_id w =
     run_plan permits (plan_kick_player identity target_player_id w) w"

section \<open>Chat\<close>

definition plan_relay_rider_talk ::
  "identity_binding \<Rightarrow> rider_talk_request \<Rightarrow> world \<Rightarrow> lobby_command_outcome plan" where
  "plan_relay_rider_talk identity request w =
     rbind (own_room w identity) (\<lambda>(rid, room).
     rbind (ok_or HumanRacerRequired (equipment_player_id (ib_user_no identity) room)) (\<lambda>player.
     rbind (lift_lobby (serialize_rider_echo player (rtr_message request))) (\<lambda>packet.
     rbind (active_room_sessions w room) (\<lambda>sessions.
     let deliveries = map (\<lambda>(u, s). (s, [packet])) (filter (\<lambda>(u, s). u \<noteq> ib_user_no identity) sessions) in
     Inr (deliveries, id, MessageRelayed rid (length deliveries))))))"

definition relay_rider_talk ::
  "permits \<Rightarrow> identity_binding \<Rightarrow> rider_talk_request \<Rightarrow> world \<Rightarrow> lobby_command_outcome turn" where
  "relay_rider_talk permits identity request w = run_plan permits (plan_relay_rider_talk identity request w) w"

text \<open>Team chat reaches the sender's team; the senders without a team and chat type 0 reach everybody.\<close>

definition hears_macro :: "protocol_room_state \<Rightarrow> int \<Rightarrow> u8 \<Rightarrow> u32 \<Rightarrow> bool" where
  "hears_macro room chat_type sender_team u \<longleftrightarrow> chat_type = 0 \<or> sender_team = 0
     \<or> (case member_by_user_no u room of None \<Rightarrow> False | Some member \<Rightarrow> team (prm_player member) = sender_team)"

definition plan_relay_macro_chat ::
  "identity_binding \<Rightarrow> macro_chat_request \<Rightarrow> ustring \<Rightarrow> world \<Rightarrow> lobby_command_outcome plan" where
  "plan_relay_macro_chat identity request resolved_message w =
     rbind (own_room w identity) (\<lambda>(rid, room).
     rbind (ok_or HumanRacerRequired (member_by_user_no (ib_user_no identity) room)) (\<lambda>sender.
     rbind (lift_lobby (serialize_macro_chat_relay (ib_user_no identity) (mcr_chat_type request)
       (mcr_message_id request) resolved_message)) (\<lambda>packet.
     rbind (active_room_sessions w room) (\<lambda>sessions.
     let deliveries = map (\<lambda>(u, s). (s, [packet]))
           (filter (\<lambda>(u, s). hears_macro room (mcr_chat_type request) (team (prm_player sender)) u)
             (filter (\<lambda>(u, s). u \<noteq> ib_user_no identity) sessions)) in
     Inr (deliveries, id, MessageRelayed rid (length deliveries))))))"

definition relay_macro_chat ::
  "permits \<Rightarrow> identity_binding \<Rightarrow> macro_chat_request \<Rightarrow> ustring \<Rightarrow> world \<Rightarrow> lobby_command_outcome turn" where
  "relay_macro_chat permits identity request resolved_message w =
     run_plan permits (plan_relay_macro_chat identity request resolved_message w) w"

section \<open>Starting a race\<close>

text \<open>The occupied entries of an array with their indices.\<close>

definition indexed :: "'a option list \<Rightarrow> (nat \<times> 'a) list" where
  "indexed xs = List.map_filter (\<lambda>i. map_option (\<lambda>x. (i, x)) (xs ! i)) [0..<length xs]"

definition check_start_racer ::
  "world \<Rightarrow> int \<Rightarrow> nat \<times> protocol_room_member \<Rightarrow> lobby_error + unit" where
  "check_start_racer w requester = (\<lambda>(mid, member).
     if int mid \<noteq> requester \<and> player_type (prm_player member) \<noteq> slot_state_code Ready
     then Inl (RacerNotReady (prm_user_no member))
     else (case lane_of w (prm_user_no member) of
             None \<Rightarrow> Inr ()
           | Some fence \<Rightarrow> Inl (RewardLaneOccupied (prm_user_no member) (rf_room_id fence) (rf_race_epoch fence))))"

definition validate_start_racers :: "world \<Rightarrow> protocol_room_state \<Rightarrow> int \<Rightarrow> lobby_error + nat" where
  "validate_start_racers w room requester =
     (let racers = indexed (members_by_id room) in
      if racers = [] then Inl NoRacers
      else rbind (rtraverse (check_start_racer w requester) racers) (\<lambda>_. Inr (length racers)))"

definition select_start_track ::
  "(nat \<Rightarrow> nat) \<Rightarrow> protocol_room_state \<Rightarrow> start_room_plan \<Rightarrow> lobby_error + (u32 \<times> protocol_room_state)" where
  "select_start_track draw room plan =
     (let catalog = (case srp_random_tracks plan of
            None \<Rightarrow> []
          | Some pools \<Rightarrow> pool_candidates pools (set_game_type (settings room)) (set_track (settings room))
              (ai_count room \<noteq> 0));
          candidates = (if catalog = [] then srp_random_track_candidates plan else catalog)
      in ok_or MissingTrackCandidates (select_concrete_track draw candidates room))"

definition freeze_racer :: "world \<Rightarrow> nat \<times> protocol_room_member \<Rightarrow> lobby_error + frozen_race_participant" where
  "freeze_racer w = (\<lambda>(mid, member).
     rbind (ok_or (InactiveRosterMember (prm_user_no member)) (active_identity w (prm_user_no member))) (\<lambda>identity.
     Inr \<lparr>fp_identity = identity, fp_nickname = nickname (prm_player member), fp_player_id = int mid,
          fp_observer = False, fp_team = team (prm_player member),
          fp_result = Some \<lparr>fh_kart_id = u16_from_le (rider_item_snapshot (prm_player member)) 4,
            fh_floater_codes = prm_floater_codes member,
            fh_character_id = u16_from_le (rider_item_snapshot (prm_player member)) 0,
            fh_club_mark_logo = club_mark_logo (prm_player member), fh_economy = EcoPending\<rparr>\<rparr>))"

definition freeze_observer :: "world \<Rightarrow> nat \<times> protocol_room_member \<Rightarrow> lobby_error + frozen_race_participant" where
  "freeze_observer w = (\<lambda>(oid, member).
     rbind (ok_or (InactiveRosterMember (prm_user_no member)) (active_identity w (prm_user_no member))) (\<lambda>identity.
     Inr \<lparr>fp_identity = identity, fp_nickname = nickname (prm_player member),
          fp_player_id = int (room_slot_count + oid), fp_observer = True, fp_team = 0, fp_result = None\<rparr>))"

definition freeze_race_roster ::
  "world \<Rightarrow> protocol_room_state \<Rightarrow> race_fence \<Rightarrow> u32 \<Rightarrow> lobby_error + frozen_race_roster" where
  "freeze_race_roster w room fence concrete_track =
     rbind (rtraverse (freeze_racer w) (indexed (members_by_id room))) (\<lambda>racers.
     rbind (rtraverse (freeze_observer w) (indexed (observers room))) (\<lambda>watchers.
     Inr \<lparr>fr_fence = fence, fr_concrete_track = concrete_track, fr_participants = racers @ watchers,
          fr_ais = map (\<lambda>(i, ai). \<lparr>fa_player_id = int i, fa_team = ai_team ai, fa_kart_id = ai_kart ai\<rparr>)
            (indexed (ais_by_id room))\<rparr>))"

definition start_delivery ::
  "protocol_room_state \<Rightarrow> start_room_plan \<Rightarrow> u32 \<Rightarrow> u32 \<Rightarrow> frozen_race_participant \<Rightarrow> lobby_error + outbound_delivery" where
  "start_delivery room plan concrete_track requester participant =
     rbind (ok_or (LePanic ''frozen participant not in room'')
       (member_by_user_no (ib_user_no (fp_identity participant)) room)) (\<lambda>member.
     rbind (rmap_err LeRaceStart (serialize_gr_command_start_bounded
       \<lparr>gcs_session_data = session_data room, gcs_slot_data = (slot_data room)\<lparr>rs_track := concrete_track\<rparr>,
        gcs_kart_physics = kart_physics_for_room member (settings room),
        gcs_ai_specs = replicate (ai_count room)
          (race_spec_for_game_type (srp_basic_ai_parameters plan) (set_game_type (settings room))),
        gcs_concrete_track = concrete_track\<rparr>
       (srp_maximum_payload_length plan))) (\<lambda>command.
     Inr (ib_owner (fp_identity participant),
          if ib_user_no (fp_identity participant) = requester
          then [serialize_start_room_reply StartSuccess, command] else [command])))"

definition frozen_humans :: "frozen_race_roster \<Rightarrow> u32 list" where
  "frozen_humans frozen = map (\<lambda>p. ib_user_no (fp_identity p)) (filter (\<lambda>p. \<not> fp_observer p) (fr_participants frozen))"

text \<open>The race is loaded: the roster is frozen, its racers' reward lanes are taken and the epoch is spent.\<close>

definition commit_start ::
  "room_id \<Rightarrow> race_fence \<Rightarrow> frozen_race_roster \<Rightarrow> protocol_room_state \<Rightarrow> world \<Rightarrow> world" where
  "commit_start rid fence frozen next w =
     (insert_room rid (next\<lparr>phase := PhLoading, race_fence_of := Some fence, frozen_race := Some frozen,
        race_progress_of := race_progress_default, loading_handshake_of := Dormant\<rparr>) w)
     \<lparr>w_reward_lanes := fold (\<lambda>u lanes. AList.update u fence lanes) (frozen_humans frozen) (w_reward_lanes w),
      w_next_race_epoch := checked_succ (rf_race_epoch fence)\<rparr>"

definition plan_start_room ::
  "(nat \<Rightarrow> nat) \<Rightarrow> identity_binding \<Rightarrow> start_room_plan \<Rightarrow> world \<Rightarrow> lobby_command_outcome plan" where
  "plan_start_room draw identity plan w =
     (if w_quiescing w then Inl WorldQuiescing
      else
        rbind (own_room w identity) (\<lambda>(rid, room).
        rbind (require_lobby_master room (ib_user_no identity)) (\<lambda>requester.
        rbind (rguard (srp_ai_specs plan = []) AiParticipantsUnsupported) (\<lambda>_.
        rbind (validate_start_racers w room requester) (\<lambda>racer_count.
        rbind (ok_or RaceEpochExhausted (w_next_race_epoch w)) (\<lambda>epoch.
        let fence = \<lparr>rf_room_id = rid, rf_race_epoch = epoch\<rparr> in
        rbind (select_start_track draw room plan) (\<lambda>(concrete_track, next).
        rbind (freeze_race_roster w room fence concrete_track) (\<lambda>frozen.
        rbind (rtraverse (start_delivery room plan concrete_track (ib_user_no identity)) (fr_participants frozen)) (\<lambda>deliveries.
        Inr (deliveries, commit_start rid fence frozen next,
             Started rid epoch concrete_track racer_count
               (length (filter fp_observer (fr_participants frozen)))))))))))))"

definition start_room ::
  "(nat \<Rightarrow> nat) \<Rightarrow> permits \<Rightarrow> identity_binding \<Rightarrow> start_room_plan \<Rightarrow> world \<Rightarrow> lobby_command_outcome turn" where
  "start_room draw permits identity plan w = run_plan permits (plan_start_room draw identity plan w) w"

definition publish_start_rejection :: "permits \<Rightarrow> session_id \<Rightarrow> world \<Rightarrow> unit turn" where
  "publish_start_rejection permits session w =
     run_plan permits (Inr ([(session, [serialize_start_room_reply StartNotAllReady])], id, ())) w"

text \<open>
  A refused start is answered with a rejection packet.  The error of the start is
  the result, unless the rejection itself could not be queued; the packet is what
  the step publishes.
\<close>

definition start_or_reject ::
  "(nat \<Rightarrow> nat) \<Rightarrow> permits \<Rightarrow> session_id \<Rightarrow> identity_binding \<Rightarrow> start_room_plan \<Rightarrow> world \<Rightarrow>
     lobby_command_outcome turn \<times> outbound_delivery list" where
  "start_or_reject draw permits session identity plan w =
     (let plan' = (case w_random_tracks w of None \<Rightarrow> plan | Some pools \<Rightarrow> plan\<lparr>srp_random_tracks := Some pools\<rparr>) in
      case start_room draw permits identity plan' w of
        (w', Inr done) \<Rightarrow> ((w', Inr done), [])
      | (w', Inl (OutboundUnavailable s)) \<Rightarrow> ((w', Inl (OutboundUnavailable s)), [])
      | (w', Inl e) \<Rightarrow> (case publish_start_rejection permits session w' of
            (w'', Inl e') \<Rightarrow> ((w'', Inl e'), [])
          | (w'', Inr (_, rejection)) \<Rightarrow> ((w'', Inl e), rejection)))"

section \<open>The dispatcher\<close>

definition lobby_command ::
  "unicode_tables \<Rightarrow> (nat \<Rightarrow> nat) \<Rightarrow> permits \<Rightarrow> session_id \<Rightarrow> lobby_command_payload \<Rightarrow> world \<Rightarrow>
     lobby_command_outcome turn \<times> outbound_delivery list" where
  "lobby_command u draw permits session payload w =
     (case authorize_session_operation u session w of
        Inl e \<Rightarrow> ((w, Inl (LeIdentity e)), [])
      | Inr identity \<Rightarrow> (case payload of
          CmdSetSlotState state \<Rightarrow> (set_slot_state permits identity state w, [])
        | CmdChangeTeam t \<Rightarrow> (change_team permits identity t w, [])
        | CmdChangeMaster target \<Rightarrow> (change_master u permits identity target w, [])
        | CmdStartRoom plan \<Rightarrow> start_or_reject draw permits session identity plan w
        | CmdChangeTrack request \<Rightarrow> (change_track permits identity request w, [])
        | CmdBasicAi request candidates \<Rightarrow> (change_basic_ai permits identity request candidates w, [])
        | CmdCloseSlot request \<Rightarrow> (change_closed_slots permits identity request w, [])
        | CmdRiderTalk request \<Rightarrow> (relay_rider_talk permits identity request w, [])
        | CmdMacroChat request resolved \<Rightarrow> (relay_macro_chat permits identity request resolved w, [])
        | CmdChangeRoomInfo request \<Rightarrow> (change_room_info permits identity request w, [])
        | CmdKick target \<Rightarrow> (kick_player permits identity target w, [])))"

end
