(* ===== verification/RoomMembership.thy ===== *)
theory RoomMembership
  imports RoomDirectory LobbyCommands
begin

text \<open>
  Entering and leaving protocol rooms: \<open>room_protocol\<close> and its five commands, the
  planned exit that a client stage or a channel migration commits later
  (\<open>ProtocolMigrationDelta\<close>), the exit of a released identity, and the abort of a
  loading race.  A command returns the deliveries it hands to \<open>deliver\<close>; what
  \<open>deliver\<close> does with them (and with sessions whose queue is full) is not part of
  this theory.
\<close>

datatype world_operation_error =
    WoRoomProtocol room_protocol_error
  | WoIdentity identity_error
  | ProtocolRoomTransitionInconsistent u32
  | WoPanic string

type_synonym 'a room_turn = "world \<times> (world_operation_error + 'a)"

abbreviation lift_op :: "(room_protocol_error + 'a) \<Rightarrow> world_operation_error + 'a" where
  "lift_op \<equiv> rmap_err WoRoomProtocol"

section \<open>Listing\<close>

text \<open>The rooms of the channel with the listed game type, by ID, ten to a page.\<close>

definition listed_rooms :: "channel_binding \<Rightarrow> u8 \<Rightarrow> world \<Rightarrow> protocol_room_state list" where
  "listed_rooms channel game_type w = sort_key (\<lambda>room. unat (room_id_of room))
     (filter (\<lambda>room. set_game_type (settings room) = game_type)
       (filter (\<lambda>room. set_channel (settings room) = channel) (map snd (w_protocol_rooms w))))"

definition room_list_entries :: "identity_binding \<Rightarrow> ch_get_room_list_request \<Rightarrow> world \<Rightarrow> room_list_entry list" where
  "room_list_entries identity request w =
     (case ib_channel identity of
        None \<Rightarrow> []
      | Some channel \<Rightarrow>
          if expected_room_game_type (cb_game_type channel) = Some (room_list_type request)
          then map room_list_entry_of
            (take 10 (drop (nat (page request) * 10) (listed_rooms channel (room_list_type request) w)))
          else [])"

definition protocol_room_list ::
  "session_id \<Rightarrow> identity_binding \<Rightarrow> ch_get_room_list_request \<Rightarrow> world \<Rightarrow> outbound_delivery list room_turn" where
  "protocol_room_list session identity request w =
     (w, rbind (lift_op (serialize_ch_get_room_list_reply (page request) (room_list_entries identity request w)))
           (\<lambda>packet. Inr [(session, [packet])]))"

section \<open>Creating and joining\<close>

definition observed_p2p_port :: "world \<Rightarrow> identity_binding \<Rightarrow> u16 option" where
  "observed_p2p_port w identity =
     Option.bind (map_of (w_observed_p2p_ports w) (ib_user_no identity))
       (\<lambda>(observed, port). if observed = identity then Some port else None)"

text \<open>The identity fields of the participant are those of the authorized binding.\<close>

definition prepare_participant :: "world \<Rightarrow> identity_binding \<Rightarrow> room_participant \<Rightarrow> room_participant" where
  "prepare_participant w identity participant =
     (let port = (case observed_p2p_port w identity of Some port \<Rightarrow> port | None \<Rightarrow> p2p_port (rp_player participant));
          (address, endpoint_port) = legacy_p2p_endpoint (ib_source_ip identity) port
      in participant\<lparr>rp_player := (rp_player participant)\<lparr>user_no := ib_user_no identity,
           nickname := ib_nickname identity, p2p_address := address, p2p_port := endpoint_port\<rparr>\<rparr>)"

definition release_room_id :: "room_id \<Rightarrow> world \<Rightarrow> world" where
  "release_room_id rid w = w\<lparr>w_free_protocol_room_ids := insert (ucast rid) (w_free_protocol_room_ids w)\<rparr>"

definition enter_room :: "room_id \<Rightarrow> u32 \<Rightarrow> protocol_room_state \<Rightarrow> world \<Rightarrow> world" where
  "enter_room rid u room w =
     (insert_room rid room w)\<lparr>w_protocol_room_by_user := AList.update u rid (w_protocol_room_by_user w)\<rparr>"

definition created_settings :: "channel_binding \<Rightarrow> ch_create_room_request \<Rightarrow> room_settings" where
  "created_settings channel request =
     \<lparr>set_channel = channel, set_room_name = ccr_room_name request, set_password = ccr_password request,
      set_game_type = ccr_game_type request,
      set_speed_type = (case csharp_room_title_speed_type (ccr_room_name request) of
          Some s \<Rightarrow> s | None \<Rightarrow> channel_default_speed_type (cb_game_type channel)),
      set_track = 0, set_room_data_header = ccr_room_data_header request, set_room_data = ccr_room_data request\<rparr>"

definition accepts_creation :: "identity_binding \<Rightarrow> ch_create_room_request \<Rightarrow> world \<Rightarrow> channel_binding option" where
  "accepts_creation identity request w =
     (case ib_channel identity of
        None \<Rightarrow> None
      | Some channel \<Rightarrow>
          if expected_room_game_type (cb_game_type channel) = Some (ccr_game_type request)
             \<and> room_of w (ib_user_no identity) = None
          then Some channel else None)"

definition open_room ::
  "channel_binding \<Rightarrow> identity_binding \<Rightarrow> ch_create_room_request \<Rightarrow> room_participant \<Rightarrow> world \<Rightarrow>
     create_room_outcome room_turn" where
  "open_room channel identity request participant w =
     (case allocate_protocol_room_id w of
        (None, w1) \<Rightarrow> (w1, Inr Rejected)
      | (Some rid, w1) \<Rightarrow>
          (case add_participant (ib_user_no identity) (prepare_participant w1 identity participant)
                  (room_new rid (created_settings channel request)) of
             (False, _) \<Rightarrow> (release_room_id rid w1, Inr Rejected)
           | (True, room) \<Rightarrow> (case serialize_gr_slot_data (slot_data room) of
               Inl e \<Rightarrow> (release_room_id rid w1, Inl (WoRoomProtocol e))
             | Inr _ \<Rightarrow> (enter_room rid (ib_user_no identity) room w1, Inr Created))))"

definition protocol_create_room ::
  "session_id \<Rightarrow> identity_binding \<Rightarrow> ch_create_room_request \<Rightarrow> room_participant \<Rightarrow> world \<Rightarrow>
     outbound_delivery list room_turn" where
  "protocol_create_room session identity request participant w =
     (let (w', opened) = (case accepts_creation identity request w of
            None \<Rightarrow> (w, Inr Rejected)
          | Some channel \<Rightarrow> open_room channel identity request participant w)
      in (w', rbind opened (\<lambda>outcome.
           Inr [(session, [serialize_ch_create_room_reply outcome (ccr_game_type request)])])))"

text \<open>Whether a present room can be joined at all.\<close>

definition room_available :: "identity_binding \<Rightarrow> protocol_room_state \<Rightarrow> bool" where
  "room_available identity room \<longleftrightarrow> phase room = PhLobby
     \<and> (case ib_channel identity of
          None \<Rightarrow> False
        | Some channel \<Rightarrow> set_channel (settings room) = channel
            \<and> expected_room_game_type (cb_game_type channel) = Some (set_game_type (settings room)))"

definition try_join ::
  "identity_binding \<Rightarrow> ch_join_room_request \<Rightarrow> room_participant \<Rightarrow> world \<Rightarrow> (join_room_status \<times> u8) room_turn" where
  "try_join identity request participant w =
     (let rid = ucast (cjr_room_id request) in
      case room_at w rid of
        None \<Rightarrow> (w, Inr (Unavailable, 0))
      | Some room \<Rightarrow>
          if \<not> room_available identity room then (w, Inr (Unavailable, set_game_type (settings room)))
          else if set_password (settings room) \<noteq> [] \<and> set_password (settings room) \<noteq> cjr_password request
          then (w, Inr (WrongPassword, set_game_type (settings room)))
          else if room_of w (ib_user_no identity) \<noteq> None then (w, Inr (Full, set_game_type (settings room)))
          else (case add_participant (ib_user_no identity) (prepare_participant w identity participant) room of
             (False, _) \<Rightarrow> (w, Inr (Full, set_game_type (settings room)))
           | (True, next) \<Rightarrow> (case serialize_gr_slot_data (slot_data next) of
               Inl e \<Rightarrow> (w, Inl (WoRoomProtocol e))
             | Inr _ \<Rightarrow> (enter_room rid (ib_user_no identity) next w, Inr (Success, set_game_type (settings next))))))"

definition protocol_join_room ::
  "session_id \<Rightarrow> identity_binding \<Rightarrow> ch_join_room_request \<Rightarrow> room_participant \<Rightarrow> world \<Rightarrow>
     outbound_delivery list room_turn" where
  "protocol_join_room session identity request participant w =
     (let (w', joined) = try_join identity request participant w
      in (w', rbind joined (\<lambda>(status, game_type).
           Inr [(session, [serialize_ch_join_room_reply status game_type])])))"

section \<open>Leaving\<close>

text \<open>
  The user leaves its room.  An emptied lobby or loading room is dropped, with the
  reward lanes of the aborted race; otherwise the others get the new slots.  Slots
  that cannot be serialized would fail an \<open>expect\<close>.
\<close>

definition remove_protocol_user :: "u32 \<Rightarrow> world \<Rightarrow> outbound_delivery list room_turn" where
  "remove_protocol_user u w =
     (case room_of w u of
        None \<Rightarrow> (w, Inr [])
      | Some rid \<Rightarrow>
          (let w1 = drop_membership u w in
           case room_at w1 rid of
             None \<Rightarrow> (w1, Inr [])
           | Some room0 \<Rightarrow>
               (let room = snd (remove_user u room0);
                    w2 = insert_room rid room w1 in
                if room_is_empty room \<and> phase room \<in> {PhLobby, PhLoading} then
                  (drop_room rid (case (if phase room = PhLoading then race_fence_of room else None) of
                      None \<Rightarrow> w2 | Some fence \<Rightarrow> release_reward_lanes fence w2), Inr [])
                else if room_is_empty room then (w2, Inr [])
                else (case serialize_gr_slot_data (slot_data room) of
                    Inl _ \<Rightarrow> (w2, Inl (WoPanic ''room not serializable after removal''))
                  | Inr packet \<Rightarrow> (w2, Inr (deliveries_for_users w2 (user_nos room) [packet]))))))"

definition protocol_leave_room ::
  "session_id \<Rightarrow> identity_binding \<Rightarrow> world \<Rightarrow> outbound_delivery list room_turn" where
  "protocol_leave_room session identity w =
     (let left = (room_of w (ib_user_no identity) \<noteq> None);
          reply = (session, [serialize_ch_leave_room_reply left])
      in if left
         then (case remove_protocol_user (ib_user_no identity) w of
             (w', removed) \<Rightarrow> (w', rbind removed (\<lambda>deliveries. Inr (reply # deliveries))))
         else (w, Inr [reply]))"

definition protocol_first_state ::
  "session_id \<Rightarrow> identity_binding \<Rightarrow> world \<Rightarrow> outbound_delivery list room_turn" where
  "protocol_first_state session identity w =
     (w, case room_of w (ib_user_no identity) of
           None \<Rightarrow> Inr []
         | Some rid \<Rightarrow>
             rbind (ok_or (WoPanic ''membership without room'') (room_at w rid)) (\<lambda>room.
             rbind (lift_op (serialize_initial_room_state (session_data room) (slot_data room))) (\<lambda>(session_packet, slot_packet).
             Inr [(session, [session_packet, slot_packet])])))"

datatype room_command_payload =
    RoomList ch_get_room_list_request
  | RoomCreate ch_create_room_request room_participant
  | RoomJoin ch_join_room_request room_participant
  | RoomLeave
  | RoomFirstState

definition room_protocol ::
  "unicode_tables \<Rightarrow> session_id \<Rightarrow> room_command_payload \<Rightarrow> world \<Rightarrow> outbound_delivery list room_turn" where
  "room_protocol u session payload w =
     (case authorize_session_operation u session w of
        Inl e \<Rightarrow> (w, Inl (WoIdentity e))
      | Inr identity \<Rightarrow> (case payload of
          RoomList request \<Rightarrow> protocol_room_list session identity request w
        | RoomCreate request participant \<Rightarrow> protocol_create_room session identity request participant w
        | RoomJoin request participant \<Rightarrow> protocol_join_room session identity request participant w
        | RoomLeave \<Rightarrow> protocol_leave_room session identity w
        | RoomFirstState \<Rightarrow> protocol_first_state session identity w))"

section \<open>Planned exits\<close>

record protocol_migration_delta =
  pd_user_no :: u32
  pd_room_id :: room_id
  pd_expected_room :: protocol_room_state
  pd_next_room :: "protocol_room_state option"
  pd_remove_membership :: bool
  pd_remove_room :: bool
  pd_aborted_loading_fence :: "race_fence option"

type_synonym exit_plan =
  "world_operation_error + (protocol_migration_delta option \<times> outbound_delivery list)"

definition plan_exit_from_snapshot :: "u32 \<Rightarrow> room_id \<Rightarrow> protocol_room_state \<Rightarrow> world \<Rightarrow> exit_plan" where
  "plan_exit_from_snapshot u rid expected w =
     (case remove_user u expected of
        (False, _) \<Rightarrow> Inl (ProtocolRoomTransitionInconsistent u)
      | (True, next) \<Rightarrow>
          (let remove_room = (room_is_empty next \<and> phase next \<in> {PhLobby, PhLoading}) in
           rbind (if room_is_empty next then Inr []
                  else rbind (lift_op (serialize_gr_slot_data (slot_data next))) (\<lambda>packet.
                    Inr (deliveries_for_users w (user_nos next) [packet]))) (\<lambda>deliveries.
           Inr (Some \<lparr>pd_user_no = u, pd_room_id = rid, pd_expected_room = expected,
                  pd_next_room = (if remove_room then None else Some next),
                  pd_remove_membership = True, pd_remove_room = remove_room,
                  pd_aborted_loading_fence =
                    (if remove_room \<and> phase next = PhLoading then race_fence_of next else None)\<rparr>,
                deliveries))))"

definition plan_protocol_room_exit :: "u32 \<Rightarrow> world \<Rightarrow> exit_plan" where
  "plan_protocol_room_exit u w =
     (case room_of w u of
        None \<Rightarrow> Inr (None, [])
      | Some rid \<Rightarrow>
          rbind (ok_or (ProtocolRoomTransitionInconsistent u) (room_at w rid)) (\<lambda>expected.
          plan_exit_from_snapshot u rid expected w))"

text \<open>
  A migration into the channel of the room keeps the membership and resets the
  endpoint; into any other channel it is an exit.
\<close>

definition plan_protocol_migration :: "identity_binding \<Rightarrow> world \<Rightarrow> exit_plan" where
  "plan_protocol_migration replacement w =
     (case room_of w (ib_user_no replacement) of
        None \<Rightarrow> Inr (None, [])
      | Some rid \<Rightarrow>
          rbind (ok_or (ProtocolRoomTransitionInconsistent (ib_user_no replacement)) (room_at w rid)) (\<lambda>expected.
          if ib_channel replacement = Some (set_channel (settings expected)) then
            (let (address, port) = legacy_p2p_endpoint (ib_source_ip replacement) 0;
                 (updated, next) = set_p2p_endpoint (ib_user_no replacement) address port expected in
             if \<not> updated then Inl (ProtocolRoomTransitionInconsistent (ib_user_no replacement))
             else if next = expected then Inr (None, [])
             else Inr (Some \<lparr>pd_user_no = ib_user_no replacement, pd_room_id = rid, pd_expected_room = expected,
                   pd_next_room = Some next, pd_remove_membership = False, pd_remove_room = False,
                   pd_aborted_loading_fence = None\<rparr>, []))
          else plan_exit_from_snapshot (ib_user_no replacement) rid expected w))"

text \<open>\<open>lock\<close> checks that the room is still the one the plan was made from; \<open>commit\<close> cannot fail.\<close>

definition lock_delta :: "protocol_migration_delta \<Rightarrow> world \<Rightarrow> bool" where
  "lock_delta delta w \<longleftrightarrow> room_of w (pd_user_no delta) = Some (pd_room_id delta)
     \<and> room_at w (pd_room_id delta) = Some (pd_expected_room delta)"

definition commit_delta :: "protocol_migration_delta \<Rightarrow> world \<Rightarrow> world" where
  "commit_delta delta w =
     (let w1 = (if pd_remove_membership delta then drop_membership (pd_user_no delta) w else w);
          w2 = (if pd_remove_room delta then drop_room (pd_room_id delta) w1
                else case pd_next_room delta of None \<Rightarrow> w1 | Some next \<Rightarrow> insert_room (pd_room_id delta) next w1)
      in case pd_aborted_loading_fence delta of None \<Rightarrow> w2 | Some fence \<Rightarrow> release_reward_lanes fence w2)"

definition lock_and_commit :: "protocol_migration_delta option \<Rightarrow> world \<Rightarrow> world \<times> (world_operation_error + unit)" where
  "lock_and_commit delta w =
     (case delta of
        None \<Rightarrow> (w, Inr ())
      | Some d \<Rightarrow> if lock_delta d w then (commit_delta d w, Inr ())
                  else (w, Inl (ProtocolRoomTransitionInconsistent (pd_user_no d))))"

section \<open>Loading\<close>

definition exact_identity_in_protocol_room :: "world \<Rightarrow> room_id \<Rightarrow> identity_binding \<Rightarrow> identity_binding option" where
  "exact_identity_in_protocol_room w rid frozen =
     (if room_of w (ib_user_no frozen) \<noteq> Some rid then None
      else Option.bind (active_identity w (ib_user_no frozen)) (\<lambda>a. if a = frozen then Some a else None))"

definition all_not_ready :: "protocol_room_member option list \<Rightarrow> protocol_room_member option list" where
  "all_not_ready = map (map_option (set_player (player_type_update (\<lambda>_. slot_state_code NotReady))))"

definition aborted_room :: "protocol_room_state \<Rightarrow> protocol_room_state" where
  "aborted_room room = room\<lparr>phase := PhLobby, race_fence_of := None, frozen_race := None,
     race_progress_of := race_progress_default, loading_handshake_of := Dormant,
     members_by_id := all_not_ready (members_by_id room)\<rparr>"

text \<open>\<open>None\<close> is the \<open>expect\<close> that the room exists.\<close>

definition abort_loading_room :: "room_id \<Rightarrow> world \<Rightarrow> world option" where
  "abort_loading_room rid w = map_option (\<lambda>room.
     insert_room rid (aborted_room room)
       (case race_fence_of room of None \<Rightarrow> w | Some fence \<Rightarrow> release_reward_lanes fence w)) (room_at w rid)"

end
