(* ===== verification/RoomLobby.thy ===== *)
theory RoomLobby
  imports RoomChanges RoomMembership
begin

text \<open>
  What the commands of the world do to one room: each keeps the room invariant,
  and none but joining, leaving and kicking changes who is in the room.
\<close>

section \<open>Member states\<close>

lemma player_state_inv:
  assumes "room_inv room" "k \<in> {2, 3}" "mid < 8" "members_by_id room ! mid \<noteq> None"
  shows "room_inv (room\<lparr>members_by_id := update_slot (set_player (player_type_update (\<lambda>_. k))) mid (members_by_id room)\<rparr>)"
proof -
  note core = room_invD(1) [OF assms(1)]
  note layout = room_layoutD [OF room_coreD(1) [OF core]]
  have rw: "rewritten {2, 3} (members_by_id room) (update_slot (set_player (player_type_update (\<lambda>_. k))) mid (members_by_id room))"
    by (rule racer_state_rewritten [OF assms(2)])
  have "rank_at (update_slot (set_player (player_type_update (\<lambda>_. k))) mid (members_by_id room)) = rank_at (members_by_id room)"
    by (rule rank_at_update_slot) (use assms layout(1) in simp_all)
  then have "room_ranked (room\<lparr>members_by_id := update_slot (set_player (player_type_update (\<lambda>_. k))) mid (members_by_id room)\<rparr>)"
    using room_invD(2) [OF assms(1)] by (simp add: room_ranked_def)
  then show ?thesis
    using members_only_core [OF core rw] members_only_mastered [OF room_invD(3) [OF assms(1)] core_arrays [OF core] rw]
    by (simp add: room_inv_def)
qed

lemma map_user_update_slot [simp]:
  "map prm_user_no (flatten (update_slot (set_player f) i ms)) = map prm_user_no (flatten ms)"
  unfolding update_slot_def by (rule map_flatten_update) simp

lemma not_ready_inv:
  assumes "room_inv room" "mid < 8" "members_by_id room ! mid \<noteq> None"
  shows "room_inv (not_ready mid room)"
  unfolding not_ready_def using player_state_inv [OF assms(1) _ assms(2,3), of "slot_state_code NotReady"] by simp

lemma not_ready_simps [simp]:
  "user_nos (not_ready mid room) = user_nos room"
  "members_by_id (not_ready mid room) ! j = None \<longleftrightarrow> members_by_id room ! j = None"
  "observers (not_ready mid room) = observers room" "settings (not_ready mid room) = settings room"
  "phase (not_ready mid room) = phase room" "room_master (not_ready mid room) = room_master room"
  by (simp_all add: not_ready_def user_nos_conv)

text \<open>Handing the mastership to a present racer.\<close>

lemma master_to_racer_inv:
  assumes "room_inv room" "i < 8" "members_by_id room ! i \<noteq> None"
  shows "room_inv (room\<lparr>room_master := int i\<rparr>)"
proof -
  have "room_mastered (room\<lparr>room_master := int i\<rparr>)"
    using assms(2,3) by (simp add: room_mastered_def member_by_player_id_int)
  then show ?thesis
    using room_invD [OF assms(1)] by (simp add: room_inv_def master_core room_ranked_def)
qed

lemma all_not_ready_rewritten: "rewritten {2, 3} ms (all_not_ready ms)"
  by (auto simp: all_not_ready_def list_all2_conv_all_nth rel_option_iff seat_keeps_def player_strings_ok_def
      split: option.splits)

lemma rank_at_all_not_ready: "i \<in> occupied ms \<Longrightarrow> rank_at (all_not_ready ms) i = rank_at ms i"
  by (auto simp: rank_at_def all_not_ready_def occupied_def)

lemma aborted_room_inv:
  assumes "room_inv room"
  shows "room_inv (aborted_room room)" "user_nos (aborted_room room) = user_nos room"
proof -
  let ?calm = "room\<lparr>members_by_id := all_not_ready (members_by_id room)\<rparr>"
  note rw = all_not_ready_rewritten [of "members_by_id room"]
  have "numbered (rank_at (members_by_id ?calm)) (occupied (members_by_id ?calm))"
    using room_invD(2) [OF assms] rewritten_occupied [OF rw] rank_at_all_not_ready [of _ "members_by_id room"]
    by (simp add: room_ranked_def numbered_def cong: bij_betw_cong)
  then have inv: "room_inv ?calm"
    using members_only_core [OF room_invD(1) [OF assms] rw]
      members_only_mastered [OF room_invD(3) [OF assms] core_arrays [OF room_invD(1) [OF assms]] rw]
    by (simp add: room_inv_def room_ranked_def)
  show "room_inv (aborted_room room)"
    by (rule same_seats_inv [OF _ _ inv]) (simp_all add: same_seats_def aborted_room_def)
  show "user_nos (aborted_room room) = user_nos room"
    using rewritten_map [OF rw, of prm_user_no] by (simp add: user_nos_conv aborted_room_def seat_keeps_def)
qed

section \<open>Changing the team\<close>

lemma move_to_team_inv:
  assumes inv: "room_inv room" and mode: "team_mode room"
    and mid: "mid < 8" "members_by_id room ! mid = Some m"
    and slots: "cur < 8" "slot_positions room ! cur = Some (of_nat mid)"
      "tgt \<in> set (team_half t)" "slot_positions room ! tgt = None"
  shows "room_inv (move_to_team mid t cur tgt room)"
proof -
  note core = room_invD(1) [OF inv]
  note layout = room_layoutD [OF room_coreD(1) [OF core]]
  let ?m = "set_player (\<lambda>p. p\<lparr>team := team_code t, player_type := slot_state_code NotReady\<rparr>) m"
  let ?cleared = "room\<lparr>members_by_id := (members_by_id room)[mid := None], slot_positions := (slot_positions room)[cur := None]\<rparr>"
  have cleared: "room_core ?cleared"
    by (rule clear_racer_core [OF core mid(1) slots(1,2) mid(2)])
  have tgt: "tgt < 8" "team_code t = slot_team room tgt" "tgt \<noteq> cur"
    using slots mode set_team_slots by (cases t; auto simp: team_half_def slot_team_def)+
  have users: "mset (user_nos room) = add_mset (prm_user_no m) (mset (user_nos ?cleared))"
    using mset_user_nos_clear_racer [of mid room m ?cleared] mid layout(1) by simp
  have "distinct (user_nos room)" using room_coreD(2) [OF core] by (simp add: room_users_def)
  then have absent: "prm_user_no m \<notin> set (user_nos ?cleared)"
    using users by (metis distinct_count_atmost_1 mset_eq_imp_distinct_iff set_mset_mset distinct.simps(2) mset.simps(2))
  have "Some m \<in> set (members_by_id room)" using mid layout(1) by (metis nth_mem)
  then have known: "m \<in> set (room_members room)" by (simp add: room_members_set)
  have placed: "room_core (?cleared\<lparr>members_by_id := (members_by_id ?cleared)[mid := Some ?m],
      slot_positions := (slot_positions ?cleared)[tgt := Some (of_nat mid)]\<rparr>)"
  proof (rule place_racer_core [OF cleared mid(1)])
    show "mid \<notin> taken ?cleared"
      using layout(1,6) mid by (auto simp: taken_def room_exclusive_def occupied_def)
    show "slot_positions ?cleared ! tgt = None" using slots(4) tgt(3) by simp
    show "user_no (prm_player ?m) = prm_user_no ?m"
      using known room_coreD(2) [OF core] by (simp add: room_users_def)
    show "team (prm_player ?m) = slot_team ?cleared tgt"
      using tgt(2) by (simp add: slot_team_def team_mode_def)
    show "member_strings ?m"
      using \<open>Some m \<in> set (members_by_id room)\<close> room_coreD(5) [OF core]
      by (auto simp: room_strings_def member_strings_def player_strings_ok_def)
  qed (use tgt(1) absent in simp_all)
  have moved: "move_to_team mid t cur tgt room = ?cleared\<lparr>members_by_id := (members_by_id ?cleared)[mid := Some ?m],
      slot_positions := (slot_positions ?cleared)[tgt := Some (of_nat mid)]\<rparr>"
    using mid(2) by (simp add: move_to_team_def update_slot_def)
  have "rank_at (members_by_id (move_to_team mid t cur tgt room)) = rank_at (members_by_id room)"
    unfolding move_to_team_def by simp (rule rank_at_update_slot, use mid layout(1) in simp_all)
  then have "room_ranked (move_to_team mid t cur tgt room)"
    using room_invD(2) [OF inv] by (simp add: room_ranked_def move_to_team_def)
  moreover have "room_mastered (move_to_team mid t cur tgt room)"
  proof -
    have "member_by_player_id p (move_to_team mid t cur tgt room) = None \<longleftrightarrow> member_by_player_id p room = None" for p
      by (simp add: member_by_player_id_def move_to_team_def)
    then show ?thesis
      using room_invD(3) [OF inv] by (simp add: room_mastered_def room_is_empty_iff move_to_team_def)
  qed
  ultimately show ?thesis using placed moved by (simp add: room_inv_def)
qed

lemma move_to_team_users [simp]: "user_nos (move_to_team mid t cur tgt room) = user_nos room"
  by (simp add: move_to_team_def user_nos_conv)

end
