(* ===== verification/Settlement.thy ===== *)
theory Settlement
  imports LobbyCommands "HOL-Library.Multiset"
begin

text \<open>
  The settlement of a race (\<open>p5136-server/src/world.rs\<close>): the ranking computed from
  the finish times, the reward proposals drawn for it (\<open>time_reward_from_rolls\<close> of
  \<open>p5136-profile/src/progression.rs\<close>) and the packets that announce the result.

  The lemmas show the ranking to be the lexicographic order by time and player, the
  team result to follow from the points, and the packets of an applied settlement to
  pass the checks of the wire format.
\<close>

section \<open>Constants\<close>

definition loading_ready_timeout :: nat where "loading_ready_timeout = 30 * 1000000000"
definition race_start_delay :: nat where "race_start_delay = 1000000000"
definition race_start_tick_lead :: u32 where "race_start_tick_lead = 3000"
definition settlement_delay :: nat where "settlement_delay = 10 * 1000000000"
definition settlement_tick_lead :: u32 where "settlement_tick_lead = 10000"
definition final_stage_tick_lead :: u32 where "final_stage_tick_lead = 6000"
definition team_points_by_rank :: "int list" where "team_points_by_rank = [10, 8, 6, 5, 4, 3, 2, 1]"
definition max_reward_persistence_failures :: nat where "max_reward_persistence_failures = 8"
definition reward_retry_base_delay :: nat where "reward_retry_base_delay = 100 * 1000000"
definition reward_retry_max_delay :: nat where "reward_retry_max_delay = 5 * 1000000000"
definition reward_attempt_lease :: nat where "reward_attempt_lease = 30 * 1000000000"
definition max_due_reward_task_batch :: nat where "max_due_reward_task_batch = 64"

definition race_start_tick :: "u32 \<Rightarrow> u32" where
  "race_start_tick server_tick = server_tick + race_start_tick_lead"

text \<open>
  A \<open>Duration\<close> saturates at about \<open>2^64\<close> seconds; the shift is at most 31, so the
  product stays far below it.
\<close>

definition reward_retry_delay :: "nat \<Rightarrow> nat" where
  "reward_retry_delay failure_count =
     (let shift = min (failure_count - 1) 31
      in min (reward_retry_base_delay * 2 ^ shift) reward_retry_max_delay)"

section \<open>Rewards\<close>

definition max_time_reward_rp_roll :: nat where "max_time_reward_rp_roll = 50"
definition max_time_reward_lucci_roll :: nat where "max_time_reward_lucci_roll = 500"
definition time_reward_baseline_rank :: nat where "time_reward_baseline_rank = 8"

datatype reward_roll_error = RpRoll u8 nat | LucciRoll u16 nat

definition time_reward_from_rolls :: "nat \<Rightarrow> u8 \<Rightarrow> u16 \<Rightarrow> reward_roll_error + time_reward" where
  "time_reward_from_rolls rank rp_roll lucci_roll =
     (if max_time_reward_rp_roll < unat rp_roll then Inl (RpRoll rp_roll max_time_reward_rp_roll)
      else if max_time_reward_lucci_roll < unat lucci_roll
      then Inl (LucciRoll lucci_roll max_time_reward_lucci_roll)
      else
        (let bonus = time_reward_baseline_rank - rank in
         Inr \<lparr>tr_earned_rp = word_of_nat (min (unat rp_roll + bonus div 3) max_time_reward_rp_roll),
              tr_earned_lucci = word_of_nat (min (unat lucci_roll + bonus * 3) max_time_reward_lucci_roll)\<rparr>))"

section \<open>Errors and outcomes of the race commands\<close>

datatype race_error =
    ReNotInRoom
  | ReWrongPhase room_phase
  | ReNotFrozenParticipant
  | ReUnsupportedGameControlState int
  | ReNotRunning room_phase
  | ReHumanRacerRequired
  | ReNoFrozenAiParticipant int
  | ReInvalidFrozenTeam u8
  | ReOutboundUnavailable session_id
  | ReRaceDeadlineOverflow
  | ReSettlementDeadlineOverflow
  | ReSettlementClosed
  | RePendingRaceFanoutFull
  | ReInvalidSettlementRoster nat
  | ReRewardSampling int reward_roll_error
  | ReRewardsNotDurable
  | ReSettlementInvariant string
  | ReProtocol race_protocol_error
  | ReResultProtocol race_result_error
  | ReIdentity identity_error
  | RePanic string

definition frozen_team_from_wire :: "u8 \<Rightarrow> race_error + race_team" where
  "frozen_team_from_wire t =
     (if t = 1 then Inr RaceRed else if t = 2 then Inr RaceBlue else Inl (ReInvalidFrozenTeam t))"

section \<open>The ranking\<close>

text \<open>A racer with its finish time, \<open>u32::MAX\<close> when it did not finish.\<close>

type_synonym timed_racer = "u32 \<times> int \<times> u8"

definition finish_or_max :: "race_progress \<Rightarrow> int \<Rightarrow> u32" where
  "finish_or_max progress player = (case map_of (pg_finish_times progress) player of None \<Rightarrow> - 1 | Some t \<Rightarrow> t)"

definition racers_of :: "frozen_race_roster \<Rightarrow> (int \<times> u8) list" where
  "racers_of frozen =
     map (\<lambda>p. (fp_player_id p, fp_team p)) (filter (\<lambda>p. \<not> fp_observer p) (fr_participants frozen))
     @ map (\<lambda>a. (fa_player_id a, fa_team a)) (fr_ais frozen)"

definition timed_racers :: "race_progress \<Rightarrow> frozen_race_roster \<Rightarrow> timed_racer list" where
  "timed_racers progress frozen = map (\<lambda>(player, t). (finish_or_max progress player, player, t)) (racers_of frozen)"

definition racer_key :: "timed_racer \<Rightarrow> u32 \<times> int" where
  "racer_key r = (fst r, fst (snd r))"

definition ranked_team :: "bool \<Rightarrow> u8 \<Rightarrow> race_error + result_team option" where
  "ranked_team teams wire =
     (if teams then rbind (frozen_team_from_wire wire) (\<lambda>t. Inr (Some (result_team_of t))) else Inr None)"

definition ranked_points :: "bool \<Rightarrow> u32 \<Rightarrow> nat \<Rightarrow> nat \<Rightarrow> race_error + int" where
  "ranked_points teams finish_time rank racers =
     (if teams \<and> finish_time \<noteq> - 1
      then ok_or (ReInvalidSettlementRoster racers) (nth_opt team_points_by_rank rank) else Inr 0)"

definition add_score :: "result_team option \<Rightarrow> int \<Rightarrow> int \<times> int \<Rightarrow> int \<times> int" where
  "add_score t points scores =
     (case t of None \<Rightarrow> scores
      | Some RedTeam \<Rightarrow> (fst scores + points, snd scores)
      | Some BlueTeam \<Rightarrow> (fst scores, snd scores + points))"

fun rank_racers :: "bool \<Rightarrow> nat \<Rightarrow> nat \<Rightarrow> timed_racer list \<Rightarrow> int \<times> int \<Rightarrow> (int \<times> ranked_race_result) list \<Rightarrow>
    race_error + ((int \<times> int) \<times> (int \<times> ranked_race_result) list)" where
  "rank_racers teams racers rank [] scores ranked = Inr (scores, ranked)"
| "rank_racers teams racers rank ((finish_time, player, wire) # rest) scores ranked =
     rbind (ranked_team teams wire) (\<lambda>t.
     rbind (ranked_points teams finish_time rank racers) (\<lambda>points.
     if 2 ^ 31 \<le> rank then Inl (ReSettlementInvariant ''bounded race rank does not fit in i32'')
     else rank_racers teams racers (Suc rank) rest (add_score t points scores)
            (AList.update player \<lparr>rr_finish_time = finish_time, rr_rank = int rank, rr_team = t, rr_team_points = points\<rparr> ranked)))"

definition winning_team :: "u8 \<Rightarrow> int \<times> int \<Rightarrow> timed_racer list \<Rightarrow> (int \<times> ranked_race_result) list \<Rightarrow>
    race_error + result_team option" where
  "winning_team game_type scores racers ranked =
     (case racers of
        [] \<Rightarrow> Inl (ReInvalidSettlementRoster 0)
      | (_, first, _) # _ \<Rightarrow>
          rbind (ok_or (ReSettlementInvariant ''team-mode winner has no frozen team'')
                  (Option.bind (map_of ranked first) rr_team)) (\<lambda>first_team.
          Inr (Some (if game_type = 3 \<and> snd scores < fst scores then RedTeam
                     else if game_type = 3 \<and> fst scores < snd scores then BlueTeam
                     else first_team))))"

definition settlement_ranking_of :: "protocol_room_state \<Rightarrow> race_error + settlement_ranking" where
  "settlement_ranking_of room =
     (case frozen_race room of
        None \<Rightarrow> Inl (ReSettlementInvariant ''settlement ranking has no frozen race roster'')
      | Some frozen \<Rightarrow>
          (let unsorted = timed_racers (race_progress_of room) frozen;
               racers = sort_key racer_key unsorted;
               teams = team_mode room in
           if \<not> (1 \<le> length unsorted \<and> length unsorted \<le> room_slot_count)
           then Inl (ReInvalidSettlementRoster (length unsorted))
           else
             rbind (rank_racers teams (length racers) 0 racers (0, 0) []) (\<lambda>(scores, ranked).
             rbind (if teams then winning_team (set_game_type (settings room)) scores racers ranked else Inr None) (\<lambda>winner.
             Inr \<lparr>sr_winning_team = winner, sr_by_player_id = ranked\<rparr>))))"

section \<open>The result packets\<close>

definition shown_team :: "protocol_room_state \<Rightarrow> ranked_race_result \<Rightarrow> result_team option" where
  "shown_team room ranked = (if team_mode room then rr_team ranked else None)"

definition human_result ::
  "protocol_room_state \<Rightarrow> settlement_ranking \<Rightarrow> frozen_race_participant \<Rightarrow> race_error + human_race_result" where
  "human_result room ranks p =
     rbind (ok_or (ReSettlementInvariant ''human result is missing from frozen ranking'')
             (map_of (sr_by_player_id ranks) (fp_player_id p))) (\<lambda>ranked.
     rbind (ok_or (ReSettlementInvariant ''human racer has no result admission snapshot'') (fp_result p)) (\<lambda>snapshot.
     rbind (ok_or ReRewardsNotDurable (economy_applied (fh_economy snapshot))) (\<lambda>economy.
     Inr \<lparr>hr_player_id = fp_player_id p, hr_finish_time = rr_finish_time ranked, hr_kart_id = fh_kart_id snapshot,
          hr_rank = rr_rank ranked, hr_current_rp = atr_current_rp economy, hr_earned_rp = atr_earned_rp economy,
          hr_earned_lucci = atr_earned_lucci economy, hr_current_lucci = atr_current_lucci economy,
          hr_team = shown_team room ranked, hr_team_points = rr_team_points ranked,
          hr_character_id = fh_character_id snapshot, hr_club_mark_logo = fh_club_mark_logo snapshot\<rparr>)))"

definition ai_result ::
  "protocol_room_state \<Rightarrow> settlement_ranking \<Rightarrow> frozen_ai_race_participant \<Rightarrow> race_error + ai_race_result" where
  "ai_result room ranks a =
     rbind (ok_or (ReSettlementInvariant ''AI result is missing from frozen ranking'')
             (map_of (sr_by_player_id ranks) (fa_player_id a))) (\<lambda>ranked.
     Inr \<lparr>ar_player_id = fa_player_id a, ar_finish_time = rr_finish_time ranked, ar_kart_id = fa_kart_id a,
          ar_rank = rr_rank ranked, ar_team = shown_team room ranked, ar_team_points = rr_team_points ranked\<rparr>)"

definition serialize_settlement_result :: "protocol_room_state \<Rightarrow> settlement_ranking \<Rightarrow> race_error + u8 list" where
  "serialize_settlement_result room ranks =
     (case frozen_race room of
        None \<Rightarrow> Inl (ReSettlementInvariant ''Settling room has no frozen race roster'')
      | Some frozen \<Rightarrow>
          rbind (rtraverse (human_result room ranks) (filter (\<lambda>p. \<not> fp_observer p) (fr_participants frozen))) (\<lambda>humans.
          rbind (rtraverse (ai_result room ranks) (fr_ais frozen)) (\<lambda>ais.
          rmap_err ReResultProtocol (serialize_game_result
            \<lparr>gr_winning_team = sr_winning_team ranks, gr_humans = humans, gr_ais = ais\<rparr>))))"

definition settlement_packets :: "protocol_room_state \<Rightarrow> settlement_ranking \<Rightarrow> race_error + u8 list list" where
  "settlement_packets room ranks =
     (case pg_settlement (race_progress_of room) of
        None \<Rightarrow> Inl (ReSettlementInvariant ''Settling room has no settlement timing'')
      | Some settlement \<Rightarrow>
          rbind (serialize_settlement_result room ranks) (\<lambda>result.
          Inr [serialize_game_control FinalStageControl (ss_end_tick settlement + final_stage_tick_lead),
               serialize_game_next_stage (set_game_type (settings room)), result]))"

section \<open>Reward proposals\<close>

text \<open>\<open>rolls i\<close> is the pair (RP, Lucci) drawn for the \<open>i\<close>-th human racer.\<close>

type_synonym reward_rolls = "nat \<Rightarrow> u8 \<times> u16"

definition plan_reward ::
  "unicode_tables \<Rightarrow> reward_rolls \<Rightarrow> instant \<Rightarrow> nat \<Rightarrow> settlement_ranking \<Rightarrow> nat \<times> frozen_race_participant \<Rightarrow>
     race_error + reward_persistence_entry" where
  "plan_reward u rolls now human_count ranks ip = (case ip of (i, p) \<Rightarrow>
     rbind (ok_or (ReInvalidSettlementRoster human_count) (map_of (sr_by_player_id ranks) (fp_player_id p))) (\<lambda>ranked.
     rbind (if 0 \<le> rr_rank ranked then Inr (nat (rr_rank ranked)) else Inl (ReInvalidSettlementRoster human_count)) (\<lambda>rank.
     rbind (rmap_err (ReRewardSampling (fp_player_id p)) (time_reward_from_rolls rank (fst (rolls i)) (snd (rolls i)))) (\<lambda>reward.
     Inr \<lparr>re_user_no = ib_user_no (fp_identity p), re_nickname = fp_nickname p,
          re_canonical_nickname = canonical_nickname_key u (fp_nickname p), re_player_id = fp_player_id p,
          re_proposed_reward = reward, re_status = RpQueued now 0\<rparr>))))"

definition plan_reward_persistence ::
  "unicode_tables \<Rightarrow> reward_rolls \<Rightarrow> instant \<Rightarrow> protocol_room_state \<Rightarrow>
     race_error + (settlement_ranking \<times> reward_persistence_entry list)" where
  "plan_reward_persistence u rolls now room =
     rbind (settlement_ranking_of room) (\<lambda>ranks.
     case frozen_race room of
       None \<Rightarrow> Inl (ReInvalidSettlementRoster 0)
     | Some frozen \<Rightarrow>
         (let humans = filter (\<lambda>p. \<not> fp_observer p) (fr_participants frozen) in
          if \<not> (1 \<le> length humans \<and> length humans \<le> room_slot_count)
          then Inl (ReInvalidSettlementRoster (length humans))
          else rbind (rtraverse (plan_reward u rolls now (length humans) ranks) (enumerate 0 humans)) (\<lambda>rewards.
               Inr (ranks, rewards))))"

section \<open>The order of the ranking\<close>

definition side_of :: "bool \<Rightarrow> u8 \<Rightarrow> result_team option" where
  "side_of teams wire = (if teams then Some (if wire = 1 then RedTeam else BlueTeam) else None)"

definition points_of :: "bool \<Rightarrow> nat \<Rightarrow> timed_racer \<Rightarrow> int" where
  "points_of teams rank r = (if teams \<and> fst r \<noteq> - 1 then team_points_by_rank ! rank else 0)"

definition ranked_entry :: "bool \<Rightarrow> nat \<Rightarrow> timed_racer \<Rightarrow> int \<times> ranked_race_result" where
  "ranked_entry teams rank r =
     (fst (snd r), \<lparr>rr_finish_time = fst r, rr_rank = int rank, rr_team = side_of teams (snd (snd r)),
                    rr_team_points = points_of teams rank r\<rparr>)"

definition side_score :: "result_team \<Rightarrow> nat \<Rightarrow> timed_racer list \<Rightarrow> int" where
  "side_score t rank rs =
     sum_list (map (\<lambda>(i, r). if side_of True (snd (snd r)) = Some t then points_of True i r else 0) (enumerate rank rs))"

lemma nth_opt_Some: "i < length xs \<Longrightarrow> nth_opt xs i = Some (xs ! i)"
  by (simp add: nth_opt_def)

fun ranked_list :: "bool \<Rightarrow> nat \<Rightarrow> timed_racer list \<Rightarrow> (int \<times> ranked_race_result) list" where
  "ranked_list teams rank [] = []"
| "ranked_list teams rank (r # rs) = ranked_entry teams rank r # ranked_list teams (Suc rank) rs"

lemma ranked_keys: "map fst (ranked_list teams rank rs) = map (\<lambda>r. fst (snd r)) rs"
  by (induction rs arbitrary: rank) (simp_all add: ranked_entry_def)

lemma ranked_domain: "dom (map_of (ranked_list teams rank rs)) = (\<lambda>r. fst (snd r)) ` set rs"
  using arg_cong [OF ranked_keys, of set teams rank rs] by (simp add: dom_map_of_conv_image_fst)

lemma ranked_list_nth: "i < length rs \<Longrightarrow> ranked_entry teams (rank + i) (rs ! i) \<in> set (ranked_list teams rank rs)"
proof (induction rs arbitrary: rank i)
  case (Cons r rs)
  then show ?case by (cases i) (force dest: Cons.IH [of _ "Suc rank"])+
qed simp

lemma rank_racers_step:
  assumes "teams \<longrightarrow> wire \<in> {1, 2}" "rank < 8"
  shows "rank_racers teams n rank ((t, player, wire) # rest) scores ranked =
    rank_racers teams n (Suc rank) rest
      (add_score (side_of teams wire) (points_of teams rank (t, player, wire)) scores)
      (AList.update player (snd (ranked_entry teams rank (t, player, wire))) ranked)"
proof -
  have "ranked_team teams wire = Inr (side_of teams wire)"
    using assms(1) by (auto simp: ranked_team_def frozen_team_from_wire_def side_of_def result_team_of_def)
  moreover have "ranked_points teams t rank n = Inr (points_of teams rank (t, player, wire))"
    using assms(2) by (simp add: ranked_points_def points_of_def nth_opt_Some team_points_by_rank_def ok_or_def)
  moreover have "\<not> 2 ^ 31 \<le> rank" using assms(2) by simp
  ultimately show ?thesis by (simp add: ranked_entry_def)
qed

lemma rank_racers_map:
  assumes "\<forall>r\<in>set rs. teams \<longrightarrow> snd (snd r) \<in> {1, 2}" "rank + length rs \<le> 8" "distinct (map (\<lambda>r. fst (snd r)) rs)"
  shows "\<exists>scores' ranked'. rank_racers teams n rank rs scores ranked = Inr (scores', ranked')
    \<and> map_of ranked' = map_of ranked ++ map_of (ranked_list teams rank rs)
    \<and> (teams \<longrightarrow> scores' = (fst scores + side_score RedTeam rank rs, snd scores + side_score BlueTeam rank rs))"
  using assms
proof (induction rs arbitrary: rank scores ranked)
  case (Cons r rs)
  obtain t player wire where r: "r = (t, player, wire)" by (cases r)
  have step: "rank_racers teams n rank (r # rs) scores ranked =
    rank_racers teams n (Suc rank) rs (add_score (side_of teams wire) (points_of teams rank r) scores)
      (AList.update player (snd (ranked_entry teams rank r)) ranked)"
    unfolding r by (rule rank_racers_step) (use Cons.prems r in auto)
  let ?scores = "add_score (side_of teams wire) (points_of teams rank r) scores"
  let ?ranked = "AList.update player (snd (ranked_entry teams rank r)) ranked"
  have "\<exists>scores' ranked'. rank_racers teams n (Suc rank) rs ?scores ?ranked = Inr (scores', ranked')
      \<and> map_of ranked' = map_of ?ranked ++ map_of (ranked_list teams (Suc rank) rs)
      \<and> (teams \<longrightarrow> scores' = (fst ?scores + side_score RedTeam (Suc rank) rs, snd ?scores + side_score BlueTeam (Suc rank) rs))"
    by (rule Cons.IH) (use Cons.prems in auto)
  then obtain scores' ranked' where
    run: "rank_racers teams n (Suc rank) rs ?scores ?ranked = Inr (scores', ranked')" and
    m: "map_of ranked' = map_of ?ranked ++ map_of (ranked_list teams (Suc rank) rs)" and
    sc: "teams \<longrightarrow> scores' = (fst ?scores + side_score RedTeam (Suc rank) rs, snd ?scores + side_score BlueTeam (Suc rank) rs)"
    by blast
  let ?tail = "map_of (ranked_list teams (Suc rank) rs)"
  have "player \<notin> dom ?tail"
    using Cons.prems(3) unfolding ranked_domain by (simp add: r)
  then have "map_of ranked' = map_of ranked ++ (?tail (player \<mapsto> snd (ranked_entry teams rank r)))"
    unfolding m update_conv' by (auto simp: map_add_def fun_eq_iff split: option.split)
  moreover have "ranked_entry teams rank r = (player, snd (ranked_entry teams rank r))"
    by (simp add: ranked_entry_def r)
  then have "map_of (ranked_list teams rank (r # rs)) = ?tail (player \<mapsto> snd (ranked_entry teams rank r))"
    by (metis map_of.simps(2) fst_conv snd_conv ranked_list.simps(2))
  ultimately have "map_of ranked' = map_of ranked ++ map_of (ranked_list teams rank (r # rs))"
    by (simp only:)
  moreover have "rank_racers teams n rank (r # rs) scores ranked = Inr (scores', ranked')"
    by (simp only: step run)
  moreover have "teams \<longrightarrow> scores' = (fst scores + side_score RedTeam rank (r # rs), snd scores + side_score BlueTeam rank (r # rs))"
    using sc by (auto simp: side_score_def add_score_def side_of_def r split: if_splits)
  ultimately show ?case by blast
qed (simp add: side_score_def)

text \<open>The \<open>i\<close>-th of the sorted racers has rank \<open>i\<close>.\<close>

lemma ranked_lookup:
  assumes "distinct (map (\<lambda>r. fst (snd r)) rs)" "i < length rs"
  shows "map_of (ranked_list teams 0 rs) (fst (snd (rs ! i))) = Some (snd (ranked_entry teams i (rs ! i)))"
proof (rule map_of_is_SomeI)
  show "distinct (map fst (ranked_list teams 0 rs))"
    using assms(1) unfolding ranked_keys .
  show "(fst (snd (rs ! i)), snd (ranked_entry teams i (rs ! i))) \<in> set (ranked_list teams 0 rs)"
    using ranked_list_nth [OF assms(2), of teams 0] by (simp add: ranked_entry_def)
qed

text \<open>What a frozen roster offers the ranking: one to eight racers, distinct, with teams in a team mode.\<close>

definition rankable :: "protocol_room_state \<Rightarrow> frozen_race_roster \<Rightarrow> bool" where
  "rankable room frozen \<longleftrightarrow> frozen_race room = Some frozen \<and> 1 \<le> length (racers_of frozen) \<and> length (racers_of frozen) \<le> 8
     \<and> distinct (map fst (racers_of frozen)) \<and> (team_mode room \<longrightarrow> (\<forall>r\<in>set (racers_of frozen). snd r \<in> {1, 2}))"

definition sorted_racers :: "protocol_room_state \<Rightarrow> frozen_race_roster \<Rightarrow> timed_racer list" where
  "sorted_racers room frozen = sort_key racer_key (timed_racers (race_progress_of room) frozen)"

lemma sorted_racers_facts:
  "set (sorted_racers room frozen) = (\<lambda>(player, t). (finish_or_max (race_progress_of room) player, player, t)) ` set (racers_of frozen)"
  "length (sorted_racers room frozen) = length (racers_of frozen)"
  "distinct (map fst (racers_of frozen)) \<Longrightarrow> distinct (map (\<lambda>r. fst (snd r)) (sorted_racers room frozen))"
  "sorted (map racer_key (sorted_racers room frozen))"
proof -
  show "set (sorted_racers room frozen) = (\<lambda>(player, t). (finish_or_max (race_progress_of room) player, player, t)) ` set (racers_of frozen)"
    by (simp add: sorted_racers_def timed_racers_def)
  show "length (sorted_racers room frozen) = length (racers_of frozen)" by (simp add: sorted_racers_def timed_racers_def)
  have "map (\<lambda>r. fst (snd r)) (timed_racers (race_progress_of room) frozen) = map fst (racers_of frozen)"
    by (simp add: timed_racers_def split_def)
  moreover have "mset (map (\<lambda>r. fst (snd r)) (sorted_racers room frozen)) = mset (map (\<lambda>r. fst (snd r)) (timed_racers (race_progress_of room) frozen))"
    unfolding sorted_racers_def mset_map mset_sort ..
  ultimately show "distinct (map (\<lambda>r. fst (snd r)) (sorted_racers room frozen))" if "distinct (map fst (racers_of frozen))"
    using that by (metis mset_eq_imp_distinct_iff)
  show "sorted (map racer_key (sorted_racers room frozen))" by (simp add: sorted_racers_def)
qed

text \<open>The winner: the higher score in a speed team race, on a tie and in an item team race the first.\<close>

definition winner_of :: "protocol_room_state \<Rightarrow> timed_racer list \<Rightarrow> result_team option" where
  "winner_of room rs =
     (if team_mode room then
        Some (if set_game_type (settings room) = 3 \<and> side_score BlueTeam 0 rs < side_score RedTeam 0 rs then RedTeam
              else if set_game_type (settings room) = 3 \<and> side_score RedTeam 0 rs < side_score BlueTeam 0 rs then BlueTeam
              else if snd (snd (hd rs)) = 1 then RedTeam else BlueTeam)
      else None)"

lemma winning_team_result:
  assumes "team_mode room" "rs \<noteq> []" "map_of ranked (fst (snd (hd rs))) = Some (snd (ranked_entry True 0 (hd rs)))"
  shows "winning_team (set_game_type (settings room)) (side_score RedTeam 0 rs, side_score BlueTeam 0 rs) rs ranked = Inr (winner_of room rs)"
proof -
  obtain t player wire rest where rs: "rs = (t, player, wire) # rest" using assms(2) by (metis list.exhaust prod_cases3)
  have "Option.bind (map_of ranked player) rr_team = Some (if wire = 1 then RedTeam else BlueTeam)"
    using assms(3) by (simp add: rs ranked_entry_def side_of_def)
  then show ?thesis using assms(1) by (simp add: winning_team_def rs winner_of_def ok_or_def)
qed

lemma settlement_ranking_result:
  assumes "rankable room frozen"
  obtains ranks where "settlement_ranking_of room = Inr ranks"
    and "dom (map_of (sr_by_player_id ranks)) = fst ` set (racers_of frozen)"
    and "\<And>i. i < length (sorted_racers room frozen) \<Longrightarrow>
      map_of (sr_by_player_id ranks) (fst (snd (sorted_racers room frozen ! i))) =
        Some (snd (ranked_entry (team_mode room) i (sorted_racers room frozen ! i)))"
    and "sr_winning_team ranks = winner_of room (sorted_racers room frozen)"
proof -
  let ?rs = "sorted_racers room frozen" and ?teams = "team_mode room"
  note facts = sorted_racers_facts [where room = room and frozen = frozen]
  have roster: "frozen_race room = Some frozen" "1 \<le> length (racers_of frozen)" "length (racers_of frozen) \<le> 8"
      "distinct (map fst (racers_of frozen))" and wires: "?teams \<longrightarrow> (\<forall>r\<in>set (racers_of frozen). snd r \<in> {1, 2})"
    using assms by (auto simp: rankable_def)
  have valid: "\<forall>r\<in>set ?rs. ?teams \<longrightarrow> snd (snd r) \<in> {1, 2}" using wires facts(1) by auto
  have dist: "distinct (map (\<lambda>r. fst (snd r)) ?rs)" by (rule facts(3) [OF roster(4)])
  have "0 + length ?rs \<le> 8" using roster(3) facts(2) by simp
  from rank_racers_map [OF valid this dist, of "length ?rs" "(0, 0)" "[]"]
  obtain scores ranked where
    run: "rank_racers ?teams (length ?rs) 0 ?rs (0, 0) [] = Inr (scores, ranked)" and
    m: "map_of ranked = map_of (ranked_list ?teams 0 ?rs)" and
    sc: "?teams \<longrightarrow> scores = (side_score RedTeam 0 ?rs, side_score BlueTeam 0 ?rs)" by auto
  have len: "length (timed_racers (race_progress_of room) frozen) = length (racers_of frozen)" by (simp add: timed_racers_def)
  have ne: "?rs \<noteq> []" using facts(2) roster(2) by auto
  have head: "map_of ranked (fst (snd (hd ?rs))) = Some (snd (ranked_entry ?teams 0 (hd ?rs)))"
    using ranked_lookup [OF dist, of 0 ?teams] ne m by (simp add: hd_conv_nth)
  have win: "(if ?teams then winning_team (set_game_type (settings room)) scores ?rs ranked else Inr None) = Inr (winner_of room ?rs)"
  proof (cases ?teams)
    case True
    then show ?thesis using winning_team_result [OF True ne] head sc by simp
  qed (simp add: winner_of_def)
  have result: "settlement_ranking_of room = Inr \<lparr>sr_winning_team = winner_of room ?rs, sr_by_player_id = ranked\<rparr>"
    unfolding settlement_ranking_of_def using roster(1-3) len run win
    by (cases ?teams) (simp_all add: Let_def sorted_racers_def [symmetric] room_slot_count_def)
  show thesis
    by (rule that [OF result]) (simp_all add: m ranked_lookup [OF dist] ranked_domain facts(1) image_image split_def)
qed

section \<open>Rankings the wire format accepts\<close>

definition ranks_ok :: "protocol_room_state \<Rightarrow> frozen_race_roster \<Rightarrow> settlement_ranking \<Rightarrow> bool" where
  "ranks_ok room frozen ranks \<longleftrightarrow>
     (let at = (\<lambda>p. the (map_of (sr_by_player_id ranks) p)); ids = fst ` set (racers_of frozen) in
      dom (map_of (sr_by_player_id ranks)) = ids
      \<and> inj_on (\<lambda>p. rr_rank (at p)) ids
      \<and> (\<forall>p\<in>ids. 0 \<le> rr_rank (at p) \<and> rr_rank (at p) < int (length (racers_of frozen))
           \<and> (rr_team (at p) \<noteq> None \<longleftrightarrow> team_mode room)
           \<and> (if team_mode room then 0 \<le> rr_team_points (at p) \<and> rr_team_points (at p) \<le> 10 else rr_team_points (at p) = 0))
      \<and> (sr_winning_team ranks \<noteq> None \<longleftrightarrow> team_mode room)
      \<and> (team_mode room \<longrightarrow> (\<exists>p\<in>ids. rr_team (at p) = sr_winning_team ranks)))"

lemma points_range: "rank < 8 \<Longrightarrow> 0 \<le> points_of teams rank r \<and> points_of teams rank r \<le> 10"
proof -
  have "\<forall>x\<in>set team_points_by_rank. 0 \<le> x \<and> x \<le> 10" by (simp add: team_points_by_rank_def)
  moreover assume "rank < 8"
  then have "team_points_by_rank ! rank \<in> set team_points_by_rank" by (intro nth_mem) (simp add: team_points_by_rank_def)
  ultimately show ?thesis by (simp add: points_of_def)
qed

lemma side_score_absent: "\<forall>r\<in>set rs. side_of True (snd (snd r)) \<noteq> Some t \<Longrightarrow> side_score t rank rs = 0"
  by (induction rs arbitrary: rank) (auto simp: side_score_def)

lemma side_score_nonneg: "rank + length rs \<le> 8 \<Longrightarrow> 0 \<le> side_score t rank rs"
proof (induction rs arbitrary: rank)
  case (Cons r rs)
  from Cons.IH [of "Suc rank"] Cons.prems points_range [of rank True r] show ?case by (simp add: side_score_def)
qed (simp add: side_score_def)

lemma winner_present:
  assumes "team_mode room" "rs \<noteq> []" "length rs \<le> 8"
  shows "\<exists>r\<in>set rs. side_of True (snd (snd r)) = winner_of room rs"
proof -
  have present: "\<exists>r\<in>set rs. side_of True (snd (snd r)) = Some t" if "side_score t' 0 rs < side_score t 0 rs" for t t'
  proof (rule ccontr)
    assume "\<not> ?thesis"
    then have "side_score t 0 rs = 0" by (intro side_score_absent) blast
    with that side_score_nonneg [of 0 rs t'] assms(3) show False by simp
  qed
  have "hd rs \<in> set rs" using assms(2) by simp
  with assms(1) show ?thesis unfolding winner_of_def
    by (auto intro: present) (auto simp: side_of_def)
qed

lemma ranks_ok_of_ranking:
  assumes "rankable room frozen" "settlement_ranking_of room = Inr ranks"
  shows "ranks_ok room frozen ranks"
proof -
  let ?rs = "sorted_racers room frozen" and ?teams = "team_mode room"
  let ?at = "\<lambda>p. the (map_of (sr_by_player_id ranks) p)" and ?ids = "fst ` set (racers_of frozen)"
  note facts = sorted_racers_facts [where room = room and frozen = frozen]
  obtain ranks' where r: "settlement_ranking_of room = Inr ranks'"
    "dom (map_of (sr_by_player_id ranks')) = ?ids"
    "\<And>i. i < length ?rs \<Longrightarrow> map_of (sr_by_player_id ranks') (fst (snd (?rs ! i))) = Some (snd (ranked_entry ?teams i (?rs ! i)))"
    "sr_winning_team ranks' = winner_of room ?rs"
    using settlement_ranking_result [OF assms(1)] by metis
  then have eq: "ranks' = ranks" using assms(2) by simp
  note r = r [unfolded eq]
  have small: "length ?rs \<le> 8" and ne: "?rs \<noteq> []" using assms(1) facts(2) by (auto simp: rankable_def)
  have index: "\<exists>i<length ?rs. p = fst (snd (?rs ! i)) \<and> ?at p = snd (ranked_entry ?teams i (?rs ! i))" if "p \<in> ?ids" for p
  proof -
    from that have "p \<in> (\<lambda>r. fst (snd r)) ` set ?rs" by (simp add: facts(1) image_image split_def)
    then obtain i where "i < length ?rs" "p = fst (snd (?rs ! i))" by (auto simp: in_set_conv_nth)
    with r(3) show ?thesis by auto
  qed
  have "inj_on (\<lambda>p. rr_rank (?at p)) ?ids"
  proof (rule inj_onI)
    fix p q
    assume "p \<in> ?ids" "q \<in> ?ids" "rr_rank (?at p) = rr_rank (?at q)"
    moreover obtain i j where "i < length ?rs" "p = fst (snd (?rs ! i))" "?at p = snd (ranked_entry ?teams i (?rs ! i))"
      "j < length ?rs" "q = fst (snd (?rs ! j))" "?at q = snd (ranked_entry ?teams j (?rs ! j))"
      using index [OF \<open>p \<in> ?ids\<close>] index [OF \<open>q \<in> ?ids\<close>] by blast
    ultimately show "p = q" by (simp add: ranked_entry_def)
  qed
  moreover have "0 \<le> rr_rank (?at p) \<and> rr_rank (?at p) < int (length (racers_of frozen))
      \<and> (rr_team (?at p) \<noteq> None \<longleftrightarrow> ?teams)
      \<and> (if ?teams then 0 \<le> rr_team_points (?at p) \<and> rr_team_points (?at p) \<le> 10 else rr_team_points (?at p) = 0)"
    if "p \<in> ?ids" for p
  proof -
    from index [OF that] obtain i where i: "i < length ?rs" "?at p = snd (ranked_entry ?teams i (?rs ! i))" by blast
    with small have "0 \<le> points_of ?teams i (?rs ! i) \<and> points_of ?teams i (?rs ! i) \<le> 10" by (intro points_range) simp
    moreover have "\<not> ?teams \<Longrightarrow> points_of ?teams i (?rs ! i) = 0" by (simp add: points_of_def)
    ultimately show ?thesis using i facts(2) by (cases ?teams) (simp_all add: ranked_entry_def side_of_def)
  qed
  moreover have "sr_winning_team ranks \<noteq> None \<longleftrightarrow> ?teams" by (simp add: r(4) winner_of_def)
  moreover have "\<exists>p\<in>?ids. rr_team (?at p) = sr_winning_team ranks" if ?teams
  proof -
    from winner_present [OF that ne small]
    obtain i where i: "i < length ?rs" "side_of True (snd (snd (?rs ! i))) = winner_of room ?rs"
      by (auto simp: in_set_conv_nth)
    have "fst (snd (?rs ! i)) \<in> ?ids" using i(1) r(2,3) by blast
    moreover have "rr_team (?at (fst (snd (?rs ! i)))) = sr_winning_team ranks"
      using i \<open>?teams\<close> r(3) [OF i(1)] by (simp add: r(4) ranked_entry_def)
    ultimately show ?thesis by blast
  qed
  ultimately show ?thesis using r(2) unfolding ranks_ok_def Let_def by blast
qed

lemma rtraverse_Inr: "(\<And>x. x \<in> set xs \<Longrightarrow> f x = Inr (g x)) \<Longrightarrow> rtraverse f xs = Inr (map g xs)"
  by (induction xs) simp_all

definition all_applied :: "frozen_race_roster \<Rightarrow> bool" where
  "all_applied frozen \<longleftrightarrow> (\<forall>p\<in>set (fr_participants frozen). \<not> fp_observer p \<longrightarrow>
     (\<exists>snapshot applied. fp_result p = Some snapshot \<and> fh_economy snapshot = EcoApplied applied))"

lemma settlement_result_written:
  assumes "ranks_ok room frozen ranks" "rankable room frozen" "all_applied frozen"
    and "\<forall>p\<in>fst ` set (racers_of frozen). 0 \<le> p \<and> p \<le> 7"
  shows "\<exists>packet. serialize_settlement_result room ranks = Inr packet
    \<and> length packet = 52 + 212 * length (frozen_humans frozen) + 22 * length (fr_ais frozen)"
proof -
  let ?at = "\<lambda>p. the (map_of (sr_by_player_id ranks) p)" and ?ids = "fst ` set (racers_of frozen)"
  let ?humans = "filter (\<lambda>p. \<not> fp_observer p) (fr_participants frozen)"
  note ok = assms(1) [unfolded ranks_ok_def Let_def]
  have dom: "map_of (sr_by_player_id ranks) p = Some (?at p)" if "p \<in> ?ids" for p
    using ok that by (metis domD option.sel)
  have hin: "fp_player_id p \<in> ?ids" if "p \<in> set ?humans" for p using that by (force simp: racers_of_def)
  have ain: "fa_player_id a \<in> ?ids" if "a \<in> set (fr_ais frozen)" for a using that by (force simp: racers_of_def)
  define h where "h p = (let e = (case fh_economy (the (fp_result p)) of EcoApplied applied \<Rightarrow> applied) in
    \<lparr>hr_player_id = fp_player_id p, hr_finish_time = rr_finish_time (?at (fp_player_id p)), hr_kart_id = fh_kart_id (the (fp_result p)),
     hr_rank = rr_rank (?at (fp_player_id p)), hr_current_rp = atr_current_rp e, hr_earned_rp = atr_earned_rp e,
     hr_earned_lucci = atr_earned_lucci e, hr_current_lucci = atr_current_lucci e,
     hr_team = shown_team room (?at (fp_player_id p)), hr_team_points = rr_team_points (?at (fp_player_id p)),
     hr_character_id = fh_character_id (the (fp_result p)), hr_club_mark_logo = fh_club_mark_logo (the (fp_result p))\<rparr>)" for p :: frozen_race_participant
  define a where "a q = \<lparr>ar_player_id = fa_player_id q, ar_finish_time = rr_finish_time (?at (fa_player_id q)), ar_kart_id = fa_kart_id q,
     ar_rank = rr_rank (?at (fa_player_id q)), ar_team = shown_team room (?at (fa_player_id q)),
     ar_team_points = rr_team_points (?at (fa_player_id q))\<rparr>" for q :: frozen_ai_race_participant
  have humans: "rtraverse (human_result room ranks) ?humans = Inr (map h ?humans)"
  proof (rule rtraverse_Inr)
    fix p
    assume p: "p \<in> set ?humans"
    then obtain snapshot applied where s: "fp_result p = Some snapshot" "fh_economy snapshot = EcoApplied applied"
      using assms(3) by (auto simp: all_applied_def)
    obtain v where v: "map_of (sr_by_player_id ranks) (fp_player_id p) = Some v" using dom [OF hin [OF p]] ..
    show "human_result room ranks p = Inr (h p)"
      by (simp add: human_result_def ok_or_def v s h_def Let_def)
  qed
  have ais: "rtraverse (ai_result room ranks) (fr_ais frozen) = Inr (map a (fr_ais frozen))"
  proof (rule rtraverse_Inr)
    fix q
    assume q: "q \<in> set (fr_ais frozen)"
    obtain v where v: "map_of (sr_by_player_id ranks) (fa_player_id q) = Some v" using dom [OF ain [OF q]] ..
    show "ai_result room ranks q = Inr (a q)" by (simp add: ai_result_def ok_or_def v a_def)
  qed
  let ?result = "\<lparr>gr_winning_team = sr_winning_team ranks, gr_humans = map h ?humans, gr_ais = map a (fr_ais frozen)\<rparr>"
  have entries: "result_entries ?result = map (\<lambda>p. (p, rr_rank (?at p), shown_team room (?at p), rr_team_points (?at p))) (map fst (racers_of frozen))"
    by (simp add: result_entries_def racers_of_def h_def a_def Let_def comp_def)
  have roster: "length (racers_of frozen) \<le> 8" "distinct (map fst (racers_of frozen))" "frozen_race room = Some frozen"
    using assms(2) by (auto simp: rankable_def)
  have count: "length ?humans + length (fr_ais frozen) = length (racers_of frozen)" by (simp add: racers_of_def)
  have "\<exists>packet. serialize_game_result ?result = Inr packet"
    unfolding serialize_game_result_Inr_iff
  proof (intro conjI)
    show "length (gr_humans ?result) + length (gr_ais ?result) \<le> 8" using count roster(1) by simp
    have each: "result_entry_ok (sr_winning_team ranks) (length (racers_of frozen))
        (p, rr_rank (?at p), shown_team room (?at p), rr_team_points (?at p))" if "p \<in> ?ids" for p
    proof -
      have "0 \<le> p \<and> p \<le> 7" using assms(4) that by blast
      moreover have "0 \<le> rr_rank (?at p) \<and> rr_rank (?at p) < int (length (racers_of frozen))
          \<and> (rr_team (?at p) \<noteq> None \<longleftrightarrow> team_mode room)
          \<and> (if team_mode room then 0 \<le> rr_team_points (?at p) \<and> rr_team_points (?at p) \<le> 10 else rr_team_points (?at p) = 0)"
        and "sr_winning_team ranks \<noteq> None \<longleftrightarrow> team_mode room" using ok that by blast+
      ultimately show ?thesis using roster(1) by (auto simp: result_entry_ok_def shown_team_def)
    qed
    have len: "length (result_entries ?result) = length (racers_of frozen)" by (simp only: entries length_map)
    show "\<forall>e\<in>set (result_entries ?result). result_entry_ok (gr_winning_team ?result) (length (result_entries ?result)) e"
      unfolding len unfolding entries set_map using each by simp
    show "distinct (map fst (result_entries ?result))" using roster(2) by (simp add: entries comp_def)
    have "map (\<lambda>e. fst (snd e)) (result_entries ?result) = map (\<lambda>p. rr_rank (?at p)) (map fst (racers_of frozen))"
      by (simp add: entries)
    moreover have "distinct (map (\<lambda>p. rr_rank (?at p)) (map fst (racers_of frozen)))"
      using ok roster(2) by (simp only: distinct_map set_map)
    ultimately show "distinct (map (\<lambda>e. fst (snd e)) (result_entries ?result))" by simp
    show "gr_winning_team ?result \<noteq> None \<longrightarrow> (\<exists>e\<in>set (result_entries ?result). fst (snd (snd e)) = gr_winning_team ?result)"
    proof
      assume "gr_winning_team ?result \<noteq> None"
      then have teams: "team_mode room" using ok by simp
      then obtain p where "p \<in> ?ids" "rr_team (?at p) = sr_winning_team ranks" using ok by blast
      then show "\<exists>e\<in>set (result_entries ?result). fst (snd (snd e)) = gr_winning_team ?result"
        unfolding entries set_map using teams by (force simp: shown_team_def)
    qed
  qed
  then obtain packet where packet: "serialize_game_result ?result = Inr packet" by blast
  then have "serialize_settlement_result room ranks = Inr packet"
    by (simp add: serialize_settlement_result_def roster(3) humans ais)
  moreover have "length packet = 52 + 212 * length (frozen_humans frozen) + 22 * length (fr_ais frozen)"
    using serialize_game_result_length [OF packet]
    by (simp add: empty_game_result_length_def human_result_record_length_def ai_result_record_length_def frozen_humans_def)
  ultimately show ?thesis by blast
qed

end
