(* ===== verification/RaceRun.thy ===== *)
theory RaceRun
  imports Settlement RoomMembership
begin

text \<open>
  The race commands and the heartbeat of the world actor
  (\<open>p5136-server/src/world.rs\<close>): arming and reconciling the loading handshake, the
  scheduled start, finishes and the settlement deadline, the fan-out that is retried
  until every recipient's queue has room, and the return to the lobby.

  A heartbeat serves several rooms in one step, so the permits still free are threaded
  through it.  The order in which a hash map yields the rooms is the order of the
  association list.  Parameters: \<open>clock phase rid\<close> is the server tick read when the room
  of that phase is visited, \<open>rewards rid\<close> and \<open>items rid\<close> are the random sources.  A
  failing \<open>expect\<close> is \<open>RePanic\<close>; it ends the actor, so the state after it is immaterial.
\<close>

section \<open>Helpers\<close>

definition update_room :: "room_id \<Rightarrow> (protocol_room_state \<Rightarrow> protocol_room_state) \<Rightarrow> world \<Rightarrow> world" where
  "update_room rid f w = (case room_at w rid of None \<Rightarrow> w | Some room \<Rightarrow> insert_room rid (f room) w)"

definition set_progress :: "(race_progress \<Rightarrow> race_progress) \<Rightarrow> protocol_room_state \<Rightarrow> protocol_room_state" where
  "set_progress f room = room\<lparr>race_progress_of := f (race_progress_of room)\<rparr>"

definition set_finalization ::
  "(settlement_finalization \<Rightarrow> settlement_finalization) \<Rightarrow> protocol_room_state \<Rightarrow> protocol_room_state" where
  "set_finalization f = set_progress (\<lambda>progress. progress\<lparr>pg_settlement :=
     map_option (\<lambda>s. s\<lparr>ss_finalization := f (ss_finalization s)\<rparr>) (pg_settlement progress)\<rparr>)"

definition finalization_of :: "world \<Rightarrow> room_id \<Rightarrow> settlement_finalization option" where
  "finalization_of w rid = Option.bind (room_at w rid) (\<lambda>room.
     map_option ss_finalization (pg_settlement (race_progress_of room)))"

definition frozen_with_identity :: "identity_binding \<Rightarrow> frozen_race_roster \<Rightarrow> frozen_race_participant option" where
  "frozen_with_identity identity frozen = List.find (\<lambda>p. fp_identity p = identity) (fr_participants frozen)"

abbreviation race_panic :: "race_error + 'a" where
  "race_panic \<equiv> Inl (RePanic ''missing room or frozen roster'')"

type_synonym 'a race_turn = "world \<times> (race_error + 'a)"

section \<open>Loading\<close>

datatype race_command_outcome =
    LoadingAwaiting room_id u64 nat
  | IgnoredDuplicate room_id u64
  | FinishRecorded room_id u64 int bool

definition arm_loading :: "room_id \<Rightarrow> identity_binding \<Rightarrow> instant \<Rightarrow> world \<Rightarrow> race_command_outcome race_turn" where
  "arm_loading rid identity now w =
     (case room_at w rid of
        None \<Rightarrow> (w, race_panic)
      | Some room \<Rightarrow>
          if phase room \<noteq> PhLoading then (w, Inl (ReWrongPhase (phase room)))
          else (case frozen_race room of
            None \<Rightarrow> (w, race_panic)
          | Some frozen \<Rightarrow>
              if frozen_with_identity identity frozen = None then (w, Inl ReNotFrozenParticipant)
              else if loading_handshake_of room \<noteq> Dormant
              then (w, Inr (IgnoredDuplicate rid (rf_race_epoch (fr_fence frozen))))
              else (case instant_checked_add now loading_ready_timeout of
                  None \<Rightarrow> (w, Inl ReRaceDeadlineOverflow)
                | Some deadline \<Rightarrow>
                    (let expected = set (map (\<lambda>p. stamp_of (fp_identity p)) (fr_participants frozen)) in
                     (insert_room rid (room\<lparr>loading_handshake_of := Awaiting expected {} deadline\<rparr>) w,
                      Inr (LoadingAwaiting rid (rf_race_epoch (fr_fence frozen)) (Finite_Set.card expected)))))))"

record loading_readiness_candidate =
  lc_room_id :: room_id
  lc_race_epoch :: u64
  lc_participant :: frozen_participant_stamp

definition loading_readiness_candidate_of :: "identity_binding \<Rightarrow> world \<Rightarrow> loading_readiness_candidate option" where
  "loading_readiness_candidate_of identity w =
     (if active_identity w (ib_user_no identity) \<noteq> Some identity then None
      else
        Option.bind (room_of w (ib_user_no identity)) (\<lambda>rid.
        Option.bind (room_at w rid) (\<lambda>room.
        if phase room \<noteq> PhLoading then None
        else Option.bind (frozen_race room) (\<lambda>frozen.
          if Some (fr_fence frozen) \<noteq> race_fence_of room \<or> frozen_with_identity identity frozen = None then None
          else (case loading_handshake_of room of
              Awaiting expected ready deadline \<Rightarrow>
                if stamp_of identity \<in> expected
                then Some \<lparr>lc_room_id = rid, lc_race_epoch = rf_race_epoch (fr_fence frozen),
                           lc_participant = stamp_of identity\<rparr>
                else None
            | _ \<Rightarrow> None)))))"

text \<open>The candidate was taken before the UDP reply was sent, so everything is checked again.\<close>

definition mark_loading_ready :: "loading_readiness_candidate \<Rightarrow> world \<Rightarrow> bool \<times> world" where
  "mark_loading_ready candidate w =
     (case active_identity w (fs_user_no (lc_participant candidate)) of
        None \<Rightarrow> (False, w)
      | Some active \<Rightarrow>
          if stamp_of active \<noteq> lc_participant candidate then (False, w)
          else (case room_at w (lc_room_id candidate) of
              None \<Rightarrow> (False, w)
            | Some room \<Rightarrow>
                if phase room \<noteq> PhLoading
                   \<or> map_option rf_race_epoch (race_fence_of room) \<noteq> Some (lc_race_epoch candidate)
                then (False, w)
                else (case frozen_race room of
                    None \<Rightarrow> (False, w)
                  | Some frozen \<Rightarrow>
                      if rf_race_epoch (fr_fence frozen) \<noteq> lc_race_epoch candidate
                         \<or> frozen_with_identity active frozen = None
                      then (False, w)
                      else (case loading_handshake_of room of
                          Awaiting expected ready deadline \<Rightarrow>
                            if lc_participant candidate \<in> expected \<and> lc_participant candidate \<notin> ready
                            then (True, insert_room (lc_room_id candidate)
                              (room\<lparr>loading_handshake_of :=
                                 Awaiting expected (insert (lc_participant candidate) ready) deadline\<rparr>) w)
                            else (False, w)
                        | _ \<Rightarrow> (False, w)))))"

datatype udp_dispatch_action = EchoReply | TimeSyncReply | GameSlotRelay | RoomSlotRelay | ClientReplyDropped

definition apply_udp_dispatch_readiness ::
  "loading_readiness_candidate option \<Rightarrow> udp_dispatch_action \<Rightarrow> nat \<Rightarrow> world \<Rightarrow> bool \<times> world" where
  "apply_udp_dispatch_readiness candidate action sent w =
     (if action \<noteq> TimeSyncReply \<or> sent \<noteq> 1 then (False, w)
      else (case candidate of None \<Rightarrow> (False, w) | Some c \<Rightarrow> mark_loading_ready c w))"

section \<open>Recipients\<close>

text \<open>The participants still in the room under the identity they were frozen with.\<close>

definition active_frozen_recipient_sessions ::
  "world \<Rightarrow> room_id \<Rightarrow> frozen_race_roster \<Rightarrow> (frozen_race_participant \<times> session_id) list" where
  "active_frozen_recipient_sessions w rid frozen =
     List.map_filter (\<lambda>p. map_option (\<lambda>identity. (p, ib_owner identity))
       (exact_identity_in_protocol_room w rid (fp_identity p))) (fr_participants frozen)"

definition active_frozen_participant_stamps ::
  "world \<Rightarrow> room_id \<Rightarrow> frozen_race_roster \<Rightarrow> frozen_participant_stamp set \<times> nat" where
  "active_frozen_participant_stamps w rid frozen =
     (let present = filter (\<lambda>p. exact_identity_in_protocol_room w rid (fp_identity p) \<noteq> None) (fr_participants frozen)
      in (set (map (\<lambda>p. stamp_of (fp_identity p)) present), length (filter (\<lambda>p. \<not> fp_observer p) present)))"

definition racing_udp_targets :: "world \<Rightarrow> u32 \<Rightarrow> identity_binding list" where
  "racing_udp_targets w source =
     (case room_of w source of
        None \<Rightarrow> []
      | Some rid \<Rightarrow> (case room_at w rid of
          None \<Rightarrow> []
        | Some room \<Rightarrow>
            if phase room = PhLobby then []
            else (case frozen_race room of
              None \<Rightarrow> []
            | Some frozen \<Rightarrow> (case active_identity w source of
                None \<Rightarrow> []
              | Some source_identity \<Rightarrow>
                  if frozen_with_identity source_identity frozen = None then []
                  else List.map_filter (\<lambda>p. exact_identity_in_protocol_room w rid (fp_identity p))
                    (filter (\<lambda>p. ib_user_no (fp_identity p) \<noteq> source) (fr_participants frozen))))))"

section \<open>Reservation\<close>

definition reserve_race_outbound ::
  "permits \<Rightarrow> outbound_delivery list \<Rightarrow> world \<Rightarrow> outbound_delivery list race_turn" where
  "reserve_race_outbound permits deliveries w =
     (case reserve_outbound permits deliveries w of
        (w', Inl (OutboundUnavailable session)) \<Rightarrow> (w', Inl (ReOutboundUnavailable session))
      | (w', Inl e) \<Rightarrow> (w', Inl (RePanic ''unreachable''))
      | (w', Inr reserved) \<Rightarrow> (w', Inr reserved))"

definition spend :: "outbound_delivery list \<Rightarrow> permits \<Rightarrow> permits" where
  "spend deliveries permits = (\<lambda>s. permits s - length (filter (\<lambda>d. fst d = s) deliveries))"

text \<open>The state a heartbeat threads: the free permits, the world, what was published so far.\<close>

type_synonym beat = "permits \<times> world \<times> outbound_delivery list"

definition publish :: "outbound_delivery list \<Rightarrow> world \<Rightarrow> beat \<Rightarrow> beat" where
  "publish reserved w beat = (case beat of (permits, _, sent) \<Rightarrow> (spend reserved permits, w, sent @ reserved))"

fun visit :: "(room_id \<Rightarrow> beat \<Rightarrow> race_error + beat) \<Rightarrow> room_id list \<Rightarrow> beat \<Rightarrow> race_error + beat" where
  "visit step [] beat = Inr beat"
| "visit step (rid # rids) beat = rbind (step rid beat) (visit step rids)"

section \<open>Pending fan-outs\<close>

definition fanout_packets :: "u32 \<Rightarrow> pending_race_fanout list \<Rightarrow> u8 list list" where
  "fanout_packets u fanouts = concat (map (\<lambda>fanout.
     (case prf_race_time fanout of None \<Rightarrow> [] | Some t \<Rightarrow> [prt_packet t])
     @ (case prf_begin_settlement fanout of
          None \<Rightarrow> []
        | Some b \<Rightarrow> if pbs_excluded_user b \<noteq> Some u then [pbs_packet b] else [])) fanouts)"

definition fanout_deliveries ::
  "world \<Rightarrow> room_id \<Rightarrow> frozen_race_roster \<Rightarrow> pending_race_fanout list \<Rightarrow> outbound_delivery list" where
  "fanout_deliveries w rid frozen fanouts =
     List.map_filter (\<lambda>(p, session).
       let packets = fanout_packets (ib_user_no (fp_identity p)) fanouts
       in if packets = [] then None else Some (session, packets))
       (active_frozen_recipient_sessions w rid frozen)"

definition clear_fanouts :: "race_progress \<Rightarrow> race_progress" where
  "clear_fanouts progress = progress\<lparr>pg_pending_fanouts := []\<rparr>"

definition try_flush_pending_race_fanouts :: "room_id \<Rightarrow> beat \<Rightarrow> race_error + (bool \<times> beat)" where
  "try_flush_pending_race_fanouts rid beat = (case beat of (permits, w, sent) \<Rightarrow>
     (case room_at w rid of
        None \<Rightarrow> race_panic
      | Some room \<Rightarrow>
          if pg_pending_fanouts (race_progress_of room) = [] then Inr (True, beat)
          else (case frozen_race room of
            None \<Rightarrow> race_panic
          | Some frozen \<Rightarrow>
              (case reserve_race_outbound permits
                  (fanout_deliveries w (room_id_of room) frozen (pg_pending_fanouts (race_progress_of room))) w of
                 (w', Inl e) \<Rightarrow> Inr (False, (permits, w', sent))
               | (w', Inr reserved) \<Rightarrow>
                   Inr (True, publish reserved (update_room rid (set_progress clear_fanouts) w') beat)))))"

section \<open>The loading heartbeat\<close>

definition reconcile_handshake :: "frozen_participant_stamp set \<Rightarrow> instant \<Rightarrow> loading_handshake \<Rightarrow> loading_handshake" where
  "reconcile_handshake active now handshake =
     (case handshake of
        Awaiting expected ready deadline \<Rightarrow>
          (let expected' = expected \<inter> active; ready' = ready \<inter> expected' in
           if Finite_Set.card ready' = Finite_Set.card expected' \<or> deadline \<le> now
           then (case instant_checked_add now race_start_delay of
               Some at \<Rightarrow> StartScheduled at
             | None \<Rightarrow> Awaiting expected' ready' deadline)
           else Awaiting expected' ready' deadline)
      | _ \<Rightarrow> handshake)"

definition reconcile_loading_handshake ::
  "room_id \<Rightarrow> frozen_participant_stamp set \<Rightarrow> instant \<Rightarrow> world \<Rightarrow> race_error + world" where
  "reconcile_loading_handshake rid active now w =
     (case room_at w rid of
        None \<Rightarrow> race_panic
      | Some room \<Rightarrow>
          Inr (insert_room rid (room\<lparr>loading_handshake_of := reconcile_handshake active now (loading_handshake_of room)\<rparr>) w))"

text \<open>
  The starting items of item-profile karts.  A failed selection is skipped; \<open>k\<close> counts
  the numbers drawn before.
\<close>

fun start_awards ::
  "item_probability_service \<Rightarrow> catalog_inventory \<Rightarrow> item_rolls \<Rightarrow> u32 \<Rightarrow> nat \<Rightarrow> frozen_race_participant list \<Rightarrow>
     race_error + u8 list list" where
  "start_awards service catalog rolls tick k [] = Inr []"
| "start_awards service catalog rolls tick k (p # ps) =
     (case fp_result p of
        None \<Rightarrow> start_awards service catalog rolls tick k ps
      | Some result \<Rightarrow>
          if \<not> (case kart_exceed_type (fh_kart_id result) catalog of None \<Rightarrow> False | Some t \<Rightarrow> is_item_profile t)
          then start_awards service catalog rolls tick k ps
          else (case select_kart_spec_start_item rolls (fh_kart_id result) k service of
              Inl e \<Rightarrow> start_awards service catalog rolls tick k ps
            | Inr (selection, k') \<Rightarrow>
                if \<not> (0 \<le> fp_player_id p \<and> fp_player_id p \<le> 255) then race_panic
                else rbind (start_awards service catalog rolls tick k' ps) (\<lambda>packets.
                     Inr (serialize_direct_item_award (word_of_int (fp_player_id p)) (ks_item_id selection) tick # packets))))"

definition start_batch ::
  "world \<Rightarrow> item_rolls \<Rightarrow> protocol_room_state \<Rightarrow> frozen_race_roster \<Rightarrow> u32 \<Rightarrow> race_error + outbound_batch" where
  "start_batch w rolls room frozen tick =
     rbind (if set_game_type (settings room) \<in> {2, 4}
            then (case ips_catalog (w_item_probability w) of
                None \<Rightarrow> Inr []
              | Some catalog \<Rightarrow> start_awards (w_item_probability w) catalog rolls tick 0
                  (filter (\<lambda>p. \<not> fp_observer p) (fr_participants frozen)))
            else Inr []) (\<lambda>awards.
     Inr (serialize_ai_master_notice # serialize_game_control RaceStartControl tick # awards))"

definition start_deliveries :: "world \<Rightarrow> room_id \<Rightarrow> frozen_race_roster \<Rightarrow> outbound_batch \<Rightarrow> outbound_delivery list" where
  "start_deliveries w rid frozen batch =
     List.map_filter (\<lambda>p. map_option (\<lambda>identity. (ib_owner identity, batch))
       (exact_identity_in_protocol_room w rid (fp_identity p))) (fr_participants frozen)"

definition started_room :: "protocol_room_state \<Rightarrow> protocol_room_state" where
  "started_room room = room\<lparr>phase := PhRunning, loading_handshake_of := Dormant\<rparr>"

definition try_start_scheduled_room ::
  "(room_phase \<Rightarrow> room_id \<Rightarrow> u32) \<Rightarrow> (room_id \<Rightarrow> item_rolls) \<Rightarrow> instant \<Rightarrow> room_id \<Rightarrow> beat \<Rightarrow> race_error + beat" where
  "try_start_scheduled_room clock items now rid beat = (case beat of (permits, w, sent) \<Rightarrow>
     (case room_at w rid of
        None \<Rightarrow> Inr beat
      | Some room \<Rightarrow>
          (case loading_handshake_of room of
             StartScheduled at \<Rightarrow>
               if now < at then Inr beat
               else (case frozen_race room of
                   None \<Rightarrow> race_panic
                 | Some frozen \<Rightarrow>
                     rbind (start_batch w (items rid) room frozen (race_start_tick (clock PhLoading rid))) (\<lambda>batch.
                     case reserve_outbound permits (start_deliveries w rid frozen batch) w of
                       (w', Inl e) \<Rightarrow> Inr (permits, w', sent)
                     | (w', Inr reserved) \<Rightarrow> Inr (publish reserved (update_room rid started_room w') beat)))
           | _ \<Rightarrow> Inr beat)))"

definition advance_loading_room ::
  "(room_phase \<Rightarrow> room_id \<Rightarrow> u32) \<Rightarrow> (room_id \<Rightarrow> item_rolls) \<Rightarrow> instant \<Rightarrow> room_id \<Rightarrow> beat \<Rightarrow> race_error + beat" where
  "advance_loading_room clock items now rid beat = (case beat of (permits, w, sent) \<Rightarrow>
     (case Option.bind (room_at w rid) frozen_race of
        None \<Rightarrow> race_panic
      | Some frozen \<Rightarrow>
          (let (stamps, humans) = active_frozen_participant_stamps w rid frozen in
           if humans = 0
           then rbind (ok_or (RePanic ''missing room'') (abort_loading_room rid w)) (\<lambda>w'. Inr (permits, w', sent))
           else rbind (reconcile_loading_handshake rid stamps now w) (\<lambda>w'.
                try_start_scheduled_room clock items now rid (permits, w', sent)))))"

section \<open>Running and settling\<close>

definition begin_settling :: "settlement_state \<Rightarrow> pending_race_fanout \<Rightarrow> protocol_room_state \<Rightarrow> protocol_room_state" where
  "begin_settling settlement fanout room =
     (set_progress (\<lambda>progress. progress\<lparr>pg_settlement := Some settlement,
        pg_pending_fanouts := pg_pending_fanouts progress @ [fanout]\<rparr>) room)\<lparr>phase := PhSettling\<rparr>"

definition pending_begin :: "u32 \<Rightarrow> u32 option \<Rightarrow> pending_begin_settlement" where
  "pending_begin end_tick excluded =
     \<lparr>pbs_end_tick = end_tick, pbs_excluded_user = excluded,
      pbs_packet = serialize_game_control BeginSettlementControl end_tick\<rparr>"

definition reconcile_running_room ::
  "(room_phase \<Rightarrow> room_id \<Rightarrow> u32) \<Rightarrow> instant \<Rightarrow> room_id \<Rightarrow> beat \<Rightarrow> race_error + beat" where
  "reconcile_running_room clock now rid beat = (case beat of (permits, w, sent) \<Rightarrow>
     (case Option.bind (room_at w rid) frozen_race of
        None \<Rightarrow> race_panic
      | Some frozen \<Rightarrow>
          if snd (active_frozen_participant_stamps w rid frozen) \<noteq> 0 then Inr beat
          else
            (let end_tick = clock PhRunning rid + settlement_tick_lead;
                 deadline = (case instant_checked_add now settlement_delay of None \<Rightarrow> now | Some t \<Rightarrow> t) in
             Inr (permits, update_room rid (begin_settling
               \<lparr>ss_end_tick = end_tick, ss_deadline = deadline, ss_finalization = AwaitingDeadline\<rparr>
               \<lparr>prf_race_time = None, prf_begin_settlement = Some (pending_begin end_tick None)\<rparr>) w, sent))))"

definition failed_participant ::
  "world \<Rightarrow> room_id \<Rightarrow> race_error \<Rightarrow> (u32 \<times> ustring) option" where
  "failed_participant w rid e =
     (case e of
        ReRewardSampling player reason \<Rightarrow>
          Option.bind (Option.bind (room_at w rid) frozen_race) (\<lambda>frozen.
          map_option (\<lambda>p. (ib_user_no (fp_identity p), fp_nickname p))
            (List.find (\<lambda>p. \<not> fp_observer p \<and> fp_player_id p = player) (fr_participants frozen)))
      | _ \<Rightarrow> None)"

definition plan_failure_reason :: "race_error \<Rightarrow> reward_terminal_reason" where
  "plan_failure_reason e = (case e of ReRewardSampling player reason \<Rightarrow> RewardSampling | _ \<Rightarrow> InvalidRanking)"

definition begin_reward_persistence ::
  "unicode_tables \<Rightarrow> reward_rolls \<Rightarrow> instant \<Rightarrow> room_id \<Rightarrow> world \<Rightarrow> world" where
  "begin_reward_persistence u rolls now rid w =
     (case room_at w rid of
        None \<Rightarrow> w
      | Some room \<Rightarrow>
          if finalization_of w rid \<noteq> Some AwaitingDeadline then w
          else (case plan_reward_persistence u rolls now room of
              Inr (ranks, rewards) \<Rightarrow> update_room rid (set_finalization (\<lambda>_. FinPersisting ranks rewards)) w
            | Inl e \<Rightarrow>
                (let failed = failed_participant w rid e in
                 update_room rid (set_finalization (retain_as_dead_letter (plan_failure_reason e)
                   (map_option fst failed) (map_option snd failed))) w)))"

text \<open>The room is back in the lobby, with the grid and the master the ranking gives it.\<close>

definition finished_room :: "settlement_ranking \<Rightarrow> protocol_room_state \<Rightarrow> protocol_room_state" where
  "finished_room ranks room =
     aborted_room (snd (apply_next_lobby_master ranks (apply_next_grid_ranking ranks room)))"

definition close_race :: "room_id \<Rightarrow> settlement_ranking \<Rightarrow> world \<Rightarrow> world" where
  "close_race rid ranks w =
     (case room_at w rid of
        None \<Rightarrow> w
      | Some room \<Rightarrow>
          (let w1 = (case race_fence_of room of None \<Rightarrow> w | Some fence \<Rightarrow> release_reward_lanes fence w) in
           if room_is_empty room then drop_room rid w1
           else insert_room rid (finished_room ranks room) w1))"

definition result_deliveries :: "world \<Rightarrow> room_id \<Rightarrow> frozen_race_roster \<Rightarrow> outbound_batch \<Rightarrow> outbound_delivery list" where
  "result_deliveries w rid frozen packets =
     map (\<lambda>(p, session). (session, packets)) (active_frozen_recipient_sessions w rid frozen)"

definition try_finalize_settlement :: "room_id \<Rightarrow> beat \<Rightarrow> race_error + beat" where
  "try_finalize_settlement rid beat =
     rbind (try_flush_pending_race_fanouts rid beat) (\<lambda>(flushed, beat').
     if \<not> flushed then Inr beat'
     else (case beat' of (permits, w, sent) \<Rightarrow>
       (case finalization_of w rid of
          Some (FinReady ranks rewards packets) \<Rightarrow>
            (case Option.bind (room_at w rid) frozen_race of
               None \<Rightarrow> race_panic
             | Some frozen \<Rightarrow>
                 (case reserve_race_outbound permits (result_deliveries w rid frozen packets) w of
                    (w', Inl (ReOutboundUnavailable session)) \<Rightarrow> Inr (permits, w', sent)
                  | (w', Inl e) \<Rightarrow> Inr (permits, update_room rid
                        (set_finalization (retain_as_dead_letter OutboundReservation None None)) w', sent)
                  | (w', Inr reserved) \<Rightarrow> Inr (publish reserved (close_race rid ranks w') beat')))
        | _ \<Rightarrow> Inr beat')))"

definition deadline_reached :: "instant \<Rightarrow> room_id \<Rightarrow> world \<Rightarrow> bool" where
  "deadline_reached now rid w \<longleftrightarrow>
     (case room_at w rid of
        None \<Rightarrow> False
      | Some room \<Rightarrow> phase room = PhSettling \<and>
          (case pg_settlement (race_progress_of room) of None \<Rightarrow> False | Some s \<Rightarrow> ss_deadline s \<le> now))"

definition advance_race_room ::
  "unicode_tables \<Rightarrow> (room_id \<Rightarrow> reward_rolls) \<Rightarrow> instant \<Rightarrow> room_id \<Rightarrow> beat \<Rightarrow> race_error + beat" where
  "advance_race_room u rewards now rid beat = (case beat of (permits, w, sent) \<Rightarrow>
     if deadline_reached now rid w
     then try_finalize_settlement rid (permits, begin_reward_persistence u (rewards rid) now rid w, sent)
     else rbind (try_flush_pending_race_fanouts rid beat) (\<lambda>(flushed, beat'). Inr beat'))"

definition rooms_in :: "room_phase set \<Rightarrow> world \<Rightarrow> room_id list" where
  "rooms_in phases w = map fst (filter (\<lambda>(rid, room). phase room \<in> phases) (w_protocol_rooms w))"

definition advance_loading ::
  "unicode_tables \<Rightarrow> (room_phase \<Rightarrow> room_id \<Rightarrow> u32) \<Rightarrow> (room_id \<Rightarrow> item_rolls) \<Rightarrow> (room_id \<Rightarrow> reward_rolls) \<Rightarrow>
     instant \<Rightarrow> permits \<Rightarrow> world \<Rightarrow> race_error + beat" where
  "advance_loading u clock items rewards now permits w =
     (if w_quiescing w then Inr (permits, w, [])
      else
        rbind (visit (advance_loading_room clock items now) (rooms_in {PhLoading} w) (permits, w, [])) (\<lambda>b1.
        rbind (visit (reconcile_running_room clock now) (rooms_in {PhRunning} (fst (snd b1))) b1) (\<lambda>b2.
        visit (advance_race_room u rewards now) (rooms_in {PhRunning, PhSettling} (fst (snd b2))) b2)))"

section \<open>Finishes\<close>

definition settlement_closed :: "instant \<Rightarrow> protocol_room_state \<Rightarrow> bool" where
  "settlement_closed now room \<longleftrightarrow> phase room = PhSettling \<and>
     (case pg_settlement (race_progress_of room) of
        None \<Rightarrow> False | Some s \<Rightarrow> ss_deadline s \<le> now \<or> ss_finalization s \<noteq> AwaitingDeadline)"

definition new_settlement :: "instant \<Rightarrow> u32 \<Rightarrow> protocol_room_state \<Rightarrow> race_error + settlement_state option" where
  "new_settlement now tick room =
     (if phase room \<noteq> PhRunning then Inr None
      else rbind (ok_or ReSettlementDeadlineOverflow (instant_checked_add now settlement_delay)) (\<lambda>deadline.
           Inr (Some \<lparr>ss_end_tick = tick + settlement_tick_lead, ss_deadline = deadline,
                      ss_finalization = AwaitingDeadline\<rparr>)))"

definition finish_room :: "int \<Rightarrow> u32 \<Rightarrow> u8 list \<Rightarrow> u32 option \<Rightarrow> settlement_state option \<Rightarrow> protocol_room_state \<Rightarrow> protocol_room_state" where
  "finish_room player race_time packet excluded settlement room =
     (let fanout = \<lparr>prf_race_time = Some \<lparr>prt_player_id = player, prt_race_time = race_time, prt_packet = packet\<rparr>,
            prf_begin_settlement = map_option (\<lambda>s. pending_begin (ss_end_tick s) excluded) settlement\<rparr>;
          recorded = set_progress (\<lambda>progress. progress\<lparr>pg_finish_times :=
            AList.update player race_time (pg_finish_times progress)\<rparr>) room
      in case settlement of
           Some s \<Rightarrow> begin_settling s fanout recorded
         | None \<Rightarrow> set_progress (\<lambda>progress. progress\<lparr>pg_pending_fanouts := pg_pending_fanouts progress @ [fanout]\<rparr>) recorded)"

definition record_finish ::
  "permits \<Rightarrow> room_id \<Rightarrow> int \<Rightarrow> u32 \<Rightarrow> u32 option \<Rightarrow> instant \<Rightarrow> u32 \<Rightarrow> world \<Rightarrow>
     (race_command_outcome \<times> outbound_delivery list) race_turn" where
  "record_finish permits rid player race_time excluded now tick w =
     (case room_at w rid of
        None \<Rightarrow> (w, race_panic)
      | Some room \<Rightarrow>
          if settlement_closed now room then (w, Inl ReSettlementClosed)
          else if map_of (pg_finish_times (race_progress_of room)) player \<noteq> None
          then (w, (case frozen_race room of
                 None \<Rightarrow> Inl (ReNotRunning (phase room))
               | Some frozen \<Rightarrow> Inr (IgnoredDuplicate rid (rf_race_epoch (fr_fence frozen)), [])))
          else (case new_settlement now tick room of
              Inl e \<Rightarrow> (w, Inl e)
            | Inr settlement \<Rightarrow>
                (case serialize_race_time player race_time of
                   Inl e \<Rightarrow> (w, Inl (ReProtocol e))
                 | Inr packet \<Rightarrow>
                     if room_slot_count \<le> length (filter (\<lambda>f. prf_race_time f \<noteq> None)
                          (pg_pending_fanouts (race_progress_of room)))
                     then (w, Inl RePendingRaceFanoutFull)
                     else
                       (let finished = finish_room player race_time packet excluded settlement room;
                            recorded = insert_room rid finished w in
                        case frozen_race finished of
                          None \<Rightarrow> (recorded, Inl (ReNotRunning (phase finished)))
                        | Some frozen \<Rightarrow>
                            (case try_flush_pending_race_fanouts rid (permits, recorded, []) of
                               Inl e \<Rightarrow> (recorded, Inl e)
                             | Inr (flushed, _, w', sent) \<Rightarrow>
                                 (w', Inr (FinishRecorded rid (rf_race_epoch (fr_fence frozen)) player (settlement \<noteq> None), sent)))))))"

definition record_human_finish ::
  "permits \<Rightarrow> room_id \<Rightarrow> identity_binding \<Rightarrow> u32 \<Rightarrow> instant \<Rightarrow> u32 \<Rightarrow> world \<Rightarrow>
     (race_command_outcome \<times> outbound_delivery list) race_turn" where
  "record_human_finish permits rid identity race_time now tick w =
     (case room_at w rid of
        None \<Rightarrow> (w, race_panic)
      | Some room \<Rightarrow>
          if phase room \<notin> {PhRunning, PhSettling} then (w, Inl (ReNotRunning (phase room)))
          else (case frozen_race room of
              None \<Rightarrow> (w, race_panic)
            | Some frozen \<Rightarrow>
                (case frozen_with_identity identity frozen of
                   None \<Rightarrow> (w, Inl ReNotFrozenParticipant)
                 | Some p \<Rightarrow>
                     if fp_observer p then (w, Inl ReHumanRacerRequired)
                     else record_finish permits rid (fp_player_id p) race_time (Some (ib_user_no identity)) now tick w)))"

definition record_ai_finish ::
  "permits \<Rightarrow> room_id \<Rightarrow> identity_binding \<Rightarrow> ai_goal_in_request \<Rightarrow> instant \<Rightarrow> u32 \<Rightarrow> world \<Rightarrow>
     (race_command_outcome \<times> outbound_delivery list) race_turn" where
  "record_ai_finish permits rid identity request now tick w =
     (case room_at w rid of
        None \<Rightarrow> (w, race_panic)
      | Some room \<Rightarrow>
          if phase room \<notin> {PhRunning, PhSettling} then (w, Inl (ReNotRunning (phase room)))
          else (case frozen_race room of
              None \<Rightarrow> (w, race_panic)
            | Some frozen \<Rightarrow>
                if frozen_with_identity identity frozen = None then (w, Inl ReNotFrozenParticipant)
                else if \<not> list_ex (\<lambda>a. fa_player_id a = ag_player_id request) (fr_ais frozen)
                then (w, Inl (ReNoFrozenAiParticipant (ag_player_id request)))
                else record_finish permits rid (ag_player_id request) (ag_race_time request) None now tick w))"

text \<open>
  The control and finish commands.  The team booster, whose gauge is float arithmetic,
  and the item relay are not part of this payload.
\<close>

datatype race_command_payload =
    RcGameControl game_control_request
  | RcAiGoalIn ai_goal_in_request

definition race_command ::
  "unicode_tables \<Rightarrow> permits \<Rightarrow> session_id \<Rightarrow> race_command_payload \<Rightarrow> instant \<Rightarrow> u32 \<Rightarrow> world \<Rightarrow>
     (race_command_outcome \<times> outbound_delivery list) race_turn" where
  "race_command u permits session payload now tick w =
     (case authorize_session_operation u session w of
        Inl e \<Rightarrow> (w, Inl (ReIdentity e))
      | Inr identity \<Rightarrow>
          (case room_of w (ib_user_no identity) of
             None \<Rightarrow> (w, Inl ReNotInRoom)
           | Some rid \<Rightarrow>
               (case payload of
                  RcGameControl request \<Rightarrow>
                    if gc_state request = 0
                    then (case arm_loading rid identity now w of (w', r) \<Rightarrow> (w', rbind r (\<lambda>outcome. Inr (outcome, []))))
                    else if gc_state request = 2
                    then record_human_finish permits rid identity (gc_value0 request) now tick w
                    else (w, Inl (ReUnsupportedGameControlState (gc_state request)))
                | RcAiGoalIn request \<Rightarrow> record_ai_finish permits rid identity request now tick w)))"

end
