(* ===== verification/RewardTasks.thy ===== *)
theory RewardTasks
  imports RaceRun
begin

text \<open>
  The reward scheduler of the world actor (\<open>p5136-server/src/world.rs\<close>): handing out
  the due reward writes under a lease, fencing their completions by room, epoch, user
  and attempt, retrying with a growing delay, and keeping a settlement that cannot be
  persisted as a dead letter that an operator may retry.

  The MyRoom hub and the profile store are not part of the model.  What a durable
  receipt shows of the store is data; what the hub answers is the parameter
  \<open>reward_hub\<close>.
\<close>

section \<open>Data\<close>

record reward_settlement_task =
  rt_fence :: race_fence
  rt_attempt_id :: u64
  rt_user_no :: u32
  rt_nickname :: ustring
  rt_canonical_nickname :: ustring
  rt_proposed_reward :: time_reward

datatype race_reward_key_kind =
    LegacyKey u64                      \<comment> \<open>run ID\<close>
  | CurrentKey u64 u64 ustring         \<comment> \<open>run generation, store ID, canonical nickname\<close>

record race_reward_key =
  rk_kind :: race_reward_key_kind
  rk_room_id :: u32
  rk_race_epoch :: u64
  rk_user_no :: u32

fun key_run_generation :: "race_reward_key_kind \<Rightarrow> u64 option" where
  "key_run_generation (LegacyKey _) = None"
| "key_run_generation (CurrentKey generation _ _) = Some generation"

fun key_store_id :: "race_reward_key_kind \<Rightarrow> u64 option" where
  "key_store_id (LegacyKey _) = None"
| "key_store_id (CurrentKey _ store _) = Some store"

fun key_canonical_nickname :: "race_reward_key_kind \<Rightarrow> ustring option" where
  "key_canonical_nickname (LegacyKey _) = None"
| "key_canonical_nickname (CurrentKey _ _ name) = Some name"

text \<open>The profile a receipt may carry: its subject's canonical key and nickname, and its RP.\<close>

record reward_profile =
  pf_subject_key :: ustring
  pf_subject_nickname :: ustring
  pf_rp :: u32

record durable_reward_receipt =
  rd_task :: reward_settlement_task
  rd_key :: race_reward_key
  rd_applied :: applied_time_reward
  rd_profile :: "reward_profile option"

datatype reward_persistence_completion =
    CompletedDurable durable_reward_receipt
  | RetryableFailure reward_settlement_task
  | FatalFailure reward_settlement_task

fun completion_task :: "reward_persistence_completion \<Rightarrow> reward_settlement_task" where
  "completion_task (CompletedDurable receipt) = rd_task receipt"
| "completion_task (RetryableFailure task) = task"
| "completion_task (FatalFailure task) = task"

datatype reward_completion_disposition =
    RewardApplied | RewardRetryScheduled nat | RewardTerminalFailure | RewardIgnoredStale

datatype reward_lease_expiry = LeaseNotCurrent | LeaseActive | LeaseRetryScheduled

datatype world_error =
    RewardSchedulerInvariant room_id u32
  | WeRewardAttemptIdExhausted room_id u64 u32
  | WeRewardAttemptLeaseDeadlineOverflow room_id u64 u32
  | WeRewardAttemptLeaseFailuresExhausted room_id u64 u32
  | WeRewardRetryDeadlineOverflow room_id u64 u32
  | StaleRewardDeadLetter
  | RewardDeadLetterNotRetryable reward_terminal_reason
  | RewardDeadLetterInvariant room_id u64
  | MyRoomProfileSubjectMismatch ustring ustring
  | WeNickname nickname_error
  | WeMyRoomHub

type_synonym 'a world_turn = "world \<times> (world_error + 'a)"

definition fence_error :: "(room_id \<Rightarrow> u64 \<Rightarrow> u32 \<Rightarrow> world_error) \<Rightarrow> race_fence \<Rightarrow> u32 \<Rightarrow> world_error" where
  "fence_error err fence u = err (rf_room_id fence) (rf_race_epoch fence) u"

section \<open>Rewards of a settlement\<close>

fun persisting_rewards :: "settlement_finalization \<Rightarrow> reward_persistence_entry list option" where
  "persisting_rewards (FinPersisting ranks rewards) = Some rewards"
| "persisting_rewards _ = None"

definition rewards_at :: "world \<Rightarrow> room_id \<Rightarrow> reward_persistence_entry list option" where
  "rewards_at w rid = Option.bind (finalization_of w rid) persisting_rewards"

definition find_reward :: "u32 \<Rightarrow> reward_persistence_entry list \<Rightarrow> reward_persistence_entry option" where
  "find_reward u rewards = List.find (\<lambda>r. re_user_no r = u) rewards"

fun update_first :: "('a \<Rightarrow> bool) \<Rightarrow> ('a \<Rightarrow> 'a) \<Rightarrow> 'a list \<Rightarrow> 'a list" where
  "update_first P f [] = []"
| "update_first P f (x # xs) = (if P x then f x # xs else x # update_first P f xs)"

fun map_rewards :: "(reward_persistence_entry list \<Rightarrow> reward_persistence_entry list) \<Rightarrow>
    settlement_finalization \<Rightarrow> settlement_finalization" where
  "map_rewards f (FinPersisting ranks rewards) = FinPersisting ranks (f rewards)"
| "map_rewards f other = other"

definition set_status :: "u32 \<Rightarrow> reward_persistence_status \<Rightarrow> settlement_finalization \<Rightarrow> settlement_finalization" where
  "set_status u status = map_rewards (update_first (\<lambda>r. re_user_no r = u) (re_status_update (\<lambda>_. status)))"

definition set_reward_status :: "room_id \<Rightarrow> u32 \<Rightarrow> reward_persistence_status \<Rightarrow> world \<Rightarrow> world" where
  "set_reward_status rid u status = update_room rid (set_finalization (set_status u status))"

definition retain_failed ::
  "room_id \<Rightarrow> reward_terminal_reason \<Rightarrow> u32 \<Rightarrow> ustring option \<Rightarrow> world \<Rightarrow> world" where
  "retain_failed rid reason u nick = update_room rid (set_finalization (retain_as_dead_letter reason (Some u) nick))"

definition fence_at :: "world \<Rightarrow> room_id \<Rightarrow> race_fence option" where
  "fence_at w rid = Option.bind (room_at w rid) race_fence_of"

definition persisting_nickname :: "world \<Rightarrow> room_id \<Rightarrow> u32 \<Rightarrow> ustring option" where
  "persisting_nickname w rid u =
     Option.bind (rewards_at w rid) (\<lambda>rewards. map_option re_nickname (find_reward u rewards))"

section \<open>Leases\<close>

definition current_reward_attempt :: "reward_settlement_task \<Rightarrow> world \<Rightarrow> (nat \<times> instant) option" where
  "current_reward_attempt task w =
     (if fence_at w (rf_room_id (rt_fence task)) \<noteq> Some (rt_fence task) then None
      else
        Option.bind (rewards_at w (rf_room_id (rt_fence task))) (\<lambda>rewards.
        Option.bind (find_reward (rt_user_no task) rewards) (\<lambda>reward.
        if re_nickname reward \<noteq> rt_nickname task \<or> re_canonical_nickname reward \<noteq> rt_canonical_nickname task
           \<or> re_proposed_reward reward \<noteq> rt_proposed_reward task
        then None
        else (case re_status reward of
            RpInFlight attempt failures lease \<Rightarrow> if attempt = rt_attempt_id task then Some (failures, lease) else None
          | _ \<Rightarrow> None))))"

definition fail_reward_settlement :: "reward_settlement_task \<Rightarrow> reward_terminal_reason \<Rightarrow> world \<Rightarrow> unit world_turn" where
  "fail_reward_settlement task reason w =
     (let rid = rf_room_id (rt_fence task) in
      if fence_at w rid = Some (rt_fence task) \<and> finalization_of w rid \<noteq> None
      then (retain_failed rid reason (rt_user_no task) (Some (rt_nickname task)) w, Inr ())
      else (w, Inl (RewardSchedulerInvariant rid (rt_user_no task))))"

text \<open>A failure counter is a \<open>u8\<close> that saturates.\<close>

definition next_failure_count :: "nat \<Rightarrow> nat" where
  "next_failure_count n = min (n + 1) 255"

definition expire_reward_attempt :: "reward_settlement_task \<Rightarrow> instant \<Rightarrow> world \<Rightarrow> reward_lease_expiry world_turn" where
  "expire_reward_attempt task now w =
     (case current_reward_attempt task w of
        None \<Rightarrow> (w, Inr LeaseNotCurrent)
      | Some (failures, lease) \<Rightarrow>
          if now < lease then (w, Inr LeaseActive)
          else if max_reward_persistence_failures \<le> next_failure_count failures
          then (case fail_reward_settlement task RewardPersistence w of
              (w', Inl e) \<Rightarrow> (w', Inl e)
            | (w', Inr _) \<Rightarrow> (w', Inl (fence_error WeRewardAttemptLeaseFailuresExhausted (rt_fence task) (rt_user_no task))))
          else (case instant_checked_add now (reward_retry_delay (next_failure_count failures)) of
              None \<Rightarrow> (case fail_reward_settlement task RewardRetryDeadlineOverflow w of
                  (w', Inl e) \<Rightarrow> (w', Inl e)
                | (w', Inr _) \<Rightarrow> (w', Inl (fence_error WeRewardRetryDeadlineOverflow (rt_fence task) (rt_user_no task))))
            | Some due \<Rightarrow>
                (set_reward_status (rf_room_id (rt_fence task)) (rt_user_no task)
                   (RpQueued due (next_failure_count failures)) w, Inr LeaseRetryScheduled)))"

definition task_of :: "race_fence \<Rightarrow> u64 \<Rightarrow> reward_persistence_entry \<Rightarrow> reward_settlement_task" where
  "task_of fence attempt reward =
     \<lparr>rt_fence = fence, rt_attempt_id = attempt, rt_user_no = re_user_no reward, rt_nickname = re_nickname reward,
      rt_canonical_nickname = re_canonical_nickname reward, rt_proposed_reward = re_proposed_reward reward\<rparr>"

definition expired_of_room :: "instant \<Rightarrow> protocol_room_state \<Rightarrow> reward_settlement_task list" where
  "expired_of_room now room =
     (case (race_fence_of room, Option.bind (map_option ss_finalization (pg_settlement (race_progress_of room))) persisting_rewards) of
        (Some fence, Some rewards) \<Rightarrow>
          List.map_filter (\<lambda>reward. case re_status reward of
              RpInFlight attempt failures lease \<Rightarrow> if lease \<le> now then Some (task_of fence attempt reward) else None
            | _ \<Rightarrow> None) rewards
      | _ \<Rightarrow> [])"

definition task_key :: "reward_settlement_task \<Rightarrow> u32 \<times> u64 \<times> u32" where
  "task_key task = (rf_room_id (rt_fence task), rf_race_epoch (rt_fence task), rt_user_no task)"

fun expire_each :: "instant \<Rightarrow> reward_settlement_task list \<Rightarrow> world \<Rightarrow> unit world_turn" where
  "expire_each now [] w = (w, Inr ())"
| "expire_each now (task # tasks) w =
     (case expire_reward_attempt task now w of
        (w', Inl e) \<Rightarrow> (w', Inl e)
      | (w', Inr _) \<Rightarrow> expire_each now tasks w')"

definition expire_reward_attempt_leases :: "instant \<Rightarrow> world \<Rightarrow> unit world_turn" where
  "expire_reward_attempt_leases now w =
     expire_each now (sort_key task_key (concat (map (\<lambda>(rid, room). expired_of_room now room) (w_protocol_rooms w)))) w"

section \<open>Handing out tasks\<close>

definition due_of_room :: "instant \<Rightarrow> room_id \<times> protocol_room_state \<Rightarrow> (room_id \<times> u32) list" where
  "due_of_room now entry = (case entry of (rid, room) \<Rightarrow>
     (case Option.bind (map_option ss_finalization (pg_settlement (race_progress_of room))) persisting_rewards of
        None \<Rightarrow> []
      | Some rewards \<Rightarrow> List.map_filter (\<lambda>reward. case re_status reward of
            RpQueued due failures \<Rightarrow> if due \<le> now then Some (rid, re_user_no reward) else None
          | _ \<Rightarrow> None) rewards))"

definition due_reward_candidates :: "instant \<Rightarrow> nat \<Rightarrow> world \<Rightarrow> (room_id \<times> u32) list" where
  "due_reward_candidates now maximum w =
     take maximum (sort_key (\<lambda>c. c) (concat (map (due_of_room now) (w_protocol_rooms w))))"

definition limit_candidates_to_attempt_id_capacity ::
  "(room_id \<times> u32) list \<Rightarrow> world \<Rightarrow> ((room_id \<times> u32) list) world_turn" where
  "limit_candidates_to_attempt_id_capacity candidates w =
     (case candidates of
        [] \<Rightarrow> (w, Inr [])
      | (rid, u) # rest \<Rightarrow>
          (case w_next_reward_attempt_id w of
             None \<Rightarrow>
               (retain_failed rid RewardAttemptIdExhausted u (persisting_nickname w rid u) w,
                (case fence_at w rid of
                   None \<Rightarrow> Inl (RewardSchedulerInvariant rid u)
                 | Some fence \<Rightarrow> Inl (fence_error WeRewardAttemptIdExhausted fence u)))
           | Some next \<Rightarrow> (w, Inr (if next = - 1 then take 1 candidates else candidates))))"

definition allocate_reward_attempt_id :: "world \<Rightarrow> (u64 \<times> world) option" where
  "allocate_reward_attempt_id w =
     map_option (\<lambda>raw. (raw, w\<lparr>w_next_reward_attempt_id := checked_succ raw\<rparr>)) (w_next_reward_attempt_id w)"

definition issue_reward_task ::
  "room_id \<Rightarrow> u32 \<Rightarrow> instant \<Rightarrow> world \<Rightarrow> (reward_settlement_task option) world_turn" where
  "issue_reward_task rid u now w =
     (case allocate_reward_attempt_id w of
        None \<Rightarrow> (w, Inl (RewardSchedulerInvariant rid u))
      | Some (attempt, w1) \<Rightarrow>
          (case instant_checked_add now reward_attempt_lease of
             None \<Rightarrow>
               (retain_failed rid RewardAttemptLeaseDeadlineOverflow u (persisting_nickname w1 rid u) w1,
                (case fence_at w1 rid of
                   None \<Rightarrow> Inl (RewardSchedulerInvariant rid u)
                 | Some fence \<Rightarrow> Inl (fence_error WeRewardAttemptLeaseDeadlineOverflow fence u)))
           | Some lease \<Rightarrow>
               (case (fence_at w1 rid, Option.bind (rewards_at w1 rid) (find_reward u)) of
                  (Some fence, Some reward) \<Rightarrow>
                    (case re_status reward of
                       RpQueued due failures \<Rightarrow>
                         if now < due then (w1, Inr None)
                         else (set_reward_status rid u (RpInFlight attempt failures lease) w1,
                               Inr (Some (task_of fence attempt reward)))
                     | _ \<Rightarrow> (w1, Inr None))
                | _ \<Rightarrow> (w1, Inr None))))"

text \<open>An error ends the batch; the tasks already in flight are recovered when their leases expire.\<close>

fun issue_each :: "instant \<Rightarrow> (room_id \<times> u32) list \<Rightarrow> world \<Rightarrow> (reward_settlement_task list) world_turn" where
  "issue_each now [] w = (w, Inr [])"
| "issue_each now ((rid, u) # rest) w =
     (case issue_reward_task rid u now w of
        (w', Inl e) \<Rightarrow> (w', Inl e)
      | (w', Inr issued) \<Rightarrow>
          (case issue_each now rest w' of
             (w'', Inl e) \<Rightarrow> (w'', Inl e)
           | (w'', Inr tasks) \<Rightarrow> (w'', Inr (case issued of None \<Rightarrow> tasks | Some task \<Rightarrow> task # tasks))))"

definition take_due_reward_tasks :: "instant \<Rightarrow> nat \<Rightarrow> world \<Rightarrow> (reward_settlement_task list) world_turn" where
  "take_due_reward_tasks now maximum w =
     (case expire_reward_attempt_leases now w of
        (w1, Inl e) \<Rightarrow> (w1, Inl e)
      | (w1, Inr _) \<Rightarrow>
          (let limit = min maximum max_due_reward_task_batch in
           if limit = 0 then (w1, Inr [])
           else (case limit_candidates_to_attempt_id_capacity (due_reward_candidates now limit w1) w1 of
               (w2, Inl e) \<Rightarrow> (w2, Inl e)
             | (w2, Inr candidates) \<Rightarrow> issue_each now candidates w2)))"

section \<open>Completions\<close>

record reward_hub =
  hub_tracked :: "u32 \<Rightarrow> world_error + identity_binding option"
  hub_refresh :: "identity_binding \<Rightarrow> reward_profile \<Rightarrow> world_error + bool"
  hub_commit :: "world_error + unit"

definition prepare_ready_settlement :: "room_id \<Rightarrow> world \<Rightarrow> world \<times> (reward_terminal_reason + unit)" where
  "prepare_ready_settlement rid w =
     (case (room_at w rid, finalization_of w rid) of
        (Some room, Some (FinPersisting ranks rewards)) \<Rightarrow>
          if \<not> list_all (\<lambda>r. case re_status r of RpDurable _ \<Rightarrow> True | _ \<Rightarrow> False) rewards then (w, Inr ())
          else (case settlement_packets room ranks of
              Inr packets \<Rightarrow> (update_room rid (set_finalization (\<lambda>_. FinReady ranks rewards packets)) w, Inr ())
            | Inl e \<Rightarrow> (update_room rid (set_finalization (retain_as_dead_letter ResultSerialization None None)) w,
                Inl ResultSerialization))
      | _ \<Rightarrow> (w, Inr ()))"

definition receipt_matches :: "reward_settlement_task \<Rightarrow> race_reward_key \<Rightarrow> applied_time_reward \<Rightarrow> bool" where
  "receipt_matches task key applied \<longleftrightarrow>
     key_run_generation (rk_kind key) \<noteq> None \<and> key_store_id (rk_kind key) \<noteq> None
     \<and> rk_room_id key = rf_room_id (rt_fence task) \<and> rk_race_epoch key = rf_race_epoch (rt_fence task)
     \<and> rk_user_no key = rt_user_no task \<and> key_canonical_nickname (rk_kind key) = Some (rt_canonical_nickname task)
     \<and> atr_earned_rp applied = tr_earned_rp (rt_proposed_reward task)
     \<and> atr_earned_lucci applied = tr_earned_lucci (rt_proposed_reward task)"

definition is_task_participant :: "reward_settlement_task \<Rightarrow> frozen_race_participant \<Rightarrow> bool" where
  "is_task_participant task p \<longleftrightarrow>
     \<not> fp_observer p \<and> ib_user_no (fp_identity p) = rt_user_no task \<and> fp_nickname p = rt_nickname task"

definition task_participant :: "reward_settlement_task \<Rightarrow> world \<Rightarrow> frozen_race_participant option" where
  "task_participant task w =
     Option.bind (Option.bind (room_at w (rf_room_id (rt_fence task))) frozen_race)
       (\<lambda>frozen. List.find (is_task_participant task) (fr_participants frozen))"

text \<open>The RP to show and whether the hub has a transition to commit.\<close>

definition refreshed_profile ::
  "unicode_tables \<Rightarrow> reward_hub \<Rightarrow> reward_settlement_task \<Rightarrow> durable_reward_receipt \<Rightarrow> world_error + (u32 \<times> bool)" where
  "refreshed_profile u hub task receipt =
     (case rd_profile receipt of
        None \<Rightarrow> Inr (atr_current_rp (rd_applied receipt), False)
      | Some profile \<Rightarrow>
          rbind (rmap_err WeNickname (normalize_nickname u (rt_nickname task))) (\<lambda>nick.
          if pf_subject_key profile \<noteq> canonical_nickname_key u nick
          then Inl (MyRoomProfileSubjectMismatch (rt_nickname task) (pf_subject_nickname profile))
          else rbind (hub_tracked hub (rt_user_no task)) (\<lambda>tracked.
            case tracked of
              None \<Rightarrow> Inr (pf_rp profile, False)
            | Some identity \<Rightarrow>
                if canonical_nickname_key u (ib_nickname identity) = rt_canonical_nickname task
                then rbind (hub_refresh hub identity profile) (\<lambda>refresh. Inr (pf_rp profile, refresh))
                else Inl (RewardSchedulerInvariant (rf_room_id (rt_fence task)) (rt_user_no task)))))"

definition apply_economy :: "reward_settlement_task \<Rightarrow> applied_time_reward \<Rightarrow> protocol_room_state \<Rightarrow> protocol_room_state" where
  "apply_economy task applied room =
     room\<lparr>frozen_race := map_option (\<lambda>frozen. frozen\<lparr>fr_participants :=
       update_first (is_task_participant task)
         (\<lambda>p. p\<lparr>fp_result := map_option (\<lambda>r. r\<lparr>fh_economy := EcoApplied applied\<rparr>) (fp_result p)\<rparr>)
         (fr_participants frozen)\<rparr>) (frozen_race room)\<rparr>"

definition update_live_room_rp :: "u32 \<Rightarrow> u32 \<Rightarrow> world \<Rightarrow> world" where
  "update_live_room_rp u current w =
     (case room_of w u of
        None \<Rightarrow> w
      | Some rid \<Rightarrow> update_room rid (\<lambda>room.
          case member_id u room of
            None \<Rightarrow> room
          | Some mid \<Rightarrow> room\<lparr>members_by_id := update_slot (set_player (rp_update (\<lambda>_. current))) mid (members_by_id room)\<rparr>) w)"

text \<open>A terminal failure keeps the settlement as a dead letter.\<close>

definition terminal_failure ::
  "reward_settlement_task \<Rightarrow> reward_terminal_reason \<Rightarrow> world \<Rightarrow> reward_completion_disposition world_turn" where
  "terminal_failure task reason w =
     (case fail_reward_settlement task reason w of
        (w', Inl e) \<Rightarrow> (w', Inl e)
      | (w', Inr _) \<Rightarrow> (w', Inr RewardTerminalFailure))"

definition complete_retryable ::
  "reward_settlement_task \<Rightarrow> nat \<Rightarrow> instant \<Rightarrow> world \<Rightarrow> reward_completion_disposition world_turn" where
  "complete_retryable task failures now w =
     (if max_reward_persistence_failures \<le> next_failure_count failures then terminal_failure task RewardPersistence w
      else (case instant_checked_add now (reward_retry_delay (next_failure_count failures)) of
          None \<Rightarrow> terminal_failure task RewardRetryDeadlineOverflow w
        | Some due \<Rightarrow>
            (set_reward_status (rf_room_id (rt_fence task)) (rt_user_no task) (RpQueued due (next_failure_count failures)) w,
             Inr (RewardRetryScheduled (next_failure_count failures)))))"

definition apply_durable ::
  "reward_hub \<Rightarrow> reward_settlement_task \<Rightarrow> applied_time_reward \<Rightarrow> u32 \<Rightarrow> bool \<Rightarrow> world \<Rightarrow>
     reward_completion_disposition world_turn" where
  "apply_durable hub task applied live_rp refresh w =
     (let rid = rf_room_id (rt_fence task);
          w1 = set_reward_status rid (rt_user_no task) (RpDurable applied) w in
      if Option.bind (task_participant task w1) fp_result = None
      then terminal_failure task RewardParticipantMissing w1
      else
        (let w2 = update_live_room_rp (rt_user_no task) live_rp (update_room rid (apply_economy task applied) w1) in
         case (if refresh then hub_commit hub else Inr ()) of
           Inl e \<Rightarrow> (w2, Inl e)
         | Inr _ \<Rightarrow>
             (case prepare_ready_settlement rid w2 of
                (w3, Inr _) \<Rightarrow> (w3, Inr RewardApplied)
              | (w3, Inl reason) \<Rightarrow>
                  if reason = ResultSerialization then (w3, Inr RewardTerminalFailure)
                  else (w3, Inl (RewardSchedulerInvariant rid (rt_user_no task))))))"

definition complete_durable ::
  "unicode_tables \<Rightarrow> reward_hub \<Rightarrow> reward_settlement_task \<Rightarrow> durable_reward_receipt \<Rightarrow> world \<Rightarrow>
     reward_completion_disposition world_turn" where
  "complete_durable u hub task receipt w =
     (if \<not> receipt_matches task (rd_key receipt) (rd_applied receipt)
      then terminal_failure task RewardReceiptMismatch w
      else if task_participant task w = None then terminal_failure task RewardParticipantMissing w
      else (case refreshed_profile u hub task receipt of
          Inl e \<Rightarrow> (w, Inl e)
        | Inr (live_rp, refresh) \<Rightarrow> apply_durable hub task (rd_applied receipt) live_rp refresh w))"

definition is_lease_failure :: "world_error \<Rightarrow> bool" where
  "is_lease_failure e \<longleftrightarrow> (case e of
     WeRewardAttemptLeaseFailuresExhausted _ _ _ \<Rightarrow> True
   | WeRewardAttemptLeaseDeadlineOverflow _ _ _ \<Rightarrow> True
   | WeRewardRetryDeadlineOverflow _ _ _ \<Rightarrow> True
   | _ \<Rightarrow> False)"

definition complete_reward_task ::
  "unicode_tables \<Rightarrow> reward_hub \<Rightarrow> reward_persistence_completion \<Rightarrow> instant \<Rightarrow> world \<Rightarrow>
     reward_completion_disposition world_turn" where
  "complete_reward_task u hub completion now w =
     (let task = completion_task completion in
      case expire_reward_attempt task now w of
        (w1, Inl e) \<Rightarrow> (w1, if is_lease_failure e then Inr RewardTerminalFailure else Inl e)
      | (w1, Inr LeaseActive) \<Rightarrow>
          (case current_reward_attempt task w1 of
             None \<Rightarrow> (w1, Inr RewardIgnoredStale)
           | Some (failures, _) \<Rightarrow>
               (case completion of
                  RetryableFailure _ \<Rightarrow> complete_retryable task failures now w1
                | FatalFailure _ \<Rightarrow> terminal_failure task RewardPersistence w1
                | CompletedDurable receipt \<Rightarrow> complete_durable u hub task receipt w1))
      | (w1, Inr _) \<Rightarrow> (w1, Inr RewardIgnoredStale))"

section \<open>Dead letters\<close>

record reward_dead_letter =
  rl_fence :: race_fence
  rl_failed_attempt_id :: "u64 option"
  rl_failed_user_no :: "u32 option"
  rl_failed_nickname :: "ustring option"
  rl_failed_canonical_nickname :: "ustring option"
  rl_failed_proposed_reward :: "time_reward option"
  rl_reason :: reward_terminal_reason
  rl_retained_ranking :: "settlement_ranking option"
  rl_retained_rewards :: "reward_persistence_entry list"
  rl_retained_packets :: "u8 list list option"

definition permits_persistence_retry :: "reward_terminal_reason \<Rightarrow> bool" where
  "permits_persistence_retry reason \<longleftrightarrow> reason = RewardPersistence"

definition failed_reward :: "settlement_dead_letter_state \<Rightarrow> reward_persistence_entry option" where
  "failed_reward failed = Option.bind (dl_failed_user_no failed) (\<lambda>u. find_reward u (dl_rewards failed))"

definition frozen_human :: "u32 \<Rightarrow> protocol_room_state \<Rightarrow> frozen_race_participant option" where
  "frozen_human u room = Option.bind (frozen_race room) (\<lambda>frozen.
     List.find (\<lambda>p. \<not> fp_observer p \<and> ib_user_no (fp_identity p) = u) (fr_participants frozen))"

definition dead_letter_of ::
  "unicode_tables \<Rightarrow> race_fence \<Rightarrow> protocol_room_state \<Rightarrow> settlement_dead_letter_state \<Rightarrow> world_error + reward_dead_letter" where
  "dead_letter_of u fence room failed =
     (let reward = failed_reward failed;
          participant = Option.bind (dl_failed_user_no failed) (\<lambda>v. frozen_human v room);
          nick = (case reward of Some r \<Rightarrow> Some (re_nickname r) | None \<Rightarrow> map_option fp_nickname participant);
          attempt = Option.bind reward (\<lambda>r. in_flight_attempt_id (re_status r)) in
      if dl_failed_nickname failed \<noteq> nick
      then Inl (RewardDeadLetterInvariant (rf_room_id fence) (rf_race_epoch fence))
      else if permits_persistence_retry (dl_reason failed) \<and> attempt = None
      then Inl (RewardDeadLetterInvariant (rf_room_id fence) (rf_race_epoch fence))
      else Inr \<lparr>rl_fence = fence, rl_failed_attempt_id = attempt, rl_failed_user_no = dl_failed_user_no failed,
        rl_failed_nickname = nick,
        rl_failed_canonical_nickname = (case reward of Some r \<Rightarrow> Some (re_canonical_nickname r)
          | None \<Rightarrow> map_option (canonical_nickname_key u) nick),
        rl_failed_proposed_reward = map_option re_proposed_reward reward, rl_reason = dl_reason failed,
        rl_retained_ranking = dl_ranking failed, rl_retained_rewards = dl_rewards failed,
        rl_retained_packets = dl_packets failed\<rparr>)"

definition failed_room :: "protocol_room_state \<Rightarrow> (race_fence \<times> protocol_room_state \<times> settlement_dead_letter_state) option" where
  "failed_room room =
     (case (race_fence_of room, map_option ss_finalization (pg_settlement (race_progress_of room))) of
        (Some fence, Some (FinFailed failed)) \<Rightarrow> Some (fence, room, failed)
      | _ \<Rightarrow> None)"

definition reward_dead_letters :: "unicode_tables \<Rightarrow> world \<Rightarrow> world_error + reward_dead_letter list" where
  "reward_dead_letters u w =
     rtraverse (\<lambda>(fence, room, failed). dead_letter_of u fence room failed)
       (sort_key (\<lambda>(fence, _, _). (rf_room_id fence, rf_race_epoch fence))
         (List.map_filter failed_room (map snd (w_protocol_rooms w))))"

text \<open>Two rankings are equal when they map the same players to the same results.\<close>

definition same_ranking :: "settlement_ranking \<Rightarrow> settlement_ranking \<Rightarrow> bool" where
  "same_ranking a b \<longleftrightarrow> sr_winning_team a = sr_winning_team b \<and> set (sr_by_player_id a) = set (sr_by_player_id b)"

definition same_ranking_option :: "settlement_ranking option \<Rightarrow> settlement_ranking option \<Rightarrow> bool" where
  "same_ranking_option a b \<longleftrightarrow>
     (case (a, b) of (None, None) \<Rightarrow> True | (Some x, Some y) \<Rightarrow> same_ranking x y | _ \<Rightarrow> False)"

definition requeue :: "instant \<Rightarrow> reward_persistence_entry \<Rightarrow> reward_persistence_entry" where
  "requeue now reward =
     (case re_status reward of RpDurable _ \<Rightarrow> reward | _ \<Rightarrow> reward\<lparr>re_status := RpQueued now 0\<rparr>)"

definition retry_reward_dead_letter :: "reward_dead_letter \<Rightarrow> instant \<Rightarrow> world \<Rightarrow> unit world_turn" where
  "retry_reward_dead_letter letter now w =
     (let rid = rf_room_id (rl_fence letter) in
      if fence_at w rid \<noteq> Some (rl_fence letter) then (w, Inl StaleRewardDeadLetter)
      else (case finalization_of w rid of
          Some (FinFailed failed) \<Rightarrow>
            if dl_reason failed \<noteq> rl_reason letter
               \<or> \<not> same_ranking_option (dl_ranking failed) (rl_retained_ranking letter)
               \<or> dl_rewards failed \<noteq> rl_retained_rewards letter \<or> dl_packets failed \<noteq> rl_retained_packets letter
            then (w, Inl StaleRewardDeadLetter)
            else if \<not> permits_persistence_retry (dl_reason failed)
            then (w, Inl (RewardDeadLetterNotRetryable (dl_reason failed)))
            else if dl_failed_user_no failed \<noteq> rl_failed_user_no letter
               \<or> dl_failed_nickname failed \<noteq> rl_failed_nickname letter
               \<or> Option.bind (failed_reward failed) (\<lambda>r. in_flight_attempt_id (re_status r)) \<noteq> rl_failed_attempt_id letter
               \<or> map_option re_canonical_nickname (failed_reward failed) \<noteq> rl_failed_canonical_nickname letter
               \<or> map_option re_proposed_reward (failed_reward failed) \<noteq> rl_failed_proposed_reward letter
               \<or> dl_packets failed \<noteq> None
            then (w, Inl StaleRewardDeadLetter)
            else (case dl_ranking failed of
                None \<Rightarrow> (w, Inl StaleRewardDeadLetter)
              | Some ranks \<Rightarrow>
                  (update_room rid (set_finalization (\<lambda>_. FinPersisting ranks (map (requeue now) (dl_rewards failed)))) w, Inr ()))
        | _ \<Rightarrow> (w, Inl StaleRewardDeadLetter)))"

section \<open>Lanes\<close>

datatype reward_lane_phase =
    LaneLoading | LaneRunning | LaneAwaitingDeadline | LaneQueued | LaneInFlight
  | LaneDurableAwaitingFinalization | LaneTerminal

record outstanding_reward_lane =
  ol_fence :: race_fence
  ol_user_no :: u32
  ol_nickname :: ustring
  ol_phase :: reward_lane_phase

fun status_phase :: "reward_persistence_status \<Rightarrow> reward_lane_phase" where
  "status_phase (RpQueued _ _) = LaneQueued"
| "status_phase (RpInFlight _ _ _) = LaneInFlight"
| "status_phase (RpDurable _) = LaneDurableAwaitingFinalization"

definition lane_phase :: "u32 \<Rightarrow> protocol_room_state \<Rightarrow> reward_lane_phase option" where
  "lane_phase u room =
     (case phase room of
        PhLoading \<Rightarrow> Some LaneLoading
      | PhRunning \<Rightarrow> Some LaneRunning
      | PhLobby \<Rightarrow> None
      | PhSettling \<Rightarrow>
          (case map_option ss_finalization (pg_settlement (race_progress_of room)) of
             None \<Rightarrow> Some LaneAwaitingDeadline
           | Some AwaitingDeadline \<Rightarrow> Some LaneAwaitingDeadline
           | Some (FinPersisting ranks rewards) \<Rightarrow> map_option (\<lambda>r. status_phase (re_status r)) (find_reward u rewards)
           | Some (FinReady ranks rewards packets) \<Rightarrow> Some LaneDurableAwaitingFinalization
           | Some (FinFailed failed) \<Rightarrow> Some LaneTerminal))"

definition outstanding_reward_lane_of :: "u32 \<Rightarrow> race_fence \<Rightarrow> world \<Rightarrow> world_error + outstanding_reward_lane" where
  "outstanding_reward_lane_of u fence w =
     (case room_at w (rf_room_id fence) of
        None \<Rightarrow> Inl (RewardSchedulerInvariant (rf_room_id fence) u)
      | Some room \<Rightarrow>
          (case (race_fence_of room = Some fence, frozen_human u room, lane_phase u room) of
             (True, Some p, Some ph) \<Rightarrow>
               Inr \<lparr>ol_fence = fence, ol_user_no = u, ol_nickname = fp_nickname p, ol_phase = ph\<rparr>
           | _ \<Rightarrow> Inl (RewardSchedulerInvariant (rf_room_id fence) u)))"

record reward_drain_status =
  ds_quiescing :: bool
  ds_outstanding_lanes :: "outstanding_reward_lane list"
  ds_dead_letters :: "reward_dead_letter list"

definition reward_drain_status_of :: "unicode_tables \<Rightarrow> world \<Rightarrow> world_error + reward_drain_status" where
  "reward_drain_status_of u w =
     rbind (rtraverse (\<lambda>(v, fence). outstanding_reward_lane_of v fence w)
       (sort_key (\<lambda>(v, fence). (rf_room_id fence, rf_race_epoch fence, v)) (w_reward_lanes w))) (\<lambda>lanes.
     rbind (reward_dead_letters u w) (\<lambda>letters.
     Inr \<lparr>ds_quiescing = w_quiescing w, ds_outstanding_lanes = lanes, ds_dead_letters = letters\<rparr>))"

definition is_drained :: "reward_drain_status \<Rightarrow> bool" where
  "is_drained status \<longleftrightarrow> ds_outstanding_lanes status = [] \<and> ds_dead_letters status = []"

end
