(* ===== verification/WorldInv.thy ===== *)
theory WorldInv
  imports RoomLobby RewardTasks
begin

text \<open>
  The invariant of the world's rooms.  The first part are the assertions of the
  source (\<open>debug_assert_invariants\<close> and its three helpers), executable as there;
  the second part is the invariant that is proved of every command and implies
  them.
\<close>

section \<open>The assertions of the source\<close>

definition option_count :: "bool \<Rightarrow> nat" where "option_count b = (if b then 1 else 0)"

definition occupant_count :: "protocol_room_state \<Rightarrow> nat \<Rightarrow> nat" where
  "occupant_count room i = option_count (members_by_id room ! i \<noteq> None) + option_count (ais_by_id room ! i \<noteq> None)
     + option_count (closed_slots_by_id room ! i \<noteq> None)"

text \<open>The loop over the physical slots, with the array of positioned members; \<open>None\<close> is a failed assertion.\<close>

fun positioned_members :: "protocol_room_state \<Rightarrow> bool list \<Rightarrow> u8 list \<Rightarrow> bool list option" where
  "positioned_members room seen [] = Some seen"
| "positioned_members room seen (mid # rest) =
     (if unat mid < 8 \<and> occupant_count room (unat mid) = 1 \<and> \<not> seen ! unat mid
      then positioned_members room (seen[unat mid := True]) rest else None)"

definition debug_assert_seats :: "protocol_room_state \<Rightarrow> bool" where
  "debug_assert_seats room \<longleftrightarrow>
     (case positioned_members room (replicate 8 False) (flatten (slot_positions room)) of
        None \<Rightarrow> False
      | Some positioned \<Rightarrow> \<forall>i\<in>{..<8}. occupant_count room i \<le> 1 \<and> (occupant_count room i = 1 \<longleftrightarrow> positioned ! i)
          \<and> (case members_by_id room ! i of None \<Rightarrow> True | Some m \<Rightarrow> user_no (prm_player m) = prm_user_no m)
          \<and> (case closed_slots_by_id room ! i of None \<Rightarrow> True | Some c \<Rightarrow> slot_positions room ! unat c = Some (of_nat i)))
     \<and> (\<forall>m\<in>set (flatten (observers room)). user_no (prm_player m) = prm_user_no m)"

definition debug_assert_master :: "protocol_room_state \<Rightarrow> bool" where
  "debug_assert_master room \<longleftrightarrow> room_is_empty room \<or> member_by_player_id (room_master room) room \<noteq> None
     \<or> ((\<forall>m\<in>set (members_by_id room). m = None) \<and> room_master room = 0)"

text \<open>
  \<open>debug_assert_frozen_race_invariants\<close>, without the reward lanes (a statement about
  the world) and without its last assertion, which is \<open>frozen_ids_fit\<close>.
\<close>

definition frozen_participant_ok :: "room_settings \<Rightarrow> frozen_race_participant \<Rightarrow> bool" where
  "frozen_participant_ok st p \<longleftrightarrow> (fp_observer p \<longleftrightarrow> 8 \<le> fp_player_id p)
     \<and> (fp_observer p \<longleftrightarrow> fp_result p = None)
     \<and> (if fp_observer p then fp_team p = 0
        else if set_game_type st \<in> {3, 4} then fp_team p \<in> {1, 2} else fp_team p = 0)"

definition frozen_player_ids :: "frozen_race_roster \<Rightarrow> int list" where
  "frozen_player_ids frozen = map fp_player_id (fr_participants frozen) @ map fa_player_id (fr_ais frozen)"

definition debug_assert_frozen :: "room_id \<Rightarrow> protocol_room_state \<Rightarrow> bool" where
  "debug_assert_frozen rid room \<longleftrightarrow>
     (case frozen_race room of
        None \<Rightarrow> phase room = PhLobby \<and> race_fence_of room = None
      | Some frozen \<Rightarrow> phase room \<noteq> PhLobby \<and> race_fence_of room = Some (fr_fence frozen)
          \<and> rf_room_id (fr_fence frozen) = rid \<and> \<not> is_random_track_selector (fr_concrete_track frozen)
          \<and> distinct (map (\<lambda>p. ib_user_no (fp_identity p)) (fr_participants frozen))
          \<and> distinct (frozen_player_ids frozen)
          \<and> (\<forall>p\<in>set (fr_participants frozen). frozen_participant_ok (settings room) p)
          \<and> (\<forall>a\<in>set (fr_ais frozen). 0 \<le> fa_player_id a \<and> fa_player_id a < 8))"

definition frozen_ids_fit :: "protocol_room_state \<Rightarrow> bool" where
  "frozen_ids_fit room \<longleftrightarrow> (case frozen_race room of None \<Rightarrow> True
     | Some frozen \<Rightarrow> length (remdups (frozen_player_ids frozen)) \<le> room_slot_count)"

definition racer_ids :: "frozen_race_roster \<Rightarrow> int list" where
  "racer_ids frozen = map fp_player_id (filter (\<lambda>p. \<not> fp_observer p) (fr_participants frozen)) @ map fa_player_id (fr_ais frozen)"

definition fanout_ok :: "race_progress \<Rightarrow> pending_race_fanout \<Rightarrow> bool" where
  "fanout_ok progress fanout \<longleftrightarrow>
     (case prf_race_time fanout of None \<Rightarrow> True
      | Some t \<Rightarrow> map_of (pg_finish_times progress) (prt_player_id t) = Some (prt_race_time t))
     \<and> (case prf_begin_settlement fanout of None \<Rightarrow> True
      | Some b \<Rightarrow> (case pg_settlement progress of None \<Rightarrow> False | Some s \<Rightarrow> pbs_end_tick b = ss_end_tick s))"

definition reward_ok :: "frozen_race_roster \<Rightarrow> settlement_ranking \<Rightarrow> reward_persistence_entry \<Rightarrow> bool" where
  "reward_ok frozen ranks reward \<longleftrightarrow> map_of (sr_by_player_id ranks) (re_player_id reward) \<noteq> None
     \<and> (case List.find (\<lambda>p. \<not> fp_observer p \<and> ib_user_no (fp_identity p) = re_user_no reward) (fr_participants frozen) of
          None \<Rightarrow> False
        | Some p \<Rightarrow> (let economy = Option.bind (fp_result p) (\<lambda>r. economy_applied (fh_economy r)) in
            case re_status reward of RpDurable applied \<Rightarrow> economy = Some applied | _ \<Rightarrow> economy = None))"

definition debug_assert_progress :: "protocol_room_state \<Rightarrow> bool" where
  "debug_assert_progress room \<longleftrightarrow> (let progress = race_progress_of room in
     (pg_settlement progress \<noteq> None \<longleftrightarrow> phase room = PhSettling)
     \<and> (phase room \<in> {PhLobby, PhLoading} \<longrightarrow>
          pg_finish_times progress = [] \<and> pg_pending_fanouts progress = [] \<and> pg_team_gauge_bits progress = [0, 0])
     \<and> length (filter (\<lambda>f. prf_race_time f \<noteq> None) (pg_pending_fanouts progress)) \<le> room_slot_count
     \<and> (\<forall>f\<in>set (pg_pending_fanouts progress). fanout_ok progress f)
     \<and> (case frozen_race room of None \<Rightarrow> True
        | Some frozen \<Rightarrow> (\<forall>(p, t)\<in>set (pg_finish_times progress). p \<in> set (racer_ids frozen))
            \<and> (case pg_settlement progress of
                 Some s \<Rightarrow> (case ss_finalization s of
                     FinPersisting ranks rewards \<Rightarrow>
                       length rewards = length (frozen_humans frozen) \<and> length rewards \<le> room_slot_count
                       \<and> distinct (map re_user_no rewards) \<and> (\<forall>r\<in>set rewards. reward_ok frozen ranks r)
                   | _ \<Rightarrow> True)
               | None \<Rightarrow> True)))"

definition debug_assert_handshake :: "protocol_room_state \<Rightarrow> bool" where
  "debug_assert_handshake room \<longleftrightarrow>
     (case loading_handshake_of room of
        Dormant \<Rightarrow> True
      | StartScheduled _ \<Rightarrow> phase room = PhLoading
      | Awaiting expected ready _ \<Rightarrow> phase room = PhLoading \<and> ready \<subseteq> expected
          \<and> (case frozen_race room of None \<Rightarrow> False
             | Some frozen \<Rightarrow> expected \<subseteq> set (map (\<lambda>p. stamp_of (fp_identity p)) (fr_participants frozen))))"

definition expected_lanes :: "world \<Rightarrow> (u32 \<times> race_fence) list" where
  "expected_lanes w = concat (map (\<lambda>(rid, room). case frozen_race room of None \<Rightarrow> []
     | Some frozen \<Rightarrow> map (\<lambda>u. (u, fr_fence frozen)) (frozen_humans frozen)) (w_protocol_rooms w))"

definition debug_assert_invariants :: "world \<Rightarrow> bool" where
  "debug_assert_invariants w \<longleftrightarrow>
     (let names = concat (map (\<lambda>(rid, snapshot). map (\<lambda>n. (n, rid)) (flatten (snap_slots snapshot))) (w_rooms w)) in
      distinct (map fst names) \<and> (\<forall>(n, rid)\<in>set names. map_of (w_room_by_identity w) n = Some rid)
      \<and> length names = length (w_room_by_identity w))
     \<and> (\<forall>(rid, room)\<in>set (w_protocol_rooms w). room_id_of room = rid \<and> rid \<le> 0xFFFF \<and> map_of (w_rooms w) rid = None
          \<and> debug_assert_seats room \<and> debug_assert_master room
          \<and> (\<forall>u\<in>set (user_nos room). room_of w u = Some rid)
          \<and> debug_assert_frozen rid room \<and> debug_assert_handshake room \<and> debug_assert_progress room)
     \<and> (let users = concat (map (\<lambda>(rid, room). user_nos room) (w_protocol_rooms w)) in
        distinct users \<and> length users = length (w_protocol_room_by_user w))
     \<and> distinct (map fst (expected_lanes w)) \<and> set (expected_lanes w) = set (w_reward_lanes w)
     \<and> (\<forall>c\<in>w_free_protocol_room_ids w. c \<noteq> 0 \<and> map_of (w_rooms w) (ucast c) = None \<and> room_at w (ucast c) = None)"

section \<open>The invariant\<close>

text \<open>
  What the assertions of the source leave out and the settlement relies on: the
  racers' IDs and teams, that no reward is applied before the ranking is frozen, that a
  frozen ranking and its reward entries stay those of the roster, and that a dead
  letter names the failed racer.
\<close>

definition roster_ok :: "protocol_room_state \<Rightarrow> frozen_race_roster \<Rightarrow> bool" where
  "roster_ok room frozen \<longleftrightarrow> (\<forall>p\<in>set (fr_participants frozen). 0 \<le> fp_player_id p)
     \<and> (\<forall>i\<in>occupied (members_by_id room). \<exists>p\<in>set (fr_participants frozen). \<not> fp_observer p \<and> fp_player_id p = int i)
     \<and> (\<exists>p\<in>set (fr_participants frozen). \<not> fp_observer p)
     \<and> (team_mode room \<longrightarrow> (\<forall>a\<in>set (fr_ais frozen). fa_team a \<in> {1, 2}))"

definition economy_pending :: "frozen_race_roster \<Rightarrow> bool" where
  "economy_pending frozen \<longleftrightarrow>
     (\<forall>p\<in>set (fr_participants frozen). \<forall>r. fp_result p = Some r \<longrightarrow> fh_economy r = EcoPending)"

definition entries_ok ::
  "protocol_room_state \<Rightarrow> frozen_race_roster \<Rightarrow> settlement_ranking \<Rightarrow> reward_persistence_entry list \<Rightarrow> bool" where
  "entries_ok room frozen ranks rewards \<longleftrightarrow> ranks_ok room frozen ranks
     \<and> map re_user_no rewards = frozen_humans frozen \<and> (\<forall>r\<in>set rewards. reward_ok frozen ranks r)"

definition failed_nickname_of :: "protocol_room_state \<Rightarrow> settlement_dead_letter_state \<Rightarrow> ustring option" where
  "failed_nickname_of room failed =
     (case failed_reward failed of
        Some r \<Rightarrow> Some (re_nickname r)
      | None \<Rightarrow> map_option fp_nickname (Option.bind (dl_failed_user_no failed) (\<lambda>v. frozen_human v room)))"

definition letter_ok :: "protocol_room_state \<Rightarrow> settlement_dead_letter_state \<Rightarrow> bool" where
  "letter_ok room failed \<longleftrightarrow> dl_failed_nickname failed = failed_nickname_of room failed
     \<and> (dl_reason failed = RewardPersistence \<longrightarrow>
          Option.bind (failed_reward failed) (\<lambda>r. in_flight_attempt_id (re_status r)) \<noteq> None)"

definition durable :: "reward_persistence_status \<Rightarrow> bool" where
  "durable status \<longleftrightarrow> (\<exists>applied. status = RpDurable applied)"

definition finalization_ok :: "protocol_room_state \<Rightarrow> frozen_race_roster \<Rightarrow> settlement_finalization option \<Rightarrow> bool" where
  "finalization_ok room frozen finalization \<longleftrightarrow>
     (case finalization of
        None \<Rightarrow> economy_pending frozen
      | Some AwaitingDeadline \<Rightarrow> economy_pending frozen
      | Some (FinPersisting ranks rewards) \<Rightarrow> entries_ok room frozen ranks rewards
      | Some (FinReady ranks rewards packets) \<Rightarrow> entries_ok room frozen ranks rewards \<and> (\<forall>r\<in>set rewards. durable (re_status r))
      | Some (FinFailed failed) \<Rightarrow> letter_ok room failed
          \<and> (case dl_ranking failed of
               None \<Rightarrow> economy_pending frozen \<and> dl_rewards failed = []
             | Some ranks \<Rightarrow> entries_ok room frozen ranks (dl_rewards failed)))"

definition settled_ok :: "protocol_room_state \<Rightarrow> bool" where
  "settled_ok room \<longleftrightarrow>
     (case frozen_race room of
        None \<Rightarrow> race_progress_of room = race_progress_default
      | Some frozen \<Rightarrow> roster_ok room frozen
          \<and> finalization_ok room frozen (map_option ss_finalization (pg_settlement (race_progress_of room))))"

definition race_ok :: "room_id \<Rightarrow> protocol_room_state \<Rightarrow> bool" where
  "race_ok rid room \<longleftrightarrow> debug_assert_frozen rid room \<and> debug_assert_progress room \<and> debug_assert_handshake room
     \<and> settled_ok room \<and> (phase room \<in> {PhLobby, PhLoading} \<longrightarrow> \<not> room_is_empty room)"

definition room_ok :: "room_id \<Rightarrow> protocol_room_state \<Rightarrow> bool" where
  "room_ok rid room \<longleftrightarrow> room_id_of room = rid \<and> room_inv room \<and> race_ok rid room"

definition keys_ok :: "world \<Rightarrow> bool" where
  "keys_ok w \<longleftrightarrow> distinct (map fst (w_protocol_rooms w)) \<and> distinct (map fst (w_protocol_room_by_user w))
     \<and> distinct (map fst (w_reward_lanes w)) \<and> distinct (map fst (w_rooms w)) \<and> distinct (map fst (w_room_by_identity w))"

definition rooms_ok :: "world \<Rightarrow> bool" where
  "rooms_ok w \<longleftrightarrow> (\<forall>rid room. room_at w rid = Some room \<longrightarrow>
     room_ok rid room \<and> rid \<noteq> 0 \<and> rid \<le> 0xFFFF \<and> map_of (w_rooms w) rid = None)"

definition members_ok :: "world \<Rightarrow> bool" where
  "members_ok w \<longleftrightarrow> (\<forall>u rid. room_of w u = Some rid \<longleftrightarrow> (\<exists>room. room_at w rid = Some room \<and> u \<in> set (user_nos room)))"

definition ids_ok :: "world \<Rightarrow> bool" where
  "ids_ok w \<longleftrightarrow> 0 \<notin> w_free_protocol_room_ids w \<and> (\<forall>c\<in>w_free_protocol_room_ids w. \<not> room_taken w (ucast c))
     \<and> w_next_room_id w \<noteq> 0"

definition races_human :: "protocol_room_state \<Rightarrow> u32 \<Rightarrow> race_fence \<Rightarrow> bool" where
  "races_human room u fence \<longleftrightarrow>
     (\<exists>frozen. frozen_race room = Some frozen \<and> fr_fence frozen = fence \<and> u \<in> set (frozen_humans frozen))"

definition lanes_ok :: "world \<Rightarrow> bool" where
  "lanes_ok w \<longleftrightarrow> (\<forall>u fence. lane_of w u = Some fence \<longleftrightarrow> (\<exists>rid room. room_at w rid = Some room \<and> races_human room u fence))"

definition plain_ok :: "world \<Rightarrow> bool" where
  "plain_ok w \<longleftrightarrow> (\<forall>rid s. map_of (w_rooms w) rid = Some s \<longrightarrow> length (snap_slots s) = 8 \<and> distinct (flatten (snap_slots s)))
     \<and> (\<forall>n rid. map_of (w_room_by_identity w) n = Some rid \<longleftrightarrow>
          (\<exists>s. map_of (w_rooms w) rid = Some s \<and> Some n \<in> set (snap_slots s)))"

definition world_inv :: "world \<Rightarrow> bool" where
  "world_inv w \<longleftrightarrow> keys_ok w \<and> rooms_ok w \<and> members_ok w \<and> ids_ok w \<and> lanes_ok w \<and> plain_ok w"

lemmas world_inv_defs = world_inv_def keys_ok_def rooms_ok_def members_ok_def ids_ok_def lanes_ok_def plain_ok_def
  room_taken_def

lemma world_invD:
  assumes "world_inv w"
  shows "keys_ok w" "rooms_ok w" "members_ok w" "ids_ok w" "lanes_ok w" "plain_ok w"
  using assms by (simp_all add: world_inv_def)

lemma world_default_inv: "world_inv world_default"
  by (simp add: world_inv_defs world_default_def)

text \<open>The invariant is a statement about the rooms, memberships, lanes and IDs only.\<close>

lemma world_inv_frame:
  assumes "w_rooms w' = w_rooms w" "w_room_by_identity w' = w_room_by_identity w"
    "w_protocol_rooms w' = w_protocol_rooms w" "w_protocol_room_by_user w' = w_protocol_room_by_user w"
    "w_free_protocol_room_ids w' = w_free_protocol_room_ids w" "w_next_room_id w' = w_next_room_id w"
    "w_reward_lanes w' = w_reward_lanes w"
  shows "world_inv w' = world_inv w"
  by (simp add: world_inv_defs assms)

lemma world_inv_gate [simp]: "world_inv (w\<lparr>w_wire_gate := g\<rparr>) = world_inv w"
  by (rule world_inv_frame) simp_all

section \<open>Maps\<close>

lemma map_of_insert_room [simp]:
  "room_at (insert_room rid room w) = (room_at w)(rid \<mapsto> room)"
  by (simp add: insert_room_def update_conv')

lemma map_of_drop_room [simp]: "room_at (drop_room rid w) = (room_at w)(rid := None)"
  by (simp add: drop_room_def delete_conv')

lemma map_of_drop_membership [simp]: "room_of (drop_membership u w) = (room_of w)(u := None)"
  by (simp add: drop_membership_def delete_conv')

lemma map_of_filter_snd:
  "distinct (map fst xs) \<Longrightarrow>
     map_of (filter (\<lambda>(k, v). P v) xs) k = (case map_of xs k of None \<Rightarrow> None | Some v \<Rightarrow> if P v then Some v else None)"
proof (induction xs)
  case (Cons x xs)
  obtain a b where x: "x = (a, b)" by (cases x)
  have "map_of xs a = None" using Cons.prems x by (auto simp: map_of_eq_None_iff)
  with Cons x show ?case by (auto split: option.splits)
qed simp

lemma map_of_release [simp]:
  "keys_ok w \<Longrightarrow> lane_of (release_reward_lanes fence w) u =
     (case lane_of w u of None \<Rightarrow> None | Some f \<Rightarrow> if f \<noteq> fence then Some f else None)"
  unfolding release_reward_lanes_def using map_of_filter_snd [of "w_reward_lanes w" "\<lambda>f. f \<noteq> fence" u]
  by (simp add: keys_ok_def)

lemma update_other_fields [simp]:
  "w_rooms (insert_room rid room w) = w_rooms w" "w_room_by_identity (insert_room rid room w) = w_room_by_identity w"
  "w_protocol_room_by_user (insert_room rid room w) = w_protocol_room_by_user w"
  "w_free_protocol_room_ids (insert_room rid room w) = w_free_protocol_room_ids w"
  "w_next_room_id (insert_room rid room w) = w_next_room_id w" "w_reward_lanes (insert_room rid room w) = w_reward_lanes w"
  "w_rooms (drop_room rid w) = w_rooms w" "w_room_by_identity (drop_room rid w) = w_room_by_identity w"
  "w_protocol_room_by_user (drop_room rid w) = w_protocol_room_by_user w"
  "w_free_protocol_room_ids (drop_room rid w) = insert (ucast rid) (w_free_protocol_room_ids w)"
  "w_next_room_id (drop_room rid w) = w_next_room_id w" "w_reward_lanes (drop_room rid w) = w_reward_lanes w"
  "w_rooms (drop_membership u w) = w_rooms w" "w_room_by_identity (drop_membership u w) = w_room_by_identity w"
  "w_protocol_rooms (drop_membership u w) = w_protocol_rooms w"
  "w_free_protocol_room_ids (drop_membership u w) = w_free_protocol_room_ids w"
  "w_next_room_id (drop_membership u w) = w_next_room_id w" "w_reward_lanes (drop_membership u w) = w_reward_lanes w"
  "w_rooms (release_reward_lanes f w) = w_rooms w" "w_room_by_identity (release_reward_lanes f w) = w_room_by_identity w"
  "w_protocol_rooms (release_reward_lanes f w) = w_protocol_rooms w"
  "w_protocol_room_by_user (release_reward_lanes f w) = w_protocol_room_by_user w"
  "w_free_protocol_room_ids (release_reward_lanes f w) = w_free_protocol_room_ids w"
  "w_next_room_id (release_reward_lanes f w) = w_next_room_id w"
  by (simp_all add: insert_room_def drop_room_def drop_membership_def release_reward_lanes_def)

lemma keys_ok_updates [simp]:
  "keys_ok w \<Longrightarrow> keys_ok (insert_room rid room w)" "keys_ok w \<Longrightarrow> keys_ok (drop_room rid w)"
  "keys_ok w \<Longrightarrow> keys_ok (drop_membership u w)" "keys_ok w \<Longrightarrow> keys_ok (release_reward_lanes f w)"
  by (simp_all add: keys_ok_def insert_room_def drop_room_def drop_membership_def release_reward_lanes_def
      distinct_update distinct_delete distinct_map_filter)

lemma commuting_gate [simp]:
  "insert_room rid room (w\<lparr>w_wire_gate := g\<rparr>) = (insert_room rid room w)\<lparr>w_wire_gate := g\<rparr>"
  "drop_room rid (w\<lparr>w_wire_gate := g\<rparr>) = (drop_room rid w)\<lparr>w_wire_gate := g\<rparr>"
  "drop_membership u (w\<lparr>w_wire_gate := g\<rparr>) = (drop_membership u w)\<lparr>w_wire_gate := g\<rparr>"
  by (simp_all add: insert_room_def drop_room_def drop_membership_def)

section \<open>Replacing one room\<close>

text \<open>The race of a room, which the ready-stage commands leave alone.\<close>

definition same_race :: "protocol_room_state \<Rightarrow> protocol_room_state \<Rightarrow> bool" where
  "same_race room room' \<longleftrightarrow> room_id_of room' = room_id_of room \<and> phase room' = phase room
     \<and> race_fence_of room' = race_fence_of room \<and> frozen_race room' = frozen_race room
     \<and> race_progress_of room' = race_progress_of room \<and> loading_handshake_of room' = loading_handshake_of room
     \<and> set_game_type (settings room') = set_game_type (settings room)"

lemma room_is_empty_users: "room_is_empty room \<longleftrightarrow> user_nos room = []"
  by (simp add: room_is_empty_iff user_nos_conv flatten_empty_iff)

lemma finalization_ok_cong:
  assumes "frozen_race room' = frozen_race room" "team_mode room' = team_mode room"
  shows "finalization_ok room' frozen fin = finalization_ok room frozen fin"
    and "occupied (members_by_id room') \<subseteq> occupied (members_by_id room) \<Longrightarrow> roster_ok room frozen \<Longrightarrow> roster_ok room' frozen"
proof -
  have "entries_ok room' = entries_ok room"
    using assms(2) by (simp add: fun_eq_iff entries_ok_def ranks_ok_def)
  moreover have "letter_ok room' = letter_ok room"
    using assms(1) by (simp add: fun_eq_iff letter_ok_def failed_nickname_of_def frozen_human_def cong: option.case_cong)
  ultimately show "finalization_ok room' frozen fin = finalization_ok room frozen fin"
    by (simp add: finalization_ok_def cong: option.case_cong settlement_finalization.case_cong)
  show "occupied (members_by_id room') \<subseteq> occupied (members_by_id room) \<Longrightarrow> roster_ok room frozen \<Longrightarrow> roster_ok room' frozen"
    using assms(2) by (auto simp: roster_ok_def)
qed

text \<open>A race goes on with the members it started with; only a room without a race gains some.\<close>

definition no_new_seats :: "protocol_room_state \<Rightarrow> protocol_room_state \<Rightarrow> bool" where
  "no_new_seats room room' \<longleftrightarrow> frozen_race room = None \<or> occupied (members_by_id room') \<subseteq> occupied (members_by_id room)"

lemma same_race_settled: "same_race room room' \<Longrightarrow> no_new_seats room room' \<Longrightarrow> settled_ok room \<Longrightarrow> settled_ok room'"
  using finalization_ok_cong [of room' room]
  by (auto simp: same_race_def no_new_seats_def settled_ok_def team_mode_def split: option.splits)

lemma same_race_ok:
  assumes "same_race room room'" "race_ok rid room"
    "phase room \<in> {PhLobby, PhLoading} \<Longrightarrow> room_is_empty room' \<Longrightarrow> room_is_empty room" "no_new_seats room room'"
  shows "race_ok rid room'"
proof -
  have "frozen_participant_ok (settings room') p = frozen_participant_ok (settings room) p" for p
    using assms(1) unfolding frozen_participant_ok_def same_race_def by simp
  then have "debug_assert_frozen rid room' = debug_assert_frozen rid room"
    using assms(1) by (simp add: same_race_def debug_assert_frozen_def split: option.split)
  moreover have "debug_assert_progress room' = debug_assert_progress room"
    using assms(1) by (simp add: same_race_def debug_assert_progress_def)
  moreover have "debug_assert_handshake room' = debug_assert_handshake room"
    using assms(1) by (simp add: same_race_def debug_assert_handshake_def split: loading_handshake.split)
  ultimately show ?thesis using assms same_race_settled [OF assms(1,4)] by (auto simp: race_ok_def same_race_def)
qed

lemma no_new_seats_simps [simp]:
  "members_by_id room' = members_by_id room \<Longrightarrow> no_new_seats room room'"
  "occupied (members_by_id room') = occupied (members_by_id room) \<Longrightarrow> no_new_seats room room'"
  "no_new_seats room room"
  by (simp_all add: no_new_seats_def)

lemma lobby_unfrozen:
  assumes "world_inv w" "room_at w rid = Some room" "phase room = PhLobby"
  shows "frozen_race room = None"
proof -
  have "debug_assert_frozen rid room"
    using world_invD(2) [OF assms(1)] assms(2) by (simp add: rooms_ok_def room_ok_def race_ok_def)
  with assms(3) show ?thesis by (simp add: debug_assert_frozen_def split: option.splits)
qed

lemma lobby_new_seats: "world_inv w \<Longrightarrow> room_at w rid = Some room \<Longrightarrow> phase room = PhLobby \<Longrightarrow> no_new_seats room room'"
  by (simp add: no_new_seats_def lobby_unfrozen)

lemma same_race_humans: "same_race room room' \<Longrightarrow> races_human room' = races_human room"
  by (simp add: same_race_def races_human_def fun_eq_iff)

lemma replace_room_inv:
  assumes inv: "world_inv w" and old: "room_at w rid = Some room" and new: "room_ok rid next"
    and users: "set (user_nos next) = set (user_nos room)" and humans: "races_human next = races_human room"
  shows "world_inv (insert_room rid next w)"
proof -
  note D = world_invD [OF inv]
  have "members_ok (insert_room rid next w)"
    unfolding members_ok_def
  proof (intro allI)
    fix u rid'
    have "room_of w u = Some rid' \<longleftrightarrow> (\<exists>room. room_at w rid' = Some room \<and> u \<in> set (user_nos room))"
      using D(3) by (simp add: members_ok_def)
    then show "room_of (insert_room rid next w) u = Some rid' \<longleftrightarrow>
        (\<exists>room. room_at (insert_room rid next w) rid' = Some room \<and> u \<in> set (user_nos room))"
      using old users by (cases "rid' = rid") simp_all
  qed
  moreover have "rooms_ok (insert_room rid next w)"
    using D(2) old new by (auto simp: rooms_ok_def)
  moreover have "ids_ok (insert_room rid next w)"
    using D(4) old by (auto simp: ids_ok_def room_taken_def)
  moreover have "lanes_ok (insert_room rid next w)"
    unfolding lanes_ok_def
  proof (intro allI)
    fix u fence
    have "lane_of w u = Some fence \<longleftrightarrow> (\<exists>rid room. room_at w rid = Some room \<and> races_human room u fence)"
      using D(5) by (simp add: lanes_ok_def)
    also have "\<dots> \<longleftrightarrow> (\<exists>rid' room. room_at (insert_room rid next w) rid' = Some room \<and> races_human room u fence)"
    proof
      assume "\<exists>rid' room. room_at w rid' = Some room \<and> races_human room u fence"
      then obtain rid' room' where "room_at w rid' = Some room'" "races_human room' u fence" by blast
      with old humans show "\<exists>rid' room. room_at (insert_room rid next w) rid' = Some room \<and> races_human room u fence"
        by (cases "rid' = rid") auto
    next
      assume "\<exists>rid' room. room_at (insert_room rid next w) rid' = Some room \<and> races_human room u fence"
      then obtain rid' room' where "room_at (insert_room rid next w) rid' = Some room'" "races_human room' u fence" by blast
      with old humans show "\<exists>rid' room. room_at w rid' = Some room \<and> races_human room u fence"
        by (cases "rid' = rid") auto
    qed
    finally show "lane_of (insert_room rid next w) u = Some fence \<longleftrightarrow>
        (\<exists>rid' room. room_at (insert_room rid next w) rid' = Some room \<and> races_human room u fence)" by simp
  qed
  moreover have "plain_ok (insert_room rid next w)" using D(6) by (simp add: plain_ok_def)
  ultimately show ?thesis using D(1) by (simp add: world_inv_def)
qed

lemma change_room_inv:
  assumes inv: "world_inv w" and old: "room_at w rid = Some room" and new: "room_inv next" "same_race room next"
    and users: "set (user_nos next) = set (user_nos room)" and seats: "no_new_seats room next"
  shows "world_inv (insert_room rid next w)"
proof (rule replace_room_inv [OF inv old _ users same_race_humans [OF new(2)]])
  have ok: "room_ok rid room" using world_invD(2) [OF inv] old by (simp add: rooms_ok_def)
  have "room_is_empty next \<longleftrightarrow> room_is_empty room"
    using users by (metis room_is_empty_users set_empty)
  then show "room_ok rid next"
    using ok new same_race_ok [OF new(2), of rid] seats by (simp add: room_ok_def same_race_def)
qed

lemma ucast_small: "rid \<le> 0xFFFF \<Longrightarrow> (ucast (ucast (rid :: u32) :: u16) :: u32) = rid"
proof -
  assume "rid \<le> 0xFFFF"
  then have "unat rid \<le> 65535" by (simp add: word_le_nat_alt)
  then show ?thesis
    by (intro word_unat_eq_iff [THEN iffD2]) (simp add: unsigned_ucast_eq [where ?'a = nat] unsigned_take_bit_eq take_bit_nat_eq_self)
qed

section \<open>Entering a room\<close>

lemma enter_room_simps [simp]:
  "room_at (enter_room rid u room w) = (room_at w)(rid \<mapsto> room)"
  "room_of (enter_room rid u room w) = (room_of w)(u \<mapsto> rid)"
  "w_rooms (enter_room rid u room w) = w_rooms w" "w_room_by_identity (enter_room rid u room w) = w_room_by_identity w"
  "w_free_protocol_room_ids (enter_room rid u room w) = w_free_protocol_room_ids w"
  "w_next_room_id (enter_room rid u room w) = w_next_room_id w" "w_reward_lanes (enter_room rid u room w) = w_reward_lanes w"
  using map_of_insert_room [of rid room w] by (simp_all add: enter_room_def update_conv')

lemma enter_room_keys [simp]: "keys_ok w \<Longrightarrow> keys_ok (enter_room rid u room w)"
  using keys_ok_updates(1) [of w rid room] by (simp add: enter_room_def keys_ok_def distinct_update)

text \<open>Entering a room that is there, or that is created with this user under a fresh ID.\<close>

lemma enter_room_inv:
  assumes inv: "world_inv w" and fresh: "room_of w u = None" and new: "room_ok rid next"
    and id: "rid \<noteq> 0" "rid \<le> 0xFFFF" "map_of (w_rooms w) rid = None" "ucast rid \<notin> w_free_protocol_room_ids w"
    and users: "set (user_nos next) = insert u (case room_at w rid of None \<Rightarrow> {} | Some room \<Rightarrow> set (user_nos room))"
    and humans: "races_human next = (case room_at w rid of None \<Rightarrow> (\<lambda>_ _. False) | Some room \<Rightarrow> races_human room)"
  shows "world_inv (enter_room rid u next w)"
proof -
  note D = world_invD [OF inv]
  have "members_ok (enter_room rid u next w)"
    unfolding members_ok_def
  proof (intro allI)
    fix v rid'
    have old: "room_of w v = Some rid' \<longleftrightarrow> (\<exists>room. room_at w rid' = Some room \<and> v \<in> set (user_nos room))" for rid'
      using D(3) by (simp add: members_ok_def)
    have absent: "\<not> (\<exists>room. room_at w rid' = Some room \<and> u \<in> set (user_nos room))" for rid'
      using D(3) fresh by (metis members_ok_def option.distinct(1))
    show "room_of (enter_room rid u next w) v = Some rid' \<longleftrightarrow>
        (\<exists>room. room_at (enter_room rid u next w) rid' = Some room \<and> v \<in> set (user_nos room))"
    proof (cases "rid' = rid")
      case True
      show ?thesis using old [of rid] users True by (cases "v = u"; cases "room_at w rid") simp_all
    next
      case False
      with old [of rid'] absent [of rid'] show ?thesis by (cases "v = u") auto
    qed
  qed
  moreover have "rooms_ok (enter_room rid u next w)"
    using D(2) new id by (simp add: rooms_ok_def)
  moreover have "ids_ok (enter_room rid u next w)"
    unfolding ids_ok_def
  proof (intro conjI ballI)
    fix c assume c: "c \<in> w_free_protocol_room_ids (enter_room rid u next w)"
    then have "ucast c \<noteq> rid" using id(4) by auto
    with c D(4) show "\<not> room_taken (enter_room rid u next w) (ucast c)"
      by (simp add: ids_ok_def room_taken_def)
  qed (use D(4) in \<open>simp_all add: ids_ok_def\<close>)
  moreover have "lanes_ok (enter_room rid u next w)"
  proof -
    have "(\<exists>rid' room. room_at (enter_room rid u next w) rid' = Some room \<and> races_human room v f)
        \<longleftrightarrow> (\<exists>rid' room. room_at w rid' = Some room \<and> races_human room v f)" for v f
    proof -
      have "(\<exists>room. room_at (enter_room rid u next w) rid' = Some room \<and> races_human room v f)
          \<longleftrightarrow> (\<exists>room. room_at w rid' = Some room \<and> races_human room v f)" for rid'
        using humans by (cases "rid' = rid"; cases "room_at w rid") simp_all
      then show ?thesis by simp
    qed
    then show ?thesis using D(5) by (simp add: lanes_ok_def)
  qed
  moreover have "plain_ok (enter_room rid u next w)" using D(6) by (simp add: plain_ok_def)
  ultimately show ?thesis using D(1) by (simp add: world_inv_def)
qed

section \<open>Leaving a room\<close>

lemma leave_keep_inv:
  assumes inv: "world_inv w" and old: "room_at w rid = Some room" "room_of w u = Some rid" and new: "room_ok rid next"
    and users: "set (user_nos next) = set (user_nos room) - {u}" and humans: "races_human next = races_human room"
  shows "world_inv (insert_room rid next (drop_membership u w))"
proof -
  note D = world_invD [OF inv]
  let ?w = "insert_room rid next (drop_membership u w)"
  have at: "room_at ?w rid' = (if rid' = rid then Some next else room_at w rid')" for rid' by (simp add: drop_membership_def)
  have of_user: "room_of ?w v = (if v = u then None else room_of w v)" for v
    using map_of_drop_membership [of u w] by simp
  have "members_ok ?w"
    unfolding members_ok_def
  proof (intro allI)
    fix v rid'
    have "room_of w v = Some rid'' \<longleftrightarrow> (\<exists>room. room_at w rid'' = Some room \<and> v \<in> set (user_nos room))" for v rid''
      using D(3) by (simp add: members_ok_def)
    from this [of v rid'] this [of u rid'] show "room_of ?w v = Some rid' \<longleftrightarrow> (\<exists>room. room_at ?w rid' = Some room \<and> v \<in> set (user_nos room))"
      using old users by (cases "rid' = rid"; cases "v = u") (auto simp: at of_user)
  qed
  moreover have "rooms_ok ?w" using D(2) old new by (auto simp: rooms_ok_def at)
  moreover have "ids_ok ?w" using D(4) old by (auto simp: ids_ok_def room_taken_def at)
  moreover have "lanes_ok ?w"
  proof -
    have "(\<exists>room. room_at ?w rid' = Some room \<and> races_human room v f)
        \<longleftrightarrow> (\<exists>room. room_at w rid' = Some room \<and> races_human room v f)" for v f rid'
      using old humans by (cases "rid' = rid") (simp_all add: at)
    then show ?thesis using D(5) by (simp add: lanes_ok_def)
  qed
  moreover have "plain_ok ?w" using D(6) by (simp add: plain_ok_def)
  ultimately show ?thesis using D(1) by (simp add: world_inv_def)
qed

text \<open>
  The last user leaves a lobby or loading room: the room goes, its ID is free, and
  exactly the lanes of its race are released.
\<close>

definition release_of :: "race_fence option \<Rightarrow> world \<Rightarrow> world" where
  "release_of fence w = (case fence of None \<Rightarrow> w | Some f \<Rightarrow> release_reward_lanes f w)"

lemma release_of_simps [simp]:
  "w_rooms (release_of f w) = w_rooms w" "w_room_by_identity (release_of f w) = w_room_by_identity w"
  "w_protocol_rooms (release_of f w) = w_protocol_rooms w" "w_protocol_room_by_user (release_of f w) = w_protocol_room_by_user w"
  "w_free_protocol_room_ids (release_of f w) = w_free_protocol_room_ids w" "w_next_room_id (release_of f w) = w_next_room_id w"
  "keys_ok w \<Longrightarrow> keys_ok (release_of f w)"
  by (simp_all add: release_of_def split: option.split)

lemma lane_of_release_of:
  "keys_ok w \<Longrightarrow> lane_of (release_of f w) u = Some g \<longleftrightarrow> lane_of w u = Some g \<and> f \<noteq> Some g"
  by (auto simp: release_of_def split: option.splits if_splits)

lemma races_humanD:
  assumes "rooms_ok w" "room_at w rid = Some room" "races_human room u f"
  shows "rf_room_id f = rid \<and> race_fence_of room = Some f"
proof -
  have "debug_assert_frozen rid room" using assms by (auto simp: rooms_ok_def room_ok_def race_ok_def)
  then show ?thesis using assms(3) by (auto simp: races_human_def debug_assert_frozen_def)
qed

text \<open>Releasing the lanes of one room's race leaves exactly the lanes of the other rooms.\<close>

lemma released_lanes:
  assumes inv: "world_inv w" and old: "room_at w rid = Some room"
  shows "lane_of (release_of (race_fence_of room) w) v = Some f \<longleftrightarrow>
    (\<exists>rid' room'. rid' \<noteq> rid \<and> room_at w rid' = Some room' \<and> races_human room' v f)"
proof -
  note D = world_invD [OF inv]
  have "debug_assert_frozen rid room" using D(2) old by (simp add: rooms_ok_def room_ok_def race_ok_def)
  then have fence: "rf_room_id g = rid" if "race_fence_of room = Some g" for g
    using that by (cases "frozen_race room") (auto simp: debug_assert_frozen_def)
  have "lane_of (release_of (race_fence_of room) w) v = Some f \<longleftrightarrow> lane_of w v = Some f \<and> race_fence_of room \<noteq> Some f"
    using lane_of_release_of [OF D(1)] by simp
  also have "\<dots> \<longleftrightarrow> (\<exists>rid room. room_at w rid = Some room \<and> races_human room v f) \<and> race_fence_of room \<noteq> Some f"
    using D(5) by (simp add: lanes_ok_def)
  also have "\<dots> \<longleftrightarrow> (\<exists>rid' room'. rid' \<noteq> rid \<and> room_at w rid' = Some room' \<and> races_human room' v f)"
  proof
    assume l: "(\<exists>rid room. room_at w rid = Some room \<and> races_human room v f) \<and> race_fence_of room \<noteq> Some f"
    then obtain rid' room' where r: "room_at w rid' = Some room'" "races_human room' v f" by blast
    have "rid' \<noteq> rid" using races_humanD [OF D(2) r] l old r(1) by auto
    with r show "\<exists>rid' room'. rid' \<noteq> rid \<and> room_at w rid' = Some room' \<and> races_human room' v f" by blast
  next
    assume "\<exists>rid' room'. rid' \<noteq> rid \<and> room_at w rid' = Some room' \<and> races_human room' v f"
    then obtain rid' room' where r: "rid' \<noteq> rid" "room_at w rid' = Some room'" "races_human room' v f" by blast
    have "race_fence_of room \<noteq> Some f" using races_humanD [OF D(2) r(2,3)] fence [of f] r(1) by auto
    with r show "(\<exists>rid room. room_at w rid = Some room \<and> races_human room v f) \<and> race_fence_of room \<noteq> Some f" by blast
  qed
  finally show ?thesis .
qed

lemma drop_room_inv:
  assumes inv: "world_inv w" and old: "room_at w rid = Some room" "room_of w u = Some rid"
    and users: "set (user_nos room) = {u}"
  shows "world_inv (drop_room rid (release_of (race_fence_of room) (drop_membership u w)))"
proof -
  note D = world_invD [OF inv]
  let ?w = "drop_room rid (release_of (race_fence_of room) (drop_membership u w))"
  have at: "room_at ?w rid' = (if rid' = rid then None else room_at w rid')" for rid'
    by (simp add: drop_membership_def)
  have of_user: "room_of ?w v = (if v = u then None else room_of w v)" for v
    using map_of_drop_membership [of u w] by simp
  have id: "rid \<noteq> 0" "rid \<le> 0xFFFF" "map_of (w_rooms w) rid = None"
    using D(2) old by (auto simp: rooms_ok_def)
  have "members_ok ?w"
    unfolding members_ok_def
  proof (intro allI)
    fix v rid'
    have "room_of w v = Some rid'' \<longleftrightarrow> (\<exists>room. room_at w rid'' = Some room \<and> v \<in> set (user_nos room))" for v rid''
      using D(3) by (simp add: members_ok_def)
    from this [of v rid'] this [of u rid'] show "room_of ?w v = Some rid' \<longleftrightarrow> (\<exists>room. room_at ?w rid' = Some room \<and> v \<in> set (user_nos room))"
      using old users by (cases "rid' = rid"; cases "v = u") (auto simp: at of_user)
  qed
  moreover have "rooms_ok ?w" using D(2) by (auto simp: rooms_ok_def at)
  moreover have "ids_ok ?w"
  proof -
    have "(ucast rid :: u16) \<noteq> 0" using ucast_small [OF id(2)] id(1) by (metis ucast_0)
    then show ?thesis using D(4) id by (auto simp: ids_ok_def room_taken_def at ucast_small)
  qed
  moreover have "lanes_ok ?w"
    unfolding lanes_ok_def
  proof (intro allI)
    fix v f
    have "w_reward_lanes ?w = w_reward_lanes (release_of (race_fence_of room) w)"
      by (simp add: release_of_def release_reward_lanes_def split: option.split)
    then show "lane_of ?w v = Some f \<longleftrightarrow> (\<exists>rid' room'. room_at ?w rid' = Some room' \<and> races_human room' v f)"
      using released_lanes [OF inv old(1), of v f] by (auto simp: at)
  qed
  moreover have "plain_ok ?w" using D(6) by (simp add: plain_ok_def)
  ultimately show ?thesis using D(1) by (simp add: world_inv_def)
qed

end
