(* ===== verification/WorldSteps.thy ===== *)
theory WorldSteps
  imports WorldInv
begin

text \<open>
  Every command of the world keeps the invariant: the ready-stage commands, the
  room commands, the planned exits, the abort of a loading race and the plain
  rooms.
\<close>

lemma identities_unchanged [simp]:
  "w_identities (insert_room rid room w) = w_identities w" "w_identities (drop_room rid w) = w_identities w"
  "w_identities (drop_membership v w) = w_identities w" "w_identities (release_reward_lanes f w) = w_identities w"
  by (simp_all add: insert_room_def drop_room_def drop_membership_def release_reward_lanes_def)

section \<open>Plans\<close>

definition plan_keeps :: "world \<Rightarrow> 'o plan \<Rightarrow> bool" where
  "plan_keeps w plan \<longleftrightarrow> (\<forall>ds commit out g. plan = Inr (ds, commit, out) \<longrightarrow>
     world_inv (commit (w\<lparr>w_wire_gate := g\<rparr>)) \<and> w_identities (commit (w\<lparr>w_wire_gate := g\<rparr>)) = w_identities w)"

lemma reserve_outbound_world:
  "reserve_outbound permits ds w = (w', r) \<Longrightarrow> \<exists>g. w' = w\<lparr>w_wire_gate := g\<rparr>"
  by (auto simp: reserve_outbound_def split: prod.splits option.splits)

lemma run_plan_inv:
  assumes "world_inv w" "plan_keeps w plan"
  shows "world_inv (fst (run_plan permits plan w)) \<and> w_identities (fst (run_plan permits plan w)) = w_identities w"
proof (cases plan)
  case (Inr p)
  obtain ds commit out where p: "p = (ds, commit, out)" by (cases p)
  obtain w' r where r: "reserve_outbound permits ds w = (w', r)" by (cases "reserve_outbound permits ds w")
  then obtain g where "w' = w\<lparr>w_wire_gate := g\<rparr>" using reserve_outbound_world by blast
  then show ?thesis
    using assms Inr p r by (cases r) (auto simp: run_plan_def plan_keeps_def)
qed (use assms in \<open>simp add: run_plan_def\<close>)

lemma plan_keepsI:
  "(\<And>ds commit out. plan = Inr (ds, commit, out) \<Longrightarrow> \<exists>rid next. commit = insert_room rid next \<and> world_inv (insert_room rid next w)
     \<or> commit = id) \<Longrightarrow> world_inv w \<Longrightarrow> plan_keeps w plan"
  by (fastforce simp: plan_keeps_def)

lemma own_roomD:
  "own_room w identity = Inr (rid, room) \<Longrightarrow> room_of w (ib_user_no identity) = Some rid \<and> room_at w rid = Some room"
  by (auto simp: own_room_def protocol_room_id_def existing_room_def result_iff)

lemma require_lobby_Inr [simp]: "require_lobby room = Inr u \<longleftrightarrow> phase room = PhLobby"
  by (simp add: require_lobby_def result_iff)

lemma require_lobby_master_Inr:
  "require_lobby_master room u = Inr p \<longleftrightarrow> phase room = PhLobby \<and> equipment_player_id u room = Some p \<and> room_master room = p"
  by (auto simp: require_lobby_master_def result_iff)

lemma master_roomD:
  "master_room w identity = Inr (rid, room) \<Longrightarrow>
     room_of w (ib_user_no identity) = Some rid \<and> room_at w rid = Some room \<and> phase room = PhLobby
     \<and> equipment_player_id (ib_user_no identity) room = Some (room_master room)"
  by (auto simp: master_room_def result_iff require_lobby_master_Inr dest: own_roomD split: prod.splits)

lemma room_at_inv: "world_inv w \<Longrightarrow> room_at w rid = Some room \<Longrightarrow> room_inv room"
  by (simp add: world_inv_def rooms_ok_def room_ok_def)

section \<open>Ready-stage commands\<close>

lemma set_slot_state_keeps:
  assumes "world_inv w"
  shows "plan_keeps w (plan_set_slot_state identity state w)"
proof (rule plan_keepsI [OF _ assms])
  fix ds commit out assume "plan_set_slot_state identity state w = Inr (ds, commit, out)"
  then obtain rid room mid where r: "own_room w identity = Inr (rid, room)"
    and mid: "member_id (ib_user_no identity) room = Some mid" and st: "state = NotReady \<or> state = Ready"
    and commit: "commit = insert_room rid (room\<lparr>members_by_id :=
       update_slot (set_player (player_type_update (\<lambda>_. slot_state_code state))) mid (members_by_id room)\<rparr>)"
    by (auto simp: plan_set_slot_state_def result_iff Let_def split: if_splits player_slot_state.splits prod.splits)
  note at = own_roomD [OF r]
  have inv: "room_inv room" using room_at_inv [OF assms] at by blast
  let ?next = "room\<lparr>members_by_id :=
       update_slot (set_player (player_type_update (\<lambda>_. slot_state_code state))) mid (members_by_id room)\<rparr>"
  have "world_inv (insert_room rid ?next w)"
  proof (rule change_room_inv [OF assms])
    show "room_inv ?next"
      using player_state_inv [OF inv, of "slot_state_code state" mid] st member_id_Some [OF mid]
        room_layoutD(1) [OF room_coreD(1) [OF room_invD(1) [OF inv]]] by auto
    show "same_race room ?next" by (simp add: same_race_def)
    show "set (user_nos ?next) = set (user_nos room)" by (simp add: user_nos_conv)
    show "no_new_seats room ?next" by simp
  qed (use at in blast)
  with commit show "\<exists>rid next. commit = insert_room rid next \<and> world_inv (insert_room rid next w) \<or> commit = id" by blast
qed

lemma change_team_keeps:
  assumes "world_inv w"
  shows "plan_keeps w (plan_change_team identity t w)"
proof (rule plan_keepsI [OF _ assms])
  fix ds commit out assume "plan_change_team identity t w = Inr (ds, commit, out)"
  then obtain rid room mid cur member target moved where r: "own_room w identity = Inr (rid, room)"
    and mode: "set_game_type (settings room) \<in> {3, 4}"
    and mid: "member_id (ib_user_no identity) room = Some mid"
    and cur: "position (\<lambda>p. p = Some (of_nat mid)) (slot_positions room) = Some cur"
    and member: "members_by_id room ! mid = Some member"
    and target: "(if team (prm_player member) = team_code t then Inr (cur, room)
            else rbind (ok_or (TeamFull t) (free_slot room (team_half t))) (\<lambda>target_slot.
              Inr (target_slot, move_to_team mid t cur target_slot room))) = Inr (target, moved)"
    and commit: "commit = insert_room rid moved"
    by (auto simp: plan_change_team_def result_iff Let_def split: prod.splits)
  note at = own_roomD [OF r]
  have inv: "room_inv room" using room_at_inv [OF assms] at by blast
  note layout = room_layoutD [OF room_coreD(1) [OF room_invD(1) [OF inv]]]
  have "world_inv (insert_room rid moved w)"
  proof (cases "moved = room")
    case True
    with inv at show ?thesis using change_room_inv [OF assms, of rid room room] by (simp add: same_race_def)
  next
    case False
    with target have free: "free_slot room (team_half t) = Some target" and moved: "moved = move_to_team mid t cur target room"
      by (auto simp: result_iff split: if_splits)
    show ?thesis
    proof (rule change_room_inv [OF assms])
      show "room_inv moved"
        unfolding moved
      proof (rule move_to_team_inv [OF inv _ _ member])
        show "team_mode room" using mode by (simp add: team_mode_def)
        show "mid < 8" using member_id_Some [OF mid] layout(1) by simp
        show "cur < 8" "slot_positions room ! cur = Some (of_nat mid)"
          using position_SomeD [OF cur] layout(4) by auto
      qed (use free_slot_Some [OF free] in auto)
      show "same_race room moved" by (simp add: moved move_to_team_def same_race_def)
      show "set (user_nos moved) = set (user_nos room)" by (simp add: moved)
      show "no_new_seats room moved" by (simp add: moved move_to_team_def)
    qed (use at in blast)
  qed
  with commit show "\<exists>rid next. commit = insert_room rid next \<and> world_inv (insert_room rid next w) \<or> commit = id" by blast
qed

lemma named_Some: "position (named u key) ms = Some i \<Longrightarrow> i < length ms \<and> ms ! i \<noteq> None"
  using position_SomeD [of "named u key" ms i] by (cases "ms ! i") (auto simp: named_def)

lemma change_master_keeps:
  assumes "world_inv w"
  shows "plan_keeps w (plan_change_master u identity target w)"
proof (rule plan_keepsI [OF _ assms])
  fix ds commit out assume "plan_change_master u identity target w = Inr (ds, commit, out)"
  then obtain rid room a b where r: "own_room w identity = Inr (rid, room)"
    and a: "member_id (ib_user_no identity) room = Some a"
    and b: "position (named u (canonical_nickname_key u target)) (members_by_id room) = Some b"
    and commit: "commit = insert_room rid ((not_ready b (not_ready a room))\<lparr>room_master := int b\<rparr>)"
    by (auto simp: plan_change_master_def result_iff Let_def split: if_splits prod.splits)
  note at = own_roomD [OF r]
  have inv: "room_inv room" using room_at_inv [OF assms] at by blast
  note layout = room_layoutD [OF room_coreD(1) [OF room_invD(1) [OF inv]]]
  have ab: "a < 8" "members_by_id room ! a \<noteq> None" "b < 8" "members_by_id room ! b \<noteq> None"
    using member_id_Some [OF a] named_Some [OF b] layout(1) by auto
  have "world_inv (insert_room rid ((not_ready b (not_ready a room))\<lparr>room_master := int b\<rparr>) w)"
  proof (rule change_room_inv [OF assms])
    have "room_inv (not_ready b (not_ready a room))"
      using not_ready_inv [OF not_ready_inv [OF inv ab(1,2)], of b] ab by simp
    then show "room_inv ((not_ready b (not_ready a room))\<lparr>room_master := int b\<rparr>)"
      using master_to_racer_inv [of "not_ready b (not_ready a room)" b] ab by simp
    show "same_race room ((not_ready b (not_ready a room))\<lparr>room_master := int b\<rparr>)"
      by (simp add: same_race_def not_ready_def)
    have "user_nos ((not_ready b (not_ready a room))\<lparr>room_master := int b\<rparr>) = user_nos (not_ready b (not_ready a room))"
      by (simp add: user_nos_conv)
    then show "set (user_nos ((not_ready b (not_ready a room))\<lparr>room_master := int b\<rparr>)) = set (user_nos room)" by simp
    show "no_new_seats room ((not_ready b (not_ready a room))\<lparr>room_master := int b\<rparr>)" by (simp add: not_ready_def)
  qed (use at in blast)
  with commit show "\<exists>rid next. commit = insert_room rid next \<and> world_inv (insert_room rid next w) \<or> commit = id" by blast
qed

text \<open>A change of the settings other than the game type.\<close>

lemma settings_keeps:
  assumes "world_inv w" "room_at w rid = Some room" "set_game_type st = set_game_type (settings room)"
  shows "world_inv (insert_room rid (room\<lparr>settings := st\<rparr>) w)"
proof (rule change_room_inv [OF assms(1,2)])
  show "room_inv (room\<lparr>settings := st\<rparr>)"
    by (rule same_seats_inv [OF _ _ room_at_inv [OF assms(1,2)]]) (simp_all add: same_seats_def assms(3))
  show "same_race room (room\<lparr>settings := st\<rparr>)" by (simp add: same_race_def assms(3))
  show "set (user_nos (room\<lparr>settings := st\<rparr>)) = set (user_nos room)" by (simp add: user_nos_conv)
  show "no_new_seats room (room\<lparr>settings := st\<rparr>)" by simp
qed

lemma change_track_keeps:
  assumes "world_inv w"
  shows "plan_keeps w (plan_change_track identity request w)"
proof (rule plan_keepsI [OF _ assms])
  fix ds commit out assume "plan_change_track identity request w = Inr (ds, commit, out)"
  then obtain rid room where r: "master_room w identity = Inr (rid, room)"
    and commit: "commit = insert_room rid (room\<lparr>settings := (settings room)\<lparr>set_track := ctr_track request,
       set_room_data_header := ctr_room_data_header request, set_room_data := ctr_room_data request\<rparr>\<rparr>)"
    by (auto simp: plan_change_track_def result_iff Let_def split: prod.splits)
  with settings_keeps [OF assms, of rid room "(settings room)\<lparr>set_track := ctr_track request,
       set_room_data_header := ctr_room_data_header request, set_room_data := ctr_room_data request\<rparr>"] master_roomD [OF r]
  show "\<exists>rid next. commit = insert_room rid next \<and> world_inv (insert_room rid next w) \<or> commit = id" by auto
qed

lemma change_room_info_keeps:
  assumes "world_inv w"
  shows "plan_keeps w (plan_change_room_info identity request w)"
proof (rule plan_keepsI [OF _ assms])
  fix ds commit out assume "plan_change_room_info identity request w = Inr (ds, commit, out)"
  then obtain rid room where r: "master_room w identity = Inr (rid, room)"
    and commit: "commit = insert_room rid (room\<lparr>settings := (settings room)\<lparr>set_room_name := crr_room_name request,
       set_password := crr_password request\<rparr>\<rparr>)"
    by (auto simp: plan_change_room_info_def result_iff Let_def split: prod.splits)
  with settings_keeps [OF assms, of rid room "(settings room)\<lparr>set_room_name := crr_room_name request,
       set_password := crr_password request\<rparr>"] master_roomD [OF r]
  show "\<exists>rid next. commit = insert_room rid next \<and> world_inv (insert_room rid next w) \<or> commit = id" by auto
qed

text \<open>What the methods of a room leave alone.\<close>

lemma add_ais_race: "add_ais xs room = (added, room') \<Longrightarrow> same_race room room'"
proof (induction xs room arbitrary: added room' rule: add_ais.induct)
  case (2 t ai rest room)
  show ?case
  proof (cases "vacant_member_id room")
    case None
    with "2.prems" show ?thesis by (simp add: same_race_def)
  next
    case (Some mid)
    show ?thesis
    proof (cases "free_slot room (team_slots t)")
      case None
      with Some "2.prems" show ?thesis by (simp add: same_race_def)
    next
      case slot: (Some s)
      let ?room = "room\<lparr>ais_by_id := (ais_by_id room)[mid := Some (ai\<lparr>ai_team := t\<rparr>)],
          slot_positions := (slot_positions room)[s := Some (of_nat mid)]\<rparr>"
      obtain added' where "add_ais rest ?room = (added', room')"
        using "2.prems" Some slot by (auto simp: Let_def split: prod.splits)
      from "2.IH" [OF Some slot refl this] show ?thesis by (simp add: same_race_def)
    qed
  qed
qed (simp add: same_race_def)

lemma remove_ai_race: "remove_ai pid room = Inr (r, room') \<Longrightarrow> same_race room room'"
  by (auto simp: remove_ai_def same_race_def Let_def split: option.splits)

lemma set_close_slots_race: "set_close_slots rq room = (b, room') \<Longrightarrow> same_race room room'"
proof -
  have "same_race room (fold (apply_pair c) ps room)" for c ps
  proof (induction ps arbitrary: room)
    case (Cons p ps)
    have "same_race room (apply_pair c p room)" by (cases p) (simp add: apply_pair_def same_race_def)
    with Cons [of "apply_pair c p room"] show ?case by (simp add: same_race_def)
  qed (simp add: same_race_def)
  then show "set_close_slots rq room = (b, room') \<Longrightarrow> same_race room room'"
    by (auto simp: set_close_slots_def Let_def same_race_def split: if_splits)
qed

lemma remove_user_race: "remove_user u room = (b, room') \<Longrightarrow> same_race room room'"
  by (auto simp: remove_user_def Let_def compact_rankings_def assign_next_room_master_def same_race_def
      split: option.splits if_splits)

lemma add_participant_race: "add_participant u p room = (b, room') \<Longrightarrow> same_race room room'"
  by (auto simp: add_participant_def add_observer_def add_racer_def Let_def same_race_def split: option.splits if_splits)

lemma change_basic_ai_keeps:
  assumes "world_inv w"
  shows "plan_keeps w (plan_change_basic_ai identity request candidates w)"
proof (rule plan_keepsI [OF _ assms])
  fix ds commit out assume "plan_change_basic_ai identity request candidates w = Inr (ds, commit, out)"
  then obtain rid room delta after where r: "master_room w identity = Inr (rid, room)"
    and delta: "basic_ai_delta request candidates room = Inr (delta, after)"
    and commit: "commit = (if delta \<noteq> None then insert_room rid after else id)"
    by (auto simp: plan_change_basic_ai_def result_iff Let_def split: prod.splits)
  note at = master_roomD [OF r]
  have inv: "room_inv room" using room_at_inv [OF assms] at by blast
  have "room_inv after \<and> user_nos after = user_nos room \<and> same_race room after"
  proof (cases "remove_ai (bar_player_id request) room")
    case (Inl e)
    with delta show ?thesis by (simp add: basic_ai_delta_def)
  next
    case (Inr p)
    obtain removed room1 where p: "p = (removed, room1)" by (cases p)
    have 1: "room_inv room1" "user_nos room1 = user_nos room" "same_race room room1"
      using remove_ai_inv [OF inv] remove_ai_race Inr p by auto
    obtain added room2 where a: "add_basic_ais candidates room1 = (added, room2)" by (cases "add_basic_ais candidates room1")
    have 2: "room_inv room2" "user_nos room2 = user_nos room1" "same_race room1 room2"
      using add_basic_ais_inv [OF 1(1) a] add_ais_race [OF a [unfolded add_basic_ais_def]] by auto
    have "after = room1 \<or> after = room2"
      using delta Inr p a by (auto simp: basic_ai_delta_def result_iff split: option.splits prod.splits)
    with 1 2 show ?thesis by (auto simp: same_race_def)
  qed
  then have "world_inv (insert_room rid after w)"
    using change_room_inv [OF assms, of rid room after] lobby_new_seats [OF assms, of rid room after] at by simp
  with commit show "\<exists>rid next. commit = insert_room rid next \<and> world_inv (insert_room rid next w) \<or> commit = id" by auto
qed

lemma change_closed_slots_keeps:
  assumes "world_inv w"
  shows "plan_keeps w (plan_change_closed_slots identity request w)"
proof (rule plan_keepsI [OF _ assms])
  fix ds commit out assume plan: "plan_change_closed_slots identity request w = Inr (ds, commit, out)"
  then obtain rid room where r: "master_room w identity = Inr (rid, room)"
    by (cases "master_room w identity") (auto simp: plan_change_closed_slots_def)
  obtain accepted attempted where a: "set_close_slots request room = (accepted, attempted)" by (cases "set_close_slots request room")
  note at = master_roomD [OF r]
  have inv: "room_inv room" using room_at_inv [OF assms] at by blast
  have "commit = insert_room rid attempted \<or> commit = id"
    using plan r a by (auto simp: plan_change_closed_slots_def result_iff Let_def split: if_splits)
  moreover have "world_inv (insert_room rid attempted w)"
    using change_room_inv [OF assms, of rid room attempted] lobby_new_seats [OF assms, of rid room attempted] at set_close_slots_inv [OF inv a] set_close_slots_race [OF a] by simp
  ultimately show "\<exists>rid next. commit = insert_room rid next \<and> world_inv (insert_room rid next w) \<or> commit = id" by blast
qed

text \<open>A user leaves its room, which stays or, when it was the last one of a room without a running race, goes.\<close>

lemma remove_user_leaves:
  assumes inv: "world_inv w" and room: "room_at w rid = Some room" "room_of w u = Some rid"
    and remove: "remove_user u room = (b, next)"
  shows "b" "room_inv next" "set (user_nos next) = set (user_nos room) - {u}" "same_race room next"
proof -
  have member: "u \<in> set (user_nos room)"
    using world_invD(3) [OF inv] room by (auto simp: members_ok_def)
  then show b: b using remove_user_True_iff [of u room] remove by simp
  note rinv = room_at_inv [OF inv room(1)]
  have remove': "remove_user u room = (True, next)" using remove b by simp
  show "room_inv next" by (rule remove_user_inv [OF rinv remove'])
  have "distinct (user_nos room)" using room_coreD(2) [OF room_invD(1) [OF rinv]] by (simp add: room_users_def)
  then show "set (user_nos next) = set (user_nos room) - {u}"
    using distinct_user_nos_clear(3) remove_user_users [OF room_invD(1) [OF rinv] remove'] by blast
  show "same_race room next" by (rule remove_user_race [OF remove])
qed

lemma remove_user_seats: "remove_user u room = (b, next) \<Longrightarrow> no_new_seats room next"
proof -
  have numbered: "occupied (number_rankings k ids ms) = occupied ms" for k ids and ms :: "protocol_room_member option list"
    by (rule rewritten_occupied [OF number_rankings_rewritten])
  have cleared: "occupied (ms[i := None]) \<subseteq> occupied ms" for i and ms :: "protocol_room_member option list"
    by (cases "i < length ms") (auto simp: occupied_def nth_list_update split: if_splits)
  show "remove_user u room = (b, next) \<Longrightarrow> no_new_seats room next"
    by (auto dest!: subsetD [OF cleared] simp: numbered remove_user_def Let_def compact_rankings_def
        assign_next_room_master_def no_new_seats_def split: option.splits if_splits)
qed

lemma exit_keep_inv:
  assumes inv: "world_inv w" and room: "room_at w rid = Some room" "room_of w u = Some rid"
    and remove: "remove_user u room = (b, next)" and stays: "\<not> (room_is_empty next \<and> phase next \<in> {PhLobby, PhLoading})"
  shows "world_inv (insert_room rid next (drop_membership u w))"
proof (rule leave_keep_inv [OF inv room])
  note gone = remove_user_leaves [OF inv room remove]
  have ok: "room_ok rid room" using world_invD(2) [OF inv] room by (simp add: rooms_ok_def)
  have "race_ok rid next"
    using ok gone(4) stays same_race_ok [OF gone(4), of rid] remove_user_seats [OF remove] by (auto simp: room_ok_def same_race_def)
  with ok gone(2,4) show "room_ok rid next" by (simp add: room_ok_def same_race_def)
  show "set (user_nos next) = set (user_nos room) - {u}" by (rule gone(3))
  show "races_human next = races_human room" by (rule same_race_humans [OF gone(4)])
qed

lemma exit_drop_inv:
  assumes inv: "world_inv w" and room: "room_at w rid = Some room" "room_of w u = Some rid"
    and remove: "remove_user u room = (b, next)" and empty: "room_is_empty next"
  shows "world_inv (drop_room rid (release_of (race_fence_of next) (drop_membership u w)))"
proof -
  note gone = remove_user_leaves [OF inv room remove]
  have "set (user_nos room) \<subseteq> {u}" using gone(3) empty by (auto simp: room_is_empty_users)
  moreover have "u \<in> set (user_nos room)" using world_invD(3) [OF inv] room by (auto simp: members_ok_def)
  ultimately have "set (user_nos room) = {u}" by blast
  from drop_room_inv [OF inv room this] gone(4) show ?thesis by (simp add: same_race_def)
qed

lemma lobby_fence: "world_inv w \<Longrightarrow> room_at w rid = Some room \<Longrightarrow> phase room = PhLobby \<Longrightarrow> race_fence_of room = None"
  by (auto simp: world_inv_def rooms_ok_def room_ok_def race_ok_def debug_assert_frozen_def split: option.splits)

lemma kick_player_keeps:
  assumes "world_inv w"
  shows "plan_keeps w (plan_kick_player identity target w)"
  unfolding plan_keeps_def
proof (intro allI impI)
  fix ds commit out g assume "plan_kick_player identity target w = Inr (ds, commit, out)"
  then obtain rid room m where r: "master_room w identity = Inr (rid, room)"
    and m: "0 \<le> target" "nat target < 8" "members_by_id room ! nat target = Some m"
    and commit: "commit = commit_kick rid (prm_user_no m) (snd (remove_user (prm_user_no m) room))"
    by (auto simp: plan_kick_player_def result_iff Let_def room_slot_count_def split: prod.splits)
  note at = master_roomD [OF r]
  let ?u = "prm_user_no m"
  obtain b "next" where remove: "remove_user ?u room = (b, next)" by (cases "remove_user ?u room")
  have "Some m \<in> set (members_by_id room)"
    using m room_layoutD(1) [OF room_coreD(1) [OF room_invD(1) [OF room_at_inv [OF assms]]]] at
    by (metis nth_mem)
  then have "?u \<in> set (user_nos room)" by (auto simp: user_nos_def room_members_set)
  then have member: "room_of w ?u = Some rid" using world_invD(3) [OF assms] at by (auto simp: members_ok_def)
  have room: "room_at w rid = Some room" using at by simp
  note gone = remove_user_leaves [OF assms room member remove]
  have fence: "race_fence_of next = None" "phase next = PhLobby"
    using lobby_fence [OF assms room] at gone(4) by (simp_all add: same_race_def)
  have "world_inv (commit_kick rid ?u next w)"
    using exit_keep_inv [OF assms room member remove] exit_drop_inv [OF assms room member remove] fence
    by (auto simp: commit_kick_def release_of_def)
  then show "world_inv (commit (w\<lparr>w_wire_gate := g\<rparr>)) \<and> w_identities (commit (w\<lparr>w_wire_gate := g\<rparr>)) = w_identities w"
    using commit remove by (auto simp: commit_kick_def)
qed

lemma relay_keeps:
  assumes "world_inv w"
  shows "plan_keeps w (plan_relay_rider_talk identity talk w)" "plan_keeps w (plan_relay_macro_chat identity chat text w)"
  using assms
  by (auto simp: plan_keeps_def plan_relay_rider_talk_def plan_relay_macro_chat_def result_iff Let_def split: prod.splits)

end
