(* ===== verification/MemberSteps.thy ===== *)
theory MemberSteps
  imports WorldSteps
begin

text \<open>
  Entering and leaving protocol rooms, the planned exits, the abort of a loading
  race and the plain rooms keep the invariant of the world.
\<close>

section \<open>A participant that was serialized\<close>

lemma wire_member_at: "i < 8 \<Longrightarrow> wire_member room i \<in> set (rs_members_by_id (slot_data room))"
  by (simp add: slot_data_def room_slot_count_def)

lemma wire_observer_at: "i < length (observers room) \<Longrightarrow> wire_observer (observers room ! i) \<in> set (rs_observers (slot_data room))"
  by (simp add: slot_data_def)

lemma add_participant_sendable:
  assumes core: "room_core room" and add: "add_participant v p room = (True, next)"
    and user: "user_no (rp_player p) = v" and sent: "serialize_gr_slot_data (slot_data next) = Inr bytes"
  shows "participant_ok v p"
proof -
  note layout = room_layoutD [OF room_coreD(1) [OF core]]
  have valid: "validate_slot_data (slot_data next) = Inr ()"
    using sent serialize_gr_slot_data_Inr_iff by metis
  show ?thesis
  proof (cases "rp_observer p")
    case True
    with add obtain i where i: "position (\<lambda>m. m = None) (observers room) = Some i"
      and obs: "observers next = (observers room)[i := Some (member_of v ((rp_player p)\<lparr>player_type := 4, team := 0\<rparr>) p)]"
      by (auto simp: add_participant_def add_observer_def Let_def split: option.splits if_splits)
    have "i < length (observers room)" using position_SomeD [OF i] by simp
    then have "wire_observer (observers next ! i) \<in> set (rs_observers (slot_data next))"
      using obs by (intro wire_observer_at) simp
    with obs \<open>i < length (observers room)\<close> valid show ?thesis
      by (fastforce simp: participant_ok_def True user validate_slot_data_Inr_iff wire_observer_def member_of_def)
  next
    case False
    with add have "add_racer v p room = (True, next)" by (simp add: add_participant_def)
    then obtain i s t seated where i: "vacant_member_id room = Some i" and seated: "seated = room\<lparr>members_by_id :=
        (members_by_id room)[i := Some (racer_seat v p room t)], slot_positions := (slot_positions room)[s := Some (of_nat i)]\<rparr>"
      and nxt: "next = (if member_by_player_id (room_master room) seated = None then seated\<lparr>room_master := int i\<rparr> else seated)"
      by (rule add_racer_cases)
    have "i < 8" using vacant_Some [OF i] by simp
    moreover have "members_by_id next ! i = Some (racer_seat v p room t)"
      using nxt seated \<open>i < 8\<close> layout(1) by (simp split: if_splits)
    ultimately have "MPlayer (prm_player (racer_seat v p room t)) \<in> set (rs_members_by_id (slot_data next))"
      using wire_member_at [of i "next"] by (simp add: wire_member_def)
    then have "player_strings_ok (prm_player (racer_seat v p room t))"
      using valid unfolding validate_slot_data_Inr_iff by blast
    then show ?thesis by (simp add: participant_ok_def False user member_of_def player_strings_ok_def)
  qed
qed

lemma prepare_participant_user [simp]:
  "user_no (rp_player (prepare_participant w identity p)) = ib_user_no identity"
  "rp_observer (prepare_participant w identity p) = rp_observer p"
  by (simp_all add: prepare_participant_def split: prod.split)

text \<open>The seated and serialized participant.\<close>

lemma entered_room:
  assumes inv: "room_inv room" and master: "room_is_empty room \<Longrightarrow> room_master room = 0"
    and add: "add_participant v p room = (True, next)" and v: "v \<notin> set (user_nos room)"
    and user: "user_no (rp_player p) = v" and sent: "serialize_gr_slot_data (slot_data next) = Inr bytes"
  shows "room_inv next" "set (user_nos next) = insert v (set (user_nos room))" "same_race room next" "\<not> room_is_empty next"
proof -
  note ok = add_participant_sendable [OF room_invD(1) [OF inv] add user sent]
  show "room_inv next" by (rule add_participant_inv [OF inv v master ok add])
  have "mset (user_nos next) = mset (v # user_nos room)"
    using add_participant_users [OF room_invD(1) [OF inv] add] by simp
  then show users: "set (user_nos next) = insert v (set (user_nos room))" by (metis list.simps(15) set_mset_mset)
  show "same_race room next" by (rule add_participant_race [OF add])
  show "\<not> room_is_empty next" using users by (auto simp: room_is_empty_users)
qed

section \<open>Creating and joining\<close>

lemma allocate_next:
  assumes "allocate_protocol_room_id w = (r, w')" "w_next_room_id w \<noteq> 0"
  shows "w_next_room_id w' \<noteq> 0"
proof -
  have "(ucast c :: u32) + 1 \<noteq> 0" for c :: u16
  proof -
    have "unat (ucast c :: u32) = unat c"
      using u16_bounds(1) [of c] by (simp add: unsigned_ucast_eq unsigned_take_bit_eq take_bit_nat_eq_self)
    then have "unat ((ucast c :: u32) + 1) = unat c + 1" using u16_bounds(1) [of c] by (simp add: unat_word_ariths)
    then show ?thesis by (metis Suc_eq_plus1 nat.distinct(1) unat_0)
  qed
  with assms show ?thesis
    by (auto simp: allocate_protocol_room_id_def Let_def split: prod.splits option.splits if_splits)
qed

lemma allocate_inv:
  assumes inv: "world_inv w" and alloc: "allocate_protocol_room_id w = (r, w')"
  shows "world_inv w'"
    and "\<exists>free next. w' = w\<lparr>w_free_protocol_room_ids := free, w_next_room_id := next\<rparr>"
proof -
  note D = world_invD [OF inv]
  have zero: "0 \<notin> w_free_protocol_room_ids w" using D(4) by (simp add: ids_ok_def)
  show ex: "\<exists>free next. w' = w\<lparr>w_free_protocol_room_ids := free, w_next_room_id := next\<rparr>"
  proof (cases r)
    case None
    have "w\<lparr>w_free_protocol_room_ids := {}\<rparr> = w\<lparr>w_free_protocol_room_ids := {}, w_next_room_id := w_next_room_id w\<rparr>" by simp
    then show ?thesis using allocate_None [OF alloc [unfolded None]] by metis
  qed (use allocate_Some [of w _ w'] alloc zero in blast)
  have "w_free_protocol_room_ids w' \<subseteq> w_free_protocol_room_ids w"
    using allocate_Some [of w _ w'] allocate_None [of w w'] alloc zero by (cases r) auto
  moreover have "w_next_room_id w' \<noteq> 0" using allocate_next [OF alloc] D(4) by (simp add: ids_ok_def)
  moreover obtain free "next" where w': "w' = w\<lparr>w_free_protocol_room_ids := free, w_next_room_id := next\<rparr>" using ex by blast
  ultimately have "ids_ok w'" using D(4) by (auto simp: ids_ok_def room_taken_def)
  moreover have "keys_ok w'" "rooms_ok w'" "members_ok w'" "lanes_ok w'" "plain_ok w'"
    using D unfolding w' keys_ok_def rooms_ok_def members_ok_def lanes_ok_def plain_ok_def by simp_all
  ultimately show "world_inv w'" by (simp add: world_inv_def)
qed

lemma release_room_id_inv:
  assumes "world_inv w" "rid \<noteq> 0" "rid \<le> 0xFFFF" "\<not> room_taken w rid"
  shows "world_inv (release_room_id rid w)"
proof -
  have "(ucast rid :: u16) \<noteq> 0" using ucast_small [OF assms(3)] assms(2) by (metis ucast_0)
  then have "ids_ok (release_room_id rid w)"
    using assms world_invD(4) [OF assms(1)] by (auto simp: ids_ok_def room_taken_def release_room_id_def ucast_small)
  then show ?thesis
    using assms(1) unfolding world_inv_def keys_ok_def rooms_ok_def members_ok_def lanes_ok_def plain_ok_def
    by (simp add: release_room_id_def)
qed

lemma new_room_ok:
  assumes "room_inv next" "same_race (room_new rid st) next" "\<not> room_is_empty next"
  shows "room_ok rid next"
  using assms
  by (simp add: room_ok_def race_ok_def settled_ok_def debug_assert_frozen_def debug_assert_progress_def debug_assert_handshake_def same_race_def
      race_progress_default_def room_slot_count_def room_new_def)

lemma open_room_inv:
  assumes inv: "world_inv w" and out: "room_of w (ib_user_no identity) = None"
  shows "world_inv (fst (open_room channel identity request participant w))"
proof -
  obtain r w1 where alloc: "allocate_protocol_room_id w = (r, w1)" by (cases "allocate_protocol_room_id w")
  note w1 = allocate_inv [OF inv alloc]
  show ?thesis
  proof (cases r)
    case None
    with alloc w1 show ?thesis by (simp add: open_room_def)
  next
    case (Some rid)
    have zero: "0 \<notin> w_free_protocol_room_ids w" using world_invD(4) [OF inv] by (simp add: ids_ok_def)
    have fresh: "rid \<noteq> 0" "rid \<le> 0xFFFF" "\<not> room_taken w1 rid" "ucast rid \<notin> w_free_protocol_room_ids w1"
      using allocate_Some [OF alloc [unfolded Some] zero] by (auto simp: room_taken_def)
    have out1: "room_of w1 (ib_user_no identity) = None" using w1(2) out by auto
    let ?st = "created_settings channel request" and ?p = "prepare_participant w1 identity participant"
    obtain b "next" where add: "add_participant (ib_user_no identity) ?p (room_new rid ?st) = (b, next)"
      by (cases "add_participant (ib_user_no identity) ?p (room_new rid ?st)")
    show ?thesis
    proof (cases "b \<and> (\<exists>bytes. serialize_gr_slot_data (slot_data next) = Inr bytes)")
      case False
      then show ?thesis
        using alloc Some add release_room_id_inv [OF w1(1) fresh(1-3)]
        by (cases b; cases "serialize_gr_slot_data (slot_data next)") (simp_all add: open_room_def)
    next
      case True
      then obtain bytes where b: b and sent: "serialize_gr_slot_data (slot_data next) = Inr bytes" by blast
      have entered: "room_inv next" "set (user_nos next) = insert (ib_user_no identity) {}"
        "same_race (room_new rid ?st) next" "\<not> room_is_empty next"
        using entered_room [OF room_new_inv _ add [unfolded eqTrueI [OF b]] _ _ sent] by simp_all
      have none: "room_at w1 rid = None" "map_of (w_rooms w1) rid = None" using fresh(3) by (simp_all add: room_taken_def)
      have "world_inv (enter_room rid (ib_user_no identity) next w1)"
      proof (rule enter_room_inv [OF w1(1) out1 new_room_ok [OF entered(1,3,4)] fresh(1,2) none(2) fresh(4)])
        show "set (user_nos next) = insert (ib_user_no identity) (case room_at w1 rid of None \<Rightarrow> {} | Some room \<Rightarrow> set (user_nos room))"
          using entered(2) none(1) by simp
        have "races_human next = races_human (room_new rid ?st)" by (rule same_race_humans [OF entered(3)])
        then show "races_human next = (case room_at w1 rid of None \<Rightarrow> \<lambda>_ _. False | Some room \<Rightarrow> races_human room)"
          by (simp add: none(1) fun_eq_iff races_human_def)
      qed
      with alloc Some add b sent show ?thesis by (simp add: open_room_def)
    qed
  qed
qed

lemma protocol_create_room_inv:
  assumes "world_inv w"
  shows "world_inv (fst (protocol_create_room session identity request participant w))"
proof (cases "accepts_creation identity request w")
  case (Some channel)
  then have "room_of w (ib_user_no identity) = None" by (auto simp: accepts_creation_def split: option.splits if_splits)
  with open_room_inv [OF assms] Some show ?thesis
    by (simp add: protocol_create_room_def Let_def split_def)
qed (use assms in \<open>simp add: protocol_create_room_def\<close>)

lemma try_join_inv:
  assumes inv: "world_inv w"
  shows "world_inv (fst (try_join identity request participant w))"
proof -
  let ?rid = "ucast (cjr_room_id request) :: u32" and ?p = "prepare_participant w identity participant" and ?u = "ib_user_no identity"
  show ?thesis
  proof (cases "\<exists>room next bytes. room_at w ?rid = Some room \<and> room_available identity room \<and> room_of w ?u = None
      \<and> add_participant ?u ?p room = (True, next) \<and> serialize_gr_slot_data (slot_data next) = Inr bytes")
    case False
    then have "fst (try_join identity request participant w) = w"
      by (auto simp: try_join_def Let_def split: option.splits prod.splits bool.splits sum.splits)
    with inv show ?thesis by simp
  next
    case True
    then obtain room "next" bytes where room: "room_at w ?rid = Some room" "room_available identity room"
      and out: "room_of w ?u = None" and add: "add_participant ?u ?p room = (True, next)"
      and sent: "serialize_gr_slot_data (slot_data next) = Inr bytes" by blast
    note D = world_invD [OF inv]
    have ok: "room_ok ?rid room" "?rid \<noteq> 0" "?rid \<le> 0xFFFF" "map_of (w_rooms w) ?rid = None"
      using D(2) room(1) unfolding rooms_ok_def by blast+
    have lobby: "phase room = PhLobby" using room(2) by (simp add: room_available_def)
    have live: "\<not> room_is_empty room" using ok(1) lobby by (simp add: room_ok_def race_ok_def)
    have absent: "?u \<notin> set (user_nos room)" using D(3) room(1) out unfolding members_ok_def by (metis option.distinct(1))
    have entered: "room_inv next" "set (user_nos next) = insert ?u (set (user_nos room))"
      "same_race room next" "\<not> room_is_empty next"
      using entered_room [OF _ _ add absent _ sent] ok(1) live by (simp_all add: room_ok_def)
    have "room_ok ?rid next"
      using ok(1) entered same_race_ok [OF entered(3), of ?rid] lobby_new_seats [OF inv room(1) lobby] by (simp add: room_ok_def same_race_def)
    moreover have "ucast ?rid \<notin> w_free_protocol_room_ids w"
    proof
      assume "ucast ?rid \<in> w_free_protocol_room_ids w"
      then have "\<not> room_taken w (ucast (ucast ?rid :: u16))" using D(4) by (simp add: ids_ok_def)
      then show False using room(1) ucast_small [OF ok(3)] by (simp add: room_taken_def)
    qed
    ultimately have "world_inv (enter_room ?rid ?u next w)"
      using enter_room_inv [OF inv out _ ok(2,3,4)] entered(2) same_race_humans [OF entered(3)] room(1) by simp
    then show ?thesis
      using inv room out add sent by (auto simp: try_join_def Let_def split: option.splits prod.splits bool.splits sum.splits)
  qed
qed

lemma protocol_join_room_inv:
  "world_inv w \<Longrightarrow> world_inv (fst (protocol_join_room session identity request participant w))"
  using try_join_inv by (simp add: protocol_join_room_def Let_def split_def)

section \<open>Leaving\<close>

lemma drop_insert_release:
  "drop_room rid (release_of f (insert_room rid room w)) = drop_room rid (release_of f w)"
  by (simp add: drop_room_def insert_room_def release_of_def release_reward_lanes_def delete_update_same split: option.split)

lemma loading_fence_eq:
  assumes "world_inv w" "room_at w rid = Some room" "same_race room next" "phase next \<in> {PhLobby, PhLoading}"
  shows "(if phase next = PhLoading then race_fence_of next else None) = race_fence_of next"
  using lobby_fence [OF assms(1,2)] assms(3,4) by (auto simp: same_race_def)

lemma remove_protocol_user_result:
  assumes inv: "world_inv w" and room: "room_of w u = Some rid" "room_at w rid = Some room"
    and remove: "remove_user u room = (b, next)"
  shows "fst (remove_protocol_user u w) = (if room_is_empty next \<and> phase next \<in> {PhLobby, PhLoading}
       then drop_room rid (release_of (race_fence_of next) (drop_membership u w))
       else insert_room rid next (drop_membership u w))"
    and "\<exists>ds. snd (remove_protocol_user u w) = Inr ds"
proof -
  note gone = remove_user_leaves [OF inv room(2,1) remove]
  obtain bytes where sent: "serialize_gr_slot_data (slot_data next) = Inr bytes"
    using slot_data_sendable [OF room_invD(1) [OF gone(2)]] by blast
  let ?drop = "room_is_empty next \<and> phase next \<in> {PhLobby, PhLoading}"
  have drop: "fst (remove_protocol_user u w) = drop_room rid (release_of (race_fence_of next) (drop_membership u w))
      \<and> snd (remove_protocol_user u w) = Inr []" if ?drop
    using that loading_fence_eq [OF inv room(2) gone(4)] drop_insert_release [of rid "race_fence_of next" "next" "drop_membership u w"]
    by (cases "race_fence_of next") (simp_all add: remove_protocol_user_def room remove Let_def release_of_def)
  have keep: "fst (remove_protocol_user u w) = insert_room rid next (drop_membership u w)
      \<and> (\<exists>ds. snd (remove_protocol_user u w) = Inr ds)" if "\<not> ?drop"
    using that sent by (auto simp: remove_protocol_user_def room remove Let_def)
  show "fst (remove_protocol_user u w) = (if ?drop then drop_room rid (release_of (race_fence_of next) (drop_membership u w))
       else insert_room rid next (drop_membership u w))"
    and "\<exists>ds. snd (remove_protocol_user u w) = Inr ds"
    by (cases ?drop; simp only: drop keep if_True if_False simp_thms; blast)
      (cases ?drop; use drop keep in blast)
qed

lemma remove_protocol_user_inv:
  assumes inv: "world_inv w"
  shows "world_inv (fst (remove_protocol_user u w))" and "\<exists>ds. snd (remove_protocol_user u w) = Inr ds"
proof -
  have "world_inv (fst (remove_protocol_user u w)) \<and> (\<exists>ds. snd (remove_protocol_user u w) = Inr ds)"
  proof (cases "room_of w u")
    case None
    with inv show ?thesis by (simp add: remove_protocol_user_def)
  next
    case (Some rid)
    then obtain room where room: "room_at w rid = Some room"
      using world_invD(3) [OF inv] by (auto simp: members_ok_def)
    obtain b "next" where remove: "remove_user u room = (b, next)" by (cases "remove_user u room")
    from remove_protocol_user_result [OF inv Some room remove]
      exit_drop_inv [OF inv room Some remove] exit_keep_inv [OF inv room Some remove]
    show ?thesis by auto
  qed
  then show "world_inv (fst (remove_protocol_user u w))" and "\<exists>ds. snd (remove_protocol_user u w) = Inr ds" by blast+
qed

lemma protocol_leave_room_inv:
  "world_inv w \<Longrightarrow> world_inv (fst (protocol_leave_room session identity w))"
  using remove_protocol_user_inv(1) [of w "ib_user_no identity"]
  by (simp add: protocol_leave_room_def Let_def split_def)

lemma room_protocol_inv:
  "world_inv w \<Longrightarrow> world_inv (fst (room_protocol u session payload w))"
  using protocol_create_room_inv protocol_join_room_inv protocol_leave_room_inv
  by (auto simp: room_protocol_def protocol_room_list_def protocol_first_state_def split: sum.split room_command_payload.split)

section \<open>Planned exits\<close>

text \<open>A planned exit that still matches its room is the removal of the user.\<close>

lemma exit_plan_cases:
  assumes plan: "plan_exit_from_snapshot u rid room w = Inr (delta, ds)" and inv: "world_inv w'"
    and lock: "lock_delta (the delta) w'"
  obtains b "next" where "remove_user u room = (b, next)" "room_at w' rid = Some room" "room_of w' u = Some rid"
    "commit_delta (the delta) w' = (if room_is_empty next \<and> phase next \<in> {PhLobby, PhLoading}
       then drop_room rid (release_of (race_fence_of next) (drop_membership u w'))
       else insert_room rid next (drop_membership u w'))"
proof -
  obtain b "next" where remove: "remove_user u room = (b, next)" by (cases "remove_user u room")
  with plan have b: b by (cases b) (simp_all add: plan_exit_from_snapshot_def)
  let ?drop = "room_is_empty next \<and> phase next \<in> {PhLobby, PhLoading}"
  let ?delta = "\<lparr>pd_user_no = u, pd_room_id = rid, pd_expected_room = room,
      pd_next_room = (if ?drop then None else Some next), pd_remove_membership = True, pd_remove_room = ?drop,
      pd_aborted_loading_fence = (if ?drop \<and> phase next = PhLoading then race_fence_of next else None)\<rparr>"
  have delta: "delta = Some ?delta"
    using plan remove b by (simp add: plan_exit_from_snapshot_def Let_def result_iff)
  with lock have at: "room_at w' rid = Some room" "room_of w' u = Some rid" by (simp_all add: lock_delta_def)
  have same: "same_race room next" by (rule remove_user_race [OF remove])
  have "commit_delta ?delta w' = (if ?drop then drop_room rid (release_of (race_fence_of next) (drop_membership u w'))
       else insert_room rid next (drop_membership u w'))"
  proof (cases ?drop)
    case True
    have "(if phase next = PhLoading then race_fence_of next else None) = race_fence_of next"
      using loading_fence_eq [OF inv at(1) same] True by blast
    then show ?thesis using True
      by (auto simp: commit_delta_def release_of_def Let_def release_reward_lanes_def drop_room_def split: option.split)
  next
    case False
    then have off: "?drop = False" by blast
    show ?thesis unfolding off by (simp add: commit_delta_def Let_def)
  qed
  then show ?thesis using that [OF remove at] delta by simp
qed

lemma commit_exit_inv:
  assumes "plan_exit_from_snapshot u rid room w = Inr (delta, ds)" "world_inv w'" "lock_delta (the delta) w'"
  shows "world_inv (commit_delta (the delta) w')"
  using assms
proof (cases rule: exit_plan_cases)
  case (1 b "next")
  then show ?thesis
    using exit_keep_inv [OF assms(2) 1(2,3,1)] exit_drop_inv [OF assms(2) 1(2,3,1)] by auto
qed

lemma endpoint_delta_inv:
  assumes inv: "world_inv w'" and room: "room_at w' rid = Some room"
    and set: "set_p2p_endpoint u address port room = (b, next)"
  shows "world_inv (insert_room rid next w')"
proof (rule change_room_inv [OF inv room])
  have new: "room_inv next \<and> user_nos next = user_nos room" by (rule set_p2p_endpoint_inv [OF room_at_inv [OF inv room] set])
  then show "room_inv next" "set (user_nos next) = set (user_nos room)" by simp_all
  show "same_race room next"
    using set by (auto simp: set_p2p_endpoint_def update_user_def same_race_def split: option.splits)
  show "no_new_seats room next"
    using set by (auto simp: set_p2p_endpoint_def update_user_def no_new_seats_def split: option.splits)
qed

lemma commit_migration_inv:
  assumes plan: "plan_protocol_migration replacement w = Inr (Some delta, ds)"
    and inv: "world_inv w'" and lock: "lock_delta delta w'"
  shows "world_inv (commit_delta delta w')"
proof -
  obtain rid room where room: "room_of w (ib_user_no replacement) = Some rid" "room_at w rid = Some room"
    using plan by (auto simp: plan_protocol_migration_def result_iff split: option.splits)
  show ?thesis
  proof (cases "ib_channel replacement = Some (set_channel (settings room))")
    case False
    with plan room have "plan_exit_from_snapshot (ib_user_no replacement) rid room w = Inr (Some delta, ds)"
      by (simp add: plan_protocol_migration_def)
    from commit_exit_inv [OF this inv] lock show ?thesis by simp
  next
    case True
    obtain address port where ep: "legacy_p2p_endpoint (ib_source_ip replacement) 0 = (address, port)"
      by (cases "legacy_p2p_endpoint (ib_source_ip replacement) 0")
    obtain b "next" where set: "set_p2p_endpoint (ib_user_no replacement) address port room = (b, next)"
      by (cases "set_p2p_endpoint (ib_user_no replacement) address port room")
    have delta: "delta = \<lparr>pd_user_no = ib_user_no replacement, pd_room_id = rid, pd_expected_room = room,
        pd_next_room = Some next, pd_remove_membership = False, pd_remove_room = False, pd_aborted_loading_fence = None\<rparr>"
      using plan room True ep set by (simp add: plan_protocol_migration_def split: if_splits)
    with lock have "room_at w' rid = Some room" by (simp add: lock_delta_def)
    from endpoint_delta_inv [OF inv this set] show ?thesis by (simp add: delta commit_delta_def)
  qed
qed

lemma commit_room_exit_inv:
  assumes "plan_protocol_room_exit u w = Inr (Some delta, ds)" "world_inv w'" "lock_delta delta w'"
  shows "world_inv (commit_delta delta w')"
proof -
  obtain rid room where "plan_exit_from_snapshot u rid room w = Inr (Some delta, ds)"
    using assms(1) by (auto simp: plan_protocol_room_exit_def result_iff split: option.splits)
  from commit_exit_inv [OF this assms(2)] assms(3) show ?thesis by simp
qed

section \<open>Aborting a loading race\<close>

text \<open>A race ends: its room is in the lobby again and its lanes are released.\<close>

lemma aborted_race_ok:
  assumes "\<not> room_is_empty (aborted_room room)"
  shows "race_ok rid (aborted_room room)" "\<not> races_human (aborted_room room) v f"
  using assms
  by (simp_all add: race_ok_def settled_ok_def debug_assert_frozen_def debug_assert_progress_def debug_assert_handshake_def
      race_progress_default_def room_slot_count_def races_human_def aborted_room_def)

lemma race_over_inv:
  assumes inv: "world_inv w" and room: "room_at w rid = Some room" and new: "room_ok rid next"
    and users: "set (user_nos next) = set (user_nos room)" and none: "\<And>v f. \<not> races_human next v f"
  shows "world_inv (insert_room rid next (release_of (race_fence_of room) w))"
proof -
  note D = world_invD [OF inv]
  let ?w = "insert_room rid next (release_of (race_fence_of room) w)"
  have at: "room_at ?w rid' = (if rid' = rid then Some next else room_at w rid')" for rid' by simp
  have "members_ok ?w"
    unfolding members_ok_def
  proof (intro allI)
    fix v rid'
    show "room_of ?w v = Some rid' \<longleftrightarrow> (\<exists>room. room_at ?w rid' = Some room \<and> v \<in> set (user_nos room))"
      using D(3) room users by (cases "rid' = rid") (simp_all add: members_ok_def at)
  qed
  moreover have "rooms_ok ?w" using D(2) room new by (auto simp: rooms_ok_def at)
  moreover have "ids_ok ?w" using D(4) room by (auto simp: ids_ok_def room_taken_def at)
  moreover have "lanes_ok ?w"
    unfolding lanes_ok_def
  proof (intro allI)
    fix v f
    show "lane_of ?w v = Some f \<longleftrightarrow> (\<exists>rid' room'. room_at ?w rid' = Some room' \<and> races_human room' v f)"
      using released_lanes [OF inv room, of v f] none [of v f] by (auto simp: at)
  qed
  moreover have "plain_ok ?w" using D(6) by (simp add: plain_ok_def)
  ultimately show ?thesis using D(1) by (simp add: world_inv_def)
qed

lemma abort_loading_room_inv:
  assumes inv: "world_inv w" and room: "room_at w rid = Some room" and loading: "phase room = PhLoading"
    and abort: "abort_loading_room rid w = Some w'"
  shows "world_inv w'"
proof -
  have ok: "room_ok rid room" using world_invD(2) [OF inv] room by (simp add: rooms_ok_def)
  have new: "room_inv (aborted_room room)" "user_nos (aborted_room room) = user_nos room"
    using aborted_room_inv [of room] ok by (simp_all add: room_ok_def)
  have live: "\<not> room_is_empty (aborted_room room)"
    using ok loading new(2) by (simp add: room_ok_def race_ok_def room_is_empty_users)
  have "room_ok rid (aborted_room room)"
    using ok new(1) aborted_race_ok(1) [OF live] by (simp add: room_ok_def) (simp add: aborted_room_def)
  then have "world_inv (insert_room rid (aborted_room room) (release_of (race_fence_of room) w))"
    using new(2) aborted_race_ok(2) [OF live] by (intro race_over_inv [OF inv room]) simp_all
  then show ?thesis
    using room abort by (cases "race_fence_of room") (auto simp: abort_loading_room_def release_of_def)
qed

end
