(* ===== verification/RaceRunInv.thy ===== *)
theory RaceRunInv
  imports MemberSteps
begin

text \<open>
  The race commands and the heartbeat keep the invariant of the world, and no
  \<open>expect\<close> of a heartbeat fails.  A step of a race changes one room and nothing of the
  identities; its effect on that room is settled first.
\<close>

section \<open>The racers of a room\<close>

lemma race_roomD:
  assumes "room_ok rid room" "frozen_race room = Some frozen"
  shows "debug_assert_frozen rid room" "debug_assert_progress room" "debug_assert_handshake room" "roster_ok room frozen"
    "finalization_ok room frozen (map_option ss_finalization (pg_settlement (race_progress_of room)))"
    "room_inv room" "phase room \<noteq> PhLobby" "race_fence_of room = Some (fr_fence frozen)"
proof -
  note ok = assms(1) [unfolded room_ok_def race_ok_def]
  show "debug_assert_frozen rid room" "debug_assert_progress room" "debug_assert_handshake room" "room_inv room"
    using ok by blast+
  show "roster_ok room frozen" "finalization_ok room frozen (map_option ss_finalization (pg_settlement (race_progress_of room)))"
    using ok assms(2) by (simp_all add: settled_ok_def)
  show "phase room \<noteq> PhLobby" "race_fence_of room = Some (fr_fence frozen)"
    using ok assms(2) by (simp_all add: debug_assert_frozen_def)
qed

lemma racer_ids_racers: "map fst (racers_of frozen) = racer_ids frozen"
  by (simp add: racers_of_def racer_ids_def comp_def)

lemma racer_ids_range:
  assumes "room_ok rid room" "frozen_race room = Some frozen" "p \<in> set (racer_ids frozen)"
  shows "0 \<le> p \<and> p < 8"
proof -
  note ok = race_roomD [OF assms(1,2)]
  have "\<forall>q\<in>set (fr_participants frozen). frozen_participant_ok (settings room) q"
    "\<forall>a\<in>set (fr_ais frozen). 0 \<le> fa_player_id a \<and> fa_player_id a < 8"
    using ok(1) assms(2) by (simp_all add: debug_assert_frozen_def)
  moreover have "\<forall>q\<in>set (fr_participants frozen). 0 \<le> fp_player_id q" using ok(4) by (simp add: roster_ok_def)
  ultimately show ?thesis using assms(3) by (auto simp: racer_ids_def frozen_participant_ok_def)
qed

lemma racer_ids_distinct:
  assumes "room_ok rid room" "frozen_race room = Some frozen"
  shows "distinct (racer_ids frozen)"
proof -
  have "distinct (frozen_player_ids frozen)"
    using race_roomD(1) [OF assms] assms(2) by (simp add: debug_assert_frozen_def)
  then show ?thesis
    by (auto simp: frozen_player_ids_def racer_ids_def distinct_map_filter image_iff)
qed

lemma racers_small:
  assumes "room_ok rid room" "frozen_race room = Some frozen"
  shows "length (racer_ids frozen) \<le> 8" "length (frozen_humans frozen) \<le> 8"
proof -
  have "set (racer_ids frozen) \<subseteq> {0..<8}" using racer_ids_range [OF assms] by auto
  then have "Finite_Set.card (set (racer_ids frozen)) \<le> Finite_Set.card {0..<8::int}" by (rule card_mono [rotated]) simp
  then show "length (racer_ids frozen) \<le> 8" using racer_ids_distinct [OF assms] by (simp add: distinct_card)
  moreover have "length (frozen_humans frozen) \<le> length (racer_ids frozen)" by (simp add: frozen_humans_def racer_ids_def)
  ultimately show "length (frozen_humans frozen) \<le> 8" by simp
qed

lemma race_rankable:
  assumes "room_ok rid room" "frozen_race room = Some frozen"
  shows "rankable room frozen"
proof -
  note ok = race_roomD [OF assms]
  have "length (racers_of frozen) = length (racer_ids frozen)" by (metis length_map racer_ids_racers)
  then have len: "length (racers_of frozen) \<le> 8" using racers_small [OF assms] by simp
  have "\<exists>p\<in>set (fr_participants frozen). \<not> fp_observer p" using ok(4) by (simp add: roster_ok_def)
  then have "racers_of frozen \<noteq> []" by (auto simp: racers_of_def filter_empty_conv)
  then have "1 \<le> length (racers_of frozen)" by (cases "racers_of frozen") simp_all
  moreover have "distinct (map fst (racers_of frozen))" using racer_ids_distinct [OF assms] by (simp add: racer_ids_racers)
  moreover have "snd r \<in> {1, 2}" if "team_mode room" "r \<in> set (racers_of frozen)" for r
  proof -
    have "\<forall>q\<in>set (fr_participants frozen). frozen_participant_ok (settings room) q"
      using ok(1) assms(2) by (simp add: debug_assert_frozen_def)
    moreover have "\<forall>a\<in>set (fr_ais frozen). fa_team a \<in> {1, 2}" using ok(4) that(1) by (simp add: roster_ok_def)
    ultimately show ?thesis using that by (auto simp: racers_of_def frozen_participant_ok_def team_mode_def)
  qed
  ultimately show ?thesis using assms(2) len by (simp add: rankable_def)
qed

lemma frozen_humans_distinct:
  assumes "room_ok rid room" "frozen_race room = Some frozen"
  shows "distinct (frozen_humans frozen)"
  using race_roomD(1) [OF assms] assms(2) by (simp add: debug_assert_frozen_def frozen_humans_def distinct_map_filter)

section \<open>Changing the race of a room\<close>

text \<open>A step of the race keeps the seats, the settings and the racers.\<close>

definition race_changed :: "protocol_room_state \<Rightarrow> protocol_room_state \<Rightarrow> bool" where
  "race_changed room room' \<longleftrightarrow> same_seats room room' \<and> room_master room' = room_master room
     \<and> room_id_of room' = room_id_of room \<and> settings room' = settings room \<and> race_fence_of room' = race_fence_of room
     \<and> frozen_race room' = frozen_race room \<and> phase room' \<noteq> PhLobby
     \<and> (phase room' = PhLoading \<longrightarrow> phase room = PhLoading)"

lemma race_changed_ok:
  assumes ok: "room_ok rid room" "frozen_race room = Some frozen" and changed: "race_changed room room'"
    and new: "debug_assert_progress room'" "debug_assert_handshake room'"
      "finalization_ok room' frozen (map_option ss_finalization (pg_settlement (race_progress_of room')))"
  shows "room_ok rid room'"
proof -
  note old = race_roomD [OF ok]
  note c = changed [unfolded race_changed_def same_seats_def]
  have "room_inv room'" using same_seats_inv [of room room'] changed old(6) by (simp add: race_changed_def)
  moreover have "debug_assert_frozen rid room'"
    using old(1,7) c ok(2) by (simp add: debug_assert_frozen_def)
  moreover have "settled_ok room'"
  proof -
    have "roster_ok room' frozen" using old(4) c by (simp add: roster_ok_def team_mode_def)
    with new(3) ok(2) c show ?thesis by (simp add: settled_ok_def)
  qed
  moreover have "phase room' \<in> {PhLobby, PhLoading} \<longrightarrow> \<not> room_is_empty room'"
    using ok(1) c by (auto simp: room_ok_def race_ok_def room_is_empty_def)
  moreover have "room_id_of room' = rid" using ok(1) c by (simp add: room_ok_def)
  ultimately show ?thesis using new by (simp add: room_ok_def race_ok_def)
qed

text \<open>
  The progress of a race, without its phase and its settlement, whose reward entries
  follow from \<open>finalization_ok\<close>.
\<close>

definition progress_ok :: "frozen_race_roster \<Rightarrow> race_progress \<Rightarrow> bool" where
  "progress_ok frozen progress \<longleftrightarrow>
     length (filter (\<lambda>f. prf_race_time f \<noteq> None) (pg_pending_fanouts progress)) \<le> room_slot_count
     \<and> (\<forall>f\<in>set (pg_pending_fanouts progress). fanout_ok progress f)
     \<and> (\<forall>(p, t)\<in>set (pg_finish_times progress). p \<in> set (racer_ids frozen))"

lemma progress_okD: "debug_assert_progress room \<Longrightarrow> frozen_race room = Some frozen \<Longrightarrow> progress_ok frozen (race_progress_of room)"
  by (simp add: debug_assert_progress_def progress_ok_def Let_def)

lemma settling_iff: "debug_assert_progress room \<Longrightarrow> pg_settlement (race_progress_of room) \<noteq> None \<longleftrightarrow> phase room = PhSettling"
  unfolding debug_assert_progress_def Let_def by blast

lemma progress_assertI:
  assumes frozen: "frozen_race room = Some frozen"
    and humans: "distinct (frozen_humans frozen)" "length (frozen_humans frozen) \<le> 8"
    and settling: "pg_settlement (race_progress_of room) \<noteq> None \<longleftrightarrow> phase room = PhSettling"
    and lobby: "phase room \<in> {PhLobby, PhLoading} \<longrightarrow> pg_finish_times (race_progress_of room) = []
      \<and> pg_pending_fanouts (race_progress_of room) = [] \<and> pg_team_gauge_bits (race_progress_of room) = [0, 0]"
    and progress: "progress_ok frozen (race_progress_of room)"
    and fin: "finalization_ok room frozen (map_option ss_finalization (pg_settlement (race_progress_of room)))"
  shows "debug_assert_progress room"
proof -
  let ?p = "race_progress_of room"
  have entries: "length rewards = length (frozen_humans frozen) \<and> length rewards \<le> room_slot_count
      \<and> distinct (map re_user_no rewards) \<and> (\<forall>r\<in>set rewards. reward_ok frozen ranks r)"
    if "pg_settlement ?p = Some s" "ss_finalization s = FinPersisting ranks rewards" for s ranks rewards
  proof -
    have e: "entries_ok room frozen ranks rewards" using fin that by (simp add: finalization_ok_def)
    then have "map re_user_no rewards = frozen_humans frozen" by (simp add: entries_ok_def)
    moreover from this have "length rewards = length (frozen_humans frozen)" by (metis length_map)
    ultimately show ?thesis using e humans by (simp add: entries_ok_def room_slot_count_def)
  qed
  have "case pg_settlement ?p of None \<Rightarrow> True | Some s \<Rightarrow> (case ss_finalization s of
      FinPersisting ranks rewards \<Rightarrow> length rewards = length (frozen_humans frozen) \<and> length rewards \<le> room_slot_count
        \<and> distinct (map re_user_no rewards) \<and> (\<forall>r\<in>set rewards. reward_ok frozen ranks r)
    | _ \<Rightarrow> True)"
  proof (cases "pg_settlement ?p")
    case (Some s)
    then show ?thesis using entries [OF Some] by (cases "ss_finalization s") simp_all
  qed simp
  then show ?thesis
    unfolding debug_assert_progress_def Let_def frozen option.case
    using lobby settling progress [unfolded progress_ok_def] by blast
qed

lemma race_changed_progress:
  assumes ok: "room_ok rid room" "frozen_race room = Some frozen" and changed: "race_changed room room'"
    and settling: "pg_settlement (race_progress_of room') \<noteq> None \<longleftrightarrow> phase room' = PhSettling"
    and loading: "phase room' = PhLoading \<Longrightarrow> race_progress_of room' = race_progress_of room"
    and progress: "progress_ok frozen (race_progress_of room')"
    and fin: "finalization_ok room' frozen (map_option ss_finalization (pg_settlement (race_progress_of room')))"
  shows "debug_assert_progress room'"
proof (rule progress_assertI [OF _ frozen_humans_distinct [OF ok] racers_small(2) [OF ok] settling _ progress fin])
  show "frozen_race room' = Some frozen" using changed ok(2) by (simp add: race_changed_def)
  show "phase room' \<in> {PhLobby, PhLoading} \<longrightarrow> pg_finish_times (race_progress_of room') = []
      \<and> pg_pending_fanouts (race_progress_of room') = [] \<and> pg_team_gauge_bits (race_progress_of room') = [0, 0]"
    using loading changed race_roomD(2) [OF ok] by (auto simp: race_changed_def debug_assert_progress_def Let_def)
qed

text \<open>The rest of the world during a step of the race in room \<open>rid\<close>.\<close>

definition race_step :: "room_id \<Rightarrow> world \<Rightarrow> world \<Rightarrow> bool" where
  "race_step rid w w' \<longleftrightarrow> world_inv w' \<and> w_identities w' = w_identities w \<and> (\<forall>r. r \<noteq> rid \<longrightarrow> room_at w' r = room_at w r)"

lemma race_step_refl: "world_inv w \<Longrightarrow> race_step rid w w"
  by (simp add: race_step_def)

lemma race_step_trans: "race_step rid w w' \<Longrightarrow> race_step rid w' w'' \<Longrightarrow> race_step rid w w''"
  by (simp add: race_step_def)

lemma race_step_inv: "race_step rid w w' \<Longrightarrow> world_inv w'"
  by (simp add: race_step_def)

lemma race_step_gate: "race_step rid w (w'\<lparr>w_wire_gate := g\<rparr>) = race_step rid w w'"
  by (simp add: race_step_def)

lemma room_at_ok: "world_inv w \<Longrightarrow> room_at w rid = Some room \<Longrightarrow> room_ok rid room"
  by (simp add: world_inv_def rooms_ok_def)

lemma race_changed_step:
  assumes inv: "world_inv w" and room: "room_at w rid = Some room" "frozen_race room = Some frozen"
    and changed: "race_changed room room'"
    and settling: "pg_settlement (race_progress_of room') \<noteq> None \<longleftrightarrow> phase room' = PhSettling"
    and loading: "phase room' = PhLoading \<Longrightarrow> race_progress_of room' = race_progress_of room"
    and progress: "progress_ok frozen (race_progress_of room')"
    and handshake: "debug_assert_handshake room'"
    and fin: "finalization_ok room' frozen (map_option ss_finalization (pg_settlement (race_progress_of room')))"
  shows "race_step rid w (insert_room rid room' w)"
proof -
  note ok = room_at_ok [OF inv room(1)]
  note c = changed [unfolded race_changed_def same_seats_def]
  have "world_inv (insert_room rid room' w)"
  proof (rule replace_room_inv [OF inv room(1)])
    show "room_ok rid room'"
      by (rule race_changed_ok [OF ok room(2) changed
          race_changed_progress [OF ok room(2) changed settling loading progress fin] handshake fin])
    show "set (user_nos room') = set (user_nos room)" using c by (simp add: user_nos_conv)
    show "races_human room' = races_human room" using c by (simp add: races_human_def fun_eq_iff)
  qed
  then show ?thesis by (simp add: race_step_def insert_room_def)
qed

lemma reserve_outbound_step:
  assumes "world_inv w" "reserve_outbound permits ds w = (w', r)"
  shows "race_step rid w w'" "w_protocol_rooms w' = w_protocol_rooms w"
  using reserve_outbound_world [OF assms(2)] assms(1) by (auto simp: race_step_def)

lemma reserve_race_outbound_step:
  assumes "world_inv w" "reserve_race_outbound permits ds w = (w', r)"
  shows "race_step rid w w'" "w_protocol_rooms w' = w_protocol_rooms w"
proof -
  obtain x y where xy: "reserve_outbound permits ds w = (x, y)" by fastforce
  with assms(2) have "w' = x"
    by (auto simp: reserve_race_outbound_def split: sum.splits lobby_error.splits)
  with reserve_outbound_step [OF assms(1) xy] show "race_step rid w w'" "w_protocol_rooms w' = w_protocol_rooms w" by simp_all
qed

lemma update_room_Some: "room_at w rid = Some room \<Longrightarrow> update_room rid f w = insert_room rid (f room) w"
  by (simp add: update_room_def)

section \<open>Loading\<close>

definition handshake_fits :: "frozen_race_roster \<Rightarrow> loading_handshake \<Rightarrow> bool" where
  "handshake_fits frozen h \<longleftrightarrow> (case h of Awaiting expected ready deadline \<Rightarrow>
       ready \<subseteq> expected \<and> expected \<subseteq> set (map (\<lambda>p. stamp_of (fp_identity p)) (fr_participants frozen))
     | _ \<Rightarrow> True)"

lemma handshake_fitsD:
  "debug_assert_handshake room \<Longrightarrow> frozen_race room = Some frozen \<Longrightarrow> handshake_fits frozen (loading_handshake_of room)"
  by (simp add: debug_assert_handshake_def handshake_fits_def split: loading_handshake.splits)

lemma handshake_step:
  assumes inv: "world_inv w" and room: "room_at w rid = Some room" "frozen_race room = Some frozen"
    and loading: "phase room = PhLoading" and h: "handshake_fits frozen h"
  shows "race_step rid w (insert_room rid (room\<lparr>loading_handshake_of := h\<rparr>) w)"
proof (rule race_changed_step [OF inv room])
  note old = race_roomD [OF room_at_ok [OF inv room(1)] room(2)]
  show "race_changed room (room\<lparr>loading_handshake_of := h\<rparr>)"
    using loading by (simp add: race_changed_def same_seats_def)
  show "progress_ok frozen (race_progress_of (room\<lparr>loading_handshake_of := h\<rparr>))" using progress_okD [OF old(2) room(2)] by simp
  show "pg_settlement (race_progress_of (room\<lparr>loading_handshake_of := h\<rparr>)) \<noteq> None \<longleftrightarrow>
      phase (room\<lparr>loading_handshake_of := h\<rparr>) = PhSettling"
    using settling_iff [OF old(2)] by simp
  show "debug_assert_handshake (room\<lparr>loading_handshake_of := h\<rparr>)"
    using h loading room(2) by (cases h) (simp_all add: debug_assert_handshake_def handshake_fits_def)
  show "finalization_ok (room\<lparr>loading_handshake_of := h\<rparr>) frozen
      (map_option ss_finalization (pg_settlement (race_progress_of (room\<lparr>loading_handshake_of := h\<rparr>))))"
    using finalization_ok_cong(1) [of "room\<lparr>loading_handshake_of := h\<rparr>" room] old(5) by (simp add: team_mode_def)
qed simp

lemma arm_loading_step:
  assumes inv: "world_inv w" and arm: "arm_loading rid identity now w = (w', r)"
  shows "race_step rid w w'"
proof (cases "w' = w")
  case True
  with inv show ?thesis by (simp add: race_step_refl)
next
  case False
  with arm obtain room frozen deadline where room: "room_at w rid = Some room" "frozen_race room = Some frozen"
    and loading: "phase room = PhLoading"
    and w': "w' = insert_room rid (room\<lparr>loading_handshake_of :=
      Awaiting (set (map (\<lambda>p. stamp_of (fp_identity p)) (fr_participants frozen))) {} deadline\<rparr>) w"
    by (auto simp: arm_loading_def Let_def split: option.splits if_splits)
  show ?thesis unfolding w' by (rule handshake_step [OF inv room loading]) (simp add: handshake_fits_def)
qed

lemma mark_loading_ready_step:
  assumes inv: "world_inv w" and mark: "mark_loading_ready c w = (b, w')"
  shows "race_step (lc_room_id c) w w'"
proof (cases "w' = w")
  case True
  with inv show ?thesis by (simp add: race_step_refl)
next
  case False
  with mark obtain room frozen expected ready deadline where
    room: "room_at w (lc_room_id c) = Some room" "frozen_race room = Some frozen" and loading: "phase room = PhLoading"
    and h: "loading_handshake_of room = Awaiting expected ready deadline" "lc_participant c \<in> expected"
    and w': "w' = insert_room (lc_room_id c) (room\<lparr>loading_handshake_of :=
        Awaiting expected (insert (lc_participant c) ready) deadline\<rparr>) w"
    by (auto simp: mark_loading_ready_def split: option.splits if_splits loading_handshake.splits)
  have "handshake_fits frozen (loading_handshake_of room)"
    using race_roomD(3) [OF room_at_ok [OF inv room(1)] room(2)] room(2) by (rule handshake_fitsD)
  then show ?thesis
    unfolding w' using h by (intro handshake_step [OF inv room loading]) (simp add: handshake_fits_def)
qed

lemma reconcile_handshake_fits:
  "handshake_fits frozen h \<Longrightarrow> handshake_fits frozen (reconcile_handshake active now h)"
  by (auto simp: reconcile_handshake_def handshake_fits_def Let_def split: loading_handshake.splits option.splits)

lemma loading_frozen:
  assumes "world_inv w" "room_at w rid = Some room" "phase room \<noteq> PhLobby"
  obtains frozen where "frozen_race room = Some frozen"
  using room_at_ok [OF assms(1,2)] assms(3)
  by (cases "frozen_race room") (auto simp: room_ok_def race_ok_def debug_assert_frozen_def)

lemma rbind_total: "\<exists>y. r = Inr y \<Longrightarrow> \<exists>z. rbind r (\<lambda>x. Inr (f x)) = Inr z"
  by auto

lemma start_awards_total:
  "\<forall>p\<in>set ps. 0 \<le> fp_player_id p \<and> fp_player_id p < 8 \<Longrightarrow> \<exists>packets. start_awards service catalog rolls tick k ps = Inr packets"
proof (induction service catalog rolls tick k ps rule: start_awards.induct)
  case (2 service catalog rolls tick k p ps)
  have "0 \<le> fp_player_id p \<and> fp_player_id p \<le> 255" using "2.prems" by simp
  then show ?case using "2.IH" "2.prems" by (auto split: option.split sum.split intro!: rbind_total)
qed simp

lemma start_batch_total:
  assumes "room_ok rid room" "frozen_race room = Some frozen"
  shows "\<exists>batch. start_batch w rolls room frozen tick = Inr batch"
proof -
  have "\<forall>p\<in>set (filter (\<lambda>p. \<not> fp_observer p) (fr_participants frozen)). 0 \<le> fp_player_id p \<and> fp_player_id p < 8"
  proof
    fix p assume "p \<in> set (filter (\<lambda>p. \<not> fp_observer p) (fr_participants frozen))"
    then have "fp_player_id p \<in> set (racer_ids frozen)" by (simp add: racer_ids_def)
    then show "0 \<le> fp_player_id p \<and> fp_player_id p < 8" by (rule racer_ids_range [OF assms])
  qed
  from start_awards_total [OF this] show ?thesis
    by (auto simp: start_batch_def split: option.split intro!: rbind_total)
qed

lemma started_room_step:
  assumes inv: "world_inv w" and room: "room_at w rid = Some room" "frozen_race room = Some frozen" and loading: "phase room = PhLoading"
  shows "race_step rid w (insert_room rid (started_room room) w)"
proof (rule race_changed_step [OF inv room])
  note old = race_roomD [OF room_at_ok [OF inv room(1)] room(2)]
  show "race_changed room (started_room room)" using loading by (simp add: race_changed_def same_seats_def started_room_def)
  show "progress_ok frozen (race_progress_of (started_room room))"
    using progress_okD [OF old(2) room(2)] by (simp add: started_room_def)
  show "pg_settlement (race_progress_of (started_room room)) \<noteq> None \<longleftrightarrow> phase (started_room room) = PhSettling"
    using settling_iff [OF old(2)] loading by (simp add: started_room_def)
  show "debug_assert_handshake (started_room room)" by (simp add: debug_assert_handshake_def started_room_def)
  show "finalization_ok (started_room room) frozen
      (map_option ss_finalization (pg_settlement (race_progress_of (started_room room))))"
    using finalization_ok_cong(1) [of "started_room room" room] old(5) by (simp add: team_mode_def started_room_def)
qed (simp add: started_room_def)

text \<open>A step of a heartbeat succeeds, and is a step of the race in that room.\<close>

definition beat_step :: "room_id \<Rightarrow> world \<Rightarrow> race_error + beat \<Rightarrow> bool" where
  "beat_step rid w result \<longleftrightarrow> (\<exists>permits w' sent. result = Inr (permits, w', sent) \<and> race_step rid w w')"

lemma beat_stepI: "race_step rid w w' \<Longrightarrow> beat_step rid w (Inr (permits, w', sent))"
  by (simp add: beat_step_def)

lemma beat_step_publish: "race_step rid w w' \<Longrightarrow> beat_step rid w (Inr (publish ds w' beat))"
  by (cases beat) (simp add: publish_def beat_step_def)

lemma try_start_step:
  assumes inv: "world_inv w" and room: "room_at w rid = Some room" and loading: "phase room = PhLoading"
  shows "beat_step rid w (try_start_scheduled_room clock items now rid (permits, w, sent))"
proof (cases "loading_handshake_of room")
  case (StartScheduled at)
  obtain frozen where frozen: "frozen_race room = Some frozen" by (rule loading_frozen [OF inv room]) (simp add: loading)
  obtain batch where batch: "start_batch w (items rid) room frozen (race_start_tick (clock PhLoading rid)) = Inr batch"
    using start_batch_total [OF room_at_ok [OF inv room] frozen] by blast
  obtain w' r where r: "reserve_outbound permits (start_deliveries w rid frozen batch) w = (w', r)" by fastforce
  note step = reserve_outbound_step [OF inv r]
  show ?thesis
  proof (cases r)
    case (Inl e)
    with step(1) show ?thesis using StartScheduled room frozen batch r inv
      by (auto simp: try_start_scheduled_room_def beat_step_def intro: race_step_refl)
  next
    case (Inr ds)
    have "room_at w' rid = Some room" using step(2) room by simp
    then have "race_step rid w' (update_room rid started_room w')"
      using started_room_step [of w' rid room frozen] race_step_inv [OF step(1)] frozen loading by (simp add: update_room_Some)
    then have "race_step rid w (update_room rid started_room w')" by (rule race_step_trans [OF step(1)])
    then show ?thesis using StartScheduled room frozen batch r inv Inr beat_step_publish
      by (auto simp: try_start_scheduled_room_def intro: beat_stepI race_step_refl)
  qed
qed (use inv room in \<open>simp_all add: try_start_scheduled_room_def beat_stepI race_step_refl\<close>)

lemma abort_loading_step:
  assumes inv: "world_inv w" and room: "room_at w rid = Some room" and loading: "phase room = PhLoading"
  shows "\<exists>w'. abort_loading_room rid w = Some w' \<and> race_step rid w w'"
proof -
  obtain w' where w': "abort_loading_room rid w = Some w'" using room by (simp add: abort_loading_room_def)
  moreover have "world_inv w'" by (rule abort_loading_room_inv [OF inv room loading w'])
  moreover have "w_identities w' = w_identities w" "\<forall>r. r \<noteq> rid \<longrightarrow> room_at w' r = room_at w r"
    using w' room by (auto simp: abort_loading_room_def split: option.splits)
  ultimately show ?thesis by (simp add: race_step_def)
qed

lemma advance_loading_room_step:
  assumes inv: "world_inv w" and room: "room_at w rid = Some room" and loading: "phase room = PhLoading"
  shows "beat_step rid w (advance_loading_room clock items now rid (permits, w, sent))"
proof -
  obtain frozen where frozen: "frozen_race room = Some frozen" by (rule loading_frozen [OF inv room]) (simp add: loading)
  obtain stamps humans where st: "active_frozen_participant_stamps w rid frozen = (stamps, humans)" by fastforce
  show ?thesis
  proof (cases "humans = 0")
    case True
    then show ?thesis using abort_loading_step [OF inv room loading] room frozen st
      by (auto simp: advance_loading_room_def ok_or_def beat_step_def)
  next
    case False
    let ?h = "reconcile_handshake stamps now (loading_handshake_of room)"
    let ?w = "insert_room rid (room\<lparr>loading_handshake_of := ?h\<rparr>) w"
    have "handshake_fits frozen (loading_handshake_of room)"
      using race_roomD(3) [OF room_at_ok [OF inv room] frozen] frozen by (rule handshake_fitsD)
    then have step: "race_step rid w ?w"
      by (intro handshake_step [OF inv room frozen loading] reconcile_handshake_fits)
    have "beat_step rid ?w (try_start_scheduled_room clock items now rid (permits, ?w, sent))"
    proof (rule try_start_step [OF race_step_inv [OF step]])
      show "room_at ?w rid = Some (room\<lparr>loading_handshake_of := ?h\<rparr>)" by simp
    qed (simp add: loading)
    then show ?thesis using False room frozen st race_step_trans [OF step]
      by (auto simp: advance_loading_room_def reconcile_loading_handshake_def beat_step_def)
  qed
qed

section \<open>Progress of a running race\<close>

lemma progress_step:
  assumes inv: "world_inv w" and room: "room_at w rid = Some room" "frozen_race room = Some frozen"
    and running: "phase room \<notin> {PhLobby, PhLoading}"
    and progress: "progress_ok frozen (f (race_progress_of room))"
    and settling: "pg_settlement (f (race_progress_of room)) \<noteq> None \<longleftrightarrow> pg_settlement (race_progress_of room) \<noteq> None"
    and fin: "finalization_ok room frozen (map_option ss_finalization (pg_settlement (f (race_progress_of room))))"
  shows "race_step rid w (insert_room rid (set_progress f room) w)"
proof (rule race_changed_step [OF inv room])
  note old = race_roomD [OF room_at_ok [OF inv room(1)] room(2)]
  show "race_changed room (set_progress f room)"
    using running by (simp add: race_changed_def same_seats_def set_progress_def)
  show "progress_ok frozen (race_progress_of (set_progress f room))" using progress by (simp add: set_progress_def)
  show "pg_settlement (race_progress_of (set_progress f room)) \<noteq> None \<longleftrightarrow> phase (set_progress f room) = PhSettling"
    using settling settling_iff [OF old(2)] by (simp add: set_progress_def)
  show "debug_assert_handshake (set_progress f room)"
    using old(3) by (simp add: set_progress_def debug_assert_handshake_def split: loading_handshake.splits)
  show "finalization_ok (set_progress f room) frozen
      (map_option ss_finalization (pg_settlement (race_progress_of (set_progress f room))))"
    using finalization_ok_cong(1) [of "set_progress f room" room] fin by (simp add: team_mode_def set_progress_def)
  show "race_progress_of (set_progress f room) = race_progress_of room" if "phase (set_progress f room) = PhLoading"
    using that running by (simp add: set_progress_def)
qed

lemma running_room:
  assumes "world_inv w" "room_at w rid = Some room" "phase room \<notin> {PhLobby, PhLoading}"
  obtains frozen where "frozen_race room = Some frozen" "progress_ok frozen (race_progress_of room)"
    "finalization_ok room frozen (map_option ss_finalization (pg_settlement (race_progress_of room)))"
proof -
  obtain frozen where f: "frozen_race room = Some frozen" using loading_frozen [OF assms(1,2)] assms(3) by blast
  note ok = race_roomD [OF room_at_ok [OF assms(1,2)] f]
  from that [OF f progress_okD [OF ok(2) f] ok(5)] show thesis .
qed

lemma flush_step:
  assumes inv: "world_inv w" and room: "room_at w rid = Some room" and running: "phase room \<notin> {PhLobby, PhLoading}"
  obtains flushed permits' w' sent' room' where
    "try_flush_pending_race_fanouts rid (permits, w, sent) = Inr (flushed, permits', w', sent')"
    "race_step rid w w'" "room_at w' rid = Some room'" "phase room' = phase room"
proof -
  obtain frozen where f: "frozen_race room = Some frozen" "progress_ok frozen (race_progress_of room)"
    "finalization_ok room frozen (map_option ss_finalization (pg_settlement (race_progress_of room)))"
    by (rule running_room [OF inv room running])
  show thesis
  proof (cases "pg_pending_fanouts (race_progress_of room) = []")
    case True
    show thesis
      by (rule that [of True permits w sent room]) (use True room inv in \<open>simp_all add: try_flush_pending_race_fanouts_def race_step_refl\<close>)
  next
    case False
    let ?ds = "fanout_deliveries w (room_id_of room) frozen (pg_pending_fanouts (race_progress_of room))"
    obtain w1 r where r: "reserve_race_outbound permits ?ds w = (w1, r)" by fastforce
    note step = reserve_race_outbound_step [OF inv r]
    have room1: "room_at w1 rid = Some room" using step(2) room by simp
    show thesis
    proof (cases r)
      case (Inl e)
      show thesis
        by (rule that [of False permits w1 sent room])
          (use False room f(1) r Inl step(1) room1 in \<open>simp_all add: try_flush_pending_race_fanouts_def\<close>)
    next
      case (Inr ds)
      have "race_step rid w1 (insert_room rid (set_progress clear_fanouts room) w1)"
        by (rule progress_step [OF race_step_inv [OF step(1)] room1 f(1) running])
          (use f in \<open>simp_all add: clear_fanouts_def progress_ok_def\<close>)
      then have "race_step rid w (insert_room rid (set_progress clear_fanouts room) w1)" by (rule race_step_trans [OF step(1)])
      with False room f(1) r Inr room1 show thesis
        by (intro that [of True "spend ds permits" "insert_room rid (set_progress clear_fanouts room) w1" "sent @ ds" "set_progress clear_fanouts room"])
          (simp_all add: try_flush_pending_race_fanouts_def publish_def update_room_Some set_progress_def)
    qed
  qed
qed

section \<open>Finishes and the settlement\<close>

lemma begin_settling_step:
  assumes inv: "world_inv w" and room: "room_at w rid = Some room" "frozen_race room = Some frozen"
    and running: "phase room = PhRunning"
    and progress: "progress_ok frozen (race_progress_of (begin_settling settlement fanout (set_progress f room)))"
    and fin: "ss_finalization settlement = AwaitingDeadline"
  shows "race_step rid w (insert_room rid (begin_settling settlement fanout (set_progress f room)) w)"
proof (rule race_changed_step [OF inv room])
  note old = race_roomD [OF room_at_ok [OF inv room(1)] room(2)]
  let ?next = "begin_settling settlement fanout (set_progress f room)"
  show "race_changed room ?next"
    by (simp add: race_changed_def same_seats_def begin_settling_def set_progress_def)
  show "progress_ok frozen (race_progress_of ?next)" by (rule progress)
  show "pg_settlement (race_progress_of ?next) \<noteq> None \<longleftrightarrow> phase ?next = PhSettling"
    by (simp add: begin_settling_def set_progress_def)
  show "debug_assert_handshake ?next"
    using old(3) running by (simp add: begin_settling_def set_progress_def debug_assert_handshake_def split: loading_handshake.splits)
  have "pg_settlement (race_progress_of room) = None" using settling_iff [OF old(2)] running by auto
  then have "economy_pending frozen" using old(5) by (simp add: finalization_ok_def)
  then show "finalization_ok ?next frozen (map_option ss_finalization (pg_settlement (race_progress_of ?next)))"
    using fin by (simp add: finalization_ok_def begin_settling_def set_progress_def)
  show "race_progress_of ?next = race_progress_of room" if "phase ?next = PhLoading"
    using that by (simp add: begin_settling_def)
qed

lemma set_progress_id: "set_progress id room = room"
  by (simp add: set_progress_def)

text \<open>While a race runs no fan-out announces a settlement.\<close>

lemma running_fanouts:
  assumes "progress_ok frozen progress" "pg_settlement progress = None" "f \<in> set (pg_pending_fanouts progress)"
  shows "prf_begin_settlement f = None"
  using assms by (cases "prf_begin_settlement f") (auto simp: progress_ok_def fanout_ok_def)

lemma reconcile_running_room_step:
  assumes inv: "world_inv w" and room: "room_at w rid = Some room" and running: "phase room = PhRunning"
  shows "beat_step rid w (reconcile_running_room clock now rid (permits, w, sent))"
proof -
  obtain frozen where f: "frozen_race room = Some frozen" "progress_ok frozen (race_progress_of room)"
    by (rule running_room [OF inv room]) (simp_all add: running)
  show ?thesis
  proof (cases "snd (active_frozen_participant_stamps w rid frozen) = 0")
    case False
    with room f(1) inv show ?thesis by (simp add: reconcile_running_room_def beat_stepI race_step_refl)
  next
    case True
    define end_tick where "end_tick = clock PhRunning rid + settlement_tick_lead"
    define s where "s = \<lparr>ss_end_tick = end_tick, ss_deadline = (case instant_checked_add now settlement_delay of None \<Rightarrow> now | Some t \<Rightarrow> t),
        ss_finalization = AwaitingDeadline\<rparr>"
    define fanout where "fanout = \<lparr>prf_race_time = None, prf_begin_settlement = Some (pending_begin end_tick None)\<rparr>"
    have none: "pg_settlement (race_progress_of room) = None"
      using settling_iff [OF race_roomD(2) [OF room_at_ok [OF inv room] f(1)]] running by auto
    have "progress_ok frozen (race_progress_of (begin_settling s fanout (set_progress id room)))"
      using f(2) running_fanouts [OF f(2) none] unfolding set_progress_id
      by (auto simp: progress_ok_def fanout_ok_def begin_settling_def set_progress_def fanout_def s_def pending_begin_def
          split: option.splits)
    then have "race_step rid w (insert_room rid (begin_settling s fanout (set_progress id room)) w)"
      by (rule begin_settling_step [OF inv room f(1) running]) (simp add: s_def)
    then show ?thesis
      using True room f(1)
      by (simp add: reconcile_running_room_def beat_stepI Let_def update_room_Some set_progress_id s_def fanout_def end_tick_def)
  qed
qed

lemma finished_fanouts_ok:
  assumes "progress_ok frozen progress" "map_of (pg_finish_times progress) player = None" "player \<in> set (racer_ids frozen)"
    and "length (filter (\<lambda>f. prf_race_time f \<noteq> None) (pg_pending_fanouts progress)) < room_slot_count"
    and begin_ok: "case begins of None \<Rightarrow> settlement = pg_settlement progress
      | Some b \<Rightarrow> pg_settlement progress = None \<and> (\<exists>s. settlement = Some s \<and> pbs_end_tick b = ss_end_tick s)"
  shows "progress_ok frozen (progress\<lparr>pg_finish_times := AList.update player t (pg_finish_times progress),
     pg_settlement := settlement, pg_pending_fanouts := pg_pending_fanouts progress
       @ [\<lparr>prf_race_time = Some \<lparr>prt_player_id = player, prt_race_time = t, prt_packet = packet\<rparr>, prf_begin_settlement = begins\<rparr>]\<rparr>)"
    (is "progress_ok frozen ?next")
proof -
  have "fanout_ok ?next f" if f: "f \<in> set (pg_pending_fanouts progress)" for f
  proof -
    have ok: "fanout_ok progress f" using assms(1) f by (simp add: progress_ok_def)
    have "case prf_race_time f of None \<Rightarrow> True
        | Some q \<Rightarrow> map_of (pg_finish_times ?next) (prt_player_id q) = Some (prt_race_time q)"
      using ok assms(2) by (auto simp: fanout_ok_def update_conv' split: option.splits)
    moreover have "case prf_begin_settlement f of None \<Rightarrow> True
        | Some b \<Rightarrow> (case settlement of None \<Rightarrow> False | Some s \<Rightarrow> pbs_end_tick b = ss_end_tick s)"
    proof (cases begins)
      case None
      then have same: "settlement = pg_settlement progress" using begin_ok by simp
      show ?thesis unfolding same using ok by (simp add: fanout_ok_def)
    next
      case (Some b)
      then have "prf_begin_settlement f = None" using running_fanouts [OF assms(1) _ f] begin_ok by simp
      then show ?thesis by simp
    qed
    moreover have "pg_settlement ?next = settlement" by simp
    ultimately show ?thesis unfolding fanout_ok_def by metis
  qed
  moreover have "fanout_ok ?next \<lparr>prf_race_time = Some \<lparr>prt_player_id = player, prt_race_time = t, prt_packet = packet\<rparr>, prf_begin_settlement = begins\<rparr>"
    using begin_ok by (auto simp: fanout_ok_def update_conv' split: option.splits)
  moreover have "\<forall>(p, t')\<in>set (AList.update player t (pg_finish_times progress)). p \<in> set (racer_ids frozen)"
  proof -
    have "fst ` set (AList.update player t (pg_finish_times progress)) = insert player (fst ` set (pg_finish_times progress))"
      by (simp add: dom_update)
    moreover have "fst ` set (pg_finish_times progress) \<subseteq> set (racer_ids frozen)"
      using assms(1) by (auto simp: progress_ok_def)
    ultimately have "fst ` set (AList.update player t (pg_finish_times progress)) \<subseteq> set (racer_ids frozen)"
      using assms(3) by simp
    then show ?thesis by force
  qed
  ultimately show ?thesis using assms(4) by (auto simp: progress_ok_def)
qed

lemma finish_room_step:
  assumes inv: "world_inv w" and room: "room_at w rid = Some room" "frozen_race room = Some frozen"
    and active: "phase room \<in> {PhRunning, PhSettling}" and racer: "player \<in> set (racer_ids frozen)"
    and first: "map_of (pg_finish_times (race_progress_of room)) player = None"
    and settlement: "new_settlement now tick room = Inr settlement"
    and space: "length (filter (\<lambda>f. prf_race_time f \<noteq> None) (pg_pending_fanouts (race_progress_of room))) < room_slot_count"
  shows "race_step rid w (insert_room rid (finish_room player t packet excluded settlement room) w)"
proof -
  obtain frozen' where f': "frozen_race room = Some frozen'" "progress_ok frozen' (race_progress_of room)"
    "finalization_ok room frozen' (map_option ss_finalization (pg_settlement (race_progress_of room)))"
    by (rule running_room [OF inv room(1)]) (use active in auto)
  then have f: "progress_ok frozen (race_progress_of room)"
    "finalization_ok room frozen (map_option ss_finalization (pg_settlement (race_progress_of room)))" using room(2) by simp_all
  have settles: "pg_settlement (race_progress_of room) \<noteq> None \<longleftrightarrow> phase room = PhSettling"
    by (rule settling_iff [OF race_roomD(2) [OF room_at_ok [OF inv room(1)] room(2)]])
  let ?finish = "\<lambda>progress. progress\<lparr>pg_finish_times := AList.update player t (pg_finish_times progress)\<rparr>"
  show ?thesis
  proof (cases "phase room = PhRunning")
    case True
    then obtain s where s: "settlement = Some s" "ss_finalization s = AwaitingDeadline"
      using settlement by (auto simp: new_settlement_def ok_or_def result_iff split: option.splits)
    let ?fanout = "\<lparr>prf_race_time = Some \<lparr>prt_player_id = player, prt_race_time = t, prt_packet = packet\<rparr>,
        prf_begin_settlement = Some (pending_begin (ss_end_tick s) excluded)\<rparr>"
    have "progress_ok frozen (race_progress_of (begin_settling s ?fanout (set_progress ?finish room)))"
      using finished_fanouts_ok [OF f(1) first racer space, where begins = "Some (pending_begin (ss_end_tick s) excluded)" and settlement = "Some s"] settles True
      by (simp add: begin_settling_def set_progress_def pending_begin_def)
    from begin_settling_step [OF inv room True this s(2)] show ?thesis
      by (simp add: finish_room_def s(1) Let_def)
  next
    case False
    then have none: "settlement = None" using settlement by (simp add: new_settlement_def)
    let ?fanout = "\<lparr>prf_race_time = Some \<lparr>prt_player_id = player, prt_race_time = t, prt_packet = packet\<rparr>,
        prf_begin_settlement = None\<rparr>"
    let ?f = "\<lambda>progress. progress\<lparr>pg_finish_times := AList.update player t (pg_finish_times progress),
        pg_pending_fanouts := pg_pending_fanouts progress @ [?fanout]\<rparr>"
    have "race_progress_of room\<lparr>pg_settlement := pg_settlement (race_progress_of room)\<rparr> = race_progress_of room" by simp
    then have "progress_ok frozen (?f (race_progress_of room))"
      using finished_fanouts_ok [OF f(1) first racer space, where begins = None and settlement = "pg_settlement (race_progress_of room)" and t = t and packet = packet] by simp
    then have "race_step rid w (insert_room rid (set_progress ?f room) w)"
      by (rule progress_step [OF inv room, rotated]) (use active f(2) in auto)
    then show ?thesis by (simp add: finish_room_def none Let_def set_progress_def)
  qed
qed

lemma finish_room_fields:
  "frozen_race (finish_room player t packet excluded settlement room) = frozen_race room"
  "phase (finish_room player t packet excluded settlement room) = (if settlement = None then phase room else PhSettling)"
  by (simp_all add: finish_room_def begin_settling_def set_progress_def Let_def split: option.split)

lemma record_finish_step:
  assumes inv: "world_inv w" and room: "room_at w rid = Some room" "frozen_race room = Some frozen"
    and active: "phase room \<in> {PhRunning, PhSettling}" and racer: "player \<in> set (racer_ids frozen)"
  shows "race_step rid w (fst (record_finish permits rid player t excluded now tick w))"
proof (cases "settlement_closed now room \<or> map_of (pg_finish_times (race_progress_of room)) player \<noteq> None
    \<or> (\<exists>e. new_settlement now tick room = Inl e) \<or> (\<exists>e. serialize_race_time player t = Inl e)
    \<or> room_slot_count \<le> length (filter (\<lambda>f. prf_race_time f \<noteq> None) (pg_pending_fanouts (race_progress_of room)))")
  case True
  then have "fst (record_finish permits rid player t excluded now tick w) = w"
    using room by (auto simp: record_finish_def split: sum.split)
  with inv show ?thesis by (simp add: race_step_refl)
next
  case False
  then obtain settlement packet where s: "new_settlement now tick room = Inr settlement" "serialize_race_time player t = Inr packet"
    by (cases "new_settlement now tick room"; cases "serialize_race_time player t") auto
  let ?room = "finish_room player t packet excluded settlement room"
  let ?w = "insert_room rid ?room w"
  have step: "race_step rid w ?w"
    using False by (intro finish_room_step [OF inv room active racer _ s(1)]) auto
  obtain flushed permits' w' sent' room' where
    flush: "try_flush_pending_race_fanouts rid (permits, ?w, []) = Inr (flushed, permits', w', sent')" "race_step rid ?w w'"
    by (rule flush_step [OF race_step_inv [OF step], of rid ?room permits "[]"]) (use active in \<open>auto simp: finish_room_fields\<close>)
  have "fst (record_finish permits rid player t excluded now tick w) = w'"
    using False s flush(1) room by (simp add: record_finish_def finish_room_fields Let_def)
  with race_step_trans [OF step flush(2)] show ?thesis by simp
qed

lemma frozen_with_identity_mem: "frozen_with_identity identity frozen = Some p \<Longrightarrow> p \<in> set (fr_participants frozen)"
  by (auto simp: frozen_with_identity_def find_Some_iff)

lemma record_human_finish_step:
  assumes inv: "world_inv w"
  shows "race_step rid w (fst (record_human_finish permits rid identity t now tick w))"
proof (cases "\<exists>room frozen p. room_at w rid = Some room \<and> phase room \<in> {PhRunning, PhSettling} \<and> frozen_race room = Some frozen
    \<and> frozen_with_identity identity frozen = Some p \<and> \<not> fp_observer p")
  case True
  then obtain room frozen p where r: "room_at w rid = Some room" "phase room \<in> {PhRunning, PhSettling}" "frozen_race room = Some frozen"
    "frozen_with_identity identity frozen = Some p" "\<not> fp_observer p" by blast
  have "fp_player_id p \<in> set (racer_ids frozen)"
    using frozen_with_identity_mem [OF r(4)] r(5) by (auto simp: racer_ids_def)
  from record_finish_step [OF inv r(1,3,2) this] r show ?thesis by (simp add: record_human_finish_def)
next
  case False
  then have "fst (record_human_finish permits rid identity t now tick w) = w"
    by (auto simp: record_human_finish_def split: option.split)
  with inv show ?thesis by (simp add: race_step_refl)
qed

lemma record_ai_finish_step:
  assumes inv: "world_inv w"
  shows "race_step rid w (fst (record_ai_finish permits rid identity request now tick w))"
proof (cases "\<exists>room frozen. room_at w rid = Some room \<and> phase room \<in> {PhRunning, PhSettling} \<and> frozen_race room = Some frozen
    \<and> frozen_with_identity identity frozen \<noteq> None \<and> list_ex (\<lambda>a. fa_player_id a = ag_player_id request) (fr_ais frozen)")
  case True
  then obtain room frozen where r: "room_at w rid = Some room" "phase room \<in> {PhRunning, PhSettling}" "frozen_race room = Some frozen"
    "frozen_with_identity identity frozen \<noteq> None" "list_ex (\<lambda>a. fa_player_id a = ag_player_id request) (fr_ais frozen)" by blast
  have "ag_player_id request \<in> set (racer_ids frozen)" using r(5) by (force simp: racer_ids_def list_ex_iff)
  from record_finish_step [OF inv r(1,3,2) this] r show ?thesis by (auto simp: record_ai_finish_def)
next
  case False
  then have "fst (record_ai_finish permits rid identity request now tick w) = w"
    by (auto simp: record_ai_finish_def split: option.split)
  with inv show ?thesis by (simp add: race_step_refl)
qed

lemma race_command_inv:
  assumes inv: "world_inv w"
  shows "world_inv (fst (race_command u permits session payload now tick w))
    \<and> w_identities (fst (race_command u permits session payload now tick w)) = w_identities w"
proof -
  have arm: "world_inv (fst (arm_loading rid identity now w)) \<and> w_identities (fst (arm_loading rid identity now w)) = w_identities w"
    for rid identity
    using arm_loading_step [OF inv, of rid identity now] by (cases "arm_loading rid identity now w") (simp add: race_step_def)
  show ?thesis
    using inv arm record_human_finish_step [OF inv] record_ai_finish_step [OF inv]
    by (auto simp: race_command_def race_step_def split_def split: sum.split option.split race_command_payload.split)
qed

end
