(* ===== verification/StartSteps.thy ===== *)
theory StartSteps
  imports WorldSteps IdentitySteps
begin

text \<open>
  Starting a race: what is frozen from the room, and that the loaded room, its
  reward lanes and its epoch keep the invariant.
\<close>

section \<open>Lists\<close>

lemma indexed_conv: "indexed xs = map (\<lambda>i. (i, the (xs ! i))) (filter (\<lambda>i. xs ! i \<noteq> None) [0..<length xs])"
proof -
  have "List.map_filter (\<lambda>i. map_option (\<lambda>x. (i, x)) (xs ! i)) is = map (\<lambda>i. (i, the (xs ! i))) (filter (\<lambda>i. xs ! i \<noteq> None) is)" for "is"
    by (induction "is") (auto simp: List.map_filter_simps)
  then show ?thesis by (simp add: indexed_def)
qed

lemma indexed_mem [simp]: "(i, x) \<in> set (indexed xs) \<longleftrightarrow> i < length xs \<and> xs ! i = Some x"
  by (auto simp: indexed_conv)

lemma distinct_fst_indexed: "distinct (map fst (indexed xs))"
  by (simp add: indexed_conv comp_def)

lemma distinct_indexed_ids: "inj f \<Longrightarrow> distinct (map (\<lambda>x. f (fst x)) (indexed xs))"
  by (simp add: indexed_conv comp_def distinct_map inj_on_def inj_def)

lemma map_snd_indexed: "map snd (indexed xs) = flatten xs"
proof -
  have "map snd (List.map_filter (\<lambda>i. map_option (\<lambda>x. (i, x)) (xs ! i)) is) = flatten (map ((!) xs) is)" for "is"
    by (induction "is") (auto simp: List.map_filter_simps split: option.split)
  from this [of "[0..<length xs]"] show ?thesis by (simp add: indexed_def map_nth)
qed

lemma map_indexed: "map (\<lambda>x. f (snd x)) (indexed xs) = map f (flatten xs)"
  using arg_cong [OF map_snd_indexed [of xs], of "map f"] by (simp add: comp_def)

lemma rtraverse_list: "rtraverse f xs = Inr ys \<Longrightarrow> list_all2 (\<lambda>x y. f x = Inr y) xs ys"
  by (induction f xs arbitrary: ys rule: rtraverse.induct) (auto simp: result_iff)

lemma rtraverse_map:
  "rtraverse f xs = Inr ys \<Longrightarrow> (\<And>x y. x \<in> set xs \<Longrightarrow> f x = Inr y \<Longrightarrow> g y = h x) \<Longrightarrow> map g ys = map h xs"
  by (induction f xs arbitrary: ys rule: rtraverse.induct) (auto simp: result_iff)

lemma rtraverse_mem: "rtraverse f xs = Inr ys \<Longrightarrow> y \<in> set ys \<Longrightarrow> \<exists>x\<in>set xs. f x = Inr y"
  by (induction f xs arbitrary: ys rule: rtraverse.induct) (auto simp: result_iff)

lemma rtraverse_all: "rtraverse f xs = Inr ys \<Longrightarrow> x \<in> set xs \<Longrightarrow> \<exists>y. f x = Inr y"
  by (induction f xs arbitrary: ys rule: rtraverse.induct) (auto simp: result_iff)

lemma map_of_fold_update:
  "map_of (fold (\<lambda>k m. AList.update k v m) ks m) k = (if k \<in> set ks then Some v else map_of m k)"
  by (induction ks arbitrary: m) auto

lemma keys_distinct_fold_update: "keys_distinct m \<Longrightarrow> keys_distinct (fold (\<lambda>k m. AList.update k v m) ks m)"
  by (induction ks arbitrary: m) simp_all

section \<open>The frozen roster\<close>

lemma active_identity_user:
  assumes "registry_inv u (w_identities w)" "active_identity w n = Some b"
  shows "ib_user_no b = n"
proof -
  obtain k a where "name_of (w_identities w) n = Some k" and a: "active_of (w_identities w) k = Some a"
    and b: "active_identity_binding a = Some b"
    using assms(2) by (auto simp: active_identity_def active_identity_by_user_no_def bind_eq_Some_conv)
  moreover from this obtain kn where "known_of (w_identities w) k = Some kn" "ki_user_no kn = n"
    using assms(1) unfolding registry_inv_def known_inv_def by blast
  moreover have "known_of (w_identities w) k = Some (ai_known a)"
    using assms(1) a unfolding registry_inv_def active_inv_def active_ok_def by blast
  ultimately show ?thesis
    by (auto simp: active_identity_binding_def identity_binding_of_def split: option.splits)
qed

text \<open>What a racer and an observer are frozen to.\<close>

lemma freeze_racer_Inr:
  assumes "registry_inv u (w_identities w)" "freeze_racer w (i, m) = Inr p"
  shows "ib_user_no (fp_identity p) = prm_user_no m" "fp_player_id p = int i" "\<not> fp_observer p"
    "fp_team p = team (prm_player m)" "fp_result p \<noteq> None" "fp_nickname p = nickname (prm_player m)"
  using assms(2) active_identity_user [OF assms(1)] by (auto simp: freeze_racer_def result_iff)

lemma freeze_observer_Inr:
  assumes "registry_inv u (w_identities w)" "freeze_observer w (i, m) = Inr p"
  shows "ib_user_no (fp_identity p) = prm_user_no m" "fp_player_id p = 8 + int i" "fp_observer p"
    "fp_team p = 0" "fp_result p = None" "fp_nickname p = nickname (prm_player m)"
  using assms(2) active_identity_user [OF assms(1)] by (auto simp: freeze_observer_def result_iff room_slot_count_def)

lemma freeze_roster:
  assumes "registry_inv u (w_identities w)" "freeze_race_roster w room fence track = Inr frozen"
  obtains racers watchers where
    "rtraverse (freeze_racer w) (indexed (members_by_id room)) = Inr racers"
    "rtraverse (freeze_observer w) (indexed (observers room)) = Inr watchers"
    "fr_fence frozen = fence" "fr_concrete_track frozen = track" "fr_participants frozen = racers @ watchers"
    "map (\<lambda>p. ib_user_no (fp_identity p)) (fr_participants frozen) = user_nos room"
    "map fp_player_id racers = map (\<lambda>x. int (fst x)) (indexed (members_by_id room))"
    "map fp_player_id watchers = map (\<lambda>x. 8 + int (fst x)) (indexed (observers room))"
    "map fa_player_id (fr_ais frozen) = map (\<lambda>x. int (fst x)) (indexed (ais_by_id room))"
    "\<forall>p\<in>set racers. \<not> fp_observer p" "\<forall>p\<in>set watchers. fp_observer p"
proof -
  from assms(2) obtain racers watchers where
    racers: "rtraverse (freeze_racer w) (indexed (members_by_id room)) = Inr racers"
    and watchers: "rtraverse (freeze_observer w) (indexed (observers room)) = Inr watchers"
    and frozen: "frozen = \<lparr>fr_fence = fence, fr_concrete_track = track, fr_participants = racers @ watchers,
          fr_ais = map (\<lambda>(i, ai). \<lparr>fa_player_id = int i, fa_team = ai_team ai, fa_kart_id = ai_kart ai\<rparr>)
            (indexed (ais_by_id room))\<rparr>"
    by (auto simp: freeze_race_roster_def result_iff)
  have "map (\<lambda>p. ib_user_no (fp_identity p)) racers = map prm_user_no (map snd (indexed (members_by_id room)))"
    using rtraverse_map [OF racers, of "\<lambda>p. ib_user_no (fp_identity p)" "\<lambda>x. prm_user_no (snd x)"]
      freeze_racer_Inr(1) [OF assms(1)] by (auto simp: comp_def)
  moreover have "map (\<lambda>p. ib_user_no (fp_identity p)) watchers = map prm_user_no (map snd (indexed (observers room)))"
    using rtraverse_map [OF watchers, of "\<lambda>p. ib_user_no (fp_identity p)" "\<lambda>x. prm_user_no (snd x)"]
      freeze_observer_Inr(1) [OF assms(1)] by (auto simp: comp_def)
  ultimately have users: "map (\<lambda>p. ib_user_no (fp_identity p)) (racers @ watchers) = user_nos room"
    by (simp add: map_snd_indexed user_nos_conv)
  have ids: "map fp_player_id racers = map (\<lambda>x. int (fst x)) (indexed (members_by_id room))"
    "map fp_player_id watchers = map (\<lambda>x. 8 + int (fst x)) (indexed (observers room))"
    using rtraverse_map [OF racers, of fp_player_id "\<lambda>x. int (fst x)"] freeze_racer_Inr(2) [OF assms(1)]
      rtraverse_map [OF watchers, of fp_player_id "\<lambda>x. 8 + int (fst x)"] freeze_observer_Inr(2) [OF assms(1)] by auto
  have kinds: "\<forall>p\<in>set racers. \<not> fp_observer p" "\<forall>p\<in>set watchers. fp_observer p"
    using rtraverse_mem [OF racers] freeze_racer_Inr(3) [OF assms(1)]
      rtraverse_mem [OF watchers] freeze_observer_Inr(3) [OF assms(1)] by fast+
  show ?thesis
    by (rule that [OF racers watchers]) (use frozen users ids kinds in \<open>auto simp: split_def\<close>)
qed

section \<open>The concrete track\<close>

definition drawing :: "(nat \<Rightarrow> nat) \<Rightarrow> bool" where
  "drawing draw \<longleftrightarrow> (\<forall>n>0. draw n < n)"

lemma available_tracks_subset: "set (available_tracks candidates used last_track) \<subseteq> set candidates"
  by (auto simp: available_tracks_def Let_def split: option.splits)

lemma available_tracks_empty [simp]: "available_tracks candidates used last_track = [] \<longleftrightarrow> candidates = []"
  by (auto simp: available_tracks_def Let_def split: option.split)

lemma candidate_tracks_set: "set (candidate_tracks tracks) = {t\<in>set tracks. \<not> is_random_track_selector t}"
  by (simp add: candidate_tracks_def)

lemma select_concrete_track_Some:
  assumes draw: "drawing draw" and sel: "select_concrete_track draw tracks room = Some (track, room')"
  shows "\<not> is_random_track_selector track \<and> (\<exists>pool used l. room' = room\<lparr>random_track_pool := pool,
      random_tracks_used := used, last_random_track := l\<rparr>)
    \<and> (if is_random_track_selector (set_track (settings room)) then track \<in> set tracks else track = set_track (settings room))"
proof (cases "is_random_track_selector (set_track (settings room))")
  case False
  with sel show ?thesis by (auto simp: select_concrete_track_def)
next
  case True
  let ?c = "candidate_tracks tracks"
  let ?same = "random_track_pool room = Some (if set_game_type (settings room) \<in> {2, 4} then 1 else 0, set_track (settings room))"
  let ?u = "usable_history ?c (if ?same then random_tracks_used room else [])"
  let ?a = "available_tracks ?c ?u (if ?same then last_random_track room else None)"
  have c: "?c \<noteq> []" using sel True by (cases "?c = []") (simp_all add: select_concrete_track_def Let_def)
  then have t: "track = ?a ! draw (length ?a)"
    and room': "\<exists>pool used l. room' = room\<lparr>random_track_pool := pool, random_tracks_used := used, last_random_track := l\<rparr>"
    using sel True unfolding select_concrete_track_def Let_def by (simp_all del: split_paired_Ex) blast
  have "draw (length ?a) < length ?a" using draw c by (simp add: drawing_def)
  then have "track \<in> set ?c" unfolding t using available_tracks_subset nth_mem by blast
  with True room' show ?thesis by (simp add: candidate_tracks_set)
qed

lemma select_start_track_Inr:
  assumes "drawing draw" "select_start_track draw room plan = Inr (track, next)"
  shows "\<not> is_random_track_selector track \<and> (\<exists>pool used l. next = room\<lparr>random_track_pool := pool,
      random_tracks_used := used, last_random_track := l\<rparr>)"
  using assms select_concrete_track_Some [OF assms(1)]
  by (auto simp: select_start_track_def result_iff Let_def)

section \<open>The committed start\<close>

definition loaded_room :: "race_fence \<Rightarrow> frozen_race_roster \<Rightarrow> protocol_room_state \<Rightarrow> protocol_room_state" where
  "loaded_room fence frozen next = next\<lparr>phase := PhLoading, race_fence_of := Some fence, frozen_race := Some frozen,
     race_progress_of := race_progress_default, loading_handshake_of := Dormant\<rparr>"

lemma commit_start_alt:
  "commit_start rid fence frozen next w = (insert_room rid (loaded_room fence frozen next) w)
     \<lparr>w_reward_lanes := fold (\<lambda>u lanes. AList.update u fence lanes) (frozen_humans frozen) (w_reward_lanes w),
      w_next_race_epoch := checked_succ (rf_race_epoch fence)\<rparr>"
  by (simp add: commit_start_def loaded_room_def)

lemma validate_start_racers_lanes:
  assumes "validate_start_racers w room requester = Inr n"
  shows "\<forall>m. Some m \<in> set (members_by_id room) \<longrightarrow> lane_of w (prm_user_no m) = None"
    and "\<exists>m. Some m \<in> set (members_by_id room)" and "n = length (flatten (members_by_id room))"
proof -
  obtain us where t: "rtraverse (check_start_racer w requester) (indexed (members_by_id room)) = Inr us"
    and n: "n = length (indexed (members_by_id room))" "indexed (members_by_id room) \<noteq> []"
    using assms by (auto simp: validate_start_racers_def Let_def result_iff split: if_splits)
  show "\<forall>m. Some m \<in> set (members_by_id room) \<longrightarrow> lane_of w (prm_user_no m) = None"
  proof (intro allI impI)
    fix m assume "Some m \<in> set (members_by_id room)"
    then obtain i where "i < length (members_by_id room)" "members_by_id room ! i = Some m" by (metis in_set_conv_nth)
    then have "(i, m) \<in> set (indexed (members_by_id room))" by simp
    then show "lane_of w (prm_user_no m) = None"
      using rtraverse_all [OF t] by (fastforce simp: check_start_racer_def split: if_splits option.splits)
  qed
  have "length (flatten (members_by_id room)) = length (indexed (members_by_id room))"
    using arg_cong [OF map_snd_indexed [of "members_by_id room"], of length] by simp
  with n show "n = length (flatten (members_by_id room))" by simp
  have "fst (hd (indexed (members_by_id room))) < length (members_by_id room) \<and>
      members_by_id room ! fst (hd (indexed (members_by_id room))) = Some (snd (hd (indexed (members_by_id room))))"
    using hd_in_set [OF n(2)] indexed_mem [of "fst (hd (indexed (members_by_id room)))"] by (metis prod.collapse)
  then show "\<exists>m. Some m \<in> set (members_by_id room)" by (metis nth_mem)
qed

lemma loaded_frozen_ok:
  assumes reg: "registry_inv u (w_identities w)" and inv: "room_inv room"
    and freeze: "freeze_race_roster w room fence track = Inr frozen"
  shows "distinct (frozen_player_ids frozen)"
    and "\<forall>p\<in>set (fr_participants frozen). frozen_participant_ok (settings room) p"
    and "\<forall>a\<in>set (fr_ais frozen). 0 \<le> fa_player_id a \<and> fa_player_id a < 8"
    and "set (frozen_humans frozen) = prm_user_no ` {m. Some m \<in> set (members_by_id room)}"
proof -
  note core = room_invD(1) [OF inv]
  note layout = room_layoutD [OF room_coreD(1) [OF core]]
  from freeze_roster [OF reg freeze] obtain racers watchers where
    fr: "rtraverse (freeze_racer w) (indexed (members_by_id room)) = Inr racers"
      "rtraverse (freeze_observer w) (indexed (observers room)) = Inr watchers"
      "fr_participants frozen = racers @ watchers"
      "map fp_player_id racers = map (\<lambda>x. int (fst x)) (indexed (members_by_id room))"
      "map fp_player_id watchers = map (\<lambda>x. 8 + int (fst x)) (indexed (observers room))"
      "map fa_player_id (fr_ais frozen) = map (\<lambda>x. int (fst x)) (indexed (ais_by_id room))"
      "\<forall>p\<in>set racers. \<not> fp_observer p" "\<forall>p\<in>set watchers. fp_observer p" by metis
  have member_id: "\<exists>i m. i < 8 \<and> members_by_id room ! i = Some m \<and> fp_player_id p = int i"
    if "p \<in> set racers" for p
    using rtraverse_mem [OF fr(1) that] freeze_racer_Inr(2) [OF reg] layout(1) by fastforce
  have observer_id: "\<exists>i. i < 8 \<and> fp_player_id p = 8 + int i" if "p \<in> set watchers" for p
    using rtraverse_mem [OF fr(2) that] freeze_observer_Inr(2) [OF reg] layout(5) by fastforce
  have ai_id: "\<exists>i a. i < 8 \<and> ais_by_id room ! i = Some a \<and> fa_player_id p = int i" if "p \<in> set (fr_ais frozen)" for p
  proof -
    have "fa_player_id p \<in> set (map (\<lambda>x. int (fst x)) (indexed (ais_by_id room)))"
      using that fr(6) by (metis image_eqI list.set_map)
    then show ?thesis using layout(2) by fastforce
  qed
  have "fp_player_id p \<noteq> fa_player_id a" if "p \<in> set racers \<union> set watchers" "a \<in> set (fr_ais frozen)" for p a
    using ai_id [OF that(2)] member_id [of p] observer_id [of p] that(1) layout(1,2,6)
    by (fastforce simp: room_exclusive_def occupied_def)
  moreover have "fp_player_id p \<noteq> fp_player_id q" if "p \<in> set racers" "q \<in> set watchers" for p q
    using member_id [OF that(1)] observer_id [OF that(2)] by auto
  moreover have "distinct (map fp_player_id racers)" "distinct (map fp_player_id watchers)" "distinct (map fa_player_id (fr_ais frozen))"
    using distinct_indexed_ids [of int "members_by_id room"] distinct_indexed_ids [of "\<lambda>i. 8 + int i" "observers room"]
      distinct_indexed_ids [of int "ais_by_id room"]
    by (simp_all add: fr(4,5,6) inj_def)
  ultimately show "distinct (frozen_player_ids frozen)"
    by (auto simp: frozen_player_ids_def fr(3))
  show "\<forall>p\<in>set (fr_participants frozen). frozen_participant_ok (settings room) p"
  proof
    fix p assume "p \<in> set (fr_participants frozen)"
    then consider "p \<in> set racers" | "p \<in> set watchers" using fr(3) by auto
    then show "frozen_participant_ok (settings room) p"
    proof cases
      case 1
      from rtraverse_mem [OF fr(1) 1] obtain i m where im: "i < 8" "members_by_id room ! i = Some m"
        "freeze_racer w (i, m) = Inr p" using layout(1) by auto
      have "i \<in> taken room" using im layout(1) by (simp add: taken_def occupied_def)
      then obtain s where "s < 8" "slot_positions room ! s = Some (of_nat i)"
        using placed_slot [OF layout(7), of i] im(1) layout(4) by auto
      then have "team (prm_player m) = slot_team room s"
        using room_coreD(3) [OF core] im(1,2) by (auto simp: room_teams_def)
      with freeze_racer_Inr [OF reg im(3)] im(1) show ?thesis
        by (auto simp: frozen_participant_ok_def slot_team_def team_mode_def)
    next
      case 2
      from rtraverse_mem [OF fr(2) 2] obtain i m where "freeze_observer w (i, m) = Inr p" by auto
      from freeze_observer_Inr [OF reg this] show ?thesis by (simp add: frozen_participant_ok_def)
    qed
  qed
  show "\<forall>a\<in>set (fr_ais frozen). 0 \<le> fa_player_id a \<and> fa_player_id a < 8" using ai_id by force
  have "filter (\<lambda>p. \<not> fp_observer p) (fr_participants frozen) = racers"
    using fr(3,7,8) by (simp add: filter_id_conv filter_empty_conv)
  then have "set (frozen_humans frozen) = (\<lambda>p. ib_user_no (fp_identity p)) ` set racers" by (simp add: frozen_humans_def)
  also have "map (\<lambda>p. ib_user_no (fp_identity p)) racers = map prm_user_no (flatten (members_by_id room))"
    using rtraverse_map [OF fr(1), of "\<lambda>p. ib_user_no (fp_identity p)" "\<lambda>x. prm_user_no (snd x)"]
      freeze_racer_Inr(1) [OF reg] by (auto simp: map_indexed)
  then have "(\<lambda>p. ib_user_no (fp_identity p)) ` set racers = prm_user_no ` set (flatten (members_by_id room))"
    by (metis list.set_map)
  finally show "set (frozen_humans frozen) = prm_user_no ` {m. Some m \<in> set (members_by_id room)}"
    by (simp add: set_flatten [symmetric])
qed

lemma freeze_racer_id: "freeze_racer w x = Inr p \<Longrightarrow> fp_player_id p = int (fst x)"
  by (cases x) (auto simp: freeze_racer_def result_iff)

lemma loaded_roster_ok:
  assumes reg: "registry_inv u (w_identities w)" and inv: "room_inv room"
    and freeze: "freeze_race_roster w room fence track = Inr frozen" and racer: "Some m \<in> set (members_by_id room)"
  shows "roster_ok room frozen" and "economy_pending frozen"
proof -
  note core = room_invD(1) [OF inv]
  note layout = room_layoutD [OF room_coreD(1) [OF core]]
  obtain racers watchers where
    fr: "rtraverse (freeze_racer w) (indexed (members_by_id room)) = Inr racers"
      "rtraverse (freeze_observer w) (indexed (observers room)) = Inr watchers"
      "fr_participants frozen = racers @ watchers"
      "fr_ais frozen = map (\<lambda>(i, ai). \<lparr>fa_player_id = int i, fa_team = ai_team ai, fa_kart_id = ai_kart ai\<rparr>) (indexed (ais_by_id room))"
    using freeze by (auto simp: freeze_race_roster_def result_iff)
  have racers: "0 \<le> fp_player_id p \<and> \<not> fp_observer p \<and> (\<forall>r. fp_result p = Some r \<longrightarrow> fh_economy r = EcoPending)"
    if "p \<in> set racers" for p
    using rtraverse_mem [OF fr(1) that] by (fastforce simp: freeze_racer_def result_iff)
  have watchers: "0 \<le> fp_player_id p \<and> fp_result p = None" if "p \<in> set watchers" for p
    using rtraverse_mem [OF fr(2) that] by (fastforce simp: freeze_observer_def result_iff)
  have ais: "ai_team ai \<in> {1, 2}" if "team_mode room" "(i, ai) \<in> set (indexed (ais_by_id room))" for i ai
  proof -
    have i: "i < 8" "ais_by_id room ! i = Some ai" using that(2) layout(2) by auto
    then have "i \<in> taken room" using layout(2) by (simp add: taken_def occupied_def)
    then obtain s where "s < 8" "slot_positions room ! s = Some (of_nat i)"
      using placed_slot [OF layout(7), of i] i(1) layout(4) by auto
    then have "ai_team ai = slot_team room s"
      using room_coreD(3) [OF core] i by (auto simp: room_teams_def)
    with that(1) show ?thesis by (simp add: slot_team_def)
  qed
  have "racers \<noteq> []"
  proof
    assume "racers = []"
    then have "map (\<lambda>x. ()) (indexed (members_by_id room)) = []"
      using rtraverse_map [OF fr(1), of "\<lambda>x. ()" "\<lambda>x. ()"] by simp
    then have "flatten (members_by_id room) = []" using map_snd_indexed [of "members_by_id room"] by simp
    with racer show False by (simp add: set_flatten [symmetric] del: set_flatten)
  qed
  then obtain p where "p \<in> set racers" by (cases racers) auto
  with racers have "\<exists>p\<in>set (fr_participants frozen). \<not> fp_observer p" unfolding fr(3) by auto
  moreover have "\<forall>p\<in>set (fr_participants frozen). 0 \<le> fp_player_id p" unfolding fr(3) using racers watchers by auto
  moreover have "\<forall>a\<in>set (fr_ais frozen). fa_team a \<in> {1, 2}" if "team_mode room"
    unfolding fr(4) using ais [OF that] by fastforce
  moreover have "\<exists>p\<in>set (fr_participants frozen). \<not> fp_observer p \<and> fp_player_id p = int i"
    if "i \<in> occupied (members_by_id room)" for i
  proof -
    have "i \<in> fst ` set (indexed (members_by_id room))" using that by (auto simp: occupied_def image_iff Bex_def)
    then have "int i \<in> (\<lambda>x. int (fst x)) ` set (indexed (members_by_id room))" by blast
    also have "\<dots> = fp_player_id ` set racers"
      using rtraverse_map [OF fr(1), of fp_player_id "\<lambda>x. int (fst x)"] freeze_racer_id
      by (metis list.set_map)
    finally show ?thesis using racers unfolding fr(3) by fastforce
  qed
  ultimately show "roster_ok room frozen" by (simp add: roster_ok_def)
  show "economy_pending frozen" using racers watchers by (auto simp: economy_pending_def fr(3))
qed

lemma loaded_room_ok:
  assumes inv: "world_inv w" "registry_inv u (w_identities w)" and draw: "drawing draw"
    and room: "room_at w rid = Some room" and racer: "Some m \<in> set (members_by_id room)"
    and sel: "select_start_track draw room plan = Inr (track, next)"
    and freeze: "freeze_race_roster w room \<lparr>rf_room_id = rid, rf_race_epoch = epoch\<rparr> track = Inr frozen"
  shows "room_ok rid (loaded_room \<lparr>rf_room_id = rid, rf_race_epoch = epoch\<rparr> frozen next)" (is "room_ok rid ?room")
    and "user_nos (loaded_room \<lparr>rf_room_id = rid, rf_race_epoch = epoch\<rparr> frozen next) = user_nos room"
proof -
  note rinv = room_at_inv [OF inv(1) room]
  obtain pool used l where sel': "\<not> is_random_track_selector track" and
    nxt: "next = room\<lparr>random_track_pool := pool, random_tracks_used := used, last_random_track := l\<rparr>"
    using select_start_track_Inr [OF draw sel] by blast
  show users: "user_nos ?room = user_nos room" by (simp add: loaded_room_def nxt user_nos_conv)
  have "room_inv ?room"
    by (rule same_seats_inv [OF _ _ rinv]) (simp_all add: same_seats_def loaded_room_def nxt)
  moreover have "room_id_of ?room = rid"
    using world_invD(2) [OF inv(1)] room by (simp add: rooms_ok_def room_ok_def loaded_room_def nxt)
  moreover have "race_ok rid ?room"
  proof -
    have frozen: "fr_fence frozen = \<lparr>rf_room_id = rid, rf_race_epoch = epoch\<rparr>" "fr_concrete_track frozen = track"
      "map (\<lambda>p. ib_user_no (fp_identity p)) (fr_participants frozen) = user_nos room"
      using freeze_roster [OF inv(2) freeze] by metis+
    have "distinct (user_nos room)"
      using room_coreD(2) [OF room_invD(1) [OF rinv]] by (simp add: room_users_def)
    with frozen have "distinct (map (\<lambda>p. ib_user_no (fp_identity p)) (fr_participants frozen))" by simp
    moreover have "settings ?room = settings room" by (simp add: loaded_room_def nxt)
    ultimately have "debug_assert_frozen rid ?room"
      using loaded_frozen_ok [OF inv(2) rinv freeze] frozen(1,2) sel'
      by (simp add: debug_assert_frozen_def loaded_room_def)
    moreover have "debug_assert_progress ?room"
      by (simp add: debug_assert_progress_def loaded_room_def race_progress_default_def room_slot_count_def)
    moreover have "debug_assert_handshake ?room" by (simp add: debug_assert_handshake_def loaded_room_def)
    moreover have "settled_ok ?room"
    proof -
      have "team_mode ?room = team_mode room" "members_by_id ?room = members_by_id room"
        by (simp_all add: team_mode_def loaded_room_def nxt)
      moreover have "frozen_race ?room = Some frozen" "pg_settlement (race_progress_of ?room) = None"
        by (simp_all add: loaded_room_def race_progress_default_def)
      ultimately show ?thesis
        using loaded_roster_ok [OF inv(2) rinv freeze racer]
        by (simp add: settled_ok_def finalization_ok_def roster_ok_def)
    qed
    moreover have "\<not> room_is_empty ?room"
      using racer by (auto simp: room_is_empty_def loaded_room_def nxt)
    ultimately show ?thesis by (simp add: race_ok_def)
  qed
  ultimately show "room_ok rid ?room" by (simp add: room_ok_def)
qed

lemma commit_start_inv:
  assumes inv: "world_inv w" and room: "room_at w rid = Some room" and lobby: "phase room = PhLobby"
    and new: "room_ok rid (loaded_room fence frozen next)" "user_nos (loaded_room fence frozen next) = user_nos room"
    and fence: "fr_fence frozen = fence"
    and free: "\<forall>v\<in>set (frozen_humans frozen). lane_of w v = None"
  shows "world_inv (commit_start rid fence frozen next w)" (is "world_inv ?w")
proof -
  note D = world_invD [OF inv]
  have "debug_assert_frozen rid room" using D(2) room by (simp add: rooms_ok_def room_ok_def race_ok_def)
  then have none: "\<not> races_human room v f" for v f
    using lobby by (auto simp: debug_assert_frozen_def races_human_def)
  have humans: "races_human (loaded_room fence frozen next) v f \<longleftrightarrow> f = fence \<and> v \<in> set (frozen_humans frozen)" for v f
    using fence by (auto simp: races_human_def loaded_room_def)
  have at: "room_at ?w = (room_at w)(rid \<mapsto> loaded_room fence frozen next)" by (simp add: commit_start_alt)
  have same: "w_protocol_room_by_user ?w = w_protocol_room_by_user w" "w_rooms ?w = w_rooms w"
    "w_free_protocol_room_ids ?w = w_free_protocol_room_ids w" "w_next_room_id ?w = w_next_room_id w"
    "w_room_by_identity ?w = w_room_by_identity w"
    "lane_of ?w v = (if v \<in> set (frozen_humans frozen) then Some fence else lane_of w v)" for v
    by (simp_all add: commit_start_alt map_of_fold_update)
  have "keys_ok ?w"
    using keys_ok_updates(1) [OF D(1), of rid "loaded_room fence frozen next"] D(1)
    by (simp add: keys_ok_def commit_start_alt keys_distinct_fold_update)
  moreover have "members_ok ?w"
    unfolding members_ok_def same(1)
  proof (intro allI)
    fix v rid'
    show "room_of w v = Some rid' \<longleftrightarrow> (\<exists>room. room_at ?w rid' = Some room \<and> v \<in> set (user_nos room))"
      using D(3) room new(2) by (cases "rid' = rid") (simp_all add: members_ok_def at)
  qed
  moreover have "rooms_ok ?w" using D(2) room new(1) by (auto simp: rooms_ok_def at same)
  moreover have "ids_ok ?w" using D(4) room by (auto simp: ids_ok_def room_taken_def at same)
  moreover have "lanes_ok ?w"
    unfolding lanes_ok_def
  proof (intro allI)
    fix v f
    have old: "lane_of w v = Some f \<longleftrightarrow> (\<exists>rid room. room_at w rid = Some room \<and> races_human room v f)"
      using D(5) by (simp add: lanes_ok_def)
    have "(\<exists>rid' room'. room_at ?w rid' = Some room' \<and> races_human room' v f)
        \<longleftrightarrow> (f = fence \<and> v \<in> set (frozen_humans frozen)) \<or> (\<exists>rid room. room_at w rid = Some room \<and> races_human room v f)"
      using none humans room by (auto simp: at split: if_splits) (metis option.inject)+
    with old free show "lane_of ?w v = Some f \<longleftrightarrow> (\<exists>rid' room'. room_at ?w rid' = Some room' \<and> races_human room' v f)"
      by (auto simp: same(6))
  qed
  moreover have "plain_ok ?w" using D(6) by (simp add: plain_ok_def same)
  ultimately show ?thesis by (simp add: world_inv_def)
qed

lemma start_room_keeps:
  assumes inv: "world_inv w" "registry_inv u (w_identities w)" and draw: "drawing draw"
  shows "plan_keeps w (plan_start_room draw identity plan w)"
  unfolding plan_keeps_def
proof (intro allI impI)
  fix ds commit out g assume p: "plan_start_room draw identity plan w = Inr (ds, commit, out)"
  obtain rid room where own: "own_room w identity = Inr (rid, room)"
    using p by (cases "own_room w identity") (auto simp: plan_start_room_def split: if_splits)
  with p obtain requester n epoch track "next" frozen where
    master: "require_lobby_master room (ib_user_no identity) = Inr requester"
    and racers: "validate_start_racers w room requester = Inr n"
    and sel: "select_start_track draw room plan = Inr (track, next)"
    and freeze: "freeze_race_roster w room \<lparr>rf_room_id = rid, rf_race_epoch = epoch\<rparr> track = Inr frozen"
    and commit: "commit = commit_start rid \<lparr>rf_room_id = rid, rf_race_epoch = epoch\<rparr> frozen next"
    by (auto simp: plan_start_room_def result_iff Let_def split: if_splits prod.splits)
  have room: "room_at w rid = Some room" using own_roomD [OF own] by simp
  have lobby: "phase room = PhLobby" using master by (simp add: require_lobby_master_Inr)
  obtain m where racer: "Some m \<in> set (members_by_id room)" using validate_start_racers_lanes(2) [OF racers] by blast
  note ok = loaded_room_ok [OF inv draw room racer sel freeze]
  have fence: "fr_fence frozen = \<lparr>rf_room_id = rid, rf_race_epoch = epoch\<rparr>"
    using freeze_roster [OF inv(2) freeze] by metis
  have "\<forall>v\<in>set (frozen_humans frozen). lane_of w v = None"
    using validate_start_racers_lanes(1) [OF racers] loaded_frozen_ok(4) [OF inv(2) room_at_inv [OF inv(1) room] freeze] by auto
  then have "world_inv (commit w)" unfolding commit by (rule commit_start_inv [OF inv(1) room lobby ok fence])
  moreover have "commit (w\<lparr>w_wire_gate := g\<rparr>) = (commit w)\<lparr>w_wire_gate := g\<rparr>"
    by (simp add: commit commit_start_def insert_room_def)
  moreover have "w_identities (commit w) = w_identities w" by (simp add: commit commit_start_def)
  ultimately show "world_inv (commit (w\<lparr>w_wire_gate := g\<rparr>)) \<and> w_identities (commit (w\<lparr>w_wire_gate := g\<rparr>)) = w_identities w"
    by simp
qed

end
