(* ===== verification/SettleInv.thy ===== *)
theory SettleInv
  imports RaceRunInv StartSteps
begin

text \<open>
  The settlement of a race keeps the invariant: freezing the ranking and the reward
  entries, the final transition back to the lobby, and the whole heartbeat, of which
  no \<open>expect\<close> fails.
\<close>

section \<open>Changing the finalization\<close>

lemma finalization_step:
  assumes inv: "world_inv w" and room: "room_at w rid = Some room" "frozen_race room = Some frozen"
    and settlement: "pg_settlement (race_progress_of room) = Some s"
    and fin: "finalization_ok room frozen (Some (f (ss_finalization s)))"
  shows "race_step rid w (insert_room rid (set_finalization f room) w)"
  unfolding set_finalization_def
proof (rule progress_step [OF inv room])
  note old = race_roomD [OF room_at_ok [OF inv room(1)] room(2)]
  show "phase room \<notin> {PhLobby, PhLoading}" using settling_iff [OF old(2)] settlement by auto
  show "progress_ok frozen ((race_progress_of room)\<lparr>pg_settlement :=
      map_option (\<lambda>s. s\<lparr>ss_finalization := f (ss_finalization s)\<rparr>) (pg_settlement (race_progress_of room))\<rparr>)"
    using progress_okD [OF old(2) room(2)] settlement
    by (auto simp: progress_ok_def fanout_ok_def split: option.splits)
qed (use settlement fin in simp_all)

lemma update_finalization_step:
  assumes "world_inv w" "room_at w rid = Some room" "frozen_race room = Some frozen"
    "pg_settlement (race_progress_of room) = Some s" "finalization_ok room frozen (Some (f (ss_finalization s)))"
  shows "race_step rid w (update_room rid (set_finalization f) w)"
  unfolding update_room_Some [OF assms(2)] by (rule finalization_step [OF assms(1-4), of f]) (rule assms(5))

lemma settlement_room:
  assumes "world_inv w" "finalization_of w rid = Some fin"
  obtains room frozen s where "room_at w rid = Some room" "frozen_race room = Some frozen" "phase room = PhSettling"
    "pg_settlement (race_progress_of room) = Some s" "ss_finalization s = fin" "finalization_ok room frozen (Some fin)"
proof -
  obtain room s where r: "room_at w rid = Some room" "pg_settlement (race_progress_of room) = Some s" "ss_finalization s = fin"
    using assms(2) by (auto simp: finalization_of_def Option.bind_eq_Some_conv)
  have ok: "room_ok rid room" by (rule room_at_ok [OF assms(1) r(1)])
  then have "debug_assert_progress room" by (simp add: room_ok_def race_ok_def)
  from settling_iff [OF this] r(2) have ph: "phase room = PhSettling" by simp
  then obtain frozen where f: "frozen_race room = Some frozen" using loading_frozen [OF assms(1) r(1)] by auto
  have "finalization_ok room frozen (Some fin)" using race_roomD(5) [OF ok f] r(2,3) by simp
  from that [OF r(1) f ph r(2,3) this] show thesis .
qed

section \<open>Freezing the rewards\<close>

lemma find_by_user:
  assumes "distinct (map (\<lambda>p. ib_user_no (fp_identity p)) ps)" "p \<in> set ps" "\<not> fp_observer p"
  shows "List.find (\<lambda>q. \<not> fp_observer q \<and> ib_user_no (fp_identity q) = ib_user_no (fp_identity p)) ps = Some p"
proof -
  let ?P = "\<lambda>q. \<not> fp_observer q \<and> ib_user_no (fp_identity q) = ib_user_no (fp_identity p)"
  have only: "q = p" if "q \<in> set ps" "?P q" for q
    using that assms by (auto simp: distinct_map inj_on_def)
  have "List.find ?P ps \<noteq> None" using assms(2,3) by (auto simp: find_None_iff)
  then obtain q where q: "List.find ?P ps = Some q" by blast
  from find_SomeD [OF this] only q show ?thesis by blast
qed

lemma frozen_users_distinct:
  "room_ok rid room \<Longrightarrow> frozen_race room = Some frozen \<Longrightarrow> distinct (map (\<lambda>p. ib_user_no (fp_identity p)) (fr_participants frozen))"
  using race_roomD(1) by (fastforce simp: debug_assert_frozen_def)

lemma find_racer:
  assumes "room_ok rid room" "frozen_race room = Some frozen" "p \<in> set (fr_participants frozen)" "\<not> fp_observer p"
  shows "List.find (\<lambda>q. \<not> fp_observer q \<and> ib_user_no (fp_identity q) = ib_user_no (fp_identity p)) (fr_participants frozen) = Some p"
  by (rule find_by_user [OF frozen_users_distinct [OF assms(1,2)] assms(3,4)])

lemma plan_reward_Inr:
  assumes "plan_reward u rolls now n ranks (i, p) = Inr r"
  shows "re_user_no r = ib_user_no (fp_identity p)" "map_of (sr_by_player_id ranks) (re_player_id r) \<noteq> None"
    "re_status r = RpQueued now 0" "re_nickname r = fp_nickname p"
  using assms by (auto simp: plan_reward_def result_iff ok_or_def split: option.splits if_splits)

lemma planned_entries_ok:
  assumes ok: "room_ok rid room" "frozen_race room = Some frozen" and pending: "economy_pending frozen"
    and plan: "plan_reward_persistence u rolls now room = Inr (ranks, rewards)"
  shows "entries_ok room frozen ranks rewards"
proof -
  let ?humans = "filter (\<lambda>p. \<not> fp_observer p) (fr_participants frozen)"
  have ranking: "settlement_ranking_of room = Inr ranks"
    and tr: "rtraverse (plan_reward u rolls now (length ?humans) ranks) (enumerate 0 ?humans) = Inr rewards"
    using plan ok(2) by (auto simp: plan_reward_persistence_def result_iff Let_def split: if_splits)
  have "map re_user_no rewards = map (\<lambda>x. ib_user_no (fp_identity (snd x))) (enumerate 0 ?humans)"
    by (rule rtraverse_map [OF tr]) (auto dest: plan_reward_Inr(1))
  also have "\<dots> = map (\<lambda>p. ib_user_no (fp_identity p)) (map snd (enumerate 0 ?humans))" by (simp only: map_map comp_def)
  also have "\<dots> = frozen_humans frozen" by (simp add: frozen_humans_def)
  finally have users: "map re_user_no rewards = frozen_humans frozen" .
  have "reward_ok frozen ranks r" if r: "r \<in> set rewards" for r
  proof -
    from rtraverse_mem [OF tr r] obtain i p where ip: "(i, p) \<in> set (enumerate 0 ?humans)"
      "plan_reward u rolls now (length ?humans) ranks (i, p) = Inr r" by auto
    then have "p \<in> set ?humans" by (metis image_eqI map_snd_enumerate set_map snd_conv)
    then have p: "p \<in> set (fr_participants frozen)" "\<not> fp_observer p" by auto
    note planned = plan_reward_Inr [OF ip(2)]
    have "Option.bind (fp_result p) (\<lambda>x. economy_applied (fh_economy x)) = None"
      using pending p(1) by (cases "fp_result p") (auto simp: economy_pending_def)
    with planned find_racer [OF ok p] show ?thesis by (simp add: reward_ok_def Let_def)
  qed
  with users ranks_ok_of_ranking [OF race_rankable [OF ok] ranking] show ?thesis by (simp add: entries_ok_def)
qed

lemma failed_participant_letter:
  assumes ok: "room_ok rid room" "frozen_race room = Some frozen" and room: "room_at w rid = Some room"
  shows "map_option snd (failed_participant w rid e)
    = Option.bind (map_option fst (failed_participant w rid e)) (\<lambda>v. map_option fp_nickname (frozen_human v room))"
proof (cases "failed_participant w rid e")
  case (Some x)
  then obtain p where p: "p \<in> set (fr_participants frozen)" "\<not> fp_observer p" and x: "x = (ib_user_no (fp_identity p), fp_nickname p)"
    using room ok(2) by (auto simp: failed_participant_def Option.bind_eq_Some_conv dest!: find_SomeD split: race_error.splits)
  with Some find_racer [OF ok p] ok(2) show ?thesis by (simp add: frozen_human_def)
qed simp

lemma begin_reward_persistence_step:
  assumes inv: "world_inv w"
  shows "race_step rid w (begin_reward_persistence u rolls now rid w)"
proof (cases "finalization_of w rid = Some AwaitingDeadline")
  case False
  then have "begin_reward_persistence u rolls now rid w = w"
    by (simp add: begin_reward_persistence_def split: option.split)
  with inv show ?thesis by (simp add: race_step_refl)
next
  case True
  then obtain room frozen s where r: "room_at w rid = Some room" "frozen_race room = Some frozen"
    "pg_settlement (race_progress_of room) = Some s" "ss_finalization s = AwaitingDeadline"
    "finalization_ok room frozen (Some AwaitingDeadline)" by (rule settlement_room [OF inv])
  have pending: "economy_pending frozen" using r(5) by (simp add: finalization_ok_def)
  have ok: "room_ok rid room" by (rule room_at_ok [OF inv r(1)])
  show ?thesis
  proof (cases "plan_reward_persistence u rolls now room")
    case (Inr x)
    obtain ranks rewards where x: "x = (ranks, rewards)" by (cases x)
    have "entries_ok room frozen ranks rewards" using planned_entries_ok [OF ok r(2) pending] Inr x by simp
    then have "race_step rid w (update_room rid (set_finalization (\<lambda>_. FinPersisting ranks rewards)) w)"
      by (intro update_finalization_step [OF inv r(1,2,3)]) (simp add: finalization_ok_def)
    with True r(1) Inr x show ?thesis by (simp add: begin_reward_persistence_def)
  next
    case (Inl e)
    let ?failed = "failed_participant w rid e"
    have "letter_ok room \<lparr>dl_ranking = None, dl_rewards = [], dl_packets = None, dl_failed_user_no = map_option fst ?failed,
        dl_failed_nickname = map_option snd ?failed, dl_reason = plan_failure_reason e\<rparr>"
    proof -
      have "plan_failure_reason e \<noteq> RewardPersistence" by (simp add: plan_failure_reason_def split: race_error.split)
      moreover have "failed_reward \<lparr>dl_ranking = None, dl_rewards = [], dl_packets = None, dl_failed_user_no = map_option fst ?failed,
          dl_failed_nickname = map_option snd ?failed, dl_reason = plan_failure_reason e\<rparr> = None"
        by (cases ?failed) (simp_all add: failed_reward_def find_reward_def)
      ultimately show ?thesis using failed_participant_letter [OF ok r(2,1), of e]
        by (cases ?failed) (simp_all add: letter_ok_def failed_nickname_of_def)
    qed
    then have "race_step rid w (update_room rid (set_finalization (retain_as_dead_letter (plan_failure_reason e)
        (map_option fst ?failed) (map_option snd ?failed))) w)"
      using pending by (intro update_finalization_step [OF inv r(1,2,3)]) (simp add: r(4) finalization_ok_def)
    with True r(1) Inl show ?thesis by (simp add: begin_reward_persistence_def Let_def)
  qed
qed

section \<open>Back to the lobby\<close>

lemma ranked_seats:
  assumes ok: "room_ok rid room" "frozen_race room = Some frozen" and ranks: "ranks_ok room frozen ranks"
    and i: "i \<in> occupied (members_by_id room)"
  shows "map_of (sr_by_player_id ranks) (int i) \<noteq> None"
proof -
  obtain p where "p \<in> set (fr_participants frozen)" "\<not> fp_observer p" "fp_player_id p = int i"
    using race_roomD(4) [OF ok] i by (auto simp: roster_ok_def)
  then have "int i \<in> fst ` set (racers_of frozen)" by (force simp: racers_of_def)
  then have "int i \<in> dom (map_of (sr_by_player_id ranks))" using ranks by (simp add: ranks_ok_def Let_def)
  then show ?thesis by blast
qed

lemma grid_ranking_users: "user_nos (apply_next_grid_ranking ranks room) = user_nos room"
  unfolding apply_next_grid_ranking_eq by (rule renumbered_users)

lemma lobby_master_users: "user_nos (snd (apply_next_lobby_master ranks room)) = user_nos room"
  by (cases rule: lobby_master_cases [of ranks room]) (simp_all add: user_nos_conv)

lemma finished_room_ok:
  assumes ok: "room_ok rid room" "frozen_race room = Some frozen" and ranks: "ranks_ok room frozen ranks"
    and live: "\<not> room_is_empty room"
  shows "room_ok rid (finished_room ranks room)" "user_nos (finished_room ranks room) = user_nos room"
    "\<not> races_human (finished_room ranks room) v f"
proof -
  let ?ranked = "apply_next_grid_ranking ranks room" and ?led = "snd (apply_next_lobby_master ranks (apply_next_grid_ranking ranks room))"
  have inv: "room_inv ?led"
    using grid_ranking_inv [OF race_roomD(6) [OF ok] ranked_seats [OF ok ranks]] by (rule lobby_master_inv)
  have users: "user_nos ?led = user_nos room" by (simp add: lobby_master_users grid_ranking_users)
  note over = aborted_room_inv [OF inv]
  show u: "user_nos (finished_room ranks room) = user_nos room" by (simp add: finished_room_def over(2) users)
  have live': "\<not> room_is_empty (finished_room ranks room)" using live u by (simp add: room_is_empty_users)
  note race = aborted_race_ok [OF live' [unfolded finished_room_def]]
  have "room_id_of (finished_room ranks room) = room_id_of room"
    by (simp add: finished_room_def aborted_room_def apply_next_lobby_master_def apply_next_grid_ranking_def split: list.split)
  with ok(1) over(1) race(1) [of rid] show "room_ok rid (finished_room ranks room)"
    by (simp add: room_ok_def finished_room_def [symmetric])
  show "\<not> races_human (finished_room ranks room) v f" using race(2) by (simp add: finished_room_def)
qed

lemma drop_empty_inv:
  assumes inv: "world_inv w" and old: "room_at w rid = Some room" and empty: "user_nos room = []"
  shows "world_inv (drop_room rid (release_of (race_fence_of room) w))"
proof -
  note D = world_invD [OF inv]
  let ?w = "drop_room rid (release_of (race_fence_of room) w)"
  have at: "room_at ?w rid' = (if rid' = rid then None else room_at w rid')" for rid' by simp
  have id: "rid \<noteq> 0" "rid \<le> 0xFFFF" "map_of (w_rooms w) rid = None"
    using D(2) old by (auto simp: rooms_ok_def)
  have "members_ok ?w"
    unfolding members_ok_def
  proof (intro allI)
    fix v rid'
    show "room_of ?w v = Some rid' \<longleftrightarrow> (\<exists>room. room_at ?w rid' = Some room \<and> v \<in> set (user_nos room))"
      using D(3) old empty by (cases "rid' = rid") (simp_all add: members_ok_def at)
  qed
  moreover have "rooms_ok ?w" using D(2) by (auto simp: rooms_ok_def at)
  moreover have "ids_ok ?w"
  proof -
    have "(ucast rid :: u16) \<noteq> 0" using ucast_small [OF id(2)] id(1) by (metis ucast_0)
    then show ?thesis using D(4) id by (auto simp: ids_ok_def room_taken_def at ucast_small)
  qed
  moreover have "lanes_ok ?w"
    unfolding lanes_ok_def
  proof (intro allI)
    fix v f
    show "lane_of ?w v = Some f \<longleftrightarrow> (\<exists>rid' room'. room_at ?w rid' = Some room' \<and> races_human room' v f)"
      using released_lanes [OF inv old, of v f] by (auto simp: at)
  qed
  moreover have "plain_ok ?w" using D(6) by (simp add: plain_ok_def)
  ultimately show ?thesis using D(1) by (simp add: world_inv_def)
qed

lemma close_race_eq:
  assumes "room_at w rid = Some room"
  shows "close_race rid ranks w = (if room_is_empty room then drop_room rid (release_of (race_fence_of room) w)
     else insert_room rid (finished_room ranks room) (release_of (race_fence_of room) w))"
  using assms by (simp add: close_race_def release_of_def split: option.split)

lemma close_race_step:
  assumes inv: "world_inv w" and room: "room_at w rid = Some room" "frozen_race room = Some frozen"
    and ranks: "ranks_ok room frozen ranks"
  shows "race_step rid w (close_race rid ranks w)"
proof -
  have "world_inv (close_race rid ranks w)"
  proof (cases "room_is_empty room")
    case True
    then show ?thesis using drop_empty_inv [OF inv room(1)] by (simp add: close_race_eq [OF room(1)] room_is_empty_users)
  next
    case False
    note new = finished_room_ok [OF room_at_ok [OF inv room(1)] room(2) ranks False]
    have "world_inv (insert_room rid (finished_room ranks room) (release_of (race_fence_of room) w))"
      by (rule race_over_inv [OF inv room(1) new(1)]) (simp_all add: new(2,3))
    with False show ?thesis by (simp add: close_race_eq [OF room(1)])
  qed
  moreover have "w_identities (close_race rid ranks w) = w_identities w"
    by (simp add: close_race_eq [OF room(1)] release_of_def insert_room_def drop_room_def release_reward_lanes_def split: option.split)
  moreover have "\<forall>r. r \<noteq> rid \<longrightarrow> room_at (close_race rid ranks w) r = room_at w r"
    by (simp add: close_race_eq [OF room(1)])
  ultimately show ?thesis by (simp add: race_step_def)
qed

lemma finalization_of_cong: "w_protocol_rooms w' = w_protocol_rooms w \<Longrightarrow> finalization_of w' rid = finalization_of w rid"
  by (simp add: finalization_of_def)

lemma reservation_failed_ok:
  assumes "finalization_ok room frozen (Some (FinReady ranks rewards packets))"
  shows "finalization_ok room frozen (Some (retain_as_dead_letter OutboundReservation None None (FinReady ranks rewards packets)))"
  using assms by (simp add: finalization_ok_def letter_ok_def failed_nickname_of_def failed_reward_def)

lemma try_finalize_step:
  assumes inv: "world_inv w" and room: "room_at w rid = Some room" and running: "phase room \<notin> {PhLobby, PhLoading}"
  shows "beat_step rid w (try_finalize_settlement rid (permits, w, sent))"
proof -
  obtain flushed permits1 w1 sent1 room1 where
    flush: "try_flush_pending_race_fanouts rid (permits, w, sent) = Inr (flushed, permits1, w1, sent1)" "race_step rid w w1"
    by (rule flush_step [OF inv room running])
  note inv1 = race_step_inv [OF flush(2)]
  show ?thesis
  proof (cases "flushed \<and> (\<exists>ranks rewards packets. finalization_of w1 rid = Some (FinReady ranks rewards packets))")
    case False
    then have "try_finalize_settlement rid (permits, w, sent) = Inr (permits1, w1, sent1)"
      using flush(1) by (auto simp: try_finalize_settlement_def split: option.split settlement_finalization.split)
    with flush(2) show ?thesis by (simp add: beat_stepI)
  next
    case True
    then obtain ranks rewards packets where fin: "finalization_of w1 rid = Some (FinReady ranks rewards packets)" by blast
    obtain room1 frozen s where r: "room_at w1 rid = Some room1" "frozen_race room1 = Some frozen"
      "pg_settlement (race_progress_of room1) = Some s" "ss_finalization s = FinReady ranks rewards packets"
      "finalization_ok room1 frozen (Some (FinReady ranks rewards packets))" by (rule settlement_room [OF inv1 fin])
    obtain w2 res where res: "reserve_race_outbound permits1 (result_deliveries w1 rid frozen packets) w1 = (w2, res)" by fastforce
    note step2 = reserve_race_outbound_step [OF inv1 res]
    note inv2 = race_step_inv [OF step2(1) [of rid]]
    have room2: "room_at w2 rid = Some room1" using step2(2) r(1) by simp
    have w2: "race_step rid w w2" by (rule race_step_trans [OF flush(2) step2(1)])
    have closed: "race_step rid w (close_race rid ranks w2)"
      using r(5) by (intro race_step_trans [OF w2] close_race_step [OF inv2 room2 r(2)]) (simp add: finalization_ok_def entries_ok_def)
    have failed: "race_step rid w (update_room rid (set_finalization (retain_as_dead_letter OutboundReservation None None)) w2)"
      by (rule race_step_trans [OF w2 update_finalization_step [OF inv2 room2 r(2,3)]])
        (use reservation_failed_ok [OF r(5)] r(4) in simp)
    show ?thesis
      using flush(1) True fin r(1,2) res w2 closed failed beat_step_publish [OF closed]
      by (cases res) (auto simp: try_finalize_settlement_def intro: beat_stepI split: race_error.split)
  qed
qed

section \<open>The heartbeat\<close>

lemma advance_race_room_step:
  assumes inv: "world_inv w" and room: "room_at w rid = Some room" and running: "phase room \<notin> {PhLobby, PhLoading}"
  shows "beat_step rid w (advance_race_room u rewards now rid (permits, w, sent))"
proof (cases "deadline_reached now rid w")
  case True
  let ?w = "begin_reward_persistence u (rewards rid) now rid w"
  have step: "race_step rid w ?w" by (rule begin_reward_persistence_step [OF inv])
  have "\<exists>room'. room_at ?w rid = Some room' \<and> phase room' = phase room"
    using room by (simp add: begin_reward_persistence_def update_room_Some set_finalization_def set_progress_def Let_def split: sum.split prod.split)
  then obtain room' where room': "room_at ?w rid = Some room'" "phase room' = phase room" by blast
  have "beat_step rid ?w (try_finalize_settlement rid (permits, ?w, sent))"
    by (rule try_finalize_step [OF race_step_inv [OF step] room'(1)]) (use running room'(2) in simp)
  with True race_step_trans [OF step] show ?thesis by (auto simp: advance_race_room_def beat_step_def)
next
  case False
  obtain flushed permits1 w1 sent1 room1 where
    "try_flush_pending_race_fanouts rid (permits, w, sent) = Inr (flushed, permits1, w1, sent1)" "race_step rid w w1"
    by (rule flush_step [OF inv room running])
  with False show ?thesis by (simp add: advance_race_room_def beat_stepI)
qed

text \<open>A loop over different rooms, each still as the list was made, reaches its end.\<close>

lemma visit_total:
  assumes steps: "\<And>rid permits w sent room. world_inv w \<Longrightarrow> room_at w rid = Some room \<Longrightarrow> phase room \<in> phases \<Longrightarrow>
      beat_step rid w (step rid (permits, w, sent))"
    and inv: "world_inv w" and distinct: "distinct rids"
    and listed: "\<And>rid. rid \<in> set rids \<Longrightarrow> \<exists>room. room_at w rid = Some room \<and> phase room \<in> phases"
  shows "\<exists>permits' w' sent'. visit step rids (permits, w, sent) = Inr (permits', w', sent')
    \<and> world_inv w' \<and> w_identities w' = w_identities w"
  using inv distinct listed
proof (induction rids arbitrary: permits w sent)
  case (Cons rid rids)
  obtain room where "room_at w rid = Some room" "phase room \<in> phases" using Cons.prems(3) [of rid] by auto
  then have "beat_step rid w (step rid (permits, w, sent))" by (rule steps [OF Cons.prems(1)])
  then obtain permits1 w1 sent1 where step: "step rid (permits, w, sent) = Inr (permits1, w1, sent1)" "race_step rid w w1"
    unfolding beat_step_def by blast
  have "\<exists>room. room_at w1 r = Some room \<and> phase room \<in> phases" if "r \<in> set rids" for r
    using Cons.prems(2) Cons.prems(3) [of r] that step(2) by (auto simp: race_step_def)
  then obtain permits' w' sent' where rest: "visit step rids (permits1, w1, sent1) = Inr (permits', w', sent')"
    "world_inv w'" "w_identities w' = w_identities w1"
    using Cons.IH [of w1 permits1 sent1] step(2) Cons.prems(2) by (auto simp: race_step_def)
  with step show ?case by (simp add: race_step_def)
qed simp

lemma rooms_in_listed:
  assumes "world_inv w"
  shows "distinct (rooms_in phases w)"
    "rid \<in> set (rooms_in phases w) \<Longrightarrow> \<exists>room. room_at w rid = Some room \<and> phase room \<in> phases"
proof -
  have keys: "distinct (map fst (w_protocol_rooms w))" using world_invD(1) [OF assms] by (simp add: keys_ok_def)
  then show "distinct (rooms_in phases w)" by (simp add: rooms_in_def distinct_map_filter)
  show "\<exists>room. room_at w rid = Some room \<and> phase room \<in> phases" if rid: "rid \<in> set (rooms_in phases w)"
  proof -
    from rid obtain room where "(rid, room) \<in> set (w_protocol_rooms w)" "phase room \<in> phases" by (auto simp: rooms_in_def)
    with keys show ?thesis by auto
  qed
qed

lemma visit_rooms:
  assumes "\<forall>rid permits w sent room. world_inv w \<longrightarrow> room_at w rid = Some room \<longrightarrow> phase room \<in> phases \<longrightarrow>
      beat_step rid w (step rid (permits, w, sent))" and inv: "world_inv w"
  shows "\<exists>permits' w' sent'. visit step (rooms_in phases w) (permits, w, sent) = Inr (permits', w', sent')
    \<and> world_inv w' \<and> w_identities w' = w_identities w"
proof (rule visit_total [OF _ inv])
  show "beat_step rid v (step rid (q, v, out))"
    if "world_inv v" "room_at v rid = Some room" "phase room \<in> phases" for rid q v out room
    using assms(1) that by blast
  show "distinct (rooms_in phases w)" by (rule rooms_in_listed(1) [OF inv])
  show "\<exists>room. room_at w rid = Some room \<and> phase room \<in> phases" if "rid \<in> set (rooms_in phases w)" for rid
    by (rule rooms_in_listed(2) [OF inv that])
qed

lemma advance_loading_total:
  assumes inv: "world_inv w"
  shows "\<exists>permits' w' sent. advance_loading u clock items rewards now permits w = Inr (permits', w', sent)
    \<and> world_inv w' \<and> w_identities w' = w_identities w"
proof (cases "w_quiescing w")
  case True
  with inv show ?thesis by (simp add: advance_loading_def)
next
  case False
  have "\<exists>p w' s. visit (advance_loading_room clock items now) (rooms_in {PhLoading} w) (permits, w, []) = Inr (p, w', s)
      \<and> world_inv w' \<and> w_identities w' = w_identities w"
    by (rule visit_rooms [OF _ inv]) (use advance_loading_room_step in blast)
  then obtain p1 w1 s1 where 1: "visit (advance_loading_room clock items now) (rooms_in {PhLoading} w) (permits, w, []) = Inr (p1, w1, s1)"
    "world_inv w1" "w_identities w1 = w_identities w" by blast
  have "\<exists>p w' s. visit (reconcile_running_room clock now) (rooms_in {PhRunning} w1) (p1, w1, s1) = Inr (p, w', s)
      \<and> world_inv w' \<and> w_identities w' = w_identities w1"
    by (rule visit_rooms [OF _ 1(2)]) (use reconcile_running_room_step in blast)
  then obtain p2 w2 s2 where 2: "visit (reconcile_running_room clock now) (rooms_in {PhRunning} w1) (p1, w1, s1) = Inr (p2, w2, s2)"
    "world_inv w2" "w_identities w2 = w_identities w1" by blast
  have "x \<notin> {PhLobby, PhLoading}" if "x \<in> {PhRunning, PhSettling}" for x using that by auto
  note active = this
  have "\<exists>p w' s. visit (advance_race_room u rewards now) (rooms_in {PhRunning, PhSettling} w2) (p2, w2, s2) = Inr (p, w', s)
      \<and> world_inv w' \<and> w_identities w' = w_identities w2"
    by (rule visit_rooms [OF _ 2(2)]) (use advance_race_room_step active in blast)
  then obtain p3 w3 s3 where 3: "visit (advance_race_room u rewards now) (rooms_in {PhRunning, PhSettling} w2) (p2, w2, s2) = Inr (p3, w3, s3)"
    "world_inv w3" "w_identities w3 = w_identities w2" by blast
  show ?thesis using False 1 2 3 by (simp add: advance_loading_def)
qed

end
