(* ===== verification/RewardInv.thy ===== *)
theory RewardInv
  imports SettleInv
begin

text \<open>
  The reward scheduler keeps the invariant of the world: leases, retries, durable
  completions and dead letters change the finalization of one settlement (a durable
  completion also the frozen economy of its racer), and the drain status, which
  reports a broken scheduler as an error, never does.
\<close>

section \<open>Rewards\<close>

lemma update_first_mem:
  "y \<in> set (update_first P f xs) \<Longrightarrow> y \<in> set xs \<or> (\<exists>x. List.find P xs = Some x \<and> x \<in> set xs \<and> P x \<and> y = f x)"
  by (induction xs) auto

lemma update_first_map: "(\<And>x. g (f x) = g x) \<Longrightarrow> map g (update_first P f xs) = map g xs"
  by (induction xs) simp_all

lemma find_reward_mem: "find_reward u rewards = Some r \<Longrightarrow> r \<in> set rewards \<and> re_user_no r = u"
  by (auto simp: find_reward_def dest: find_SomeD)

lemma find_reward_ex: "find_reward u rewards \<noteq> None \<longleftrightarrow> u \<in> re_user_no ` set rewards"
  by (auto simp: find_reward_def find_None_iff)

lemma reward_ok_status:
  assumes "reward_ok frozen ranks r" "\<not> durable (re_status r)" "\<not> durable status"
  shows "reward_ok frozen ranks (r\<lparr>re_status := status\<rparr>)"
proof -
  have "(case re_status r of RpDurable a \<Rightarrow> economy = Some a | _ \<Rightarrow> economy = None) = (economy = None)" for economy
    using assms(2) by (cases "re_status r") (simp_all add: durable_def)
  moreover have "(case status of RpDurable a \<Rightarrow> economy = Some a | _ \<Rightarrow> economy = None) = (economy = None)" for economy
    using assms(3) by (cases status) (simp_all add: durable_def)
  ultimately show ?thesis using assms(1)
    unfolding reward_ok_def Let_def by (simp split: option.splits)
qed

lemma entries_status:
  assumes ok: "entries_ok room frozen ranks rewards" and r: "find_reward u rewards = Some r"
    and status: "\<not> durable (re_status r)" "\<not> durable status"
  shows "entries_ok room frozen ranks (update_first (\<lambda>r. re_user_no r = u) (re_status_update (\<lambda>_. status)) rewards)"
proof -
  have "reward_ok frozen ranks y"
    if "y \<in> set (update_first (\<lambda>r. re_user_no r = u) (re_status_update (\<lambda>_. status)) rewards)" for y
    using update_first_mem [OF that] ok r reward_ok_status [OF _ status, of frozen ranks]
    by (auto simp: entries_ok_def find_reward_def)
  with ok show ?thesis by (simp add: entries_ok_def update_first_map)
qed

lemma rewards_atE:
  assumes "world_inv w" "rewards_at w rid = Some rewards"
  obtains room frozen s ranks where "room_at w rid = Some room" "frozen_race room = Some frozen" "phase room = PhSettling"
    "pg_settlement (race_progress_of room) = Some s" "ss_finalization s = FinPersisting ranks rewards"
    "entries_ok room frozen ranks rewards"
proof -
  obtain ranks where "finalization_of w rid = Some (FinPersisting ranks rewards)"
    using assms(2) by (auto simp: rewards_at_def Option.bind_eq_Some_conv elim: persisting_rewards.elims)
  then obtain room frozen s where r: "room_at w rid = Some room" "frozen_race room = Some frozen" "phase room = PhSettling"
    "pg_settlement (race_progress_of room) = Some s" "ss_finalization s = FinPersisting ranks rewards"
    "finalization_ok room frozen (Some (FinPersisting ranks rewards))" by (rule settlement_room [OF assms(1)])
  from that [OF r(1-5)] r(6) show thesis by (simp add: finalization_ok_def)
qed

lemma set_reward_status_step:
  assumes inv: "world_inv w" and r: "rewards_at w rid = Some rewards" "find_reward u rewards = Some r"
    and status: "\<not> durable (re_status r)" "\<not> durable status"
  shows "race_step rid w (set_reward_status rid u status w)"
proof -
  obtain room frozen s ranks where room: "room_at w rid = Some room" "frozen_race room = Some frozen"
    "pg_settlement (race_progress_of room) = Some s" "ss_finalization s = FinPersisting ranks rewards"
    "entries_ok room frozen ranks rewards" by (rule rewards_atE [OF inv r(1)])
  show ?thesis
    unfolding set_reward_status_def
    by (rule update_finalization_step [OF inv room(1-3)])
      (simp add: room(4) set_status_def finalization_ok_def entries_status [OF room(5) r(2) status])
qed

lemma retain_failed_step:
  assumes inv: "world_inv w" and r: "rewards_at w rid = Some rewards" "find_reward u rewards = Some r"
    and attempt: "reason = RewardPersistence \<Longrightarrow> in_flight_attempt_id (re_status r) \<noteq> None"
  shows "race_step rid w (retain_failed rid reason u (Some (re_nickname r)) w)"
proof -
  obtain room frozen s ranks where room: "room_at w rid = Some room" "frozen_race room = Some frozen"
    "pg_settlement (race_progress_of room) = Some s" "ss_finalization s = FinPersisting ranks rewards"
    "entries_ok room frozen ranks rewards" by (rule rewards_atE [OF inv r(1)])
  show ?thesis
    unfolding retain_failed_def
    by (rule update_finalization_step [OF inv room(1-3)])
      (use room(5) r(2) attempt in \<open>simp add: room(4) finalization_ok_def letter_ok_def failed_nickname_of_def failed_reward_def\<close>)
qed

section \<open>Leases\<close>

lemma current_attemptE:
  assumes "current_reward_attempt task w = Some (failures, lease)"
  obtains rewards r where "fence_at w (rf_room_id (rt_fence task)) = Some (rt_fence task)"
    "rewards_at w (rf_room_id (rt_fence task)) = Some rewards" "find_reward (rt_user_no task) rewards = Some r"
    "re_nickname r = rt_nickname task" "re_status r = RpInFlight (rt_attempt_id task) failures lease"
  using assms that
  by (auto simp: current_reward_attempt_def Option.bind_eq_Some_conv split: if_splits reward_persistence_status.splits)

lemma rewards_at_finalization: "rewards_at w rid = Some rewards \<Longrightarrow> finalization_of w rid \<noteq> None"
  by (cases "finalization_of w rid") (simp_all add: rewards_at_def)

lemma fail_reward_settlement_step:
  assumes inv: "world_inv w" and current: "current_reward_attempt task w = Some (failures, lease)"
  obtains w' where "fail_reward_settlement task reason w = (w', Inr ())" "race_step (rf_room_id (rt_fence task)) w w'"
proof -
  let ?rid = "rf_room_id (rt_fence task)"
  obtain rewards r where r: "fence_at w ?rid = Some (rt_fence task)" "rewards_at w ?rid = Some rewards"
    "find_reward (rt_user_no task) rewards = Some r" "re_nickname r = rt_nickname task"
    "re_status r = RpInFlight (rt_attempt_id task) failures lease" by (rule current_attemptE [OF current])
  have "race_step ?rid w (retain_failed ?rid reason (rt_user_no task) (Some (rt_nickname task)) w)"
    using retain_failed_step [OF inv r(2,3), of reason] r(4,5) by simp
  then show thesis using that r(1) rewards_at_finalization [OF r(2)] by (simp add: fail_reward_settlement_def Let_def)
qed

lemma expire_reward_attempt_step:
  assumes inv: "world_inv w"
  shows "race_step (rf_room_id (rt_fence task)) w (fst (expire_reward_attempt task now w))"
proof (cases "current_reward_attempt task w")
  case None
  with inv show ?thesis by (simp add: expire_reward_attempt_def race_step_refl)
next
  case (Some x)
  let ?rid = "rf_room_id (rt_fence task)"
  obtain failures lease where x: "x = (failures, lease)" by (cases x)
  note current = Some [unfolded x]
  obtain rewards r where r: "rewards_at w ?rid = Some rewards" "find_reward (rt_user_no task) rewards = Some r"
    "re_status r = RpInFlight (rt_attempt_id task) failures lease" by (rule current_attemptE [OF current])
  have queued: "race_step ?rid w (set_reward_status ?rid (rt_user_no task) (RpQueued due n) w)" for due n
    using set_reward_status_step [OF inv r(1,2)] r(3) by (simp add: durable_def)
  obtain w1 w2 where w12: "fail_reward_settlement task RewardPersistence w = (w1, Inr ())" "race_step ?rid w w1"
    "fail_reward_settlement task RewardRetryDeadlineOverflow w = (w2, Inr ())" "race_step ?rid w w2"
    using fail_reward_settlement_step [OF inv current] by metis
  show ?thesis
    using current queued w12 inv by (auto simp: expire_reward_attempt_def race_step_refl split: option.split)
qed

text \<open>What every step of the scheduler keeps.\<close>

definition kept :: "world \<Rightarrow> world \<Rightarrow> bool" where
  "kept w w' \<longleftrightarrow> world_inv w' \<and> w_identities w' = w_identities w"

lemma kept_refl: "world_inv w \<Longrightarrow> kept w w" by (simp add: kept_def)
lemma kept_trans: "kept w w' \<Longrightarrow> kept w' w'' \<Longrightarrow> kept w w''" by (simp add: kept_def)
lemma kept_inv: "kept w w' \<Longrightarrow> world_inv w'" by (simp add: kept_def)
lemma race_step_kept: "race_step rid w w' \<Longrightarrow> kept w w'" by (simp add: race_step_def kept_def)

lemma expire_each_kept: "world_inv w \<Longrightarrow> kept w (fst (expire_each now tasks w))"
proof (induction now tasks w rule: expire_each.induct)
  case (2 now task tasks w)
  obtain w' r where r: "expire_reward_attempt task now w = (w', r)" by fastforce
  have step: "kept w w'" using race_step_kept [OF expire_reward_attempt_step [OF "2.prems", of task now]] r by simp
  show ?case
  proof (cases r)
    case (Inr x)
    from "2.IH" [OF r [symmetric] Inr] step have "kept w' (fst (expire_each now tasks w'))" by (simp add: kept_inv)
    with r Inr step show ?thesis by (auto intro: kept_trans)
  qed (use r step in simp)
qed (simp add: kept_refl)

section \<open>Handing out tasks\<close>

definition due_ok :: "(room_id \<times> u32) list \<Rightarrow> world \<Rightarrow> bool" where
  "due_ok candidates w \<longleftrightarrow> (\<forall>(rid, u)\<in>set candidates. \<exists>rewards r. rewards_at w rid = Some rewards \<and> find_reward u rewards = Some r)"

lemma due_candidates_ok:
  assumes "world_inv w"
  shows "due_ok (due_reward_candidates now n w) w"
proof -
  have keys: "distinct (map fst (w_protocol_rooms w))" using world_invD(1) [OF assms] by (simp add: keys_ok_def)
  have "\<exists>rewards r. rewards_at w rid = Some rewards \<and> find_reward u rewards = Some r"
    if mem: "(rid, u) \<in> set (due_of_room now entry)" "entry \<in> set (w_protocol_rooms w)" for rid u entry
  proof -
    obtain rid' room where entry: "entry = (rid', room)" by (cases entry)
    obtain rewards where rewards: "Option.bind (map_option ss_finalization (pg_settlement (race_progress_of room))) persisting_rewards = Some rewards"
      using mem(1) by (cases "Option.bind (map_option ss_finalization (pg_settlement (race_progress_of room))) persisting_rewards")
        (auto simp: due_of_room_def entry)
    then obtain reward where reward: "reward \<in> set rewards" "(case re_status reward of
        RpQueued due failures \<Rightarrow> if due \<le> now then Some (rid', re_user_no reward) else None | _ \<Rightarrow> None) = Some (rid, u)"
      using mem(1) by (auto simp: due_of_room_def entry map_filter_mem)
    then have "re_user_no reward = u" "rid' = rid" by (cases "re_status reward"; auto split: if_splits)+
    note r = rewards reward(1) this
    have "room_at w rid = Some room" using keys mem(2) r(4) by (simp add: entry)
    then have "rewards_at w rid = Some rewards" using r(1) by (simp add: rewards_at_def finalization_of_def)
    moreover have "find_reward u rewards \<noteq> None" unfolding find_reward_ex using r(2,3) by blast
    ultimately show ?thesis by auto
  qed
  then have "\<exists>rewards r. rewards_at w rid = Some rewards \<and> find_reward u rewards = Some r"
    if "(rid, u) \<in> set (due_reward_candidates now n w)" for rid u
    using set_mp [OF set_take_subset that [unfolded due_reward_candidates_def]] by auto
  then show ?thesis unfolding due_ok_def by blast
qed

lemma world_inv_attempt [simp]: "world_inv (w\<lparr>w_next_reward_attempt_id := n\<rparr>) = world_inv w"
  by (rule world_inv_frame) simp_all

lemma rewards_at_attempt [simp]:
  "rewards_at (w\<lparr>w_next_reward_attempt_id := n\<rparr>) = rewards_at w" "fence_at (w\<lparr>w_next_reward_attempt_id := n\<rparr>) = fence_at w"
  by (simp_all add: fun_eq_iff rewards_at_def finalization_of_def fence_at_def)

lemma rewards_at_set_status:
  assumes "rewards_at w rid = Some rewards"
  shows "rewards_at (set_reward_status rid u status w) rid'
    = (if rid' = rid then Some (update_first (\<lambda>r. re_user_no r = u) (re_status_update (\<lambda>_. status)) rewards) else rewards_at w rid')"
proof -
  obtain room s ranks where "room_at w rid = Some room" "pg_settlement (race_progress_of room) = Some s"
    "ss_finalization s = FinPersisting ranks rewards"
    using assms by (auto simp: rewards_at_def finalization_of_def Option.bind_eq_Some_conv elim: persisting_rewards.elims)
  then show ?thesis
    by (simp add: rewards_at_def finalization_of_def set_reward_status_def update_room_Some set_finalization_def set_progress_def set_status_def)
qed

lemma due_ok_set_status:
  assumes "due_ok candidates w" "rewards_at w rid = Some rewards"
  shows "due_ok candidates (set_reward_status rid u status w)"
proof -
  have found: "\<exists>r'. find_reward v (update_first (\<lambda>r. re_user_no r = u) (re_status_update (\<lambda>_. status)) rewards) = Some r'"
    if "find_reward v rewards = Some r" for v r
  proof -
    have "map re_user_no (update_first (\<lambda>r. re_user_no r = u) (re_status_update (\<lambda>_. status)) rewards) = map re_user_no rewards"
      by (rule update_first_map) simp
    from arg_cong [OF this, of set] that show ?thesis
      using find_reward_ex [of v rewards]
        find_reward_ex [of v "update_first (\<lambda>r. re_user_no r = u) (re_status_update (\<lambda>_. status)) rewards"] by simp
  qed
  show ?thesis
    unfolding due_ok_def rewards_at_set_status [OF assms(2)]
  proof (clarify)
    fix rid' v assume "(rid', v) \<in> set candidates"
    then obtain rewards' r where old: "rewards_at w rid' = Some rewards'" "find_reward v rewards' = Some r"
      using assms(1) by (auto simp: due_ok_def)
    show "\<exists>rs r. (if rid' = rid then Some (update_first (\<lambda>r. re_user_no r = u) (re_status_update (\<lambda>_. status)) rewards)
        else rewards_at w rid') = Some rs \<and> find_reward v rs = Some r" (is "\<exists>rs r. ?at rs \<and> ?found rs r")
    proof (cases "rid' = rid")
      case True
      then have "find_reward v rewards = Some r" using old assms(2) by simp
      from found [OF this] obtain r' where "?found (update_first (\<lambda>r. re_user_no r = u) (re_status_update (\<lambda>_. status)) rewards) r'" ..
      moreover have "?at (update_first (\<lambda>r. re_user_no r = u) (re_status_update (\<lambda>_. status)) rewards)" using True by simp
      ultimately show ?thesis by blast
    qed (use old in simp)
  qed
qed

lemma due_ok_subset: "due_ok cs w \<Longrightarrow> set cs' \<subseteq> set cs \<Longrightarrow> due_ok cs' w"
  unfolding due_ok_def by (rule ballI, drule (1) subsetD) (erule (1) bspec)

lemma fence_at_some:
  assumes inv: "world_inv w" and "rewards_at w rid = Some rewards"
  shows "\<exists>fence. fence_at w rid = Some fence"
proof -
  obtain room frozen where room: "room_at w rid = Some room" "frozen_race room = Some frozen" by (rule rewards_atE [OF assms])
  with race_roomD(8) [OF room_at_ok [OF inv room(1)] room(2)] show ?thesis by (simp add: fence_at_def)
qed

lemma persisting_nickname_found:
  "rewards_at w rid = Some rewards \<Longrightarrow> find_reward u rewards = Some r \<Longrightarrow> persisting_nickname w rid u = Some (re_nickname r)"
  by (simp add: persisting_nickname_def)

lemma limit_candidates_kept:
  assumes inv: "world_inv w" and due: "due_ok candidates w"
    and limit: "limit_candidates_to_attempt_id_capacity candidates w = (w', res)"
  shows "kept w w'" "res = Inr candidates' \<Longrightarrow> due_ok candidates' w'"
proof -
  have "kept w w' \<and> (res = Inr candidates' \<longrightarrow> due_ok candidates' w')"
  proof (cases "candidates \<noteq> [] \<and> w_next_reward_attempt_id w = None")
    case False
    then have "w' = w \<and> (\<forall>cs. res = Inr cs \<longrightarrow> set cs \<subseteq> set candidates)"
      using limit by (auto simp: limit_candidates_to_attempt_id_capacity_def split: list.splits prod.splits option.splits if_splits)
    with inv due_ok_subset [OF due] show ?thesis by (auto simp: kept_refl)
  next
    case True
    then obtain rid u rest where c: "candidates = (rid, u) # rest" by (cases candidates) auto
    with due obtain rewards r where r: "rewards_at w rid = Some rewards" "find_reward u rewards = Some r" by (auto simp: due_ok_def)
    have step: "race_step rid w (retain_failed rid RewardAttemptIdExhausted u (Some (re_nickname r)) w)"
      by (rule retain_failed_step [OF inv r]) simp
    obtain fence where "fence_at w rid = Some fence" using fence_at_some [OF inv r(1)] ..
    then have "w' = retain_failed rid RewardAttemptIdExhausted u (Some (re_nickname r)) w" "\<exists>e. res = Inl e"
      using limit True c persisting_nickname_found [OF r] by (auto simp: limit_candidates_to_attempt_id_capacity_def)
    with step show ?thesis by (auto dest: race_step_kept)
  qed
  then show "kept w w'" "res = Inr candidates' \<Longrightarrow> due_ok candidates' w'" by simp_all
qed

lemma issue_reward_task_kept:
  assumes inv: "world_inv w" and due: "due_ok ((rid, u) # rest) w" and issue: "issue_reward_task rid u now w = (w', res)"
  shows "kept w w'" "res = Inr task \<Longrightarrow> due_ok rest w'"
proof -
  obtain rewards r where r: "rewards_at w rid = Some rewards" "find_reward u rewards = Some r" using due by (auto simp: due_ok_def)
  have rest: "due_ok rest w" using due by (simp add: due_ok_def)
  have "kept w w' \<and> (res = Inr task \<longrightarrow> due_ok rest w')"
  proof (cases "allocate_reward_attempt_id w")
    case None
    with issue inv show ?thesis by (auto simp: issue_reward_task_def kept_refl)
  next
    case (Some p)
    then obtain attempt next_id where p: "p = (attempt, w\<lparr>w_next_reward_attempt_id := next_id\<rparr>)"
      by (auto simp: allocate_reward_attempt_id_def)
    let ?w = "w\<lparr>w_next_reward_attempt_id := next_id\<rparr>"
    have inv': "world_inv ?w" and same: "w_identities ?w = w_identities w" using inv by simp_all
    have r': "rewards_at ?w rid = Some rewards" using r(1) by simp
    have rest': "due_ok rest ?w" using rest by (simp add: due_ok_def)
    obtain fence where fence: "fence_at ?w rid = Some fence" using fence_at_some [OF inv' r'] ..
    show ?thesis
    proof (cases "instant_checked_add now reward_attempt_lease")
      case None
      have "race_step rid ?w (retain_failed rid RewardAttemptLeaseDeadlineOverflow u (Some (re_nickname r)) ?w)"
        by (rule retain_failed_step [OF inv' r' r(2)]) simp
      then show ?thesis
        using issue Some p None fence persisting_nickname_found [OF r' r(2)] same
        by (auto simp: issue_reward_task_def kept_def race_step_def)
    next
      case lease: (Some lease)
      show ?thesis
      proof (cases "re_status r")
        case (RpQueued due_at failures)
        have step: "race_step rid ?w (set_reward_status rid u (RpInFlight attempt failures lease) ?w)"
          by (rule set_reward_status_step [OF inv' r' r(2)]) (simp_all add: RpQueued durable_def)
        have "due_ok rest (set_reward_status rid u (RpInFlight attempt failures lease) ?w)"
          by (rule due_ok_set_status [OF rest' r'])
        with step issue Some p lease fence r' r(2) RpQueued rest' inv' same show ?thesis
          by (auto simp: issue_reward_task_def kept_def race_step_def split: if_splits)
      qed (use issue Some p lease fence r' r(2) rest' inv' same in \<open>auto simp: issue_reward_task_def kept_def\<close>)
    qed
  qed
  then show "kept w w'" "res = Inr task \<Longrightarrow> due_ok rest w'" by simp_all
qed

lemma issue_each_kept:
  "world_inv w \<Longrightarrow> due_ok candidates w \<Longrightarrow> kept w (fst (issue_each now candidates w))"
proof (induction now candidates w rule: issue_each.induct)
  case (2 now rid u rest w)
  obtain w' res where issue: "issue_reward_task rid u now w = (w', res)" by fastforce
  note one = issue_reward_task_kept [OF "2.prems" issue]
  show ?case
  proof (cases res)
    case (Inr task)
    have "kept w' (fst (issue_each now rest w'))"
      using "2.IH" [OF issue [symmetric] Inr] one(1) one(2) [OF Inr] by (simp add: kept_inv)
    then have "kept w (fst (issue_each now rest w'))" by (rule kept_trans [OF one(1)])
    then show ?thesis using issue Inr by (auto split: prod.split sum.split)
  qed (use one issue in simp)
qed (simp add: kept_refl)

lemma take_due_reward_tasks_kept:
  assumes inv: "world_inv w"
  shows "kept w (fst (take_due_reward_tasks now n w))"
proof -
  obtain w1 r1 where expire: "expire_reward_attempt_leases now w = (w1, r1)" by fastforce
  have k1: "kept w w1" using expire_each_kept [OF inv] expire by (metis expire_reward_attempt_leases_def fst_conv)
  let ?cs = "due_reward_candidates now (min n max_due_reward_task_batch) w1"
  obtain w2 r2 where limit: "limit_candidates_to_attempt_id_capacity ?cs w1 = (w2, r2)" by fastforce
  note two = limit_candidates_kept [OF kept_inv [OF k1] due_candidates_ok [OF kept_inv [OF k1]] limit]
  have k2: "kept w w2" by (rule kept_trans [OF k1 two(1)])
  have "kept w (fst (issue_each now cs w2))" if "r2 = Inr cs" for cs
    by (rule kept_trans [OF k2 issue_each_kept [OF kept_inv [OF k2] two(2) [OF that]]])
  then show ?thesis
    using expire limit k1 k2 by (auto simp: take_due_reward_tasks_def Let_def split: sum.split)
qed

section \<open>Durable completions\<close>

lemma update_first_exact:
  "distinct (map k xs) \<Longrightarrow> y \<in> set (update_first (\<lambda>x. k x = u) f xs) \<Longrightarrow>
     (y \<in> set xs \<and> k y \<noteq> u) \<or> (\<exists>x. List.find (\<lambda>x. k x = u) xs = Some x \<and> y = f x)"
  by (induction xs) (auto split: if_splits simp: image_iff)

lemma update_first_in: "List.find P xs = Some x \<Longrightarrow> f x \<in> set (update_first P f xs)"
  by (induction xs) (auto split: if_splits)

lemma update_first_other: "x \<in> set xs \<Longrightarrow> \<not> P x \<Longrightarrow> x \<in> set (update_first P f xs)"
  by (induction xs) auto

lemma update_first_filter:
  "(\<And>x. Q (f x) = Q x) \<Longrightarrow> (\<And>x. g (f x) = g x) \<Longrightarrow> map g (filter Q (update_first P f xs)) = map g (filter Q xs)"
  by (induction xs) simp_all

definition pay :: "applied_time_reward \<Rightarrow> frozen_race_participant \<Rightarrow> frozen_race_participant" where
  "pay applied p = p\<lparr>fp_result := map_option (\<lambda>r. r\<lparr>fh_economy := EcoApplied applied\<rparr>) (fp_result p)\<rparr>"

lemma pay_simps [simp]:
  "fp_identity (pay a p) = fp_identity p" "fp_player_id (pay a p) = fp_player_id p" "fp_observer (pay a p) = fp_observer p"
  "fp_team (pay a p) = fp_team p" "fp_nickname (pay a p) = fp_nickname p" "fp_result (pay a p) = None \<longleftrightarrow> fp_result p = None"
  by (simp_all add: pay_def)

definition pay_frozen :: "reward_settlement_task \<Rightarrow> applied_time_reward \<Rightarrow> frozen_race_roster \<Rightarrow> frozen_race_roster" where
  "pay_frozen task applied frozen =
     frozen\<lparr>fr_participants := update_first (is_task_participant task) (pay applied) (fr_participants frozen)\<rparr>"

lemma pay_frozen_simps [simp]:
  "fr_fence (pay_frozen task a frozen) = fr_fence frozen" "fr_ais (pay_frozen task a frozen) = fr_ais frozen"
  "fr_concrete_track (pay_frozen task a frozen) = fr_concrete_track frozen"
  "map (\<lambda>p. ib_user_no (fp_identity p)) (fr_participants (pay_frozen task a frozen)) = map (\<lambda>p. ib_user_no (fp_identity p)) (fr_participants frozen)"
  "frozen_player_ids (pay_frozen task a frozen) = frozen_player_ids frozen"
  "racer_ids (pay_frozen task a frozen) = racer_ids frozen" "frozen_humans (pay_frozen task a frozen) = frozen_humans frozen"
  "racers_of (pay_frozen task a frozen) = racers_of frozen"
  by (simp_all add: pay_frozen_def frozen_player_ids_def racer_ids_def frozen_humans_def racers_of_def update_first_map update_first_filter)

lemma pay_frozen_mem:
  assumes "p \<in> set (fr_participants (pay_frozen task a frozen))"
  obtains q where "q \<in> set (fr_participants frozen)" "p = q \<or> p = pay a q"
  using assms that update_first_mem [of p "is_task_participant task" "pay a" "fr_participants frozen"]
  by (auto simp: pay_frozen_def)

definition paid_room :: "reward_settlement_task \<Rightarrow> applied_time_reward \<Rightarrow> protocol_room_state \<Rightarrow> protocol_room_state" where
  "paid_room task applied room =
     apply_economy task applied (set_finalization (set_status (rt_user_no task) (RpDurable applied)) room)"

lemma paid_room_fields:
  assumes "frozen_race room = Some frozen"
  shows "frozen_race (paid_room task a room) = Some (pay_frozen task a frozen)"
    "same_seats room (paid_room task a room)" "room_master (paid_room task a room) = room_master room"
    "room_id_of (paid_room task a room) = room_id_of room" "settings (paid_room task a room) = settings room"
    "race_fence_of (paid_room task a room) = race_fence_of room" "phase (paid_room task a room) = phase room"
    "loading_handshake_of (paid_room task a room) = loading_handshake_of room"
    "members_by_id (paid_room task a room) = members_by_id room" "observers (paid_room task a room) = observers room"
    "user_nos (paid_room task a room) = user_nos room"
  using assms
  by (simp_all add: paid_room_def apply_economy_def pay_frozen_def pay_def [abs_def] set_finalization_def set_progress_def same_seats_def user_nos_conv)

lemma paid_entries_ok:
  assumes ok: "room_ok rid room" "frozen_race room = Some frozen" and entries: "entries_ok room frozen ranks rewards"
    and p: "List.find (is_task_participant task) (fr_participants frozen) = Some p"
    and r: "find_reward (rt_user_no task) rewards = Some r"
  shows "entries_ok (paid_room task a room) (pay_frozen task a frozen) ranks
    (update_first (\<lambda>r. re_user_no r = rt_user_no task) (re_status_update (\<lambda>_. RpDurable a)) rewards)"
    (is "entries_ok _ ?frozen _ ?rewards")
proof -
  let ?user = "\<lambda>p. ib_user_no (fp_identity p)"
  note users = frozen_users_distinct [OF ok]
  have users': "distinct (map ?user (fr_participants ?frozen))" using users by simp
  have pin: "p \<in> set (fr_participants frozen)" "is_task_participant task p" using find_SomeD [OF p] by auto
  have member: "\<not> fp_observer p" "?user p = rt_user_no task" using pin(2) by (simp_all add: is_task_participant_def)
  have keys: "map re_user_no rewards = frozen_humans frozen" using entries by (simp add: entries_ok_def)
  have "reward_ok ?frozen ranks y" if y: "y \<in> set ?rewards" for y
  proof -
    have "(y \<in> set rewards \<and> re_user_no y \<noteq> rt_user_no task)
        \<or> (\<exists>x. List.find (\<lambda>r. re_user_no r = rt_user_no task) rewards = Some x \<and> y = re_status_update (\<lambda>_. RpDurable a) x)"
      by (rule update_first_exact [OF _ y]) (simp add: keys frozen_humans_distinct [OF ok])
    then show ?thesis
    proof
      assume old: "y \<in> set rewards \<and> re_user_no y \<noteq> rt_user_no task"
      then have rok: "reward_ok frozen ranks y" using entries by (simp add: entries_ok_def)
      then obtain q where q: "List.find (\<lambda>p. \<not> fp_observer p \<and> ?user p = re_user_no y) (fr_participants frozen) = Some q"
        by (auto simp: reward_ok_def split: option.splits)
      from find_SomeD [OF this] have qin: "q \<in> set (fr_participants frozen)" "\<not> fp_observer q" "?user q = re_user_no y" by auto
      then have "\<not> is_task_participant task q" using old by (simp add: is_task_participant_def)
      then have "q \<in> set (fr_participants ?frozen)" using qin(1) by (simp add: pay_frozen_def update_first_other)
      from find_by_user [OF users' this qin(2)] rok q show ?thesis by (simp add: reward_ok_def qin(3))
    next
      assume "\<exists>x. List.find (\<lambda>r. re_user_no r = rt_user_no task) rewards = Some x \<and> y = re_status_update (\<lambda>_. RpDurable a) x"
      then have new: "y = re_status_update (\<lambda>_. RpDurable a) r" "re_user_no r = rt_user_no task" "r \<in> set rewards"
        using r find_reward_mem [OF r] by (auto simp: find_reward_def)
      have "map_of (sr_by_player_id ranks) (re_player_id r) \<noteq> None"
        using entries new(3) by (simp add: entries_ok_def reward_ok_def)
      moreover have "pay a p \<in> set (fr_participants ?frozen)" by (simp add: pay_frozen_def update_first_in [OF p])
      then have "List.find (\<lambda>q. \<not> fp_observer q \<and> ?user q = rt_user_no task) (fr_participants ?frozen) = Some (pay a p)"
        using find_by_user [OF users', of "pay a p"] member by simp
      moreover have "frozen_participant_ok (settings room) p"
        using race_roomD(1) [OF ok] ok(2) pin(1) by (simp add: debug_assert_frozen_def)
      then obtain result where "fp_result p = Some result" using member(1) by (auto simp: frozen_participant_ok_def)
      ultimately show ?thesis by (simp add: reward_ok_def new(1,2) pay_def)
    qed
  qed
  moreover have "ranks_ok (paid_room task a room) ?frozen ranks"
    using entries by (simp add: entries_ok_def ranks_ok_def team_mode_def paid_room_fields [OF ok(2)])
  moreover have "map re_user_no ?rewards = frozen_humans ?frozen" by (simp add: update_first_map keys)
  ultimately show ?thesis by (simp add: entries_ok_def)
qed

lemma frozen_participant_ok_pay: "frozen_participant_ok st (pay a p) = frozen_participant_ok st p"
  by (simp add: frozen_participant_ok_def)

lemma paid_room_ok:
  assumes ok: "room_ok rid room" "frozen_race room = Some frozen"
    and s: "pg_settlement (race_progress_of room) = Some s" "ss_finalization s = FinPersisting ranks rewards"
    and p: "List.find (is_task_participant task) (fr_participants frozen) = Some p"
    and r: "find_reward (rt_user_no task) rewards = Some r"
  shows "room_ok rid (paid_room task a room)"
proof -
  note old = race_roomD [OF ok]
  note fields = paid_room_fields [OF ok(2), of task a]
  let ?next = "paid_room task a room" and ?frozen = "pay_frozen task a frozen"
  let ?rewards = "update_first (\<lambda>r. re_user_no r = rt_user_no task) (re_status_update (\<lambda>_. RpDurable a)) rewards"
  have settling: "phase room = PhSettling" using settling_iff [OF old(2)] s(1) by simp
  have progress: "race_progress_of ?next = (race_progress_of room)\<lparr>pg_settlement := Some (s\<lparr>ss_finalization := FinPersisting ranks ?rewards\<rparr>)\<rparr>"
    using s by (simp add: paid_room_def apply_economy_def set_finalization_def set_progress_def set_status_def)
  have "entries_ok room frozen ranks rewards" using old(5) s by (simp add: finalization_ok_def)
  then have entries: "entries_ok ?next ?frozen ranks ?rewards" by (rule paid_entries_ok [OF ok _ p r])
  then have fin: "finalization_ok ?next ?frozen (map_option ss_finalization (pg_settlement (race_progress_of ?next)))"
    by (simp add: progress finalization_ok_def)
  have "room_inv ?next" by (rule same_seats_inv [OF fields(2,3) old(6)])
  moreover have "debug_assert_frozen rid ?next"
  proof -
    have "frozen_participant_ok (settings room) q" if q: "q \<in> set (fr_participants ?frozen)" for q
    proof -
      obtain q' where "q' \<in> set (fr_participants frozen)" "q = q' \<or> q = pay a q'" using q by (rule pay_frozen_mem)
      moreover have "\<forall>q\<in>set (fr_participants frozen). frozen_participant_ok (settings room) q"
        using old(1) ok(2) by (simp add: debug_assert_frozen_def)
      ultimately show ?thesis by (auto simp: frozen_participant_ok_pay)
    qed
    then show ?thesis using old(1) ok(2) by (simp add: debug_assert_frozen_def fields)
  qed
  moreover have "debug_assert_progress ?next"
  proof (rule progress_assertI [OF fields(1) _ _ _ _ _ fin])
    show "distinct (frozen_humans ?frozen)" "length (frozen_humans ?frozen) \<le> 8"
      using frozen_humans_distinct [OF ok] racers_small(2) [OF ok] by simp_all
    show "progress_ok ?frozen (race_progress_of ?next)"
      using progress_okD [OF old(2) ok(2)] s(1) by (auto simp: progress progress_ok_def fanout_ok_def split: option.splits)
  qed (simp_all add: fields progress settling)
  moreover have "debug_assert_handshake ?next"
    using old(3) settling by (simp add: debug_assert_handshake_def fields split: loading_handshake.splits)
  moreover have "settled_ok ?next"
  proof -
    have seated: "\<exists>q\<in>set (fr_participants ?frozen). \<not> fp_observer q \<and> fp_player_id q = k"
      if "\<exists>q\<in>set (fr_participants frozen). \<not> fp_observer q \<and> fp_player_id q = k" for k
    proof -
      have "map fp_player_id (filter (\<lambda>q. \<not> fp_observer q) (fr_participants ?frozen)) = map fp_player_id (filter (\<lambda>q. \<not> fp_observer q) (fr_participants frozen))"
        unfolding pay_frozen_def by (simp add: update_first_filter)
      from arg_cong [OF this, of set] that show ?thesis by (force simp: image_iff set_eq_iff)
    qed
    have "roster_ok ?next ?frozen"
    proof -
      have "0 \<le> fp_player_id q" if q: "q \<in> set (fr_participants ?frozen)" for q
      proof -
        obtain q' where "q' \<in> set (fr_participants frozen)" "q = q' \<or> q = pay a q'" using q by (rule pay_frozen_mem)
        then show ?thesis using old(4) by (auto simp: roster_ok_def)
      qed
      moreover have "\<exists>q\<in>set (fr_participants ?frozen). \<not> fp_observer q" using old(4) seated by (metis roster_ok_def)
      moreover have "\<forall>i\<in>occupied (members_by_id ?next). \<exists>q\<in>set (fr_participants ?frozen). \<not> fp_observer q \<and> fp_player_id q = int i"
        using old(4) seated by (simp add: roster_ok_def fields)
      moreover have "team_mode ?next \<longrightarrow> (\<forall>a\<in>set (fr_ais ?frozen). fa_team a \<in> {1, 2})"
        using old(4) by (simp add: roster_ok_def team_mode_def fields)
      ultimately show ?thesis by (simp add: roster_ok_def)
    qed
    with fin show ?thesis by (simp add: settled_ok_def fields(1))
  qed
  ultimately show ?thesis using ok(1) settling by (simp add: room_ok_def race_ok_def fields)
qed

lemma insert_room_insert: "insert_room rid a (insert_room rid b w) = insert_room rid a w"
proof -
  have "AList.update k x (AList.update k y m) = AList.update k x m" for k :: room_id and x y :: protocol_room_state and m
    by (induction m) auto
  then show ?thesis by (simp add: insert_room_def)
qed

lemma paid_step:
  assumes inv: "world_inv w" and r: "rewards_at w rid = Some rewards" "find_reward (rt_user_no task) rewards = Some r"
    and rid: "rid = rf_room_id (rt_fence task)" and p: "task_participant task w = Some p"
  shows "race_step rid w (update_room rid (apply_economy task a) (set_reward_status rid (rt_user_no task) (RpDurable a) w))"
    "fp_result p \<noteq> None"
proof -
  obtain room frozen s ranks where room: "room_at w rid = Some room" "frozen_race room = Some frozen"
    "pg_settlement (race_progress_of room) = Some s" "ss_finalization s = FinPersisting ranks rewards"
    by (rule rewards_atE [OF inv r(1)])
  note ok = room_at_ok [OF inv room(1)]
  have find: "List.find (is_task_participant task) (fr_participants frozen) = Some p"
    using p room(1,2) rid by (simp add: task_participant_def)
  note fields = paid_room_fields [OF room(2), of task a]
  have "update_room rid (apply_economy task a) (set_reward_status rid (rt_user_no task) (RpDurable a) w) = insert_room rid (paid_room task a room) w"
    by (simp add: set_reward_status_def update_room_Some room(1) update_room_def insert_room_insert paid_room_def)
  moreover have "world_inv (insert_room rid (paid_room task a room) w)"
  proof (rule replace_room_inv [OF inv room(1)])
    show "room_ok rid (paid_room task a room)" by (rule paid_room_ok [OF ok room(2-4) find r(2)])
    show "set (user_nos (paid_room task a room)) = set (user_nos room)" by (simp add: fields)
    show "races_human (paid_room task a room) = races_human room" by (simp add: races_human_def fun_eq_iff fields room(2))
  qed
  ultimately show "race_step rid w (update_room rid (apply_economy task a) (set_reward_status rid (rt_user_no task) (RpDurable a) w))"
    by (simp add: race_step_def insert_room_def)
  have "\<not> fp_observer p" "p \<in> set (fr_participants frozen)" using find_SomeD [OF find] by (simp_all add: is_task_participant_def)
  moreover have "\<forall>q\<in>set (fr_participants frozen). frozen_participant_ok (settings room) q"
    using race_roomD(1) [OF ok room(2)] room(2) by (simp add: debug_assert_frozen_def)
  ultimately show "fp_result p \<noteq> None" by (auto simp: frozen_participant_ok_def)
qed

lemma live_rp_kept:
  assumes inv: "world_inv w"
  shows "kept w (update_live_room_rp u current w)"
proof (cases "\<exists>rid room mid. room_of w u = Some rid \<and> room_at w rid = Some room \<and> member_id u room = Some mid")
  case True
  then obtain rid room mid where r: "room_of w u = Some rid" "room_at w rid = Some room" "member_id u room = Some mid" by blast
  let ?next = "room\<lparr>members_by_id := update_slot (set_player (rp_update (\<lambda>_. current))) mid (members_by_id room)\<rparr>"
  have "update_user u (rp_update (\<lambda>_. current)) room = (True, ?next)" using r(3) by (simp add: update_user_def)
  from update_user_inv [OF room_at_inv [OF inv r(2)] this]
  have new: "room_inv ?next \<and> user_nos ?next = user_nos room" by (simp add: player_strings_ok_def)
  have "world_inv (insert_room rid ?next w)"
  proof (rule change_room_inv [OF inv r(2)])
    show "room_inv ?next" "set (user_nos ?next) = set (user_nos room)" using new by simp_all
    show "same_race room ?next" by (simp add: same_race_def)
    show "no_new_seats room ?next" by simp
  qed
  with r show ?thesis by (simp add: kept_def update_live_room_rp_def update_room_def insert_room_def)
next
  case False
  have "update_live_room_rp u current w = w \<or> (\<exists>rid room. room_at w rid = Some room \<and> update_live_room_rp u current w = insert_room rid room w)"
    using False by (auto simp: update_live_room_rp_def update_room_def split: option.split)
  then show ?thesis
  proof
    assume "\<exists>rid room. room_at w rid = Some room \<and> update_live_room_rp u current w = insert_room rid room w"
    then obtain rid room where r: "room_at w rid = Some room" "update_live_room_rp u current w = insert_room rid room w" by blast
    have "world_inv (insert_room rid room w)"
      using change_room_inv [OF inv r(1) room_at_inv [OF inv r(1)]] by (simp add: same_race_def)
    with r(2) show ?thesis by (simp add: kept_def insert_room_def)
  qed (use inv in \<open>simp add: kept_refl\<close>)
qed

section \<open>The result\<close>

text \<open>When every reward is durable, every racer's economy is frozen and the result is written.\<close>

lemma durable_all_applied:
  assumes "entries_ok room frozen ranks rewards" and "\<forall>r\<in>set rewards. durable (re_status r)"
    and users: "distinct (map (\<lambda>p. ib_user_no (fp_identity p)) (fr_participants frozen))"
  shows "all_applied frozen"
  unfolding all_applied_def
proof (intro ballI impI)
  fix p assume p: "p \<in> set (fr_participants frozen)" "\<not> fp_observer p"
  then have "ib_user_no (fp_identity p) \<in> set (frozen_humans frozen)" by (simp add: frozen_humans_def)
  also have "frozen_humans frozen = map re_user_no rewards" using assms(1) by (simp add: entries_ok_def)
  finally obtain r where r: "r \<in> set rewards" "re_user_no r = ib_user_no (fp_identity p)" by auto
  then obtain applied where status: "re_status r = RpDurable applied" using assms(2) by (auto simp: durable_def)
  have "reward_ok frozen ranks r" using assms(1) r(1) by (simp add: entries_ok_def)
  then have "Option.bind (fp_result p) (\<lambda>r. economy_applied (fh_economy r)) = Some applied"
    using find_by_user [OF users p] r(2) status by (simp add: reward_ok_def)
  then obtain snapshot where s: "fp_result p = Some snapshot" "economy_applied (fh_economy snapshot) = Some applied"
    by (auto simp: Option.bind_eq_Some_conv)
  then have "fh_economy snapshot = EcoApplied applied" by (cases "fh_economy snapshot") simp_all
  with s(1) show "\<exists>snapshot applied. fp_result p = Some snapshot \<and> fh_economy snapshot = EcoApplied applied" by blast
qed

lemma durable_settlement_packets:
  assumes inv: "world_inv w" and room: "room_at w rid = Some room" and fin: "finalization_of w rid = Some (FinPersisting ranks rewards)"
    and durable: "\<forall>r\<in>set rewards. durable (re_status r)"
  obtains packets where "settlement_packets room ranks = Inr packets"
proof -
  obtain frozen s where r: "frozen_race room = Some frozen" "pg_settlement (race_progress_of room) = Some s"
    "finalization_ok room frozen (Some (FinPersisting ranks rewards))"
    by (rule settlement_room [OF inv fin]) (use room in simp)
  note ok = room_at_ok [OF inv room]
  have entries: "entries_ok room frozen ranks rewards" using r(3) by (simp add: finalization_ok_def)
  have "\<forall>p\<in>fst ` set (racers_of frozen). 0 \<le> p \<and> p \<le> 7"
    using racer_ids_range [OF ok r(1)] arg_cong [OF racer_ids_racers, of set frozen] by fastforce
  from settlement_result_written [OF _ race_rankable [OF ok r(1)] durable_all_applied [OF entries durable frozen_users_distinct [OF ok r(1)]] this]
  obtain packet where "serialize_settlement_result room ranks = Inr packet" using entries by (auto simp: entries_ok_def)
  then show thesis using that r(2) by (simp add: settlement_packets_def)
qed

lemma prepare_ready_step:
  assumes inv: "world_inv w"
  shows "race_step rid w (fst (prepare_ready_settlement rid w))" "snd (prepare_ready_settlement rid w) = Inr ()"
proof -
  have "race_step rid w (fst (prepare_ready_settlement rid w)) \<and> snd (prepare_ready_settlement rid w) = Inr ()"
  proof (cases "\<exists>ranks rewards. finalization_of w rid = Some (FinPersisting ranks rewards) \<and> (\<forall>r\<in>set rewards. durable (re_status r))")
    case False
    have durable_iff: "list_all (\<lambda>r. case re_status r of RpDurable _ \<Rightarrow> True | _ \<Rightarrow> False) rewards \<longleftrightarrow> (\<forall>r\<in>set rewards. durable (re_status r))" for rewards
      by (auto simp: list_all_iff durable_def split: reward_persistence_status.splits) (metis reward_persistence_status.exhaust)
    from False have "prepare_ready_settlement rid w = (w, Inr ())"
      unfolding prepare_ready_settlement_def durable_iff by (auto split: option.split settlement_finalization.split)
    with inv show ?thesis by (simp add: race_step_refl)
  next
    case True
    then obtain ranks rewards where fin: "finalization_of w rid = Some (FinPersisting ranks rewards)"
      and durable: "\<forall>r\<in>set rewards. durable (re_status r)" by blast
    obtain room frozen s where r: "room_at w rid = Some room" "frozen_race room = Some frozen"
      "pg_settlement (race_progress_of room) = Some s" "ss_finalization s = FinPersisting ranks rewards"
      "finalization_ok room frozen (Some (FinPersisting ranks rewards))" by (rule settlement_room [OF inv fin])
    obtain packets where packets: "settlement_packets room ranks = Inr packets"
      by (rule durable_settlement_packets [OF inv r(1) fin durable])
    have "list_all (\<lambda>r. case re_status r of RpDurable _ \<Rightarrow> True | _ \<Rightarrow> False) rewards"
      using durable by (auto simp: list_all_iff durable_def)
    then have "prepare_ready_settlement rid w = (update_room rid (set_finalization (\<lambda>_. FinReady ranks rewards packets)) w, Inr ())"
      using r(1) fin packets by (simp add: prepare_ready_settlement_def)
    moreover have "race_step rid w (update_room rid (set_finalization (\<lambda>_. FinReady ranks rewards packets)) w)"
      by (rule update_finalization_step [OF inv r(1-3)]) (use r(5) durable in \<open>simp add: finalization_ok_def\<close>)
    ultimately show ?thesis by simp
  qed
  then show "race_step rid w (fst (prepare_ready_settlement rid w))" "snd (prepare_ready_settlement rid w) = Inr ()" by simp_all
qed

section \<open>Completions\<close>

lemma terminal_failure_kept:
  assumes "world_inv w" "current_reward_attempt task w = Some (failures, lease)"
  shows "kept w (fst (terminal_failure task reason w))" "snd (terminal_failure task reason w) = Inr RewardTerminalFailure"
proof -
  obtain w' where "fail_reward_settlement task reason w = (w', Inr ())" "race_step (rf_room_id (rt_fence task)) w w'"
    by (rule fail_reward_settlement_step [OF assms])
  then show "kept w (fst (terminal_failure task reason w))" "snd (terminal_failure task reason w) = Inr RewardTerminalFailure"
    by (simp_all add: terminal_failure_def race_step_kept)
qed

lemma complete_retryable_kept:
  assumes inv: "world_inv w" and current: "current_reward_attempt task w = Some (failures, lease)"
  shows "kept w (fst (complete_retryable task failures now w))"
proof -
  let ?rid = "rf_room_id (rt_fence task)"
  obtain rewards r where r: "rewards_at w ?rid = Some rewards" "find_reward (rt_user_no task) rewards = Some r"
    "re_status r = RpInFlight (rt_attempt_id task) failures lease" by (rule current_attemptE [OF current])
  have "kept w (set_reward_status ?rid (rt_user_no task) (RpQueued due n) w)" for due n
    by (rule race_step_kept [OF set_reward_status_step [OF inv r(1,2)]]) (simp_all add: r(3) durable_def)
  then show ?thesis
    by (simp add: complete_retryable_def terminal_failure_kept [OF inv current] split: option.split)
qed

lemma task_participant_set_status:
  "task_participant task (set_reward_status rid u status w) = task_participant task w"
proof (cases "room_at w rid")
  case None
  then show ?thesis by (simp add: set_reward_status_def update_room_def)
next
  case (Some room)
  then show ?thesis
    by (simp add: set_reward_status_def update_room_Some task_participant_def set_finalization_def set_progress_def)
qed

lemma apply_durable_kept:
  assumes inv: "world_inv w" and current: "current_reward_attempt task w = Some (failures, lease)"
    and p: "task_participant task w \<noteq> None"
  shows "kept w (fst (apply_durable hub task applied live_rp refresh w))"
proof -
  let ?rid = "rf_room_id (rt_fence task)"
  obtain rewards r where r: "rewards_at w ?rid = Some rewards" "find_reward (rt_user_no task) rewards = Some r"
    by (rule current_attemptE [OF current])
  obtain q where q: "task_participant task w = Some q" using p by blast
  note paid = paid_step(1) [OF inv r refl q, of applied] paid_step(2) [OF inv r refl q]
  let ?w2 = "update_live_room_rp (rt_user_no task) live_rp
    (update_room ?rid (apply_economy task applied) (set_reward_status ?rid (rt_user_no task) (RpDurable applied) w))"
  have k2: "kept w ?w2"
    by (rule kept_trans [OF race_step_kept [OF paid(1)] live_rp_kept [OF kept_inv [OF race_step_kept [OF paid(1)]]]])
  have "kept w (fst (prepare_ready_settlement ?rid ?w2))"
    by (rule kept_trans [OF k2 race_step_kept [OF prepare_ready_step(1) [OF kept_inv [OF k2]]]])
  then show ?thesis
    using k2 paid(2) by (auto simp: apply_durable_def Let_def task_participant_set_status q split: sum.split prod.split)
qed

lemma complete_reward_task_live:
  assumes "expire_reward_attempt (completion_task completion) now w = (w1, Inr LeaseActive)"
    and "current_reward_attempt (completion_task completion) w1 = Some (failures, lease)"
  shows "complete_reward_task u hub completion now w = (case completion of
      RetryableFailure task \<Rightarrow> complete_retryable task failures now w1
    | FatalFailure task \<Rightarrow> terminal_failure task RewardPersistence w1
    | CompletedDurable receipt \<Rightarrow> complete_durable u hub (rd_task receipt) receipt w1)"
  unfolding complete_reward_task_def Let_def assms(1) using assms(2) by (cases completion) simp_all

lemma complete_reward_task_kept:
  assumes inv: "world_inv w"
  shows "kept w (fst (complete_reward_task u hub completion now w))"
proof -
  let ?task = "completion_task completion"
  obtain w1 res where expire: "expire_reward_attempt ?task now w = (w1, res)" by fastforce
  have k1: "kept w w1" using race_step_kept [OF expire_reward_attempt_step [OF inv, of ?task now]] expire by simp
  note inv1 = kept_inv [OF k1]
  have "kept w1 (case completion of
          RetryableFailure _ \<Rightarrow> fst (complete_retryable ?task failures now w1)
        | FatalFailure _ \<Rightarrow> fst (terminal_failure ?task RewardPersistence w1)
        | CompletedDurable receipt \<Rightarrow> fst (complete_durable u hub ?task receipt w1))"
    if current: "current_reward_attempt ?task w1 = Some (failures, lease)" for failures lease
    using complete_retryable_kept [OF inv1 current] terminal_failure_kept(1) [OF inv1 current]
      apply_durable_kept [OF inv1 current] kept_refl [OF inv1]
    by (auto simp: complete_durable_def split: reward_persistence_completion.split sum.split)
  from kept_trans [OF k1 this]
  have step: "kept w (case completion of
          RetryableFailure _ \<Rightarrow> fst (complete_retryable ?task failures now w1)
        | FatalFailure _ \<Rightarrow> fst (terminal_failure ?task RewardPersistence w1)
        | CompletedDurable receipt \<Rightarrow> fst (complete_durable u hub ?task receipt w1))"
    if "current_reward_attempt ?task w1 = Some (failures, lease)" for failures lease
    using that .
  show ?thesis
  proof (cases "res = Inr LeaseActive")
    case True
    show ?thesis
    proof (cases "current_reward_attempt ?task w1")
      case (Some x)
      obtain failures lease where x: "x = (failures, lease)" by (cases x)
      note current = Some [unfolded x]
      show ?thesis
        using step [OF current] complete_reward_task_live [OF expire [unfolded True] current, of u hub]
        by (cases completion) simp_all
    qed (simp add: complete_reward_task_def expire True k1)
  next
    case False
    then show ?thesis
      using k1 unfolding complete_reward_task_def Let_def expire by (cases res) (auto split: reward_lease_expiry.split)
  qed
qed

section \<open>Dead letters\<close>

lemma retry_reward_dead_letter_kept:
  assumes inv: "world_inv w"
  shows "kept w (fst (retry_reward_dead_letter letter now w))"
proof -
  let ?rid = "rf_room_id (rl_fence letter)"
  have "kept w (update_room ?rid (set_finalization (\<lambda>_. FinPersisting ranks (map (requeue now) rewards))) w)"
    if fin: "finalization_of w ?rid = Some (FinFailed failed)" and ranks: "dl_ranking failed = Some ranks"
      and rewards: "dl_rewards failed = rewards" for failed ranks rewards
  proof -
    obtain room frozen s where r: "room_at w ?rid = Some room" "frozen_race room = Some frozen"
      "pg_settlement (race_progress_of room) = Some s" "ss_finalization s = FinFailed failed"
      "finalization_ok room frozen (Some (FinFailed failed))" by (rule settlement_room [OF inv fin])
    have entries: "entries_ok room frozen ranks rewards"
      using r(5) ranks rewards by (simp add: finalization_ok_def letter_ok_def)
    have "reward_ok frozen ranks (requeue now y)" if "reward_ok frozen ranks y" for y
      using that reward_ok_status [OF that, of "RpQueued now 0"]
      by (cases "re_status y") (simp_all add: requeue_def durable_def)
    moreover have "re_user_no (requeue now y) = re_user_no y" for y
      by (simp add: requeue_def split: reward_persistence_status.split)
    ultimately have "entries_ok room frozen ranks (map (requeue now) rewards)"
      using entries by (auto simp: entries_ok_def comp_def)
    then have "race_step ?rid w (update_room ?rid (set_finalization (\<lambda>_. FinPersisting ranks (map (requeue now) rewards))) w)"
      by (intro update_finalization_step [OF inv r(1-3)]) (simp add: finalization_ok_def)
    then show ?thesis by (rule race_step_kept)
  qed
  then show ?thesis
    using kept_refl [OF inv] unfolding retry_reward_dead_letter_def Let_def
    by (auto split: option.split settlement_finalization.split)
qed

section \<open>The drain status\<close>

lemma lane_human:
  assumes inv: "world_inv w" and lane: "(v, fence) \<in> set (w_reward_lanes w)"
  obtains lane where "outstanding_reward_lane_of v fence w = Inr lane"
proof -
  note D = world_invD [OF inv]
  have "lane_of w v = Some fence" using lane D(1) by (simp add: keys_ok_def)
  then obtain rid room where room: "room_at w rid = Some room" "races_human room v fence" using D(5) by (auto simp: lanes_ok_def)
  note fence = races_humanD [OF D(2) room]
  obtain frozen where frozen: "frozen_race room = Some frozen" "v \<in> set (frozen_humans frozen)"
    using room(2) by (auto simp: races_human_def)
  note ok = race_roomD [OF room_at_ok [OF inv room(1)] frozen(1)]
  have human: "frozen_human v room \<noteq> None" using frozen by (auto simp: frozen_human_def frozen_humans_def find_None_iff)
  note racing = ok(7)
  have "lane_phase v room \<noteq> None"
  proof (cases "map_option ss_finalization (pg_settlement (race_progress_of room))")
    case (Some fin)
    then show ?thesis
    proof (cases fin)
      case (FinPersisting ranks rewards)
      then have "map re_user_no rewards = frozen_humans frozen"
        using ok(5) Some by (simp add: finalization_ok_def entries_ok_def)
      then have "find_reward v rewards \<noteq> None" unfolding find_reward_ex using frozen(2) by (metis image_set)
      then show ?thesis unfolding lane_phase_def Some FinPersisting using racing by (cases "phase room") simp_all
    qed (use racing Some in \<open>cases "phase room"; auto simp: lane_phase_def\<close>)+
  qed (use racing in \<open>cases "phase room"; simp add: lane_phase_def\<close>)
  with human fence room(1) show thesis
    using that by (auto simp: outstanding_reward_lane_of_def)
qed

lemma dead_letters_reported:
  assumes inv: "world_inv w" and failed: "(rid, room) \<in> set (w_protocol_rooms w)" "failed_room room = Some (fence, room', failed)"
  obtains letter where "dead_letter_of u fence room' failed = Inr letter"
proof -
  have at: "room_at w rid = Some room" using failed(1) world_invD(1) [OF inv] by (simp add: keys_ok_def)
  have fin: "room' = room" "map_option ss_finalization (pg_settlement (race_progress_of room)) = Some (FinFailed failed)"
    using failed(2) by (auto simp: failed_room_def split: option.splits settlement_finalization.splits)
  then have "finalization_of w rid = Some (FinFailed failed)" by (simp add: finalization_of_def at)
  then obtain frozen where "finalization_ok room frozen (Some (FinFailed failed))"
    by (rule settlement_room [OF inv]) (use at in simp)
  then have "letter_ok room failed" by (simp add: finalization_ok_def)
  then have "\<exists>letter. dead_letter_of u fence room' failed = Inr letter"
    by (auto simp: dead_letter_of_def Let_def fin(1) letter_ok_def failed_nickname_of_def permits_persistence_retry_def)
  then show thesis using that by blast
qed

lemma rtraverse_total: "(\<And>x. x \<in> set xs \<Longrightarrow> \<exists>y. f x = Inr y) \<Longrightarrow> \<exists>ys. rtraverse f xs = Inr ys"
  by (rule exI, rule rtraverse_Inr [of xs f "\<lambda>x. projr (f x)"]) force

lemma reward_drain_status_total:
  assumes inv: "world_inv w"
  obtains status where "reward_drain_status_of u w = Inr status"
proof -
  have "\<exists>lane. (\<lambda>(v, fence). outstanding_reward_lane_of v fence w) x = Inr lane" if "x \<in> set (w_reward_lanes w)" for x
  proof -
    obtain v fence where x: "x = (v, fence)" by (cases x)
    show ?thesis using lane_human [OF inv that [unfolded x]] by (auto simp: x)
  qed
  then obtain lanes where lanes: "rtraverse (\<lambda>(v, fence). outstanding_reward_lane_of v fence w)
      (sort_key (\<lambda>(v, fence). (rf_room_id fence, rf_race_epoch fence, v)) (w_reward_lanes w)) = Inr lanes"
    using rtraverse_total [of "sort_key (\<lambda>(v, fence). (rf_room_id fence, rf_race_epoch fence, v)) (w_reward_lanes w)"
      "\<lambda>(v, fence). outstanding_reward_lane_of v fence w"] by auto
  have "\<exists>letter. (\<lambda>(fence, room, failed). dead_letter_of u fence room failed) x = Inr letter"
    if mem: "x \<in> set (List.map_filter failed_room (map snd (w_protocol_rooms w)))" for x
  proof -
    obtain rid room where room: "(rid, room) \<in> set (w_protocol_rooms w)" "failed_room room = Some x"
      using mem by (auto simp: map_filter_mem)
    obtain fence room' failed where x: "x = (fence, room', failed)" by (cases x)
    show ?thesis using dead_letters_reported [OF inv room(1) room(2) [unfolded x], of u] by (auto simp: x)
  qed
  then obtain letters where "reward_dead_letters u w = Inr letters"
    using rtraverse_total [of "sort_key (\<lambda>(fence, _, _). (rf_room_id fence, rf_race_epoch fence))
         (List.map_filter failed_room (map snd (w_protocol_rooms w)))" "\<lambda>(fence, room, failed). dead_letter_of u fence room failed"]
    by (auto simp: reward_dead_letters_def)
  with lanes that show thesis by (simp add: reward_drain_status_of_def)
qed

end
