(* ===== verification/PlainSteps.thy ===== *)
theory PlainSteps
  imports WorldSteps
begin

text \<open>
  The directory of plain rooms keeps the invariant of the world, and its
  inconsistency errors are unreachable under it.
\<close>

lemma plain_frame:
  assumes "world_inv w" "keys_ok w'" "plain_ok w'" "ids_ok w'"
    and "w_protocol_rooms w' = w_protocol_rooms w" "w_protocol_room_by_user w' = w_protocol_room_by_user w"
    and "w_reward_lanes w' = w_reward_lanes w"
    and "\<And>rid. room_at w rid \<noteq> None \<Longrightarrow> map_of (w_rooms w) rid = None \<Longrightarrow> map_of (w_rooms w') rid = None"
  shows "world_inv w'"
proof -
  note D = world_invD [OF assms(1)]
  have "rooms_ok w'" using D(2) assms(5,8) unfolding rooms_ok_def by (metis option.distinct(1))
  moreover have "members_ok w'" "lanes_ok w'"
    using D(3,5) unfolding members_ok_def lanes_ok_def assms(5-7) by simp_all
  ultimately show ?thesis using assms by (simp add: world_inv_def)
qed

lemma create_room_inv:
  assumes inv: "world_inv w" and create: "create_room w = Some (rid, w')"
  shows "world_inv w'" and "\<not> room_taken w rid" and "room_taken w' rid"
proof -
  note D = world_invD [OF inv]
  let ?s = "\<lparr>snap_id = rid, snap_slots = replicate 8 None\<rparr>"
  from create have found: "free_room_id (room_taken w) (w_next_room_id w) = Some rid"
    and w': "w' = w\<lparr>w_next_room_id := max (rid + 1) 1, w_free_protocol_room_ids :=
      (if rid \<le> 0xFFFF then w_free_protocol_room_ids w - {ucast rid} else w_free_protocol_room_ids w),
      w_rooms := AList.update rid ?s (w_rooms w)\<rparr>"
    by (auto simp: create_room_def)
  show fresh: "\<not> room_taken w rid" using free_room_id_result [OF found] by simp
  show "room_taken w' rid" by (simp add: w' room_taken_def)
  show "world_inv w'"
  proof (rule plain_frame [OF inv])
    show "keys_ok w'" using D(1) by (simp add: keys_ok_def w')
    show "plain_ok w'"
      using D(6) fresh unfolding plain_ok_def w' room_taken_def by (auto split: if_splits)
    have "\<not> room_taken w' (ucast c)" if "c \<in> w_free_protocol_room_ids w'" for c
    proof -
      have "ucast c \<noteq> rid" using that by (auto simp: w' split: if_splits)
      moreover have "\<not> room_taken w (ucast c)" using that D(4) by (auto simp: ids_ok_def w' split: if_splits)
      ultimately show ?thesis by (simp add: room_taken_def w')
    qed
    moreover have "max (rid + 1) 1 \<noteq> (0 :: u32)"
      by (metis linorder_not_le max.cobounded2 word_gt_0 word_le_0_iff zero_neq_one)
    ultimately show "ids_ok w'" using D(4) by (simp add: ids_ok_def w')
    show "map_of (w_rooms w') r = None" if "room_at w r \<noteq> None" "map_of (w_rooms w) r = None" for r
      using that fresh by (auto simp: w' room_taken_def)
  qed (simp_all add: w')
qed

text \<open>Replacing the slots of one plain room together with one entry of the index.\<close>

lemma plain_change_inv:
  assumes inv: "world_inv w" and room: "map_of (w_rooms w) rid = Some s"
    and new: "length (snap_slots s') = 8" "distinct (flatten (snap_slots s'))"
    and w': "w' = w\<lparr>w_rooms := AList.update rid s' (w_rooms w), w_room_by_identity := index\<rparr>"
    and keys: "keys_distinct index"
    and index: "\<And>n r. map_of index n = Some r \<longleftrightarrow>
        (if r = rid then Some n \<in> set (snap_slots s') else map_of (w_room_by_identity w) n = Some r)"
  shows "world_inv w'"
proof (rule plain_frame [OF inv])
  note D = world_invD [OF inv]
  show "keys_ok w'" using D(1) keys by (simp add: keys_ok_def w')
  show "plain_ok w'"
    unfolding plain_ok_def
  proof (intro conjI allI impI)
    fix r t assume "map_of (w_rooms w') r = Some t"
    then show "length (snap_slots t) = 8" "distinct (flatten (snap_slots t))"
      using D(6) new unfolding plain_ok_def w' by (auto split: if_splits)
  next
    fix n r
    show "map_of (w_room_by_identity w') n = Some r \<longleftrightarrow> (\<exists>t. map_of (w_rooms w') r = Some t \<and> Some n \<in> set (snap_slots t))"
    proof (cases "r = rid")
      case False
      have "map_of (w_room_by_identity w) n = Some r \<longleftrightarrow> (\<exists>t. map_of (w_rooms w) r = Some t \<and> Some n \<in> set (snap_slots t))"
        using D(6) unfolding plain_ok_def by blast
      with False show ?thesis using index [of n r] by (simp add: w')
    qed (simp add: w' index)
  qed
  show "ids_ok w'" using D(4) room by (auto simp: ids_ok_def room_taken_def w')
qed (use room in \<open>auto simp: w'\<close>)

lemma join_room_inv:
  assumes inv: "world_inv w" and join: "join_room rid identity w = Inr (index, w')"
  shows "world_inv w'"
proof -
  note D = world_invD [OF inv]
  from join obtain s i where out: "map_of (w_room_by_identity w) identity = None" and s: "map_of (w_rooms w) rid = Some s"
    and i: "position (\<lambda>x. x = None) (snap_slots s) = Some i"
    and w': "w' = w\<lparr>w_rooms := AList.update rid (s\<lparr>snap_slots := (snap_slots s)[i := Some identity]\<rparr>) (w_rooms w),
               w_room_by_identity := AList.update identity rid (w_room_by_identity w)\<rparr>"
    by (auto simp: join_room_def result_iff split: if_splits)
  have slots: "length (snap_slots s) = 8" "distinct (flatten (snap_slots s))" using D(6) s unfolding plain_ok_def by blast+
  have free: "i < length (snap_slots s)" "snap_slots s ! i = None" using position_SomeD [OF i] by auto
  have here: "map_of (w_room_by_identity w) n = Some rid \<longleftrightarrow> Some n \<in> set (snap_slots s)" for n
    using D(6) s unfolding plain_ok_def by (metis option.inject)
  show ?thesis
  proof (rule plain_change_inv [OF inv s _ _ w'])
    have "Some identity \<notin> set (snap_slots s)" using here [of identity] out by simp
    then have "identity \<notin> set (flatten (snap_slots s))" by (simp add: set_flatten)
    moreover have "mset (flatten ((snap_slots s)[i := Some identity])) = mset (identity # flatten (snap_slots s))"
      using mset_flatten_Some [OF free] by simp
    ultimately show "distinct (flatten (snap_slots (s\<lparr>snap_slots := (snap_slots s)[i := Some identity]\<rparr>)))"
      using slots(2) by (metis distinct.simps(2) mset_eq_imp_distinct_iff room_snapshot.select_convs(2) room_snapshot.simps(5) room_snapshot.surjective room_snapshot.update_convs(2))
    have set: "set ((snap_slots s)[i := Some identity]) - {None} = insert (Some identity) (set (snap_slots s)) - {None}"
      using free by (auto simp: set_conv_nth nth_list_update split: if_splits) (metis option.distinct(1))+
    show "map_of (AList.update identity rid (w_room_by_identity w)) n = Some r \<longleftrightarrow>
        (if r = rid then Some n \<in> set (snap_slots (s\<lparr>snap_slots := (snap_slots s)[i := Some identity]\<rparr>))
         else map_of (w_room_by_identity w) n = Some r)" for n r
      using here [of n] out set by auto
  qed (use slots D(1) in \<open>simp_all add: keys_ok_def\<close>)
qed

lemma leave_room_cases:
  assumes inv: "world_inv w"
  obtains (absent) "map_of (w_room_by_identity w) identity = None" "leave_room identity w = (Inl (NotJoined identity), w)"
  | (left) rid s i where "map_of (w_room_by_identity w) identity = Some rid" "map_of (w_rooms w) rid = Some s"
      "i < length (snap_slots s)" "snap_slots s ! i = Some identity"
      "leave_room identity w = (Inr (), w\<lparr>w_rooms := AList.update rid (s\<lparr>snap_slots := (snap_slots s)[i := None]\<rparr>) (w_rooms w),
         w_room_by_identity := AList.delete identity (w_room_by_identity w)\<rparr>)"
proof (cases "map_of (w_room_by_identity w) identity")
  case None
  then show ?thesis by (intro absent) (simp_all add: leave_room_def)
next
  case (Some rid)
  then obtain s where s: "map_of (w_rooms w) rid = Some s" "Some identity \<in> set (snap_slots s)"
    using world_invD(6) [OF inv] unfolding plain_ok_def by blast
  then obtain i where i: "position (\<lambda>x. x = Some identity) (snap_slots s) = Some i"
    using position_None_iff [of "\<lambda>x. x = Some identity" "snap_slots s"] by fastforce
  from position_SomeD [OF this] have "i < length (snap_slots s)" "snap_slots s ! i = Some identity" by auto
  then show ?thesis by (rule left [OF Some s(1)]) (simp add: leave_room_def Some s(1) i)
qed

lemma leave_room_inv:
  assumes inv: "world_inv w"
  shows "world_inv (snd (leave_room identity w))"
  using inv
proof (cases rule: leave_room_cases [where identity = identity])
  case (left rid s i)
  note D = world_invD [OF inv]
  have slots: "length (snap_slots s) = 8" "distinct (flatten (snap_slots s))" using D(6) left(2) unfolding plain_ok_def by blast+
  have bag: "mset (flatten (snap_slots s)) = mset (identity # flatten ((snap_slots s)[i := None]))"
    using mset_flatten_None [OF left(3,4)] by simp
  have parts: "distinct (identity # flatten ((snap_slots s)[i := None]))"
    "set (flatten (snap_slots s)) = insert identity (set (flatten ((snap_slots s)[i := None])))"
    using slots(2) mset_eq_imp_distinct_iff [OF bag] mset_eq_setD [OF bag] by simp_all
  have here: "map_of (w_room_by_identity w) n = Some rid \<longleftrightarrow> Some n \<in> set (snap_slots s)" for n
    using D(6) left(2) unfolding plain_ok_def by (metis option.inject)
  have "world_inv (w\<lparr>w_rooms := AList.update rid (s\<lparr>snap_slots := (snap_slots s)[i := None]\<rparr>) (w_rooms w),
         w_room_by_identity := AList.delete identity (w_room_by_identity w)\<rparr>)"
  proof (rule plain_change_inv [OF inv left(2) _ _ refl])
    show "map_of (AList.delete identity (w_room_by_identity w)) n = Some r \<longleftrightarrow>
        (if r = rid then Some n \<in> set (snap_slots (s\<lparr>snap_slots := (snap_slots s)[i := None]\<rparr>))
         else map_of (w_room_by_identity w) n = Some r)" for n r
      using here [of n] left(1) parts by (auto simp: set_flatten [symmetric])
  qed (use slots D(1) parts in \<open>simp_all add: keys_ok_def\<close>)
  with left(5) show ?thesis by simp
qed (use inv in simp)

end
