(* ===== verification/WorldSystem.thy ===== *)
theory WorldSystem
  imports RewardInv PlainSteps
begin

text \<open>
  The world as a transition system: the commands of the actor in any order, with
  the identity steps of the registry it owns and with arbitrary changes of what
  the rooms do not depend on.  The invariant holds in every reachable world and
  implies the assertions of the source.
\<close>

section \<open>Steps\<close>

definition world_ok :: "unicode_tables \<Rightarrow> world \<Rightarrow> bool" where
  "world_ok u w \<longleftrightarrow> world_inv w \<and> registry_inv u (w_identities w)"

text \<open>What the rest of the actor may change between two room commands.\<close>

definition world_frame :: "world \<Rightarrow> world \<Rightarrow> bool" where
  "world_frame w w' \<longleftrightarrow> (\<exists>sessions ports session_id admitted tracks items quiescing gate.
     w' = w\<lparr>w_sessions := sessions, w_observed_p2p_ports := ports, w_next_session_id := session_id,
       w_admitted_identity := admitted, w_random_tracks := tracks, w_item_probability := items, w_quiescing := quiescing, w_wire_gate := gate\<rparr>)"

inductive world_step :: "unicode_tables \<Rightarrow> world \<times> operation_lease list \<Rightarrow> world \<times> operation_lease list \<Rightarrow> bool" for u where
  lobby: "drawing draw \<Longrightarrow> lobby_command u draw permits session payload w = ((w', result), rejection) \<Longrightarrow>
    world_step u (w, ls) (w', ls)"
| room: "room_protocol u session room_payload w = (w', deliveries) \<Longrightarrow> world_step u (w, ls) (w', ls)"
| migrate: "plan_protocol_migration replacement planned = Inr (delta, out) \<Longrightarrow> lock_and_commit delta w = (w', committed) \<Longrightarrow>
    world_step u (w, ls) (w', ls)"
| depart: "plan_protocol_room_exit user planned = Inr (delta, out) \<Longrightarrow> lock_and_commit delta w = (w', committed) \<Longrightarrow>
    world_step u (w, ls) (w', ls)"
| release: "remove_protocol_user user w = (w', removed) \<Longrightarrow> world_step u (w, ls) (w', ls)"
| abort: "room_at w rid = Some loading \<Longrightarrow> phase loading = PhLoading \<Longrightarrow> abort_loading_room rid w = Some w' \<Longrightarrow>
    world_step u (w, ls) (w', ls)"
| create: "create_room w = Some (rid, w') \<Longrightarrow> world_step u (w, ls) (w', ls)"
| join: "join_room rid name w = Inr (index, w') \<Longrightarrow> world_step u (w, ls) (w', ls)"
| leave: "leave_room name w = (left, w') \<Longrightarrow> world_step u (w, ls) (w', ls)"
| race: "race_command u permits session race_payload now tick w = (w', outcome) \<Longrightarrow> world_step u (w, ls) (w', ls)"
| ready: "apply_udp_dispatch_readiness candidate action sent w = (marked, w') \<Longrightarrow> world_step u (w, ls) (w', ls)"
| heartbeat: "advance_loading u clock items rewards now permits w = Inr (permits', w', deliveries) \<Longrightarrow>
    world_step u (w, ls) (w', ls)"
| take: "take_due_reward_tasks now limit w = (w', tasks) \<Longrightarrow> world_step u (w, ls) (w', ls)"
| complete: "complete_reward_task u hub completion now w = (w', disposition) \<Longrightarrow> world_step u (w, ls) (w', ls)"
| retry: "retry_reward_dead_letter letter now w = (w', retried) \<Longrightarrow> world_step u (w, ls) (w', ls)"
| identity: "identity_step u \<lparr>sys_registry = w_identities w, sys_leases = ls\<rparr> \<lparr>sys_registry = r, sys_leases = ls'\<rparr> \<Longrightarrow>
    world_step u (w, ls) (w\<lparr>w_identities := r\<rparr>, ls')"
| frame: "world_frame w w' \<Longrightarrow> world_step u (w, ls) (w', ls)"

inductive_cases world_stepE: "world_step u x y"

definition world_system_ok :: "unicode_tables \<Rightarrow> world \<times> operation_lease list \<Rightarrow> bool" where
  "world_system_ok u = (\<lambda>(w, ls). world_inv w \<and> system_inv u \<lparr>sys_registry = w_identities w, sys_leases = ls\<rparr>)"

section \<open>Every step keeps the invariant\<close>

lemma lobby_run_plan_ok:
  assumes "world_inv w" "registry_inv u (w_identities w)" "drawing draw"
  shows "world_inv (fst (fst (lobby_command u draw permits session payload w)))
    \<and> w_identities (fst (fst (lobby_command u draw permits session payload w))) = w_identities w"
proof (cases "authorize_session_operation u session w")
  case (Inr identity)
  note keeps = run_plan_inv [OF assms(1), of _ permits]
  have start: "world_inv (fst (start_room draw permits identity plan w))
      \<and> w_identities (fst (start_room draw permits identity plan w)) = w_identities w" for plan
    unfolding start_room_def by (rule keeps) (rule start_room_keeps [OF assms])
  have rejected: "world_inv (fst (publish_start_rejection permits session w'))
      \<and> w_identities (fst (publish_start_rejection permits session w')) = w_identities w'" if "world_inv w'" for w'
    unfolding publish_start_rejection_def by (rule run_plan_inv [OF that]) (simp add: plan_keeps_def that)
  have "world_inv (fst (fst (start_or_reject draw permits session identity plan w)))
      \<and> w_identities (fst (fst (start_or_reject draw permits session identity plan w))) = w_identities w" for plan
  proof -
    let ?plan = "case w_random_tracks w of None \<Rightarrow> plan | Some pools \<Rightarrow> plan\<lparr>srp_random_tracks := Some pools\<rparr>"
    obtain w' r where r: "start_room draw permits identity ?plan w = (w', r)" by (cases "start_room draw permits identity ?plan w")
    obtain w'' r' where r': "publish_start_rejection permits session w' = (w'', r')" by (cases "publish_start_rejection permits session w'")
    have ok: "world_inv w' \<and> w_identities w' = w_identities w" using start [of ?plan] r by simp
    then have "world_inv w'' \<and> w_identities w'' = w_identities w" using rejected [of w'] r' by simp
    with ok r r' show ?thesis
      by (auto simp: start_or_reject_def Let_def split: sum.split lobby_error.split)
  qed
  then show ?thesis
    using Inr assms(1)
    by (cases payload)
      (simp_all add: keeps set_slot_state_keeps change_team_keeps change_master_keeps change_track_keeps change_basic_ai_keeps
        change_closed_slots_keeps relay_keeps change_room_info_keeps kick_player_keeps lobby_command_def set_slot_state_def change_team_def change_master_def change_track_def change_basic_ai_def
        change_closed_slots_def relay_rider_talk_def relay_macro_chat_def change_room_info_def kick_player_def)
qed (use assms in \<open>simp add: lobby_command_def\<close>)

lemma identities_release_of [simp]: "w_identities (release_of f w) = w_identities w"
  by (simp add: release_of_def split: option.split)

lemma enter_room_identities [simp]:
  "w_identities (enter_room rid v room w) = w_identities w" "w_identities (release_room_id rid w) = w_identities w"
  by (simp_all add: enter_room_def release_room_id_def)

lemma remove_protocol_user_identities: "w_identities (fst (remove_protocol_user v w)) = w_identities w"
  by (simp add: remove_protocol_user_def Let_def split: option.split sum.split)

lemma allocate_identities: "allocate_protocol_room_id w = (r, w') \<Longrightarrow> w_identities w' = w_identities w"
  by (auto simp: allocate_protocol_room_id_def Let_def split: prod.splits option.splits)

lemma open_room_identities: "w_identities (fst (open_room channel identity request participant w)) = w_identities w"
  using allocate_identities [of w]
  by (auto simp: open_room_def split: prod.split option.split bool.split sum.split)

lemma try_join_identities: "w_identities (fst (try_join identity request participant w)) = w_identities w"
  by (auto simp: try_join_def Let_def split: prod.split option.split bool.split sum.split)

lemma room_protocol_identities: "w_identities (fst (room_protocol u session payload w)) = w_identities w"
  using open_room_identities try_join_identities remove_protocol_user_identities
  by (auto simp: room_protocol_def protocol_room_list_def protocol_first_state_def protocol_create_room_def
      protocol_join_room_def protocol_leave_room_def Let_def split_def split: sum.split room_command_payload.split option.split)

lemma commit_delta_identities: "w_identities (commit_delta delta w) = w_identities w"
  by (simp add: commit_delta_def Let_def split: option.split)

lemma lock_and_commit_ok:
  assumes "world_inv w"
    and "\<And>d. delta = Some d \<Longrightarrow> lock_delta d w \<Longrightarrow> world_inv (commit_delta d w)"
  shows "world_inv (fst (lock_and_commit delta w)) \<and> w_identities (fst (lock_and_commit delta w)) = w_identities w"
  using assms by (auto simp: lock_and_commit_def commit_delta_identities split: option.split)

lemma abort_identities: "abort_loading_room rid w = Some w' \<Longrightarrow> w_identities w' = w_identities w"
  by (auto simp: abort_loading_room_def split: option.split)

lemma plain_identities:
  "create_room w = Some (rid, w') \<Longrightarrow> w_identities w' = w_identities w"
  "join_room r name w = Inr (index, w') \<Longrightarrow> w_identities w' = w_identities w"
  "w_identities (snd (leave_room name w)) = w_identities w"
  by (auto simp: create_room_def join_room_def leave_room_def result_iff Let_def split: if_splits option.splits)

lemma readiness_kept:
  assumes "world_inv w" "apply_udp_dispatch_readiness candidate action sent w = (marked, w')"
  shows "kept w w'"
  using assms race_step_kept [OF mark_loading_ready_step [OF assms(1)]]
  by (auto simp: apply_udp_dispatch_readiness_def kept_refl split: if_splits option.splits)

lemma world_step_ok:
  assumes "world_system_ok u x" "world_step u x y"
  shows "world_system_ok u y"
proof -
  have "world_inv (fst y) \<and> w_identities (fst y) = w_identities (fst x) \<and> snd y = snd x \<or> world_system_ok u y"
    using assms(2,1)
  proof cases
    case (lobby draw permits session payload w w' result rejection ls)
    with assms(1) lobby_run_plan_ok [of w u draw permits session payload] show ?thesis
      by (simp add: world_system_ok_def system_inv_def)
  next
    case (room session payload w w' deliveries ls)
    with assms(1) room_protocol_inv [of w u session payload] room_protocol_identities [of u session payload w] show ?thesis
      by (simp add: world_system_ok_def)
  next
    case (migrate replacement planned delta out w w' committed ls)
    with assms(1) lock_and_commit_ok [of w delta] commit_migration_inv [of replacement planned _ out w] show ?thesis
      by (simp add: world_system_ok_def)
  next
    case (depart user planned delta out w w' committed ls)
    with assms(1) lock_and_commit_ok [of w delta] commit_room_exit_inv [of user planned _ out w] show ?thesis
      by (simp add: world_system_ok_def)
  next
    case (release user w w' removed ls)
    with assms(1) remove_protocol_user_inv(1) [of w user] remove_protocol_user_identities [of user w] show ?thesis
      by (simp add: world_system_ok_def)
  next
    case (abort w rid loading w' ls)
    with assms(1) abort_loading_room_inv [of w rid loading w'] abort_identities [of rid w w'] show ?thesis
      by (simp add: world_system_ok_def)
  next
    case (create w rid w' ls)
    with assms(1) create_room_inv(1) [of w rid w'] plain_identities(1) [of w rid w'] show ?thesis
      by (simp add: world_system_ok_def)
  next
    case (join rid name w index w' ls)
    with assms(1) join_room_inv [of w rid name index w'] plain_identities(2) [of rid name w index w'] show ?thesis
      by (simp add: world_system_ok_def)
  next
    case (leave name w left w' ls)
    with assms(1) leave_room_inv [of w name] plain_identities(3) [of name w] show ?thesis
      by (simp add: world_system_ok_def)
  next
    case (race permits session race_payload now tick w w' outcome ls)
    with assms(1) race_command_inv [of w u permits session race_payload now tick] show ?thesis
      by (simp add: world_system_ok_def)
  next
    case (ready candidate action sent w marked w' ls)
    with assms(1) readiness_kept [of w candidate action sent marked w'] show ?thesis
      by (simp add: world_system_ok_def kept_def)
  next
    case (heartbeat clock items rewards now permits w permits' w' deliveries ls)
    with assms(1) advance_loading_total [of w u clock items rewards now permits] show ?thesis
      by (auto simp: world_system_ok_def)
  next
    case (take now limit w w' tasks ls)
    with assms(1) take_due_reward_tasks_kept [of w now limit] show ?thesis
      by (simp add: world_system_ok_def kept_def)
  next
    case (complete hub completion now w w' disposition ls)
    with assms(1) complete_reward_task_kept [of w u hub completion now] show ?thesis
      by (simp add: world_system_ok_def kept_def)
  next
    case (retry letter now w w' retried ls)
    with assms(1) retry_reward_dead_letter_kept [of w letter now] show ?thesis
      by (simp add: world_system_ok_def kept_def)
  next
    case (identity w ls r ls')
    have "system_inv u \<lparr>sys_registry = r, sys_leases = ls'\<rparr>"
      using assms(1) identity(1) system_step [OF identity(3)] by (simp add: world_system_ok_def)
    moreover have "world_inv (w\<lparr>w_identities := r\<rparr>) = world_inv w" by (rule world_inv_frame) simp_all
    ultimately show ?thesis using assms(1) identity by (simp add: world_system_ok_def)
  next
    case (frame w w' ls)
    then have "world_inv w' = world_inv w" by (intro world_inv_frame) (auto simp: world_frame_def)
    with frame assms(1) show ?thesis by (auto simp: world_system_ok_def world_frame_def)
  qed
  with assms(1) show ?thesis by (auto simp: world_system_ok_def split_def)
qed

lemma world_start_ok: "world_system_ok u (world_default, [])"
  using world_default_inv registry_new_inv
  by (simp add: world_system_ok_def system_inv_def lease_inv_def world_default_def registry_new_def)

interpretation world_run: step_invariant "\<lambda>x. x = (world_default, [])" "world_step u" "world_system_ok u" for u
  by unfold_locales (use world_start_ok world_step_ok in blast)+

section \<open>The assertions of the source\<close>

lemma occupant_count_iff:
  assumes "room_core room" "i < 8"
  shows "occupant_count room i = (if i \<in> taken room then 1 else 0)"
  using assms room_layoutD [OF room_coreD(1) [OF assms(1)]]
  by (auto simp: occupant_count_def option_count_def taken_def occupied_def room_exclusive_def)

lemma positioned_members_result:
  assumes core: "room_core room"
  shows "distinct ids \<Longrightarrow> \<forall>m\<in>set ids. unat m \<in> taken room \<and> \<not> seen ! unat m \<Longrightarrow> length seen = 8 \<Longrightarrow>
    \<exists>out. positioned_members room seen ids = Some out \<and> length out = 8
      \<and> (\<forall>i<8. out ! i \<longleftrightarrow> seen ! i \<or> of_nat i \<in> set ids)"
proof (induction ids arbitrary: seen)
  case (Cons m ids)
  note layout = room_coreD(1) [OF core]
  have m: "unat m \<in> taken room" "\<not> seen ! unat m" using Cons.prems by auto
  then have less: "unat m < 8" by (simp add: taken_less [OF layout])
  have "\<forall>k\<in>set ids. unat k \<in> taken room \<and> \<not> (seen[unat m := True]) ! unat k"
    using Cons.prems by (metis distinct.simps(2) list.set_intros(2) nth_list_update_neq word_unat_eq_iff)
  with Cons.IH [of "seen[unat m := True]"] Cons.prems obtain out where
    out: "positioned_members room (seen[unat m := True]) ids = Some out" "length out = 8"
      "\<forall>i<8. out ! i \<longleftrightarrow> seen[unat m := True] ! i \<or> of_nat i \<in> set ids" by auto
  have eq: "unat m = i \<longleftrightarrow> m = of_nat i" if "i < 8" for i
    using that by (simp add: word_unat_eq_iff unat_of_nat_small del: unat_of_nat)
  have "\<forall>i<8. out ! i \<longleftrightarrow> seen ! i \<or> of_nat i \<in> set (m # ids)"
    using out(3) eq Cons.prems(3) less by (auto simp: nth_list_update)
  with out(1,2) m less occupant_count_iff [OF core less] show ?case by simp
qed simp

lemma assert_seats:
  assumes inv: "room_inv room"
  shows "debug_assert_seats room"
proof -
  note core = room_invD(1) [OF inv]
  note layout = room_layoutD [OF room_coreD(1) [OF core]]
  let ?ids = "flatten (slot_positions room)"
  have "distinct ?ids"
    by (rule distinct_flatten) (metis placed_inj [OF layout(7)])
  moreover have owner: "unat m \<in> taken room" if "m \<in> set ?ids" for m
  proof -
    from that have "Some m \<in> set (slot_positions room)" by (simp add: set_flatten)
    then obtain s where "s < length (slot_positions room)" "slot_positions room ! s = Some m" by (metis in_set_conv_nth)
    then show ?thesis by (rule placed_owner [OF layout(7)])
  qed
  ultimately obtain out where out: "positioned_members room (replicate 8 False) ?ids = Some out"
    "\<forall>i<8. out ! i \<longleftrightarrow> of_nat i \<in> set ?ids"
    using positioned_members_result [OF core, of ?ids "replicate 8 False"] taken_less [OF room_coreD(1) [OF core]] by fastforce
  have all: "of_nat i \<in> set ?ids \<longleftrightarrow> i \<in> taken room" if "i < 8" for i
  proof
    assume "of_nat i \<in> set ?ids"
    from owner [OF this] that show "i \<in> taken room" by (simp add: unat_of_nat_small)
  next
    assume "i \<in> taken room"
    moreover have "i < 256" using that by simp
    ultimately obtain s where "s < length (slot_positions room)" "slot_positions room ! s = Some (of_nat i)"
      by (rule placed_slot [OF layout(7)])
    then show "of_nat i \<in> set ?ids" by (metis nth_mem set_flatten)
  qed
  have users: "\<forall>m\<in>set (room_members room). user_no (prm_player m) = prm_user_no m"
    using room_coreD(2) [OF core] by (simp add: room_users_def)
  have member: "members_by_id room ! i = Some m \<Longrightarrow> i < 8 \<Longrightarrow> m \<in> set (room_members room)" for i m
    using layout(1) by (metis nth_mem room_members_set)
  have "occupant_count room i \<le> 1 \<and> (occupant_count room i = 1 \<longleftrightarrow> out ! i)
      \<and> (case members_by_id room ! i of None \<Rightarrow> True | Some m \<Rightarrow> user_no (prm_player m) = prm_user_no m)
      \<and> (case closed_slots_by_id room ! i of None \<Rightarrow> True | Some c \<Rightarrow> slot_positions room ! unat c = Some (of_nat i))"
    if "i < 8" for i
  proof (intro conjI)
    have seated: "out ! i \<longleftrightarrow> i \<in> taken room" using out(2) all [OF that] that by blast
    show "occupant_count room i \<le> 1" "occupant_count room i = 1 \<longleftrightarrow> out ! i"
      unfolding occupant_count_iff [OF core that] using seated by simp_all
    show "case members_by_id room ! i of None \<Rightarrow> True | Some m \<Rightarrow> user_no (prm_player m) = prm_user_no m"
      using users member [of i] that by (simp split: option.split)
    show "case closed_slots_by_id room ! i of None \<Rightarrow> True | Some c \<Rightarrow> slot_positions room ! unat c = Some (of_nat i)"
      using layout(8) that by (simp add: closed_linked_def split: option.split)
  qed
  with out(1) users show ?thesis
    by (auto simp: debug_assert_seats_def room_members_set set_flatten)
qed

lemma assert_master: "room_inv room \<Longrightarrow> debug_assert_master room"
  by (auto simp: room_inv_def room_mastered_def debug_assert_master_def all_None_iff)

lemma distinct_concat_entries:
  assumes "distinct (map fst m)" "\<And>k v. (k, v) \<in> set m \<Longrightarrow> distinct (f k v)"
    and "\<And>k v k' v' z. (k, v) \<in> set m \<Longrightarrow> (k', v') \<in> set m \<Longrightarrow> z \<in> set (f k v) \<Longrightarrow> z \<in> set (f k' v') \<Longrightarrow> k = k'"
  shows "distinct (concat (map (\<lambda>(k, v). f k v) m))"
  using assms
proof (induction m)
  case (Cons x m)
  obtain k v where x: "x = (k, v)" by (cases x)
  have "set (f k v) \<inter> set (concat (map (\<lambda>(k, v). f k v) m)) = {}"
  proof (rule ccontr)
    assume "set (f k v) \<inter> set (concat (map (\<lambda>(k, v). f k v) m)) \<noteq> {}"
    then obtain z k' v' where z: "z \<in> set (f k v)" "(k', v') \<in> set m" "z \<in> set (f k' v')" by auto
    then have "k = k'" using Cons.prems(3) [of k v k' v' z] x by simp
    with z(2) Cons.prems(1) x show False by (force simp: image_iff)
  qed
  moreover have "distinct (concat (map (\<lambda>(k, v). f k v) m))"
    using Cons.prems by (intro Cons.IH) (auto; blast)+
  ultimately show ?case using Cons.prems(2) [of k v] x by simp
qed simp

lemma same_length_keys:
  assumes "distinct xs" "distinct (map fst m)" "set xs = dom (map_of m)"
  shows "length xs = length m"
proof -
  have "set xs = set (map fst m)" using assms(3) by (simp add: dom_map_of_conv_image_fst)
  with assms(1,2) show ?thesis by (metis distinct_card length_map)
qed

lemma set_keys: "set (map fst m) = {k. \<exists>v. (k, v) \<in> set m}"
  by force

lemma race_lanes_mem:
  "(v, f) \<in> set (case frozen_race room of None \<Rightarrow> [] | Some frozen \<Rightarrow> map (\<lambda>u. (u, fr_fence frozen)) (frozen_humans frozen))
     \<longleftrightarrow> races_human room v f"
  by (cases "frozen_race room") (auto simp: races_human_def)

text \<open>Each assertion of \<open>debug_assert_invariants\<close> but the one on the number of frozen IDs.\<close>

lemma assertions_hold:
  assumes inv: "world_inv w"
  shows "debug_assert_invariants w"
proof -
  note D = world_invD [OF inv]
  have entry: "(rid, room) \<in> set (w_protocol_rooms w) \<longleftrightarrow> room_at w rid = Some room" for rid room
    using D(1) by (simp add: keys_ok_def)
  have plain: "(rid, s) \<in> set (w_rooms w) \<longleftrightarrow> map_of (w_rooms w) rid = Some s" for rid s
    using D(1) by (simp add: keys_ok_def)
  let ?names = "concat (map (\<lambda>(rid, snapshot). map (\<lambda>n. (n, rid)) (flatten (snap_slots snapshot))) (w_rooms w))"
  have names: "(n, rid) \<in> set ?names \<longleftrightarrow> map_of (w_room_by_identity w) n = Some rid" for n rid
    using D(6) plain unfolding plain_ok_def by (fastforce simp: set_flatten)
  let ?users = "concat (map (\<lambda>(rid, room). user_nos room) (w_protocol_rooms w))"
  have users: "v \<in> set ?users \<longleftrightarrow> (\<exists>rid. room_of w v = Some rid)" for v
    using D(3) entry unfolding members_ok_def by fastforce
  have "distinct ?names"
  proof (rule distinct_concat_entries)
    show "distinct (map (\<lambda>n. (n, rid)) (flatten (snap_slots s)))" if "(rid, s) \<in> set (w_rooms w)" for rid s
      using that D(6) unfolding plain plain_ok_def by (simp add: distinct_map inj_on_def)
  qed (use D(1) in \<open>auto simp: keys_ok_def\<close>)
  moreover have "inj_on fst (set ?names)"
    by (rule inj_onI) (metis names option.inject prod.collapse)
  ultimately have name_keys: "distinct (map fst ?names)" by (simp add: distinct_map)
  have "set (map fst ?names) = dom (map_of (w_room_by_identity w))"
    unfolding set_keys dom_def names by simp
  from same_length_keys [OF name_keys _ this] have "length ?names = length (w_room_by_identity w)"
    using D(1) by (simp add: keys_ok_def)
  moreover have "distinct ?users"
  proof (rule distinct_concat_entries)
    show "distinct (user_nos room)" if "(rid, room) \<in> set (w_protocol_rooms w)" for rid room
      using that entry room_at_inv [OF inv] room_coreD(2) [OF room_invD(1)] by (simp add: room_users_def)
    show "rid = rid'" if "(rid, room) \<in> set (w_protocol_rooms w)" "(rid', room') \<in> set (w_protocol_rooms w)"
      "v \<in> set (user_nos room)" "v \<in> set (user_nos room')" for rid room rid' room' v
    proof -
      have "room_of w v = Some rid" "room_of w v = Some rid'"
        using that D(3) unfolding entry members_ok_def by blast+
      then show ?thesis by simp
    qed
  qed (use D(1) in \<open>simp add: keys_ok_def\<close>)
  moreover have "length ?users = length (w_protocol_room_by_user w)"
  proof (rule same_length_keys [OF \<open>distinct ?users\<close>])
    show "set ?users = dom (room_of w)" using users by (simp add: dom_def set_eq_iff del: set_concat)
  qed (use D(1) in \<open>simp add: keys_ok_def\<close>)
  moreover have expected: "(v, f) \<in> set (expected_lanes w) \<longleftrightarrow> lane_of w v = Some f" for v f
  proof -
    have "(v, f) \<in> set (expected_lanes w) \<longleftrightarrow> (\<exists>rid room. (rid, room) \<in> set (w_protocol_rooms w) \<and> races_human room v f)"
    proof -
      have "(v, f) \<in> set (expected_lanes w) \<longleftrightarrow> (\<exists>x\<in>set (w_protocol_rooms w). (v, f) \<in> set ((\<lambda>(rid, room).
          case frozen_race room of None \<Rightarrow> [] | Some frozen \<Rightarrow> map (\<lambda>u. (u, fr_fence frozen)) (frozen_humans frozen)) x))"
        unfolding expected_lanes_def by simp
      also have "\<dots> \<longleftrightarrow> (\<exists>x\<in>set (w_protocol_rooms w). races_human (snd x) v f)"
        by (rule bex_cong [OF refl]) (simp only: split_def race_lanes_mem)
      finally show ?thesis by (simp add: Bex_def)
    qed
    with entry D(5) show ?thesis by (simp add: lanes_ok_def)
  qed
  moreover have "distinct (map fst (expected_lanes w))"
  proof -
    let ?lanes = "\<lambda>room. case frozen_race room of None \<Rightarrow> [] | Some frozen \<Rightarrow> map (\<lambda>u. (u, fr_fence frozen)) (frozen_humans frozen)"
    have "distinct (expected_lanes w)"
      unfolding expected_lanes_def
    proof (rule distinct_concat_entries)
      fix rid room assume "(rid, room) \<in> set (w_protocol_rooms w)"
      then have "debug_assert_frozen rid room" using D(2) entry unfolding rooms_ok_def room_ok_def race_ok_def by blast
      then show "distinct (?lanes room)"
        by (auto simp: debug_assert_frozen_def frozen_humans_def distinct_map inj_on_def distinct_map_filter split: option.splits)
    next
      fix rid room rid' room' z
      assume rooms: "(rid, room) \<in> set (w_protocol_rooms w)" "(rid', room') \<in> set (w_protocol_rooms w)"
        and z: "z \<in> set (?lanes room)" "z \<in> set (?lanes room')"
      obtain v f where vf: "z = (v, f)" by (cases z)
      have "races_human room v f" "races_human room' v f" using z unfolding vf race_lanes_mem by simp_all
      then show "rid = rid'" using races_humanD [OF D(2)] rooms entry by metis
    qed (use D(1) in \<open>simp add: keys_ok_def\<close>)
    moreover have "inj_on fst (set (expected_lanes w))"
      by (rule inj_onI) (metis expected option.inject prod.collapse)
    ultimately show ?thesis by (simp add: distinct_map)
  qed
  moreover have "set (expected_lanes w) = set (w_reward_lanes w)"
    using expected D(1) by (auto simp: keys_ok_def)
  moreover have "\<forall>(rid, room)\<in>set (w_protocol_rooms w). room_id_of room = rid \<and> rid \<le> 0xFFFF \<and> map_of (w_rooms w) rid = None
          \<and> debug_assert_seats room \<and> debug_assert_master room
          \<and> (\<forall>u\<in>set (user_nos room). room_of w u = Some rid)
          \<and> debug_assert_frozen rid room \<and> debug_assert_handshake room \<and> debug_assert_progress room"
  proof (clarify)
    fix rid room assume "(rid, room) \<in> set (w_protocol_rooms w)"
    then have room: "room_at w rid = Some room" using entry by simp
    note rinv = room_at_inv [OF inv room]
    have "\<forall>v\<in>set (user_nos room). room_of w v = Some rid" using D(3) room unfolding members_ok_def by blast
    then show "room_id_of room = rid \<and> rid \<le> 0xFFFF \<and> map_of (w_rooms w) rid = None
          \<and> debug_assert_seats room \<and> debug_assert_master room
          \<and> (\<forall>u\<in>set (user_nos room). room_of w u = Some rid)
          \<and> debug_assert_frozen rid room \<and> debug_assert_handshake room \<and> debug_assert_progress room"
      using D(2) room assert_seats [OF rinv] assert_master [OF rinv] unfolding rooms_ok_def room_ok_def race_ok_def by blast
  qed
  moreover have "\<forall>c\<in>w_free_protocol_room_ids w. c \<noteq> 0 \<and> map_of (w_rooms w) (ucast c) = None \<and> room_at w (ucast c) = None"
    using D(4) by (auto simp: ids_ok_def room_taken_def)
  moreover have "\<forall>(n, rid)\<in>set ?names. map_of (w_room_by_identity w) n = Some rid"
    by (rule ballI, unfold split_paired_all, simp only: names prod.case)
  ultimately show ?thesis
    unfolding debug_assert_invariants_def Let_def using name_keys by (intro conjI)
qed

end
