(* ===== verification/WorldProps.thy ===== *)
theory WorldProps
  imports WorldSystem IdentityProps
begin

text \<open>
  Properties of the world actor's rooms: the assertions of every reachable world,
  the memberships as an abstract map from rooms to sets of users that the room
  commands refine, the planned exits against the immediate ones, and the room IDs.
\<close>

section \<open>Reachable worlds\<close>







section \<open>Memberships\<close>











text \<open>A session opens the first room of its channel.\<close>

definition demo_identity :: identity_binding where
  "demo_identity = demo_binding\<lparr>ib_channel := Some \<lparr>cb_channel_id = 1, cb_game_type = 67\<rparr>\<rparr>"

definition demo_request :: ch_create_room_request where
  "demo_request = \<lparr>ccr_room_name = [82], ccr_password = [], ccr_game_type = 1, ccr_reserved_after_game_type = 0,
     ccr_ai_count = 0, ccr_room_data_header = 0, ccr_room_data = replicate 32 0,
     ccr_connection_context = [], ccr_reserved_before_ai_switch = 0, ccr_ai_switch = 0,
     ccr_reserved_after_ai_switch_1 = 0, ccr_reserved_after_ai_switch_2 = 0, ccr_reserved_tail = 0, ccr_reserved_last = 0\<rparr>"

definition demo_participant :: room_participant where
  "demo_participant = \<lparr>rp_player = \<lparr>player_type = 2, user_no = 1, p2p_address = [127, 0, 0, 1], p2p_port = 0,
       nickname = [65], emblem_1 = 0, emblem_2 = 0, emblem_3 = 0, rider_item_snapshot = replicate 48 0, card = [],
       rp = 0, team = 0, ranking = 0, rider_school_level = 0, club_name = [], club_mark_logo = 0\<rparr>,
     rp_observer = False, rp_observer_master = False, rp_kart_physics = replicate 235 0,
     rp_kart_physics_variants = None, rp_floater_codes = []\<rparr>"

definition demo_seated :: "bool \<times> protocol_room_state" where
  "demo_seated = add_participant 1 (prepare_participant world_default demo_identity demo_participant)
     (room_new 1 (created_settings \<lparr>cb_channel_id = 1, cb_game_type = 67\<rparr> demo_request))"

definition demo_start_world :: world where
  "demo_start_world = world_default\<lparr>w_admitted_identity := Some demo_identity\<rparr>"

definition demo_lobby :: world where
  "demo_lobby = enter_room 1 1 (snd demo_seated) (demo_start_world\<lparr>w_next_room_id := 2\<rparr>)"

lemma room_new_free:
  "occupied (members_by_id (room_new rid st)) = {}" "occupied (ais_by_id (room_new rid st)) = {}"
  "occupied (closed_slots_by_id (room_new rid st)) = {}"
  by (simp_all add: room_new_def occupied_def)

lemma demo_seated_True: "demo_seated = (True, snd demo_seated)"
proof -
  have "(0::nat) \<in> {..<8}" by simp
  then have "{} \<noteq> {..<8::nat}" by blast
  moreover have "rp_observer (prepare_participant world_default demo_identity demo_participant) = False"
    by (simp add: demo_participant_def)
  ultimately have "fst demo_seated"
    using add_participant_refused [OF room_new_core, of 1 "prepare_participant world_default demo_identity demo_participant" 1]
    by (simp add: demo_seated_def room_new_free)
  then show ?thesis by (simp add: prod_eq_iff)
qed

definition demo_member :: protocol_room_member where
  "demo_member = member_of 1 ((rp_player (prepare_participant world_default demo_identity demo_participant))
     \<lparr>player_type := 2, team := 0, ranking := 0\<rparr>) (prepare_participant world_default demo_identity demo_participant)"

lemma demo_room_eq: "snd demo_seated = (room_new 1 (created_settings \<lparr>cb_channel_id = 1, cb_game_type = 67\<rparr> demo_request))
   \<lparr>members_by_id := Some demo_member # replicate 7 None, slot_positions := Some 0 # replicate 7 None\<rparr>"
proof -
  let ?room = "room_new 1 (created_settings \<lparr>cb_channel_id = 1, cb_game_type = 67\<rparr> demo_request)"
  have arrays: "members_by_id ?room = None # replicate 7 None" "slot_positions ?room = None # replicate 7 None"
    by (simp_all add: room_new_def room_slot_count_def numeral_eq_Suc)
  have vacant: "vacant_member_id ?room = Some 0"
    by (simp add: vacant_member_id_def room_new_def room_slot_count_def upt_conv_Cons)
  have "set_game_type (settings ?room) = 1" by (simp add: room_new_def created_settings_def demo_request_def)
  then have "\<not> team_mode ?room" by (simp add: team_mode_def)
  moreover have "position (\<lambda>p. p = None) (slot_positions ?room) = Some 0" unfolding arrays by simp
  ultimately have "admission_slot_and_team ?room = Some (0, 0)" by (simp only: admission_slot_and_team_def if_True not_False_eq_True option.map)
  moreover have "\<not> rp_observer demo_participant" by (simp add: demo_participant_def)
  moreover have "room_master ?room = 0" by (simp add: room_new_def)
  moreover note arrays vacant
  ultimately show ?thesis
    by (simp add: demo_seated_def add_participant_def add_racer_def Let_def demo_member_def member_by_player_id_def)
qed

lemma demo_accepted: "accepts_creation demo_identity demo_request demo_start_world = Some \<lparr>cb_channel_id = 1, cb_game_type = 67\<rparr>"
  by (simp add: accepts_creation_def demo_identity_def demo_binding_def demo_request_def demo_start_world_def world_default_def
      expected_room_game_type_def)

lemma demo_start_world_fields [simp]:
  "w_free_protocol_room_ids demo_start_world = {}" "w_next_room_id demo_start_world = 1"
  "w_identities demo_start_world = registry_new" "w_observed_p2p_ports demo_start_world = []"
  "demo_start_world\<lparr>w_free_protocol_room_ids := {}\<rparr> = demo_start_world"
  by (simp_all add: demo_start_world_def world_default_def)

lemma scan_first: "\<not> used (ucast c) \<Longrightarrow> 0 < n \<Longrightarrow> scan_ids used n c = Some c"
  by (cases n) simp_all

lemma demo_allocated: "allocate_protocol_room_id demo_start_world = (Some 1, demo_start_world\<lparr>w_next_room_id := 2\<rparr>)"
proof -
  have free: "recycled_id used {} = (None, {})" for used by (subst recycled_id.simps) simp
  have "\<not> room_taken demo_start_world 1"
    by (simp add: room_taken_def demo_start_world_def world_default_def)
  then have "scan_ids (room_taken demo_start_world) 65535 1 = Some 1" by (simp add: scan_first)
  then show ?thesis
    by (simp add: allocate_protocol_room_id_def first_candidate_def free)
qed

lemma demo_room_inv: "room_inv (snd demo_seated) \<and> user_nos (snd demo_seated) = [1]"
proof -
  let ?st = "created_settings \<lparr>cb_channel_id = 1, cb_game_type = 67\<rparr> demo_request"
  let ?p = "prepare_participant world_default demo_identity demo_participant"
  have add: "add_participant 1 ?p (room_new 1 ?st) = (True, snd demo_seated)"
    using demo_seated_True by (simp add: demo_seated_def)
  have ok: "participant_ok 1 ?p"
    by (simp add: participant_ok_def prepare_participant_def demo_participant_def demo_identity_def demo_binding_def player_strings_ok_def
        encode_utf16_def encode_utf16_char_def room_limit_defs split: prod.split)
  have "mset (user_nos (snd demo_seated)) = {#1#}"
    using add_participant_users [OF room_new_core add] by simp
  moreover have "room_inv (snd demo_seated)"
    by (rule add_participant_inv [OF room_new_inv _ _ ok add]) (simp, simp add: room_new_def)
  ultimately show ?thesis by (metis mset_single_iff_right)
qed

lemma demo_created:
  "room_protocol u 7 (RoomCreate demo_request demo_participant) demo_start_world
     = (demo_lobby, Inr [(7, [serialize_ch_create_room_reply Created 1])])"
proof -
  have auth: "authorize_session_operation u 7 demo_start_world = Inr demo_identity"
    by (simp add: authorize_session_operation_def demo_start_world_def demo_identity_def demo_binding_def)
  obtain packet where sent: "serialize_gr_slot_data (slot_data (snd demo_seated)) = Inr packet"
    using slot_data_sendable [OF room_invD(1)] demo_room_inv by blast
  have "prepare_participant (demo_start_world\<lparr>w_next_room_id := 2\<rparr>) demo_identity demo_participant
      = prepare_participant world_default demo_identity demo_participant"
    by (simp add: prepare_participant_def observed_p2p_port_def demo_start_world_def world_default_def)
  then have "add_participant 1 (prepare_participant (demo_start_world\<lparr>w_next_room_id := 2\<rparr>) demo_identity demo_participant)
      (room_new 1 (created_settings \<lparr>cb_channel_id = 1, cb_game_type = 67\<rparr> demo_request)) = (True, snd demo_seated)"
    using demo_seated_True by (simp add: demo_seated_def)
  moreover have "ib_user_no demo_identity = 1" "ccr_game_type demo_request = 1" by (simp_all add: demo_identity_def demo_binding_def demo_request_def)
  ultimately show ?thesis
    using auth demo_accepted demo_allocated sent
    by (simp add: room_protocol_def protocol_create_room_def open_room_def demo_lobby_def)
qed

lemma demo_start_inv: "world_inv demo_start_world"
  using world_default_inv world_inv_frame [of demo_start_world world_default] by (simp add: demo_start_world_def)

lemma demo_lobby_inv: "world_inv demo_lobby"
  using room_protocol_inv [OF demo_start_inv] demo_created by (metis fst_conv)

lemma demo_lobby_at: "room_of demo_lobby 1 = Some 1" "room_at demo_lobby 1 = Some (snd demo_seated)"
  by (simp_all add: demo_lobby_def enter_room_def insert_room_def)


section \<open>Planned exits\<close>

text \<open>C13: A departure that was planned earlier and is committed now, after its checks, does to the
  world exactly what the immediate removal of the user does; if the user's room changed in between,
  the commit is refused and nothing changes.  Planning itself cannot fail, and it prepares the
  deliveries the immediate removal would have sent.\<close>

theorem planned_exit_is_removal:
  assumes planned: "world_inv planned" and inv: "world_inv w"
  shows "\<exists>delta ds. plan_protocol_room_exit v planned = Inr (delta, ds)
    \<and> snd (remove_protocol_user v planned) = Inr ds
    \<and> lock_and_commit delta w = (case room_of planned v of
         None \<Rightarrow> (w, Inr ())
       | Some rid \<Rightarrow>
           if room_of w v = Some rid \<and> room_at w rid = room_at planned rid
           then (fst (remove_protocol_user v w), Inr ())
           else (w, Inl (ProtocolRoomTransitionInconsistent v)))"
proof (cases "room_of planned v")
  case None
  then show ?thesis by (simp add: plan_protocol_room_exit_def remove_protocol_user_def lock_and_commit_def)
next
  case (Some rid)
  then obtain room where room: "room_at planned rid = Some room"
    using world_invD(3) [OF planned] by (auto simp: members_ok_def)
  obtain b "next" where remove: "remove_user v room = (b, next)" by (cases "remove_user v room")
  note gone = remove_user_leaves [OF planned room Some remove]
  obtain packet where sent: "serialize_gr_slot_data (slot_data next) = Inr packet"
    using slot_data_sendable [OF room_invD(1) [OF gone(2)]] by blast
  let ?drop = "room_is_empty next \<and> phase next \<in> {PhLobby, PhLoading}"
  let ?ds = "if room_is_empty next then [] else deliveries_for_users planned (user_nos next) [packet]"
  let ?delta = "\<lparr>pd_user_no = v, pd_room_id = rid, pd_expected_room = room,
      pd_next_room = (if ?drop then None else Some next), pd_remove_membership = True, pd_remove_room = ?drop,
      pd_aborted_loading_fence = (if ?drop \<and> phase next = PhLoading then race_fence_of next else None)\<rparr>"
  have snap: "plan_exit_from_snapshot v rid room planned = Inr (Some ?delta, ?ds)"
    using remove gone(1) sent by (simp add: plan_exit_from_snapshot_def Let_def)
  then have plan: "plan_protocol_room_exit v planned = Inr (Some ?delta, ?ds)"
    using Some room by (simp add: plan_protocol_room_exit_def)
  have "snd (remove_protocol_user v planned) = Inr ?ds"
    using Some room remove sent
    by (auto simp: remove_protocol_user_def Let_def deliveries_for_users_def active_identity_def drop_membership_def insert_room_def)
  moreover have "lock_and_commit (Some ?delta) w = (if room_of w v = Some rid \<and> room_at w rid = Some room
      then (fst (remove_protocol_user v w), Inr ()) else (w, Inl (ProtocolRoomTransitionInconsistent v)))"
  proof (cases "lock_delta ?delta w")
    case True
    then have at: "room_of w v = Some rid" "room_at w rid = Some room" by (simp_all add: lock_delta_def)
    have "commit_delta ?delta w = fst (remove_protocol_user v w)"
    proof (rule exit_plan_cases [OF snap inv])
      show "lock_delta (the (Some ?delta)) w" using True by simp
    next
      fix b' next'
      assume r: "remove_user v room = (b', next')" and c: "commit_delta (the (Some ?delta)) w =
        (if room_is_empty next' \<and> phase next' \<in> {PhLobby, PhLoading}
         then drop_room rid (release_of (race_fence_of next') (drop_membership v w)) else insert_room rid next' (drop_membership v w))"
      from remove_protocol_user_result(1) [OF inv at r] c show ?thesis by simp
    qed
    with True at show ?thesis by (simp add: lock_and_commit_def)
  next
    case False
    then show ?thesis by (auto simp: lock_and_commit_def lock_delta_def)
  qed
  ultimately show ?thesis using plan Some room by auto
qed

theorem planned_exit_is_removal_witness:
  "\<exists>delta ds. plan_protocol_room_exit 1 demo_lobby = Inr (delta, ds)
     \<and> lock_and_commit delta demo_lobby = (fst (remove_protocol_user 1 demo_lobby), Inr ())
     \<and> lock_and_commit delta demo_start_world = (demo_start_world, Inl (ProtocolRoomTransitionInconsistent 1))"
proof -
  have "room_of demo_start_world 1 = None" by (simp add: demo_start_world_def world_default_def)
  with planned_exit_is_removal [OF demo_lobby_inv demo_lobby_inv, of 1]
    planned_exit_is_removal [OF demo_lobby_inv demo_start_inv, of 1] demo_lobby_at
  show ?thesis by auto
qed

section \<open>Room IDs\<close>

text \<open>C37: Creating a plain room, whose search for an ID has no bound of its own, returns exactly
  when some nonzero ID is unused, which holds whenever the two directories hold fewer than
  \<open>2 ^ 32 - 1\<close> rooms; the ID it returns was unused and is used afterwards.\<close>

theorem create_room_returns:
  assumes inv: "world_inv w"
  shows "((\<exists>rid w'. create_room w = Some (rid, w')) \<longleftrightarrow> (\<exists>rid. rid \<noteq> 0 \<and> \<not> room_taken w rid))
    \<and> (\<forall>rid w'. create_room w = Some (rid, w') \<longrightarrow> rid \<noteq> 0 \<and> \<not> room_taken w rid \<and> room_taken w' rid \<and> world_inv w')
    \<and> (length (w_rooms w) + length (w_protocol_rooms w) < 2 ^ 32 - 1 \<longrightarrow> (\<exists>rid w'. create_room w = Some (rid, w')))"
proof -
  have start: "w_next_room_id w \<noteq> 0" using world_invD(4) [OF inv] by (simp add: ids_ok_def)
  have made: "rid \<noteq> 0 \<and> \<not> room_taken w rid \<and> room_taken w' rid \<and> world_inv w'" if "create_room w = Some (rid, w')" for rid w'
  proof -
    from that have "free_room_id (room_taken w) (w_next_room_id w) = Some rid" by (auto simp: create_room_def)
    with free_room_id_result [OF this] start create_room_inv [OF inv that] show ?thesis by blast
  qed
  have returns: "\<exists>rid w'. create_room w = Some (rid, w')" if "\<exists>c. c \<noteq> 0 \<and> \<not> room_taken w c"
    using that free_room_id_returns [of "room_taken w", OF _ _ start] by (auto simp: create_room_def)
  have small: "\<exists>c. c \<noteq> 0 \<and> \<not> room_taken w c" if few: "length (w_rooms w) + length (w_protocol_rooms w) < 2 ^ 32 - 1"
  proof (rule ccontr)
    let ?used = "map fst (w_rooms w) @ map fst (w_protocol_rooms w)"
    assume "\<not> ?thesis"
    then have "(UNIV :: u32 set) \<subseteq> insert 0 (set ?used)"
      by (auto simp: room_taken_def map_of_eq_None_iff)
    then have "Finite_Set.card (UNIV :: u32 set) \<le> Finite_Set.card (insert 0 (set ?used))" by (intro card_mono) auto
    also have "\<dots> \<le> Suc (Finite_Set.card (set ?used))" by (simp add: card_insert_if del: set_append set_map)
    also have "\<dots> \<le> Suc (length ?used)" by (simp only: card_length Suc_le_mono)
    finally show False using few by (simp add: card_word)
  qed
  show ?thesis
  proof (intro conjI)
    show "(\<exists>rid w'. create_room w = Some (rid, w')) \<longleftrightarrow> (\<exists>rid. rid \<noteq> 0 \<and> \<not> room_taken w rid)"
      using made returns by meson
    show "\<forall>rid w'. create_room w = Some (rid, w') \<longrightarrow> rid \<noteq> 0 \<and> \<not> room_taken w rid \<and> room_taken w' rid \<and> world_inv w'"
      using made by simp
    show "length (w_rooms w) + length (w_protocol_rooms w) < 2 ^ 32 - 1 \<longrightarrow> (\<exists>rid w'. create_room w = Some (rid, w'))"
      by (rule impI) (rule returns, rule small)
  qed
qed

text \<open>C38: The ID given to a new protocol room is a nonzero 16-bit number that no room uses, the
  least recycled one first; there is none exactly when all 65,535 are in use.\<close>

theorem protocol_room_ids_fresh:
  assumes inv: "world_inv w" and alloc: "allocate_protocol_room_id w = (r, w')"
  shows "(r = None \<longleftrightarrow> (\<forall>c::u16. c \<noteq> 0 \<longrightarrow> room_taken w (ucast c)))
    \<and> (\<forall>rid. r = Some rid \<longrightarrow> rid \<noteq> 0 \<and> rid \<le> 0xFFFF \<and> \<not> room_taken w rid)
    \<and> (w_free_protocol_room_ids w \<noteq> {} \<longrightarrow> r = Some (ucast (Min (w_free_protocol_room_ids w))))
    \<and> w_protocol_rooms w' = w_protocol_rooms w \<and> w_rooms w' = w_rooms w \<and> world_inv w'"
proof -
  note D = world_invD(4) [OF inv]
  have zero: "0 \<notin> w_free_protocol_room_ids w" using D by (simp add: ids_ok_def)
  have fresh: "rid \<noteq> 0 \<and> rid \<le> 0xFFFF \<and> \<not> room_taken w rid" if "r = Some rid" for rid
    using allocate_Some [OF alloc [unfolded that] zero] by blast
  have none: "\<forall>c::u16. c \<noteq> 0 \<longrightarrow> room_taken w (ucast c)" if "r = None"
    using allocate_None [OF alloc [unfolded that]] by blast
  have "r = None" if all: "\<forall>c::u16. c \<noteq> 0 \<longrightarrow> room_taken w (ucast c)"
  proof (cases r)
    case (Some rid)
    have trip: "ucast (ucast rid :: u16) = rid" using fresh [OF Some] by (simp add: ucast_small)
    then have "(ucast rid :: u16) \<noteq> 0" using fresh [OF Some] by (metis ucast_0)
    with all trip fresh [OF Some] show ?thesis by metis
  qed simp
  moreover have "r = Some (ucast (Min (w_free_protocol_room_ids w)))" if free: "w_free_protocol_room_ids w \<noteq> {}"
  proof -
    have "Min (w_free_protocol_room_ids w) \<in> w_free_protocol_room_ids w" using free by simp
    then have "\<not> room_taken w (ucast (Min (w_free_protocol_room_ids w)))" using D by (simp add: ids_ok_def)
    then have "recycled_id (room_taken w) (w_free_protocol_room_ids w) = (Some (Min (w_free_protocol_room_ids w)),
        w_free_protocol_room_ids w - {Min (w_free_protocol_room_ids w)})"
      using free by (subst recycled_id.simps) (simp add: Let_def)
    with alloc show ?thesis by (simp add: allocate_protocol_room_id_def)
  qed
  moreover have "w_protocol_rooms w' = w_protocol_rooms w \<and> w_rooms w' = w_rooms w \<and> world_inv w'"
    using allocate_inv [OF inv alloc] by auto
  ultimately show ?thesis using fresh none by blast
qed

theorem protocol_room_ids_fresh_witness:
  "allocate_protocol_room_id demo_start_world = (Some 1, demo_start_world\<lparr>w_next_room_id := 2\<rparr>)
     \<and> \<not> room_taken demo_start_world 1 \<and> world_inv (demo_start_world\<lparr>w_next_room_id := 2\<rparr>)"
  using protocol_room_ids_fresh [OF demo_start_inv demo_allocated] demo_allocated by blast

theorem create_room_returns_witness:
  "\<exists>rid w'. create_room world_default = Some (rid, w') \<and> room_taken w' rid"
  using create_room_returns [OF world_default_inv] by (simp add: world_default_def) blast

end
