(* ===== verification/StartProps.thy ===== *)
theory StartProps
  imports WorldProps
begin

text \<open>
  Properties of the commands that publish: all or nothing of a ready-stage command,
  what the start of a race freezes, and the number of frozen player IDs.
\<close>

section \<open>All or nothing\<close>

lemma try_begin_active:
  "try_begin k g = (b, g') \<Longrightarrow> wire_active k' g' = wire_active k' g + (if b \<and> k' = k then 1 else 0)"
  by (auto simp: try_begin_def checked_add_usize_def split: option.splits if_splits)

definition served :: "(session_id \<times> session_state) list \<Rightarrow> permits \<Rightarrow> outbound_delivery list \<Rightarrow> bool" where
  "served sessions permits ds \<longleftrightarrow> (\<forall>s. length (filter (\<lambda>d. fst d = s) ds) \<le> permits s
     \<and> (s \<in> set (map fst ds) \<longrightarrow> (\<exists>st. map_of sessions s = Some st \<and> ss_outbound st)))"

lemma served_Nil [simp]: "served sessions permits []"
  by (simp add: served_def)

lemma served_Cons:
  assumes "served sessions (permits(session := permits session - 1)) rest"
    and "\<not> (\<not> ss_outbound st \<or> permits session = 0)" "map_of sessions session = Some st"
  shows "served sessions permits ((session, batch) # rest)"
  unfolding served_def
proof
  fix s
  from assms(1) have "length (filter (\<lambda>d. fst d = s) rest) \<le> (permits(session := permits session - 1)) s"
    "s \<in> set (map fst rest) \<longrightarrow> (\<exists>st. map_of sessions s = Some st \<and> ss_outbound st)" unfolding served_def by blast+
  then show "length (filter (\<lambda>d. fst d = s) ((session, batch) # rest)) \<le> permits s \<and>
      (s \<in> set (map fst ((session, batch) # rest)) \<longrightarrow> (\<exists>st. map_of sessions s = Some st \<and> ss_outbound st))"
    using assms(2,3) by (cases "session = s") auto
qed

text \<open>Each taken guard is counted by the gate, and a completed walk served every delivery.\<close>

lemma reserve_each_active:
  assumes "reserve_each sessions permits gate n ds = (gate', n', failed)"
  shows "n \<le> n' \<and> wire_active k gate' = wire_active k gate + (if k = WireOutbound then n' - n else 0)
    \<and> (failed = None \<longrightarrow> served sessions permits ds)"
  using assms
proof (induction sessions permits gate n ds arbitrary: gate' n' rule: reserve_each.induct)
  case (2 sessions permits gate n session batch rest)
  note IH1 = 2(1) and IH2 = 2(2) and prem = 2(3)
  show ?case
  proof -
    consider "map_of sessions session = None"
      | st where "map_of sessions session = Some st" "\<not> ss_outbound st \<or> permits session = 0"
      | st where "map_of sessions session = Some st" "\<not> (\<not> ss_outbound st \<or> permits session = 0)"
      by (cases "map_of sessions session") blast+
    then show ?thesis
    proof cases
      case 1
      with prem show ?thesis by auto
    next
      case (2 st)
      with prem show ?thesis by auto
    next
      case st: (3 st)
      note served = served_Cons [of sessions permits session rest st batch, OF _ st(2,1)]
      show ?thesis
      proof (cases "ss_tracked st")
        case False
        with prem st have "reserve_each sessions (permits(session := permits session - 1)) gate n rest = (gate', n', failed)" by simp
        from IH1 [OF st refl _ this] False served show ?thesis by blast
      next
        case True
        obtain b g1 where begun: "try_begin WireOutbound gate = (b, g1)" by (cases "try_begin WireOutbound gate")
        note act = try_begin_active [OF begun, of k]
        show ?thesis
        proof (cases b)
          case False
          then show ?thesis using prem st True begun act by auto
        next
          case b: True
          with prem st True begun
          have "reserve_each sessions (permits(session := permits session - 1)) g1 (Suc n) rest = (gate', n', failed)" by simp
          from IH2 [OF st refl _ begun [symmetric] _ this] True b
          have IH: "Suc n \<le> n'" "wire_active k gate' = wire_active k g1 + (if k = WireOutbound then n' - Suc n else 0)"
            "failed = None \<longrightarrow> served sessions (permits(session := permits session - 1)) rest" by blast+
          have "wire_active k gate' = wire_active k gate + (if k = WireOutbound then n' - n else 0)"
            using act IH(1,2) b by (cases "k = WireOutbound") simp_all
          then show ?thesis using IH(1,3) served by (meson Suc_leD)
        qed
      qed
    qed
  qed
qed simp

lemma guard_drop_one: "wire_active k (guard_drop j g) = wire_active k g - (if k = j then 1 else 0)"
  by (cases "k = j") (auto simp: guard_drop_def)

lemma guard_drop_active: "wire_active k ((guard_drop WireOutbound ^^ n) g) = wire_active k g - (if k = WireOutbound then n else 0)"
  by (induction n) (auto simp: guard_drop_one)

lemma reserve_outbound_cases:
  assumes "reserve_outbound permits ds w = (w', r)"
  shows "\<exists>gate. w' = w\<lparr>w_wire_gate := gate\<rparr>
    \<and> (case r of Inl e \<Rightarrow> (\<forall>k. wire_active k gate = wire_active k (w_wire_gate w)) | Inr reserved \<Rightarrow> reserved = ds
         \<and> (\<forall>s. length (filter (\<lambda>d. fst d = s) ds) \<le> permits s
           \<and> (s \<in> set (map fst ds) \<longrightarrow> (\<exists>st. map_of (w_sessions w) s = Some st \<and> ss_outbound st))))"
proof -
  obtain gate n failed where r: "reserve_each (w_sessions w) permits (w_wire_gate w) 0 ds = (gate, n, failed)"
    by (metis prod_cases3)
  from reserve_each_active [OF r] assms r show ?thesis
    by (cases failed) (auto simp: reserve_outbound_def guard_drop_active served_def)
qed

definition fits_queues :: "permits \<Rightarrow> world \<Rightarrow> outbound_delivery list \<Rightarrow> bool" where
  "fits_queues permits w sent \<longleftrightarrow> (\<forall>s. length (filter (\<lambda>d. fst d = s) sent) \<le> permits s
     \<and> (s \<in> set (map fst sent) \<longrightarrow> (\<exists>st. map_of (w_sessions w) s = Some st \<and> ss_outbound st)))"

definition unchanged_but_gate :: "world \<Rightarrow> world \<Rightarrow> bool" where
  "unchanged_but_gate w w' \<longleftrightarrow> w' = w\<lparr>w_wire_gate := w_wire_gate w'\<rparr>"

lemma unchanged_but_gateI: "unchanged_but_gate w (w\<lparr>w_wire_gate := gate\<rparr>)"
  by (simp add: unchanged_but_gate_def)

lemma unchanged_but_gateE: "unchanged_but_gate w w' \<Longrightarrow> (\<And>gate. w' = w\<lparr>w_wire_gate := gate\<rparr> \<Longrightarrow> P) \<Longrightarrow> P"
  unfolding unchanged_but_gate_def by blast

lemma unchanged_but_gate_sessions: "unchanged_but_gate w w' \<Longrightarrow> w_sessions w' = w_sessions w"
  by (erule unchanged_but_gateE) simp

lemma unchanged_but_gate_trans:
  assumes "unchanged_but_gate w w1" "unchanged_but_gate w1 w2"
  shows "unchanged_but_gate w w2"
  using assms by (elim unchanged_but_gateE) (simp add: unchanged_but_gate_def)

lemma run_plan_cases:
  assumes "run_plan permits plan w = (w', r)"
  shows "case r of
      Inl e \<Rightarrow> unchanged_but_gate w w' \<and> (\<forall>k. wire_active k (w_wire_gate w') = wire_active k (w_wire_gate w))
    | Inr (outcome, sent) \<Rightarrow> fits_queues permits w sent \<and>
        (\<exists>commit gate. plan = Inr (sent, commit, outcome) \<and> w' = commit (w\<lparr>w_wire_gate := gate\<rparr>))"
proof (cases plan)
  case (Inl e)
  with assms show ?thesis by (auto simp: run_plan_def unchanged_but_gate_def)
next
  case (Inr p)
  obtain ds commit outcome where p: "p = (ds, commit, outcome)" by (cases p)
  obtain w1 r1 where r1: "reserve_outbound permits ds w = (w1, r1)" by (cases "reserve_outbound permits ds w")
  from reserve_outbound_cases [OF r1] assms Inr p r1 show ?thesis
    by (cases r1) (auto simp: run_plan_def unchanged_but_gate_def fits_queues_def)
qed

text \<open>C12: A ready-stage command is all or nothing.  When it fails, nothing of the world has changed
  but the wire gate, whose guards taken on the way are all returned; nothing was published, except
  the rejection packet to the requester of a refused start.  When it succeeds, every batch it
  publishes had a place reserved in the queue of a registered session.\<close>

theorem lobby_command_all_or_nothing:
  assumes "lobby_command u draw permits session payload w = ((w', result), rejection)"
  shows "case result of
      Inl e \<Rightarrow> unchanged_but_gate w w' \<and> fits_queues permits w rejection
        \<and> (if rejection = [] then \<forall>k. wire_active k (w_wire_gate w') = wire_active k (w_wire_gate w)
           else (\<exists>plan. payload = CmdStartRoom plan) \<and> rejection = [(session, [serialize_start_room_reply StartNotAllReady])])
    | Inr (outcome, sent) \<Rightarrow> rejection = [] \<and> fits_queues permits w sent"
proof (cases "authorize_session_operation u session w")
  case (Inl e)
  with assms show ?thesis by (auto simp: lobby_command_def unchanged_but_gate_def fits_queues_def)
next
  case (Inr identity)
  have plain: "case result of
      Inl e \<Rightarrow> unchanged_but_gate w w' \<and> fits_queues permits w rejection
        \<and> (if rejection = [] then \<forall>k. wire_active k (w_wire_gate w') = wire_active k (w_wire_gate w)
           else (\<exists>plan. payload = CmdStartRoom plan) \<and> rejection = [(session, [serialize_start_room_reply StartNotAllReady])])
    | Inr (outcome, sent) \<Rightarrow> rejection = [] \<and> fits_queues permits w sent"
    if "run_plan permits plan w = (w', result)" "rejection = []" for plan
    using run_plan_cases [OF that(1)] that(2) by (auto simp: fits_queues_def split: sum.splits)
  show ?thesis
  proof (cases "\<exists>plan. payload = CmdStartRoom plan")
    case False
    then obtain plan where "run_plan permits plan w = (w', result)" "rejection = []"
      using assms Inr
      by (cases payload)
        (auto simp: lobby_command_def set_slot_state_def change_team_def change_master_def change_track_def change_basic_ai_def
          change_closed_slots_def relay_rider_talk_def relay_macro_chat_def change_room_info_def kick_player_def)
    then show ?thesis by (rule plain)
  next
    case True
    then obtain plan where start: "payload = CmdStartRoom plan" ..
    let ?plan = "case w_random_tracks w of None \<Rightarrow> plan | Some pools \<Rightarrow> plan\<lparr>srp_random_tracks := Some pools\<rparr>"
    obtain w1 r1 where r1: "start_room draw permits identity ?plan w = (w1, r1)" by (cases "start_room draw permits identity ?plan w")
    obtain w2 r2 where r2: "publish_start_rejection permits session w1 = (w2, r2)" by (cases "publish_start_rejection permits session w1")
    note first = run_plan_cases [OF r1 [unfolded start_room_def]]
    note second = run_plan_cases [OF r2 [unfolded publish_start_rejection_def]]
    have result: "((w', result), rejection) = start_or_reject draw permits session identity plan w"
      using assms Inr start by (simp add: lobby_command_def)
    show ?thesis
    proof (cases r1)
      case done': (Inr a)
      with result r1 first show ?thesis
        by (cases a) (auto simp: start_or_reject_def Let_def)
    next
      case failed: (Inl e)
      with first have same: "unchanged_but_gate w w1" "\<forall>k. wire_active k (w_wire_gate w1) = wire_active k (w_wire_gate w)"
        by auto
      have sess: "w_sessions w1 = w_sessions w" by (rule unchanged_but_gate_sessions [OF same(1)])
      show ?thesis
      proof (cases "\<exists>s. e = OutboundUnavailable s")
        case True
        with result r1 failed same show ?thesis
          by (auto simp: start_or_reject_def Let_def fits_queues_def)
      next
        case False
        then have out: "((w', result), rejection) = (case r2 of Inl e' \<Rightarrow> ((w2, Inl e'), []) | Inr (_, rejection) \<Rightarrow> ((w2, Inl e), rejection))"
          using result r1 failed r2 by (cases e) (auto simp: start_or_reject_def Let_def split: sum.splits prod.splits)
        have trans: "unchanged_but_gate w w2" if "unchanged_but_gate w1 w2"
          by (rule unchanged_but_gate_trans [OF same(1) that])
        show ?thesis
          using out second same start trans sess
          by (cases r2) (auto simp: fits_queues_def unchanged_but_gate_def)
      qed
    qed
  qed
qed

section \<open>The start of a race\<close>

lemma start_room_parts:
  assumes "plan_start_room draw identity plan w = Inr (ds, commit, out)"
  obtains rid room requester n epoch track "next" frozen where
    "room_of w (ib_user_no identity) = Some rid" "room_at w rid = Some room" "\<not> w_quiescing w"
    "require_lobby_master room (ib_user_no identity) = Inr requester"
    "validate_start_racers w room requester = Inr n" "w_next_race_epoch w = Some epoch"
    "select_start_track draw room plan = Inr (track, next)"
    "freeze_race_roster w room \<lparr>rf_room_id = rid, rf_race_epoch = epoch\<rparr> track = Inr frozen"
    "rtraverse (start_delivery room plan track (ib_user_no identity)) (fr_participants frozen) = Inr ds"
    "commit = commit_start rid \<lparr>rf_room_id = rid, rf_race_epoch = epoch\<rparr> frozen next"
    "out = Started rid epoch track n (length (filter fp_observer (fr_participants frozen)))"
proof -
  obtain rid room where own: "own_room w identity = Inr (rid, room)"
    using assms by (cases "own_room w identity") (auto simp: plan_start_room_def split: if_splits)
  from own_roomD [OF own] show ?thesis
    using assms own that
    by (auto simp: plan_start_room_def result_iff Let_def split: if_splits prod.splits)
qed

lemma ready_racers:
  assumes "validate_start_racers w room requester = Inr n" "members_by_id room ! i = Some m" "i < length (members_by_id room)"
    "int i \<noteq> requester"
  shows "player_type (prm_player m) = slot_state_code Ready"
proof -
  obtain us where t: "rtraverse (check_start_racer w requester) (indexed (members_by_id room)) = Inr us"
    using assms(1) by (auto simp: validate_start_racers_def Let_def result_iff split: if_splits)
  have "(i, m) \<in> set (indexed (members_by_id room))" using assms(2,3) by simp
  then show ?thesis
    using rtraverse_all [OF t] assms(4) by (fastforce simp: check_start_racer_def split: if_splits option.splits)
qed

text \<open>C3: A race starts only by the lobby master of the requester's room, while every other racer
  is ready and none is still owed a reward; the start then freezes exactly the racers and
  observers of the room, moves the room from lobby to loading under the next race epoch, takes
  the reward lane of every racer and of nobody else, sends the start command to the session of
  every frozen participant, and leaves every other room as it was.\<close>

theorem start_freezes_the_room:
  assumes inv: "world_inv w" "registry_inv u (w_identities w)" and draw: "drawing draw"
    and start: "start_room draw permits identity plan w = (w', Inr (outcome, sent))"
  shows "\<exists>rid room room' epoch track frozen. room_of w (ib_user_no identity) = Some rid
    \<and> room_at w rid = Some room \<and> phase room = PhLobby
    \<and> equipment_player_id (ib_user_no identity) room = Some (room_master room)
    \<and> (\<forall>i<8. \<forall>m. members_by_id room ! i = Some m \<and> int i \<noteq> room_master room \<longrightarrow>
         player_type (prm_player m) = slot_state_code Ready)
    \<and> w_next_race_epoch w = Some epoch \<and> w_next_race_epoch w' = checked_succ epoch
    \<and> outcome = Started rid epoch track (length (flatten (members_by_id room))) (length (flatten (observers room)))
    \<and> \<not> is_random_track_selector track
    \<and> w_protocol_rooms w' = AList.update rid room' (w_protocol_rooms w) \<and> phase room' = PhLoading
    \<and> frozen_race room' = Some frozen \<and> race_fence_of room' = Some \<lparr>rf_room_id = rid, rf_race_epoch = epoch\<rparr>
    \<and> fr_fence frozen = \<lparr>rf_room_id = rid, rf_race_epoch = epoch\<rparr> \<and> fr_concrete_track frozen = track
    \<and> map (\<lambda>p. ib_user_no (fp_identity p)) (fr_participants frozen) = user_nos room
    \<and> set (frozen_humans frozen) = prm_user_no ` set (flatten (members_by_id room))
    \<and> (\<forall>v. lane_of w' v = (if v \<in> set (frozen_humans frozen) then Some (fr_fence frozen) else lane_of w v))
    \<and> (\<forall>v\<in>set (frozen_humans frozen). lane_of w v = None)
    \<and> map fst sent = map (\<lambda>p. ib_owner (fp_identity p)) (fr_participants frozen)"
proof -
  from run_plan_cases [OF start [unfolded start_room_def]] obtain commit gate where
    p: "plan_start_room draw identity plan w = Inr (sent, commit, outcome)" and w': "w' = commit (w\<lparr>w_wire_gate := gate\<rparr>)"
    by auto
  obtain rid room requester n epoch track "next" frozen where
    room: "room_of w (ib_user_no identity) = Some rid" "room_at w rid = Some room" and
    master: "require_lobby_master room (ib_user_no identity) = Inr requester" and
    racers: "validate_start_racers w room requester = Inr n" and epoch: "w_next_race_epoch w = Some epoch" and
    sel: "select_start_track draw room plan = Inr (track, next)" and
    freeze: "freeze_race_roster w room \<lparr>rf_room_id = rid, rf_race_epoch = epoch\<rparr> track = Inr frozen" and
    sends: "rtraverse (start_delivery room plan track (ib_user_no identity)) (fr_participants frozen) = Inr sent" and
    commit: "commit = commit_start rid \<lparr>rf_room_id = rid, rf_race_epoch = epoch\<rparr> frozen next" and
    out: "outcome = Started rid epoch track n (length (filter fp_observer (fr_participants frozen)))"
    by (rule start_room_parts [OF p])
  let ?fence = "\<lparr>rf_room_id = rid, rf_race_epoch = epoch\<rparr>"
  note rinv = room_at_inv [OF inv(1) room(2)]
  have len: "length (members_by_id room) = 8"
    using room_layoutD(1) [OF room_coreD(1) [OF room_invD(1) [OF rinv]]] .
  have lobby: "phase room = PhLobby" "equipment_player_id (ib_user_no identity) room = Some (room_master room)"
    "requester = room_master room" using master by (auto simp: require_lobby_master_Inr)
  obtain r ws where fr: "fr_fence frozen = ?fence" "fr_concrete_track frozen = track"
    "map (\<lambda>p. ib_user_no (fp_identity p)) (fr_participants frozen) = user_nos room"
    "fr_participants frozen = r @ ws" "\<forall>p\<in>set r. \<not> fp_observer p" "\<forall>p\<in>set ws. fp_observer p"
    "map fp_player_id ws = map (\<lambda>x. 8 + int (fst x)) (indexed (observers room))"
    using freeze_roster [OF inv(2) freeze] by metis
  have watchers: "length (filter fp_observer (fr_participants frozen)) = length (flatten (observers room))"
  proof -
    have "filter fp_observer (fr_participants frozen) = ws" using fr(4,5,6) by (simp add: filter_id_conv filter_empty_conv)
    then show ?thesis
      using arg_cong [OF fr(7), of length] arg_cong [OF map_snd_indexed [of "observers room"], of length] by simp
  qed
  have humans: "set (frozen_humans frozen) = prm_user_no ` set (flatten (members_by_id room))"
    using loaded_frozen_ok(4) [OF inv(2) rinv freeze] by (simp add: set_flatten [symmetric])
  have free: "\<forall>v\<in>set (frozen_humans frozen). lane_of w v = None"
    using validate_start_racers_lanes(1) [OF racers] humans set_flatten by fastforce
  have receivers: "map fst sent = map (\<lambda>p. ib_owner (fp_identity p)) (fr_participants frozen)"
    by (rule rtraverse_map [OF sends]) (auto simp: start_delivery_def result_iff)
  have ready: "\<forall>i<8. \<forall>m. members_by_id room ! i = Some m \<and> int i \<noteq> room_master room \<longrightarrow>
         player_type (prm_player m) = slot_state_code Ready"
    using ready_racers [OF racers] unfolding len lobby(3) by blast
  have concrete: "\<not> is_random_track_selector track" using select_start_track_Inr [OF draw sel] by blast
  have lanes: "lane_of w' v = (if v \<in> set (frozen_humans frozen) then Some (fr_fence frozen) else lane_of w v)" for v
    by (simp add: w' commit commit_start_alt map_of_fold_update fr(1))
  have rooms: "w_protocol_rooms w' = AList.update rid (loaded_room ?fence frozen next) (w_protocol_rooms w)"
    "w_next_race_epoch w' = checked_succ epoch"
    by (simp_all add: w' commit commit_start_alt insert_room_def)
  have "phase (loaded_room ?fence frozen next) = PhLoading" "frozen_race (loaded_room ?fence frozen next) = Some frozen"
    "race_fence_of (loaded_room ?fence frozen next) = Some ?fence" by (simp_all add: loaded_room_def)
  with room lobby ready epoch rooms concrete fr(1,2,3) humans lanes free receivers out watchers
    validate_start_racers_lanes(3) [OF racers]
  show ?thesis by (intro exI conjI allI) (assumption | simp)+
qed

section \<open>Frozen player IDs\<close>

lemma length_indexed: "length (indexed xs) = length (flatten xs)"
  using arg_cong [OF map_snd_indexed [of xs], of length] by simp

text \<open>C40: The assertion that a frozen race has at most eight player IDs counts the observers, whose IDs
  start at eight: it holds after a freeze exactly when racers, AI racers and observers together are
  at most eight, although a room seats eight racers and up to eight observers beside them.\<close>

theorem frozen_ids_fit_iff:
  assumes "room_arrays room" "room_exclusive room" "freeze_race_roster w room fence track = Inr frozen"
  shows "frozen_ids_fit (room\<lparr>frozen_race := Some frozen\<rparr>) \<longleftrightarrow>
    length (flatten (members_by_id room)) + ai_count room + length (flatten (observers room)) \<le> 8"
proof -
  from assms(3) obtain racers watchers where
    r: "rtraverse (freeze_racer w) (indexed (members_by_id room)) = Inr racers"
    and o: "rtraverse (freeze_observer w) (indexed (observers room)) = Inr watchers"
    and f: "fr_participants frozen = racers @ watchers"
      "fr_ais frozen = map (\<lambda>(i, ai). \<lparr>fa_player_id = int i, fa_team = ai_team ai, fa_kart_id = ai_kart ai\<rparr>) (indexed (ais_by_id room))"
    by (auto simp: freeze_race_roster_def result_iff)
  have ids: "map fp_player_id racers = map (\<lambda>x. int (fst x)) (indexed (members_by_id room))"
    by (rule rtraverse_map [OF r]) (auto simp: freeze_racer_def result_iff)
  have oids: "map fp_player_id watchers = map (\<lambda>x. 8 + int (fst x)) (indexed (observers room))"
    by (rule rtraverse_map [OF o]) (auto simp: freeze_observer_def result_iff room_slot_count_def)
  let ?ids = "map (\<lambda>x. int (fst x)) (indexed (members_by_id room)) @ map (\<lambda>x. 8 + int (fst x)) (indexed (observers room))
    @ map (\<lambda>x. int (fst x)) (indexed (ais_by_id room))"
  have all: "frozen_player_ids frozen = ?ids"
    by (simp add: frozen_player_ids_def f ids oids split_def)
  have "distinct ?ids"
    using distinct_indexed_ids [of int "members_by_id room"] distinct_indexed_ids [of "\<lambda>i. 8 + int i" "observers room"]
      distinct_indexed_ids [of int "ais_by_id room"] assms(1,2)
    by (auto simp: inj_def room_arrays_def room_exclusive_def occupied_def)
  then have "frozen_ids_fit (room\<lparr>frozen_race := Some frozen\<rparr>) \<longleftrightarrow> length ?ids \<le> 8"
    unfolding frozen_ids_fit_def room_slot_count_def by (simp add: all distinct_remdups_id del: length_append distinct_append)
  then show ?thesis by (simp add: length_indexed ai_count_def add_ac)
qed

section \<open>A concrete start\<close>

definition demo_race_world :: world where
  "demo_race_world = demo_lobby\<lparr>w_identities := demo_claimed,
     w_sessions := [(7, \<lparr>ss_peer = (demo_ip, 1), ss_outbound = True, ss_tracked = True\<rparr>)]\<rparr>"

definition demo_plan :: start_room_plan where
  "demo_plan = \<lparr>srp_random_track_candidates = [4660], srp_random_tracks = None, srp_ai_specs = [],
     srp_basic_ai_parameters = \<lparr>bam_speed = [], bam_item = []\<rparr>, srp_maximum_payload_length = 2000\<rparr>"

abbreviation demo_room :: protocol_room_state where "demo_room \<equiv> snd demo_seated"

lemma demo_room_fields:
  "members_by_id demo_room = Some demo_member # replicate 7 None" "ais_by_id demo_room = replicate 8 None"
  "closed_slots_by_id demo_room = replicate 8 None" "observers demo_room = replicate 8 None" "phase demo_room = PhLobby"
  "room_master demo_room = 0" "slot_positions demo_room = Some 0 # replicate 7 None"
  "settings demo_room = created_settings \<lparr>cb_channel_id = 1, cb_game_type = 67\<rparr> demo_request" "random_track_pool demo_room = None"
  by (simp_all add: demo_room_eq room_new_def room_slot_count_def room_observer_count_def)

lemma demo_member_fields:
  "prm_user_no demo_member = 1" "nickname (prm_player demo_member) = [65, 98]" "player_type (prm_player demo_member) = 2"
  "card (prm_player demo_member) = []" "club_mark_logo (prm_player demo_member) = 0" "length (rider_item_snapshot (prm_player demo_member)) = 48"
  "length (p2p_address (prm_player demo_member)) = 4"
  by (simp_all add: demo_member_def member_of_def prepare_participant_def demo_participant_def demo_identity_def demo_binding_def
     legacy_p2p_endpoint_def demo_ip_def split: prod.split)

lemma demo_race_at:
  "room_of demo_race_world 1 = Some 1" "room_at demo_race_world 1 = Some demo_room" "lane_of demo_race_world v = None"
  "w_next_race_epoch demo_race_world = Some 1" "w_quiescing demo_race_world = False" "w_random_tracks demo_race_world = None"
  using demo_lobby_at by (simp_all add: demo_race_world_def) (simp_all add: demo_lobby_def enter_room_def insert_room_def demo_start_world_def world_default_def)

lemma demo_race_active: "active_identity demo_race_world 1 = Some demo_binding"
  by (simp add: active_identity_def active_identity_by_user_no_def demo_race_world_def demo_claimed_eq demo_registry_def view_defs
    active_identity_binding_def identity_binding_of_def demo_binding_def)

lemma demo_race_inv: "world_inv demo_race_world" "registry_inv demo_tables (w_identities demo_race_world)"
  using world_inv_frame [of demo_race_world demo_lobby] demo_lobby_inv reachable_registry [OF demo_reachable(1)]
  by (simp_all add: demo_race_world_def)

lemma demo_slots: "slot_data demo_room = (room_slot_data_empty 0 0 (replicate 32 0) 0)
   \<lparr>rs_members_by_id := MPlayer (prm_player demo_member) # replicate 7 MEmpty, rs_slot_positions := 0 # replicate 7 (- 1)\<rparr>"
  by (simp add: slot_data_def demo_room_fields room_slot_data_empty_def wire_member_def wire_observer_def upt_conv_Cons
     room_slot_count_def room_observer_count_def wire_slot_positions_def closed_slot_ids_def created_settings_def demo_request_def)
    (simp add: numeral_eq_Suc)

lemma demo_player_written:
  assumes "p = (prm_player demo_member)\<lparr>player_type := t\<rparr>"
  shows "\<exists>w'. write_member (MPlayer p) w = Inr w' \<and> length w' \<le> length w + 300"
  by (simp add: assms write_member_def write_room_player_def demo_member_fields write_utf16_def write_endpoint_def
      encode_utf16_def encode_utf16_char_def ipv4_unspecified_def Let_def)

lemma demo_slots_written:
  assumes "slots = (slot_data demo_room)\<lparr>rs_track := track, rs_members_by_id := MPlayer ((prm_player demo_member)\<lparr>player_type := t\<rparr>) # replicate 7 MEmpty\<rparr>"
  shows "\<exists>bs. serialize_gr_slot_data slots = Inr bs \<and> length bs \<le> 600"
proof -
  have valid: "validate_slot_data slots = Inr ()"
    by (simp add: validate_slot_data_Inr_iff assms demo_slots room_slot_data_empty_def player_strings_ok_def demo_member_fields
      encode_utf16_def encode_utf16_char_def room_limit_defs room_slot_count_def room_observer_count_def)
  define w where "w = write_bytes (replicate 16 0) (write_bytes (rs_closed_slot_ids slots) (write_i32 0
    (write_bytes (replicate 11 0) (write_i32 (rs_room_master slots) (write_bytes (rs_room_data slots)
        (write_u32 (rs_room_data_header slots) (write_u32 (rs_track slots) (writer_named ''GrSlotDataPacket''))))))))"
  have fields: "rs_members_by_id slots = MPlayer ((prm_player demo_member)\<lparr>player_type := t\<rparr>) # replicate 7 MEmpty"
    "rs_observers slots = replicate 8 OEmpty" "rs_closed_slot_ids slots = []" "length (rs_slot_positions slots) = 8"
    "length (rs_room_data slots) = 32"
    by (simp_all add: assms demo_slots room_slot_data_empty_def room_observer_count_def)
  obtain w0 where w0: "write_member (MPlayer ((prm_player demo_member)\<lparr>player_type := t\<rparr>)) w = Inr w0" "length w0 \<le> length w + 300"
    using demo_player_written [OF refl] by blast
  obtain w1 where w1: "write_all write_member (replicate 7 MEmpty) w0 = Inr w1" "length w1 = length w0 + 28"
    using write_all_blank [of write_member MEmpty 7 w0] by (auto simp: write_member_def)
  obtain w2 where w2: "write_all write_observer_slot (replicate 8 OEmpty) w1 = Inr w2" "length w2 = length w1 + 32"
    using write_all_blank [of write_observer_slot OEmpty 8 w1] by (auto simp: write_observer_slot_def)
  have "count_i32 ''closed room slot'' (length (rs_closed_slot_ids slots)) = Inr 0" by (simp add: count_i32_def fields)
  with valid w0(1) w1(1) w2(1) fields have "serialize_gr_slot_data slots = Inr (write_slot_positions (rs_slot_positions slots) w2)"
    by (simp add: serialize_gr_slot_data_def w_def)
  moreover have "length w = 79" by (simp add: w_def fields)
  ultimately show ?thesis
    using w0(2) w1(2) w2(2) by (simp add: length_write_slot_positions fields)
qed

lemma demo_session_written:
  "\<exists>bs. serialize_gr_session_data (session_data demo_room) = Inr bs \<and> length bs \<le> 100"
  by (simp add: session_data_def demo_room_fields created_settings_def demo_request_def serialize_gr_session_data_def validate_utf16_def enforce_limit_def write_utf16_def
      encode_utf16_def encode_utf16_char_def room_limit_defs)

definition demo_racer :: frozen_race_participant where
  "demo_racer = (case freeze_racer demo_race_world (0, demo_member) of Inr p \<Rightarrow> p)"

lemma demo_racer_frozen: "freeze_racer demo_race_world (0, demo_member) = Inr demo_racer" "fp_identity demo_racer = demo_binding"
  "\<not> fp_observer demo_racer"
  by (simp_all add: demo_racer_def freeze_racer_def demo_member_fields demo_race_active)

lemma demo_indexed: "indexed (members_by_id demo_room) = [(0, demo_member)]" "indexed (replicate 8 None) = []"
  by (simp_all add: indexed_def demo_room_fields numeral_eq_Suc upt_conv_Cons del: replicate_Suc)

lemma demo_command:
  "\<exists>d. start_delivery demo_room demo_plan 4660 1 demo_racer = Inr d"
proof -
  have member: "member_by_user_no 1 demo_room = Some demo_member"
    by (simp add: member_by_user_no_def room_members_def demo_room_fields demo_member_fields)
  have "race_start_slot_data ((slot_data demo_room)\<lparr>rs_track := 4660\<rparr>) = (slot_data demo_room)\<lparr>rs_track := 4660,
      rs_members_by_id := MPlayer ((prm_player demo_member)\<lparr>player_type := 3\<rparr>) # replicate 7 MEmpty\<rparr>"
    by (simp add: race_start_slot_data_def demo_slots room_slot_data_empty_def demo_member_fields)
  then obtain slots where slots: "serialize_gr_slot_data (race_start_slot_data ((slot_data demo_room)\<lparr>rs_track := 4660\<rparr>)) = Inr slots"
    "length slots \<le> 600" using demo_slots_written [OF refl] by metis
  obtain session where session: "serialize_gr_session_data (session_data demo_room) = Inr session" "length session \<le> 100"
    using demo_session_written by blast
  have "ai_count demo_room = 0" by (simp add: ai_count_def demo_room_fields)
  moreover have "filter is_ai_member (rs_members_by_id (slot_data demo_room)) = []"
    by (simp add: demo_slots is_ai_member_def)
  ultimately show ?thesis
    using slots session member
    by (simp add: start_delivery_def demo_racer_frozen demo_binding_def serialize_gr_command_start_bounded_def start_payload_length_def
        checked_add_usize_def checked_mul_usize_def usize_max_def fixed_wire_length_def p5136_kart_physics_block_length_def mission_info_tail_def
        demo_plan_def)
qed


definition demo_roster :: frozen_race_roster where
  "demo_roster = \<lparr>fr_fence = \<lparr>rf_room_id = 1, rf_race_epoch = 1\<rparr>, fr_concrete_track = 4660,
     fr_participants = [demo_racer], fr_ais = []\<rparr>"

text \<open>The world once the race of its only member is loaded.\<close>

definition demo_loading :: world where
  "demo_loading = commit_start 1 (fr_fence demo_roster) demo_roster (snd (the (select_concrete_track (\<lambda>_. 0) [4660] demo_room)))
     (demo_race_world\<lparr>w_wire_gate := wire_gate_new\<lparr>wg_active_outbound := 1\<rparr>\<rparr>)"

lemma demo_reserved:
  assumes "w_sessions w = w_sessions demo_race_world" "w_wire_gate w = wire_gate_new\<lparr>wg_active_outbound := n\<rparr>" "n < 1000"
  shows "reserve_outbound (\<lambda>_. 1) [(7, batch)] w = (w\<lparr>w_wire_gate := wire_gate_new\<lparr>wg_active_outbound := n + 1\<rparr>\<rparr>, Inr [(7, batch)])"
  using assms by (simp add: reserve_outbound_def demo_race_world_def try_begin_def wire_gate_new_def checked_add_usize_def usize_max_def)

lemma demo_started:
  "\<exists>out sent. start_room (\<lambda>_. 0) (\<lambda>_. 1) demo_binding demo_plan demo_race_world = (demo_loading, Inr (out, sent))"
proof -
  let ?w = demo_race_world
  have user: "ib_user_no demo_binding = 1" "ib_owner demo_binding = 7" by (simp_all add: demo_binding_def)
  have own: "own_room ?w demo_binding = Inr (1, demo_room)"
    by (simp add: own_room_def protocol_room_id_def existing_room_def demo_race_at user)
  have mid: "member_id 1 demo_room = Some 0" by (simp add: member_id_def demo_room_fields holds_user_def demo_member_fields)
  have master: "require_lobby_master demo_room 1 = Inr 0"
    by (simp add: require_lobby_master_Inr demo_room_fields equipment_player_id_def mid)
  have racers: "validate_start_racers ?w demo_room 0 = Inr 1"
    by (simp add: validate_start_racers_def demo_indexed check_start_racer_def demo_race_at)
  have type: "set_track (settings demo_room) = 0" "ai_count demo_room = 0"
    by (simp_all add: demo_room_fields created_settings_def ai_count_def)
  then obtain "next" where "next": "select_concrete_track (\<lambda>_. 0) [4660] demo_room = Some (4660, next)"
    by (auto simp: select_concrete_track_def is_random_track_selector_def random_track_selectors_def
        candidate_tracks_def usable_history_def available_tracks_def demo_room_fields Let_def)
  then have track: "select_start_track (\<lambda>_. 0) demo_room demo_plan = Inr (4660, next)"
    by (simp add: select_start_track_def demo_plan_def)
  have "freeze_race_roster ?w demo_room \<lparr>rf_room_id = 1, rf_race_epoch = 1\<rparr> 4660 = Inr demo_roster"
    unfolding freeze_race_roster_def demo_indexed(1) by (simp add: demo_room_fields(2,4) demo_indexed(2) demo_racer_frozen(1) demo_roster_def)
  moreover obtain d where d: "start_delivery demo_room demo_plan 4660 1 demo_racer = Inr d" using demo_command by blast
  ultimately obtain out where plan: "plan_start_room (\<lambda>_. 0) demo_binding demo_plan ?w = Inr ([d], commit_start 1 (fr_fence demo_roster) demo_roster next, out)"
    using own master racers track
    by (simp add: plan_start_room_def demo_race_at(4,5) user demo_plan_def Let_def demo_roster_def)
  have "fst d = 7" using d by (auto simp: start_delivery_def result_iff demo_racer_frozen user)
  moreover have "w_wire_gate ?w = wire_gate_new\<lparr>wg_active_outbound := 0\<rparr>"
    by (simp add: demo_race_world_def demo_lobby_def enter_room_def insert_room_def demo_start_world_def world_default_def wire_gate_new_def)
  ultimately have "reserve_outbound (\<lambda>_. 1) [d] ?w = (?w\<lparr>w_wire_gate := wire_gate_new\<lparr>wg_active_outbound := 1\<rparr>\<rparr>, Inr [d])"
    using demo_reserved [of ?w 0 "snd d"] by (cases d) simp
  with plan show ?thesis by (simp add: start_room_def run_plan_def demo_loading_def "next")
qed

theorem start_freezes_the_room_witness:
  "\<exists>w' out room' frozen. start_room (\<lambda>_. 0) (\<lambda>_. 1) demo_binding demo_plan demo_race_world = (w', Inr out)
     \<and> room_at w' 1 = Some room' \<and> phase room' = PhLoading \<and> lane_of w' 1 = Some \<lparr>rf_room_id = 1, rf_race_epoch = 1\<rparr>"
proof -
  obtain out sent where start: "start_room (\<lambda>_. 0) (\<lambda>_. 1) demo_binding demo_plan demo_race_world = (demo_loading, Inr (out, sent))"
    using demo_started by blast
  have "drawing (\<lambda>_. 0)" by (simp add: drawing_def)
  from start_freezes_the_room [OF demo_race_inv this start] obtain rid room room' epoch frozen where
    r: "room_of demo_race_world 1 = Some rid" "room_at demo_race_world rid = Some room" "w_next_race_epoch demo_race_world = Some epoch"
      "w_protocol_rooms demo_loading = AList.update rid room' (w_protocol_rooms demo_race_world)" "phase room' = PhLoading"
      "fr_fence frozen = \<lparr>rf_room_id = rid, rf_race_epoch = epoch\<rparr>"
      "set (frozen_humans frozen) = prm_user_no ` set (flatten (members_by_id room))"
      "\<forall>v. lane_of demo_loading v = (if v \<in> set (frozen_humans frozen) then Some (fr_fence frozen) else lane_of demo_race_world v)"
    by (auto simp: demo_binding_def)
  have at: "rid = 1" "room = demo_room" "epoch = 1" using r(1,2,3) demo_race_at by simp_all
  have "1 \<in> set (frozen_humans frozen)" unfolding r(7) at(2) demo_room_fields(1) by (simp add: demo_member_fields)
  then have "lane_of demo_loading 1 = Some \<lparr>rf_room_id = 1, rf_race_epoch = 1\<rparr>" using r(6,8) at by simp
  moreover have "room_at demo_loading 1 = Some room'" using r(4) at by (simp add: update_conv')
  ultimately show ?thesis using start r(5) by blast
qed

theorem lobby_command_all_or_nothing_witness:
  "\<exists>w' rejection. lobby_command demo_tables (\<lambda>_. 0) (\<lambda>_. 1) 7 (CmdStartRoom (demo_plan\<lparr>srp_ai_specs := [[]]\<rparr>)) demo_race_world
       = ((w', Inl AiParticipantsUnsupported), rejection)
     \<and> unchanged_but_gate demo_race_world w' \<and> rejection = [(7, [serialize_start_room_reply StartNotAllReady])]"
proof -
  let ?w = demo_race_world and ?plan = "demo_plan\<lparr>srp_ai_specs := [[]]\<rparr>"
  have auth: "authorize_session_operation demo_tables 7 ?w = Inr demo_identity"
    by (simp add: authorize_session_operation_def demo_race_world_def demo_lobby_def enter_room_def insert_room_def demo_start_world_def
        demo_identity_def demo_binding_def)
  have user: "ib_user_no demo_identity = 1" by (simp add: demo_identity_def demo_binding_def)
  have mid: "member_id 1 demo_room = Some 0" by (simp add: member_id_def demo_room_fields holds_user_def demo_member_fields)
  have "plan_start_room draw demo_identity ?plan ?w = Inl AiParticipantsUnsupported" for draw
    by (simp add: plan_start_room_def demo_race_at(5) own_room_def protocol_room_id_def existing_room_def demo_race_at(1,2) user
        require_lobby_master_def require_lobby_def demo_room_fields(5,6) equipment_player_id_def mid)
  then have start: "start_room draw (\<lambda>_. 1) demo_identity ?plan ?w = (?w, Inl AiParticipantsUnsupported)" for draw
    by (simp add: start_room_def run_plan_def)
  let ?w' = "?w\<lparr>w_wire_gate := wire_gate_new\<lparr>wg_active_outbound := 1\<rparr>\<rparr>"
  let ?packet = "[(7, [serialize_start_room_reply StartNotAllReady])]"
  have "publish_start_rejection (\<lambda>_. 1) 7 ?w = (?w', Inr ((), ?packet))"
    by (simp add: publish_start_rejection_def run_plan_def reserve_outbound_def demo_race_world_def demo_lobby_def enter_room_def
        insert_room_def demo_start_world_def world_default_def try_begin_def wire_gate_new_def checked_add_usize_def usize_max_def)
  then have run: "lobby_command demo_tables (\<lambda>_. 0) (\<lambda>_. 1) 7 (CmdStartRoom ?plan) ?w = ((?w', Inl AiParticipantsUnsupported), ?packet)"
    using auth start by (simp add: lobby_command_def start_or_reject_def Let_def demo_race_at(6))
  from lobby_command_all_or_nothing [OF run] have "unchanged_but_gate ?w ?w'" by simp
  with run show ?thesis by blast
qed

section \<open>A full room with an observer\<close>

definition demo_ai :: room_ai where
  "demo_ai = \<lparr>ai_character = 0, ai_rider = 0, ai_kart = 0, ai_balloon = 0, ai_head_band = 0, ai_goggle = 0, ai_team = 0\<rparr>"

definition demo_full_room :: protocol_room_state where
  "demo_full_room = demo_room\<lparr>ais_by_id := None # replicate 7 (Some demo_ai),
     observers := Some (demo_member\<lparr>prm_user_no := 2\<rparr>) # replicate 7 None\<rparr>"

definition demo_full_world :: world where
  "demo_full_world = demo_race_world\<lparr>w_identities := demo_claimed
     \<lparr>name_by_user_no := [(1, [65, 98]), (2, [66])],
      active_by_name := ([66], \<lparr>ai_known = \<lparr>ki_nickname = [66], ki_user_no = 2\<rparr>, ai_generation = 2, ai_owner = Some 8,
        ai_owner_ip = demo_ip, ai_channel = None, ai_permit = None, ai_transfer = None, ai_gate = 1\<rparr>)
        # active_by_name demo_claimed\<rparr>\<rparr>"

theorem frozen_ids_fit_iff_witness:
  "\<exists>frozen. freeze_race_roster demo_full_world demo_full_room \<lparr>rf_room_id = 1, rf_race_epoch = 1\<rparr> 4660 = Inr frozen
     \<and> \<not> frozen_ids_fit (demo_full_room\<lparr>frozen_race := Some frozen\<rparr>)"
proof -
  have shape: "room_arrays demo_full_room" "room_exclusive demo_full_room"
    by (auto simp: room_arrays_def room_exclusive_def occupied_def demo_full_room_def demo_room_fields nth_Cons')
  have active: "active_identity demo_full_world 1 \<noteq> None" "active_identity demo_full_world 2 \<noteq> None"
    by (simp_all add: active_identity_def active_identity_by_user_no_def demo_full_world_def demo_claimed_eq demo_registry_def view_defs
      active_identity_binding_def)
  have idx: "indexed (members_by_id demo_full_room) = [(0, demo_member)]"
    "indexed (observers demo_full_room) = [(0, demo_member\<lparr>prm_user_no := 2\<rparr>)]"
    using demo_indexed(1) by (simp_all add: demo_full_room_def indexed_def numeral_eq_Suc upt_conv_Cons del: replicate_Suc)
  obtain frozen where frozen: "freeze_race_roster demo_full_world demo_full_room \<lparr>rf_room_id = 1, rf_race_epoch = 1\<rparr> 4660 = Inr frozen"
    using active by (auto simp: freeze_race_roster_def idx freeze_racer_def freeze_observer_def demo_member_fields)
  have "flatten (replicate n (Some x)) = replicate n x" for n and x :: room_ai by (induction n) simp_all
  then have "length (flatten (members_by_id demo_full_room)) + ai_count demo_full_room + length (flatten (observers demo_full_room)) = 9"
    by (simp add: demo_full_room_def demo_room_fields ai_count_def)
  with frozen_ids_fit_iff [OF shape frozen] frozen show ?thesis by simp
qed

end
