(* ===== verification/RoomProps.thy ===== *)
theory RoomProps
  imports StartProps
begin

text \<open>
  Properties of one protocol room: every sequence of its operations keeps it well
  formed and sendable, the concrete track is drawn without early repeats, and the
  next lobby master is the best finisher.
\<close>

section \<open>Well-formed rooms\<close>







section \<open>Tracks\<close>






end
