(* ===== verification/RaceProps.thy ===== *)
theory RaceProps
  imports StartProps
begin

text \<open>
  Properties of a running race: the heartbeat and the drain query never hit an
  expectation, the order of the settlement ranking, rewards applied once, what the close
  of a race leaves behind, and the odds of the item selection.
\<close>

section \<open>The ranking\<close>

lemma enumerate_shift: "sum_list (map (\<lambda>(i, r). f i r) (enumerate n rs)) = (\<Sum>i<length rs. f (n + i) (rs ! i))"
  by (induction rs arbitrary: n) (simp_all add: sum.lessThan_Suc_shift del: sum.lessThan_Suc)

lemma enumerate_sum: "sum_list (map (\<lambda>(i, r). f i r) (enumerate 0 rs)) = (\<Sum>i<length rs. f i (rs ! i))"
  using enumerate_shift [of f 0 rs] by simp

lemma sum_list_mset: "mset xs = mset ys \<Longrightarrow> sum_list (map f xs) = sum_list (map f ys)" for f :: "'a \<Rightarrow> int"
  by (metis mset_map sum_mset_sum_list)

definition team_score :: "settlement_ranking \<Rightarrow> int list \<Rightarrow> result_team \<Rightarrow> int" where
  "team_score ranks ids t = sum_list (map (\<lambda>p. let r = the (map_of (sr_by_player_id ranks) p) in
     if rr_team r = Some t then rr_team_points r else 0) ids)"

lemma sorted_racer_order:
  assumes "distinct (map fst (racers_of frozen))" "i < length (sorted_racers room frozen)" "j < length (sorted_racers room frozen)"
  shows "i < j \<longleftrightarrow> racer_key (sorted_racers room frozen ! i) < racer_key (sorted_racers room frozen ! j)"
proof -
  let ?rs = "sorted_racers room frozen"
  note facts = sorted_racers_facts [where room = room and frozen = frozen]
  have less: "racer_key (?rs ! a) < racer_key (?rs ! b)" if "a < b" "b < length ?rs" for a b
  proof -
    have "fst (snd (?rs ! a)) \<noteq> fst (snd (?rs ! b))"
      using facts(3) [OF assms(1)] that by (simp add: distinct_conv_nth)
    moreover have "racer_key (?rs ! a) \<le> racer_key (?rs ! b)"
      using facts(4) that by (simp add: sorted_iff_nth_mono)
    ultimately show ?thesis by (auto simp: racer_key_def less_le)
  qed
  show ?thesis
  proof
    assume "racer_key (?rs ! i) < racer_key (?rs ! j)"
    then show "i < j" using less [of j i] assms(2) by (cases i j rule: linorder_cases) auto
  qed (use less assms(3) in blast)
qed

lemma side_score_sum:
  assumes "team_mode room" "distinct (map fst (racers_of frozen))"
    and at: "\<And>i. i < length (sorted_racers room frozen) \<Longrightarrow>
      map_of (sr_by_player_id ranks) (fst (snd (sorted_racers room frozen ! i))) =
        Some (snd (ranked_entry (team_mode room) i (sorted_racers room frozen ! i)))"
  shows "side_score t 0 (sorted_racers room frozen) = team_score ranks (map fst (racers_of frozen)) t"
proof -
  let ?rs = "sorted_racers room frozen"
  let ?f = "\<lambda>p. let r = the (map_of (sr_by_player_id ranks) p) in if rr_team r = Some t then rr_team_points r else 0"
  have "side_score t 0 ?rs = (\<Sum>i<length ?rs. if side_of True (snd (snd (?rs ! i))) = Some t then points_of True i (?rs ! i) else 0)"
    unfolding side_score_def by (rule enumerate_sum)
  also have "\<dots> = (\<Sum>i<length ?rs. ?f (fst (snd (?rs ! i))))"
    by (rule sum.cong) (use at assms(1) in \<open>simp_all add: ranked_entry_def\<close>)
  also have "\<dots> = sum_list (map (\<lambda>r. ?f (fst (snd r))) ?rs)"
    unfolding sum_list_sum_nth by (simp add: atLeast0LessThan)
  also have "\<dots> = sum_list (map ?f (map (\<lambda>r. fst (snd r)) ?rs))" by (simp add: comp_def)
  also have "\<dots> = sum_list (map ?f (map fst (racers_of frozen)))"
  proof -
    have "mset (map (\<lambda>r. fst (snd r)) ?rs) = mset (map fst (racers_of frozen))"
      by (simp add: sorted_racers_def timed_racers_def split_def multiset.map_comp comp_def)
    then show ?thesis by (rule sum_list_mset)
  qed
  finally show ?thesis by (simp add: team_score_def)
qed

text \<open>C10: The ranking of a race in progress always exists and ranks exactly its racers: by finish
  time, those that did not finish last, a tie by the player ID.  In a team mode each racer has the team
  it was frozen with and the points of its rank (none without a finish), and the winner is the team with
  more points in a speed race, and on a tie or in an item race the team of the first.\<close>

theorem settlement_orders_the_racers:
  assumes inv: "world_inv w" and room: "room_at w rid = Some room" "frozen_race room = Some frozen"
  shows "\<exists>ranks. settlement_ranking_of room = Inr ranks
    \<and> dom (map_of (sr_by_player_id ranks)) = set (racer_ids frozen)
    \<and> (\<forall>(p, wire)\<in>set (racers_of frozen). \<exists>r. map_of (sr_by_player_id ranks) p = Some r
        \<and> rr_finish_time r = finish_or_max (race_progress_of room) p
        \<and> rr_rank r = int (Finite_Set.card {q \<in> set (racer_ids frozen).
             (finish_or_max (race_progress_of room) q, q) < (finish_or_max (race_progress_of room) p, p)})
        \<and> rr_team r = (if team_mode room then Some (if wire = 1 then RedTeam else BlueTeam) else None)
        \<and> rr_team_points r = (if team_mode room \<and> rr_finish_time r \<noteq> - 1 then [10, 8, 6, 5, 4, 3, 2, 1] ! nat (rr_rank r) else 0)
        \<and> (rr_rank r = 0 \<longrightarrow> sr_winning_team ranks =
             (if set_game_type (settings room) = 3 \<and> team_score ranks (racer_ids frozen) RedTeam \<noteq> team_score ranks (racer_ids frozen) BlueTeam
              then Some (if team_score ranks (racer_ids frozen) BlueTeam < team_score ranks (racer_ids frozen) RedTeam then RedTeam else BlueTeam)
              else rr_team r)))"
proof -
  let ?rs = "sorted_racers room frozen" and ?teams = "team_mode room" and ?time = "finish_or_max (race_progress_of room)"
  note ok = room_at_ok [OF inv room(1)]
  have rankable: "rankable room frozen" by (rule race_rankable [OF ok room(2)])
  note facts = sorted_racers_facts [where room = room and frozen = frozen]
  have ids: "map fst (racers_of frozen) = racer_ids frozen" "distinct (racer_ids frozen)"
    using rankable racer_ids_racers [of frozen] by (simp_all add: rankable_def)
  obtain ranks where r: "settlement_ranking_of room = Inr ranks"
    "dom (map_of (sr_by_player_id ranks)) = fst ` set (racers_of frozen)"
    "\<And>i. i < length ?rs \<Longrightarrow> map_of (sr_by_player_id ranks) (fst (snd (?rs ! i))) = Some (snd (ranked_entry ?teams i (?rs ! i)))"
    "sr_winning_team ranks = winner_of room ?rs"
    using settlement_ranking_result [OF rankable] by metis
  have small: "length ?rs \<le> 8" using rankable facts(2) by (auto simp: rankable_def)
  have score: "side_score t 0 ?rs = team_score ranks (racer_ids frozen) t" if ?teams for t
    using side_score_sum [OF that _ r(3), of t] ids by simp
  have entry: "\<exists>i<length ?rs. ?rs ! i = (?time p, p, wire)" if "(p, wire) \<in> set (racers_of frozen)" for p wire
  proof -
    have "(?time p, p, wire) \<in> set ?rs" using that by (force simp: facts(1))
    then show ?thesis by (auto simp: in_set_conv_nth)
  qed
  have rank: "int i = int (Finite_Set.card {q \<in> set (racer_ids frozen). (?time q, q) < (?time p, p)})"
    if i: "i < length ?rs" "?rs ! i = (?time p, p, wire)" for i p wire
  proof -
    have id: "?time (fst (snd (?rs ! j))) = fst (?rs ! j) \<and> fst (snd (?rs ! j)) \<in> set (racer_ids frozen)" if "j < length ?rs" for j
    proof -
      from that have "?rs ! j \<in> set ?rs" by simp
      then show ?thesis unfolding facts(1) ids(1) [symmetric] by auto
    qed
    have "{q \<in> set (racer_ids frozen). (?time q, q) < (?time p, p)} = (\<lambda>j. fst (snd (?rs ! j))) ` {..<i}"
    proof (intro equalityI subsetI)
      fix q assume q: "q \<in> {q \<in> set (racer_ids frozen). (?time q, q) < (?time p, p)}"
      then obtain wire' where "(q, wire') \<in> set (racers_of frozen)" by (auto simp: ids(1) [symmetric])
      then obtain j where j: "j < length ?rs" "?rs ! j = (?time q, q, wire')" using entry by blast
      have "j < i" using sorted_racer_order [OF _ j(1) i(1)] ids q by (simp add: j(2) i(2) racer_key_def)
      then show "q \<in> (\<lambda>j. fst (snd (?rs ! j))) ` {..<i}" using j(2) by force
    next
      fix q assume "q \<in> (\<lambda>j. fst (snd (?rs ! j))) ` {..<i}"
      then obtain j where j: "j < i" "q = fst (snd (?rs ! j))" by blast
      then have "j < length ?rs" using i(1) by simp
      from id [OF this] sorted_racer_order [OF _ this i(1)] ids j
      show "q \<in> {q \<in> set (racer_ids frozen). (?time q, q) < (?time p, p)}" by (simp add: i(2) racer_key_def)
    qed
    moreover have "inj_on (\<lambda>j. fst (snd (?rs ! j))) {..<i}"
    proof (rule inj_onI)
      fix x y assume "x \<in> {..<i}" "y \<in> {..<i}" "fst (snd (?rs ! x)) = fst (snd (?rs ! y))"
      then show "x = y" using nth_eq_iff_index_eq [OF facts(3), of x y] ids i(1) by simp
    qed
    ultimately show ?thesis by (simp add: card_image)
  qed
  have "\<exists>r'. map_of (sr_by_player_id ranks) p = Some r'
        \<and> rr_finish_time r' = ?time p
        \<and> rr_rank r' = int (Finite_Set.card {q \<in> set (racer_ids frozen). (?time q, q) < (?time p, p)})
        \<and> rr_team r' = (if ?teams then Some (if wire = 1 then RedTeam else BlueTeam) else None)
        \<and> rr_team_points r' = (if ?teams \<and> rr_finish_time r' \<noteq> - 1 then [10, 8, 6, 5, 4, 3, 2, 1] ! nat (rr_rank r') else 0)
        \<and> (rr_rank r' = 0 \<longrightarrow> sr_winning_team ranks =
             (if set_game_type (settings room) = 3 \<and> team_score ranks (racer_ids frozen) RedTeam \<noteq> team_score ranks (racer_ids frozen) BlueTeam
              then Some (if team_score ranks (racer_ids frozen) BlueTeam < team_score ranks (racer_ids frozen) RedTeam then RedTeam else BlueTeam)
              else rr_team r'))"
    if mem: "(p, wire) \<in> set (racers_of frozen)" for p wire
  proof -
    obtain i where i: "i < length ?rs" "?rs ! i = (?time p, p, wire)" using entry [OF mem] by blast
    let ?r = "snd (ranked_entry ?teams i (?rs ! i))"
    have "sr_winning_team ranks = (if set_game_type (settings room) = 3
          \<and> team_score ranks (racer_ids frozen) RedTeam \<noteq> team_score ranks (racer_ids frozen) BlueTeam
        then Some (if team_score ranks (racer_ids frozen) BlueTeam < team_score ranks (racer_ids frozen) RedTeam then RedTeam else BlueTeam)
        else rr_team ?r)" if "rr_rank ?r = 0"
    proof -
      have "hd ?rs = ?rs ! i" using that i(1) by (cases ?rs) (simp_all add: ranked_entry_def)
      moreover have "set_game_type (settings room) = 3 \<Longrightarrow> ?teams" by (simp add: team_mode_def)
      ultimately show ?thesis
        using score by (cases ?teams) (auto simp: r(4) winner_of_def i(2) ranked_entry_def side_of_def)
    qed
    note winner = this
    have entry: "map_of (sr_by_player_id ranks) p = Some ?r" using r(3) [OF i(1)] by (simp add: i(2))
    have fields: "rr_finish_time ?r = ?time p" "rr_rank ?r = int i"
      "rr_team ?r = (if ?teams then Some (if wire = 1 then RedTeam else BlueTeam) else None)"
      "rr_team_points ?r = (if ?teams \<and> ?time p \<noteq> - 1 then [10, 8, 6, 5, 4, 3, 2, 1] ! i else 0)"
      unfolding i(2) by (simp_all add: ranked_entry_def side_of_def points_of_def team_points_by_rank_def)
    have points: "rr_team_points ?r = (if ?teams \<and> rr_finish_time ?r \<noteq> - 1 then [10, 8, 6, 5, 4, 3, 2, 1] ! nat (rr_rank ?r) else 0)"
      unfolding fields nat_int ..
    have rank': "rr_rank ?r = int (Finite_Set.card {q \<in> set (racer_ids frozen). (?time q, q) < (?time p, p)})"
      unfolding fields(2) by (rule rank [OF i])
    show ?thesis
    proof (rule exI [of _ ?r], intro conjI)
      show "rr_rank ?r = 0 \<longrightarrow> sr_winning_team ranks = (if set_game_type (settings room) = 3
          \<and> team_score ranks (racer_ids frozen) RedTeam \<noteq> team_score ranks (racer_ids frozen) BlueTeam
        then Some (if team_score ranks (racer_ids frozen) BlueTeam < team_score ranks (racer_ids frozen) RedTeam then RedTeam else BlueTeam)
        else rr_team ?r)" by (rule impI, rule winner)
    qed (fact entry fields(1,3) rank' points)+
  qed
  note each = this
  have "dom (map_of (sr_by_player_id ranks)) = set (racer_ids frozen)" by (simp add: r(2) flip: ids(1))
  with r(1) show ?thesis by (intro exI [of _ ranks] conjI) (assumption, assumption, clarify, erule each)
qed

section \<open>Item selection\<close>

text \<open>C11: With a configuration that passed the validation, every roll below the total of the active rank
  band selects an item, each item of the table for as many rolls as it has weight in that band, and no
  roll at or above the total selects any: the odds are exactly the weights.\<close>

theorem item_odds_are_weights:
  assumes valid: "validate_configuration config = Inr ()"
  shows "\<exists>band tot. roll_total for_team rank n policy config = Inr (band, tot) \<and> 0 < tot
    \<and> band = resolve_rank_band (ic_rank_band config) rank n policy
    \<and> tot = sum_list (map (entry_weight band) (table_of for_team config))
    \<and> (\<forall>roll. roll < tot \<longleftrightarrow> (\<exists>item. select_with_roll for_team rank n roll policy config = Inr (item, band)))
    \<and> (\<forall>e\<in>set (table_of for_team config).
         Finite_Set.card {roll. select_with_roll for_team rank n roll policy config = Inr (ie_item_id e, band)} = entry_weight band e)"
proof -
  let ?es = "table_of for_team config" and ?band = "resolve_rank_band (ic_rank_band config) rank n policy"
  let ?tot = "sum_list (map (entry_weight ?band) ?es)"
  obtain table where table: "validate_table table ?es (ic_rank_band config) = Inr ()"
    using valid by (cases for_team) (auto simp: validate_configuration_def table_of_def result_iff)
  from validated_table(3,2) [OF this, of rank n policy]
  have pos: "0 < ?tot" and w: "weight_total ?band 0 ?es = Inr ?tot" .
  then have tot: "roll_total for_team rank n policy config = Inr (?band, ?tot)"
    by (simp add: roll_total_def Let_def del: sum_list_eq_0_iff)
  have select: "select_with_roll for_team rank n roll policy config = (if ?tot \<le> roll then Inl (RollOutOfRange roll ?tot)
      else rbind (pick ?band roll ?es) (\<lambda>item. Inr (item, ?band)))" for roll
    by (simp add: select_with_roll_def tot)
  have drawn: "roll < ?tot \<longleftrightarrow> (\<exists>item. select_with_roll for_team rank n roll policy config = Inr (item, ?band))" for roll
  proof
    assume "roll < ?tot"
    then show "\<exists>item. select_with_roll for_team rank n roll policy config = Inr (item, ?band)"
      using pick_in_range [of roll ?band ?es] by (auto simp: select)
  qed (auto simp: select split: if_splits)
  have odds: "Finite_Set.card {roll. select_with_roll for_team rank n roll policy config = Inr (ie_item_id e, ?band)} = entry_weight ?band e"
    if "e \<in> set ?es" for e
  proof -
    have "{roll. select_with_roll for_team rank n roll policy config = Inr (ie_item_id e, ?band)}
        = {r. r < ?tot \<and> pick ?band r ?es = Inr (ie_item_id e)}"
      by (auto simp: select result_iff)
    moreover have "distinct (map ie_item_id ?es)" by (rule validated_table(1) [OF table])
    ultimately show ?thesis using pick_frequency [OF _ that, of ?band] by simp
  qed
  show ?thesis using tot pos drawn odds by blast
qed

section \<open>The heartbeat\<close>



section \<open>Rewards\<close>









section \<open>The close of a race\<close>








section \<open>A concrete race\<close>

lemma identity_world_steps:
  assumes "identity_reachable u s"
  shows "(world_step u)\<^sup>*\<^sup>* (w\<lparr>w_identities := registry_new\<rparr>, []) (w\<lparr>w_identities := sys_registry s\<rparr>, sys_leases s)"
  using assms
proof induction
  case (step s s')
  have "world_step u (w\<lparr>w_identities := sys_registry s\<rparr>, sys_leases s)
      ((w\<lparr>w_identities := sys_registry s\<rparr>)\<lparr>w_identities := sys_registry s'\<rparr>, sys_leases s')"
    by (rule world_step.identity) (use step.hyps(2) in \<open>cases s; cases s'; simp\<close>)
  with step.IH show ?case by simp
qed simp

lemma demo_race_reachable: "(world_step demo_tables)\<^sup>*\<^sup>* (world_default, []) (demo_race_world, [])"
proof -
  have "world_frame world_default demo_start_world"
    unfolding world_frame_def demo_start_world_def
    by (intro exI [of _ "w_sessions world_default"] exI [of _ "w_observed_p2p_ports world_default"] exI [of _ "w_next_session_id world_default"]
        exI [of _ "Some demo_identity"] exI [of _ "w_random_tracks world_default"] exI [of _ "w_item_probability world_default"]
        exI [of _ "w_quiescing world_default"] exI [of _ "w_wire_gate world_default"]) simp
  then have "(world_step demo_tables)\<^sup>*\<^sup>* (world_default, []) (demo_start_world, [])"
    by (intro r_into_rtranclp world_step.frame)
  also have "(world_step demo_tables)\<^sup>*\<^sup>* (demo_start_world, []) (demo_lobby, [])"
    by (intro r_into_rtranclp world_step.room [OF demo_created])
  also have "(world_step demo_tables)\<^sup>*\<^sup>* (demo_lobby, []) (demo_lobby\<lparr>w_identities := demo_claimed\<rparr>, [])"
    using identity_world_steps [OF demo_reachable(1), of demo_lobby]
    by (simp add: demo_lobby_def enter_room_def insert_room_def demo_start_world_def world_default_def)
  also have "(world_step demo_tables)\<^sup>*\<^sup>* (demo_lobby\<lparr>w_identities := demo_claimed\<rparr>, []) (demo_race_world, [])"
  proof (intro r_into_rtranclp world_step.frame)
    let ?w = "demo_lobby\<lparr>w_identities := demo_claimed\<rparr>"
    show "world_frame ?w demo_race_world"
      unfolding world_frame_def demo_race_world_def
      by (intro exI [of _ "[(7, \<lparr>ss_peer = (demo_ip, 1), ss_outbound = True, ss_tracked = True\<rparr>)]"] exI [of _ "w_observed_p2p_ports ?w"]
          exI [of _ "w_next_session_id ?w"] exI [of _ "w_admitted_identity ?w"] exI [of _ "w_random_tracks ?w"]
          exI [of _ "w_item_probability ?w"] exI [of _ "w_quiescing ?w"] exI [of _ "w_wire_gate ?w"]) simp
  qed
  finally show ?thesis .
qed

lemma demo_loading_step:
  "\<exists>out. lobby_command demo_tables (\<lambda>_. 0) (\<lambda>_. 1) 7 (CmdStartRoom demo_plan) demo_race_world = ((demo_loading, Inr out), [])"
proof -
  have auth: "authorize_session_operation demo_tables 7 demo_race_world = Inr demo_identity"
    by (simp add: authorize_session_operation_def demo_race_world_def demo_lobby_def enter_room_def insert_room_def demo_start_world_def
        demo_identity_def demo_binding_def)
  have "plan_start_room draw demo_identity plan demo_race_world = plan_start_room draw demo_binding plan demo_race_world" for draw plan
    by (simp add: plan_start_room_def own_room_def protocol_room_id_def demo_identity_def Let_def)
  then have "start_room draw permits demo_identity plan demo_race_world = start_room draw permits demo_binding plan demo_race_world" for draw permits plan
    by (simp add: start_room_def)
  then show ?thesis using demo_started by (auto simp: lobby_command_def auth start_or_reject_def Let_def demo_race_at(6))
qed

lemma demo_loading_reachable: "(world_step demo_tables)\<^sup>*\<^sup>* (world_default, []) (demo_loading, [])"
proof -
  obtain out where "lobby_command demo_tables (\<lambda>_. 0) (\<lambda>_. 1) 7 (CmdStartRoom demo_plan) demo_race_world = ((demo_loading, Inr out), [])"
    using demo_loading_step by blast
  then have "world_step demo_tables (demo_race_world, []) (demo_loading, [])" by (rule world_step.lobby [rotated]) (simp add: drawing_def)
  with demo_race_reachable show ?thesis by (rule rtranclp.rtrancl_into_rtrancl)
qed


text \<open>The same race once its racer has finished, with the given state of its settlement.\<close>

definition demo_loaded_room :: protocol_room_state where
  "demo_loaded_room = the (room_at demo_loading 1)"

definition demo_settling_room :: "settlement_finalization \<Rightarrow> protocol_room_state" where
  "demo_settling_room fin = demo_loaded_room\<lparr>phase := PhSettling, race_progress_of := race_progress_default
     \<lparr>pg_finish_times := [(0, 61000)],
      pg_settlement := Some \<lparr>ss_end_tick = 71000, ss_deadline = 0, ss_finalization = fin\<rparr>\<rparr>\<rparr>"

definition demo_settling :: "settlement_finalization \<Rightarrow> world" where
  "demo_settling fin = insert_room 1 (demo_settling_room fin) demo_loading"

lemma demo_loading_inv: "world_inv demo_loading"
  using world_run.reachable_inv [OF _ demo_loading_reachable] by (simp add: world_system_ok_def)

lemma demo_loaded:
  "room_at demo_loading 1 = Some demo_loaded_room" "frozen_race demo_loaded_room = Some demo_roster" "phase demo_loaded_room = PhLoading"
  "race_fence_of demo_loaded_room = Some \<lparr>rf_room_id = 1, rf_race_epoch = 1\<rparr>" "loading_handshake_of demo_loaded_room = Dormant"
  "set_game_type (settings demo_loaded_room) = 1"
proof -
  obtain "next" where "next": "select_concrete_track (\<lambda>_. 0) [4660] demo_room = Some (4660, next)" "settings next = settings demo_room"
    by (auto simp: select_concrete_track_def is_random_track_selector_def random_track_selectors_def
        candidate_tracks_def usable_history_def available_tracks_def demo_room_fields Let_def created_settings_def)
  let ?room = "next\<lparr>phase := PhLoading, race_fence_of := Some (fr_fence demo_roster), frozen_race := Some demo_roster,
        race_progress_of := race_progress_default, loading_handshake_of := Dormant\<rparr>"
  show at: "room_at demo_loading 1 = Some demo_loaded_room"
    by (simp add: demo_loaded_room_def demo_loading_def commit_start_def)
  then have eq: "demo_loaded_room = ?room" by (simp add: demo_loading_def commit_start_def "next"(1))
  show "frozen_race demo_loaded_room = Some demo_roster" "phase demo_loaded_room = PhLoading"
    "race_fence_of demo_loaded_room = Some \<lparr>rf_room_id = 1, rf_race_epoch = 1\<rparr>" "loading_handshake_of demo_loaded_room = Dormant"
    "set_game_type (settings demo_loaded_room) = 1"
    unfolding eq by (simp_all add: demo_roster_def "next"(2) demo_room_fields created_settings_def demo_request_def)
qed

lemma demo_racer_fields:
  "ib_user_no (fp_identity demo_racer) = 1" "fp_player_id demo_racer = 0" "fp_nickname demo_racer = [65, 98]" "\<not> fp_observer demo_racer"
  "\<exists>result. fp_result demo_racer = Some result \<and> fh_economy result = EcoPending"
  by (simp_all add: demo_racer_def freeze_racer_def demo_member_fields demo_race_active demo_binding_def)

lemma demo_settling_fields [simp]:
  "room_at (demo_settling fin) 1 = Some (demo_settling_room fin)" "frozen_race (demo_settling_room fin) = Some demo_roster"
  "phase (demo_settling_room fin) = PhSettling" "pg_settlement (race_progress_of (demo_settling_room fin)) =
     Some \<lparr>ss_end_tick = 71000, ss_deadline = 0, ss_finalization = fin\<rparr>"
  "finalization_of (demo_settling fin) 1 = Some fin" "fence_at (demo_settling fin) 1 = Some \<lparr>rf_room_id = 1, rf_race_epoch = 1\<rparr>"
  "team_mode (demo_settling_room fin) = False" "pg_finish_times (race_progress_of (demo_settling_room fin)) = [(0, 61000)]"
  "set_game_type (settings (demo_settling_room fin)) = 1" "pg_pending_fanouts (race_progress_of (demo_settling_room fin)) = []"
  by (simp_all add: demo_settling_def demo_settling_room_def demo_loaded finalization_of_def fence_at_def team_mode_def race_progress_default_def)

lemma demo_roster_fields [simp]:
  "fr_participants demo_roster = [demo_racer]" "fr_ais demo_roster = []" "racers_of demo_roster = [(0, fp_team demo_racer)]"
  "racer_ids demo_roster = [0]" "frozen_humans demo_roster = [1]"
  by (simp_all add: demo_roster_def racers_of_def racer_ids_def frozen_humans_def demo_racer_fields)


lemma demo_settling_inv:
  assumes "finalization_ok (demo_settling_room fin) demo_roster (Some fin)"
  shows "world_inv (demo_settling fin)"
proof -
  have "race_step 1 demo_loading (demo_settling fin)"
    unfolding demo_settling_def
  proof (rule race_changed_step [OF demo_loading_inv demo_loaded(1,2)])
    show "race_changed demo_loaded_room (demo_settling_room fin)"
      by (simp add: race_changed_def same_seats_def demo_settling_room_def demo_loaded)
    show "progress_ok demo_roster (race_progress_of (demo_settling_room fin))" by (simp add: progress_ok_def)
    show "debug_assert_handshake (demo_settling_room fin)" by (simp add: debug_assert_handshake_def demo_settling_room_def demo_loaded)
  qed (use assms in simp_all)
  then show ?thesis by (rule race_step_inv)
qed

lemma demo_awaiting_inv: "world_inv (demo_settling AwaitingDeadline)"
  by (rule demo_settling_inv) (use demo_racer_fields(4,5) in \<open>auto simp: finalization_ok_def economy_pending_def\<close>)

theorem settlement_orders_the_racers_witness:
  "\<exists>ranks r. settlement_ranking_of (demo_settling_room AwaitingDeadline) = Inr ranks \<and> map_of (sr_by_player_id ranks) 0 = Some r
     \<and> rr_rank r = 0 \<and> rr_finish_time r = 61000 \<and> sr_winning_team ranks = None"
  using settlement_orders_the_racers [OF demo_awaiting_inv demo_settling_fields(1,2)]
  by (auto simp: finish_or_max_def)

theorem item_odds_are_weights_witness:
  "Finite_Set.card {roll. select_with_roll False 3 8 roll TrustClientReported safe_fallback = Inr (6, BandMiddle)} = 1"
proof -
  have valid: "validate_configuration safe_fallback = Inr ()" by code_simp
  have entry: "equal_entry (6, ''booster'') \<in> set (table_of False safe_fallback)"
    by (simp add: table_of_def safe_fallback_def Let_def)
  have "resolve_rank_band (ic_rank_band safe_fallback) 3 8 TrustClientReported = BandMiddle" by code_simp
  with item_odds_are_weights [OF valid, of False 3 8 TrustClientReported] entry show ?thesis
    by (fastforce simp: equal_entry_def entry_weight_def)
qed
















end
