(* ===== verification/UdpState.thy ===== *)
theory UdpState
  imports Identity
begin

text \<open>
  \<open>p5136-server/src/udp_state.rs\<close>: which UDP endpoint belongs to which generation of
  which user.  The state holds a mirror of the active identities and one endpoint table
  for each of the two transports; every operation is one synchronous step that returns
  its result and the new state.

  The locale \<open>endpoint_slots\<close> is what the state relies on from a table: one endpoint per
  user, owned by one generation, never replaced by an older generation nor, within a
  generation, by another endpoint.
\<close>

section \<open>Data\<close>

datatype udp_transport = GameTransport | P2pTransport

record socket_addr =
  sa_ip :: ip_addr
  sa_port :: u16

record udp_endpoint_binding =
  ue_endpoint :: socket_addr
  ue_route_hash :: u32
  ue_generation :: u64
  ue_direct_p2p :: bool

datatype udp_bind_status = EndpointBound | EndpointRefreshed | EndpointAdvancedGeneration

record udp_ingress_binding =
  ui_identity :: identity_binding
  ui_endpoint :: udp_endpoint_binding
  ui_status :: udp_bind_status

record current_udp_endpoint =
  cu_identity :: identity_binding
  cu_endpoint :: udp_endpoint_binding

datatype udp_state_error =
    UdpZeroAccountId
  | UdpInactiveAccount u32
  | UdpActiveIdentityCapacity nat
  | UdpInvalidSourceEndpoint socket_addr
  | UdpSourceIpMismatch u32 ip_addr ip_addr
  | UdpEndpointMismatch udp_transport u32 u64 socket_addr socket_addr
  | UdpStaleGeneration udp_transport u32 u64 u64
  | UdpIngressPredatesReconnect udp_transport u32 u64 u64

record mirrored_identity =
  mi_generation :: u64
  mi_source_ip :: ip_addr
  mi_reconnect_boundary_epoch :: "u64 option"

definition mirrored :: "identity_binding \<Rightarrow> mirrored_identity" where
  "mirrored i = \<lparr>mi_generation = ib_generation i, mi_source_ip = ib_source_ip i,
     mi_reconnect_boundary_epoch = None\<rparr>"

section \<open>The endpoint table of a transport\<close>

type_synonym endpoint_table = "(u32 \<times> udp_endpoint_binding) list"

datatype table_bind_error =
    TableEndpointMismatch udp_endpoint_binding
  | TableStaleGeneration u64 u64       \<comment> \<open>current, attempted\<close>

definition table_status ::
  "endpoint_table \<Rightarrow> u32 \<Rightarrow> udp_endpoint_binding \<Rightarrow> table_bind_error + udp_bind_status" where
  "table_status t u candidate = (case map_of t u of
       None \<Rightarrow> Inr EndpointBound
     | Some current \<Rightarrow>
         if ue_generation candidate < ue_generation current
         then Inl (TableStaleGeneration (ue_generation current) (ue_generation candidate))
         else if ue_generation current = ue_generation candidate \<and> ue_endpoint current \<noteq> ue_endpoint candidate
         then Inl (TableEndpointMismatch current)
         else if ue_generation current = ue_generation candidate then Inr EndpointRefreshed
         else Inr EndpointAdvancedGeneration)"

definition table_bind ::
  "u32 \<Rightarrow> udp_endpoint_binding \<Rightarrow> endpoint_table \<Rightarrow>
     (table_bind_error + udp_bind_status \<times> udp_endpoint_binding) \<times> endpoint_table" where
  "table_bind u candidate t = (case table_status t u candidate of
       Inl e \<Rightarrow> (Inl e, t)
     | Inr status \<Rightarrow> (Inr (status, candidate), AList.update u candidate t))"

definition table_get_authorized :: "u32 \<Rightarrow> u64 \<Rightarrow> endpoint_table \<Rightarrow> udp_endpoint_binding option" where
  "table_get_authorized u generation t = (case map_of t u of
       None \<Rightarrow> None
     | Some b \<Rightarrow> if ue_generation b = generation then Some b else None)"

definition table_release :: "u32 \<Rightarrow> u64 \<Rightarrow> endpoint_table \<Rightarrow> endpoint_table" where
  "table_release u generation t = (case map_of t u of
       None \<Rightarrow> t
     | Some b \<Rightarrow> if ue_generation b = generation then AList.delete u t else t)"

definition map_table_error ::
  "udp_transport \<Rightarrow> u32 \<Rightarrow> socket_addr \<Rightarrow> table_bind_error \<Rightarrow> udp_state_error" where
  "map_table_error transport u attempted e = (case e of
       TableEndpointMismatch current \<Rightarrow>
         UdpEndpointMismatch transport u (ue_generation current) (ue_endpoint current) attempted
     | TableStaleGeneration current stale \<Rightarrow> UdpStaleGeneration transport u stale current)"

section \<open>The state\<close>

definition default_maximum_active_udp_identities :: nat where
  "default_maximum_active_udp_identities = 4096"

record udp_endpoint_state =
  us_active :: "(u32 \<times> mirrored_identity) list"
  us_maximum_active_identities :: nat
  us_game :: endpoint_table
  us_p2p :: endpoint_table

type_synonym 'a udp_op = "udp_endpoint_state \<Rightarrow> (udp_state_error + 'a) \<times> udp_endpoint_state"

definition udp_with_max_active_identities :: "nat \<Rightarrow> udp_endpoint_state" where
  "udp_with_max_active_identities n =
     \<lparr>us_active = [], us_maximum_active_identities = n, us_game = [], us_p2p = []\<rparr>"

definition udp_state_default :: udp_endpoint_state where
  "udp_state_default = udp_with_max_active_identities default_maximum_active_udp_identities"

definition active_identity_count :: "udp_endpoint_state \<Rightarrow> nat" where
  "active_identity_count s = length (us_active s)"

definition mirror_of :: "udp_endpoint_state \<Rightarrow> u32 \<Rightarrow> mirrored_identity option" where
  "mirror_of s = map_of (us_active s)"

fun us_table :: "udp_transport \<Rightarrow> udp_endpoint_state \<Rightarrow> endpoint_table" where
  "us_table GameTransport s = us_game s"
| "us_table P2pTransport s = us_p2p s"

fun us_table_update :: "udp_transport \<Rightarrow> endpoint_table \<Rightarrow> udp_endpoint_state \<Rightarrow> udp_endpoint_state" where
  "us_table_update GameTransport t s = s\<lparr>us_game := t\<rparr>"
| "us_table_update P2pTransport t s = s\<lparr>us_p2p := t\<rparr>"

section \<open>Operations\<close>

text \<open>The checks of an ingress before the endpoint table is asked.\<close>

definition ingress_error ::
  "udp_transport \<Rightarrow> identity_binding \<Rightarrow> socket_addr \<Rightarrow> u64 \<Rightarrow> udp_endpoint_state \<Rightarrow>
     udp_state_error option" where
  "ingress_error transport i source arrival s =
     (if sa_port source = 0 then Some (UdpInvalidSourceEndpoint source)
      else (case mirror_of s (ib_user_no i) of
        None \<Rightarrow> Some (UdpInactiveAccount (ib_user_no i))
      | Some active \<Rightarrow>
          if mi_generation active \<noteq> ib_generation i
          then Some (UdpStaleGeneration transport (ib_user_no i) (ib_generation i) (mi_generation active))
          else if ib_source_ip i \<noteq> mi_source_ip active
          then Some (UdpSourceIpMismatch (ib_user_no i) (mi_source_ip active) (ib_source_ip i))
          else (case mi_reconnect_boundary_epoch active of
              Some boundary \<Rightarrow>
                if arrival \<le> boundary
                then Some (UdpIngressPredatesReconnect transport (ib_user_no i) arrival boundary)
                else if sa_ip source \<noteq> mi_source_ip active
                then Some (UdpSourceIpMismatch (ib_user_no i) (mi_source_ip active) (sa_ip source))
                else None
            | None \<Rightarrow>
                if sa_ip source \<noteq> mi_source_ip active
                then Some (UdpSourceIpMismatch (ib_user_no i) (mi_source_ip active) (sa_ip source))
                else None)))"

definition bind_authorized_ingress_at ::
  "udp_transport \<Rightarrow> identity_binding \<Rightarrow> socket_addr \<Rightarrow> u32 \<Rightarrow> u64 \<Rightarrow> udp_ingress_binding udp_op" where
  "bind_authorized_ingress_at transport i source route_hash arrival s =
     (case ingress_error transport i source arrival s of
        Some e \<Rightarrow> (Inl e, s)
      | None \<Rightarrow>
          (let candidate = \<lparr>ue_endpoint = source, ue_route_hash = route_hash,
                 ue_generation = ib_generation i, ue_direct_p2p = False\<rparr>
           in (case table_bind (ib_user_no i) candidate (us_table transport s) of
                 (Inl e, _) \<Rightarrow> (Inl (map_table_error transport (ib_user_no i) source e), s)
               | (Inr (status, endpoint), t) \<Rightarrow>
                   (Inr \<lparr>ui_identity = i, ui_endpoint = endpoint, ui_status = status\<rparr>,
                    us_table_update transport t s))))"

definition bind_authorized_ingress ::
  "udp_transport \<Rightarrow> identity_binding \<Rightarrow> socket_addr \<Rightarrow> u32 \<Rightarrow> udp_ingress_binding udp_op" where
  "bind_authorized_ingress transport i source route_hash s =
     bind_authorized_ingress_at transport i source route_hash (- 1) s"

definition advance_identity :: "identity_binding \<Rightarrow> unit udp_op" where
  "advance_identity i s =
     (let insert = (if mirror_of s (ib_user_no i) = None \<and> us_maximum_active_identities s \<le> length (us_active s)
            then (Inl (UdpActiveIdentityCapacity (us_maximum_active_identities s)), s)
            else (Inr (), s\<lparr>us_active := AList.update (ib_user_no i) (mirrored i) (us_active s)\<rparr>))
      in (case mirror_of s (ib_user_no i) of
            Some current \<Rightarrow>
              if ib_generation i < mi_generation current then (Inr (), s)
              else if mi_generation current = ib_generation i
              then (if mi_source_ip current \<noteq> ib_source_ip i
                    then (Inl (UdpSourceIpMismatch (ib_user_no i) (mi_source_ip current) (ib_source_ip i)), s)
                    else (Inr (), s))
              else insert
          | None \<Rightarrow> insert))"

definition bind_ingress ::
  "identity_registry \<Rightarrow> udp_transport \<Rightarrow> u32 \<Rightarrow> socket_addr \<Rightarrow> u32 \<Rightarrow> udp_ingress_binding udp_op" where
  "bind_ingress identities transport account_id source route_hash s =
     (if account_id = 0 then (Inl UdpZeroAccountId, s)
      else (case active_identity_by_user_no account_id identities of
        None \<Rightarrow> (Inl (UdpInactiveAccount account_id), s)
      | Some i \<Rightarrow> (case advance_identity i s of
            (Inl e, s) \<Rightarrow> (Inl e, s)
          | (Inr _, s) \<Rightarrow> bind_authorized_ingress transport i source route_hash s)))"

definition release_both :: "u32 \<Rightarrow> u64 \<Rightarrow> udp_endpoint_state \<Rightarrow> udp_endpoint_state" where
  "release_both u generation s =
     s\<lparr>us_game := table_release u generation (us_game s),
       us_p2p := table_release u generation (us_p2p s)\<rparr>"

definition authorize_rebind :: "identity_binding \<Rightarrow> u64 \<Rightarrow> unit udp_op" where
  "authorize_rebind i boundary s = (case mirror_of s (ib_user_no i) of
       None \<Rightarrow> (Inl (UdpInactiveAccount (ib_user_no i)), s)
     | Some active \<Rightarrow>
         if mi_generation active \<noteq> ib_generation i
         then (Inl (UdpStaleGeneration GameTransport (ib_user_no i) (ib_generation i) (mi_generation active)), s)
         else if mi_source_ip active \<noteq> ib_source_ip i
         then (Inl (UdpSourceIpMismatch (ib_user_no i) (mi_source_ip active) (ib_source_ip i)), s)
         else if (case mi_reconnect_boundary_epoch active of None \<Rightarrow> False | Some current \<Rightarrow> boundary \<le> current)
         then (Inr (), s)
         else (Inr (), release_both (ib_user_no i) (ib_generation i)
                 (s\<lparr>us_active := AList.update (ib_user_no i)
                      (active\<lparr>mi_reconnect_boundary_epoch := Some boundary\<rparr>) (us_active s)\<rparr>)))"

definition current_authorized_target ::
  "udp_transport \<Rightarrow> identity_binding \<Rightarrow> udp_endpoint_state \<Rightarrow> current_udp_endpoint option" where
  "current_authorized_target transport i s = (case mirror_of s (ib_user_no i) of
       None \<Rightarrow> None
     | Some active \<Rightarrow>
         if mi_generation active \<noteq> ib_generation i \<or> mi_source_ip active \<noteq> ib_source_ip i then None
         else (case table_get_authorized (ib_user_no i) (ib_generation i) (us_table transport s) of
             None \<Rightarrow> None
           | Some endpoint \<Rightarrow>
               if ue_generation endpoint \<noteq> ib_generation i \<or> sa_ip (ue_endpoint endpoint) \<noteq> ib_source_ip i
               then None else Some \<lparr>cu_identity = i, cu_endpoint = endpoint\<rparr>))"

definition udp_current_target ::
  "identity_registry \<Rightarrow> udp_transport \<Rightarrow> u32 \<Rightarrow> udp_endpoint_state \<Rightarrow> current_udp_endpoint option" where
  "udp_current_target identities transport u s = (case active_identity_by_user_no u identities of
       None \<Rightarrow> None
     | Some i \<Rightarrow> current_authorized_target transport i s)"

definition remove_released_identity :: "released_identity \<Rightarrow> udp_endpoint_state \<Rightarrow> udp_endpoint_state" where
  "remove_released_identity r s = (case mirror_of s (ri_user_no r) of
       None \<Rightarrow> s
     | Some active \<Rightarrow>
         if mi_generation active \<noteq> ri_generation r then s
         else release_both (ri_user_no r) (ri_generation r)
                (s\<lparr>us_active := AList.delete (ri_user_no r) (us_active s)\<rparr>))"

definition udp_clear :: "udp_endpoint_state \<Rightarrow> udp_endpoint_state" where
  "udp_clear s = s\<lparr>us_active := [], us_game := [], us_p2p := []\<rparr>"

section \<open>Runs\<close>

text \<open>The owner of the state serialises the calls; a run is the list of them.\<close>

datatype udp_call =
    IngressCall udp_transport identity_binding socket_addr u32 u64
  | RegistryIngressCall identity_registry udp_transport u32 socket_addr u32
  | RebindCall identity_binding u64
  | AdvanceCall identity_binding
  | ReleasedCall released_identity
  | ClearCall

fun udp_step :: "udp_call \<Rightarrow> udp_endpoint_state \<Rightarrow> udp_endpoint_state" where
  "udp_step (IngressCall transport i source route_hash arrival) s =
     snd (bind_authorized_ingress_at transport i source route_hash arrival s)"
| "udp_step (RegistryIngressCall identities transport account_id source route_hash) s =
     snd (bind_ingress identities transport account_id source route_hash s)"
| "udp_step (RebindCall i boundary) s = snd (authorize_rebind i boundary s)"
| "udp_step (AdvanceCall i) s = snd (advance_identity i s)"
| "udp_step (ReleasedCall r) s = remove_released_identity r s"
| "udp_step ClearCall s = udp_clear s"

definition udp_run :: "udp_call list \<Rightarrow> udp_endpoint_state \<Rightarrow> udp_endpoint_state" where
  "udp_run calls s = fold udp_step calls s"

end
