(* ===== verification/UdpInv.thy ===== *)
theory UdpInv
  imports UdpState
begin

text \<open>
  What a run keeps of the UDP endpoints: the contract of an endpoint table and the
  lemmas that rest on it, the mirror of an identity while its generation lasts, the
  endpoint that generation holds, and the capacity of the mirror.
\<close>

section \<open>The contract of an endpoint table\<close>

locale endpoint_slots =
  fixes get :: "'t \<Rightarrow> u32 \<Rightarrow> udp_endpoint_binding option"
    and bind :: "u32 \<Rightarrow> udp_endpoint_binding \<Rightarrow> 't \<Rightarrow> ('e + 'r) \<times> 't"
    and release :: "u32 \<Rightarrow> u64 \<Rightarrow> 't \<Rightarrow> 't"
  assumes bind_ok: "bind u c t = (Inr r, t') \<Longrightarrow> get t' = (get t)(u \<mapsto> c)"
    and bind_fail: "bind u c t = (Inl e, t') \<Longrightarrow> t' = t"
    and bind_clash: "get t u = Some b \<Longrightarrow> ue_generation b = ue_generation c \<Longrightarrow>
      ue_endpoint b \<noteq> ue_endpoint c \<Longrightarrow> \<exists>e. bind u c t = (Inl e, t)"
    and release_hit: "get t u = Some b \<Longrightarrow> ue_generation b = g \<Longrightarrow> get (release u g t) = (get t)(u := None)"
    and release_miss: "\<forall>b. get t u = Some b \<longrightarrow> ue_generation b \<noteq> g \<Longrightarrow> get (release u g t) = get t"
begin

definition owns :: "u32 \<Rightarrow> u64 \<Rightarrow> socket_addr \<Rightarrow> 't \<Rightarrow> bool" where
  "owns u g e t \<longleftrightarrow> (\<exists>b. get t u = Some b \<and> ue_generation b = g \<and> ue_endpoint b = e)"

lemma bind_other_user: "v \<noteq> u \<Longrightarrow> get (snd (bind v c t)) u = get t u"
proof (cases "bind v c t")
  case (Pair res t')
  assume "v \<noteq> u"
  with Pair show ?thesis
    by (cases res) (auto dest: bind_ok bind_fail)
qed

lemma owner_kept_by_bind:
  assumes "owns u g e t" "v = u \<Longrightarrow> ue_generation c = g"
  shows "owns u g e (snd (bind v c t))"
proof (cases "v = u")
  case False
  with assms(1) show ?thesis by (simp add: owns_def bind_other_user)
next
  case True
  with assms obtain b where b: "get t u = Some b" "ue_generation b = g" "ue_endpoint b = e"
    and c: "ue_generation c = g"
    by (auto simp: owns_def)
  show ?thesis
  proof (cases "ue_endpoint c = e")
    case True
    with b c \<open>v = u\<close> show ?thesis
      by (cases "bind v c t"; cases "fst (bind v c t)") (auto simp: owns_def dest: bind_ok bind_fail)
  next
    case False
    with bind_clash [OF b(1), of c] b c \<open>v = u\<close> show ?thesis by (auto simp: owns_def)
  qed
qed

lemma release_other: "get t u = Some b \<Longrightarrow> v \<noteq> u \<or> ue_generation b \<noteq> h \<Longrightarrow> get (release v h t) u = Some b"
proof (cases "\<exists>x. get t v = Some x \<and> ue_generation x = h")
  case True
  assume g: "get t u = Some b" "v \<noteq> u \<or> ue_generation b \<noteq> h"
  from True obtain x where x: "get t v = Some x" "ue_generation x = h" by blast
  from release_hit [OF x] g x show ?thesis by auto
next
  case False
  assume g: "get t u = Some b"
  from False have "get (release v h t) = get t" by (intro release_miss) blast
  with g show ?thesis by simp
qed

lemma owner_kept_by_release: "owns u g e t \<Longrightarrow> v \<noteq> u \<or> h \<noteq> g \<Longrightarrow> owns u g e (release v h t)"
  by (auto simp: owns_def dest: release_other [of _ u _ v h])

lemma release_clears: "get (release u g t) u = Some b \<Longrightarrow> ue_generation b \<noteq> g"
  using release_hit [of t u _ g] release_miss [of t u g] by (cases "\<exists>b. get t u = Some b \<and> ue_generation b = g") auto

lemma release_subset: "get (release v h t) u = Some b \<Longrightarrow> get t u = Some b"
  using release_hit [of t v _ h] release_miss [of t v h]
  by (cases "\<exists>x. get t v = Some x \<and> ue_generation x = h") (auto split: if_splits)

lemma bind_subset:
  "get (snd (bind v c t)) u = Some b \<Longrightarrow> get t u = Some b \<or> v = u \<and> b = c \<and> (\<exists>r. fst (bind v c t) = Inr r)"
  by (cases "bind v c t"; cases "fst (bind v c t)") (auto dest: bind_ok bind_fail split: if_splits)

end

interpretation table_slots: endpoint_slots map_of table_bind table_release
  by unfold_locales
    (auto simp: table_bind_def table_status_def table_release_def split: sum.splits option.splits if_splits)

lemma us_table_upd [simp]:
  "us_table tr (us_table_update tr' t s) = (if tr = tr' then t else us_table tr s)"
  "us_active (us_table_update tr' t s) = us_active s"
  "mirror_of (us_table_update tr' t s) = mirror_of s"
  "us_maximum_active_identities (us_table_update tr' t s) = us_maximum_active_identities s"
  by (cases tr; cases tr'; simp add: mirror_of_def)+

lemma us_table_active [simp]: "us_table tr (s\<lparr>us_active := x\<rparr>) = us_table tr s"
  by (cases tr) simp_all

lemma release_both_simps [simp]:
  "us_table tr (release_both u g s) = table_release u g (us_table tr s)"
  "us_active (release_both u g s) = us_active s"
  "mirror_of (release_both u g s) = mirror_of s"
  "us_maximum_active_identities (release_both u g s) = us_maximum_active_identities s"
  by (cases tr; simp add: release_both_def mirror_of_def)+

lemma mirror_of_update [simp]: "mirror_of (s\<lparr>us_active := AList.update u a m\<rparr>) = (map_of m)(u \<mapsto> a)"
  by (simp add: mirror_of_def)

lemma mirror_of_delete [simp]: "mirror_of (s\<lparr>us_active := AList.delete u m\<rparr>) = (map_of m)(u := None)"
  by (simp add: mirror_of_def)

section \<open>The ingress\<close>

lemma ingress_passed:
  "ingress_error tr i source a s = None \<longleftrightarrow>
     sa_port source \<noteq> 0 \<and> sa_ip source = ib_source_ip i \<and>
     (\<exists>m. mirror_of s (ib_user_no i) = Some m \<and> mi_generation m = ib_generation i
        \<and> mi_source_ip m = ib_source_ip i
        \<and> (\<forall>b. mi_reconnect_boundary_epoch m = Some b \<longrightarrow> b < a))"
  by (auto simp: ingress_error_def not_le split: option.splits if_splits)

abbreviation candidate_of :: "identity_binding \<Rightarrow> socket_addr \<Rightarrow> u32 \<Rightarrow> udp_endpoint_binding" where
  "candidate_of i source rh \<equiv> \<lparr>ue_endpoint = source, ue_route_hash = rh,
     ue_generation = ib_generation i, ue_direct_p2p = False\<rparr>"

lemma bind_at_state:
  "snd (bind_authorized_ingress_at tr i source rh a s) =
     (if ingress_error tr i source a s = None
      then us_table_update tr (snd (table_bind (ib_user_no i) (candidate_of i source rh) (us_table tr s))) s
      else s)"
proof (cases "ingress_error tr i source a s")
  case None
  show ?thesis
  proof (cases "table_status (us_table tr s) (ib_user_no i) (candidate_of i source rh)")
    case (Inl e)
    have "us_table_update tr (us_table tr s) s = s" by (cases tr) simp_all
    with None Inl show ?thesis
      by (simp add: bind_authorized_ingress_at_def table_bind_def Let_def)
  next
    case (Inr st)
    with None show ?thesis
      by (simp add: bind_authorized_ingress_at_def table_bind_def Let_def)
  qed
qed (simp add: bind_authorized_ingress_at_def)

lemma bind_at_Inr:
  "bind_authorized_ingress_at tr i source rh a s = (Inr b, s') \<longleftrightarrow>
     ingress_error tr i source a s = None \<and>
     (\<exists>st. table_status (us_table tr s) (ib_user_no i) (candidate_of i source rh) = Inr st
        \<and> b = \<lparr>ui_identity = i, ui_endpoint = candidate_of i source rh, ui_status = st\<rparr>)
     \<and> s' = us_table_update tr (AList.update (ib_user_no i) (candidate_of i source rh) (us_table tr s)) s"
  by (auto simp: bind_authorized_ingress_at_def table_bind_def Let_def split: option.splits sum.splits)

lemma bind_at_Inl_unchanged:
  "bind_authorized_ingress_at tr i source rh a s = (Inl e, s') \<Longrightarrow> s' = s"
  by (auto simp: bind_authorized_ingress_at_def table_bind_def Let_def split: option.splits sum.splits)

lemma advance_table [simp]: "us_table tr (snd (advance_identity i s)) = us_table tr s"
  by (auto simp: advance_identity_def Let_def split: option.splits)

lemma advance_mirror:
  "mirror_of (snd (advance_identity i s)) u = mirror_of s u \<or>
   u = ib_user_no i \<and> mirror_of (snd (advance_identity i s)) u = Some (mirrored i)
     \<and> (\<forall>m. mirror_of s u = Some m \<longrightarrow> mi_generation m < ib_generation i)"
  by (auto simp: advance_identity_def Let_def mirror_of_def split: option.splits)

lemma rebind_mirror:
  "mirror_of (snd (authorize_rebind i bd s)) u = mirror_of s u \<or>
   (\<exists>m. u = ib_user_no i \<and> mirror_of s u = Some m
      \<and> mirror_of (snd (authorize_rebind i bd s)) u = Some (m\<lparr>mi_reconnect_boundary_epoch := Some bd\<rparr>)
      \<and> (\<forall>b. mi_reconnect_boundary_epoch m = Some b \<longrightarrow> b < bd))"
  by (auto simp: authorize_rebind_def mirror_of_def split: option.splits)

lemma rebind_table:
  "us_table tr (snd (authorize_rebind i bd s)) = us_table tr s \<or>
   us_table tr (snd (authorize_rebind i bd s)) = table_release (ib_user_no i) (ib_generation i) (us_table tr s)"
  by (auto simp: authorize_rebind_def split: option.splits)

lemma released_mirror:
  "mirror_of s u = Some m \<Longrightarrow> ri_user_no r \<noteq> u \<or> ri_generation r \<noteq> mi_generation m \<Longrightarrow>
     mirror_of (remove_released_identity r s) u = Some m"
  by (auto simp: remove_released_identity_def mirror_of_def split: option.splits)

lemma released_table:
  "us_table tr (remove_released_identity r s) = us_table tr s \<or>
   us_table tr (remove_released_identity r s) = table_release (ri_user_no r) (ri_generation r) (us_table tr s)"
  by (auto simp: remove_released_identity_def split: option.splits)

lemma bind_ingress_cases:
  "snd (bind_ingress ids tr acc source rh s) = s \<or>
   (\<exists>i. active_identity_by_user_no acc ids = Some i
      \<and> snd (bind_ingress ids tr acc source rh s) = snd (advance_identity i s)) \<or>
   (\<exists>i. active_identity_by_user_no acc ids = Some i
      \<and> snd (bind_ingress ids tr acc source rh s)
         = snd (bind_authorized_ingress_at tr i source rh (- 1) (snd (advance_identity i s))))"
proof (cases "acc = 0")
  case False
  show ?thesis
  proof (cases "active_identity_by_user_no acc ids")
    case (Some i)
    show ?thesis
      by (cases "advance_identity i s"; cases "fst (advance_identity i s)")
        (use False Some in \<open>auto simp: bind_ingress_def bind_authorized_ingress_def\<close>)
  qed (use False in \<open>simp add: bind_ingress_def\<close>)
qed (simp add: bind_ingress_def)

section \<open>While a generation lasts\<close>

text \<open>The calls that do not end generation \<open>g\<close> of user \<open>u\<close>.\<close>

fun keeps_generation :: "u32 \<Rightarrow> u64 \<Rightarrow> udp_call \<Rightarrow> bool" where
  "keeps_generation u g (IngressCall _ _ _ _ _) = True"
| "keeps_generation u g (RegistryIngressCall ids _ acc _ _) =
     (case active_identity_by_user_no acc ids of
        None \<Rightarrow> True
      | Some i \<Rightarrow> ib_user_no i = u \<longrightarrow> ib_generation i \<le> g)"
| "keeps_generation u g (RebindCall _ _) = True"
| "keeps_generation u g (AdvanceCall i) = (ib_user_no i = u \<longrightarrow> ib_generation i \<le> g)"
| "keeps_generation u g (ReleasedCall r) = (ri_user_no r \<noteq> u \<or> ri_generation r \<noteq> g)"
| "keeps_generation u g ClearCall = False"

fun rebinds :: "u32 \<Rightarrow> u64 \<Rightarrow> udp_call \<Rightarrow> bool" where
  "rebinds u g (RebindCall i _) = (ib_user_no i = u \<and> ib_generation i = g)"
| "rebinds u g _ = False"

definition mirror_later :: "mirrored_identity \<Rightarrow> mirrored_identity \<Rightarrow> bool" where
  "mirror_later m m' \<longleftrightarrow> mi_generation m' = mi_generation m \<and> mi_source_ip m' = mi_source_ip m
     \<and> (\<forall>b. mi_reconnect_boundary_epoch m = Some b \<longrightarrow> (\<exists>b'. mi_reconnect_boundary_epoch m' = Some b' \<and> b \<le> b'))"

lemma mirror_later_refl [simp]: "mirror_later m m"
  by (auto simp: mirror_later_def)

lemma mirror_later_trans: "mirror_later a b \<Longrightarrow> mirror_later b c \<Longrightarrow> mirror_later a c"
  by (fastforce simp: mirror_later_def)

lemma advance_mirror_kept:
  assumes "mirror_of s u = Some m" "ib_user_no i = u \<Longrightarrow> ib_generation i \<le> mi_generation m"
  shows "mirror_of (snd (advance_identity i s)) u = Some m"
  using advance_mirror [of i s u] assms by (auto simp: not_less)

lemma bind_at_mirror [simp]: "mirror_of (snd (bind_authorized_ingress_at tr i source rh a s)) = mirror_of s"
  by (simp add: bind_at_state)

lemma step_mirror:
  assumes "mirror_of s u = Some m" "keeps_generation u (mi_generation m) call"
  shows "\<exists>m'. mirror_of (udp_step call s) u = Some m' \<and> mirror_later m m'"
proof (cases call)
  case (RegistryIngressCall ids tr acc source rh)
  have "mirror_of (udp_step call s) u = Some m"
    using bind_ingress_cases [of ids tr acc source rh s] assms advance_mirror_kept [OF assms(1)]
    by (auto simp: RegistryIngressCall)
  then show ?thesis by auto
next
  case (RebindCall i bd)
  show ?thesis
    using rebind_mirror [of i bd s u] assms(1)
    by (auto simp: RebindCall mirror_later_def intro: less_imp_le)
next
  case (AdvanceCall i)
  with assms show ?thesis by (auto simp: advance_mirror_kept)
next
  case (ReleasedCall r)
  with assms show ?thesis by (auto simp: released_mirror)
qed (use assms in auto)

lemma run_mirror:
  assumes "mirror_of s u = Some m" "list_all (keeps_generation u (mi_generation m)) calls"
  shows "\<exists>m'. mirror_of (udp_run calls s) u = Some m' \<and> mirror_later m m'"
  using assms unfolding udp_run_def
proof (induction calls arbitrary: s m)
  case (Cons call calls)
  then obtain m1 where m1: "mirror_of (udp_step call s) u = Some m1" "mirror_later m m1"
    using step_mirror [of s u m call] by auto
  have "mi_generation m1 = mi_generation m" using m1(2) by (simp add: mirror_later_def)
  with Cons.IH [OF m1(1)] Cons.prems(2) obtain m2 where
    "mirror_of (fold udp_step calls (udp_step call s)) u = Some m2" "mirror_later m1 m2" by auto
  with m1(2) show ?case by (auto intro: mirror_later_trans)
qed simp

section \<open>The endpoint of a generation\<close>

abbreviation owns_endpoint :: "u32 \<Rightarrow> u64 \<Rightarrow> socket_addr \<Rightarrow> endpoint_table \<Rightarrow> bool" where
  "owns_endpoint \<equiv> table_slots.owns"

lemma bind_at_owner:
  assumes "owns_endpoint u g e (us_table tr s)" "mirror_of s u = Some m" "mi_generation m = g"
  shows "owns_endpoint u g e (us_table tr (snd (bind_authorized_ingress_at tr' i source rh a s)))"
proof (cases "ingress_error tr' i source a s = None")
  case True
  then have "ib_user_no i = u \<Longrightarrow> ib_generation i = g" using assms by (auto simp: ingress_passed)
  with True assms(1) show ?thesis
    by (auto simp: bind_at_state intro: table_slots.owner_kept_by_bind)
qed (use assms in \<open>auto simp: bind_at_state\<close>)

lemma step_owner:
  assumes "owns_endpoint u g e (us_table tr s)" "mirror_of s u = Some m" "mi_generation m = g"
    "keeps_generation u g call" "\<not> rebinds u g call"
  shows "owns_endpoint u g e (us_table tr (udp_step call s))"
proof (cases call)
  case (IngressCall tr' i source rh a)
  with bind_at_owner [OF assms(1-3)] show ?thesis by simp
next
  case (RegistryIngressCall ids tr' acc source rh)
  show ?thesis using bind_ingress_cases [of ids tr' acc source rh s]
  proof (elim disjE exE conjE)
    fix i assume i: "active_identity_by_user_no acc ids = Some i"
      and eq: "snd (bind_ingress ids tr' acc source rh s)
        = snd (bind_authorized_ingress_at tr' i source rh (- 1) (snd (advance_identity i s)))"
    have "mirror_of (snd (advance_identity i s)) u = Some m"
      using assms i by (intro advance_mirror_kept) (auto simp: RegistryIngressCall)
    with bind_at_owner [of u g e tr "snd (advance_identity i s)" m] assms eq
    show ?thesis by (simp add: RegistryIngressCall)
  qed (use assms in \<open>simp_all add: RegistryIngressCall\<close>)
next
  case (RebindCall i bd)
  with rebind_table [of tr i bd s] assms show ?thesis
    by (auto intro: table_slots.owner_kept_by_release)
next
  case (ReleasedCall r)
  with released_table [of tr r s] assms show ?thesis
    by (auto intro: table_slots.owner_kept_by_release)
qed (use assms in simp_all)

lemma run_owner:
  assumes "owns_endpoint u g e (us_table tr s)" "mirror_of s u = Some m" "mi_generation m = g"
    "list_all (\<lambda>c. keeps_generation u g c \<and> \<not> rebinds u g c) calls"
  shows "owns_endpoint u g e (us_table tr (udp_run calls s))"
  using assms unfolding udp_run_def
proof (induction calls arbitrary: s m)
  case (Cons call calls)
  obtain m1 where m1: "mirror_of (udp_step call s) u = Some m1" "mirror_later m m1"
    using step_mirror [of s u m call] Cons.prems by auto
  have "owns_endpoint u g e (us_table tr (udp_step call s))"
    using step_owner [OF Cons.prems(1-3)] Cons.prems(4) by simp
  with Cons.IH [OF this m1(1)] m1(2) Cons.prems show ?case by (simp add: mirror_later_def)
qed simp

lemma target_of_owner:
  assumes "owns_endpoint (ib_user_no i) (ib_generation i) e (us_table tr s)"
    "mirror_of s (ib_user_no i) = Some m" "mi_generation m = ib_generation i"
    "mi_source_ip m = ib_source_ip i" "sa_ip e = ib_source_ip i"
  shows "\<exists>b. current_authorized_target tr i s = Some \<lparr>cu_identity = i, cu_endpoint = b\<rparr> \<and> ue_endpoint b = e"
  using assms by (auto simp: table_slots.owns_def current_authorized_target_def table_get_authorized_def)

lemma bind_rejected_by_owner:
  assumes "owns_endpoint u g e (us_table tr s)" "mirror_of s u = Some m" "mi_generation m = g"
    "ib_user_no i = u" "source \<noteq> e"
  shows "\<exists>err. bind_authorized_ingress_at tr i source rh a s = (Inl err, s)"
proof (cases "ingress_error tr i source a s")
  case None
  then have g: "ib_generation i = g" using assms by (auto simp: ingress_passed)
  from assms(1) obtain b where b: "map_of (us_table tr s) u = Some b" "ue_generation b = g" "ue_endpoint b = e"
    by (auto simp: table_slots.owns_def)
  with table_slots.bind_clash [OF b(1), of "candidate_of i source rh"] g assms None show ?thesis
    by (auto simp: bind_authorized_ingress_at_def Let_def)
qed (simp add: bind_authorized_ingress_at_def)

section \<open>Reconnect boundaries\<close>

text \<open>The calls that bring endpoint \<open>e\<close> of user \<open>u\<close> after boundary \<open>b\<close>.\<close>

fun brings :: "udp_transport \<Rightarrow> u32 \<Rightarrow> u64 \<Rightarrow> socket_addr \<Rightarrow> udp_call \<Rightarrow> bool" where
  "brings tr u b e (IngressCall tr' i source _ arrival) =
     (tr' = tr \<and> ib_user_no i = u \<and> source = e \<and> b < arrival)"
| "brings tr u b e (RegistryIngressCall ids tr' acc source _) =
     (tr' = tr \<and> source = e \<and> (case active_identity_by_user_no acc ids of
        None \<Rightarrow> False
      | Some i \<Rightarrow> ib_user_no i = u))"
| "brings tr u b e _ = False"

definition boundary_from :: "u64 \<Rightarrow> mirrored_identity \<Rightarrow> bool" where
  "boundary_from b m \<longleftrightarrow> (\<exists>c. mi_reconnect_boundary_epoch m = Some c \<and> b \<le> c)"

lemma bind_at_entry:
  assumes "map_of (us_table tr (snd (bind_authorized_ingress_at tr' i source rh a s))) u = Some x"
    "mirror_of s u = Some m" "boundary_from b m"
  shows "map_of (us_table tr s) u = Some x \<or>
     tr' = tr \<and> ib_user_no i = u \<and> ue_endpoint x = source \<and> b < a"
proof (cases "ingress_error tr' i source a s = None")
  case True
  then have "ib_user_no i = u \<Longrightarrow> b < a"
    using assms(2,3) by (auto simp: ingress_passed boundary_from_def)
  with True assms(1) table_slots.bind_subset [of "ib_user_no i" "candidate_of i source rh" "us_table tr s" u x]
  show ?thesis by (auto simp: bind_at_state split: if_splits)
qed (use assms in \<open>auto simp: bind_at_state\<close>)

lemma step_entry:
  assumes x: "map_of (us_table tr (udp_step call s)) u = Some x" "mirror_of s u = Some m" "boundary_from b m"
    "keeps_generation u (mi_generation m) call"
  shows "map_of (us_table tr s) u = Some x \<or> brings tr u b (ue_endpoint x) call"
proof (cases call)
  case (IngressCall tr' i source rh a)
  with bind_at_entry [of tr tr' i source rh a s u x m b] assms show ?thesis by auto
next
  case (RegistryIngressCall ids tr' acc source rh)
  show ?thesis using bind_ingress_cases [of ids tr' acc source rh s]
  proof (elim disjE exE conjE)
    fix i assume i: "active_identity_by_user_no acc ids = Some i"
      and eq: "snd (bind_ingress ids tr' acc source rh s)
        = snd (bind_authorized_ingress_at tr' i source rh (- 1) (snd (advance_identity i s)))"
    have "mirror_of (snd (advance_identity i s)) u = Some m"
      using assms i by (intro advance_mirror_kept) (auto simp: RegistryIngressCall)
    with bind_at_entry [of tr tr' i source rh "- 1" "snd (advance_identity i s)" u x m b] assms eq i
    show ?thesis by (auto simp: RegistryIngressCall)
  qed (use assms in \<open>simp_all add: RegistryIngressCall\<close>)
next
  case (RebindCall i bd)
  with rebind_table [of tr i bd s] x(1) show ?thesis by (auto dest: table_slots.release_subset)
next
  case (ReleasedCall r)
  with released_table [of tr r s] x(1) show ?thesis by (auto dest: table_slots.release_subset)
qed (use assms in auto)

lemma run_entry:
  assumes "map_of (us_table tr (udp_run calls s)) u = Some x" "mirror_of s u = Some m" "boundary_from b m"
    "list_all (keeps_generation u (mi_generation m)) calls"
  shows "map_of (us_table tr s) u = Some x \<or> (\<exists>c\<in>set calls. brings tr u b (ue_endpoint x) c)"
  using assms unfolding udp_run_def
proof (induction calls arbitrary: s m)
  case (Cons call calls)
  obtain m1 where m1: "mirror_of (udp_step call s) u = Some m1" "mirror_later m m1"
    using step_mirror [of s u m call] Cons.prems by auto
  have b1: "boundary_from b m1" using m1(2) Cons.prems(3)
    by (fastforce simp: mirror_later_def boundary_from_def)
  have g: "mi_generation m1 = mi_generation m" using m1(2) by (simp add: mirror_later_def)
  from Cons.IH [OF _ m1(1) b1] Cons.prems(1,4) g
  have "map_of (us_table tr (udp_step call s)) u = Some x \<or> (\<exists>c\<in>set calls. brings tr u b (ue_endpoint x) c)"
    by simp
  with step_entry [OF _ Cons.prems(2,3)] Cons.prems(4) show ?case by auto
qed simp

section \<open>Capacity\<close>

definition udp_ok :: "udp_endpoint_state \<Rightarrow> bool" where
  "udp_ok s \<longleftrightarrow> keys_distinct (us_active s) \<and> length (us_active s) \<le> us_maximum_active_identities s"

lemma length_AList_update_le: "length (AList.update k v m) \<le> Suc (length m)"
  by (induction m) auto

lemma length_update_known: "map_of m k = Some x \<Longrightarrow> length (AList.update k v m) = length m"
  by (induction m) auto

lemma length_delete_le: "length (AList.delete k m) \<le> length m"
  by (simp add: AList.delete_eq)

lemma advance_ok: "udp_ok s \<Longrightarrow> udp_ok (snd (advance_identity i s))"
proof (cases "mirror_of s (ib_user_no i)")
  case None
  assume "udp_ok s"
  with None length_AList_update_le [of "ib_user_no i" "mirrored i" "us_active s"] show ?thesis
    by (auto simp: advance_identity_def udp_ok_def)
next
  case (Some m)
  assume "udp_ok s"
  with Some length_update_known [of "us_active s" "ib_user_no i" m "mirrored i"] show ?thesis
    by (auto simp: advance_identity_def udp_ok_def mirror_of_def)
qed

lemma bind_at_ok: "udp_ok s \<Longrightarrow> udp_ok (snd (bind_authorized_ingress_at tr i source rh a s))"
  by (simp add: bind_at_state udp_ok_def)

lemma rebind_ok: "udp_ok s \<Longrightarrow> udp_ok (snd (authorize_rebind i bd s))"
proof (cases "mirror_of s (ib_user_no i)")
  case (Some m)
  assume "udp_ok s"
  with Some length_update_known [of "us_active s" "ib_user_no i" m] show ?thesis
    by (auto simp: authorize_rebind_def udp_ok_def mirror_of_def)
qed (simp add: authorize_rebind_def)

lemma step_ok: "udp_ok s \<Longrightarrow> udp_ok (udp_step call s)"
proof (cases call)
  case (RegistryIngressCall ids tr acc source rh)
  assume "udp_ok s"
  with bind_ingress_cases [of ids tr acc source rh s] show ?thesis
    by (auto simp: RegistryIngressCall advance_ok bind_at_ok)
next
  case (ReleasedCall r)
  assume "udp_ok s"
  with length_delete_le [of "ri_user_no r" "us_active s"] show ?thesis
    by (auto simp: ReleasedCall remove_released_identity_def udp_ok_def split: option.split)
next
  case ClearCall
  assume "udp_ok s"
  then show ?thesis by (simp add: ClearCall udp_clear_def udp_ok_def)
qed (simp_all add: advance_ok bind_at_ok rebind_ok)

lemma run_ok: "udp_ok s \<Longrightarrow> udp_ok (udp_run calls s)"
  unfolding udp_run_def by (induction calls arbitrary: s) (auto intro: step_ok)

lemma step_capacity [simp]:
  "us_maximum_active_identities (udp_step call s) = us_maximum_active_identities s"
proof -
  have adv: "us_maximum_active_identities (snd (advance_identity i s)) = us_maximum_active_identities s" for i s
    by (simp add: advance_identity_def Let_def split: option.split)
  have bind: "us_maximum_active_identities (snd (bind_authorized_ingress_at tr i source rh a s))
    = us_maximum_active_identities s" for tr i source rh a s
    by (simp add: bind_at_state)
  show ?thesis
  proof (cases call)
    case (RegistryIngressCall ids tr acc source rh)
    with bind_ingress_cases [of ids tr acc source rh s] show ?thesis by (auto simp: adv bind)
  qed (auto simp: adv bind authorize_rebind_def remove_released_identity_def udp_clear_def split: option.split)
qed

lemma run_capacity: "us_maximum_active_identities (udp_run calls s) = us_maximum_active_identities s"
  unfolding udp_run_def by (induction calls arbitrary: s) simp_all

end
