(* ===== verification/UdpProps.thy ===== *)
theory UdpProps
  imports UdpInv IdentityProps
begin

text \<open>The properties of the UDP endpoint state, over runs of its operations.\<close>

definition udp_demo_identity :: identity_binding where
  "udp_demo_identity = \<lparr>ib_nickname = [65], ib_user_no = 7, ib_generation = 3, ib_owner = 1,
     ib_source_ip = V4 [10, 0, 0, 1], ib_channel = None\<rparr>"

definition udp_demo_addr :: "u16 \<Rightarrow> socket_addr" where
  "udp_demo_addr p = \<lparr>sa_ip = V4 [10, 0, 0, 1], sa_port = p\<rparr>"

definition udp_demo_active :: udp_endpoint_state where
  "udp_demo_active = snd (advance_identity udp_demo_identity (udp_with_max_active_identities 2))"

definition udp_demo_bound :: udp_endpoint_state where
  "udp_demo_bound = snd (bind_authorized_ingress_at GameTransport udp_demo_identity (udp_demo_addr 500) 9 4 udp_demo_active)"

definition udp_demo_rebound :: udp_endpoint_state where
  "udp_demo_rebound = snd (authorize_rebind udp_demo_identity 10 udp_demo_bound)"

lemmas udp_demo = udp_demo_identity_def udp_demo_addr_def udp_demo_active_def udp_demo_bound_def
  udp_demo_rebound_def udp_with_max_active_identities_def advance_identity_def mirrored_def
  bind_authorized_ingress_at_def ingress_error_def table_bind_def table_status_def
  authorize_rebind_def release_both_def table_release_def mirror_of_def Let_def

text \<open>C24: the first endpoint that is bound for a generation keeps it.  After a bind has
  succeeded, no later calls -- ingress of any identity, through the registry or not,
  advances to the same or an older generation, rebinds and releases of others -- change
  it: until that generation is released, rebound, superseded or the state is cleared,
  the current target of the identity is that endpoint, and every bind of the user from
  another endpoint is rejected and changes nothing.
\<close>

theorem first_endpoint_wins:
  assumes bound: "bind_authorized_ingress_at tr i source rh a s = (Inr b, s1)"
    and keep: "list_all (\<lambda>c. keeps_generation (ib_user_no i) (ib_generation i) c
        \<and> \<not> rebinds (ib_user_no i) (ib_generation i) c) calls"
  shows "(\<exists>c. current_authorized_target tr i (udp_run calls s1) = Some \<lparr>cu_identity = i, cu_endpoint = c\<rparr>
            \<and> ue_endpoint c = source)
       \<and> (\<forall>j other rh' a'. ib_user_no j = ib_user_no i \<and> other \<noteq> source \<longrightarrow>
            (\<exists>e. bind_authorized_ingress_at tr j other rh' a' (udp_run calls s1) = (Inl e, udp_run calls s1)))"
proof -
  let ?u = "ib_user_no i" and ?g = "ib_generation i" and ?s2 = "udp_run calls s1"
  from bound obtain m where m: "mirror_of s ?u = Some m" "mi_generation m = ?g" "mi_source_ip m = ib_source_ip i"
    "sa_ip source = ib_source_ip i"
    and s1: "s1 = us_table_update tr (AList.update ?u (candidate_of i source rh) (us_table tr s)) s"
    by (auto simp: bind_at_Inr ingress_passed)
  have own: "owns_endpoint ?u ?g source (us_table tr s1)" by (simp add: s1 table_slots.owns_def)
  have m1: "mirror_of s1 ?u = Some m" by (simp add: s1 m)
  have own2: "owns_endpoint ?u ?g source (us_table tr ?s2)" by (rule run_owner [OF own m1 m(2) keep])
  have "list_all (keeps_generation ?u (mi_generation m)) calls" using keep m(2) by (auto simp: list_all_iff)
  from run_mirror [OF m1 this] obtain m2 where m2: "mirror_of ?s2 ?u = Some m2" "mirror_later m m2" by blast
  with m have g2: "mi_generation m2 = ?g" "mi_source_ip m2 = ib_source_ip i" by (simp_all add: mirror_later_def)
  show ?thesis
    using target_of_owner [OF own2 m2(1) g2 m(4)] bind_rejected_by_owner [OF own2 m2(1) g2(1)] by blast
qed

theorem first_endpoint_wins_witness:
  "(\<exists>c. current_authorized_target GameTransport udp_demo_identity
           (udp_run [IngressCall P2pTransport udp_demo_identity (udp_demo_addr 600) 1 5,
                     IngressCall GameTransport udp_demo_identity (udp_demo_addr 601) 1 6,
                     AdvanceCall udp_demo_identity] udp_demo_bound)
         = Some \<lparr>cu_identity = udp_demo_identity, cu_endpoint = c\<rparr> \<and> ue_endpoint c = udp_demo_addr 500)"
  by (rule conjunct1 [OF first_endpoint_wins [where s = udp_demo_active and rh = 9 and a = 4
        and b = "\<lparr>ui_identity = udp_demo_identity,
          ui_endpoint = \<lparr>ue_endpoint = udp_demo_addr 500, ue_route_hash = 9, ue_generation = 3, ue_direct_p2p = False\<rparr>,
          ui_status = EndpointBound\<rparr>"]]) (simp_all add: udp_demo)

text \<open>C25: a reconnect fences the datagrams that arrived before it.  After a successful
  rebind with boundary \<open>b\<close>, as long as the generation lasts: every datagram of the user
  with an arrival epoch up to \<open>b\<close> is rejected, whatever other calls came first; and if
  the boundary was newer than the one in force, the user has no target in either
  transport except an endpoint that a later call brought after the boundary.
\<close>

theorem reconnect_fences_late_datagrams:
  assumes rebind: "authorize_rebind i b s = (Inr (), s1)"
    and keep: "list_all (keeps_generation (ib_user_no i) (ib_generation i)) calls"
  shows "(\<forall>tr j source rh a. ib_user_no j = ib_user_no i \<and> a \<le> b \<longrightarrow>
            (\<exists>e. bind_authorized_ingress_at tr j source rh a (udp_run calls s1) = (Inl e, udp_run calls s1)))
       \<and> (\<forall>m. mirror_of s (ib_user_no i) = Some m
            \<and> (\<forall>c. mi_reconnect_boundary_epoch m = Some c \<longrightarrow> c < b) \<longrightarrow>
            (\<forall>tr t. current_authorized_target tr i (udp_run calls s1) = Some t \<longrightarrow>
               (\<exists>c\<in>set calls. brings tr (ib_user_no i) b (ue_endpoint (cu_endpoint t)) c)))"
proof (intro conjI allI impI; (elim conjE)?)
  let ?u = "ib_user_no i" and ?g = "ib_generation i" and ?s2 = "udp_run calls s1"
  obtain m1 where m1: "mirror_of s1 ?u = Some m1" "mi_generation m1 = ?g" "boundary_from b m1"
    using rebind by (auto simp: authorize_rebind_def boundary_from_def mirror_of_def split: option.splits if_splits)
  have k: "list_all (keeps_generation ?u (mi_generation m1)) calls" using keep m1(2) by simp
  from run_mirror [OF m1(1) k] obtain m2 where m2: "mirror_of ?s2 ?u = Some m2" "mirror_later m1 m2" by blast
  with m1(3) have b2: "boundary_from b m2" by (fastforce simp: mirror_later_def boundary_from_def)
  show "\<exists>e. bind_authorized_ingress_at tr j source rh a ?s2 = (Inl e, ?s2)"
    if "ib_user_no j = ?u" "a \<le> b" for tr j source rh a
  proof (cases "ingress_error tr j source a ?s2")
    case None
    with b2 m2(1) that show ?thesis by (auto simp: ingress_passed boundary_from_def)
  qed (simp add: bind_authorized_ingress_at_def)
  show "\<exists>c\<in>set calls. brings tr ?u b (ue_endpoint (cu_endpoint t)) c"
    if m: "mirror_of s ?u = Some m" and new: "\<forall>c. mi_reconnect_boundary_epoch m = Some c \<longrightarrow> c < b"
      and t: "current_authorized_target tr i ?s2 = Some t" for m tr t
  proof -
    from t have entry: "map_of (us_table tr ?s2) ?u = Some (cu_endpoint t)" "ue_generation (cu_endpoint t) = ?g"
      by (auto simp: current_authorized_target_def table_get_authorized_def split: option.splits if_splits)
    have "us_table tr s1 = table_release ?u ?g (us_table tr s)"
      using rebind m new by (auto simp: authorize_rebind_def not_less split: option.splits if_splits)
    with entry(2) have "map_of (us_table tr s1) ?u \<noteq> Some (cu_endpoint t)"
      using table_slots.release_clears [of ?u ?g "us_table tr s" "cu_endpoint t"] by auto
    with run_entry [OF entry(1) m1(1,3) k] show ?thesis by blast
  qed
qed

theorem reconnect_fences_late_datagrams_witness:
  "\<exists>e. bind_authorized_ingress_at GameTransport udp_demo_identity (udp_demo_addr 500) 9 10
         (udp_run [IngressCall GameTransport udp_demo_identity (udp_demo_addr 500) 9 8] udp_demo_rebound)
       = (Inl e, udp_run [IngressCall GameTransport udp_demo_identity (udp_demo_addr 500) 9 8] udp_demo_rebound)"
  by (rule conjunct1 [OF reconnect_fences_late_datagrams [where s = udp_demo_bound and i = udp_demo_identity and b = 10],
        rule_format]) (simp_all add: udp_demo)

text \<open>C26: UDP state follows the identity registry.  In every state reached from an empty
  one, the mirror stays within its capacity; an ingress that the registry resolves is
  bound only for an account that the registry holds active, from the IP address of that
  session, and is then the account's current target in that transport; and a target is
  only ever reported for the generation and address the registry holds now.
\<close>

theorem udp_endpoints_follow_registry:
  fixes calls and capacity
  defines "s \<equiv> udp_run calls (udp_with_max_active_identities capacity)"
  shows "active_identity_count s \<le> capacity
    \<and> (\<forall>ids tr acc source rh b s'. bind_ingress ids tr acc source rh s = (Inr b, s') \<longrightarrow>
         (\<exists>i. active_identity_by_user_no acc ids = Some i \<and> ui_identity b = i
            \<and> sa_ip source = ib_source_ip i \<and> sa_port source \<noteq> 0 \<and> ue_endpoint (ui_endpoint b) = source
            \<and> udp_current_target ids tr acc s' = Some \<lparr>cu_identity = i, cu_endpoint = ui_endpoint b\<rparr>))
    \<and> (\<forall>ids tr acc t. udp_current_target ids tr acc s = Some t \<longrightarrow>
         active_identity_by_user_no acc ids = Some (cu_identity t)
         \<and> ue_generation (cu_endpoint t) = ib_generation (cu_identity t)
         \<and> sa_ip (ue_endpoint (cu_endpoint t)) = ib_source_ip (cu_identity t))"
proof (intro conjI allI impI)
  have "udp_ok s" unfolding s_def by (rule run_ok) (simp add: udp_ok_def udp_with_max_active_identities_def)
  moreover have "us_maximum_active_identities s = capacity"
    unfolding s_def by (simp add: run_capacity udp_with_max_active_identities_def)
  ultimately show "active_identity_count s \<le> capacity" by (simp add: udp_ok_def active_identity_count_def)
next
  fix ids tr acc source rh b s'
  assume b: "bind_ingress ids tr acc source rh s = (Inr b, s')"
  then obtain i s1 where i: "active_identity_by_user_no acc ids = Some i"
    and bound: "bind_authorized_ingress_at tr i source rh (- 1) s1 = (Inr b, s')"
    by (auto simp: bind_ingress_def bind_authorized_ingress_def split: if_splits option.splits prod.splits sum.splits)
  from bound i show "\<exists>i. active_identity_by_user_no acc ids = Some i \<and> ui_identity b = i
      \<and> sa_ip source = ib_source_ip i \<and> sa_port source \<noteq> 0 \<and> ue_endpoint (ui_endpoint b) = source
      \<and> udp_current_target ids tr acc s' = Some \<lparr>cu_identity = i, cu_endpoint = ui_endpoint b\<rparr>"
    by (auto simp: bind_at_Inr ingress_passed udp_current_target_def current_authorized_target_def table_get_authorized_def)
next
  fix ids tr acc t
  assume t: "udp_current_target ids tr acc s = Some t"
  then obtain i where i: "active_identity_by_user_no acc ids = Some i" "current_authorized_target tr i s = Some t"
    by (auto simp: udp_current_target_def split: option.splits)
  then have "cu_identity t = i" "ue_generation (cu_endpoint t) = ib_generation i"
    "sa_ip (ue_endpoint (cu_endpoint t)) = ib_source_ip i"
    by (auto simp: current_authorized_target_def split: option.splits if_splits)
  with i show "active_identity_by_user_no acc ids = Some (cu_identity t)"
    "ue_generation (cu_endpoint t) = ib_generation (cu_identity t)"
    "sa_ip (ue_endpoint (cu_endpoint t)) = ib_source_ip (cu_identity t)" by simp_all
qed

definition udp_demo_registry :: identity_registry where
  "udp_demo_registry = demo_registry None None 1 (gate_shared 5)"

lemma udp_demo_owner: "active_identity_by_user_no 1 udp_demo_registry = Some demo_binding"
  by (simp add: udp_demo_registry_def demo_registry_def active_identity_by_user_no_def name_of_def active_of_def
      active_identity_binding_def identity_binding_of_def demo_binding_def)

definition udp_demo_source :: socket_addr where
  "udp_demo_source = \<lparr>sa_ip = demo_ip, sa_port = 500\<rparr>"

lemma udp_demo_ingress:
  "fst (bind_ingress udp_demo_registry GameTransport 1 udp_demo_source 9
     (udp_run [] (udp_with_max_active_identities 2)))
   = Inr \<lparr>ui_identity = demo_binding,
       ui_endpoint = \<lparr>ue_endpoint = udp_demo_source, ue_route_hash = 9, ue_generation = 1, ue_direct_p2p = False\<rparr>,
       ui_status = EndpointBound\<rparr>"
  by (simp add: bind_ingress_def udp_demo_owner udp_run_def udp_demo bind_authorized_ingress_def
      demo_binding_def udp_demo_source_def)

theorem udp_endpoints_follow_registry_witness:
  "\<exists>b s'. bind_ingress udp_demo_registry GameTransport 1 udp_demo_source 9
       (udp_run [] (udp_with_max_active_identities 2)) = (Inr b, s')
     \<and> udp_current_target udp_demo_registry GameTransport 1 s'
         = Some \<lparr>cu_identity = demo_binding, cu_endpoint = ui_endpoint b\<rparr>"
proof -
  let ?r = "bind_ingress udp_demo_registry GameTransport 1 udp_demo_source 9
       (udp_run [] (udp_with_max_active_identities 2))"
  obtain b s' where r: "?r = (Inr b, s')" using udp_demo_ingress by (cases ?r) simp
  with udp_endpoints_follow_registry [of "[]" 2] udp_demo_owner have
    "udp_current_target udp_demo_registry GameTransport 1 s'
       = Some \<lparr>cu_identity = demo_binding, cu_endpoint = ui_endpoint b\<rparr>"
    by fastforce
  with r show ?thesis by blast
qed

end
