(* ===== verification/FileSystem.thy ===== *)
theory FileSystem
  imports Nickname
begin

text \<open>
  What the profile store uses of the file system: one directory of immutable and
  temporary files, accessed one atomic call at a time.

  Other processes run between any two accesses.  They, and the failures of the
  operating system, are the environment of the model: before the \<open>n\<close>-th access the
  directory becomes \<open>fe_peers n\<close> of itself, and that access fails without effect when
  \<open>fe_fault n\<close> holds.  File contents are bytes; what \<open>serde_json\<close> makes of them is a
  parameter of the profile store.
\<close>

section \<open>Files\<close>

datatype os_name = Utf8Name ustring | ForeignName nat    \<comment> \<open>\<open>to_str\<close> fails on the second\<close>

record disk_file =
  df_regular :: bool
  df_bytes :: "u8 list"

type_synonym disk = "(os_name \<times> disk_file) list"

definition file_at :: "disk \<Rightarrow> ustring \<Rightarrow> disk_file option" where
  "file_at d name = map_of d (Utf8Name name)"

definition put_file :: "ustring \<Rightarrow> disk_file \<Rightarrow> disk \<Rightarrow> disk" where
  "put_file name f d = AList.update (Utf8Name name) f d"

definition drop_file :: "ustring \<Rightarrow> disk \<Rightarrow> disk" where
  "drop_file name d = AList.delete (Utf8Name name) d"

lemma file_at_put [simp]: "file_at (put_file n f d) m = (if m = n then Some f else file_at d m)"
  by (simp add: file_at_def put_file_def)

lemma file_at_drop [simp]: "file_at (drop_file n d) m = (if m = n then None else file_at d m)"
  by (simp add: file_at_def drop_file_def)

lemma keys_distinct_put [simp]: "keys_distinct d \<Longrightarrow> keys_distinct (put_file n f d)"
  by (simp add: put_file_def)

lemma keys_distinct_drop [simp]: "keys_distinct d \<Longrightarrow> keys_distinct (drop_file n d)"
  by (simp add: drop_file_def)

section \<open>Accesses\<close>

datatype store_error =
    PsNickname nickname_error
  | PsIo string                                 \<comment> \<open>the operation that failed\<close>
  | PsJson
  | PsProfileTooLarge nat nat
  | PsRevisionExhausted ustring
  | PsTransactionContention ustring nat
  | PsProfileCreationContention ustring nat
  | PsProfileSaveContention ustring nat
  | PsTemporaryFileContention nat
  | PsDirectoryEntryLimitExceeded nat
  | PsProfileRevisionLimitExceeded nat
  | PsInvalidStorageEntry string
  | PsReservedStorageNickname ustring
  | PsAmbiguousProfileDirectories ustring ustring ustring
  | PsCommittedButDurabilityUncertain ustring u64
  | PsRaceRunGenerationExhausted
  | PsInvalidRaceRunGenerationMarker string
  | PsRaceRunLeaseStoreMismatch
  | PsProfileStoreIdentityChanged u64 u64
  | PsInternalInvariant string
  | PsRaceRunGenerationDurabilityUncertain u64

record fs_env =
  fe_peers :: "nat \<Rightarrow> disk \<Rightarrow> disk"
  fe_fault :: "nat \<Rightarrow> bool"
  fe_process_id :: u32

record fs_state =
  fs_tick :: nat
  fs_sequence :: u64             \<comment> \<open>\<open>TEMPORARY_FILE_SEQUENCE\<close>\<close>
  fs_disk :: disk

type_synonym 'a fs = "fs_state \<Rightarrow> (store_error + 'a) \<times> fs_state"

definition fs_return :: "'a \<Rightarrow> 'a fs" where
  "fs_return x s = (Inr x, s)"

definition fs_fail :: "store_error \<Rightarrow> 'a fs" where
  "fs_fail e s = (Inl e, s)"

definition fs_bind :: "'a fs \<Rightarrow> ('a \<Rightarrow> 'b fs) \<Rightarrow> 'b fs" where
  "fs_bind m f s = (case m s of
       (Inl e, s') \<Rightarrow> (Inl e, s')
     | (Inr x, s') \<Rightarrow> f x s')"

definition fs_lift :: "store_error + 'a \<Rightarrow> 'a fs" where
  "fs_lift r s = (r, s)"

text \<open>\<open>map_err\<close> of a call, and a call whose outcome the code inspects (\<open>match\<close>, \<open>let _ =\<close>).\<close>

definition fs_try :: "'a fs \<Rightarrow> (store_error + 'a) fs" where
  "fs_try m s = (case m s of (r, s') \<Rightarrow> (Inr r, s'))"

definition fs_access :: "fs_env \<Rightarrow> string \<Rightarrow> (disk \<Rightarrow> (store_error + 'a) \<times> disk) \<Rightarrow> 'a fs" where
  "fs_access env operation f s =
     (let d = fe_peers env (fs_tick s) (fs_disk s);
          s' = s\<lparr>fs_tick := Suc (fs_tick s), fs_disk := d\<rparr>
      in if fe_fault env (fs_tick s) then (Inl (PsIo operation), s')
         else (case f d of (r, d') \<Rightarrow> (r, s'\<lparr>fs_disk := d'\<rparr>)))"

definition fs_look :: "fs_env \<Rightarrow> string \<Rightarrow> (disk \<Rightarrow> store_error + 'a) \<Rightarrow> 'a fs" where
  "fs_look env operation f = fs_access env operation (\<lambda>d. (f d, d))"

text \<open>\<open>fs::remove_file\<close>: whether there was a file.  Only \<open>NotFound\<close> leaves one absent.\<close>

definition fs_remove :: "fs_env \<Rightarrow> string \<Rightarrow> ustring \<Rightarrow> bool fs" where
  "fs_remove env operation name =
     fs_access env operation (\<lambda>d. (Inr (file_at d name \<noteq> None), drop_file name d))"

definition sync_directory :: "fs_env \<Rightarrow> string \<Rightarrow> unit fs" where
  "sync_directory env operation = fs_look env operation (\<lambda>_. Inr ())"

lemma fs_bind_Inr: "fs_bind m f s = (Inr y, t) \<longleftrightarrow> (\<exists>x s'. m s = (Inr x, s') \<and> f x s' = (Inr y, t))"
  by (auto simp: fs_bind_def split: prod.splits sum.splits)

lemma fs_bind_step:
  "m s = (Inr x, s') \<Longrightarrow> fs_bind m f s = f x s'"
  "m s = (Inl e, s') \<Longrightarrow> fs_bind m f s = (Inl e, s')"
  by (simp_all add: fs_bind_def)

lemma fs_try_simps [simp]: "fs_try m s = (Inr (fst (m s)), snd (m s))"
  by (simp add: fs_try_def split: prod.split)

lemma fs_return_simps [simp]: "fs_return x s = (Inr x, s)"
  by (simp add: fs_return_def)

lemma fs_fail_simps [simp]: "fs_fail e s = (Inl e, s)"
  by (simp add: fs_fail_def)

lemma fs_lift_simps [simp]: "fs_lift r s = (r, s)"
  by (simp add: fs_lift_def)

section \<open>Decimal numbers in file names\<close>

fun decimal :: "nat \<Rightarrow> ustring" where
  "decimal n = (if n < 10 then [48 + n] else decimal (n div 10) @ [48 + n mod 10])"

declare decimal.simps [simp del]

definition pad20 :: "ustring \<Rightarrow> ustring" where
  "pad20 digits = replicate (20 - length digits) 48 @ digits"

definition is_digit :: "nat \<Rightarrow> bool" where
  "is_digit c \<longleftrightarrow> 48 \<le> c \<and> c \<le> 57"

definition digits_value :: "ustring \<Rightarrow> int" where
  "digits_value digits = foldl (\<lambda>acc c. 10 * acc + int (c - 48)) 0 digits"

text \<open>\<open>str::parse\<close> for an unsigned type with maximum \<open>limit\<close>: an optional plus sign, digits, no overflow.\<close>

definition parse_unsigned :: "int \<Rightarrow> ustring \<Rightarrow> int option" where
  "parse_unsigned limit text =
     (let digits = (case text of c # rest \<Rightarrow> if c = 43 then rest else text | [] \<Rightarrow> [])
      in if digits = [] \<or> \<not> list_all is_digit digits \<or> limit < digits_value digits then None
         else Some (digits_value digits))"

definition strip_prefix :: "ustring \<Rightarrow> ustring \<Rightarrow> ustring option" where
  "strip_prefix prefix s = (if take (length prefix) s = prefix then Some (drop (length prefix) s) else None)"

definition strip_suffix :: "ustring \<Rightarrow> ustring \<Rightarrow> ustring option" where
  "strip_suffix suffix s = map_option List.rev (strip_prefix (List.rev suffix) (List.rev s))"

text \<open>\<open>rsplit_once\<close>: before and after the last occurrence.\<close>

definition rsplit_once :: "nat \<Rightarrow> ustring \<Rightarrow> (ustring \<times> ustring) option" where
  "rsplit_once c s =
     (case dropWhile (\<lambda>x. x \<noteq> c) (List.rev s) of
        [] \<Rightarrow> None
      | _ # before \<Rightarrow> Some (List.rev before, List.rev (takeWhile (\<lambda>x. x \<noteq> c) (List.rev s))))"

lemma digits_value_append: "digits_value (xs @ [c]) = 10 * digits_value xs + int (c - 48)"
  by (simp add: digits_value_def)

lemma digits_value_decimal: "digits_value (decimal n) = int n"
proof (induction n rule: decimal.induct)
  case (1 n)
  show ?case
  proof (cases "n < 10")
    case True
    then show ?thesis by (simp add: decimal.simps [of n] digits_value_def)
  next
    case False
    with 1 have "digits_value (decimal n) = 10 * int (n div 10) + int (n mod 10)"
      by (simp add: decimal.simps [of n] digits_value_append)
    moreover have "int (10 * (n div 10) + n mod 10) = int n" by (rule arg_cong) (rule mult_div_mod_eq)
    ultimately show ?thesis by (simp only: of_nat_add of_nat_mult of_nat_numeral)
  qed
qed

lemma digits_value_pad: "digits_value (replicate k 48 @ xs) = digits_value xs"
  by (induction k) (simp_all add: digits_value_def)

lemma decimal_digits: "list_all is_digit (decimal n)"
proof (induction n rule: decimal.induct)
  case (1 n)
  then show ?case by (cases "n < 10") (simp_all add: decimal.simps [of n] is_digit_def)
qed

lemma decimal_nonempty [simp]: "decimal n \<noteq> []"
  by (simp add: decimal.simps [of n])

lemma is_digit_plus: "list_all is_digit (c # xs) \<Longrightarrow> c \<noteq> 43"
  by (auto simp: is_digit_def)

lemma parse_digits:
  assumes "list_all is_digit xs" "xs \<noteq> []" "digits_value xs \<le> limit"
  shows "parse_unsigned limit xs = Some (digits_value xs)"
  using assms is_digit_plus by (cases xs) (auto simp: parse_unsigned_def Let_def)

lemma parse_decimal: "int n \<le> limit \<Longrightarrow> parse_unsigned limit (decimal n) = Some (int n)"
  by (simp add: parse_digits decimal_digits digits_value_decimal)

lemma parse_pad20: "int n \<le> limit \<Longrightarrow> parse_unsigned limit (pad20 (decimal n)) = Some (int n)"
  by (simp add: pad20_def parse_digits decimal_digits digits_value_pad digits_value_decimal
      list_all_append list_all_iff [of _ "replicate _ _"] is_digit_def)

lemma strip_prefix_append [simp]: "strip_prefix p (p @ s) = Some s"
  by (simp add: strip_prefix_def)

lemma strip_prefix_Some: "strip_prefix p s = Some t \<longleftrightarrow> s = p @ t"
  by (auto simp: strip_prefix_def) (metis append_take_drop_id)

lemma strip_suffix_append [simp]: "strip_suffix p (s @ p) = Some s"
  by (simp add: strip_suffix_def strip_prefix_def)

lemma strip_suffix_Some: "strip_suffix p s = Some t \<longleftrightarrow> s = t @ p"
  by (auto simp: strip_suffix_def strip_prefix_Some) (metis rev_append rev_rev_ident)

end
