(* ===== verification/ProfileStore.thy ===== *)
theory ProfileStore
  imports FileSystem Identity
begin

text \<open>
  The versioned profile store, \<open>p5136-profile/src/store.rs\<close>: a profile is a directory of
  immutable revisions; a change loads the newest readable revision, computes the next
  profile and publishes it under the next number if nobody else has, up to sixteen times.

  The profile type is a parameter, with what \<open>serde_json\<close> writes and reads of it; so is
  the lookup of the directory of a nickname among the others (\<open>st_resolve\<close>), whose choice
  \<open>profile_directory\<close> makes by the canonical nickname.  The per-nickname mutex serialises
  the calls of one process, so a call is one run of accesses; other processes act between
  any two of them (theory FileSystem).  The metadata query, the opening and the reading
  of one profile file are one access.
\<close>

section \<open>Names and limits\<close>

definition legacy_filename :: ustring where "legacy_filename = ustr ''Launcher.json''"
definition version_prefix :: ustring where "version_prefix = ustr ''Launcher.v''"
definition version_suffix :: ustring where "version_suffix = ustr ''.json''"
definition race_run_generation_prefix :: ustring where "race_run_generation_prefix = ustr ''.P5136RustRaceRun.v''"
definition race_run_generation_suffix :: ustring where "race_run_generation_suffix = ustr ''.marker''"
definition store_id_filename :: ustring where "store_id_filename = ustr ''.P5136RustProfileStoreId''"
definition internal_storage_nickname_prefix :: ustring where
  "internal_storage_nickname_prefix = ustr ''.p5136rust''"
definition max_transaction_cas_attempts :: nat where "max_transaction_cas_attempts = 16"
definition max_create_cas_attempts :: nat where "max_create_cas_attempts = 16"
definition max_save_cas_attempts :: nat where "max_save_cas_attempts = 16"
definition max_temporary_file_attempts :: nat where "max_temporary_file_attempts = 128"
definition max_profile_directory_entries :: nat where "max_profile_directory_entries = 4096"
definition max_profile_revisions :: nat where "max_profile_revisions = 1024"
definition profile_revision_retention :: nat where "profile_revision_retention = 64"

definition u64_max :: int where "u64_max = 2 ^ 64 - 1"
definition u32_max :: int where "u32_max = 2 ^ 32 - 1"

definition version_filename :: "u64 \<Rightarrow> ustring" where
  "version_filename r = version_prefix @ pad20 (decimal (unat r)) @ version_suffix"

definition parse_revision :: "ustring \<Rightarrow> u64 option" where
  "parse_revision name =
     Option.bind (strip_prefix version_prefix name) (\<lambda>rest.
     Option.bind (strip_suffix version_suffix rest) (\<lambda>digits.
     Option.bind (parse_unsigned u64_max digits) (\<lambda>n.
       let r = word_of_int n in
       if r \<noteq> 0 \<and> name = version_filename r then Some r else None)))"

definition race_run_generation_filename :: "u64 \<Rightarrow> ustring" where
  "race_run_generation_filename g =
     race_run_generation_prefix @ pad20 (decimal (unat g)) @ race_run_generation_suffix"

definition parse_race_run_generation :: "ustring \<Rightarrow> u64 option" where
  "parse_race_run_generation name =
     Option.bind (strip_prefix race_run_generation_prefix name) (\<lambda>rest.
     Option.bind (strip_suffix race_run_generation_suffix rest) (\<lambda>digits.
     Option.bind (parse_unsigned u64_max digits) (\<lambda>n.
       let g = word_of_int n :: u64 in
       if g \<noteq> 0 then Some g else None)))"

definition has_ascii_case_insensitive_prefix :: "ustring \<Rightarrow> ustring \<Rightarrow> bool" where
  "has_ascii_case_insensitive_prefix name prefix \<longleftrightarrow> eq_ignore_ascii_case (take (length prefix) name) prefix"

definition temporary_name :: "ustring \<Rightarrow> u32 \<Rightarrow> u64 \<Rightarrow> ustring" where
  "temporary_name final_name pid sequence =
     46 # final_name @ 46 # decimal (unat pid) @ 46 # decimal (unat sequence) @ ustr ''.tmp''"

definition published_temporary_destination :: "ustring \<Rightarrow> ustring option" where
  "published_temporary_destination name =
     Option.bind (strip_prefix [46] name) (\<lambda>rest.
     Option.bind (strip_suffix (ustr ''.tmp'') rest) (\<lambda>body.
     Option.bind (rsplit_once 46 body) (\<lambda>(body, sequence).
     Option.bind (rsplit_once 46 body) (\<lambda>(destination, process_id).
     Option.bind (parse_unsigned u64_max sequence) (\<lambda>_.
     Option.bind (parse_unsigned u32_max process_id) (\<lambda>_.
       if parse_revision destination \<noteq> None \<or> parse_race_run_generation destination \<noteq> None
          \<or> destination = store_id_filename
       then Some destination else None))))))"

definition normalize_storage_nickname :: "unicode_tables \<Rightarrow> ustring \<Rightarrow> store_error + ustring" where
  "normalize_storage_nickname u nick =
     rbind (rmap_err PsNickname (normalize_nickname u nick)) (\<lambda>nick.
       if strip_prefix internal_storage_nickname_prefix (canonical_nickname_key u nick) \<noteq> None
       then Inl (PsReservedStorageNickname nick) else Inr nick)"

text \<open>The directory of a nickname among the names of the directories of the root.\<close>

fun matching_directory ::
  "unicode_tables \<Rightarrow> ustring \<Rightarrow> ustring list \<Rightarrow> ustring option \<Rightarrow> store_error + ustring option" where
  "matching_directory u nick [] matched = Inr matched"
| "matching_directory u nick (name # rest) matched =
     (if canonical_nickname_key u name = canonical_nickname_key u nick
      then (case matched of
          Some first \<Rightarrow> Inl (PsAmbiguousProfileDirectories nick first name)
        | None \<Rightarrow> matching_directory u nick rest (Some name))
      else matching_directory u nick rest matched)"

definition profile_directory :: "unicode_tables \<Rightarrow> ustring list \<Rightarrow> ustring \<Rightarrow> store_error + ustring" where
  "profile_directory u names nick =
     rbind (matching_directory u nick names None) (\<lambda>matched.
       Inr (case matched of Some name \<Rightarrow> name | None \<Rightarrow> canonical_nickname_key u nick))"

section \<open>The store\<close>

record 'p profile_store =
  st_env :: fs_env
  st_maximum_bytes :: nat
  st_encode :: "'p \<Rightarrow> u8 list option"
  st_decode :: "u8 list \<Rightarrow> 'p option"
  st_default_profile :: 'p
  st_resolve :: "nat \<Rightarrow> store_error option"

definition resolve_directory :: "'p profile_store \<Rightarrow> unit fs" where
  "resolve_directory st s = (case st_resolve st (fs_tick s) of
       Some e \<Rightarrow> (Inl e, s\<lparr>fs_tick := Suc (fs_tick s)\<rparr>)
     | None \<Rightarrow> (Inr (), s\<lparr>fs_tick := Suc (fs_tick s)\<rparr>))"

section \<open>Listing\<close>

fun remove_published_temporaries :: "fs_env \<Rightarrow> nat \<Rightarrow> disk \<Rightarrow> bool \<Rightarrow> bool fs" where
  "remove_published_temporaries env budget [] removed = fs_return removed"
| "remove_published_temporaries env budget ((name, f) # rest) removed =
     (case budget of
        0 \<Rightarrow> fs_fail (PsDirectoryEntryLimitExceeded max_profile_directory_entries)
      | Suc budget \<Rightarrow>
         (case name of
            ForeignName _ \<Rightarrow> remove_published_temporaries env budget rest removed
          | Utf8Name n \<Rightarrow>
             (case published_temporary_destination n of
                None \<Rightarrow> remove_published_temporaries env budget rest removed
              | Some destination \<Rightarrow>
                  fs_bind (fs_look env ''inspect temporary immutable file destination''
                             (\<lambda>d. Inr (file_at d destination \<noteq> None))) (\<lambda>exists.
                  if \<not> exists \<or> \<not> df_regular f
                  then remove_published_temporaries env budget rest removed
                  else fs_bind (fs_remove env ''clean published temporary immutable file'' n) (\<lambda>found.
                    remove_published_temporaries env budget rest (removed \<or> found))))))"

definition cleanup_published_temporary_files :: "fs_env \<Rightarrow> unit fs" where
  "cleanup_published_temporary_files env =
     fs_bind (fs_look env ''list temporary immutable files'' Inr) (\<lambda>entries.
     fs_bind (remove_published_temporaries env max_profile_directory_entries entries False) (\<lambda>removed.
     if removed then sync_directory env ''sync published temporary immutable file cleanup''
     else fs_return ()))"

fun scan_revisions :: "nat \<Rightarrow> disk \<Rightarrow> u64 list \<Rightarrow> store_error + u64 list" where
  "scan_revisions budget [] acc = Inr acc"
| "scan_revisions budget ((name, f) # rest) acc =
     (case budget of
        0 \<Rightarrow> Inl (PsDirectoryEntryLimitExceeded max_profile_directory_entries)
      | Suc budget \<Rightarrow>
         (case name of
            ForeignName _ \<Rightarrow> scan_revisions budget rest acc
          | Utf8Name n \<Rightarrow>
             (case parse_revision n of
                None \<Rightarrow>
                  if has_ascii_case_insensitive_prefix n version_prefix
                  then Inl (PsInvalidStorageEntry ''reserved profile revision filename is malformed or noncanonical'')
                  else scan_revisions budget rest acc
              | Some r \<Rightarrow>
                  if \<not> df_regular f
                  then Inl (PsInvalidStorageEntry ''profile revision must be a regular non-symbolic-link file'')
                  else if max_profile_revisions \<le> length acc
                  then Inl (PsProfileRevisionLimitExceeded max_profile_revisions)
                  else scan_revisions budget rest (acc @ [r]))))"

definition revisions_descending :: "fs_env \<Rightarrow> u64 list fs" where
  "revisions_descending env =
     fs_bind (cleanup_published_temporary_files env) (\<lambda>_.
     fs_look env ''list profile revisions'' (\<lambda>d.
       rbind (scan_revisions max_profile_directory_entries d []) (\<lambda>revisions.
         Inr (List.rev (sort revisions)))))"

definition head_of :: "u64 list \<Rightarrow> u64 option" where
  "head_of revisions = (case revisions of [] \<Rightarrow> None | r # _ \<Rightarrow> Some r)"

section \<open>Loading\<close>

record 'p disk_snapshot =
  sn_profile :: 'p
  sn_revision :: "u64 option"
  sn_head_revision :: "u64 option"
  sn_recovered_revisions :: "u64 list"

definition source_name :: "'p disk_snapshot \<Rightarrow> ustring" where
  "source_name snap = (case sn_revision snap of Some r \<Rightarrow> version_filename r | None \<Rightarrow> legacy_filename)"

definition read_content :: "'p profile_store \<Rightarrow> disk_file \<Rightarrow> store_error + 'p" where
  "read_content st f =
     (if \<not> df_regular f
      then Inl (PsInvalidStorageEntry ''profile data must be a regular non-symbolic-link file'')
      else if st_maximum_bytes st < length (df_bytes f)
      then Inl (PsProfileTooLarge (length (df_bytes f)) (st_maximum_bytes st))
      else (case st_decode st (df_bytes f) of None \<Rightarrow> Inl PsJson | Some p \<Rightarrow> Inr p))"

definition read_profile :: "'p profile_store \<Rightarrow> ustring \<Rightarrow> 'p fs" where
  "read_profile st name = fs_look (st_env st) ''read profile'' (\<lambda>d. case file_at d name of
       None \<Rightarrow> Inl (PsIo ''open profile'')
     | Some f \<Rightarrow> read_content st f)"

fun is_corruption :: "store_error \<Rightarrow> bool" where
  "is_corruption PsJson = True"
| "is_corruption (PsProfileTooLarge _ _) = True"
| "is_corruption _ = False"

text \<open>The newest readable revision, the newer ones that were skipped, and the first corruption.\<close>

fun newest_readable ::
  "'p profile_store \<Rightarrow> u64 list \<Rightarrow> u64 list \<Rightarrow> store_error option \<Rightarrow>
     ((u64 \<times> 'p) option \<times> u64 list \<times> store_error option) fs" where
  "newest_readable st [] recovered corruption = fs_return (None, recovered, corruption)"
| "newest_readable st (r # rest) recovered corruption =
     fs_bind (fs_try (read_profile st (version_filename r))) (\<lambda>result. case result of
         Inr p \<Rightarrow> fs_return (Some (r, p), recovered, corruption)
       | Inl e \<Rightarrow>
           if is_corruption e
           then newest_readable st rest (recovered @ [r]) (if corruption = None then Some e else corruption)
           else fs_fail e)"

definition regular_profile_file_exists :: "fs_env \<Rightarrow> ustring \<Rightarrow> bool fs" where
  "regular_profile_file_exists env name = fs_look env ''inspect profile data entry'' (\<lambda>d. case file_at d name of
       None \<Rightarrow> Inr False
     | Some f \<Rightarrow> if df_regular f then Inr True
         else Inl (PsInvalidStorageEntry ''profile data must be a regular non-symbolic-link file''))"

definition load_or_default_from_disk :: "'p profile_store \<Rightarrow> 'p disk_snapshot fs" where
  "load_or_default_from_disk st =
     fs_bind (resolve_directory st) (\<lambda>_.
     fs_bind (revisions_descending (st_env st)) (\<lambda>revisions.
     fs_bind (newest_readable st revisions [] None) (\<lambda>(newest, recovered, corruption).
       case newest of
         Some (r, p) \<Rightarrow> fs_return \<lparr>sn_profile = p, sn_revision = Some r,
           sn_head_revision = head_of revisions, sn_recovered_revisions = recovered\<rparr>
       | None \<Rightarrow>
           fs_bind (regular_profile_file_exists (st_env st) legacy_filename) (\<lambda>legacy.
           if legacy
           then fs_bind (read_profile st legacy_filename) (\<lambda>p. fs_return \<lparr>sn_profile = p, sn_revision = None,
             sn_head_revision = head_of revisions, sn_recovered_revisions = recovered\<rparr>)
           else (case corruption of
               Some e \<Rightarrow> fs_fail e
             | None \<Rightarrow> fs_return \<lparr>sn_profile = st_default_profile st, sn_revision = None,
                 sn_head_revision = head_of revisions, sn_recovered_revisions = recovered\<rparr>)))))"

section \<open>Publishing\<close>

fun write_unique_temporary :: "nat \<Rightarrow> fs_env \<Rightarrow> ustring \<Rightarrow> u8 list \<Rightarrow> ustring fs" where
  "write_unique_temporary 0 env final_name bytes =
     fs_fail (PsTemporaryFileContention max_temporary_file_attempts)"
| "write_unique_temporary (Suc attempts) env final_name bytes = (\<lambda>s.
     let sequence = fs_sequence s;
         name = temporary_name final_name (fe_process_id env) sequence
     in fs_bind (fs_try (fs_access env ''write temporary immutable file'' (\<lambda>d.
          if file_at d name \<noteq> None then (Inr False, d)
          else (Inr True, put_file name \<lparr>df_regular = True, df_bytes = bytes\<rparr> d)))) (\<lambda>result. case result of
            Inr True \<Rightarrow> fs_return name
          | Inr False \<Rightarrow> write_unique_temporary attempts env final_name bytes
          | Inl e \<Rightarrow>
              fs_bind (fs_try (fs_remove env ''remove temporary file'' name)) (\<lambda>_.
              fs_fail e))
        (s\<lparr>fs_sequence := sequence + 1\<rparr>))"

definition newest_slots :: "u64 list \<Rightarrow> u64 option \<Rightarrow> nat" where
  "newest_slots revisions protected_source =
     (let slots = profile_revision_retention - 1 in
      case Option.bind protected_source (\<lambda>r. position (\<lambda>x. x = r) revisions) of
        Some i \<Rightarrow> if slots \<le> i then slots - 1 else slots
      | None \<Rightarrow> slots)"

fun remove_old_revisions :: "fs_env \<Rightarrow> nat \<Rightarrow> u64 option \<Rightarrow> u64 list \<Rightarrow> bool \<Rightarrow> bool fs" where
  "remove_old_revisions env slots protected_source [] changed = fs_return changed"
| "remove_old_revisions env slots protected_source (r # rest) changed =
     (if 0 < slots \<or> Some r = protected_source
      then remove_old_revisions env (slots - 1) protected_source rest changed
      else fs_bind (fs_remove env ''pre-compact immutable profile revision'' (version_filename r)) (\<lambda>_.
        remove_old_revisions env 0 protected_source rest True))"

definition precompact_profile_revisions :: "fs_env \<Rightarrow> u64 list \<Rightarrow> u64 option \<Rightarrow> unit fs" where
  "precompact_profile_revisions env revisions protected_source =
     fs_bind (remove_old_revisions env (newest_slots revisions protected_source) protected_source revisions False)
       (\<lambda>changed. if changed then sync_directory env ''sync pre-compacted immutable profile revisions''
         else fs_return ())"

definition publish_new_file :: "fs_env \<Rightarrow> ustring \<Rightarrow> ustring \<Rightarrow> bool fs" where
  "publish_new_file env temporary destination =
     fs_bind (fs_try (fs_access env ''publish profile revision'' (\<lambda>d.
        if file_at d destination \<noteq> None then (Inr False, d)
        else (case file_at d temporary of
            None \<Rightarrow> (Inl (PsIo ''publish profile revision''), d)
          | Some f \<Rightarrow> (Inr True, put_file destination f d))))) (\<lambda>result. case result of
         Inr linked \<Rightarrow> fs_return linked
       | Inl e \<Rightarrow>
           fs_bind (fs_try (fs_look env ''inspect destination'' (\<lambda>d. Inr (file_at d destination \<noteq> None))))
             (\<lambda>present. if present = Inr True then fs_return False else fs_fail e))"

datatype publish_outcome =
    PublishedDurable u64
  | PublishedUncertain u64 store_error
  | DestinationExists

definition publish_prepared_revision :: "fs_env \<Rightarrow> ustring \<Rightarrow> u64 \<Rightarrow> ustring \<Rightarrow> publish_outcome fs" where
  "publish_prepared_revision env nick revision temporary =
     fs_bind (fs_try (publish_new_file env temporary (version_filename revision))) (\<lambda>linked.
     fs_bind (fs_try (fs_remove env ''remove temporary file'' temporary)) (\<lambda>_. case linked of
         Inr True \<Rightarrow>
           fs_bind (fs_try (sync_directory env ''sync published revision'')) (\<lambda>synced. case synced of
               Inr _ \<Rightarrow> fs_return (PublishedDurable revision)
             | Inl _ \<Rightarrow> fs_return (PublishedUncertain revision (PsCommittedButDurabilityUncertain nick revision)))
       | Inr False \<Rightarrow> fs_return DestinationExists
       | Inl e \<Rightarrow> fs_fail e))"

definition next_revision :: "ustring \<Rightarrow> u64 option \<Rightarrow> store_error + u64" where
  "next_revision nick head_revision = (case head_revision of
       Some r \<Rightarrow> ok_or (PsRevisionExhausted nick) (checked_succ r)
     | None \<Rightarrow> Inr 1)"

definition encoded_profile :: "'p profile_store \<Rightarrow> 'p \<Rightarrow> store_error + u8 list" where
  "encoded_profile st p = (case st_encode st p of
       None \<Rightarrow> Inl PsJson
     | Some bytes \<Rightarrow>
         if st_maximum_bytes st < length (bytes @ [10])
         then Inl (PsProfileTooLarge (length (bytes @ [10])) (st_maximum_bytes st))
         else Inr (bytes @ [10]))"

text \<open>The second half of a compare-and-swap: the temporary file is written, the directory listed again.\<close>

definition swap_tail ::
  "'p profile_store \<Rightarrow> ustring \<Rightarrow> u64 option \<Rightarrow> u64 option \<Rightarrow> u64 \<Rightarrow> ustring \<Rightarrow> u64 list \<Rightarrow> publish_outcome fs" where
  "swap_tail st nick expected_head protected_source revision temporary revisions =
     (if head_of revisions \<noteq> expected_head
      then fs_bind (fs_try (fs_remove (st_env st) ''remove temporary file'' temporary)) (\<lambda>_.
        fs_return DestinationExists)
      else fs_bind (fs_try (precompact_profile_revisions (st_env st) revisions protected_source)) (\<lambda>compacted.
        case compacted of
          Inl e \<Rightarrow> fs_bind (fs_try (fs_remove (st_env st) ''remove temporary file'' temporary)) (\<lambda>_. fs_fail e)
        | Inr _ \<Rightarrow> publish_prepared_revision (st_env st) nick revision temporary))"

definition save_compare_and_swap ::
  "'p profile_store \<Rightarrow> ustring \<Rightarrow> 'p \<Rightarrow> u64 option \<Rightarrow> u64 option \<Rightarrow> publish_outcome fs" where
  "save_compare_and_swap st nick profile expected_head protected_source =
     fs_bind (resolve_directory st) (\<lambda>_.
     fs_bind (fs_lift (next_revision nick expected_head)) (\<lambda>revision.
     fs_bind (fs_lift (encoded_profile st profile)) (\<lambda>bytes.
     fs_bind (write_unique_temporary max_temporary_file_attempts (st_env st) (version_filename revision) bytes) (\<lambda>temporary.
     fs_bind (revisions_descending (st_env st)) (\<lambda>revisions.
     swap_tail st nick expected_head protected_source revision temporary revisions)))))"

section \<open>Transactions\<close>

type_synonym saved_profile = "ustring \<times> u64"

datatype ('v, 'p) profile_mutation = MutationChanged 'v 'p | MutationUnchanged 'v

datatype ('v, 'p) profile_transaction =
    TxUnchanged 'v 'p "saved_profile option"
  | TxCommitted 'v 'p saved_profile
  | TxDurabilityUncertain 'v 'p saved_profile store_error

definition saved_profile_from_snapshot :: "ustring \<Rightarrow> 'p disk_snapshot \<Rightarrow> saved_profile option" where
  "saved_profile_from_snapshot nick snap = map_option (\<lambda>r. (nick, r)) (sn_revision snap)"

definition confirm_snapshot_durability ::
  "'p profile_store \<Rightarrow> ustring \<Rightarrow> 'p disk_snapshot \<Rightarrow> saved_profile option fs" where
  "confirm_snapshot_durability st nick snap = (case saved_profile_from_snapshot nick snap of
       None \<Rightarrow> fs_return None
     | Some saved \<Rightarrow>
         fs_bind (fs_try (sync_directory (st_env st) ''sync published revision'')) (\<lambda>synced. case synced of
             Inr _ \<Rightarrow> fs_return (Some saved)
           | Inl _ \<Rightarrow> fs_fail (PsCommittedButDurabilityUncertain nick (snd saved))))"

fun is_durability_warning :: "store_error \<Rightarrow> bool" where
  "is_durability_warning (PsCommittedButDurabilityUncertain _ _) = True"
| "is_durability_warning _ = False"

fun transaction_attempts ::
  "nat \<Rightarrow> 'p profile_store \<Rightarrow> ustring \<Rightarrow> 'p disk_snapshot option \<Rightarrow>
     ('p disk_snapshot \<Rightarrow> u64 option \<Rightarrow> store_error + ('v, 'p) profile_mutation) \<Rightarrow>
     ('v, 'p) profile_transaction fs" where
  "transaction_attempts 0 st nick initial f =
     fs_fail (PsTransactionContention nick max_transaction_cas_attempts)"
| "transaction_attempts (Suc attempts) st nick initial f =
     fs_bind (case initial of Some snap \<Rightarrow> fs_return snap | None \<Rightarrow> load_or_default_from_disk st) (\<lambda>snap.
     fs_bind (fs_lift (f snap (sn_revision snap))) (\<lambda>mutation. case mutation of
         MutationUnchanged v \<Rightarrow>
           fs_bind (fs_try (confirm_snapshot_durability st nick snap)) (\<lambda>durability. case durability of
               Inr saved \<Rightarrow> fs_return (TxUnchanged v (sn_profile snap) saved)
             | Inl e \<Rightarrow>
                 if is_durability_warning e
                 then (case saved_profile_from_snapshot nick snap of
                     None \<Rightarrow> fs_fail (PsInternalInvariant ''a committed durability warning must reference a revision'')
                   | Some saved \<Rightarrow> fs_return (TxDurabilityUncertain v (sn_profile snap) saved e))
                 else fs_fail e)
       | MutationChanged v p \<Rightarrow>
           fs_bind (save_compare_and_swap st nick p (sn_head_revision snap) (sn_revision snap)) (\<lambda>outcome. case outcome of
               PublishedDurable r \<Rightarrow> fs_return (TxCommitted v p (nick, r))
             | PublishedUncertain r e \<Rightarrow> fs_return (TxDurabilityUncertain v p (nick, r) e)
             | DestinationExists \<Rightarrow> transaction_attempts attempts st nick None f)))"

definition transaction_with_context ::
  "'p profile_store \<Rightarrow> unicode_tables \<Rightarrow> ustring \<Rightarrow> ('p \<Rightarrow> u64 option \<Rightarrow> ('v, 'p) profile_mutation) \<Rightarrow>
     ('v, 'p) profile_transaction fs" where
  "transaction_with_context st u nick f =
     fs_bind (fs_lift (normalize_storage_nickname u nick)) (\<lambda>nick.
     transaction_attempts max_transaction_cas_attempts st nick None (\<lambda>snap revision. Inr (f (sn_profile snap) revision)))"

definition profile_transact ::
  "'p profile_store \<Rightarrow> unicode_tables \<Rightarrow> ustring \<Rightarrow> ('p \<Rightarrow> ('v, 'p) profile_mutation) \<Rightarrow>
     ('v, 'p) profile_transaction fs" where
  "profile_transact st u nick f = transaction_with_context st u nick (\<lambda>p _. f p)"

definition profile_update ::
  "'p profile_store \<Rightarrow> unicode_tables \<Rightarrow> ustring \<Rightarrow> ('p \<Rightarrow> 'p) \<Rightarrow> (saved_profile \<times> 'p) fs" where
  "profile_update st u nick f =
     fs_bind (profile_transact st u nick (\<lambda>p. MutationChanged () (f p))) (\<lambda>outcome. case outcome of
         TxCommitted _ p saved \<Rightarrow> fs_return (saved, p)
       | TxDurabilityUncertain _ _ _ e \<Rightarrow> fs_fail e
       | TxUnchanged _ _ _ \<Rightarrow> fs_fail (PsInternalInvariant ''an unconditional profile update must request a commit''))"

section \<open>Unconditional saves, creation and confirmation\<close>

fun save_attempts :: "nat \<Rightarrow> 'p profile_store \<Rightarrow> ustring \<Rightarrow> 'p \<Rightarrow> publish_outcome fs" where
  "save_attempts 0 st nick profile = fs_fail (PsProfileSaveContention nick max_save_cas_attempts)"
| "save_attempts (Suc attempts) st nick profile =
     fs_bind (load_or_default_from_disk st) (\<lambda>snap.
     fs_bind (save_compare_and_swap st nick profile (sn_head_revision snap) (sn_revision snap)) (\<lambda>outcome.
       case outcome of
         DestinationExists \<Rightarrow> save_attempts attempts st nick profile
       | published \<Rightarrow> fs_return published))"

definition profile_save :: "'p profile_store \<Rightarrow> unicode_tables \<Rightarrow> ustring \<Rightarrow> 'p \<Rightarrow> saved_profile fs" where
  "profile_save st u nick profile =
     fs_bind (fs_lift (normalize_storage_nickname u nick)) (\<lambda>nick.
     fs_bind (save_attempts max_save_cas_attempts st nick profile) (\<lambda>outcome. case outcome of
         PublishedDurable r \<Rightarrow> fs_return (nick, r)
       | PublishedUncertain _ e \<Rightarrow> fs_fail e
       | DestinationExists \<Rightarrow> fs_fail (PsProfileSaveContention nick max_save_cas_attempts)))"

record 'p loaded_profile =
  lp_nickname :: ustring
  lp_profile :: 'p
  lp_revision :: "u64 option"
  lp_created :: bool
  lp_recovered_revisions :: "u64 list"

definition confirm_snapshot_read_durability :: "'p profile_store \<Rightarrow> ustring \<Rightarrow> 'p disk_snapshot \<Rightarrow> unit fs" where
  "confirm_snapshot_read_durability st nick snap =
     (if saved_profile_from_snapshot nick snap \<noteq> None
      then fs_bind (confirm_snapshot_durability st nick snap) (\<lambda>_. fs_return ())
      else sync_directory (st_env st) ''sync profile directory before returning a legacy profile'')"

fun load_or_create_attempts :: "nat \<Rightarrow> 'p profile_store \<Rightarrow> ustring \<Rightarrow> 'p loaded_profile fs" where
  "load_or_create_attempts 0 st nick = fs_fail (PsProfileCreationContention nick max_create_cas_attempts)"
| "load_or_create_attempts (Suc attempts) st nick =
     fs_bind (load_or_default_from_disk st) (\<lambda>snap.
     fs_bind (fs_look (st_env st) ''check loaded profile source'' (\<lambda>d. Inr (file_at d (source_name snap) \<noteq> None))) (\<lambda>exists.
     if exists
     then fs_bind (confirm_snapshot_read_durability st nick snap) (\<lambda>_.
       fs_return \<lparr>lp_nickname = nick, lp_profile = sn_profile snap, lp_revision = sn_revision snap,
         lp_created = False, lp_recovered_revisions = sn_recovered_revisions snap\<rparr>)
     else fs_bind (save_compare_and_swap st nick (sn_profile snap) (sn_head_revision snap) (sn_revision snap)) (\<lambda>outcome.
       case outcome of
         PublishedDurable r \<Rightarrow>
           fs_return \<lparr>lp_nickname = nick, lp_profile = sn_profile snap, lp_revision = Some r,
             lp_created = True, lp_recovered_revisions = sn_recovered_revisions snap\<rparr>
       | PublishedUncertain _ e \<Rightarrow> fs_fail e
       | DestinationExists \<Rightarrow> load_or_create_attempts attempts st nick)))"

definition load_or_create :: "'p profile_store \<Rightarrow> unicode_tables \<Rightarrow> ustring \<Rightarrow> 'p loaded_profile fs" where
  "load_or_create st u nick =
     fs_bind (fs_lift (normalize_storage_nickname u nick)) (\<lambda>nick.
     load_or_create_attempts max_create_cas_attempts st nick)"

definition confirm_latest_revision_durable ::
  "'p profile_store \<Rightarrow> unicode_tables \<Rightarrow> ustring \<Rightarrow> saved_profile option fs" where
  "confirm_latest_revision_durable st u nick =
     fs_bind (fs_lift (normalize_storage_nickname u nick)) (\<lambda>nick.
     fs_bind (load_or_default_from_disk st) (\<lambda>snap.
     confirm_snapshot_durability st nick snap))"

end
