(* ===== verification/DiskLaws.thy ===== *)
theory DiskLaws
  imports ProfileStore
begin

text \<open>
  What every process that follows the protocol of the profile store keeps of a profile
  directory: the relation \<open>legal\<close>.  Revisions are write-once and appended at the top, an
  absent revision below the top stays absent, a revision is only removed when sixty-two
  newer numbers are in use, and the newest readable profile never goes back.

  The lemmas show \<open>legal\<close> to be a preorder, the profile that a reader sees to depend on
  the top only, and the single changes of the store to be legal.
\<close>

section \<open>Revision file names\<close>

lemma unat_u64_max: "int (unat (r :: u64)) \<le> u64_max"
  using uint_lt2p [of r] by (simp add: u64_max_def)

lemma parse_pad20_u64: "parse_unsigned u64_max (pad20 (decimal (unat (r :: u64)))) = Some (uint r)"
  using parse_pad20 [OF unat_u64_max [of r]] by simp

lemma parse_version_filename: "r \<noteq> 0 \<Longrightarrow> parse_revision (version_filename r) = Some r"
proof -
  assume "r \<noteq> 0"
  have "version_filename r = version_prefix @ (pad20 (decimal (unat r)) @ version_suffix)"
    by (simp add: version_filename_def)
  with \<open>r \<noteq> 0\<close> show ?thesis
    by (simp add: parse_revision_def Let_def parse_pad20_u64)
qed

lemma parse_revision_Some: "parse_revision name = Some r \<longleftrightarrow> r \<noteq> 0 \<and> name = version_filename r"
proof
  assume "parse_revision name = Some r"
  then show "r \<noteq> 0 \<and> name = version_filename r"
    by (auto simp: parse_revision_def Let_def bind_eq_Some_conv split: if_splits)
qed (auto simp: parse_version_filename)

lemma version_filename_inject: "version_filename r = version_filename q \<longleftrightarrow> r = q"
proof
  assume "version_filename r = version_filename q"
  then have "pad20 (decimal (unat r)) = pad20 (decimal (unat q))" by (simp add: version_filename_def)
  then have "parse_unsigned u64_max (pad20 (decimal (unat r))) = parse_unsigned u64_max (pad20 (decimal (unat q)))"
    by (rule arg_cong)
  then have "uint r = uint q" unfolding parse_pad20_u64 by (rule option.inject [THEN iffD1])
  then show "r = q" by (simp add: word_uint_eq_iff)
qed simp

lemma ustr_simps [simp]: "ustr [] = []" "ustr (c # cs) = of_char c # ustr cs"
  by (simp_all add: ustr_def)

lemma version_filename_not_legacy [simp]: "version_filename r \<noteq> legacy_filename"
  by (simp add: version_filename_def legacy_filename_def version_prefix_def)

lemma version_filename_not_temporary [simp]: "version_filename r \<noteq> temporary_name n pid q"
  by (simp add: version_filename_def version_prefix_def temporary_name_def)

lemma legacy_not_temporary [simp]: "legacy_filename \<noteq> temporary_name n pid q"
  by (simp add: legacy_filename_def temporary_name_def)

lemma published_temporary_dot: "published_temporary_destination n = Some dest \<Longrightarrow> \<exists>rest. n = 46 # rest"
  by (auto simp: published_temporary_destination_def bind_eq_Some_conv strip_prefix_Some)

lemma version_filename_not_dot [simp]: "version_filename r \<noteq> 46 # rest"
  by (simp add: version_filename_def version_prefix_def)

lemma legacy_not_dot [simp]: "legacy_filename \<noteq> 46 # rest"
  by (simp add: legacy_filename_def)

section \<open>Revisions of a directory\<close>

definition revision_file :: "disk \<Rightarrow> u64 \<Rightarrow> disk_file option" where
  "revision_file d r = (if r = 0 then None else file_at d (version_filename r))"

definition revision_of_name :: "os_name \<times> disk_file \<Rightarrow> u64 option" where
  "revision_of_name e = (case fst e of Utf8Name n \<Rightarrow> parse_revision n | ForeignName _ \<Rightarrow> None)"

definition revisions_of :: "disk \<Rightarrow> u64 list" where
  "revisions_of d = List.rev (sort (List.map_filter revision_of_name d))"

definition top_revision :: "disk \<Rightarrow> nat" where
  "top_revision d = (case revisions_of d of [] \<Rightarrow> 0 | r # _ \<Rightarrow> unat r)"

lemma revision_of_name_Some: "revision_of_name e = Some r \<longleftrightarrow> r \<noteq> 0 \<and> fst e = Utf8Name (version_filename r)"
  by (cases "fst e") (auto simp: revision_of_name_def parse_revision_Some)

lemma set_revisions_of: "r \<in> set (revisions_of d) \<longleftrightarrow> revision_file d r \<noteq> None"
proof -
  have "r \<in> set (revisions_of d) \<longleftrightarrow> (\<exists>e\<in>set d. revision_of_name e = Some r)"
    by (simp add: revisions_of_def map_filter_mem)
  also have "\<dots> \<longleftrightarrow> r \<noteq> 0 \<and> Utf8Name (version_filename r) \<in> fst ` set d"
    by (simp add: revision_of_name_Some image_iff Bex_def eq_commute [of "Utf8Name _"] conj_commute)
  also have "\<dots> \<longleftrightarrow> revision_file d r \<noteq> None"
    using map_of_eq_None_iff [of d "Utf8Name (version_filename r)"] by (auto simp: revision_file_def file_at_def)
  finally show ?thesis .
qed

lemma sorted_revisions_of: "sorted_wrt (\<ge>) (revisions_of d)"
  by (simp add: revisions_of_def sorted_wrt_rev)

lemma distinct_map_filter_revisions:
  "keys_distinct d \<Longrightarrow> distinct (List.map_filter revision_of_name d)"
proof (induction d)
  case (Cons e d)
  have "r \<notin> set (List.map_filter revision_of_name d)" if "revision_of_name e = Some r" for r
  proof
    assume "r \<in> set (List.map_filter revision_of_name d)"
    then obtain e' where e': "e' \<in> set d" "revision_of_name e' = Some r"
      by (auto simp: map_filter_mem)
    with that have "fst e' = fst e" by (simp add: revision_of_name_Some)
    with e'(1) Cons.prems show False by (metis distinct.simps(2) image_eqI list.set_map list.simps(9))
  qed
  with Cons show ?case by (auto simp: List.map_filter_simps split: option.split)
qed (simp add: List.map_filter_simps)

lemma distinct_revisions_of: "keys_distinct d \<Longrightarrow> distinct (revisions_of d)"
  by (simp add: revisions_of_def distinct_map_filter_revisions)

lemma distinct_descending:
  "distinct xs \<Longrightarrow> sorted_wrt (\<ge>) xs \<Longrightarrow> sorted_wrt (>) (xs :: 'a::linorder list)"
  by (induction xs) (auto simp: order_less_le)

lemma strictly_descending: "keys_distinct d \<Longrightarrow> sorted_wrt (>) (revisions_of d)"
  by (rule distinct_descending) (simp_all add: distinct_revisions_of sorted_revisions_of)

lemma top_upper: "revision_file d r \<noteq> None \<Longrightarrow> unat r \<le> top_revision d"
  using sorted_revisions_of [of d] set_revisions_of [of r d]
  by (cases "revisions_of d") (auto simp: top_revision_def word_le_nat_alt)

lemma top_attained: "top_revision d \<noteq> 0 \<Longrightarrow> \<exists>r. unat r = top_revision d \<and> revision_file d r \<noteq> None"
proof (cases "revisions_of d")
  case (Cons r rs)
  with set_revisions_of [of r d] show ?thesis by (intro exI [of _ r]) (simp add: top_revision_def)
qed (simp add: top_revision_def)

lemma top_eqI:
  assumes "revision_file d r \<noteq> None" "\<And>q. revision_file d q \<noteq> None \<Longrightarrow> unat q \<le> unat r"
  shows "top_revision d = unat r"
proof -
  from assms(1) have "r \<noteq> 0" by (auto simp: revision_file_def)
  with top_upper [OF assms(1)] have "top_revision d \<noteq> 0" using unat_gt_0 [of r] by linarith
  from top_attained [OF this] assms top_upper [OF assms(1)] show ?thesis by (metis le_antisym)
qed

lemma head_top: "head_of (revisions_of d) = Some h \<Longrightarrow> unat h = top_revision d"
  by (cases "revisions_of d") (auto simp: head_of_def top_revision_def)

lemma head_top_None: "head_of (revisions_of d) = None \<longleftrightarrow> top_revision d = 0"
proof (cases "revisions_of d")
  case (Cons r rs)
  with set_revisions_of [of r d] have "r \<noteq> 0" by (auto simp: revision_file_def)
  with Cons show ?thesis by (simp add: head_of_def top_revision_def unat_eq_0)
qed (simp add: head_of_def top_revision_def)

lemma same_head_same_top:
  "head_of (revisions_of d) = head_of (revisions_of d') \<longleftrightarrow> top_revision d = top_revision d'"
proof (cases "head_of (revisions_of d)")
  case None
  then show ?thesis using head_top_None [of d] head_top_None [of d'] by (cases "head_of (revisions_of d')") auto
next
  case (Some h)
  show ?thesis
  proof (cases "head_of (revisions_of d')")
    case None
    with Some head_top_None [of d] head_top_None [of d'] show ?thesis by simp
  next
    case (Some h')
    with \<open>head_of (revisions_of d) = Some h\<close> show ?thesis
      by (simp add: word_unat_eq_iff head_top)
  qed
qed

section \<open>What a reader sees\<close>

definition readable :: "'p profile_store \<Rightarrow> disk \<Rightarrow> u64 \<Rightarrow> bool" where
  "readable st d r = (case revision_file d r of
       None \<Rightarrow> False
     | Some f \<Rightarrow> (case read_content st f of Inl _ \<Rightarrow> False | Inr _ \<Rightarrow> True))"

fun newest_of :: "'p profile_store \<Rightarrow> disk \<Rightarrow> u64 list \<Rightarrow> (u64 \<times> 'p) option" where
  "newest_of st d [] = None"
| "newest_of st d (r # rs) = (case revision_file d r of
       None \<Rightarrow> newest_of st d rs
     | Some f \<Rightarrow> (case read_content st f of
           Inl _ \<Rightarrow> newest_of st d rs
         | Inr p \<Rightarrow> Some (r, p)))"

definition visible_profile :: "'p profile_store \<Rightarrow> disk \<Rightarrow> 'p option" where
  "visible_profile st d = (case newest_of st d (revisions_of d) of
       Some (_, p) \<Rightarrow> Some p
     | None \<Rightarrow> (case file_at d legacy_filename of
           Some f \<Rightarrow> (case read_content st f of Inl _ \<Rightarrow> None | Inr p \<Rightarrow> Some p)
         | None \<Rightarrow> if revisions_of d = [] then Some (st_default_profile st) else None))"

lemma newest_of_Some:
  assumes "newest_of st d rs = Some (r, p)" "sorted_wrt (\<ge>) rs"
  shows "r \<in> set rs \<and> (\<exists>f. revision_file d r = Some f \<and> read_content st f = Inr p)
    \<and> (\<forall>q\<in>set rs. readable st d q \<longrightarrow> q \<le> r)"
  using assms
  by (induction rs) (auto simp: readable_def split: option.splits sum.splits)

lemma newest_of_None: "newest_of st d rs = None \<longleftrightarrow> (\<forall>q\<in>set rs. \<not> readable st d q)"
  by (induction rs) (auto simp: readable_def split: option.split sum.split)

lemma readable_revision: "readable st d r \<Longrightarrow> r \<in> set (revisions_of d)"
  by (auto simp: readable_def set_revisions_of split: option.splits)

definition newest_is :: "'p profile_store \<Rightarrow> disk \<Rightarrow> (u64 \<times> 'p) option \<Rightarrow> bool" where
  "newest_is st d x = (case x of
       None \<Rightarrow> (\<forall>q. \<not> readable st d q)
     | Some (r, p) \<Rightarrow> (\<exists>f. revision_file d r = Some f \<and> read_content st f = Inr p)
         \<and> (\<forall>q. readable st d q \<longrightarrow> q \<le> r))"

lemma newest_is_readable: "newest_is st d (Some (r, p)) \<Longrightarrow> readable st d r"
  by (auto simp: newest_is_def readable_def)

lemma newest_is_unique:
  assumes "newest_is st d x" "newest_is st d y"
  shows "x = y"
proof (cases x)
  case None
  have "y = None"
  proof (rule ccontr)
    assume "y \<noteq> None"
    then obtain q p where "y = Some (q, p)" by (cases y) auto
    with assms(2) have "readable st d q" by (simp add: newest_is_readable)
    with None assms(1) show False by (simp add: newest_is_def)
  qed
  with None show ?thesis by simp
next
  case (Some a)
  obtain r p where a: "a = (r, p)" by (cases a)
  with assms(1) Some have r: "readable st d r" by (simp add: newest_is_readable)
  with assms(2) obtain q p' where y: "y = Some (q, p')" by (cases y) (auto simp: newest_is_def)
  with assms(2) have "readable st d q" by (simp add: newest_is_readable)
  with r assms Some a y have "q = r" by (auto simp: newest_is_def intro: order_antisym)
  with assms Some a y show ?thesis by (auto simp: newest_is_def)
qed

lemma newest_of_is: "newest_is st d (newest_of st d (revisions_of d))"
proof (cases "newest_of st d (revisions_of d)")
  case None
  then have "\<forall>q. \<not> readable st d q"
    using readable_revision [of st d] unfolding newest_of_None by blast
  with None show ?thesis by (simp add: newest_is_def)
next
  case (Some x)
  obtain r p where x: "x = (r, p)" by (cases x)
  from newest_of_Some [OF Some [unfolded x] sorted_revisions_of] show ?thesis
    unfolding Some x using readable_revision by (auto simp: newest_is_def)
qed

lemma newest_of_eq: "newest_is st d x \<longleftrightarrow> newest_of st d (revisions_of d) = x"
  using newest_is_unique newest_of_is by metis

section \<open>Legal changes\<close>

definition retained_gap :: nat where "retained_gap = profile_revision_retention - 2"

definition legal :: "'p profile_store \<Rightarrow> disk \<Rightarrow> disk \<Rightarrow> bool" where
  "legal st d d' \<longleftrightarrow>
     (keys_distinct d \<longrightarrow> keys_distinct d')
   \<and> top_revision d \<le> top_revision d'
   \<and> (\<forall>r f. revision_file d r = Some f \<longrightarrow>
        revision_file d' r = Some f \<or> revision_file d' r = None \<and> unat r + retained_gap \<le> top_revision d')
   \<and> (\<forall>r. revision_file d r = None \<and> unat r \<le> top_revision d \<longrightarrow> revision_file d' r = None)
   \<and> (\<forall>r. top_revision d < unat r \<and> unat r \<le> top_revision d' \<and> revision_file d' r = None \<longrightarrow>
        unat r + retained_gap \<le> top_revision d')
   \<and> (\<forall>r. readable st d r \<longrightarrow> (\<exists>q. r \<le> q \<and> readable st d' q))
   \<and> file_at d' legacy_filename = file_at d legacy_filename"

lemma legalD:
  assumes "legal st d d'"
  shows "keys_distinct d \<Longrightarrow> keys_distinct d'"
    and "top_revision d \<le> top_revision d'"
    and "revision_file d r = Some f \<Longrightarrow>
        revision_file d' r = Some f \<or> revision_file d' r = None \<and> unat r + retained_gap \<le> top_revision d'"
    and "revision_file d r = None \<Longrightarrow> unat r \<le> top_revision d \<Longrightarrow> revision_file d' r = None"
    and "top_revision d < unat r \<Longrightarrow> unat r \<le> top_revision d' \<Longrightarrow> revision_file d' r = None \<Longrightarrow>
        unat r + retained_gap \<le> top_revision d'"
    and "readable st d r \<Longrightarrow> \<exists>q. r \<le> q \<and> readable st d' q"
    and "file_at d' legacy_filename = file_at d legacy_filename"
  using assms unfolding legal_def by blast+

lemma legal_refl [simp]: "legal st d d"
  by (auto simp: legal_def)

lemma legal_trans:
  assumes a: "legal st d1 d2" and b: "legal st d2 d3"
  shows "legal st d1 d3"
  unfolding legal_def
proof (intro conjI allI impI; (elim conjE)?)
  show "top_revision d1 \<le> top_revision d3" using legalD(2) [OF a] legalD(2) [OF b] by simp
  show "file_at d3 legacy_filename = file_at d1 legacy_filename" using legalD(7) [OF a] legalD(7) [OF b] by simp
  show "keys_distinct d3" if "keys_distinct d1" using that legalD(1) [OF a] legalD(1) [OF b] by blast
  show "\<exists>q\<ge>r. readable st d3 q" if "readable st d1 r" for r
    using that legalD(6) [OF a] legalD(6) [OF b] order_trans by meson
  show "revision_file d3 r = None" if "revision_file d1 r = None" "unat r \<le> top_revision d1" for r
    using that legalD(4) [OF a, of r] legalD(4) [OF b, of r] legalD(2) [OF a] by simp
  show "revision_file d3 r = Some f \<or> revision_file d3 r = None \<and> unat r + retained_gap \<le> top_revision d3"
    if "revision_file d1 r = Some f" for r f
    using legalD(3) [OF a that] legalD(3) [OF b] legalD(4) [OF b, of r] legalD(2) [OF b] by fastforce
  show "unat r + retained_gap \<le> top_revision d3"
    if r: "top_revision d1 < unat r" "unat r \<le> top_revision d3" "revision_file d3 r = None" for r
  proof (cases "unat r \<le> top_revision d2")
    case False
    with r legalD(5) [OF b] show ?thesis by simp
  next
    case True
    with r show ?thesis
      using legalD(5) [OF a, of r] legalD(3) [OF b, of r] legalD(2) [OF b] by (cases "revision_file d2 r") auto
  qed
qed

lemma legal_file_kept:
  assumes "legal st d d'" "top_revision d' = top_revision d" "revision_file d' r = Some f"
  shows "revision_file d r = Some f"
  using assms(2,3) legalD(3,4) [OF assms(1), of r] top_upper [of d' r] by (cases "revision_file d r") auto

lemma legal_content_kept:
  assumes "legal st d d'" "revision_file d r \<noteq> None" "revision_file d' r = Some f"
  shows "revision_file d r = Some f"
  using assms(2,3) legalD(3) [OF assms(1), of r] by auto

lemma newest_kept:
  assumes l: "legal st d d'" and top: "top_revision d' = top_revision d" and n: "newest_is st d x"
  shows "newest_is st d' x"
proof -
  have earlier: "readable st d q" if "readable st d' q" for q
    using that legal_file_kept [OF l top] by (auto simp: readable_def split: option.splits sum.splits)
  show ?thesis
  proof (cases x)
    case None
    with n earlier show ?thesis by (auto simp: newest_is_def)
  next
    case (Some y)
    obtain r p where y: "y = (r, p)" by (cases y)
    with n Some obtain f where f: "revision_file d r = Some f" "read_content st f = Inr p"
      and max: "\<And>q. readable st d q \<Longrightarrow> q \<le> r" by (auto simp: newest_is_def)
    have "readable st d r" using f by (simp add: readable_def)
    with legalD(6) [OF l] obtain q where q: "r \<le> q" "readable st d' q" by blast
    with max earlier have "q = r" by (meson order_antisym)
    with q(2) have "revision_file d' r \<noteq> None" by (auto simp: readable_def split: option.splits)
    with f legalD(3) [OF l f(1)] max earlier show ?thesis by (auto simp: Some y newest_is_def)
  qed
qed

lemma no_revisions_top: "revisions_of d = [] \<longleftrightarrow> top_revision d = 0"
  using head_top_None [of d] by (cases "revisions_of d") (auto simp: head_of_def)

lemma visible_kept:
  assumes "legal st d d'" "top_revision d' = top_revision d"
  shows "visible_profile st d' = visible_profile st d"
  using newest_kept [OF assms newest_of_is] legalD(7) [OF assms(1)] assms(2)
  unfolding newest_of_eq by (simp only: visible_profile_def no_revisions_top)

section \<open>The changes of the store\<close>

lemma untouched_legal:
  assumes "keys_distinct d \<Longrightarrow> keys_distinct d'" "\<And>r. revision_file d' r = revision_file d r"
    "file_at d' legacy_filename = file_at d legacy_filename"
  shows "legal st d d'" and "top_revision d' = top_revision d"
proof -
  have head: "head_of (revisions_of d') = head_of (revisions_of d) \<Longrightarrow> top_revision d' = top_revision d"
    by (simp add: same_head_same_top)
  show top: "top_revision d' = top_revision d"
  proof (cases "top_revision d = 0")
    case True
    show ?thesis
    proof (rule ccontr)
      assume "top_revision d' \<noteq> top_revision d"
      with True top_attained [of d'] assms(2) top_upper [of d] show False by auto
    qed
  next
    case False
    from top_attained [OF this] obtain r where r: "unat r = top_revision d" "revision_file d r \<noteq> None" by blast
    with assms(2) top_upper [of d] show ?thesis by (metis top_eqI)
  qed
  show "legal st d d'"
    using assms top unfolding legal_def by (auto simp: readable_def)
qed

text \<open>A revision that may be removed, whatever legal changes come first.\<close>

definition removable :: "'p profile_store \<Rightarrow> disk \<Rightarrow> u64 \<Rightarrow> bool" where
  "removable st d r \<longleftrightarrow> unat r + retained_gap \<le> top_revision d
     \<and> (readable st d r \<longrightarrow> (\<exists>q. r < q \<and> readable st d q))"

lemma removable_stable:
  assumes "legal st d d'" "removable st d r"
  shows "removable st d' r"
proof -
  have gap: "unat r + retained_gap \<le> top_revision d'"
    using assms legalD(2) [OF assms(1)] by (simp add: removable_def)
  have "\<exists>q. r < q \<and> readable st d' q" if "readable st d' r"
  proof -
    from that obtain f where f: "revision_file d' r = Some f" by (auto simp: readable_def split: option.splits)
    have "revision_file d r \<noteq> None"
      using legalD(4) [OF assms(1), of r] f assms(2) by (auto simp: removable_def)
    then have "revision_file d r = Some f" by (rule legal_content_kept [OF assms(1) _ f])
    with that f have "readable st d r" by (simp add: readable_def)
    with assms(2) obtain q where "r < q" "readable st d q" by (auto simp: removable_def)
    with legalD(6) [OF assms(1)] show ?thesis by (meson less_le_trans)
  qed
  with gap show ?thesis by (simp add: removable_def)
qed

lemma revision_file_drop:
  "r \<noteq> 0 \<Longrightarrow> revision_file (drop_file (version_filename r) d) q = (if q = r then None else revision_file d q)"
  by (auto simp: revision_file_def version_filename_inject)

lemma retained_gap_pos: "0 < retained_gap"
  by (simp add: retained_gap_def profile_revision_retention_def)

lemma remove_legal:
  assumes "removable st d r" "r \<noteq> 0"
  shows "legal st d (drop_file (version_filename r) d)"
proof -
  let ?d = "drop_file (version_filename r) d"
  note at = revision_file_drop [OF assms(2), of d]
  have gap: "unat r + retained_gap \<le> top_revision d" using assms by (simp add: removable_def)
  with retained_gap_pos have "top_revision d \<noteq> 0" by simp
  from top_attained [OF this] obtain h where h: "unat h = top_revision d" "revision_file d h \<noteq> None" by blast
  have "h \<noteq> r" using h(1) gap retained_gap_pos by auto
  with h have "revision_file ?d h \<noteq> None" by (simp add: at)
  moreover have "unat q \<le> unat h" if "revision_file ?d q \<noteq> None" for q
    using that top_upper [of d q] h(1) by (simp add: at split: if_splits)
  ultimately have top: "top_revision ?d = top_revision d" using h(1) top_eqI [of ?d h] by simp
  show ?thesis
    unfolding legal_def
  proof (intro conjI allI impI; (elim conjE)?)
    show "\<exists>q\<ge>a. readable st ?d q" if a: "readable st d a" for a
    proof (cases "a = r")
      case True
      with a assms obtain q where "r < q" "readable st d q" by (auto simp: removable_def)
      with True show ?thesis by (intro exI [of _ q]) (auto simp: readable_def at)
    next
      case False
      with a show ?thesis by (intro exI [of _ a]) (simp add: readable_def at)
    qed
    show "file_at ?d legacy_filename = file_at d legacy_filename"
      using version_filename_not_legacy [of r] by (simp add: eq_commute [of legacy_filename])
  qed (use gap in \<open>auto simp: top at\<close>)
qed

lemma dotted_legal:
  assumes "n = 46 # rest"
  shows "legal st d (drop_file n d)" "legal st d (put_file n f d)"
  using assms by (auto intro!: untouched_legal(1) simp: revision_file_def)

lemma revision_file_put:
  "r \<noteq> 0 \<Longrightarrow> revision_file (put_file (version_filename r) f d) q = (if q = r then Some f else revision_file d q)"
  by (auto simp: revision_file_def version_filename_inject)

lemma publish_top:
  assumes "unat r = Suc (top_revision d)"
  shows "top_revision (put_file (version_filename r) f d) = unat r"
proof -
  have "r \<noteq> 0" using assms by auto
  show ?thesis
    by (rule top_eqI) (use assms top_upper [of d] in \<open>auto simp: revision_file_put [OF \<open>r \<noteq> 0\<close>] le_SucI split: if_splits\<close>)
qed

lemma publish_legal:
  assumes "unat r = Suc (top_revision d)"
  shows "legal st d (put_file (version_filename r) f d)"
proof -
  let ?d = "put_file (version_filename r) f d"
  have "r \<noteq> 0" using assms by auto
  note at = revision_file_put [OF this, of f d]
  have new: "revision_file d r = None" using assms top_upper [of d r] by fastforce
  note top = publish_top [OF assms, of f]
  show ?thesis
    unfolding legal_def
  proof (intro conjI allI impI; (elim conjE)?)
    show "\<exists>q\<ge>a. readable st ?d q" if a: "readable st d a" for a
      using a new by (intro exI [of _ a]) (auto simp: readable_def at)
    show "file_at ?d legacy_filename = file_at d legacy_filename"
      using version_filename_not_legacy [of r] by (simp add: eq_commute [of legacy_filename])
    show "unat a + retained_gap \<le> top_revision ?d"
      if "top_revision d < unat a" "unat a \<le> top_revision ?d" "revision_file ?d a = None" for a
    proof -
      from that assms have "a = r" by (simp add: top word_unat_eq_iff)
      with that show ?thesis by (simp add: at)
    qed
  qed (use assms new in \<open>auto simp: top at\<close>)
qed

lemma publish_visible:
  assumes "unat r = Suc (top_revision d)" "read_content st f = Inr p"
  shows "visible_profile st (put_file (version_filename r) f d) = Some p"
proof -
  let ?d = "put_file (version_filename r) f d"
  have "r \<noteq> 0" using assms by auto
  note at = revision_file_put [OF this, of f d]
  have "newest_is st ?d (Some (r, p))"
    using assms top_upper [of ?d] publish_top [OF assms(1), of f]
    by (fastforce simp: newest_is_def at readable_def word_le_nat_alt split: option.splits)
  then show ?thesis by (simp add: newest_of_eq visible_profile_def)
qed

end
