(* ===== verification/StoreRuns.thy ===== *)
theory StoreRuns
  imports DiskLaws
begin

text \<open>
  Runs of the store among other processes.  The locale \<open>disk_relation\<close> is what a relation
  on directories must satisfy to hold along the accesses of an operation: it is a preorder
  that the other processes and the handling of temporary files respect.  It is interpreted
  for \<open>calm\<close>, the legal changes that leave the temporary files of the process alone, and
  for \<open>shrinks\<close>, the changes that publish nothing.

  The lemmas then follow a load, a compare-and-swap and a transaction access by access.
\<close>

section \<open>Relations along a run\<close>

definition keeps :: "(disk \<Rightarrow> disk \<Rightarrow> bool) \<Rightarrow> 'a fs \<Rightarrow> bool" where
  "keeps R m \<longleftrightarrow> (\<forall>s. R (fs_disk s) (fs_disk (snd (m s))))"

lemma keepsD: "keeps R m \<Longrightarrow> m s = (x, s') \<Longrightarrow> R (fs_disk s) (fs_disk s')"
  by (metis keeps_def snd_conv)

lemma resolve_disk [simp]: "fs_disk (snd (resolve_directory st s)) = fs_disk s"
  by (simp add: resolve_directory_def split: option.split)

locale disk_relation =
  fixes R :: "disk \<Rightarrow> disk \<Rightarrow> bool" and env :: fs_env
  assumes R_refl: "R d d"
    and R_trans: "R a b \<Longrightarrow> R b c \<Longrightarrow> R a c"
    and R_peers: "R d (fe_peers env n d)"
    and R_drop_dotted: "R d (drop_file (46 # rest) d)"
begin

lemma keeps_return: "keeps R (fs_return x)"
  by (simp add: keeps_def R_refl)

lemma keeps_fail: "keeps R (fs_fail e)"
  by (simp add: keeps_def R_refl)

lemma keeps_lift: "keeps R (fs_lift r)"
  by (simp add: keeps_def R_refl)

lemma keeps_try: "keeps R m \<Longrightarrow> keeps R (fs_try m)"
  by (simp add: keeps_def)

lemma keeps_bind: "keeps R m \<Longrightarrow> (\<And>x. keeps R (f x)) \<Longrightarrow> keeps R (fs_bind m f)"
  unfolding keeps_def fs_bind_def
  by (auto split: prod.split sum.split) (metis R_trans snd_conv)+

lemma keeps_access: "(\<And>d. R d (snd (f d))) \<Longrightarrow> keeps R (fs_access env operation f)"
  unfolding keeps_def fs_access_def
  by (auto simp: Let_def R_peers split: prod.split) (metis R_trans R_peers snd_conv)

lemma keeps_look: "keeps R (fs_look env operation f)"
  unfolding fs_look_def by (rule keeps_access) (simp add: R_refl)

lemma keeps_sync: "keeps R (sync_directory env operation)"
  unfolding sync_directory_def by (rule keeps_look)

lemma keeps_remove: "(\<And>d. R d (drop_file n d)) \<Longrightarrow> keeps R (fs_remove env operation n)"
  unfolding fs_remove_def by (rule keeps_access) simp

lemma keeps_resolve: "keeps R (resolve_directory st)"
  by (simp add: keeps_def R_refl)

lemmas keeps_rules = keeps_return keeps_fail keeps_lift keeps_try keeps_bind keeps_look keeps_sync keeps_resolve

lemma keeps_remove_temporaries: "keeps R (remove_published_temporaries env budget entries removed)"
proof (induction entries arbitrary: budget removed)
  case (Cons e rest)
  obtain name f where e: "e = (name, f)" by (cases e)
  show ?case
  proof (cases budget)
    case (Suc k)
    show ?thesis
    proof (cases name)
      case (Utf8Name n)
      show ?thesis
      proof (cases "published_temporary_destination n")
        case (Some dest)
        then obtain tl where "n = 46 # tl" using published_temporary_dot by blast
        then have "keeps R (fs_remove env operation n)" for operation
          by (simp add: keeps_remove R_drop_dotted)
        with Cons.IH show ?thesis
          by (simp add: e Suc Utf8Name Some keeps_bind keeps_look)
      qed (use Cons.IH in \<open>simp add: e Suc Utf8Name\<close>)
    qed (use Cons.IH in \<open>simp add: e Suc\<close>)
  qed (simp add: e keeps_fail del: fs_fail_simps)
qed (simp add: keeps_return)

lemma keeps_cleanup: "keeps R (cleanup_published_temporary_files env)"
  unfolding cleanup_published_temporary_files_def
  by (intro keeps_bind keeps_look keeps_remove_temporaries) (simp add: keeps_sync keeps_return)

lemma keeps_revisions_descending: "keeps R (revisions_descending env)"
  unfolding revisions_descending_def by (intro keeps_bind keeps_look keeps_cleanup)

lemma keeps_read_profile: "st_env st = env \<Longrightarrow> keeps R (read_profile st name)"
  by (simp add: read_profile_def keeps_look)

lemma keeps_newest_readable: "st_env st = env \<Longrightarrow> keeps R (newest_readable st rs recovered corruption)"
proof (induction rs arbitrary: recovered corruption)
  case (Cons r rs)
  have "keeps R (case result of
           Inr p \<Rightarrow> fs_return (Some (r, p), recovered, corruption)
         | Inl e \<Rightarrow>
             if is_corruption e
             then newest_readable st rs (recovered @ [r]) (if corruption = None then Some e else corruption)
             else fs_fail e)" for result
    using Cons by (cases result) (auto simp: keeps_return keeps_fail)
  then show ?case using Cons.prems by (simp add: keeps_bind keeps_try keeps_read_profile)
qed (simp add: keeps_return)

lemma keeps_load: "st_env st = env \<Longrightarrow> keeps R (load_or_default_from_disk st)"
proof -
  assume env: "st_env st = env"
  have legacy: "keeps R (regular_profile_file_exists env legacy_filename)"
    by (simp add: regular_profile_file_exists_def keeps_look)
  have default: "keeps R (case c of Some e \<Rightarrow> fs_fail e | None \<Rightarrow> fs_return x)" for c x
    by (cases c) (simp_all add: keeps_fail keeps_return)
  show ?thesis
    unfolding load_or_default_from_disk_def env
    by (intro keeps_bind keeps_resolve keeps_revisions_descending keeps_newest_readable [OF env])
      (auto simp: keeps_return keeps_bind legacy keeps_read_profile env default split: option.split)
qed

lemma keeps_confirm:
  assumes "st_env st = env"
  shows "keeps R (confirm_snapshot_durability st nick snap)"
  unfolding confirm_snapshot_durability_def assms
  by (auto simp: keeps_return keeps_fail split: option.split sum.split intro!: keeps_bind keeps_try keeps_sync)

end

section \<open>Calm accesses\<close>

definition own_temporary :: "u32 \<Rightarrow> ustring \<Rightarrow> bool" where
  "own_temporary pid name \<longleftrightarrow> (\<exists>final_name sequence. name = temporary_name final_name pid sequence)"

definition calm :: "'p profile_store \<Rightarrow> disk \<Rightarrow> disk \<Rightarrow> bool" where
  "calm st d d' \<longleftrightarrow> legal st d d'
     \<and> (\<forall>name. own_temporary (fe_process_id (st_env st)) name \<longrightarrow>
          file_at d' name = None \<or> file_at d' name = file_at d name)"

text \<open>Other processes follow the protocol.\<close>

definition peers_follow :: "'p profile_store \<Rightarrow> bool" where
  "peers_follow st \<longleftrightarrow> (\<forall>n d. calm st d (fe_peers (st_env st) n d))"

lemma calm_legal: "calm st d d' \<Longrightarrow> legal st d d'"
  by (simp add: calm_def)

lemma calm_refl [simp]: "calm st d d"
  by (simp add: calm_def)

lemma calm_trans: "calm st a b \<Longrightarrow> calm st b c \<Longrightarrow> calm st a c"
  unfolding calm_def using legal_trans by metis

interpretation calm_run: disk_relation "\<lambda>d d'. peers_follow st \<longrightarrow> calm st d d'" "st_env st" for st
proof
  show "peers_follow st \<longrightarrow> calm st d (drop_file (46 # rest) d)" for d rest
    using dotted_legal(1) [of "46 # rest" rest st d] by (auto simp: calm_def)
qed (auto simp: peers_follow_def intro: calm_trans)

definition shrinks :: "disk \<Rightarrow> disk \<Rightarrow> bool" where
  "shrinks d d' \<longleftrightarrow> (\<forall>r. revision_file d' r \<noteq> None \<longrightarrow> revision_file d r \<noteq> None)"

definition peers_publish_nothing :: "'p profile_store \<Rightarrow> bool" where
  "peers_publish_nothing st \<longleftrightarrow> (\<forall>n d. shrinks d (fe_peers (st_env st) n d))"

interpretation shrink_run: disk_relation "\<lambda>d d'. peers_publish_nothing st \<longrightarrow> shrinks d d'" "st_env st" for st
  by unfold_locales (auto simp: shrinks_def peers_publish_nothing_def revision_file_def)

lemma calm_of:
  assumes "keeps (\<lambda>d d'. peers_follow st \<longrightarrow> calm st d d') m" "m s = (x, s')" "peers_follow st"
  shows "calm st (fs_disk s) (fs_disk s')"
  using keepsD [OF assms(1,2)] assms(3) by simp

lemma access_cases:
  assumes "fs_access env operation f s = (r, s')"
  shows "(r = Inl (PsIo operation) \<and> fs_disk s' = fe_peers env (fs_tick s) (fs_disk s))
    \<or> (r, fs_disk s') = f (fe_peers env (fs_tick s) (fs_disk s))"
  using assms by (auto simp: fs_access_def Let_def split: if_splits prod.splits)

lemma look_Inr:
  assumes "fs_look env operation f s = (Inr x, s')"
  shows "f (fs_disk s') = Inr x \<and> fs_disk s' = fe_peers env (fs_tick s) (fs_disk s)"
  using assms by (auto simp: fs_look_def dest!: access_cases)

section \<open>A load\<close>

lemma scan_revisions_result:
  "scan_revisions budget d acc = Inr rs \<Longrightarrow> rs = acc @ List.map_filter revision_of_name d"
proof (induction d arbitrary: budget acc)
  case (Cons e d)
  obtain name f where e: "e = (name, f)" by (cases e)
  from Cons.prems obtain k where k: "budget = Suc k" by (cases budget) (simp_all add: e)
  show ?case
  proof (cases name)
    case (Utf8Name n)
    show ?thesis
    proof (cases "parse_revision n")
      case None
      then show ?thesis
        using Cons.prems Cons.IH [of k acc]
        by (simp add: e k Utf8Name revision_of_name_def List.map_filter_simps split: if_splits)
    next
      case (Some r)
      then show ?thesis
        using Cons.prems Cons.IH [of k "acc @ [r]"]
        by (simp add: e k Utf8Name revision_of_name_def List.map_filter_simps split: if_splits)
    qed
  next
    case (ForeignName m)
    then show ?thesis
      using Cons.prems Cons.IH [of k acc]
      by (simp add: e k revision_of_name_def List.map_filter_simps)
  qed
qed (simp add: List.map_filter_simps)

lemma revisions_descending_result:
  assumes "revisions_descending env s = (Inr rs, s')"
  shows "rs = revisions_of (fs_disk s')"
proof -
  from assms obtain s1 where
    "fs_look env ''list profile revisions'' (\<lambda>d. rbind (scan_revisions max_profile_directory_entries d []) (\<lambda>revisions.
         Inr (List.rev (sort revisions)))) s1 = (Inr rs, s')"
    by (auto simp: revisions_descending_def fs_bind_Inr)
  from look_Inr [OF this] show ?thesis
    by (auto simp: rbind_Inr_iff revisions_of_def dest: scan_revisions_result)
qed

lemma visible_newest: "newest_of st d (revisions_of d) = Some (r, p) \<Longrightarrow> visible_profile st d = Some p"
  by (simp add: visible_profile_def)

lemma visible_legacy:
  "None = newest_of st d (revisions_of d) \<Longrightarrow> file_at d legacy_filename = Some f \<Longrightarrow> read_content st f = Inr p \<Longrightarrow>
     visible_profile st d = Some p"
  by (simp add: visible_profile_def eq_commute [of None])

text \<open>What a snapshot says of the directory it was taken from.\<close>

definition snapshot_of :: "'p profile_store \<Rightarrow> disk \<Rightarrow> 'p disk_snapshot \<Rightarrow> bool" where
  "snapshot_of st d snap \<longleftrightarrow> visible_profile st d = Some (sn_profile snap)
     \<and> sn_head_revision snap = head_of (revisions_of d)
     \<and> newest_is st d (map_option (\<lambda>r. (r, sn_profile snap)) (sn_revision snap))"

lemma read_profile_result:
  assumes "read_profile st (version_filename r) s = (res, s')" "peers_follow st" "calm st d (fs_disk s)"
    "revision_file d r \<noteq> None" "res = Inr p \<or> res = Inl e \<and> is_corruption e"
  shows "\<exists>f. revision_file d r = Some f \<and> read_content st f = res" "calm st d (fs_disk s')"
proof -
  show c: "calm st d (fs_disk s')"
    using calm_trans [OF assms(3) calm_of [OF calm_run.keeps_read_profile [OF refl] assms(1,2)]] .
  have r: "r \<noteq> 0" using assms(4) by (auto simp: revision_file_def)
  have "\<exists>f. file_at (fs_disk s') (version_filename r) = Some f \<and> read_content st f = res"
    using access_cases [OF assms(1) [unfolded read_profile_def fs_look_def]] assms(5)
    by (auto split: option.splits)
  then obtain f where f: "revision_file (fs_disk s') r = Some f" "read_content st f = res"
    using r by (auto simp: revision_file_def)
  with legal_content_kept [OF calm_legal [OF c] assms(4) f(1)]
  show "\<exists>f. revision_file d r = Some f \<and> read_content st f = res" by blast
qed

lemma newest_readable_result:
  assumes "newest_readable st rs recovered corruption s = (Inr (res, recovered', corruption'), s')"
    "peers_follow st" "calm st d (fs_disk s)" "\<forall>q\<in>set rs. revision_file d q \<noteq> None"
  shows "res = newest_of st d rs" "calm st d (fs_disk s')"
    "res = None \<Longrightarrow> corruption' = None \<longleftrightarrow> corruption = None \<and> rs = []"
proof -
  have "res = newest_of st d rs \<and> calm st d (fs_disk s')
      \<and> (res = None \<longrightarrow> (corruption' = None \<longleftrightarrow> corruption = None \<and> rs = []))"
    using assms(1,3,4)
  proof (induction rs arbitrary: recovered corruption s)
    case (Cons r rs)
    from Cons.prems(1) obtain out s1 where out: "read_profile st (version_filename r) s = (out, s1)"
      and rest: "(case out of
           Inr p \<Rightarrow> fs_return (Some (r, p), recovered, corruption)
         | Inl e \<Rightarrow>
             if is_corruption e
             then newest_readable st rs (recovered @ [r]) (if corruption = None then Some e else corruption)
             else fs_fail e) s1 = (Inr (res, recovered', corruption'), s')"
      by (cases "read_profile st (version_filename r) s") (auto simp: fs_bind_def)
    have rev: "revision_file d r \<noteq> None" using Cons.prems(3) by simp
    note read = read_profile_result [OF out assms(2) Cons.prems(2) rev]
    show ?case
    proof (cases out)
      case (Inr p)
      with rest read(1,2) [of p] show ?thesis by (auto simp del: not_None_eq)
    next
      case (Inl e)
      with rest have e: "is_corruption e" by (auto split: if_splits)
      with Inl read obtain f where f: "revision_file d r = Some f" "read_content st f = Inl e"
        and c: "calm st d (fs_disk s1)" by blast
      from rest Inl e Cons.IH [OF _ c] Cons.prems(3) f show ?thesis by (auto simp del: not_None_eq split: if_splits)
    qed
  qed simp
  then show "res = newest_of st d rs" "calm st d (fs_disk s')"
    "res = None \<Longrightarrow> corruption' = None \<longleftrightarrow> corruption = None \<and> rs = []" by blast+
qed

lemma legacy_result:
  assumes "regular_profile_file_exists (st_env st) legacy_filename s = (Inr b, s')"
  shows "b \<longleftrightarrow> file_at (fs_disk s') legacy_filename \<noteq> None"
  using look_Inr [OF assms [unfolded regular_profile_file_exists_def]]
  by (auto split: option.splits if_splits)

lemma load_result:
  assumes load: "load_or_default_from_disk st s = (Inr snap, s')" and p: "peers_follow st"
  shows "\<exists>d. calm st (fs_disk s) d \<and> calm st d (fs_disk s') \<and> snapshot_of st d snap"
proof -
  from load obtain s1 rs s2 newest recovered corruption s3 where
    s1: "resolve_directory st s = (Inr (), s1)"
    and rs: "revisions_descending (st_env st) s1 = (Inr rs, s2)"
    and new: "newest_readable st rs [] None s2 = (Inr (newest, recovered, corruption), s3)"
    and rest: "(case newest of
         Some (r, p) \<Rightarrow> fs_return \<lparr>sn_profile = p, sn_revision = Some r,
           sn_head_revision = head_of rs, sn_recovered_revisions = recovered\<rparr>
       | None \<Rightarrow>
           fs_bind (regular_profile_file_exists (st_env st) legacy_filename) (\<lambda>legacy.
           if legacy
           then fs_bind (read_profile st legacy_filename) (\<lambda>p. fs_return \<lparr>sn_profile = p, sn_revision = None,
             sn_head_revision = head_of rs, sn_recovered_revisions = recovered\<rparr>)
           else (case corruption of
               Some e \<Rightarrow> fs_fail e
             | None \<Rightarrow> fs_return \<lparr>sn_profile = st_default_profile st, sn_revision = None,
                 sn_head_revision = head_of rs, sn_recovered_revisions = recovered\<rparr>))) s3 = (Inr snap, s')"
    unfolding load_or_default_from_disk_def fs_bind_Inr by auto
  let ?d = "fs_disk s2"
  have rs_eq: "rs = revisions_of ?d" by (rule revisions_descending_result [OF rs])
  have c12: "calm st (fs_disk s) ?d"
    using calm_of [OF calm_run.keeps_revisions_descending rs p] s1 resolve_disk [of st s] by simp
  have mem: "\<forall>q\<in>set rs. revision_file ?d q \<noteq> None" unfolding rs_eq by (simp add: set_revisions_of)
  note r = newest_readable_result [OF new p calm_refl mem]
  have newest: "newest_is st ?d newest" using r(1) rs_eq newest_of_is by simp
  show ?thesis
  proof (cases newest)
    case (Some x)
    obtain a b where x: "x = (a, b)" by (cases x)
    from rest have "snap = \<lparr>sn_profile = b, sn_revision = Some a, sn_head_revision = head_of rs,
        sn_recovered_revisions = recovered\<rparr>" "s' = s3" by (auto simp: Some x)
    moreover have "visible_profile st ?d = Some b"
      using r(1) [symmetric] unfolding rs_eq Some x by (rule visible_newest)
    ultimately show ?thesis
      using c12 r(2) newest rs_eq by (intro exI [of _ ?d]) (simp add: snapshot_of_def Some x)
  next
    case None
    from rest obtain legacy s4 where legacy:
      "regular_profile_file_exists (st_env st) legacy_filename s3 = (Inr legacy, s4)"
      and rest4: "(if legacy
           then fs_bind (read_profile st legacy_filename) (\<lambda>p. fs_return \<lparr>sn_profile = p, sn_revision = None,
             sn_head_revision = head_of rs, sn_recovered_revisions = recovered\<rparr>)
           else (case corruption of
               Some e \<Rightarrow> fs_fail e
             | None \<Rightarrow> fs_return \<lparr>sn_profile = st_default_profile st, sn_revision = None,
                 sn_head_revision = head_of rs, sn_recovered_revisions = recovered\<rparr>)) s4 = (Inr snap, s')"
      by (auto simp: None fs_bind_Inr)
    have "keeps (\<lambda>d d'. peers_follow st \<longrightarrow> calm st d d') (regular_profile_file_exists (st_env st) legacy_filename)"
      unfolding regular_profile_file_exists_def by (rule calm_run.keeps_look)
    from calm_trans [OF r(2) calm_of [OF this legacy p]] have c4: "calm st ?d (fs_disk s4)" .
    have at4: "file_at (fs_disk s4) legacy_filename = file_at ?d legacy_filename"
      by (rule legalD(7) [OF calm_legal [OF c4]])
    show ?thesis
    proof (cases legacy)
      case True
      with rest4 obtain b where b: "read_profile st legacy_filename s4 = (Inr b, s')"
        "snap = \<lparr>sn_profile = b, sn_revision = None, sn_head_revision = head_of rs, sn_recovered_revisions = recovered\<rparr>"
        by (auto simp: fs_bind_Inr)
      have c5: "calm st ?d (fs_disk s')"
        using calm_trans [OF c4 calm_of [OF calm_run.keeps_read_profile [OF refl] b(1) p]] .
      from look_Inr [OF b(1) [unfolded read_profile_def]] obtain f where
        "file_at (fs_disk s') legacy_filename = Some f" "read_content st f = Inr b" by (auto split: option.splits)
      with legalD(7) [OF calm_legal [OF c5]] have legacy_d: "file_at ?d legacy_filename = Some f" "read_content st f = Inr b"
        by simp_all
      have "visible_profile st ?d = Some b"
        by (rule visible_legacy [OF r(1) [unfolded rs_eq None] legacy_d])
      with b(2) c12 c5 newest rs_eq show ?thesis by (intro exI [of _ ?d]) (simp add: snapshot_of_def None)
    next
      case False
      with rest4 have snap: "corruption = None" "s' = s4"
        "snap = \<lparr>sn_profile = st_default_profile st, sn_revision = None, sn_head_revision = head_of rs,
           sn_recovered_revisions = recovered\<rparr>"
        by (auto split: option.splits)
      with r(3) None have "rs = []" by simp
      moreover have "file_at ?d legacy_filename = None" using legacy_result [OF legacy] False at4 by simp
      ultimately have "visible_profile st ?d = Some (st_default_profile st)"
        using rs_eq by (simp add: visible_profile_def)
      with snap c12 c4 newest rs_eq show ?thesis by (intro exI [of _ ?d]) (simp add: snapshot_of_def None)
    qed
  qed
qed

section \<open>Compaction\<close>

lemma descending_index:
  "sorted_wrt (>) (rs :: u64 list) \<Longrightarrow> i < length rs \<Longrightarrow> unat (rs ! i) + i \<le> unat (rs ! 0)"
proof (induction i)
  case (Suc i)
  then have "rs ! Suc i < rs ! i" using sorted_wrt_nth_less [of "(>)" rs i "Suc i"] by simp
  with Suc show ?case by (simp add: word_less_nat_alt)
qed simp

definition compactable :: "'p profile_store \<Rightarrow> disk \<Rightarrow> u64 option \<Rightarrow> nat \<Rightarrow> u64 list \<Rightarrow> bool" where
  "compactable st d protected_source slots rs \<longleftrightarrow>
     (\<forall>r\<in>set (drop slots rs). Some r = protected_source \<or> r \<noteq> 0 \<and> removable st d r)"

lemma compactable_stable: "legal st d d' \<Longrightarrow> compactable st d ps slots rs \<Longrightarrow> compactable st d' ps slots rs"
  unfolding compactable_def using removable_stable [of st d d'] by blast

lemma newest_slots_bound: "retained_gap \<le> newest_slots rs ps"
  by (auto simp: newest_slots_def retained_gap_def profile_revision_retention_def Let_def split: option.split)

lemma listing_compactable:
  assumes "keys_distinct d" "newest_is st d (map_option (\<lambda>r. (r, p)) ps)"
  shows "compactable st d ps (newest_slots (revisions_of d) ps) (revisions_of d)"
  unfolding compactable_def
proof
  fix r
  assume "r \<in> set (drop (newest_slots (revisions_of d) ps) (revisions_of d))"
  then obtain i where i: "newest_slots (revisions_of d) ps \<le> i" "i < length (revisions_of d)" "r = revisions_of d ! i"
    by (auto simp: set_conv_nth) (metis add_less_imp_less_left le_add1 le_add_diff_inverse less_or_eq_imp_le nat_less_le
        less_diff_conv add.commute)
  have "unat r + i \<le> unat (revisions_of d ! 0)"
    unfolding i(3) by (rule descending_index [OF strictly_descending [OF assms(1)] i(2)])
  moreover have "unat (revisions_of d ! 0) = top_revision d"
    using i(2) by (cases "revisions_of d") (simp_all add: top_revision_def)
  ultimately have gap: "unat r + retained_gap \<le> top_revision d"
    using i(1) newest_slots_bound [of "revisions_of d" ps] by linarith
  have "r \<in> set (revisions_of d)" using i by simp
  then have "r \<noteq> 0" by (auto simp: set_revisions_of revision_file_def)
  moreover have "\<exists>q. r < q \<and> readable st d q" if "readable st d r" "Some r \<noteq> ps"
  proof (cases ps)
    case (Some q)
    with assms(2) that have "readable st d q" "r \<le> q" "r \<noteq> q" by (auto simp: newest_is_def readable_def)
    then show ?thesis by (auto simp: order_less_le)
  qed (use assms(2) that in \<open>simp add: newest_is_def\<close>)
  ultimately show "Some r = ps \<or> r \<noteq> 0 \<and> removable st d r"
    using gap by (auto simp: removable_def)
qed

lemma calm_remove_revision:
  assumes "removable st d r" "r \<noteq> 0"
  shows "calm st d (drop_file (version_filename r) d)"
  using remove_legal [OF assms] by (auto simp: calm_def)

lemma remove_revision_calm:
  assumes "fs_remove (st_env st) operation (version_filename r) s = (res, s')" "peers_follow st"
    "removable st (fs_disk s) r" "r \<noteq> 0"
  shows "calm st (fs_disk s) (fs_disk s')"
proof -
  let ?d = "fe_peers (st_env st) (fs_tick s) (fs_disk s)"
  have peers: "calm st (fs_disk s) ?d" using assms(2) by (simp add: peers_follow_def)
  from access_cases [OF assms(1) [unfolded fs_remove_def]]
  have "fs_disk s' = ?d \<or> fs_disk s' = drop_file (version_filename r) ?d" by auto
  with peers calm_trans [OF peers calm_remove_revision [OF removable_stable [OF calm_legal [OF peers] assms(3)] assms(4)]]
  show ?thesis by auto
qed

lemma remove_old_calm:
  assumes "remove_old_revisions (st_env st) slots ps rs changed s = (res, s')" "peers_follow st"
    "compactable st (fs_disk s) ps slots rs"
  shows "calm st (fs_disk s) (fs_disk s')"
  using assms(1,3)
proof (induction rs arbitrary: slots changed s)
  case (Cons r rs)
  show ?case
  proof (cases "0 < slots \<or> Some r = ps")
    case True
    have "compactable st (fs_disk s) ps (slots - 1) rs"
      using Cons.prems(2) by (cases slots) (auto simp: compactable_def)
    with Cons.IH [of "slots - 1" changed s] Cons.prems(1) True show ?thesis by simp
  next
    case False
    with Cons.prems have r: "removable st (fs_disk s) r" "r \<noteq> 0" and rest: "compactable st (fs_disk s) ps 0 rs"
      by (auto simp: compactable_def)
    obtain out s1 where out: "fs_remove (st_env st) ''pre-compact immutable profile revision'' (version_filename r) s = (out, s1)"
      by (cases "fs_remove (st_env st) ''pre-compact immutable profile revision'' (version_filename r) s")
    note c = remove_revision_calm [OF out assms(2) r]
    show ?thesis
    proof (cases out)
      case (Inl e)
      with c out Cons.prems(1) False show ?thesis by (auto simp: fs_bind_def)
    next
      case (Inr b)
      with out Cons.prems(1) False have "remove_old_revisions (st_env st) 0 ps rs True s1 = (res, s')"
        by (auto simp: fs_bind_def)
      from Cons.IH [OF this compactable_stable [OF calm_legal [OF c] rest]] c show ?thesis by (blast intro: calm_trans)
    qed
  qed
qed (simp add: fs_return_def)

lemma precompact_calm:
  assumes "precompact_profile_revisions (st_env st) rs ps s = (res, s')" "peers_follow st"
    "compactable st (fs_disk s) ps (newest_slots rs ps) rs"
  shows "calm st (fs_disk s) (fs_disk s')"
proof -
  let ?m = "remove_old_revisions (st_env st) (newest_slots rs ps) ps rs False"
  obtain out s1 where out: "?m s = (out, s1)" by (cases "?m s")
  note c = remove_old_calm [OF out assms(2,3)]
  show ?thesis
  proof (cases out)
    case (Inl e)
    with assms(1) out c show ?thesis by (auto simp: precompact_profile_revisions_def fs_bind_def)
  next
    case (Inr changed)
    with assms(1) out have rest: "(if changed then sync_directory (st_env st) ''sync pre-compacted immutable profile revisions''
         else fs_return ()) s1 = (res, s')"
      by (auto simp: precompact_profile_revisions_def fs_bind_def)
    have "keeps (\<lambda>d d'. peers_follow st \<longrightarrow> calm st d d') (if changed
        then sync_directory (st_env st) ''sync pre-compacted immutable profile revisions'' else fs_return ())"
      by (simp add: calm_run.keeps_sync calm_run.keeps_return)
    from calm_trans [OF c calm_of [OF this rest assms(2)]] show ?thesis .
  qed
qed

end
