(* ===== verification/StorePublish.thy ===== *)
theory StorePublish
  imports StoreRuns
begin

text \<open>
  Publishing in the profile store: what a compare-and-swap has done when it says that it
  published, that somebody else did, or that it failed.
\<close>

section \<open>Temporary files\<close>

lemma temporary_legal: "legal st d (put_file (temporary_name n pid q) f d)"
  by (rule dotted_legal(2) [OF temporary_name_def])

lemma temporary_calm_drop: "calm st d (drop_file (temporary_name n pid q) d)"
  using dotted_legal(1) [of "temporary_name n pid q" _ st d] by (auto simp: calm_def temporary_name_def)

lemma calm_own:
  "calm st d d' \<Longrightarrow> file_at d' (temporary_name n (fe_process_id (st_env st)) q) = None
     \<or> file_at d' (temporary_name n (fe_process_id (st_env st)) q) = file_at d (temporary_name n (fe_process_id (st_env st)) q)"
  by (auto simp: calm_def own_temporary_def)

lemma remove_temporary_keeps:
  "keeps (\<lambda>d d'. peers_follow st \<longrightarrow> calm st d d') (fs_remove (st_env st) operation (temporary_name n pid q))"
  by (rule calm_run.keeps_remove) (simp add: temporary_calm_drop)

lemma write_temporary_result:
  assumes "write_unique_temporary attempts (st_env st) final_name bytes s = (res, s')" "peers_follow st"
  shows "legal st (fs_disk s) (fs_disk s')
    \<and> (\<forall>name. res = Inr name \<longrightarrow> (\<exists>q. name = temporary_name final_name (fe_process_id (st_env st)) q)
         \<and> file_at (fs_disk s') name = Some \<lparr>df_regular = True, df_bytes = bytes\<rparr>)"
  using assms(1)
proof (induction attempts arbitrary: s)
  case (Suc attempts)
  let ?pid = "fe_process_id (st_env st)" and ?s = "s\<lparr>fs_sequence := fs_sequence s + 1\<rparr>"
  let ?name = "temporary_name final_name ?pid (fs_sequence s)"
  let ?put_temporary = "\<lambda>d. if file_at d ?name \<noteq> None then (Inr False, d)
          else (Inr True, put_file ?name \<lparr>df_regular = True, df_bytes = bytes\<rparr> d) :: (store_error + bool) \<times> disk"
  obtain out s1 where out: "fs_access (st_env st) ''write temporary immutable file'' ?put_temporary ?s = (out, s1)"
    by (cases "fs_access (st_env st) ''write temporary immutable file'' ?put_temporary ?s")
  let ?d = "fe_peers (st_env st) (fs_tick s) (fs_disk s)"
  have peers: "legal st (fs_disk s) ?d" using assms(2) by (simp add: peers_follow_def calm_def)
  from access_cases [OF out] have cases: "fs_disk s1 = ?d \<and> out \<noteq> Inr True
      \<or> out = Inr True \<and> fs_disk s1 = put_file ?name \<lparr>df_regular = True, df_bytes = bytes\<rparr> ?d"
    by (auto split: if_splits)
  then have l1: "legal st (fs_disk s) (fs_disk s1)"
    using peers legal_trans [OF peers temporary_legal] by auto
  have rest: "(case out of
            Inr True \<Rightarrow> fs_return ?name
          | Inr False \<Rightarrow> write_unique_temporary attempts (st_env st) final_name bytes
          | Inl e \<Rightarrow>
              fs_bind (fs_try (fs_remove (st_env st) ''remove temporary file'' ?name)) (\<lambda>_. fs_fail e)) s1 = (res, s')"
    using Suc.prems out by (simp add: Let_def fs_bind_def)
  show ?case
  proof (cases out)
    case (Inl e)
    have "keeps (\<lambda>d d'. peers_follow st \<longrightarrow> calm st d d')
       (fs_bind (fs_try (fs_remove (st_env st) ''remove temporary file'' ?name)) (\<lambda>_. fs_fail e :: ustring fs))"
      by (intro calm_run.keeps_bind calm_run.keeps_try remove_temporary_keeps calm_run.keeps_fail)
    moreover from rest Inl have r: "fs_bind (fs_try (fs_remove (st_env st) ''remove temporary file'' ?name))
        (\<lambda>_. fs_fail e) s1 = (res, s')" by simp
    ultimately have "calm st (fs_disk s1) (fs_disk s')" by (rule calm_of) (rule assms(2))
    moreover from r have "res = Inl e" by (auto simp: fs_bind_def)
    ultimately show ?thesis using l1 by (auto dest: calm_legal intro: legal_trans)
  next
    case (Inr b)
    show ?thesis
    proof (cases b)
      case True
      with Inr rest cases l1 show ?thesis by auto
    next
      case False
      with Inr rest Suc.IH [of s1] l1 show ?thesis by (auto intro: legal_trans)
    qed
  qed
qed (auto simp: fs_fail_def)

section \<open>Publishing\<close>

text \<open>
  Revision \<open>r\<close> with profile \<open>p\<close> has been published: it replaced a directory \<open>d\<close> in which it
  was the next number, or else so many revisions were published meanwhile that the
  compaction of the others had already freed its number.
\<close>

definition published_at :: "'p profile_store \<Rightarrow> disk \<Rightarrow> u64 \<Rightarrow> 'p \<Rightarrow> disk \<Rightarrow> bool" where
  "published_at st d r p d' \<longleftrightarrow>
     (\<exists>f. unat r = Suc (top_revision d) \<and> read_content st f = Inr p
        \<and> legal st (put_file (version_filename r) f d) d')"

definition overtaken :: "u64 \<Rightarrow> disk \<Rightarrow> bool" where
  "overtaken r d' \<longleftrightarrow> unat r + retained_gap \<le> top_revision d'"

lemma publish_new_file_result:
  assumes run: "publish_new_file (st_env st) temporary (version_filename r) s = (res, s')" and p: "peers_follow st"
  shows "res \<noteq> Inr True \<Longrightarrow> calm st (fs_disk s) (fs_disk s')"
    and "res = Inr True \<Longrightarrow> \<exists>d f. calm st (fs_disk s) d \<and> file_at d (version_filename r) = None
       \<and> file_at d temporary = Some f \<and> fs_disk s' = put_file (version_filename r) f d"
proof -
  let ?link = "\<lambda>d. if file_at d (version_filename r) \<noteq> None then (Inr False, d)
        else (case file_at d temporary of
            None \<Rightarrow> (Inl (PsIo ''publish profile revision''), d)
          | Some f \<Rightarrow> (Inr True, put_file (version_filename r) f d)) :: (store_error + bool) \<times> disk"
  let ?d = "fe_peers (st_env st) (fs_tick s) (fs_disk s)"
  have peers: "calm st (fs_disk s) ?d" using p by (simp add: peers_follow_def)
  obtain out s1 where out: "fs_access (st_env st) ''publish profile revision'' ?link s = (out, s1)"
    by (cases "fs_access (st_env st) ''publish profile revision'' ?link s")
  from access_cases [OF out] have cases: "fs_disk s1 = ?d \<and> out \<noteq> Inr True \<or>
     (\<exists>f. out = Inr True \<and> file_at ?d (version_filename r) = None \<and> file_at ?d temporary = Some f
        \<and> fs_disk s1 = put_file (version_filename r) f ?d)"
    by (auto split: if_splits option.splits)
  from run out have rest: "(case out of
         Inr linked \<Rightarrow> fs_return linked
       | Inl e \<Rightarrow>
           fs_bind (fs_try (fs_look (st_env st) ''inspect destination'' (\<lambda>d. Inr (file_at d (version_filename r) \<noteq> None))))
             (\<lambda>present. if present = Inr True then fs_return False else fs_fail e)) s1 = (res, s')"
    by (simp add: publish_new_file_def fs_bind_def)
  have "(res \<noteq> Inr True \<longrightarrow> calm st (fs_disk s) (fs_disk s')) \<and> (res = Inr True \<longrightarrow>
     (\<exists>d f. calm st (fs_disk s) d \<and> file_at d (version_filename r) = None
       \<and> file_at d temporary = Some f \<and> fs_disk s' = put_file (version_filename r) f d))"
  proof (cases out)
    case (Inr b)
    with rest cases peers show ?thesis by auto
  next
    case (Inl e)
    let ?m = "fs_bind (fs_try (fs_look (st_env st) ''inspect destination'' (\<lambda>d. Inr (file_at d (version_filename r) \<noteq> None))))
             (\<lambda>present. if present = Inr True then fs_return False else fs_fail e)"
    have "keeps (\<lambda>d d'. peers_follow st \<longrightarrow> calm st d d') (if x then fs_return False else fs_fail e)" for x
      by (simp add: calm_run.keeps_return calm_run.keeps_fail del: fs_return_simps fs_fail_simps)
    then have "keeps (\<lambda>d d'. peers_follow st \<longrightarrow> calm st d d') ?m"
      by (intro calm_run.keeps_bind calm_run.keeps_try calm_run.keeps_look)
    moreover from rest Inl have r: "?m s1 = (res, s')" by simp
    ultimately have "calm st (fs_disk s1) (fs_disk s')" by (rule calm_of) (rule p)
    moreover have "res \<noteq> Inr True" using r by (auto simp: fs_bind_def split: if_splits)
    moreover have "fs_disk s1 = ?d" using cases Inl by auto
    ultimately show ?thesis using peers by (auto intro: calm_trans)
  qed
  then show "res \<noteq> Inr True \<Longrightarrow> calm st (fs_disk s) (fs_disk s')"
    and "res = Inr True \<Longrightarrow> \<exists>d f. calm st (fs_disk s) d \<and> file_at d (version_filename r) = None
       \<and> file_at d temporary = Some f \<and> fs_disk s' = put_file (version_filename r) f d" by blast+
qed

lemma after_link_calm:
  assumes "(case linked of
         Inr True \<Rightarrow>
           fs_bind (fs_try (sync_directory (st_env st) ''sync published revision'')) (\<lambda>synced. case synced of
               Inr _ \<Rightarrow> fs_return (PublishedDurable revision)
             | Inl _ \<Rightarrow> fs_return (PublishedUncertain revision (PsCommittedButDurabilityUncertain nick revision)))
       | Inr False \<Rightarrow> fs_return DestinationExists
       | Inl e \<Rightarrow> fs_fail e) s = (res, s')" "peers_follow st"
  shows "calm st (fs_disk s) (fs_disk s')"
    "linked = Inr True \<longleftrightarrow> res = Inr (PublishedDurable revision)
       \<or> res = Inr (PublishedUncertain revision (PsCommittedButDurabilityUncertain nick revision))"
    "linked \<noteq> Inr True \<Longrightarrow> res = Inr DestinationExists \<or> (\<exists>e. res = Inl e)"
proof -
  let ?m = "case linked of
         Inr True \<Rightarrow>
           fs_bind (fs_try (sync_directory (st_env st) ''sync published revision'')) (\<lambda>synced. case synced of
               Inr _ \<Rightarrow> fs_return (PublishedDurable revision)
             | Inl _ \<Rightarrow> fs_return (PublishedUncertain revision (PsCommittedButDurabilityUncertain nick revision)))
       | Inr False \<Rightarrow> fs_return DestinationExists
       | Inl e \<Rightarrow> fs_fail e"
  have "keeps (\<lambda>d d'. peers_follow st \<longrightarrow> calm st d d') (case synced of
               Inr _ \<Rightarrow> fs_return (PublishedDurable revision)
             | Inl _ \<Rightarrow> fs_return (PublishedUncertain revision (PsCommittedButDurabilityUncertain nick revision)))"
    for synced :: "store_error + unit"
    by (cases synced) (simp_all add: calm_run.keeps_return del: fs_return_simps)
  then have k: "keeps (\<lambda>d d'. peers_follow st \<longrightarrow> calm st d d') ?m"
    by (cases linked) (auto simp: calm_run.keeps_return calm_run.keeps_fail simp del: fs_return_simps fs_fail_simps
        intro!: calm_run.keeps_bind calm_run.keeps_try calm_run.keeps_sync split: bool.split)
  show "calm st (fs_disk s) (fs_disk s')" by (rule calm_of [OF k assms])
  show "linked = Inr True \<longleftrightarrow> res = Inr (PublishedDurable revision)
       \<or> res = Inr (PublishedUncertain revision (PsCommittedButDurabilityUncertain nick revision))"
    and "linked \<noteq> Inr True \<Longrightarrow> res = Inr DestinationExists \<or> (\<exists>e. res = Inl e)"
    using assms(1) by (auto simp: fs_bind_def split: sum.splits bool.splits)
qed

text \<open>What a compare-and-swap may answer, and what it has then done to the directory.\<close>

definition swap_done ::
  "'p profile_store \<Rightarrow> ustring \<Rightarrow> disk \<Rightarrow> 'p \<Rightarrow> store_error + publish_outcome \<Rightarrow> disk \<Rightarrow> bool" where
  "swap_done st nick d p res d' \<longleftrightarrow> (case res of
       Inl e \<Rightarrow> legal st d d'
     | Inr DestinationExists \<Rightarrow> legal st d d'
     | Inr (PublishedDurable r) \<Rightarrow> published_at st d r p d' \<or> overtaken r d'
     | Inr (PublishedUncertain r e) \<Rightarrow>
         e = PsCommittedButDurabilityUncertain nick r \<and> (published_at st d r p d' \<or> overtaken r d'))"

definition at_most_overtaken :: "disk \<Rightarrow> disk \<Rightarrow> store_error + publish_outcome \<Rightarrow> disk \<Rightarrow> bool" where
  "at_most_overtaken d0 d res d' \<longleftrightarrow>
     (\<forall>r. res = Inr (PublishedDurable r) \<or> (\<exists>e. res = Inr (PublishedUncertain r e)) \<longrightarrow>
        unat r = Suc (top_revision d0) \<and> (overtaken r d' \<or> top_revision d = top_revision d0))"

lemma publish_prepared_result:
  assumes run: "publish_prepared_revision (st_env st) nick r temporary s = (res, s')" and p: "peers_follow st"
    and temp: "temporary = temporary_name n (fe_process_id (st_env st)) q"
      "file_at d0 temporary = None \<or> file_at d0 temporary = Some f"
    and content: "read_content st f = Inr x"
    and base: "calm st d0 (fs_disk s)" and next_top: "unat r = Suc (top_revision d0)"
  shows "\<exists>d. legal st d0 d \<and> swap_done st nick d x res (fs_disk s') \<and> at_most_overtaken d0 d res (fs_disk s')"
proof -
  let ?link = "publish_new_file (st_env st) temporary (version_filename r)"
  let ?remove = "fs_remove (st_env st) ''remove temporary file'' temporary"
  obtain linked s1 where linked: "?link s = (linked, s1)" by (cases "?link s")
  obtain gone s2 where gone: "?remove s1 = (gone, s2)" by (cases "?remove s1")
  from run linked gone have rest: "(case linked of
         Inr True \<Rightarrow>
           fs_bind (fs_try (sync_directory (st_env st) ''sync published revision'')) (\<lambda>synced. case synced of
               Inr _ \<Rightarrow> fs_return (PublishedDurable r)
             | Inl _ \<Rightarrow> fs_return (PublishedUncertain r (PsCommittedButDurabilityUncertain nick r)))
       | Inr False \<Rightarrow> fs_return DestinationExists
       | Inl e \<Rightarrow> fs_fail e) s2 = (res, s')"
    by (simp add: publish_prepared_revision_def fs_bind_def)
  have c12: "calm st (fs_disk s1) (fs_disk s2)"
    using calm_of [OF remove_temporary_keeps gone [unfolded temp(1)] p] .
  note c2 = after_link_calm [OF rest p]
  have c1': "legal st (fs_disk s1) (fs_disk s')" using calm_trans [OF c12 c2(1)] by (rule calm_legal)
  show ?thesis
  proof (cases "linked = Inr True")
    case False
    have "legal st d0 (fs_disk s')"
      using legal_trans [OF calm_legal [OF calm_trans [OF base publish_new_file_result(1) [OF linked p False]]] c1'] .
    moreover from c2(3) [OF False] have "res = Inr DestinationExists \<or> (\<exists>e. res = Inl e)" .
    ultimately show ?thesis
      by (intro exI [of _ d0]) (auto simp: swap_done_def at_most_overtaken_def)
  next
    case True
    from publish_new_file_result(2) [OF linked p True] obtain d g where
      ds: "calm st (fs_disk s) d" and d: "file_at d (version_filename r) = None" "file_at d temporary = Some g"
        "fs_disk s1 = put_file (version_filename r) g d" by blast
    have d0: "calm st d0 d" using base ds by (rule calm_trans)
    have g: "g = f" using calm_own [OF d0, of n q] d(2) temp(2) unfolding temp(1) by auto
    from c2(2) True have res: "res = Inr (PublishedDurable r)
       \<or> res = Inr (PublishedUncertain r (PsCommittedButDurabilityUncertain nick r))" by simp
    have top: "top_revision d0 \<le> top_revision d" using legalD(2) [OF calm_legal [OF d0]] .
    show ?thesis
    proof (cases "top_revision d = top_revision d0")
      case True
      have "published_at st d r x (fs_disk s')"
        using c1' True next_top content g unfolding published_at_def d(3) by auto
      with res True d0 next_top show ?thesis
        by (intro exI [of _ d]) (auto simp: swap_done_def at_most_overtaken_def dest: calm_legal)
    next
      case False
      have "r \<noteq> 0" using next_top by auto
      have "unat r + retained_gap \<le> top_revision d"
        using legalD(5) [OF calm_legal [OF d0], of r] d(1) next_top False top by (simp add: revision_file_def)
      moreover have "top_revision d \<le> top_revision (fs_disk s1)"
      proof (cases "top_revision d = 0")
        case False
        from top_attained [OF this] obtain h where "unat h = top_revision d" "revision_file d h \<noteq> None" by blast
        with top_upper [of "fs_disk s1" h] show ?thesis
          by (simp add: d(3) revision_file_put [OF \<open>r \<noteq> 0\<close>] split: if_splits)
      qed simp
      ultimately have "overtaken r (fs_disk s')"
        using legalD(2) [OF c1'] by (simp add: overtaken_def)
      with res d0 next_top show ?thesis
        by (intro exI [of _ d]) (auto simp: swap_done_def at_most_overtaken_def dest: calm_legal)
    qed
  qed
qed

section \<open>Compare and swap\<close>

text \<open>What \<open>serde_json\<close> writes of a profile, with the line feed, is read back as that profile.\<close>

definition serde_round_trip :: "'p profile_store \<Rightarrow> bool" where
  "serde_round_trip st \<longleftrightarrow> (\<forall>p bytes. st_encode st p = Some bytes \<longrightarrow> st_decode st (bytes @ [10]) = Some p)"

lemma next_revision_top:
  assumes "next_revision nick (head_of (revisions_of d)) = Inr r"
  shows "unat r = Suc (top_revision d)"
proof (cases "head_of (revisions_of d)")
  case None
  with assms head_top_None [of d] show ?thesis by (simp add: next_revision_def)
next
  case (Some h)
  with assms have "h \<noteq> - 1" "r = h + 1" by (auto simp: next_revision_def checked_succ_def ok_or_Inr_iff split: if_splits)
  then have "unat r = Suc (unat h)" using unatSuc [of h] by (simp add: add.commute add_eq_0_iff)
  with head_top [OF Some] show ?thesis by simp
qed

lemma encoded_profile_content:
  assumes "encoded_profile st p = Inr bytes" "serde_round_trip st"
  shows "read_content st \<lparr>df_regular = True, df_bytes = bytes\<rparr> = Inr p"
  using assms by (auto simp: encoded_profile_def read_content_def serde_round_trip_def split: option.splits if_splits)

lemma drop_temporary_calm:
  assumes "fs_bind (fs_try (fs_remove (st_env st) operation (temporary_name n pid q))) (\<lambda>_. (fs_lift x :: 'a fs)) s = (res, s')"
    "peers_follow st"
  shows "calm st (fs_disk s) (fs_disk s')" "res = x"
proof -
  have "keeps (\<lambda>d d'. peers_follow st \<longrightarrow> calm st d d')
     (fs_bind (fs_try (fs_remove (st_env st) operation (temporary_name n pid q))) (\<lambda>_. fs_lift x :: 'a fs))"
    by (intro calm_run.keeps_bind calm_run.keeps_try remove_temporary_keeps calm_run.keeps_lift)
  then show "calm st (fs_disk s) (fs_disk s')" using assms by (rule calm_of)
  show "res = x" using assms(1) by (auto simp: fs_bind_def)
qed

lemma fs_return_lift: "fs_return x = fs_lift (Inr x)"
  by (rule ext) simp

lemma fs_fail_lift: "fs_fail e = fs_lift (Inl e)"
  by (rule ext) simp

lemma swap_tail_result:
  assumes run: "swap_tail st nick (sn_head_revision snap) (sn_revision snap) r temporary (revisions_of (fs_disk s)) s = (res, s')"
    and p: "peers_follow st" and keys: "keys_distinct (fs_disk s)"
    and snap: "snapshot_of st d0 snap" "legal st d0 (fs_disk s)"
    and temp: "temporary = temporary_name n (fe_process_id (st_env st)) q"
      "file_at (fs_disk s) temporary = None \<or> file_at (fs_disk s) temporary = Some f"
    and content: "read_content st f = Inr x" and next_r: "next_revision nick (sn_head_revision snap) = Inr r"
  shows "\<exists>d. legal st d0 d \<and> legal st (fs_disk s) d \<and> swap_done st nick d x res (fs_disk s')
    \<and> at_most_overtaken d0 d res (fs_disk s')"
proof (cases "head_of (revisions_of (fs_disk s)) = sn_head_revision snap")
  case False
  with run have "fs_bind (fs_try (fs_remove (st_env st) ''remove temporary file'' temporary)) (\<lambda>_.
       fs_lift (Inr DestinationExists)) s = (res, s')"
    by (simp add: swap_tail_def fs_return_lift del: fs_lift_simps fs_return_simps)
  from drop_temporary_calm [OF this [unfolded temp(1)] p] snap(2) show ?thesis
    by (intro exI [of _ "fs_disk s"]) (auto simp: swap_done_def at_most_overtaken_def dest: calm_legal)
next
  case True
  let ?rs = "revisions_of (fs_disk s)" and ?pre = "precompact_profile_revisions (st_env st)"
  have top: "top_revision (fs_disk s) = top_revision d0"
    using True snap(1) same_head_same_top [of "fs_disk s" d0] by (simp add: snapshot_of_def)
  have newest: "newest_is st (fs_disk s) (map_option (\<lambda>r. (r, sn_profile snap)) (sn_revision snap))"
    using newest_kept [OF snap(2) top] snap(1) by (simp add: snapshot_of_def)
  obtain out s1 where out: "?pre ?rs (sn_revision snap) s = (out, s1)" by (cases "?pre ?rs (sn_revision snap) s")
  have c1: "calm st (fs_disk s) (fs_disk s1)"
    by (rule precompact_calm [OF out p listing_compactable [OF keys newest]])
  show ?thesis
  proof (cases out)
    case (Inl e)
    with run out True have "fs_bind (fs_try (fs_remove (st_env st) ''remove temporary file'' temporary)) (\<lambda>_.
         fs_lift (Inl e)) s1 = (res, s')"
      by (simp add: swap_tail_def fs_bind_def fs_fail_lift del: fs_lift_simps fs_fail_simps)
    from drop_temporary_calm [OF this [unfolded temp(1)] p] snap(2) c1 show ?thesis
      by (intro exI [of _ "fs_disk s"]) (auto simp: swap_done_def at_most_overtaken_def dest: calm_legal intro: legal_trans)
  next
    case (Inr u)
    with run out True have pub: "publish_prepared_revision (st_env st) nick r temporary s1 = (res, s')"
      by (simp add: swap_tail_def fs_bind_def)
    have "unat r = Suc (top_revision (fs_disk s))"
      using next_r snap(1) next_revision_top [of nick d0 r] top by (simp add: snapshot_of_def)
    from publish_prepared_result [OF pub p temp content c1 this] obtain d where
      "legal st (fs_disk s) d" "swap_done st nick d x res (fs_disk s')" "at_most_overtaken (fs_disk s) d res (fs_disk s')"
      by blast
    with legal_trans [OF snap(2)] top show ?thesis by (auto simp: at_most_overtaken_def)
  qed
qed

lemma save_swap_result:
  assumes run: "save_compare_and_swap st nick x (sn_head_revision snap) (sn_revision snap) s = (res, s')"
    and p: "peers_follow st" and keys: "keys_distinct (fs_disk s)" and serde: "serde_round_trip st"
    and snap: "snapshot_of st d0 snap" "legal st d0 (fs_disk s)"
  shows "\<exists>d. legal st d0 d \<and> legal st (fs_disk s) d \<and> swap_done st nick d x res (fs_disk s')
    \<and> at_most_overtaken d0 d res (fs_disk s')"
proof -
  have fails: ?thesis if "res = Inl e" "legal st (fs_disk s) (fs_disk s')" for e
    using that snap(2) by (intro exI [of _ "fs_disk s"]) (auto simp: swap_done_def at_most_overtaken_def)
  obtain r0 s1 where s1: "resolve_directory st s = (r0, s1)" by (cases "resolve_directory st s")
  have d1: "fs_disk s1 = fs_disk s" using resolve_disk [of st s] s1 by simp
  show ?thesis
  proof (cases r0)
    case (Inl e)
    with run s1 d1 show ?thesis by (intro fails [of e]) (auto simp: save_compare_and_swap_def fs_bind_step)
  next
    case (Inr u)
    note run1 = run [unfolded save_compare_and_swap_def, unfolded fs_bind_step(1) [where m = "resolve_directory st" and s = s, OF s1 [unfolded Inr]]]
    show ?thesis
    proof (cases "next_revision nick (sn_head_revision snap)")
      case (Inl e)
      with run1 d1 show ?thesis by (intro fails [of e]) (auto simp: fs_bind_step)
    next
      case next_r: (Inr r)
      show ?thesis
      proof (cases "encoded_profile st x")
        case (Inl e)
        with run1 next_r d1 show ?thesis by (intro fails [of e]) (auto simp: fs_bind_step)
      next
        case bytes: (Inr bytes)
        let ?f = "\<lparr>df_regular = True, df_bytes = bytes\<rparr>"
        have content: "read_content st ?f = Inr x" by (rule encoded_profile_content [OF bytes serde])
        obtain tmp s2 where tmp: "write_unique_temporary max_temporary_file_attempts (st_env st)
            (version_filename r) bytes s1 = (tmp, s2)"
          by (cases "write_unique_temporary max_temporary_file_attempts (st_env st) (version_filename r) bytes s1")
        note w = write_temporary_result [OF tmp p, unfolded d1]
        show ?thesis
        proof (cases tmp)
          case (Inl e)
          with run1 next_r bytes tmp w show ?thesis by (intro fails [of e]) (auto simp: fs_bind_step)
        next
          case name: (Inr name)
          obtain listing s3 where listing: "revisions_descending (st_env st) s2 = (listing, s3)"
            by (cases "revisions_descending (st_env st) s2")
          have c23: "calm st (fs_disk s2) (fs_disk s3)"
            by (rule calm_of [OF calm_run.keeps_revisions_descending listing p])
          have l3: "legal st (fs_disk s) (fs_disk s3)" using w c23 by (auto dest: calm_legal intro: legal_trans)
          show ?thesis
          proof (cases listing)
            case (Inl e)
            with run1 next_r bytes tmp name listing l3 show ?thesis by (intro fails [of e]) (auto simp: fs_bind_step)
          next
            case rs: (Inr rs)
            have "rs = revisions_of (fs_disk s3)" by (rule revisions_descending_result [OF listing [unfolded rs]])
            with run1 next_r bytes tmp name listing rs have tail:
              "swap_tail st nick (sn_head_revision snap) (sn_revision snap) r name (revisions_of (fs_disk s3)) s3 = (res, s')"
              by (simp add: fs_bind_step)
            from w name obtain q where q: "name = temporary_name (version_filename r) (fe_process_id (st_env st)) q"
              "file_at (fs_disk s2) name = Some ?f" by auto
            have "file_at (fs_disk s3) name = None \<or> file_at (fs_disk s3) name = Some ?f"
              using calm_own [OF c23, of "version_filename r" q] q by auto
            from swap_tail_result [OF tail p legalD(1) [OF l3 keys] snap(1) legal_trans [OF snap(2) l3] q(1) this content next_r]
            show ?thesis using legal_trans [OF l3] by blast
          qed
        qed
      qed
    qed
  qed
qed

end
