(* ===== verification/StoreQuiet.thy ===== *)
theory StoreQuiet
  imports StorePublish
begin

text \<open>
  The profile store while no other process publishes, as under the exclusive lease of a
  server: an operation adds exactly the revision it answers with.
\<close>

locale disk_writes = disk_relation +
  assumes R_put_dotted: "R d (put_file (46 # rest) f d)"
    and R_drop_revision: "R d (drop_file (version_filename r) d)"
begin

lemma keeps_write_temporary: "keeps R (write_unique_temporary attempts env final_name bytes)"
proof (induction attempts)
  case (Suc attempts)
  show ?case
    unfolding keeps_def
  proof
    fix s :: fs_state
    let ?name = "temporary_name final_name (fe_process_id env) (fs_sequence s)"
    let ?put_temporary = "\<lambda>d. if file_at d ?name \<noteq> None then (Inr False, d)
          else (Inr True, put_file ?name \<lparr>df_regular = True, df_bytes = bytes\<rparr> d) :: (store_error + bool) \<times> disk"
    have "R d (snd (?put_temporary d))" for d
      by (simp add: R_refl R_put_dotted temporary_name_def)
    then have wrote: "keeps R (fs_try (fs_access env ''write temporary immutable file'' ?put_temporary))"
      by (intro keeps_try keeps_access)
    have remove: "keeps R (fs_remove env operation ?name)" for operation
      by (rule keeps_remove) (simp add: temporary_name_def R_drop_dotted)
    let ?after = "\<lambda>result. case result of
            Inr True \<Rightarrow> fs_return ?name
          | Inr False \<Rightarrow> write_unique_temporary attempts env final_name bytes
          | Inl e \<Rightarrow> fs_bind (fs_try (fs_remove env ''remove temporary file'' ?name)) (\<lambda>_. fs_fail e)"
    have after: "keeps R (?after result)" for result
      using Suc by (auto simp: keeps_return keeps_fail split: sum.split bool.split
          intro!: keeps_bind keeps_try remove simp del: fs_return_simps fs_fail_simps)
    have k: "keeps R (fs_bind (fs_try (fs_access env ''write temporary immutable file'' ?put_temporary)) ?after)"
      by (rule keeps_bind [OF wrote after])
    have "R (fs_disk (s\<lparr>fs_sequence := fs_sequence s + 1\<rparr>))
       (fs_disk (snd (write_unique_temporary (Suc attempts) env final_name bytes s)))"
      using spec [OF k [unfolded keeps_def], of "s\<lparr>fs_sequence := fs_sequence s + 1\<rparr>"]
      unfolding write_unique_temporary.simps Let_def .
    then show "R (fs_disk s) (fs_disk (snd (write_unique_temporary (Suc attempts) env final_name bytes s)))" by simp
  qed
qed (simp add: keeps_fail del: fs_fail_simps)

lemma keeps_remove_old: "keeps R (remove_old_revisions env slots ps rs changed)"
proof (induction rs arbitrary: slots changed)
  case (Cons r rs)
  have "keeps R (fs_remove env operation (version_filename r))" for operation
    by (rule keeps_remove) (rule R_drop_revision)
  with Cons show ?case by (simp add: keeps_bind)
qed (simp add: keeps_return)

lemma keeps_precompact: "keeps R (precompact_profile_revisions env rs ps)"
  unfolding precompact_profile_revisions_def
  by (intro keeps_bind keeps_remove_old) (simp add: keeps_sync keeps_return)

end

interpretation shrink_run: disk_writes "\<lambda>d d'. peers_publish_nothing st \<longrightarrow> shrinks d d'" "st_env st" for st
  by unfold_locales (auto simp: shrinks_def revision_file_def split: if_splits)

definition adds :: "u64 option \<Rightarrow> disk \<Rightarrow> disk \<Rightarrow> bool" where
  "adds x d d' \<longleftrightarrow> (\<forall>r. revision_file d' r \<noteq> None \<longrightarrow> revision_file d r \<noteq> None \<or> x = Some r)"

lemma shrinks_adds: "shrinks d d' \<Longrightarrow> adds x d d'"
  by (auto simp: shrinks_def adds_def)

lemma adds_after: "shrinks a b \<Longrightarrow> adds x b c \<Longrightarrow> adds x a c"
  by (auto simp: shrinks_def adds_def)

lemma adds_before: "adds x a b \<Longrightarrow> shrinks b c \<Longrightarrow> adds x a c"
  by (auto simp: shrinks_def adds_def)

lemma shrink_of:
  assumes "keeps (\<lambda>d d'. peers_publish_nothing st \<longrightarrow> shrinks d d') m" "m s = (x, s')" "peers_publish_nothing st"
  shows "shrinks (fs_disk s) (fs_disk s')"
  using keepsD [OF assms(1,2)] assms(3) by simp

text \<open>Operations whose result says what they added.\<close>

definition adds_result :: "'p profile_store \<Rightarrow> ('a \<Rightarrow> u64 option) \<Rightarrow> 'a fs \<Rightarrow> bool" where
  "adds_result st g m \<longleftrightarrow> (\<forall>s. peers_publish_nothing st \<longrightarrow>
     adds (case fst (m s) of Inl _ \<Rightarrow> None | Inr x \<Rightarrow> g x) (fs_disk s) (fs_disk (snd (m s))))"

lemma adds_result_keeps:
  "keeps (\<lambda>d d'. peers_publish_nothing st \<longrightarrow> shrinks d d') m \<Longrightarrow> adds_result st g m"
  by (auto simp: adds_result_def keeps_def intro: shrinks_adds)

lemma adds_result_bind:
  assumes "keeps (\<lambda>d d'. peers_publish_nothing st \<longrightarrow> shrinks d d') m" "\<And>x. adds_result st g (f x)"
  shows "adds_result st g (fs_bind m f)"
  unfolding adds_result_def
proof (intro allI impI)
  fix s
  assume q: "peers_publish_nothing st"
  obtain r s1 where r: "m s = (r, s1)" by (cases "m s")
  have sh: "shrinks (fs_disk s) (fs_disk s1)" by (rule shrink_of [OF assms(1) r q])
  show "adds (case fst (fs_bind m f s) of Inl _ \<Rightarrow> None | Inr x \<Rightarrow> g x) (fs_disk s) (fs_disk (snd (fs_bind m f s)))"
  proof (cases r)
    case (Inl e)
    with r sh show ?thesis by (simp add: fs_bind_step shrinks_adds)
  next
    case (Inr x)
    have "adds (case fst (f x s1) of Inl _ \<Rightarrow> None | Inr x \<Rightarrow> g x) (fs_disk s1) (fs_disk (snd (f x s1)))"
      using assms(2) [of x] q unfolding adds_result_def by blast
    from adds_after [OF sh this] r Inr show ?thesis by (simp add: fs_bind_step)
  qed
qed

lemma adds_None: "adds None d d' \<longleftrightarrow> shrinks d d'"
  by (simp add: adds_def shrinks_def)

lemma adds_result_cases:
  assumes "adds_result st g m" "\<And>x. g x = None \<Longrightarrow> adds_result st h (f x)"
    "\<And>x. g x \<noteq> None \<Longrightarrow> keeps (\<lambda>d d'. peers_publish_nothing st \<longrightarrow> shrinks d d') (f x)"
    "\<And>x s. g x \<noteq> None \<Longrightarrow> \<exists>y. fst (f x s) = Inr y \<and> h y = g x"
  shows "adds_result st h (fs_bind m f)"
  unfolding adds_result_def
proof (intro allI impI)
  fix s
  assume q: "peers_publish_nothing st"
  obtain r s1 where r: "m s = (r, s1)" by (cases "m s")
  have ad: "adds (case r of Inl _ \<Rightarrow> None | Inr x \<Rightarrow> g x) (fs_disk s) (fs_disk s1)"
    using assms(1) q r unfolding adds_result_def by (metis fst_conv snd_conv)
  show "adds (case fst (fs_bind m f s) of Inl _ \<Rightarrow> None | Inr x \<Rightarrow> h x) (fs_disk s) (fs_disk (snd (fs_bind m f s)))"
  proof (cases r)
    case (Inl e)
    with r ad show ?thesis by (simp add: fs_bind_step)
  next
    case (Inr x)
    obtain y s2 where y: "f x s1 = (y, s2)" by (cases "f x s1")
    from r Inr y have run: "fs_bind m f s = (y, s2)" by (simp add: fs_bind_step)
    show ?thesis
    proof (cases "g x")
      case None
      from assms(2) [OF None] q have "adds (case fst (f x s1) of Inl _ \<Rightarrow> None | Inr x \<Rightarrow> h x) (fs_disk s1) (fs_disk (snd (f x s1)))"
        unfolding adds_result_def by blast
      with ad Inr None y show ?thesis unfolding run by (auto simp: adds_None intro: adds_after)
    next
      case (Some v)
      have "shrinks (fs_disk s1) (fs_disk s2)"
        by (rule shrink_of [OF assms(3) y q]) (simp add: Some)
      with ad Inr have "adds (g x) (fs_disk s) (fs_disk s2)" by (auto intro: adds_before)
      with assms(4) [of x s1] y Some show ?thesis unfolding run by auto
    qed
  qed
qed

fun published_revision :: "publish_outcome \<Rightarrow> u64 option" where
  "published_revision (PublishedDurable r) = Some r"
| "published_revision (PublishedUncertain r _) = Some r"
| "published_revision DestinationExists = None"

fun link_revision :: "u64 \<Rightarrow> store_error + bool \<Rightarrow> u64 option" where
  "link_revision r (Inr True) = Some r"
| "link_revision r _ = None"

lemma publish_new_file_adds:
  "adds_result st (link_revision r) (fs_try (publish_new_file (st_env st) temporary (version_filename r)))"
  unfolding adds_result_def
proof (intro allI impI)
  fix s
  assume q: "peers_publish_nothing st"
  let ?link = "\<lambda>d. if file_at d (version_filename r) \<noteq> None then (Inr False, d)
        else (case file_at d temporary of
            None \<Rightarrow> (Inl (PsIo ''publish profile revision''), d)
          | Some f \<Rightarrow> (Inr True, put_file (version_filename r) f d)) :: (store_error + bool) \<times> disk"
  let ?rest = "\<lambda>result. case result of
         Inr linked \<Rightarrow> fs_return linked
       | Inl e \<Rightarrow>
           fs_bind (fs_try (fs_look (st_env st) ''inspect destination'' (\<lambda>d. Inr (file_at d (version_filename r) \<noteq> None))))
             (\<lambda>present. if present = Inr True then fs_return False else fs_fail e)"
  let ?acc = "fs_access (st_env st) ''publish profile revision'' ?link"
  obtain out s1 where out: "?acc s = (out, s1)" by (cases "?acc s")
  have peers: "shrinks (fs_disk s) (fe_peers (st_env st) (fs_tick s) (fs_disk s))"
    using q by (simp add: peers_publish_nothing_def)
  have linked: "adds (link_revision r out) (fs_disk s) (fs_disk s1)"
  proof (cases "out = Inr True")
    case True
    with access_cases [OF out] obtain f where
      "fs_disk s1 = put_file (version_filename r) f (fe_peers (st_env st) (fs_tick s) (fs_disk s))"
      by (auto split: if_splits option.splits)
    with True peers show ?thesis
      by (auto simp: adds_def shrinks_def revision_file_def version_filename_inject split: if_splits)
  next
    case False
    with access_cases [OF out] have "fs_disk s1 = fe_peers (st_env st) (fs_tick s) (fs_disk s)"
      by (auto split: if_splits option.splits)
    with peers show ?thesis by (simp add: shrinks_adds)
  qed
  have run: "publish_new_file (st_env st) temporary (version_filename r) s = ?rest out s1"
    unfolding publish_new_file_def using out by (simp add: fs_bind_step(1) del: not_None_eq)
  show "adds (case fst (fs_try (publish_new_file (st_env st) temporary (version_filename r)) s) of Inl _ \<Rightarrow> None
      | Inr x \<Rightarrow> link_revision r x) (fs_disk s)
      (fs_disk (snd (fs_try (publish_new_file (st_env st) temporary (version_filename r)) s)))"
  proof (cases out)
    case (Inr b)
    with run linked show ?thesis by simp
  next
    case (Inl e)
    have "keeps (\<lambda>d d'. peers_publish_nothing st \<longrightarrow> shrinks d d') (if x then fs_return False else fs_fail e)" for x
      by (simp add: shrink_run.keeps_return shrink_run.keeps_fail del: fs_return_simps fs_fail_simps)
    then have "keeps (\<lambda>d d'. peers_publish_nothing st \<longrightarrow> shrinks d d') (?rest out)"
      unfolding Inl sum.case by (intro shrink_run.keeps_bind shrink_run.keeps_try shrink_run.keeps_look)
    with q have "shrinks (fs_disk s1) (fs_disk (snd (?rest out s1)))" unfolding keeps_def by blast
    with linked Inl have "shrinks (fs_disk s) (fs_disk (snd (?rest out s1)))"
      by (auto simp: adds_def shrinks_def)
    then show ?thesis unfolding fs_try_simps run fst_conv snd_conv sum.case by (rule shrinks_adds)
  qed
qed

lemma remove_temporary_shrinks:
  "keeps (\<lambda>d d'. peers_publish_nothing st \<longrightarrow> shrinks d d') (fs_remove (st_env st) operation name)"
  by (rule shrink_run.keeps_remove) (auto simp: shrinks_def revision_file_def split: if_splits)

lemma publish_prepared_adds:
  "adds_result st published_revision (publish_prepared_revision (st_env st) nick r temporary)"
proof -
  let ?after = "\<lambda>linked. case linked of
         Inr True \<Rightarrow>
           fs_bind (fs_try (sync_directory (st_env st) ''sync published revision'')) (\<lambda>synced. case synced of
               Inr _ \<Rightarrow> fs_return (PublishedDurable r)
             | Inl _ \<Rightarrow> fs_return (PublishedUncertain r (PsCommittedButDurabilityUncertain nick r)))
       | Inr False \<Rightarrow> fs_return DestinationExists
       | Inl e \<Rightarrow> fs_fail e"
  let ?cont = "\<lambda>linked. fs_bind (fs_try (fs_remove (st_env st) ''remove temporary file'' temporary)) (\<lambda>_. ?after linked)"
  have synced: "keeps (\<lambda>d d'. peers_publish_nothing st \<longrightarrow> shrinks d d') (case synced of
               Inr _ \<Rightarrow> fs_return (PublishedDurable r)
             | Inl _ \<Rightarrow> fs_return (PublishedUncertain r (PsCommittedButDurabilityUncertain nick r)))"
    for synced :: "store_error + unit"
    by (cases synced) (simp_all add: shrink_run.keeps_return del: fs_return_simps)
  have after: "keeps (\<lambda>d d'. peers_publish_nothing st \<longrightarrow> shrinks d d') (?after linked)" for linked
    by (cases linked) (auto simp: shrink_run.keeps_return shrink_run.keeps_fail simp del: fs_return_simps fs_fail_simps
        intro!: shrink_run.keeps_bind shrink_run.keeps_try shrink_run.keeps_sync synced split: bool.split)
  show ?thesis
    unfolding publish_prepared_revision_def
  proof (rule adds_result_cases [OF publish_new_file_adds])
    show "keeps (\<lambda>d d'. peers_publish_nothing st \<longrightarrow> shrinks d d') (?cont linked)" for linked
      by (intro shrink_run.keeps_bind shrink_run.keeps_try remove_temporary_shrinks after)
    then show "adds_result st published_revision (?cont linked)" for linked by (rule adds_result_keeps)
    show "\<exists>y. fst (?cont linked s) = Inr y \<and> published_revision y = link_revision r linked"
      if "link_revision r linked \<noteq> None" for linked s
    proof -
      from that have "linked = Inr True" by (cases linked; cases "projr linked") auto
      then show ?thesis by (auto simp: fs_bind_def split: sum.split)
    qed
  qed
qed

lemma swap_tail_adds:
  "adds_result st published_revision (swap_tail st nick head ps r temporary rs)"
proof (cases "head_of rs = head")
  case False
  then show ?thesis
    by (simp add: swap_tail_def adds_result_keeps shrink_run.keeps_bind shrink_run.keeps_try remove_temporary_shrinks
        shrink_run.keeps_return del: fs_return_simps fs_try_simps)
next
  case True
  have "adds_result st published_revision (case c of
          Inl e \<Rightarrow> fs_bind (fs_try (fs_remove (st_env st) ''remove temporary file'' temporary)) (\<lambda>_. fs_fail e)
        | Inr _ \<Rightarrow> publish_prepared_revision (st_env st) nick r temporary)" for c :: "store_error + unit"
    by (cases c) (simp_all add: adds_result_keeps shrink_run.keeps_bind shrink_run.keeps_try remove_temporary_shrinks
        shrink_run.keeps_fail publish_prepared_adds del: fs_fail_simps fs_try_simps)
  with True show ?thesis
    by (simp add: swap_tail_def adds_result_bind shrink_run.keeps_try shrink_run.keeps_precompact del: fs_try_simps)
qed

lemma save_swap_adds:
  "adds_result st published_revision (save_compare_and_swap st nick p head ps)"
  unfolding save_compare_and_swap_def
  by (intro adds_result_bind shrink_run.keeps_resolve shrink_run.keeps_lift shrink_run.keeps_write_temporary
      shrink_run.keeps_revisions_descending swap_tail_adds)

end
