(* ===== verification/StoreTransactions.thy ===== *)
theory StoreTransactions
  imports StoreQuiet
begin

text \<open>
  Transactions of the profile store after any number of attempts: each ends in a legal
  change of the directory; one that answers unchanged has read a profile that was visible
  during it; one that commits has published the image of the profile that was visible when
  it published, unless sixty-two other revisions overtook it.  While no other process
  publishes, a failing or unchanged transaction leaves what a reader sees, and a commit was
  computed from what a reader saw before it.
\<close>

text \<open>What a transaction with closure \<open>f\<close> that started on directory \<open>d\<close> has done when it answers.\<close>

definition settled :: "'p profile_store \<Rightarrow> disk \<Rightarrow> disk \<Rightarrow> bool" where
  "settled st d d' \<longleftrightarrow> legal st d d' \<and> (peers_publish_nothing st \<longrightarrow> shrinks d d')"

definition tx_committed ::
  "'p profile_store \<Rightarrow> disk \<Rightarrow> ('p \<Rightarrow> ('v, 'p) profile_mutation) \<Rightarrow> 'v \<Rightarrow> 'p \<Rightarrow> u64 \<Rightarrow> disk \<Rightarrow> bool" where
  "tx_committed st d f v p r d' \<longleftrightarrow>
     ((\<exists>c old. legal st d c \<and> visible_profile st c = Some old \<and> f old = MutationChanged v p
         \<and> published_at st c r p d')
      \<or> top_revision d < unat r \<and> overtaken r d')
     \<and> (peers_publish_nothing st \<longrightarrow> adds (Some r) d d')"

definition tx_unchanged ::
  "'p profile_store \<Rightarrow> disk \<Rightarrow> ('p \<Rightarrow> ('v, 'p) profile_mutation) \<Rightarrow> 'v \<Rightarrow> 'p \<Rightarrow> disk \<Rightarrow> bool" where
  "tx_unchanged st d f v p d' \<longleftrightarrow>
     settled st d d' \<and>
     (\<exists>c. legal st d c \<and> legal st c d' \<and> visible_profile st c = Some p \<and> f p = MutationUnchanged v)"

definition tx_done ::
  "'p profile_store \<Rightarrow> ustring \<Rightarrow> disk \<Rightarrow> ('p \<Rightarrow> ('v, 'p) profile_mutation) \<Rightarrow>
     store_error + ('v, 'p) profile_transaction \<Rightarrow> disk \<Rightarrow> bool" where
  "tx_done st nick d f res d' \<longleftrightarrow> (case res of
       Inl e \<Rightarrow> settled st d d'
     | Inr (TxUnchanged v p saved) \<Rightarrow> tx_unchanged st d f v p d'
     | Inr (TxCommitted v p saved) \<Rightarrow> fst saved = nick \<and> tx_committed st d f v p (snd saved) d'
     | Inr (TxDurabilityUncertain v p saved e) \<Rightarrow> fst saved = nick \<and>
         e = PsCommittedButDurabilityUncertain nick (snd saved) \<and>
         (tx_unchanged st d f v p d' \<or> tx_committed st d f v p (snd saved) d'))"

lemma settled_trans: "settled st a b \<Longrightarrow> settled st b c \<Longrightarrow> settled st a c"
  by (auto simp: settled_def shrinks_def intro: legal_trans)

lemma settled_of:
  assumes "keeps (\<lambda>d d'. peers_follow st \<longrightarrow> calm st d d') m"
    "keeps (\<lambda>d d'. peers_publish_nothing st \<longrightarrow> shrinks d d') m" "m s = (x, s')" "peers_follow st"
  shows "settled st (fs_disk s) (fs_disk s')"
  using calm_of [OF assms(1,3,4)] shrink_of [OF assms(2,3)] by (simp add: settled_def calm_legal)

lemma tx_done_later:
  assumes "settled st a d" "tx_done st nick d f res d'"
  shows "tx_done st nick a f res d'"
proof -
  have l: "legal st a d" and sh: "peers_publish_nothing st \<Longrightarrow> shrinks a d"
    using assms(1) by (auto simp: settled_def)
  have c: "tx_committed st d f v p r d' \<Longrightarrow> tx_committed st a f v p r d'" for v p r
    using legal_trans [OF l] legalD(2) [OF l] sh adds_after by (fastforce simp: tx_committed_def)
  have u: "tx_unchanged st d f v p d' \<Longrightarrow> tx_unchanged st a f v p d'" for v p
    using legal_trans [OF l] settled_trans [OF assms(1)] by (auto simp: tx_unchanged_def)
  show ?thesis
  proof (cases res)
    case (Inl e)
    with assms show ?thesis by (auto simp: tx_done_def intro: settled_trans)
  next
    case (Inr out)
    with assms(2) c u show ?thesis by (cases out) (auto simp: tx_done_def)
  qed
qed

lemma confirm_result:
  assumes "confirm_snapshot_durability st nick snap s = (res, s')"
  shows "case res of Inl e \<Rightarrow> (\<exists>r. sn_revision snap = Some r \<and> e = PsCommittedButDurabilityUncertain nick r)
    | Inr saved \<Rightarrow> saved = map_option (\<lambda>r. (nick, r)) (sn_revision snap)"
  using assms
  by (cases "sn_revision snap")
    (auto simp: confirm_snapshot_durability_def saved_profile_from_snapshot_def fs_bind_def split: sum.splits)

lemma commit_of_swap:
  assumes snap: "snapshot_of st c snap" "legal st d0 c" and f: "f (sn_profile snap) = MutationChanged v p"
    and d: "legal st c d" "published_at st d r p d' \<or> overtaken r d'"
      "unat r = Suc (top_revision c)" "overtaken r d' \<or> top_revision d = top_revision c"
    and ad: "peers_publish_nothing st \<Longrightarrow> adds (Some r) d0 d'"
  shows "tx_committed st d0 f v p r d'"
proof (cases "overtaken r d'")
  case True
  with d(3) legalD(2) [OF snap(2)] ad show ?thesis by (simp add: tx_committed_def)
next
  case False
  with d have "published_at st d r p d'" "top_revision d = top_revision c" by auto
  moreover have "visible_profile st d = Some (sn_profile snap)"
    using visible_kept [OF d(1)] snap(1) \<open>top_revision d = top_revision c\<close> by (simp add: snapshot_of_def)
  ultimately show ?thesis using legal_trans [OF snap(2) d(1)] f ad by (auto simp: tx_committed_def)
qed

lemma transaction_attempts_result:
  assumes "transaction_attempts k st nick None (\<lambda>snap _. Inr (f (sn_profile snap))) s = (res, s')"
    and p: "peers_follow st" and serde: "serde_round_trip st" and "keys_distinct (fs_disk s)"
  shows "tx_done st nick (fs_disk s) f res (fs_disk s')"
  using assms(1,4)
proof (induction k arbitrary: s)
  case 0
  then show ?case by (auto simp: tx_done_def settled_def shrinks_def)
next
  case (Suc k)
  obtain loaded s1 where load: "load_or_default_from_disk st s = (loaded, s1)"
    by (cases "load_or_default_from_disk st s")
  have st01: "settled st (fs_disk s) (fs_disk s1)"
    by (rule settled_of [OF calm_run.keeps_load [OF refl] shrink_run.keeps_load [OF refl] load p])
  show ?case
  proof (cases loaded)
    case (Inl e)
    with Suc.prems(1) load st01 show ?thesis by (auto simp: fs_bind_step tx_done_def)
  next
    case (Inr snap)
    from load_result [OF load [unfolded Inr] p] obtain c where
      c: "calm st (fs_disk s) c" "calm st c (fs_disk s1)" and snap: "snapshot_of st c snap" by blast
    note lc = calm_legal [OF c(1)] calm_legal [OF c(2)]
    have keys1: "keys_distinct (fs_disk s1)" using legalD(1) [OF _ Suc.prems(2)] st01 by (auto simp: settled_def)
    show ?thesis
    proof (cases "f (sn_profile snap)")
      case (MutationUnchanged v)
      obtain conf s2 where conf: "confirm_snapshot_durability st nick snap s1 = (conf, s2)"
        by (cases "confirm_snapshot_durability st nick snap s1")
      have l2: "legal st c (fs_disk s2)"
        using legal_trans [OF lc(2) calm_legal [OF calm_of [OF calm_run.keeps_confirm [OF refl] conf p]]] .
      have u: "tx_unchanged st (fs_disk s) f v (sn_profile snap) (fs_disk s2)"
        using lc(1) l2 snap MutationUnchanged settled_trans [OF st01
            settled_of [OF calm_run.keeps_confirm [OF refl] shrink_run.keeps_confirm [OF refl] conf p]]
        by (auto simp: tx_unchanged_def snapshot_of_def)
      show ?thesis
      proof (cases conf)
        case (Inl e)
        with confirm_result [OF conf] obtain r where r: "sn_revision snap = Some r"
          "e = PsCommittedButDurabilityUncertain nick r" by auto
        with Suc.prems(1) load Inr MutationUnchanged conf Inl u show ?thesis
          by (auto simp: fs_bind_step fs_bind_def saved_profile_from_snapshot_def tx_done_def)
      next
        case (Inr saved)
        with Suc.prems(1) load \<open>loaded = Inr snap\<close> MutationUnchanged conf u show ?thesis
          by (auto simp: fs_bind_def tx_done_def)
      qed
    next
      case (MutationChanged v x)
      obtain out s2 where out: "save_compare_and_swap st nick x (sn_head_revision snap) (sn_revision snap) s1 = (out, s2)"
        by (cases "save_compare_and_swap st nick x (sn_head_revision snap) (sn_revision snap) s1")
      from save_swap_result [OF out p keys1 serde snap lc(2)] obtain d where
        d: "legal st c d" "legal st (fs_disk s1) d" and swap: "swap_done st nick d x out (fs_disk s2)"
        and ot: "at_most_overtaken c d out (fs_disk s2)" by blast
      have ld: "legal st (fs_disk s) d" by (rule legal_trans [OF lc(1) d(1)])
      have rest: "(case out of Inl e \<Rightarrow> (Inl e, s2) | Inr o' \<Rightarrow> (case o' of
               PublishedDurable r \<Rightarrow> fs_return (TxCommitted v x (nick, r))
             | PublishedUncertain r e \<Rightarrow> fs_return (TxDurabilityUncertain v x (nick, r) e)
             | DestinationExists \<Rightarrow> transaction_attempts k st nick None (\<lambda>snap _. Inr (f (sn_profile snap)))) s2) = (res, s')"
        using Suc.prems(1) load Inr MutationChanged out by (cases out) (simp_all add: fs_bind_step fs_bind_def)
      have ad: "adds (case out of Inl _ \<Rightarrow> None | Inr o' \<Rightarrow> published_revision o') (fs_disk s) (fs_disk s2)"
        if "peers_publish_nothing st"
        using save_swap_adds [of st nick x "sn_head_revision snap" "sn_revision snap"] out that st01 adds_after
        by (fastforce simp: adds_result_def settled_def)
      note commit = commit_of_swap [where f = f, OF snap lc(1) MutationChanged d(1)]
      show ?thesis
      proof (cases out)
        case (Inl e)
        with swap rest ld ad show ?thesis
          by (auto simp: swap_done_def tx_done_def settled_def adds_None intro: legal_trans)
      next
        case o': (Inr o')
        show ?thesis
        proof (cases o')
          case (PublishedDurable r)
          with o' swap ot commit [of r "fs_disk s2"] rest ad show ?thesis
            by (auto simp: swap_done_def at_most_overtaken_def tx_done_def)
        next
          case (PublishedUncertain r e)
          with o' swap ot commit [of r "fs_disk s2"] rest ad show ?thesis
            by (auto simp: swap_done_def at_most_overtaken_def tx_done_def)
        next
          case DestinationExists
          with o' swap ad have st2: "settled st (fs_disk s) (fs_disk s2)"
            using legal_trans [OF ld] by (simp add: swap_done_def settled_def adds_None)
          then have l2: "legal st (fs_disk s) (fs_disk s2)" by (simp add: settled_def)
          from DestinationExists o' rest have
            "transaction_attempts k st nick None (\<lambda>snap _. Inr (f (sn_profile snap))) s2 = (res, s')" by simp
          from tx_done_later [OF st2 Suc.IH [OF this legalD(1) [OF l2 Suc.prems(2)]]] show ?thesis .
        qed
      qed
    qed
  qed
qed

section \<open>Transactions under an exclusive lease\<close>

lemma legal_shrinks_top:
  assumes "legal st d d'" "shrinks d d'"
  shows "top_revision d' = top_revision d"
proof (cases "top_revision d' = 0")
  case True
  with legalD(2) [OF assms(1)] show ?thesis by simp
next
  case False
  from top_attained [OF this] obtain r where r: "unat r = top_revision d'" "revision_file d' r \<noteq> None" by blast
  with assms(2) have "revision_file d r \<noteq> None" by (auto simp: shrinks_def)
  from top_upper [OF this] r legalD(2) [OF assms(1)] show ?thesis by simp
qed

lemma adds_top:
  assumes "adds (Some r) d d'" "top_revision d < unat r"
  shows "top_revision d' \<le> unat r"
proof (cases "top_revision d' = 0")
  case False
  from top_attained [OF this] obtain q where q: "unat q = top_revision d'" "revision_file d' q \<noteq> None" by blast
  with assms(1) have "revision_file d q \<noteq> None \<or> q = r" by (auto simp: adds_def)
  with q assms(2) top_upper [of d q] show ?thesis by auto
qed simp

text \<open>A commit on a quiet disk was computed from the profile that was visible at the start.\<close>

lemma quiet_commit:
  assumes com: "tx_committed st d f v p r d'" and quiet: "peers_publish_nothing st"
  shows "\<exists>old. visible_profile st d = Some old \<and> f old = MutationChanged v p \<and> unat r = Suc (top_revision d)
    \<and> visible_profile st d' = Some p \<and> top_revision d' = unat r \<and> legal st d d'"
proof -
  have ad: "adds (Some r) d d'" using com quiet by (simp add: tx_committed_def)
  have not_overtaken: "\<not> (top_revision d < unat r \<and> overtaken r d')"
    using adds_top [OF ad] retained_gap_pos by (auto simp: overtaken_def)
  with com obtain c old g where c: "legal st d c" "visible_profile st c = Some old" "f old = MutationChanged v p"
    and g: "unat r = Suc (top_revision c)" "read_content st g = Inr p" "legal st (put_file (version_filename r) g c) d'"
    by (auto simp: tx_committed_def published_at_def)
  have le: "top_revision d \<le> top_revision c" by (rule legalD(2) [OF c(1)])
  have r0: "r \<noteq> 0" using g(1) by auto
  have below: "top_revision d' \<le> unat r" using adds_top [OF ad] le g(1) by simp
  have topput: "top_revision (put_file (version_filename r) g c) = unat r" by (rule publish_top [OF g(1)])
  with legalD(2) [OF g(3)] below have top': "top_revision d' = unat r" by simp
  have "top_revision c = top_revision d"
  proof (cases "top_revision c = 0")
    case False
    from top_attained [OF this] obtain q where q: "unat q = top_revision c" "revision_file c q \<noteq> None" by blast
    have "q \<noteq> r" using q(1) g(1) by auto
    with q(2) have "revision_file (put_file (version_filename r) g c) q \<noteq> None" by (simp add: revision_file_put [OF r0])
    then obtain h where "revision_file (put_file (version_filename r) g c) q = Some h" by auto
    from legalD(3) [OF g(3) this] have "revision_file d' q \<noteq> None"
      using top' q(1) g(1) retained_gap_pos by (auto simp: retained_gap_def profile_revision_retention_def)
    with ad \<open>q \<noteq> r\<close> have "revision_file d q \<noteq> None" by (auto simp: adds_def)
    from top_upper [OF this] q(1) le show ?thesis by simp
  qed (use le in simp)
  with visible_kept [OF c(1)] c(2) have "visible_profile st d = Some old" by simp
  moreover have "visible_profile st d' = Some p"
    using visible_kept [OF g(3)] publish_visible [OF g(1,2)] top' topput by simp
  moreover have "legal st d d'" using legal_trans [OF c(1) legal_trans [OF publish_legal [OF g(1)] g(3)]] .
  ultimately show ?thesis using c(3) g(1) top' \<open>top_revision c = top_revision d\<close> by auto
qed

lemma quiet_unchanged:
  assumes un: "tx_unchanged st d f v p d'" and quiet: "peers_publish_nothing st"
  shows "visible_profile st d = Some p \<and> visible_profile st d' = Some p \<and> f p = MutationUnchanged v"
proof -
  from un quiet obtain c where c: "legal st d c" "legal st c d'" "visible_profile st c = Some p" "f p = MutationUnchanged v"
    and l: "legal st d d'" and sh: "shrinks d d'"
    by (auto simp: tx_unchanged_def settled_def)
  have "top_revision d' = top_revision d" by (rule legal_shrinks_top [OF l sh])
  with legalD(2) [OF c(1)] legalD(2) [OF c(2)] have "top_revision c = top_revision d" "top_revision d' = top_revision c"
    by simp_all
  with visible_kept [OF c(1)] visible_kept [OF c(2)] c(3,4) show ?thesis by simp
qed

lemma quiet_settled:
  assumes "settled st d d'" "peers_publish_nothing st"
  shows "visible_profile st d' = visible_profile st d"
  using assms legal_shrinks_top [of st d d'] visible_kept [of st d d'] by (auto simp: settled_def)

text \<open>A commit that happened at one moment: \<open>c\<close> is the directory just before it.\<close>

definition commits_atomically ::
  "'p profile_store \<Rightarrow> disk \<Rightarrow> ('p \<Rightarrow> ('v, 'p) profile_mutation) \<Rightarrow> 'v \<Rightarrow> 'p \<Rightarrow> u64 \<Rightarrow> disk \<Rightarrow> bool" where
  "commits_atomically st d f v p r d' \<longleftrightarrow>
     (\<exists>c old file. legal st d c \<and> visible_profile st c = Some old \<and> f old = MutationChanged v p
        \<and> unat r = Suc (top_revision c)
        \<and> visible_profile st (put_file (version_filename r) file c) = Some p
        \<and> legal st (put_file (version_filename r) file c) d')"

text \<open>A read that happened at one moment.\<close>

definition reads_atomically ::
  "'p profile_store \<Rightarrow> disk \<Rightarrow> ('p \<Rightarrow> ('v, 'p) profile_mutation) \<Rightarrow> 'v \<Rightarrow> 'p \<Rightarrow> disk \<Rightarrow> bool" where
  "reads_atomically st d f v p d' \<longleftrightarrow>
     (\<exists>c. legal st d c \<and> legal st c d' \<and> visible_profile st c = Some p \<and> f p = MutationUnchanged v)"

lemma tx_committed_atomic: "tx_committed st d f v p r d' \<Longrightarrow> commits_atomically st d f v p r d' \<or> overtaken r d'"
  unfolding tx_committed_def published_at_def commits_atomically_def by (metis publish_visible)

lemma tx_unchanged_atomic: "tx_unchanged st d f v p d' \<Longrightarrow> reads_atomically st d f v p d'"
  by (auto simp: tx_unchanged_def reads_atomically_def)

lemma profile_transact_done:
  assumes run: "profile_transact st u nick f s = (res, s')" and name: "normalize_storage_nickname u nick = Inr name"
    and rely: "peers_follow st" "serde_round_trip st" "keys_distinct (fs_disk s)"
  shows "tx_done st name (fs_disk s) f res (fs_disk s')"
proof -
  from run name have "transaction_attempts max_transaction_cas_attempts st name None (\<lambda>snap _. Inr (f (sn_profile snap))) s = (res, s')"
    by (simp add: profile_transact_def transaction_with_context_def fs_bind_step)
  from transaction_attempts_result [OF this rely] show ?thesis .
qed

lemma profile_transact_refused:
  "normalize_storage_nickname u nick = Inl e \<Longrightarrow> profile_transact st u nick f s = (Inl e, s)"
  by (simp add: profile_transact_def transaction_with_context_def fs_bind_step)

end
