(* ===== verification/RewardJournal.thy ===== *)
theory RewardJournal
  imports StoreTransactions RewardTasks
begin

text \<open>
  The durable side of race rewards, \<open>p5136-profile/src/progression.rs\<close>: recipients bound
  to a store and a server run, reward keys, and the closure with which
  \<open>apply_race_reward_once\<close> credits a planned reward in one profile transaction, keeping
  the receipt of the last race in the profile.

  A profile is its RP, its Lucci, the receipt and the rest, a parameter.  The validation of
  a lease compares it with the root and the store identity found on disk
  (\<open>validate_race_run_lease\<close> of \<open>store.rs\<close>), which are arguments.
\<close>

section \<open>Leases, recipients and keys\<close>

definition default_rp :: u32 where "default_rp = 20000000"

record race_run_lease =
  ll_generation :: u64
  ll_store_id :: u64
  ll_root :: ustring

record race_reward_recipient =
  rc_store_root :: ustring
  rc_store_id :: u64
  rc_run_generation :: u64
  rc_nickname :: ustring
  rc_canonical_nickname :: ustring
  rc_user_no :: u32

datatype race_reward_recipient_error =
    RrStore store_error
  | RrZeroUserNo
  | RrProfileMissing ustring

text \<open>\<open>found\<close>: the canonical root of the store and the identity recorded there.\<close>

definition validate_race_run_lease :: "ustring \<times> u64 \<Rightarrow> race_run_lease \<Rightarrow> store_error + unit" where
  "validate_race_run_lease found lease =
     (if fst found \<noteq> ll_root lease then Inl PsRaceRunLeaseStoreMismatch
      else if snd found \<noteq> ll_store_id lease then Inl (PsProfileStoreIdentityChanged (ll_store_id lease) (snd found))
      else Inr ())"

definition profile_exists :: "unicode_tables \<Rightarrow> ustring list \<Rightarrow> ustring \<Rightarrow> store_error + bool" where
  "profile_exists u directories nick =
     rbind (normalize_storage_nickname u nick) (\<lambda>nick.
     rbind (matching_directory u nick directories None) (\<lambda>matched. Inr (matched \<noteq> None)))"

definition bind_race_reward_recipient ::
  "unicode_tables \<Rightarrow> ustring \<times> u64 \<Rightarrow> ustring list \<Rightarrow> race_run_lease \<Rightarrow> ustring \<Rightarrow> u32 \<Rightarrow>
     race_reward_recipient_error + race_reward_recipient" where
  "bind_race_reward_recipient u found directories lease nick user =
     rbind (rmap_err RrStore (validate_race_run_lease found lease)) (\<lambda>_.
     rbind (rmap_err RrStore (normalize_storage_nickname u nick)) (\<lambda>nick.
     rbind (rguard (user \<noteq> 0) RrZeroUserNo) (\<lambda>_.
     rbind (rmap_err RrStore (profile_exists u directories nick)) (\<lambda>exists.
     if \<not> exists then Inl (RrProfileMissing nick)
     else Inr \<lparr>rc_store_root = ll_root lease, rc_store_id = ll_store_id lease,
       rc_run_generation = ll_generation lease, rc_nickname = nick,
       rc_canonical_nickname = canonical_nickname_key u nick, rc_user_no = user\<rparr>))))"

datatype race_reward_key_error =
    ZeroRoomId
  | RecipientLeaseStoreMismatch
  | RecipientLeaseGenerationMismatch u64 u64

definition race_reward_key_new ::
  "race_reward_recipient \<Rightarrow> race_run_lease \<Rightarrow> u32 \<Rightarrow> u64 \<Rightarrow> race_reward_key_error + race_reward_key" where
  "race_reward_key_new recipient lease room epoch =
     (if rc_store_root recipient \<noteq> ll_root lease \<or> rc_store_id recipient \<noteq> ll_store_id lease
      then Inl RecipientLeaseStoreMismatch
      else if rc_run_generation recipient \<noteq> ll_generation lease
      then Inl (RecipientLeaseGenerationMismatch (rc_run_generation recipient) (ll_generation lease))
      else if room = 0 then Inl ZeroRoomId
      else Inr \<lparr>rk_kind = CurrentKey (ll_generation lease) (ll_store_id lease) (rc_canonical_nickname recipient),
        rk_room_id = room, rk_race_epoch = epoch, rk_user_no = rc_user_no recipient\<rparr>)"

section \<open>Receipts and profiles\<close>

record race_reward_receipt =
  rr_key :: race_reward_key
  rr_applied :: applied_time_reward

record 'x reward_profile_state =
  rps_rp :: u32
  rps_lucci :: u32
  rps_receipt :: "race_reward_receipt option"
  rps_rest :: 'x

datatype reward_amount_error = AmountRp u32 nat | AmountLucci u32 nat

definition time_reward_new :: "u32 \<Rightarrow> u32 \<Rightarrow> reward_amount_error + time_reward" where
  "time_reward_new earned_rp earned_lucci =
     (if max_time_reward_rp_roll < unat earned_rp then Inl (AmountRp earned_rp max_time_reward_rp_roll)
      else if max_time_reward_lucci_roll < unat earned_lucci then Inl (AmountLucci earned_lucci max_time_reward_lucci_roll)
      else Inr \<lparr>tr_earned_rp = earned_rp, tr_earned_lucci = earned_lucci\<rparr>)"

definition finish_reward :: "u8 \<Rightarrow> time_reward" where
  "finish_reward reward_type =
     (if reward_type = 0 then \<lparr>tr_earned_rp = 10, tr_earned_lucci = 20\<rparr>
      else if reward_type = 1 then \<lparr>tr_earned_rp = 20, tr_earned_lucci = 50\<rparr>
      else \<lparr>tr_earned_rp = 0, tr_earned_lucci = 0\<rparr>)"

definition apply_time_reward ::
  "time_reward \<Rightarrow> 'x reward_profile_state \<Rightarrow> applied_time_reward \<times> 'x reward_profile_state" where
  "apply_time_reward reward p =
     (let p' = p\<lparr>rps_rp := default_rp, rps_lucci := rps_lucci p + tr_earned_lucci reward\<rparr>
      in (\<lparr>atr_current_rp = rps_rp p', atr_earned_rp = tr_earned_rp reward,
            atr_earned_lucci = tr_earned_lucci reward, atr_current_lucci = rps_lucci p'\<rparr>, p'))"

section \<open>Errors\<close>

datatype race_reward_order_error =
    StaleRunGeneration u64 u64
  | StaleEpoch u64 u64
  | ConflictingKeyAtEpoch u64 u64 u32 u32 u32

datatype race_reward_binding_error =
    RecipientStoreMismatch ustring ustring
  | RecipientRunGenerationMismatch u64 u64
  | KeyStoreMismatch "u64 option" u64
  | KeyRunGenerationMismatch "u64 option" u64
  | MissingRunGeneration
  | MissingCanonicalNickname
  | RecipientMismatch string ustring u32 "ustring option" u32

datatype invalid_stored_receipt_error =
    EarnedRpOutOfRange u32 nat
  | EarnedLucciOutOfRange u32 nat
  | CurrentRpNotNormalized u32 u32

datatype race_reward_persistence_error =
    RpeStore store_error
  | RpeOrder race_reward_order_error
  | RpeBinding race_reward_binding_error
  | RpeInvalidStoredReceipt invalid_stored_receipt_error
  | RpeRejectedButDurabilityUncertain race_reward_persistence_error store_error

section \<open>Validation\<close>

definition recipient_mismatch ::
  "string \<Rightarrow> race_reward_recipient \<Rightarrow> race_reward_key \<Rightarrow> race_reward_binding_error" where
  "recipient_mismatch situation recipient key =
     RecipientMismatch situation (rc_canonical_nickname recipient) (rc_user_no recipient)
       (key_canonical_nickname (rk_kind key)) (rk_user_no key)"

definition validate_attempted_recipient ::
  "race_run_lease \<Rightarrow> race_reward_recipient \<Rightarrow> race_reward_key \<Rightarrow> race_reward_binding_error + unit" where
  "validate_attempted_recipient lease recipient key =
     (if rc_store_root recipient \<noteq> ll_root lease \<or> rc_store_id recipient \<noteq> ll_store_id lease
      then Inl (RecipientStoreMismatch (rc_store_root recipient) (ll_root lease))
      else if rc_run_generation recipient \<noteq> ll_generation lease
      then Inl (RecipientRunGenerationMismatch (rc_run_generation recipient) (ll_generation lease))
      else if key_store_id (rk_kind key) \<noteq> Some (ll_store_id lease)
      then Inl (KeyStoreMismatch (key_store_id (rk_kind key)) (ll_store_id lease))
      else if key_run_generation (rk_kind key) \<noteq> Some (ll_generation lease)
      then Inl (KeyRunGenerationMismatch (key_run_generation (rk_kind key)) (ll_generation lease))
      else (case key_canonical_nickname (rk_kind key) of
          None \<Rightarrow> Inl MissingCanonicalNickname
        | Some name \<Rightarrow>
            if name \<noteq> rc_canonical_nickname recipient \<or> rk_user_no key \<noteq> rc_user_no recipient
            then Inl (recipient_mismatch ''attempted'' recipient key) else Inr ()))"

definition validate_stored_recipient ::
  "race_reward_recipient \<Rightarrow> race_reward_key \<Rightarrow> race_reward_binding_error + unit" where
  "validate_stored_recipient recipient key =
     (case key_store_id (rk_kind key) of
        Some i \<Rightarrow> if i \<noteq> rc_store_id recipient
          then Inl (KeyStoreMismatch (Some i) (rc_store_id recipient))
          else if (case key_canonical_nickname (rk_kind key) of None \<Rightarrow> True | Some n \<Rightarrow> n = rc_canonical_nickname recipient)
            \<and> (key_run_generation (rk_kind key) \<noteq> Some (rc_run_generation recipient) \<or> rk_user_no key = rc_user_no recipient)
          then Inr () else Inl (recipient_mismatch ''persisted'' recipient key)
      | None \<Rightarrow>
          if (case key_canonical_nickname (rk_kind key) of None \<Rightarrow> True | Some n \<Rightarrow> n = rc_canonical_nickname recipient)
            \<and> (key_run_generation (rk_kind key) \<noteq> Some (rc_run_generation recipient) \<or> rk_user_no key = rc_user_no recipient)
          then Inr () else Inl (recipient_mismatch ''persisted'' recipient key))"

definition validate_stored_receipt :: "race_reward_receipt \<Rightarrow> invalid_stored_receipt_error + unit" where
  "validate_stored_receipt receipt =
     (let applied = rr_applied receipt in
      if max_time_reward_rp_roll < unat (atr_earned_rp applied)
      then Inl (EarnedRpOutOfRange (atr_earned_rp applied) max_time_reward_rp_roll)
      else if max_time_reward_lucci_roll < unat (atr_earned_lucci applied)
      then Inl (EarnedLucciOutOfRange (atr_earned_lucci applied) max_time_reward_lucci_roll)
      else if atr_current_rp applied \<noteq> default_rp
      then Inl (CurrentRpNotNormalized (atr_current_rp applied) default_rp)
      else Inr ())"

section \<open>Applying a reward\<close>

type_synonym reward_answer = "race_reward_persistence_error + race_reward_receipt"

text \<open>What the stored receipt says of an attempt: the answer without a change, or nothing.\<close>

definition stored_answer ::
  "race_reward_recipient \<Rightarrow> race_reward_key \<Rightarrow> u64 \<Rightarrow> race_reward_receipt \<Rightarrow> reward_answer option" where
  "stored_answer recipient key attempted stored =
     (case validate_stored_receipt stored of Inl e \<Rightarrow> Some (Inl (RpeInvalidStoredReceipt e)) | Inr _ \<Rightarrow>
      (case validate_stored_recipient recipient (rr_key stored) of Inl e \<Rightarrow> Some (Inl (RpeBinding e)) | Inr _ \<Rightarrow>
       if rr_key stored = key then Some (Inr stored)
       else (case key_run_generation (rk_kind (rr_key stored)) of
           None \<Rightarrow> None
         | Some latest \<Rightarrow>
             if attempted < latest then Some (Inl (RpeOrder (StaleRunGeneration attempted latest)))
             else if attempted = latest
             then (if rk_user_no key \<noteq> rk_user_no (rr_key stored)
                   then Some (Inl (RpeBinding (recipient_mismatch ''same-generation persisted'' recipient (rr_key stored))))
                   else if rk_race_epoch key < rk_race_epoch (rr_key stored)
                   then Some (Inl (RpeOrder (StaleEpoch (rk_race_epoch key) (rk_race_epoch (rr_key stored)))))
                   else if rk_race_epoch key = rk_race_epoch (rr_key stored)
                   then Some (Inl (RpeOrder (ConflictingKeyAtEpoch attempted (rk_race_epoch key) (rk_user_no key)
                          (rk_room_id key) (rk_room_id (rr_key stored)))))
                   else None)
             else None)))"

definition reward_mutation ::
  "race_reward_recipient \<Rightarrow> race_reward_key \<Rightarrow> u64 \<Rightarrow> time_reward \<Rightarrow> 'x reward_profile_state \<Rightarrow>
     (reward_answer, 'x reward_profile_state) profile_mutation" where
  "reward_mutation recipient key attempted proposed p =
     (case Option.bind (rps_receipt p) (stored_answer recipient key attempted) of
        Some answer \<Rightarrow> MutationUnchanged answer
      | None \<Rightarrow>
          (case apply_time_reward proposed p of (applied, p') \<Rightarrow>
             (let receipt = \<lparr>rr_key = key, rr_applied = applied\<rparr>
              in MutationChanged (Inr receipt) (p'\<lparr>rps_receipt := Some receipt\<rparr>))))"

definition resolve_reward_transaction ::
  "(reward_answer, 'p) profile_transaction \<Rightarrow>
     race_reward_persistence_error + (race_reward_receipt, 'p) profile_transaction" where
  "resolve_reward_transaction transaction = (case transaction of
       TxUnchanged v p saved \<Rightarrow> rbind v (\<lambda>r. Inr (TxUnchanged r p saved))
     | TxCommitted v p saved \<Rightarrow> rbind v (\<lambda>r. Inr (TxCommitted r p saved))
     | TxDurabilityUncertain v p saved e \<Rightarrow> (case v of
           Inr r \<Rightarrow> Inr (TxDurabilityUncertain r p saved e)
         | Inl rejection \<Rightarrow> Inl (RpeRejectedButDurabilityUncertain rejection e)))"

text \<open>One call: the lease and the binding are checked, then one transaction runs.\<close>

definition apply_race_reward_once ::
  "'x reward_profile_state profile_store \<Rightarrow> unicode_tables \<Rightarrow> ustring \<times> u64 \<Rightarrow> race_run_lease \<Rightarrow>
     race_reward_recipient \<Rightarrow> race_reward_key \<Rightarrow> time_reward \<Rightarrow> fs_state \<Rightarrow>
     (race_reward_persistence_error + (race_reward_receipt, 'x reward_profile_state) profile_transaction) \<times> fs_state" where
  "apply_race_reward_once st u found lease recipient key proposed s =
     (case rbind (rmap_err RpeStore (validate_race_run_lease found lease)) (\<lambda>_.
           rbind (rmap_err RpeBinding (validate_attempted_recipient lease recipient key)) (\<lambda>_.
           ok_or (RpeBinding MissingRunGeneration) (key_run_generation (rk_kind key)))) of
        Inl e \<Rightarrow> (Inl e, s)
      | Inr attempted \<Rightarrow>
          (case profile_transact st u (rc_nickname recipient) (reward_mutation recipient key attempted proposed) s of
             (Inl e, s') \<Rightarrow> (Inl (RpeStore e), s')
           | (Inr transaction, s') \<Rightarrow> (resolve_reward_transaction transaction, s')))"

section \<open>Sequences of calls\<close>

record reward_request =
  rq_found :: "ustring \<times> u64"
  rq_lease :: race_run_lease
  rq_recipient :: race_reward_recipient
  rq_key :: race_reward_key
  rq_reward :: time_reward

definition reward_call ::
  "'x reward_profile_state profile_store \<Rightarrow> unicode_tables \<Rightarrow> reward_request \<Rightarrow> fs_state \<Rightarrow>
     (race_reward_persistence_error + (race_reward_receipt, 'x reward_profile_state) profile_transaction) \<times> fs_state" where
  "reward_call st u q =
     apply_race_reward_once st u (rq_found q) (rq_lease q) (rq_recipient q) (rq_key q) (rq_reward q)"

fun reward_calls ::
  "'x reward_profile_state profile_store \<Rightarrow> unicode_tables \<Rightarrow> reward_request list \<Rightarrow> fs_state \<Rightarrow>
     (race_reward_persistence_error + (race_reward_receipt, 'x reward_profile_state) profile_transaction) list \<times> fs_state" where
  "reward_calls st u [] s = ([], s)"
| "reward_calls st u (q # qs) s =
     (case reward_call st u q s of (answer, s') \<Rightarrow>
      (case reward_calls st u qs s' of (answers, s'') \<Rightarrow> (answer # answers, s'')))"

section \<open>The effect of a call\<close>

text \<open>The order in which receipts may follow each other: by run generation, then by epoch.\<close>

definition key_later :: "race_reward_key \<Rightarrow> race_reward_key \<Rightarrow> bool" where
  "key_later k k' \<longleftrightarrow> (case key_run_generation (rk_kind k) of
       None \<Rightarrow> key_run_generation (rk_kind k') \<noteq> None
     | Some g \<Rightarrow> (case key_run_generation (rk_kind k') of
           None \<Rightarrow> False
         | Some g' \<Rightarrow> g < g' \<or> g = g' \<and> rk_race_epoch k < rk_race_epoch k'))"

lemma key_later_irrefl: "\<not> key_later k k"
  by (auto simp: key_later_def split: option.split)

lemma key_later_trans: "key_later a b \<Longrightarrow> key_later b c \<Longrightarrow> key_later a c"
  by (auto simp: key_later_def split: option.splits)

definition credited ::
  "race_reward_key \<Rightarrow> time_reward \<Rightarrow> 'x reward_profile_state \<Rightarrow> 'x reward_profile_state" where
  "credited key reward p =
     (let p' = snd (apply_time_reward reward p)
      in p'\<lparr>rps_receipt := Some \<lparr>rr_key = key, rr_applied = fst (apply_time_reward reward p)\<rparr>\<rparr>)"

lemma reward_mutation_changed:
  assumes "reward_mutation recipient key g reward p = MutationChanged v p'" "key_run_generation (rk_kind key) = Some g"
  shows "p' = credited key reward p" "v = Inr \<lparr>rr_key = key, rr_applied = fst (apply_time_reward reward p)\<rparr>"
    "\<And>stored. rps_receipt p = Some stored \<Longrightarrow> key_later (rr_key stored) key"
proof -
  from assms(1) have none: "Option.bind (rps_receipt p) (stored_answer recipient key g) = None"
    by (auto simp: reward_mutation_def split: option.splits)
  with assms(1) show "p' = credited key reward p" "v = Inr \<lparr>rr_key = key, rr_applied = fst (apply_time_reward reward p)\<rparr>"
    by (auto simp: reward_mutation_def credited_def Let_def split: prod.splits)
  show "key_later (rr_key stored) key" if "rps_receipt p = Some stored" for stored
    using none that assms(2)
    by (auto simp: stored_answer_def key_later_def not_less order_less_le split: sum.splits option.splits if_splits)
qed

lemma reward_mutation_unchanged:
  assumes "reward_mutation recipient key g reward p = MutationUnchanged (Inr r)"
  shows "rps_receipt p = Some r \<and> rr_key r = key"
proof -
  from assms obtain stored where s: "rps_receipt p = Some stored" "stored_answer recipient key g stored = Some (Inr r)"
    by (auto simp: reward_mutation_def bind_eq_Some_conv Let_def split: option.splits prod.splits)
  then show ?thesis
    by (auto simp: stored_answer_def split: sum.splits option.splits if_splits)
qed

text \<open>
  What one call does to the visible profile of a quiet store: nothing, or one credit under
  a key later than that of the stored receipt.
\<close>

definition answered_key ::
  "race_reward_persistence_error + (race_reward_receipt, 'p) profile_transaction \<Rightarrow> race_reward_receipt option" where
  "answered_key answer = (case answer of
       Inl _ \<Rightarrow> None
     | Inr (TxUnchanged r _ _) \<Rightarrow> Some r
     | Inr (TxCommitted r _ _) \<Rightarrow> Some r
     | Inr (TxDurabilityUncertain r _ _ _) \<Rightarrow> Some r)"

fun tx_value :: "('v, 'p) profile_transaction \<Rightarrow> 'v" where
  "tx_value (TxUnchanged v _ _) = v"
| "tx_value (TxCommitted v _ _) = v"
| "tx_value (TxDurabilityUncertain v _ _ _) = v"

lemma answered_resolved: "answered_key (resolve_reward_transaction t) = Some r \<Longrightarrow> tx_value t = Inr r"
  by (cases t; cases "tx_value t") (simp_all add: resolve_reward_transaction_def answered_key_def)

lemma reward_call_effect:
  assumes call: "reward_call st u q s = (answer, s')"
    and rely: "peers_follow st" "peers_publish_nothing st" "serde_round_trip st" "keys_distinct (fs_disk s)"
    and p: "visible_profile st (fs_disk s) = Some p"
  shows "keys_distinct (fs_disk s') \<and>
    (visible_profile st (fs_disk s') = Some p \<and>
       (\<forall>r. answered_key answer = Some r \<longrightarrow> rr_key r = rq_key q \<and> rps_receipt p = Some r)
     \<or> visible_profile st (fs_disk s') = Some (credited (rq_key q) (rq_reward q) p)
       \<and> (\<forall>stored. rps_receipt p = Some stored \<longrightarrow> key_later (rr_key stored) (rq_key q))
       \<and> key_run_generation (rk_kind (rq_key q)) \<noteq> None
       \<and> (\<forall>r. answered_key answer = Some r \<longrightarrow> rps_receipt (credited (rq_key q) (rq_reward q) p) = Some r))"
proof -
  let ?check = "rbind (rmap_err RpeStore (validate_race_run_lease (rq_found q) (rq_lease q))) (\<lambda>_.
           rbind (rmap_err RpeBinding (validate_attempted_recipient (rq_lease q) (rq_recipient q) (rq_key q))) (\<lambda>_.
           ok_or (RpeBinding MissingRunGeneration) (key_run_generation (rk_kind (rq_key q)))))"
  show ?thesis
  proof (cases ?check)
    case (Inl e)
    with call have "answer = Inl e" "s' = s"
      by (auto simp: reward_call_def apply_race_reward_once_def)
    with rely(4) p show ?thesis by (simp add: answered_key_def)
  next
    case (Inr g)
    then have g: "key_run_generation (rk_kind (rq_key q)) = Some g" by (auto simp: result_iff)
    let ?f = "reward_mutation (rq_recipient q) (rq_key q) g (rq_reward q)"
    obtain res s1 where run: "profile_transact st u (rc_nickname (rq_recipient q)) ?f s = (res, s1)"
      by (cases "profile_transact st u (rc_nickname (rq_recipient q)) ?f s")
    have ans: "s' = s1" "answer = (case res of Inl e \<Rightarrow> Inl (RpeStore e) | Inr t \<Rightarrow> resolve_reward_transaction t)"
      using call Inr run by (auto simp: reward_call_def apply_race_reward_once_def split: sum.splits)
    show ?thesis
    proof (cases "normalize_storage_nickname u (rc_nickname (rq_recipient q))")
      case (Inl e)
      with run ans rely(4) p show ?thesis by (auto simp: profile_transact_refused answered_key_def)
    next
      case (Inr name)
      note tx = profile_transact_done [OF run Inr rely(1,3,4)]
      have unchanged: ?thesis if "tx_unchanged st (fs_disk s) ?f v old (fs_disk s1)"
        "\<And>r. answered_key answer = Some r \<Longrightarrow> v = Inr r" for v old
      proof -
        from quiet_unchanged [OF that(1) rely(2)] p have "old = p" "visible_profile st (fs_disk s1) = Some p"
          "?f p = MutationUnchanged v" by auto
        moreover have "keys_distinct (fs_disk s1)"
          using that(1) legalD(1) [OF _ rely(4)] by (auto simp: tx_unchanged_def settled_def)
        ultimately show ?thesis using that(2) reward_mutation_unchanged ans(1) by metis
      qed
      have committed: ?thesis if com: "tx_committed st (fs_disk s) ?f v new r (fs_disk s1)"
        "\<And>r. answered_key answer = Some r \<Longrightarrow> v = Inr r" for v new r
      proof -
        from quiet_commit [OF com(1) rely(2)] p have c: "?f p = MutationChanged v new"
          "visible_profile st (fs_disk s1) = Some new" and l: "legal st (fs_disk s) (fs_disk s1)" by auto
        note m = reward_mutation_changed [OF c(1) g]
        have "rps_receipt (credited (rq_key q) (rq_reward q) p) = Some x" if "answered_key answer = Some x" for x
          using com(2) [OF that] m(2) by (simp add: credited_def Let_def)
        with m(1,3) c(2) legalD(1) [OF l rely(4)] g ans(1) show ?thesis by auto
      qed
      show ?thesis
      proof (cases res)
        case (Inl e)
        with tx have st: "settled st (fs_disk s) (fs_disk s1)" by (simp add: tx_done_def)
        with quiet_settled [OF st rely(2)] p Inl ans legalD(1) [OF _ rely(4)] show ?thesis
          by (auto simp: answered_key_def settled_def)
      next
        case t: (Inr t)
        have v: "tx_value t = Inr x" if "answered_key answer = Some x" for x
          using that unfolding ans(2) t sum.case by (rule answered_resolved)
        show ?thesis
        proof (cases t)
          case (TxUnchanged v old saved)
          with t tx v show ?thesis by (intro unchanged [of v old]) (auto simp: tx_done_def)
        next
          case (TxCommitted v new saved)
          with t tx v show ?thesis by (intro committed [of v new "snd saved"]) (auto simp: tx_done_def)
        next
          case (TxDurabilityUncertain v x saved e)
          with t tx have "tx_unchanged st (fs_disk s) ?f v x (fs_disk s1) \<or> tx_committed st (fs_disk s) ?f v x (snd saved) (fs_disk s1)"
            by (simp add: tx_done_def)
          with TxDurabilityUncertain v unchanged [of v x] committed [of v x "snd saved"] show ?thesis by auto
        qed
      qed
    qed
  qed
qed

text \<open>The key of the stored receipt, if there is one.\<close>

definition stored_keys :: "'x reward_profile_state \<Rightarrow> race_reward_key list" where
  "stored_keys p = (case rps_receipt p of None \<Rightarrow> [] | Some r \<Rightarrow> [rr_key r])"

lemma stored_keys_credited [simp]: "stored_keys (credited k reward p) = [k]"
  by (simp add: stored_keys_def credited_def Let_def)

lemma credited_lucci [simp]: "rps_lucci (credited k reward p) = rps_lucci p + tr_earned_lucci reward"
  by (simp add: credited_def apply_time_reward_def Let_def)

lemma credited_rest [simp]: "rps_rest (credited k reward p) = rps_rest p"
  by (simp add: credited_def apply_time_reward_def Let_def)

lemma sorted_keys_distinct: "sorted_wrt key_later ks \<Longrightarrow> distinct ks"
  using key_later_irrefl by (induction ks) auto

end
