(* ===== verification/StoreProps.thy ===== *)
theory StoreProps
  imports RewardJournal IdentityProps "HOL-Library.Sublist"
begin

text \<open>The properties of the profile store and of the reward receipts kept in it.\<close>

section \<open>A run of the store, written out\<close>







lemma temporary_not_version [simp]: "temporary_name n pid q \<noteq> version_filename r"
  using version_filename_not_temporary [of r n pid q] by metis






















section \<open>Properties\<close>





















end
