(* ===== verification/Spec2Isabelle.thy ===== *)
theory Spec2Isabelle
  imports IdentityProps CodecProps RaceObjects RoomProps RaceProps UdpProps StoreProps
begin

text \<open>
  Verification library of the P5136 server, the Rust server for the Korean P5136 client
  (\<open>src/crates\<close>).  This header says what is modelled, where, and what the theorems show.

  \<^bold>\<open>The program.\<close>  Sessions (one task per TCP connection, \<open>p5136-server/src/session.rs\<close>) decode
  encrypted frames, parse packets with the codecs of \<open>p5136-core\<close> and send commands over a channel
  to one actor, the world (\<open>world.rs\<close>).  The actor owns all shared state: the identity registry
  (\<open>identity.rs\<close>), the rooms, the reward lanes, the item probabilities, the bounded queues to the
  sessions and the wire gate (\<open>operation_gate.rs\<close>).  It handles one command at a time: a handler
  checks, plans its deliveries, reserves a place in every queue it needs and only then commits and
  publishes.  A heartbeat (\<open>advance_loading\<close>) advances loading, running and settling races.
  Rewards leave the actor as tasks with a lease; workers persist them in the profile store
  (\<open>p5136-profile/src/store.rs\<close>, \<open>progression.rs\<close>) and report back.  Datagrams arrive beside the
  sessions; the address a user sends from is bound to the generation of the session (\<open>udp_state.rs\<close>).

  \<^bold>\<open>Conventions.\<close>  A Rust \<open>u8\<close> to \<open>u64\<close> is a word of its width, so arithmetic wraps where the source
  wraps and \<open>checked_add\<close> is written out; \<open>i32\<close> and \<open>i16\<close> fields are \<open>int\<close> with their range checks,
  \<open>usize\<close> is \<open>nat\<close> with the checks against \<open>usize::MAX\<close> where the source has them, \<open>f32\<close> is its bit
  pattern, a \<open>String\<close> the list of its scalar values.  A \<open>Result\<close> is a sum with the error on the left;
  \<open>expect\<close>, \<open>unreachable!\<close> and indexing panics are error constructors of their own (\<open>IPanic\<close>,
  \<open>LePanic\<close>, \<open>WoPanic\<close>, \<open>RePanic\<close>) or \<open>None\<close>, so that a theorem can say that they do not happen.  A
  \<open>HashMap\<close> is an association list read by \<open>map_of\<close> and changed by \<open>AList.update\<close> and
  \<open>AList.delete\<close>; a \<open>HashSet\<close> or \<open>BTreeSet\<close> is a set.  An \<open>Instant\<close> is a number of nanoseconds.
  What the source takes from outside is an argument: the Unicode tables (\<open>unicode_tables\<close>: NFC and
  case folding), the random numbers (\<open>draw\<close>, \<open>item_rolls\<close>, \<open>reward_rolls\<close>), the tick clock, the free
  places in the queues (\<open>permits\<close>), the MyRoom hub asked on a durable reward (\<open>reward_hub\<close>), the JSON
  codec of a profile (\<open>st_encode\<close>, \<open>st_decode\<close>, with the law \<open>serde_round_trip\<close>), the faults of the
  file system and what other processes do to a profile directory (\<open>fs_env\<close>).

  \<^bold>\<open>Foundations.\<close>  \<open>Prelude\<close> has the vocabulary and the shared facts on lists, options and bytes,
  \<open>Slots\<close> the eight-entry tables of a room, \<open>Transition\<close> the two locales every stateful component
  interprets: \<open>step_invariant\<close> (an invariant of a step relation) and the preorder of its steps.

  \<^bold>\<open>Wire layer\<close> (\<open>p5136-core\<close>).  \<open>Wire\<close>: packet names (\<open>adler32.rs\<close>) and the table cipher
  (\<open>encoded.rs\<close>); \<open>Packet\<close>: reader and writer (\<open>packet.rs\<close>); \<open>Frame\<close>: encryption, TCP frames, UDP
  envelope, handshake and ports (\<open>crypto.rs\<close>, \<open>frame.rs\<close>, \<open>datagram.rs\<close>, \<open>handshake.rs\<close>, \<open>ports.rs\<close>);
  \<open>Nickname\<close>: \<open>nickname.rs\<close>; \<open>RoomProtocol\<close>, \<open>LobbyProtocol\<close>, \<open>RaceStart\<close>, \<open>RaceProtocol\<close>: the room,
  ready-stage, race start, race and result packets, each parser and serializer with its limits.
  \<open>CodecProps\<close>: encrypted frames, the envelope, strings and requests round-trip, the table cipher is
  lossless exactly on the values it can hold, snapshots are written exactly when valid, accepted chat
  can be echoed, accepted nicknames are safe file names, a start command keeps its ceiling.

  \<^bold>\<open>Identities\<close> (\<open>identity.rs\<close>).  \<open>Identity\<close>: registry, operation gates, leases, migration tickets,
  one definition per method.  \<open>IdentityInv\<close>: the invariant and the locale \<open>registry_operation\<close>, the
  contract of a method; \<open>IdentityOps\<close> proves it for each; \<open>IdentitySteps\<close>: the registry with the
  outstanding leases as a transition system.  \<open>IdentityProps\<close>: one owner per identity, generations
  fence old sessions, a frozen identity admits nothing and its drained migration completes, aborts
  restore, no expectation fails.

  \<^bold>\<open>Wire gate\<close> (\<open>operation_gate.rs\<close>).  \<open>WireGate\<close>: admission, closing, forced bypass, draining; the
  counter of a phase is the number of live guards, a closed phase only shrinks.

  \<^bold>\<open>Rooms\<close> (\<open>world.rs\<close>).  \<open>RoomData\<close> and \<open>RoomState\<close>: \<open>ProtocolRoomState\<close> and its methods.
  \<open>RoomInv\<close>, \<open>RoomOps\<close>, \<open>RoomChanges\<close>, \<open>RoomLobby\<close>: its invariant, kept by every method; each of the
  eight seats holds exactly the racer, AI racer or closed slot it names.  \<open>RoomProps\<close>: any sequence of
  operations leaves a room that can be sent; random tracks do not repeat early.

  \<^bold>\<open>World\<close> (\<open>world.rs\<close>).  \<open>World\<close>: the state and the reservation of queue places; \<open>RoomDirectory\<close>: room
  IDs and plain rooms; \<open>LobbyCommands\<close>: the ready-stage commands and the race start;
  \<open>RoomMembership\<close>: listing, creating, joining and leaving, planned exits, aborted loadings;
  \<open>RaceRun\<close>: the loading handshake, finishes, fan-outs, the heartbeat; \<open>ItemProbability\<close>
  (with \<open>item_probability.rs\<close>): the weighted item selection; \<open>Settlement\<close>: ranking, team points,
  result packets, proposed rewards; \<open>RewardTasks\<close>: leases, retries, completions, dead letters, the
  drain status.  \<open>WorldInv\<close>: the debug assertions of the source as executable predicates and the
  invariant \<open>world_inv\<close> that implies them.  \<open>WorldSteps\<close>, \<open>StartSteps\<close>, \<open>MemberSteps\<close>, \<open>PlainSteps\<close>,
  \<open>RaceRunInv\<close>, \<open>SettleInv\<close>, \<open>RewardInv\<close>: every command, the heartbeat and every reward operation
  keep it.  \<open>WorldSystem\<close>: the actor as a step relation with the identity steps and arbitrary changes
  of the sessions, ports, tracks and item tables the rooms do not depend on.
  \<open>WorldProps\<close>, \<open>StartProps\<close>, \<open>RaceProps\<close>: reachable worlds satisfy the assertions; the room commands
  refine an abstract map from rooms to members; a failing command changes nothing; a start freezes the
  room it was asked for; a planned exit is a removal; the heartbeat never panics; the ranking is the
  order by time; a reward is applied once; a paid race frees exactly its lanes; items are drawn by
  their weights.

  \<^bold>\<open>UDP endpoints\<close> (\<open>udp_state.rs\<close>).  \<open>UdpState\<close>: the mirror of the active identities, the endpoint
  tables of the two transports, ingress, rebind, advance, release and targets.  \<open>UdpInv\<close>: the locale
  \<open>endpoint_slots\<close>, interpreted on the tables, and the invariant that every operation keeps.
  \<open>UdpProps\<close>: the first endpoint of a generation wins, a reconnect fences the datagrams that were
  sent before it, an endpoint is reported only for the generation the registry holds.

  \<^bold>\<open>Profile store\<close> (\<open>store.rs\<close>).  \<open>FileSystem\<close>: a directory as a list of named files, changed one atomic
  access at a time; before each access the other processes may act (\<open>fe_peers\<close>), and an access may
  fail without an effect (\<open>fe_fault\<close>).  \<open>ProfileStore\<close>: file names, listing and cleaning, loading with
  recovery from corrupt revisions, the compare-and-swap (temporary file, second listing, compaction,
  hard link, directory sync), transactions, saves and creation.  \<open>DiskLaws\<close>: what a process that
  follows the protocol does to the directory, \<open>legal\<close>: it adds the next revision, or removes
  temporaries and old revisions.  \<open>StoreRuns\<close>, \<open>StorePublish\<close>, \<open>StoreQuiet\<close>, \<open>StoreTransactions\<close>: the
  locales \<open>disk_relation\<close> and \<open>disk_writes\<close> (a preorder on directories that every access keeps), their
  interpretations, and the result of a load, a swap and a transaction.  The rely on the others,
  \<open>peers_follow\<close>, is that they are legal and leave the temporaries of this process alone; under the
  run lease they publish nothing (\<open>peers_publish_nothing\<close>).  A directory keeps the newest 63 revisions,
  so a process that sleeps between its second listing and its hard link while 62 or more revisions
  are published could link an old number again; \<open>overtaken\<close> names that case.

  \<^bold>\<open>Reward journal\<close> (\<open>progression.rs\<close>).  \<open>RewardJournal\<close>: recipients, keys, the validation of leases and
  stored receipts, \<open>apply_race_reward_once\<close> and sequences of calls.  \<open>StoreProps\<close>: transactions are
  atomic among processes, under the lease a transaction is one application of its closure, rewards
  are credited once and in the order of generation and epoch.

  \<^bold>\<open>Race objects\<close> (\<open>race_object_registry.rs\<close>).  \<open>RaceObjects\<close>: planning and committing of the item
  objects of a race; the registry stays within 1,024 objects, owners and classes are stable, a
  repeated operation is suppressed.

  \<^bold>\<open>Bounds.\<close>  The attempts of the store (16 transactions, saves and creations, 128 temporary names)
  are the bounds of the source, with its errors when they run out; no other definition uses
  fuel.  The search for a plain room ID, a \<open>loop\<close> in the source, is a \<open>partial_function\<close>; the theorem
  \<open>create_room_returns\<close> says exactly when it returns.  The other loops are structural or bounded by an
  explicit range.

  \<^bold>\<open>Not modelled.\<close>  The sockets, tasks and channels around the actor (\<open>session.rs\<close>, \<open>runtime.rs\<close>,
  \<open>udp_runtime.rs\<close>, \<open>messenger_runtime.rs\<close>, \<open>xun_sidecar.rs\<close>), which are I/O around the modelled
  operations; the persistence modules of the server, of \<open>p5136-profile\<close> the fields of a profile, the
  catalogs, the equipment sidecars and the acquisition of the run lease (lock file, generation
  markers); the asset tools (\<open>p5136-assets\<close>), the launcher and connector, the test oracle.  Of the world:
  MyRoom and the messenger (actors of their own), profile and equipment writes, the relay of game slots and item pickups, which
  rests on the decoder of item operations (\<open>game_slot_item_semantics.rs\<close>), the team booster, whose
  gauge is computed in floating point, and the closing of sessions whose queue is full.  The packet
  families not named above (shop, inventory, scenario, telemetry and others) follow the same pattern as
  the modelled codecs.  In debug builds the actor asserts that a frozen race has at most eight player
  IDs; \<open>frozen_ids_fit_iff\<close> shows that this can fail with observers, so \<open>world_inv\<close> leaves it out.
\<close>

end
